(* ===== verification/Prelude.thy ===== *)
theory Prelude
  imports Main "HOL-Library.AList" "HOL-Library.Char_ord" "HOL-Library.Sublist"
begin

text \<open>
  What every component shares: Python exceptions as values, results as sums, Python dicts as
  insertion-ordered association lists, and the decimal and hexadecimal printing that f-strings use.

  A Python function that may raise is modelled by a function into \<open>'a res\<close>, the sum of the
  exception and the value. A method that also mutates an object returns the pair of the result and
  the new state, so that the state at the moment of the raise is visible.

  Python strings are \<open>string\<close>, one \<open>char\<close> per code point. A code point above 255 has no
  \<open>char\<close>: the model speaks of texts over the first 256 code points.
\<close>

section \<open>Exceptions\<close>

text \<open>
  The exception classes the modelled code raises or tests. \<open>UserError\<close> is a class of the
  application, named by its \<open>__name__\<close>.
\<close>

datatype exn_kind =
    ValueError | TypeError | KeyError | AttributeError | IndexError | RuntimeError | TimeoutError
  | OverflowError | NameError | JSONDecodeError | RecursionError | NotImplementedError | PyException
  | NonDeterminismError | WorkflowStateError | NonRetryableError | TaskFailedError
  | OrchestratorNotRegisteredError | ActivityNotRegisteredError | VersionNotRegisteredException
  | HistoryResolutionError | PropagationNotFoundError | DaprInternalError | ActorMethodNotFoundError
  | ActorTypeNotFoundError | ActorPayloadDecodeError
  | UserError string

fun exn_name :: "exn_kind \<Rightarrow> string" where
  "exn_name ValueError = ''ValueError''"
| "exn_name TypeError = ''TypeError''"
| "exn_name KeyError = ''KeyError''"
| "exn_name AttributeError = ''AttributeError''"
| "exn_name IndexError = ''IndexError''"
| "exn_name RuntimeError = ''RuntimeError''"
| "exn_name TimeoutError = ''TimeoutError''"
| "exn_name OverflowError = ''OverflowError''"
| "exn_name NameError = ''NameError''"
| "exn_name JSONDecodeError = ''JSONDecodeError''"
| "exn_name RecursionError = ''RecursionError''"
| "exn_name NotImplementedError = ''NotImplementedError''"
| "exn_name PyException = ''Exception''"
| "exn_name NonDeterminismError = ''NonDeterminismError''"
| "exn_name WorkflowStateError = ''WorkflowStateError''"
| "exn_name NonRetryableError = ''NonRetryableError''"
| "exn_name TaskFailedError = ''TaskFailedError''"
| "exn_name OrchestratorNotRegisteredError = ''OrchestratorNotRegisteredError''"
| "exn_name ActivityNotRegisteredError = ''ActivityNotRegisteredError''"
| "exn_name VersionNotRegisteredException = ''VersionNotRegisteredException''"
| "exn_name HistoryResolutionError = ''_HistoryResolutionError''"
| "exn_name PropagationNotFoundError = ''PropagationNotFoundError''"
| "exn_name DaprInternalError = ''DaprInternalError''"
| "exn_name ActorMethodNotFoundError = ''ActorMethodNotFoundError''"
| "exn_name ActorTypeNotFoundError = ''ActorTypeNotFoundError''"
| "exn_name ActorPayloadDecodeError = ''ActorPayloadDecodeError''"
| "exn_name (UserError n) = n"

text \<open>
  Failure details as they travel in history events and responses. The text of the stack trace is
  the interpreter's and is not modelled.
\<close>

record failure_details =
  errorType :: string
  errorMessage :: string

text \<open>An exception object: its class, \<open>str(ex)\<close>, and the details a task failure carries.\<close>

datatype exn = Exn (ex_kind: exn_kind) (ex_msg: string) (ex_details: "failure_details option")

abbreviation exc :: "exn_kind \<Rightarrow> string \<Rightarrow> exn" where
  "exc k m \<equiv> Exn k m None"

type_synonym 'a res = "exn + 'a"

text \<open>The status codes of gRPC.\<close>

datatype grpc_code =
    CANCELLED | UNKNOWN | INVALID_ARGUMENT | DEADLINE_EXCEEDED | NOT_FOUND | ALREADY_EXISTS
  | PERMISSION_DENIED | RESOURCE_EXHAUSTED | FAILED_PRECONDITION | ABORTED | OUT_OF_RANGE
  | UNIMPLEMENTED | INTERNAL | UNAVAILABLE | DATA_LOSS | UNAUTHENTICATED | OK_STATUS

section \<open>Results\<close>

definition res_bind :: "'a res \<Rightarrow> ('a \<Rightarrow> 'b res) \<Rightarrow> 'b res" where
  "res_bind m f = (case m of Inl e \<Rightarrow> Inl e | Inr x \<Rightarrow> f x)"

lemma res_bind_simps [simp]:
  "res_bind (Inl e) f = Inl e"
  "res_bind (Inr x) f = f x"
  by (simp_all add: res_bind_def)

lemma res_bind_Inr_iff: "res_bind m f = Inr y \<longleftrightarrow> (\<exists>x. m = Inr x \<and> f x = Inr y)"
  by (cases m) auto

lemma res_bind_Inl_iff:
  "res_bind m f = Inl e \<longleftrightarrow> m = Inl e \<or> (\<exists>x. m = Inr x \<and> f x = Inl e)"
  by (cases m) auto

text \<open>A comprehension over fallible elements: the first exception in order wins.\<close>

fun seq_res :: "'a res list \<Rightarrow> 'a list res" where
  "seq_res [] = Inr []"
| "seq_res (Inl e # ms) = Inl e"
| "seq_res (Inr x # ms) = res_bind (seq_res ms) (\<lambda>xs. Inr (x # xs))"

lemma seq_res_Inr_iff: "seq_res ms = Inr xs \<longleftrightarrow> ms = map Inr xs"
proof (induction ms arbitrary: xs rule: seq_res.induct)
  case (3 x ms)
  then show ?case by (cases xs) (auto simp: res_bind_Inr_iff)
qed auto

lemma seq_res_map_Inr [simp]: "seq_res (map (\<lambda>x. Inr (f x)) xs) = Inr (map f xs)"
  by (induction xs) auto

lemma seq_res_Inl_iff:
  "seq_res ms = Inl e \<longleftrightarrow> (\<exists>xs ms'. ms = map Inr xs @ Inl e # ms')"
proof (induction ms rule: seq_res.induct)
  case (2 e' ms)
  show ?case by (auto simp: Cons_eq_append_conv Cons_eq_map_conv)
next
  case (3 x ms)
  show ?case
  proof
    assume "seq_res (Inr x # ms) = Inl e"
    with 3 obtain xs ms' where "ms = map Inr xs @ Inl e # ms'"
      by (auto simp: res_bind_Inl_iff)
    then have "Inr x # ms = map Inr (x # xs) @ Inl e # ms'" by simp
    then show "\<exists>xs ms'. Inr x # ms = map Inr xs @ Inl e # ms'" by blast
  next
    assume "\<exists>xs ms'. Inr x # ms = map Inr xs @ Inl e # ms'"
    then obtain xs ms' where "Inr x # ms = map Inr xs @ Inl e # ms'" by blast
    then have "ms = map Inr (tl xs) @ Inl e # ms'" by (cases xs) auto
    with 3 show "seq_res (Inr x # ms) = Inl e" by (auto simp: res_bind_Inl_iff)
  qed
qed auto

section \<open>Dicts\<close>

text \<open>
  A Python dict keeps insertion order, and assigning an existing key keeps its position:
  exactly \<open>AList.update\<close>. \<open>del d[k]\<close> and \<open>d.pop(k, None)\<close> are \<open>AList.delete\<close>. The
  representation invariant is that keys are distinct.
\<close>

type_synonym ('k, 'v) dict = "('k \<times> 'v) list"

definition dict_get :: "('k, 'v) dict \<Rightarrow> 'k \<Rightarrow> 'v option" where
  "dict_get d k = map_of d k"

definition dict_set :: "'k \<Rightarrow> 'v \<Rightarrow> ('k, 'v) dict \<Rightarrow> ('k, 'v) dict" where
  "dict_set k v d = AList.update k v d"

definition dict_del :: "'k \<Rightarrow> ('k, 'v) dict \<Rightarrow> ('k, 'v) dict" where
  "dict_del k d = AList.delete k d"

definition dict_has :: "('k, 'v) dict \<Rightarrow> 'k \<Rightarrow> bool" where
  "dict_has d k = (dict_get d k \<noteq> None)"

abbreviation dict_keys :: "('k, 'v) dict \<Rightarrow> 'k list" where
  "dict_keys d \<equiv> map fst d"

definition dict_wf :: "('k, 'v) dict \<Rightarrow> bool" where
  "dict_wf d = distinct (dict_keys d)"

named_theorems dict_simps

lemma dict_get_code [dict_simps, code]:
  "dict_get [] k = None"
  "dict_get ((k', v) # d) k = (if k' = k then Some v else dict_get d k)"
  by (auto simp: dict_get_def)

lemma dict_set_code [dict_simps, code]:
  "dict_set k v [] = [(k, v)]"
  "dict_set k v ((k', v') # d) = (if k' = k then (k, v) # d else (k', v') # dict_set k v d)"
  by (auto simp: dict_set_def)

lemma dict_del_code [dict_simps, code]:
  "dict_del k [] = []"
  "dict_del k ((k', v) # d) = (if k' = k then dict_del k d else (k', v) # dict_del k d)"
  by (auto simp: dict_del_def AList.delete_eq)

lemma dict_wf_code [dict_simps, code]:
  "dict_wf [] = True"
  "dict_wf ((k, v) # d) = (k \<notin> set (dict_keys d) \<and> dict_wf d)"
  by (auto simp: dict_wf_def)

lemma dict_get_set: "dict_get (dict_set k v d) k' = (if k' = k then Some v else dict_get d k')"
  by (simp add: dict_get_def dict_set_def update_conv)

lemma dict_get_del: "dict_get (dict_del k d) k' = (if k' = k then None else dict_get d k')"
  by (simp add: dict_get_def dict_del_def delete_conv)

lemma dict_get_Nil [simp]: "dict_get [] k = None"
  by (simp add: dict_get_def)

lemma dict_wf_Nil [simp]: "dict_wf []"
  by (simp add: dict_wf_def)

lemma dict_wf_set [simp]: "dict_wf d \<Longrightarrow> dict_wf (dict_set k v d)"
  by (simp add: dict_wf_def dict_set_def distinct_update)

lemma dict_wf_del [simp]: "dict_wf d \<Longrightarrow> dict_wf (dict_del k d)"
  by (simp add: dict_wf_def dict_del_def distinct_delete)

lemma dict_keys_set_list:
  "dict_keys (dict_set k v d) = (if k \<in> set (dict_keys d) then dict_keys d else dict_keys d @ [k])"
proof (induction d)
  case (Cons p d)
  then show ?case by (cases p) (simp add: dict_simps)
qed (simp add: dict_simps)

lemma dict_keys_set: "set (dict_keys (dict_set k v d)) = insert k (set (dict_keys d))"
  unfolding dict_keys_set_list by auto

lemma dict_keys_del: "set (dict_keys (dict_del k d)) = set (dict_keys d) - {k}"
  by (auto simp: dict_del_def AList.delete_eq)

lemma dict_get_None_iff: "dict_get d k = None \<longleftrightarrow> k \<notin> set (dict_keys d)"
  by (simp add: dict_get_def map_of_eq_None_iff)

lemma dict_has_iff: "dict_has d k \<longleftrightarrow> k \<in> set (dict_keys d)"
  by (auto simp: dict_has_def dict_get_None_iff)

lemma dict_get_SomeD: "dict_get d k = Some v \<Longrightarrow> (k, v) \<in> set d"
  by (simp add: dict_get_def map_of_SomeD)

lemma dict_get_in: "dict_wf d \<Longrightarrow> (k, v) \<in> set d \<Longrightarrow> dict_get d k = Some v"
  by (simp add: dict_get_def dict_wf_def)

lemma dict_del_fresh: "k \<notin> set (dict_keys d) \<Longrightarrow> dict_del k d = d"
  by (induction d) (auto simp: dict_simps)

lemma dict_set_fresh: "k \<notin> set (dict_keys d) \<Longrightarrow> dict_set k v d = d @ [(k, v)]"
  by (induction d) (auto simp: dict_simps)

lemma dict_set_set: "dict_set k v (dict_set k w d) = dict_set k v d"
  by (induction d) (auto simp: dict_simps)

lemma dict_del_set_mem: "set (dict_del k d) \<subseteq> set d"
  by (auto simp: dict_del_def AList.delete_eq)

lemma dict_set_mem: "p \<in> set (dict_set k v d) \<Longrightarrow> p = (k, v) \<or> p \<in> set d"
  by (induction d) (auto simp: dict_simps split: if_splits)

lemma length_dict_set:
  "length (dict_set k v d) = (if dict_has d k then length d else Suc (length d))"
proof -
  have "length (dict_keys (dict_set k v d)) = (if dict_has d k then length d else Suc (length d))"
    unfolding dict_keys_set_list dict_has_iff by simp
  then show ?thesis by simp
qed

lemma length_dict_del:
  "dict_wf d \<Longrightarrow> length (dict_del k d) = (if dict_has d k then length d - 1 else length d)"
proof (induction d)
  case (Cons p d)
  obtain k' v where p: "p = (k', v)" by (cases p)
  from Cons.prems p have fresh: "k' \<notin> set (dict_keys d)" and "dict_wf d"
    by (simp_all add: dict_simps)
  with Cons.IH have IH: "length (dict_del k d) = (if dict_has d k then length d - 1 else length d)"
    by simp
  show ?case
  proof (cases "k' = k")
    case True
    with fresh p show ?thesis by (simp add: dict_simps dict_has_iff dict_del_fresh)
  next
    case False
    with IH p show ?thesis by (cases d) (auto simp: dict_simps dict_has_iff)
  qed
qed (simp add: dict_simps dict_has_iff)

lemmas dict_facts = dict_get_set dict_get_del dict_keys_set dict_keys_del dict_has_iff

text \<open>
  The interface a client of a dict relies on, with the laws a Python dict promises. The history
  cache and the state tracker are proved over it.
\<close>

locale dict_like =
  fixes lookup :: "'d \<Rightarrow> 'k \<Rightarrow> 'v option"
    and assign :: "'k \<Rightarrow> 'v \<Rightarrow> 'd \<Rightarrow> 'd"
    and discard :: "'k \<Rightarrow> 'd \<Rightarrow> 'd"
    and ok :: "'d \<Rightarrow> bool"
  assumes lookup_assign: "ok d \<Longrightarrow> lookup (assign k v d) k' = (if k' = k then Some v else lookup d k')"
    and lookup_discard: "ok d \<Longrightarrow> lookup (discard k d) k' = (if k' = k then None else lookup d k')"
    and ok_assign: "ok d \<Longrightarrow> ok (assign k v d)"
    and ok_discard: "ok d \<Longrightarrow> ok (discard k d)"
begin

lemma lookup_foldr_discard:
  "ok d \<Longrightarrow> ok (foldr discard ks d) \<and>
     lookup (foldr discard ks d) k = (if k \<in> set ks then None else lookup d k)"
  by (induction ks) (auto simp: lookup_discard ok_discard)

lemma lookup_assign_discard:
  "ok d \<Longrightarrow> lookup (assign k v (discard k d)) = lookup (assign k v d)"
  by (rule ext) (simp add: lookup_assign lookup_discard ok_discard)

end

interpretation py_dict: dict_like dict_get dict_set dict_del dict_wf
  by unfold_locales (simp_all add: dict_get_set dict_get_del)

section \<open>State machines\<close>

text \<open>
  A component with a state, a step for each of its operations, and an invariant: everything that
  the steps reach from the initial state satisfies the invariant.
\<close>

locale step_invariant =
  fixes start :: 's and step :: "'s \<Rightarrow> 's \<Rightarrow> bool" and inv :: "'s \<Rightarrow> bool"
  assumes inv_start: "inv start"
    and inv_step: "step s s' \<Longrightarrow> inv s \<Longrightarrow> inv s'"
begin

lemma inv_steps: "rtranclp step s s' \<Longrightarrow> inv s \<Longrightarrow> inv s'"
  by (induction rule: rtranclp_induct) (auto intro: inv_step)

lemma reachable_inv: "rtranclp step start s \<Longrightarrow> inv s"
  using inv_steps inv_start by blast

end

section \<open>Printing numbers\<close>

definition digit :: "nat \<Rightarrow> char" where
  "digit n = (if n < 10 then char_of (48 + n) else char_of (87 + n))"

fun str_of_nat :: "nat \<Rightarrow> string" where
  "str_of_nat n = (if n < 10 then [digit n] else str_of_nat (n div 10) @ [digit (n mod 10)])"

declare str_of_nat.simps [simp del]

definition str_of_int :: "int \<Rightarrow> string" where
  "str_of_int i = (if i < 0 then CHR ''-'' # str_of_nat (nat (- i)) else str_of_nat (nat i))"

fun hex_of_nat :: "nat \<Rightarrow> string" where
  "hex_of_nat n = (if n < 16 then [digit n] else hex_of_nat (n div 16) @ [digit (n mod 16)])"

declare hex_of_nat.simps [simp del]

definition zero_pad :: "nat \<Rightarrow> string \<Rightarrow> string" where
  "zero_pad w s = replicate (w - length s) (CHR ''0'') @ s"

text \<open>The format specification \<open>:04x\<close> of an f-string.\<close>

definition fmt_04x :: "int \<Rightarrow> string" where
  "fmt_04x i = (if i < 0 then CHR ''-'' # zero_pad 3 (hex_of_nat (nat (- i)))
                else zero_pad 4 (hex_of_nat (nat i)))"

fun join_str :: "string \<Rightarrow> string list \<Rightarrow> string" where
  "join_str sep [] = []"
| "join_str sep [s] = s"
| "join_str sep (s # t # ss) = s @ sep @ join_str sep (t # ss)"

text \<open>
  \<open>str.lower\<close> and \<open>str.casefold\<close> on the first 256 code points: the capital letters of ASCII and
  Latin-1 move up by 32, and \<open>casefold\<close> also writes the sharp s (223) as \<open>ss\<close>. The micro sign (181)
  folds to a letter outside of this range and is left alone here.
\<close>

definition lower_char :: "char \<Rightarrow> char" where
  "lower_char c = (let n = of_char c :: nat in
     if 65 \<le> n \<and> n \<le> 90 \<or> 192 \<le> n \<and> n \<le> 222 \<and> n \<noteq> 215 then char_of (n + 32) else c)"

definition str_lower :: "string \<Rightarrow> string" where
  "str_lower s = map lower_char s"

definition casefold :: "string \<Rightarrow> string" where
  "casefold s = concat (map (\<lambda>c. if of_char c = (223 :: nat) then ''ss'' else [lower_char c]) s)"

text \<open>
  \<open>repr\<close> of a string: single quotes, or double quotes when the text holds a single quote and no
  double quote; backslashes, the quote and unprintable characters are escaped.
\<close>

definition repr_char :: "nat \<Rightarrow> char \<Rightarrow> string" where
  "repr_char q c = (let n = of_char c :: nat in
     if n = q \<or> n = 92 then [CHR 92, c]
     else if n = 10 then [CHR 92, CHR ''n'']
     else if n = 13 then [CHR 92, CHR ''r'']
     else if n = 9 then [CHR 92, CHR ''t'']
     else if n < 32 \<or> 127 \<le> n \<and> n \<le> 160 \<or> n = 173 then CHR 92 # CHR ''x'' # zero_pad 2 (hex_of_nat n)
     else [c])"

definition py_repr :: "string \<Rightarrow> string" where
  "py_repr s =
     (let q = (if CHR 39 \<in> set s \<and> CHR 34 \<notin> set s then CHR 34 else CHR 39)
      in q # concat (map (repr_char (of_char q)) s) @ [q])"

lemma lower_char_idem [simp]: "lower_char (lower_char c) = lower_char c"
proof -
  have "(of_char c :: nat) < 256" by simp
  then show ?thesis by (auto simp: lower_char_def Let_def of_char_of)
qed

lemma lower_char_not_sharp_s: "of_char (lower_char c) = (223 :: nat) \<longleftrightarrow> of_char c = (223 :: nat)"
  by (auto simp: lower_char_def Let_def of_char_of)

lemma casefold_idem [simp]: "casefold (casefold s) = casefold s"
proof (induction s)
  case (Cons c s)
  have "lower_char (CHR ''s'') = CHR ''s''" by (simp add: lower_char_def)
  with Cons show ?case by (simp add: casefold_def lower_char_not_sharp_s)
qed (simp add: casefold_def)

lemma casefold_append [simp]: "casefold (s @ t) = casefold s @ casefold t"
  by (simp add: casefold_def)

lemma str_of_nat_nonempty [simp]: "str_of_nat n \<noteq> []"
  by (subst str_of_nat.simps) simp

end
