(* ===== verification/Json.thy ===== *)
theory Json
  imports Prelude
begin

text \<open>
  The values that workflows exchange and their JSON payloads:
  \<open>to_json\<close> and \<open>from_json\<close> of \<open>_durabletask/internal/shared.py\<close>, with the part of Python's
  \<open>json\<close> module they use written out (default separators, \<open>ensure_ascii\<close>, strict strings,
  the decoder's \<open>object_hook\<close>). The main lemma is the round trip \<open>json_roundtrip\<close>.

  Not modelled: floats (a JSON text with a fraction or an exponent does not decode here),
  \<open>NaN\<close> and \<open>Infinity\<close>, code points above 255, dataclasses and model classes (they encode
  as the namespace and the dict they dump to).
\<close>

section \<open>Values\<close>

text \<open>
  \<open>PNs\<close> is a \<open>SimpleNamespace\<close> with its attributes, \<open>PTask t\<close> a reference to the \<open>Task\<close> object
  at address \<open>t\<close> of the task store.
\<close>

datatype pyval =
    PNone | PBool bool | PInt int | PStr string
  | PList "pyval list" | PDict "(string \<times> pyval) list" | PNs "(string \<times> pyval) list"
  | PTask nat

text \<open>Python's truth value of an object.\<close>

fun truthy :: "pyval \<Rightarrow> bool" where
  "truthy PNone = False"
| "truthy (PBool b) = b"
| "truthy (PInt i) = (i \<noteq> 0)"
| "truthy (PStr s) = (s \<noteq> [])"
| "truthy (PList vs) = (vs \<noteq> [])"
| "truthy (PDict d) = (d \<noteq> [])"
| "truthy (PNs d) = True"
| "truthy (PTask t) = True"

definition AUTO_SERIALIZED :: string where
  "AUTO_SERIALIZED = ''__durabletask_autoobject__''"

section \<open>Encoding\<close>

definition esc_char :: "char \<Rightarrow> string" where
  "esc_char c = (let n = of_char c :: nat in
     if n = 34 then [CHR 92, CHR 34]
     else if n = 92 then [CHR 92, CHR 92]
     else if n = 10 then [CHR 92, CHR ''n'']
     else if n = 13 then [CHR 92, CHR ''r'']
     else if n = 9 then [CHR 92, CHR ''t'']
     else if n = 12 then [CHR 92, CHR ''f'']
     else if n = 8 then [CHR 92, CHR ''b'']
     else if 32 \<le> n \<and> n \<le> 126 then [c]
     else CHR 92 # CHR ''u'' # zero_pad 4 (hex_of_nat n))"

definition json_str :: "string \<Rightarrow> string" where
  "json_str s = CHR 34 # concat (map esc_char s) @ [CHR 34]"

text \<open>Every part of the value has an encoding (a \<open>Task\<close> has none).\<close>

fun serializable :: "pyval \<Rightarrow> bool" where
  "serializable (PList vs) = (\<forall>v \<in> set vs. serializable v)"
| "serializable (PDict d) = (\<forall>p \<in> set d. serializable (snd p))"
| "serializable (PNs d) = (\<forall>p \<in> set d. serializable (snd p))"
| "serializable (PTask t) = False"
| "serializable v = True"

text \<open>
  A namespace is dumped as \<open>vars(obj)\<close> with \<open>AUTO_SERIALIZED\<close> set to true. (The encoder sets
  the key on the object itself, a side effect on an object that is not read again.)
\<close>

fun json_text :: "pyval \<Rightarrow> string" where
  "json_text PNone = ''null''"
| "json_text (PBool b) = (if b then ''true'' else ''false'')"
| "json_text (PInt i) = str_of_int i"
| "json_text (PStr s) = json_str s"
| "json_text (PList vs) = ''['' @ join_str '', '' (map json_text vs) @ '']''"
| "json_text (PDict d) = ''{'' @ join_str '', '' (map (\<lambda>p. json_str (fst p) @ '': '' @ json_text (snd p)) d) @ ''}''"
| "json_text (PNs d) = ''{'' @ join_str '', ''
     (map (\<lambda>p. json_str (fst p) @ '': '' @ snd p)
        (dict_set AUTO_SERIALIZED ''true'' (map (\<lambda>p. (fst p, json_text (snd p))) d))) @ ''}''"
| "json_text (PTask t) = []"

definition to_json :: "pyval \<Rightarrow> string res" where
  "to_json v = (if serializable v then Inr (json_text v)
                else Inl (exc TypeError ''Object of type Task is not JSON serializable''))"

section \<open>Decoding\<close>

fun skip_ws :: "string \<Rightarrow> string" where
  "skip_ws [] = []"
| "skip_ws (c # s) = (if c \<in> {CHR '' '', CHR 9, CHR 10, CHR 13} then skip_ws s else c # s)"

definition digit_val :: "char \<Rightarrow> nat option" where
  "digit_val c = (let n = of_char c :: nat in if 48 \<le> n \<and> n \<le> 57 then Some (n - 48) else None)"

definition hex_val :: "char \<Rightarrow> nat option" where
  "hex_val c = (let n = of_char c :: nat in
     if 48 \<le> n \<and> n \<le> 57 then Some (n - 48)
     else if 97 \<le> n \<and> n \<le> 102 then Some (n - 87)
     else if 65 \<le> n \<and> n \<le> 70 then Some (n - 55) else None)"

definition hex4 :: "char \<Rightarrow> char \<Rightarrow> char \<Rightarrow> char \<Rightarrow> nat option" where
  "hex4 a b c d = (case (hex_val a, hex_val b, hex_val c, hex_val d) of
     (Some x, Some y, Some z, Some w) \<Rightarrow> Some (((x * 16 + y) * 16 + z) * 16 + w)
   | _ \<Rightarrow> None)"

definition unesc :: "char \<Rightarrow> char option" where
  "unesc c = (if c = CHR 34 then Some c else if c = CHR 92 then Some c else if c = CHR ''/'' then Some c
     else if c = CHR ''n'' then Some (CHR 10) else if c = CHR ''r'' then Some (CHR 13)
     else if c = CHR ''t'' then Some (CHR 9) else if c = CHR ''f'' then Some (CHR 12)
     else if c = CHR ''b'' then Some (CHR 8) else None)"

definition cons_fst :: "char \<Rightarrow> (string \<times> string) option \<Rightarrow> (string \<times> string) option" where
  "cons_fst c m = (case m of None \<Rightarrow> None | Some (s, r) \<Rightarrow> Some (c # s, r))"

text \<open>\<open>scanstring\<close>, after the opening quote, in strict mode: a control character is an error.\<close>

function scan_str :: "string \<Rightarrow> (string \<times> string) option" where
  "scan_str s = (case s of
      [] \<Rightarrow> None
    | c # r \<Rightarrow>
        if c = CHR 34 then Some ([], r)
        else if c = CHR 92 then
          (case r of
             [] \<Rightarrow> None
           | e # r' \<Rightarrow>
               if e = CHR ''u'' then
                 (if length r' < 4 then None
                  else case hex4 (r' ! 0) (r' ! 1) (r' ! 2) (r' ! 3) of
                    None \<Rightarrow> None
                  | Some n \<Rightarrow> if n < 256 then cons_fst (char_of n) (scan_str (drop 4 r')) else None)
               else case unesc e of None \<Rightarrow> None | Some x \<Rightarrow> cons_fst x (scan_str r'))
        else if (of_char c :: nat) < 32 then None
        else cons_fst c (scan_str r))"
  by pat_completeness auto
termination
  by (relation "measure length") auto

declare scan_str.simps [simp del]

fun scan_digits :: "nat \<Rightarrow> string \<Rightarrow> nat \<times> string" where
  "scan_digits acc [] = (acc, [])"
| "scan_digits acc (c # s) = (case digit_val c of
     Some d \<Rightarrow> scan_digits (10 * acc + d) s
   | None \<Rightarrow> (acc, c # s))"

text \<open>The integer part of the number syntax: \<open>0\<close>, or digits that do not start with \<open>0\<close>.\<close>

definition scan_nat :: "string \<Rightarrow> (nat \<times> string) option" where
  "scan_nat s = (case s of
      [] \<Rightarrow> None
    | c # r \<Rightarrow> (case digit_val c of
         None \<Rightarrow> None
       | Some d \<Rightarrow> if d = 0 then Some (0, r) else Some (scan_digits d r)))"

definition scan_int :: "string \<Rightarrow> (int \<times> string) option" where
  "scan_int s = (case s of
      [] \<Rightarrow> None
    | c # r \<Rightarrow> if c = CHR ''-''
        then (case scan_nat r of None \<Rightarrow> None | Some (n, r') \<Rightarrow> Some (- int n, r'))
        else (case scan_nat s of None \<Rightarrow> None | Some (n, r') \<Rightarrow> Some (int n, r')))"

text \<open>\<open>InternalJSONDecoder.dict_to_object\<close>.\<close>

definition dict_to_object :: "(string, pyval) dict \<Rightarrow> pyval" where
  "dict_to_object d = (case dict_get d AUTO_SERIALIZED of
      None \<Rightarrow> PDict d
    | Some flag \<Rightarrow> if truthy flag then PNs (dict_del AUTO_SERIALIZED d)
                  else PDict (dict_del AUTO_SERIALIZED d))"

definition pairs_dict :: "(string \<times> pyval) list \<Rightarrow> (string, pyval) dict" where
  "pairs_dict ps = foldl (\<lambda>d p. dict_set (fst p) (snd p) d) [] ps"

definition strip :: "string \<Rightarrow> string \<Rightarrow> string option" where
  "strip p s = (if take (length p) s = p then Some (drop (length p) s) else None)"

type_synonym decode_hook = "(string, pyval) dict \<Rightarrow> pyval"

text \<open>
  The scanner, over what the decoder makes of an object, with fuel: each call spends one unit and each value takes a character, so the
  length of the text is enough (\<open>json_roundtrip\<close> uses exactly that much).
\<close>

fun parse_val :: "decode_hook \<Rightarrow> nat \<Rightarrow> string \<Rightarrow> (pyval \<times> string) option"
and parse_elems :: "decode_hook \<Rightarrow> nat \<Rightarrow> string \<Rightarrow> (pyval list \<times> string) option"
and parse_members :: "decode_hook \<Rightarrow> nat \<Rightarrow> string \<Rightarrow> ((string \<times> pyval) list \<times> string) option"
where
  "parse_val h 0 s = None"
| "parse_val h (Suc n) [] = None"
| "parse_val h (Suc n) (c # r) =
     (if c = CHR 34 then (case scan_str r of None \<Rightarrow> None | Some (t, r') \<Rightarrow> Some (PStr t, r'))
      else if c = CHR ''['' then
        (case skip_ws r of
           [] \<Rightarrow> None
         | x # r' \<Rightarrow> if x = CHR '']'' then Some (PList [], r')
             else case parse_elems h n (x # r') of
               None \<Rightarrow> None
             | Some (vs, r'') \<Rightarrow> Some (PList vs, r''))
      else if c = CHR ''{'' then
        (case skip_ws r of
           [] \<Rightarrow> None
         | x # r' \<Rightarrow> if x = CHR ''}'' then Some (h [], r')
             else case parse_members h n (x # r') of
               None \<Rightarrow> None
             | Some (ps, r'') \<Rightarrow> Some (h (pairs_dict ps), r''))
      else if c = CHR ''n'' then (case strip ''null'' (c # r) of None \<Rightarrow> None | Some r' \<Rightarrow> Some (PNone, r'))
      else if c = CHR ''t'' then (case strip ''true'' (c # r) of None \<Rightarrow> None | Some r' \<Rightarrow> Some (PBool True, r'))
      else if c = CHR ''f'' then (case strip ''false'' (c # r) of None \<Rightarrow> None | Some r' \<Rightarrow> Some (PBool False, r'))
      else (case scan_int (c # r) of None \<Rightarrow> None | Some (i, r') \<Rightarrow> Some (PInt i, r')))"
| "parse_elems h 0 s = None"
| "parse_elems h (Suc n) s =
     (case parse_val h n s of
        None \<Rightarrow> None
      | Some (v, r) \<Rightarrow>
         (case skip_ws r of
            [] \<Rightarrow> None
          | x # r' \<Rightarrow>
              if x = CHR '']'' then Some ([v], r')
              else if x = CHR '','' then
                (case parse_elems h n (skip_ws r') of
                   None \<Rightarrow> None
                 | Some (vs, r'') \<Rightarrow> Some (v # vs, r''))
              else None))"
| "parse_members h 0 s = None"
| "parse_members h (Suc n) [] = None"
| "parse_members h (Suc n) (q # s) =
     (if q \<noteq> CHR 34 then None
      else case scan_str s of
        None \<Rightarrow> None
      | Some (k, r0) \<Rightarrow>
         (case skip_ws r0 of
            [] \<Rightarrow> None
          | x # r1 \<Rightarrow> if x \<noteq> CHR '':'' then None
              else case parse_val h n (skip_ws r1) of
                None \<Rightarrow> None
              | Some (v, r2) \<Rightarrow>
                 (case skip_ws r2 of
                    [] \<Rightarrow> None
                  | y # r3 \<Rightarrow>
                      if y = CHR ''}'' then Some ([(k, v)], r3)
                      else if y = CHR '','' then
                        (case parse_members h n (skip_ws r3) of
                           None \<Rightarrow> None
                         | Some (ps, r4) \<Rightarrow> Some ((k, v) # ps, r4))
                      else None)))"

definition decode_json :: "decode_hook \<Rightarrow> string \<Rightarrow> pyval res" where
  "decode_json h s = (case parse_val h (Suc (length s)) (skip_ws s) of
      None \<Rightarrow> Inl (exc JSONDecodeError ''Expecting value'')
    | Some (v, r) \<Rightarrow> if skip_ws r = [] then Inr v else Inl (exc JSONDecodeError ''Extra data''))"

definition from_json :: "string \<Rightarrow> pyval res" where
  "from_json = decode_json dict_to_object"

text \<open>\<open>json.loads\<close> and \<open>json.dumps\<close> of the standard library, without hooks.\<close>

definition json_loads :: "string \<Rightarrow> pyval res" where
  "json_loads = decode_json PDict"

section \<open>The round trip\<close>

subsection \<open>Strings\<close>

lemma hex_val_digit: "n < 16 \<Longrightarrow> hex_val (digit n) = Some n"
  by (simp add: hex_val_def digit_def of_char_of Let_def)

lemma zero_pad_4:
  "zero_pad 4 [x] = [CHR ''0'', CHR ''0'', CHR ''0'', x]"
  "zero_pad 4 [x, y] = [CHR ''0'', CHR ''0'', x, y]"
  by (simp_all add: zero_pad_def numeral_3_eq_3 numeral_2_eq_2)

lemma hex_byte:
  assumes "n < 256"
  shows "\<exists>a b c d. zero_pad 4 (hex_of_nat n) = [a, b, c, d] \<and> hex4 a b c d = Some n"
proof (cases "n < 16")
  case True
  then have "zero_pad 4 (hex_of_nat n) = [CHR ''0'', CHR ''0'', CHR ''0'', digit n]"
    by (subst hex_of_nat.simps) (simp add: zero_pad_4)
  moreover have "hex_val (CHR ''0'') = Some 0" by (simp add: hex_val_def)
  ultimately show ?thesis using True by (simp add: hex4_def hex_val_digit)
next
  case False
  with assms have q: "n div 16 < 16" by simp
  with False have "hex_of_nat n = [digit (n div 16), digit (n mod 16)]"
    by (subst hex_of_nat.simps, subst hex_of_nat.simps) simp
  then have "zero_pad 4 (hex_of_nat n) = [CHR ''0'', CHR ''0'', digit (n div 16), digit (n mod 16)]"
    by (simp add: zero_pad_4)
  moreover have "hex_val (CHR ''0'') = Some 0" by (simp add: hex_val_def)
  ultimately show ?thesis using q by (simp add: hex4_def hex_val_digit)
qed

lemma scan_str_u:
  assumes "n < 256"
  shows "scan_str (CHR 92 # CHR ''u'' # zero_pad 4 (hex_of_nat n) @ r) = cons_fst (char_of n) (scan_str r)"
proof -
  obtain a b c d where "zero_pad 4 (hex_of_nat n) = [a, b, c, d]" "hex4 a b c d = Some n"
    using hex_byte [OF assms] by blast
  with assms show ?thesis by (subst scan_str.simps) simp
qed

lemma char_eqI: "(of_char d :: nat) = n \<Longrightarrow> (of_char c :: nat) = n \<Longrightarrow> c = d"
  by (simp flip: of_char_eq_iff [where ?'a = nat])

lemma esc_char_cases:
  assumes "(of_char c :: nat) \<in> {34, 92, 10, 13, 9, 12, 8}"
  shows "c \<in> {CHR 34, CHR 92, CHR 10, CHR 13, CHR 9, CHR 12, CHR 8}"
  using assms
  by (auto intro: char_eqI [of "CHR 34"] char_eqI [of "CHR 92"] char_eqI [of "CHR 10"]
      char_eqI [of "CHR 13"] char_eqI [of "CHR 9"] char_eqI [of "CHR 12"] char_eqI [of "CHR 8"])

lemma scan_str_esc: "scan_str (esc_char c @ r) = cons_fst c (scan_str r)"
proof -
  let ?n = "of_char c :: nat"
  have lt: "?n < 256" by simp
  have c: "c = char_of ?n" by simp
  consider (short) "?n \<in> {34, 92, 10, 13, 9, 12, 8}"
    | (plain) "?n \<notin> {34, 92, 10, 13, 9, 12, 8}" "32 \<le> ?n" "?n \<le> 126"
    | (hex) "?n \<notin> {34, 92, 10, 13, 9, 12, 8}" "\<not> (32 \<le> ?n \<and> ?n \<le> 126)" by blast
  then show ?thesis
  proof cases
    case plain
    then have "c \<noteq> CHR 34" "c \<noteq> CHR 92" by auto
    with plain show ?thesis by (subst scan_str.simps) (simp add: esc_char_def Let_def)
  next
    case hex
    then have "esc_char c = CHR 92 # CHR ''u'' # zero_pad 4 (hex_of_nat ?n)"
      by (auto simp: esc_char_def Let_def)
    then show ?thesis using scan_str_u [OF lt, of r] by simp
  next
    case short
    then have "c \<in> {CHR 34, CHR 92, CHR 10, CHR 13, CHR 9, CHR 12, CHR 8}" by (rule esc_char_cases)
    then show ?thesis by (subst scan_str.simps) (auto simp: esc_char_def unesc_def)
  qed
qed

lemma scan_str_concat: "scan_str (concat (map esc_char s) @ CHR 34 # r) = Some (s, r)"
proof (induction s)
  case Nil
  show ?case by (subst scan_str.simps) simp
next
  case (Cons c s)
  then show ?case by (simp add: scan_str_esc cons_fst_def)
qed

subsection \<open>Integers\<close>

lemma digit_val_digit: "n < 10 \<Longrightarrow> digit_val (digit n) = Some n"
  by (simp add: digit_val_def digit_def of_char_of Let_def)

definition non_digit_start :: "string \<Rightarrow> bool" where
  "non_digit_start r = (case r of [] \<Rightarrow> True | c # _ \<Rightarrow> digit_val c = None)"

lemma scan_digits_stop [simp]: "non_digit_start r \<Longrightarrow> scan_digits acc r = (acc, r)"
  by (cases r) (simp_all add: non_digit_start_def)

lemma scan_digits_nat:
  "scan_digits acc (str_of_nat n @ r) = scan_digits (acc * 10 ^ length (str_of_nat n) + n) r"
proof (induction n arbitrary: acc r rule: str_of_nat.induct)
  case (1 n)
  show ?case
  proof (cases "n < 10")
    case True
    then show ?thesis
      by (subst (1 2) str_of_nat.simps) (simp add: digit_val_digit algebra_simps)
  next
    case False
    have "(n mod 10) + 10 * (n div 10) = n" by simp
    with False 1 [OF False, of acc "digit (n mod 10) # r"] show ?thesis
      by (subst (1 2) str_of_nat.simps) (simp add: digit_val_digit algebra_simps)
  qed
qed

lemma str_of_nat_head:
  "\<exists>c s d. str_of_nat n = c # s \<and> digit_val c = Some d \<and> (d = 0 \<longrightarrow> n = 0 \<and> s = [])"
proof (induction n rule: str_of_nat.induct)
  case (1 n)
  show ?case
  proof (cases "n < 10")
    case True
    then show ?thesis by (subst str_of_nat.simps) (simp add: digit_val_digit)
  next
    case False
    with 1 obtain c s d where "str_of_nat (n div 10) = c # s" "digit_val c = Some d"
      "d = 0 \<longrightarrow> n div 10 = 0 \<and> s = []" by blast
    with False show ?thesis by (subst str_of_nat.simps) auto
  qed
qed

lemma scan_nat_str: "non_digit_start r \<Longrightarrow> scan_nat (str_of_nat n @ r) = Some (n, r)"
proof -
  assume r: "non_digit_start r"
  obtain c s d where h: "str_of_nat n = c # s" "digit_val c = Some d" "d = 0 \<longrightarrow> n = 0 \<and> s = []"
    using str_of_nat_head by blast
  have "scan_digits d (s @ r) = (n, r)"
    using scan_digits_nat [of 0 n r] r h(1,2) by simp
  with h show ?thesis by (cases "d = 0") (simp_all add: scan_nat_def)
qed

lemma scan_int_str: "non_digit_start r \<Longrightarrow> scan_int (str_of_int i @ r) = Some (i, r)"
proof -
  assume r: "non_digit_start r"
  obtain c s d where h: "str_of_nat (nat i) = c # s" "digit_val c = Some d"
    using str_of_nat_head by blast
  then have "c \<noteq> CHR ''-''" by (auto simp: digit_val_def)
  with h(1) r scan_nat_str [OF r, of "nat i"] scan_nat_str [OF r, of "nat (- i)"]
  show ?thesis by (auto simp: scan_int_def str_of_int_def)
qed

subsection \<open>Values\<close>

text \<open>
  The values that survive the wire: serialisable, with distinct keys, and with no key spelled
  like the marker of automatically serialised objects.
\<close>

fun json_rt :: "pyval \<Rightarrow> bool" where
  "json_rt (PList vs) = (\<forall>v \<in> set vs. json_rt v)"
| "json_rt (PDict d) = (dict_wf d \<and> \<not> dict_has d AUTO_SERIALIZED \<and> (\<forall>p \<in> set d. json_rt (snd p)))"
| "json_rt (PNs d) = (dict_wf d \<and> \<not> dict_has d AUTO_SERIALIZED \<and> (\<forall>p \<in> set d. json_rt (snd p)))"
| "json_rt (PTask t) = False"
| "json_rt v = True"

lemma json_rt_serializable: "json_rt v \<Longrightarrow> serializable v"
  by (induction v rule: serializable.induct) auto

definition value_start :: "string \<Rightarrow> bool" where
  "value_start s = (case s of [] \<Rightarrow> False
     | c # _ \<Rightarrow> c \<notin> {CHR '' '', CHR 9, CHR 10, CHR 13, CHR '']'', CHR ''}''})"

lemma value_start_skip [simp]: "value_start s \<Longrightarrow> skip_ws (s @ r) = s @ r"
  by (cases s) (auto simp: value_start_def)

lemma str_of_int_head:
  "\<exists>c s. str_of_int i = c # s \<and> (c = CHR ''-'' \<or> digit_val c \<noteq> None)"
  using str_of_nat_head [of "nat i"] by (auto simp: str_of_int_def)

lemma value_start_int: "value_start (str_of_int i)"
  using str_of_int_head [of i] by (auto simp: value_start_def digit_val_def)

lemma parse_int_text:
  "non_digit_start r \<Longrightarrow> parse_val h (Suc n) (str_of_int i @ r) = Some (PInt i, r)"
proof -
  assume r: "non_digit_start r"
  obtain c s where h: "str_of_int i = c # s" "c = CHR ''-'' \<or> digit_val c \<noteq> None"
    using str_of_int_head by blast
  then have "c \<notin> {CHR 34, CHR ''['', CHR ''{'', CHR ''n'', CHR ''t'', CHR ''f''}"
    by (auto simp: digit_val_def)
  with h(1) scan_int_str [OF r, of i] show ?thesis by simp
qed

text \<open>A member of an object, its key encoded, and what the scanner makes of an encoded key.\<close>

definition member_text :: "string \<times> string \<Rightarrow> string" where
  "member_text p = CHR 34 # fst p @ CHR 34 # '': '' @ snd p"

lemma member_text_pair: "member_text (k, t) = CHR 34 # k @ CHR 34 # '': '' @ t"
  by (simp add: member_text_def)

definition encodes :: "string \<Rightarrow> string \<Rightarrow> bool" where
  "encodes t s \<longleftrightarrow> (\<forall>r. scan_str (t @ CHR 34 # r) = Some (s, r))"

lemma encodes_escaped: "encodes (concat (map esc_char s)) s"
  by (simp add: encodes_def scan_str_concat)

abbreviation parses :: "decode_hook \<Rightarrow> pyval \<Rightarrow> string \<Rightarrow> bool" where
  "parses h v t \<equiv> value_start t \<and>
     (\<forall>n r. non_digit_start r \<longrightarrow> length t \<le> n \<longrightarrow> parse_val h n (t @ r) = Some (v, r))"

lemma parse_elems_join:
  assumes "vs \<noteq> []" and "list_all2 (parses h) vs ts" and "length (join_str '', '' ts) < n"
  shows "parse_elems h n (join_str '', '' ts @ CHR '']'' # r) = Some (vs, r)"
    and "value_start (join_str '', '' ts)"
proof -
  have "parse_elems h n (join_str '', '' ts @ CHR '']'' # r) = Some (vs, r) \<and> value_start (join_str '', '' ts)"
    using assms
  proof (induction vs arbitrary: ts n)
    case (Cons v vs)
    then obtain t ts' where ts: "ts = t # ts'" and v: "parses h v t" and rest: "list_all2 (parses h) vs ts'"
      by (auto simp: list_all2_Cons1)
    from Cons.prems obtain m where n: "n = Suc m" by (cases n) auto
    show ?case
    proof (cases vs)
      case Nil
      with rest have "ts' = []" by simp
      with Nil v ts n Cons.prems show ?thesis by (simp add: non_digit_start_def digit_val_def)
    next
      case (Cons w ws)
      with rest obtain t' ts'' where ts': "ts' = t' # ts''" by (auto simp: list_all2_Cons1)
      have "length (join_str '', '' ts') < m" using Cons.prems ts ts' n by simp
      with Cons.IH [OF _ rest] Cons
      have IH: "parse_elems h m (join_str '', '' ts' @ CHR '']'' # r) = Some (vs, r)"
        "value_start (join_str '', '' ts')" by simp_all
      have "skip_ws (CHR '' '' # join_str '', '' ts' @ CHR '']'' # r) = join_str '', '' ts' @ CHR '']'' # r"
        using IH(2) by simp
      with IH v ts ts' n Cons.prems show ?thesis
        by (cases t) (auto simp: non_digit_start_def digit_val_def value_start_def)
    qed
  qed simp
  then show "parse_elems h n (join_str '', '' ts @ CHR '']'' # r) = Some (vs, r)"
    and "value_start (join_str '', '' ts)" by simp_all
qed

definition member_parses :: "decode_hook \<Rightarrow> string \<times> pyval \<Rightarrow> string \<times> string \<Rightarrow> bool" where
  "member_parses h p q \<longleftrightarrow> encodes (fst q) (fst p) \<and> parses h (snd p) (snd q)"

lemma parse_members_join:
  assumes "ps \<noteq> []" and "list_all2 (member_parses h) ps qs"
    and "length (join_str '', '' (map member_text qs)) < n"
  shows "parse_members h n (join_str '', '' (map member_text qs) @ CHR ''}'' # r) = Some (ps, r)"
    and "\<exists>s. join_str '', '' (map member_text qs) = CHR 34 # s"
proof -
  have "parse_members h n (join_str '', '' (map member_text qs) @ CHR ''}'' # r) = Some (ps, r) \<and>
    (\<exists>s. join_str '', '' (map member_text qs) = CHR 34 # s)"
    using assms
  proof (induction ps arbitrary: qs n)
    case (Cons p ps)
    obtain k v where p: "p = (k, v)" by (cases p)
    with Cons.prems obtain q qs' where q: "qs = q # qs'" "member_parses h (k, v) q" and rest: "list_all2 (member_parses h) ps qs'"
      by (auto simp: list_all2_Cons1)
    obtain kt t where qs: "qs = (kt, t) # qs'" and k: "encodes kt k" and v: "parses h v t"
      using q by (cases q) (auto simp: member_parses_def)
    from Cons.prems obtain m where n: "n = Suc m" by (cases n) auto
    have v_skip: "skip_ws (t @ r') = t @ r'" for r' using v by simp
    have v_len: "length t \<le> m" using Cons.prems(3) qs n by (cases qs') (auto simp: member_text_def)
    show ?case
    proof (cases ps)
      case Nil
      with rest have "qs' = []" by simp
      with Nil v p qs n v_len v_skip show ?thesis
        by (simp add: member_text_pair k [unfolded encodes_def] non_digit_start_def digit_val_def)
    next
      case (Cons w ws)
      with rest obtain q' qs'' where qs': "qs' = q' # qs''" by (auto simp: list_all2_Cons1)
      have "length (join_str '', '' (map member_text qs')) < m" using Cons.prems qs qs' n by simp
      with Cons.IH [OF _ rest] Cons
      have IHs: "parse_members h m (join_str '', '' (map member_text qs') @ CHR ''}'' # r) = Some (ps, r) \<and>
          (\<exists>s. join_str '', '' (map member_text qs') = CHR 34 # s)" by simp
      then obtain s where
        IH: "parse_members h m (join_str '', '' (map member_text qs') @ CHR ''}'' # r) = Some (ps, r)"
        "join_str '', '' (map member_text qs') = CHR 34 # s" by blast
      have "skip_ws (CHR '' '' # join_str '', '' (map member_text qs') @ CHR ''}'' # r) =
          join_str '', '' (map member_text qs') @ CHR ''}'' # r"
        using IH(2) by simp
      with IH(1) v p qs qs' n v_len v_skip show ?thesis
        by (simp add: member_text_pair k [unfolded encodes_def] non_digit_start_def digit_val_def)
    qed
  qed simp
  then show "parse_members h n (join_str '', '' (map member_text qs) @ CHR ''}'' # r) = Some (ps, r)"
    and "\<exists>s. join_str '', '' (map member_text qs) = CHR 34 # s" by simp_all
qed

lemma pairs_dict_wf: "dict_wf ps \<Longrightarrow> pairs_dict ps = ps"
proof -
  have "dict_wf (acc @ ps) \<Longrightarrow> foldl (\<lambda>d p. dict_set (fst p) (snd p) d) acc ps = acc @ ps" for acc
  proof (induction ps arbitrary: acc)
    case (Cons p ps)
    then have "fst p \<notin> set (dict_keys acc)" and "dict_wf ((acc @ [p]) @ ps)"
      by (auto simp: dict_wf_def)
    with Cons.IH [of "acc @ [p]"] show ?case by (simp add: dict_set_fresh)
  qed simp
  from this [of "[]"] show "dict_wf ps \<Longrightarrow> pairs_dict ps = ps" by (simp add: pairs_dict_def)
qed

lemma dict_to_object_plain: "\<not> dict_has d AUTO_SERIALIZED \<Longrightarrow> dict_to_object d = PDict d"
  by (simp add: dict_to_object_def dict_has_def)

lemma dict_to_object_ns:
  assumes "\<not> dict_has d AUTO_SERIALIZED"
  shows "dict_to_object (d @ [(AUTO_SERIALIZED, PBool True)]) = PNs d"
proof -
  from assms have fresh: "AUTO_SERIALIZED \<notin> set (dict_keys d)" by (simp add: dict_has_iff)
  then have "d @ [(AUTO_SERIALIZED, PBool True)] = dict_set AUTO_SERIALIZED (PBool True) d"
    by (simp add: dict_set_fresh)
  moreover have "dict_del AUTO_SERIALIZED (d @ [(AUTO_SERIALIZED, PBool True)]) = d"
    using dict_del_fresh [OF fresh]
    by (simp add: dict_del_def AList.delete_eq)
  ultimately show ?thesis by (simp add: dict_to_object_def dict_get_set)
qed

lemma join_str_cons_length: "length s \<le> length (join_str sep (s # ss))"
  by (cases ss) auto

lemma parse_braces:
  assumes "list_all2 (member_parses h) ps qs"
    and "length (join_str '', '' (map member_text qs)) + 2 \<le> n"
  shows "parse_val h n (CHR ''{'' # join_str '', '' (map member_text qs) @ CHR ''}'' # r) =
    Some (h (pairs_dict ps), r)"
proof -
  from assms(2) obtain m where n: "n = Suc m" by (cases n) auto
  show ?thesis
  proof (cases "ps = []")
    case True
    with assms(1) n show ?thesis by (simp add: pairs_dict_def)
  next
    case False
    from assms(2) n have "length (join_str '', '' (map member_text qs)) < m" by simp
    note J = parse_members_join [OF False assms(1) this]
    from J(2) obtain s where "join_str '', '' (map member_text qs) = CHR 34 # s" by blast
    with n J(1) [of r] show ?thesis by simp
  qed
qed

lemma parse_brackets:
  assumes "list_all2 (parses h) vs ts" and "length (join_str '', '' ts) + 2 \<le> n"
  shows "parse_val h n (CHR ''['' # join_str '', '' ts @ CHR '']'' # r) = Some (PList vs, r)"
proof -
  from assms(2) obtain m where n: "n = Suc m" by (cases n) auto
  show ?thesis
  proof (cases "vs = []")
    case True
    with assms(1) n show ?thesis by simp
  next
    case False
    have "length (join_str '', '' ts) < m" using assms(2) n by simp
    note J = parse_elems_join [OF False assms(1) this]
    from J(2) obtain c s where "join_str '', '' ts = c # s" "c \<noteq> CHR '']''" "c \<notin> {CHR '' '', CHR 9, CHR 10, CHR 13}"
      by (auto simp: value_start_def split: list.splits)
    with n J(1) [of r] show ?thesis by simp
  qed
qed

lemma parses_lit:
  "parses h PNone ''null''" "parses h (PBool True) ''true''" "parses h (PBool False) ''false''"
  by (auto simp: value_start_def strip_def Suc_le_eq dest!: Suc_le_D less_imp_Suc_add)

lemma parses_str: "parses h (PStr s) (json_str s)"
  by (auto simp: value_start_def json_str_def scan_str_concat dest!: Suc_le_D)

lemma parses_int: "parses h (PInt i) (str_of_int i)"
proof -
  have "str_of_int i \<noteq> []" using str_of_int_head [of i] by auto
  then have "length (str_of_int i) \<le> n \<Longrightarrow> \<exists>m. n = Suc m" for n by (cases n) auto
  then show ?thesis using value_start_int [of i] parse_int_text by fastforce
qed

text \<open>The values that a decoder reads back.\<close>

fun reads_back :: "decode_hook \<Rightarrow> pyval \<Rightarrow> bool" where
  "reads_back h (PList vs) = (\<forall>v \<in> set vs. reads_back h v)"
| "reads_back h (PDict d) = (dict_wf d \<and> h d = PDict d \<and> (\<forall>p \<in> set d. reads_back h (snd p)))"
| "reads_back h (PNs d) = (dict_wf d \<and> \<not> dict_has d AUTO_SERIALIZED \<and>
     h (d @ [(AUTO_SERIALIZED, PBool True)]) = PNs d \<and> (\<forall>p \<in> set d. reads_back h (snd p)))"
| "reads_back h (PTask t) = False"
| "reads_back h v = True"

lemma json_rt_reads_back: "json_rt v \<Longrightarrow> reads_back dict_to_object v"
  by (induction v rule: json_rt.induct) (auto simp: dict_to_object_plain dict_to_object_ns)

lemma reads_back_serializable: "reads_back h v \<Longrightarrow> serializable v"
  by (induction h v rule: reads_back.induct) auto

lemma parses_list:
  assumes "list_all2 (parses h) vs ts"
  shows "parses h (PList vs) (''['' @ join_str '', '' ts @ '']'')"
  using parse_brackets [OF assms] by (simp add: value_start_def)

lemma parses_object:
  assumes "list_all2 (member_parses h) ps qs" and "h (pairs_dict ps) = v"
  shows "parses h v (''{'' @ join_str '', '' (map member_text qs) @ ''}'')"
  using parse_braces [OF assms(1)] assms(2) by (simp add: value_start_def)

lemma json_parses: "reads_back h v \<Longrightarrow> parses h v (json_text v)"
proof (induction h v rule: reads_back.induct)
  case (1 h vs)
  then have "list_all2 (parses h) vs (map json_text vs)" by (auto simp: list_all2_conv_all_nth)
  from parses_list [OF this] show ?case by simp
next
  case (2 h d)
  let ?t = "map (\<lambda>p. (concat (map esc_char (fst p)), json_text (snd p))) d"
  have all: "list_all2 (member_parses h) d ?t"
    using 2 by (auto simp: list_all2_conv_all_nth member_parses_def encodes_escaped)
  have eq: "json_text (PDict d) = ''{'' @ join_str '', '' (map member_text ?t) @ ''}''"
    by (simp add: member_text_def json_str_def comp_def)
  have "h (pairs_dict d) = PDict d" using 2 by (simp add: pairs_dict_wf)
  from parses_object [OF all this] show ?case unfolding eq .
next
  case (3 h d)
  let ?e = "d @ [(AUTO_SERIALIZED, PBool True)]"
  let ?f = "\<lambda>p. (concat (map esc_char (fst p)), snd p)"
  let ?t = "map (\<lambda>p. (fst p, json_text (snd p))) d"
  have fresh: "AUTO_SERIALIZED \<notin> set (dict_keys ?t)" using 3 by (auto simp: dict_has_iff)
  have all: "list_all2 (member_parses h) ?e (map ?f (dict_set AUTO_SERIALIZED ''true'' ?t))"
    unfolding dict_set_fresh [OF fresh] map_append
    by (rule list_all2_appendI) (use 3 parses_lit in \<open>auto simp: list_all2_conv_all_nth member_parses_def encodes_escaped\<close>)
  have eq: "json_text (PNs d) = ''{'' @ join_str '', '' (map member_text (map ?f (dict_set AUTO_SERIALIZED ''true'' ?t))) @ ''}''"
    by (simp add: member_text_def json_str_def comp_def)
  have "dict_wf ?e" using 3 by (auto simp: dict_wf_def dict_has_iff)
  then have "h (pairs_dict ?e) = PNs d" using 3 by (simp add: pairs_dict_wf)
  from parses_object [OF all this] show ?case unfolding eq .
qed (use parses_lit parses_int parses_str in simp_all)

lemma reads_back_decode:
  assumes "reads_back h v"
  shows "decode_json h (json_text v) = Inr v"
proof -
  have "parses h v (json_text v)" by (rule json_parses [OF assms])
  then have "skip_ws (json_text v @ []) = json_text v"
    and "parse_val h (Suc (length (json_text v))) (json_text v @ []) = Some (v, [])"
    by (simp_all del: append_Nil2 add: non_digit_start_def)
  then show ?thesis by (simp add: decode_json_def)
qed

lemma json_rt_wire:
  assumes "json_rt v"
  shows "to_json v = Inr (json_text v)" and "from_json (json_text v) = Inr v"
  using assms by (simp_all add: to_json_def json_rt_serializable from_json_def reads_back_decode json_rt_reads_back)

lemma json_loads_dumps: "reads_back PDict v \<Longrightarrow> json_loads (json_text v) = Inr v"
  by (simp add: json_loads_def reads_back_decode)

lemma json_text_nonempty: "serializable v \<Longrightarrow> json_text v \<noteq> []"
proof (cases v)
  case (PInt i)
  then show ?thesis using str_of_int_head [of i] by auto
qed (auto simp: json_str_def)

lemma to_json_error_iff: "(\<exists>e. to_json v = Inl e) \<longleftrightarrow> \<not> serializable v"
  by (simp add: to_json_def)

text \<open>
  C15. Payload round trip: for every value built from None, booleans, integers, strings, lists,
  dicts and namespaces, with distinct keys and without the reserved marker key, \<open>to_json\<close> succeeds
  and \<open>from_json\<close> of its text is the same value: no workflow payload changes on the wire.
\<close>

theorem json_roundtrip:
  assumes "json_rt v"
  shows "res_bind (to_json v) from_json = Inr v"
  using json_rt_wire [OF assms] by simp

theorem json_roundtrip_witness:
  "res_bind (to_json (PDict [(''k'', PList [PInt (-42), PStr ''a'', PNone]), (''n'', PNs [(''x'', PBool True)])]))
     from_json = Inr (PDict [(''k'', PList [PInt (-42), PStr ''a'', PNone]), (''n'', PNs [(''x'', PBool True)])])"
  by (rule json_roundtrip) (simp add: dict_simps dict_has_def AUTO_SERIALIZED_def)

section \<open>Decoded values\<close>

lemma dict_wf_pairs_dict: "dict_wf (pairs_dict ps)"
proof -
  have "dict_wf acc \<Longrightarrow> dict_wf (foldl (\<lambda>d p. dict_set (fst p) (snd p) d) acc ps)" for acc
    by (induction ps arbitrary: acc) simp_all
  then show ?thesis by (simp add: pairs_dict_def)
qed

lemma dict_to_object_rt:
  assumes "dict_wf d" and "\<forall>p \<in> set d. json_rt (snd p)"
  shows "json_rt (dict_to_object d)"
proof -
  note dict_del_set_mem [of AUTO_SERIALIZED d]
  with assms have "dict_wf (dict_del AUTO_SERIALIZED d)" "\<not> dict_has (dict_del AUTO_SERIALIZED d) AUTO_SERIALIZED"
    "\<forall>p \<in> set (dict_del AUTO_SERIALIZED d). json_rt (snd p)"
    by (auto simp: dict_has_def dict_get_del)
  with assms show ?thesis by (auto simp: dict_to_object_def dict_has_def split: option.splits)
qed

lemma pairs_dict_rt: "\<forall>p \<in> set ps. json_rt (snd p) \<Longrightarrow> json_rt (dict_to_object (pairs_dict ps))"
proof (rule dict_to_object_rt [OF dict_wf_pairs_dict])
  have gen: "\<forall>p \<in> set ps. json_rt (snd p) \<Longrightarrow> \<forall>p \<in> set acc. json_rt (snd p) \<Longrightarrow>
      \<forall>p \<in> set (foldl (\<lambda>d p. dict_set (fst p) (snd p) d) acc ps). json_rt (snd p)" for acc
  proof (induction ps arbitrary: acc)
    case (Cons p ps)
    then have "\<forall>q \<in> set (dict_set (fst p) (snd p) acc). json_rt (snd q)" by (auto dest: dict_set_mem)
    with Cons show ?case by simp
  qed simp
  show "\<forall>p \<in> set ps. json_rt (snd p) \<Longrightarrow> \<forall>p \<in> set (pairs_dict ps). json_rt (snd p)"
    using gen [of "[]"] by (simp add: pairs_dict_def)
qed

lemma parse_rt:
  "h = dict_to_object \<Longrightarrow> parse_val h n s = Some (v, r) \<Longrightarrow> json_rt v"
  "h = dict_to_object \<Longrightarrow> parse_elems h n s = Some (vs, r) \<Longrightarrow> \<forall>v \<in> set vs. json_rt v"
  "h = dict_to_object \<Longrightarrow> parse_members h n s = Some (ps, r) \<Longrightarrow> \<forall>p \<in> set ps. json_rt (snd p)"
proof (induction h n s and h n s and h n s arbitrary: v r and vs r and ps r
    rule: parse_val_parse_elems_parse_members.induct)
  case (3 h n c s)
  then show ?case
    by (auto split: if_splits option.splits list.splits prod.splits
        intro!: pairs_dict_rt dict_to_object_rt)
next
  case (5 h n s)
  then show ?case by (fastforce split: if_splits option.splits list.splits prod.splits)
next
  case (8 h n q s)
  then show ?case by (fastforce split: if_splits option.splits list.splits prod.splits)
qed simp_all

text \<open>
  Whatever text a payload is, what it decodes to is a value of the wire: its dicts have distinct keys and
  no marker key, it holds no task object, it can be encoded, and it comes back from its encoding.
\<close>

theorem decoded_payload_on_wire:
  assumes "from_json s = Inr v"
  shows "json_rt v \<and> (\<exists>t. to_json v = Inr t \<and> from_json t = Inr v)"
proof -
  have "json_rt v"
    using assms parse_rt(1) [OF refl] by (auto simp: from_json_def decode_json_def split: option.splits prod.splits if_splits)
  with json_rt_wire [OF this] show ?thesis by blast
qed

text \<open>A repeated key, and a marker that is false.\<close>

theorem decoded_payload_on_wire_witness:
  "\<exists>v. from_json (''{'' @ json_str ''a'' @ '': 1, '' @ json_str AUTO_SERIALIZED @ '': false, '' @ json_str ''a'' @ '':2}'') = Inr v \<and>
     json_rt v"
proof -
  have "from_json (''{'' @ json_str ''a'' @ '': 1, '' @ json_str AUTO_SERIALIZED @ '': false, '' @ json_str ''a'' @ '':2}'') =
      Inr (PDict [(''a'', PInt 2)])" by code_simp
  with decoded_payload_on_wire [OF this] show ?thesis by blast
qed

section \<open>Without ASCII escapes\<close>

text \<open>\<open>json.dumps\<close> with \<open>ensure_ascii=False\<close> and no hook: only quotes, backslashes and control characters are escaped.\<close>

definition raw_char :: "char \<Rightarrow> string" where
  "raw_char c = (if c = CHR 34 \<or> c = CHR 92 \<or> (of_char c :: nat) < 32 then esc_char c else [c])"

definition raw_str :: "string \<Rightarrow> string" where
  "raw_str s = CHR 34 # concat (map raw_char s) @ [CHR 34]"

fun raw_text :: "pyval \<Rightarrow> string" where
  "raw_text PNone = ''null''"
| "raw_text (PBool b) = (if b then ''true'' else ''false'')"
| "raw_text (PInt i) = str_of_int i"
| "raw_text (PStr s) = raw_str s"
| "raw_text (PList vs) = ''['' @ join_str '', '' (map raw_text vs) @ '']''"
| "raw_text (PDict d) = ''{'' @ join_str '', '' (map (\<lambda>p. raw_str (fst p) @ '': '' @ raw_text (snd p)) d) @ ''}''"
| "raw_text (PNs d) = []"
| "raw_text (PTask t) = []"

fun plain_json :: "pyval \<Rightarrow> bool" where
  "plain_json (PList vs) = (\<forall>v \<in> set vs. plain_json v)"
| "plain_json (PDict d) = (\<forall>p \<in> set d. plain_json (snd p))"
| "plain_json (PNs d) = False"
| "plain_json (PTask t) = False"
| "plain_json v = True"

definition json_dumps_raw :: "pyval \<Rightarrow> string res" where
  "json_dumps_raw v = (if plain_json v then Inr (raw_text v)
     else Inl (exc TypeError ''Object is not JSON serializable''))"

text \<open>Values without objects and repeated keys come back.\<close>

fun json_doc :: "pyval \<Rightarrow> bool" where
  "json_doc (PList vs) = (\<forall>v \<in> set vs. json_doc v)"
| "json_doc (PDict d) = (dict_wf d \<and> (\<forall>p \<in> set d. json_doc (snd p)))"
| "json_doc (PNs d) = False"
| "json_doc (PTask t) = False"
| "json_doc v = True"

lemma json_doc_plain: "json_doc v \<Longrightarrow> plain_json v"
  by (induction v rule: json_doc.induct) auto

lemma scan_raw_char: "scan_str (raw_char c @ r) = cons_fst c (scan_str r)"
  by (cases "c = CHR 34 \<or> c = CHR 92 \<or> (of_char c :: nat) < 32")
    (auto simp: raw_char_def scan_str_esc, subst scan_str.simps, simp)

lemma encodes_raw: "encodes (concat (map raw_char s)) s"
proof -
  have "scan_str (concat (map raw_char s) @ CHR 34 # r) = Some (s, r)" for r
  proof (induction s)
    case Nil
    show ?case by (subst scan_str.simps) simp
  qed (simp add: scan_raw_char cons_fst_def)
  then show ?thesis by (simp add: encodes_def)
qed

lemma parses_raw_str: "parses h (PStr s) (raw_str s)"
  using encodes_raw [of s] by (auto simp: value_start_def raw_str_def encodes_def dest!: Suc_le_D)

lemma raw_parses: "json_doc v \<Longrightarrow> parses PDict v (raw_text v)"
proof (induction v rule: json_doc.induct)
  case (1 vs)
  then have "list_all2 (parses PDict) vs (map raw_text vs)" by (auto simp: list_all2_conv_all_nth)
  from parses_list [OF this] show ?case by simp
next
  case (2 d)
  let ?t = "map (\<lambda>p. (concat (map raw_char (fst p)), raw_text (snd p))) d"
  have all: "list_all2 (member_parses PDict) d ?t"
    using 2 by (auto simp: list_all2_conv_all_nth member_parses_def encodes_raw)
  have eq: "raw_text (PDict d) = ''{'' @ join_str '', '' (map member_text ?t) @ ''}''"
    by (simp add: member_text_def raw_str_def comp_def)
  have "PDict (pairs_dict d) = PDict d" using 2 by (simp add: pairs_dict_wf)
  from parses_object [OF all this] show ?case unfolding eq .
qed (use parses_lit parses_int parses_raw_str in simp_all)

lemma json_loads_raw:
  assumes "json_doc v"
  shows "json_loads (raw_text v) = Inr v"
proof -
  have "parses PDict v (raw_text v)" by (rule raw_parses [OF assms])
  then have "skip_ws (raw_text v @ []) = raw_text v"
    and "parse_val PDict (Suc (length (raw_text v))) (raw_text v @ []) = Some (v, [])"
    by (simp_all del: append_Nil2 add: non_digit_start_def)
  then show ?thesis by (simp add: json_loads_def decode_json_def)
qed

lemma raw_text_nonempty: "json_doc v \<Longrightarrow> raw_text v \<noteq> []"
  using raw_parses [of v] by (auto simp: value_start_def)

end
