(* ===== verification/Proto.thy ===== *)
theory Proto
  imports Json
begin

text \<open>
  The messages of the workflow protocol that the worker reads and writes: history events and
  workflow actions, with the constructors of \<open>_durabletask/internal/helpers.py\<close> and
  \<open>_durabletask/internal/timer.py\<close>. A message is a record of the fields the code reads. A
  \<open>oneof\<close> is a datatype. A \<open>StringValue\<close> field is \<open>string option\<close>, \<open>None\<close> when unset.

  A \<open>datetime\<close> (naive, UTC) is the number of microseconds since 1970, a \<open>timedelta\<close> a number
  of microseconds. Both have Python's range, and arithmetic outside of it raises \<open>OverflowError\<close>.
\<close>

section \<open>Time\<close>

definition dt_min :: int where "dt_min = -62135596800000000"
definition dt_max :: int where "dt_max = 253402300799999999"
definition td_max :: int where "td_max = 86399999999999999999"

definition dt_add :: "int \<Rightarrow> int \<Rightarrow> int res" where
  "dt_add t d = (if dt_min \<le> t + d \<and> t + d \<le> dt_max then Inr (t + d)
                 else Inl (exc OverflowError ''date value out of range''))"

lemma dt_add_Inr_iff: "dt_add t d = Inr t' \<longleftrightarrow> t' = t + d \<and> dt_min \<le> t' \<and> t' \<le> dt_max"
  by (auto simp: dt_add_def)

record timestamp =
  ts_seconds :: int
  ts_nanos :: int

text \<open>\<open>Timestamp.FromDatetime\<close> and \<open>Timestamp.ToDatetime\<close>.\<close>

definition new_timestamp :: "int \<Rightarrow> timestamp" where
  "new_timestamp dt = \<lparr>ts_seconds = dt div 1000000, ts_nanos = (dt mod 1000000) * 1000\<rparr>"

definition to_datetime :: "timestamp \<Rightarrow> int" where
  "to_datetime ts = ts_seconds ts * 1000000 + ts_nanos ts div 1000"

lemma to_datetime_new_timestamp [simp]: "to_datetime (new_timestamp dt) = dt"
  by (simp add: to_datetime_def new_timestamp_def)

definition OPTIONAL_TIMER_FIRE_AT :: timestamp where
  "OPTIONAL_TIMER_FIRE_AT = \<lparr>ts_seconds = 253402300799, ts_nanos = 999999999\<rparr>"

text \<open>No datetime converts to the sentinel: it needs nanoseconds.\<close>

lemma new_timestamp_not_sentinel: "new_timestamp dt \<noteq> OPTIONAL_TIMER_FIRE_AT"
proof
  assume "new_timestamp dt = OPTIONAL_TIMER_FIRE_AT"
  then have "(dt mod 1000000) * 1000 = 999999999"
    by (simp add: new_timestamp_def OPTIONAL_TIMER_FIRE_AT_def)
  then have "((dt mod 1000000) * 1000) mod 1000 = 999999999 mod (1000 :: int)" by simp
  then show False by simp
qed

text \<open>A \<open>fire_at\<close> argument: a datetime or a protobuf timestamp.\<close>

datatype fire_point = AtDatetime int | AtTimestamp timestamp

fun to_timestamp :: "fire_point \<Rightarrow> timestamp" where
  "to_timestamp (AtTimestamp ts) = ts"
| "to_timestamp (AtDatetime dt) = new_timestamp dt"

datatype timer_origin =
    OriginCreateTimer | OriginExternalEvent string | OriginActivityRetry string
  | OriginChildWorkflowRetry string

section \<open>Events\<close>

definition sv_value :: "string option \<Rightarrow> string" where
  "sv_value v = (case v of None \<Rightarrow> [] | Some s \<Rightarrow> s)"

definition is_empty :: "string option \<Rightarrow> bool" where
  "is_empty v = (v = None \<or> sv_value v = [])"

record router =
  sourceAppID :: string
  targetAppID :: string

text \<open>The \<open>eventType\<close> oneof. \<open>OtherEvent\<close> is any type the worker has no branch for.\<close>

datatype event_body =
    WorkflowStarted string "string list"
  | ExecutionStarted string "string option" string
  | TimerCreated timestamp "timer_origin option"
  | TimerFired int timestamp
  | TaskScheduled string "string option"
  | TaskCompleted int "string option"
  | TaskFailed int failure_details
  | ChildWorkflowInstanceCreated string "string option" string
  | ChildWorkflowInstanceCompleted int "string option"
  | ChildWorkflowInstanceFailed int failure_details
  | EventRaised string "string option"
  | ExecutionSuspended
  | ExecutionResumed
  | ExecutionTerminated "string option"
  | ExecutionStalled
  | OtherEvent string

record event =
  eventId :: int
  ev_timestamp :: timestamp
  ev_router :: router
  ev_body :: event_body

definition zero_timestamp :: timestamp where
  "zero_timestamp = \<lparr>ts_seconds = 0, ts_nanos = 0\<rparr>"

definition no_router :: router where
  "no_router = \<lparr>sourceAppID = [], targetAppID = []\<rparr>"

definition mk_event :: "int \<Rightarrow> event_body \<Rightarrow> event" where
  "mk_event i b = \<lparr>eventId = i, ev_timestamp = zero_timestamp, ev_router = no_router, ev_body = b\<rparr>"

definition new_workflow_started_event :: "int option \<Rightarrow> event" where
  "new_workflow_started_event dt =
     \<lparr>eventId = -1,
      ev_timestamp = (case dt of None \<Rightarrow> zero_timestamp | Some t \<Rightarrow> new_timestamp t),
      ev_router = no_router, ev_body = WorkflowStarted [] []\<rparr>"

definition new_execution_started_event :: "string \<Rightarrow> string \<Rightarrow> string option \<Rightarrow> event" where
  "new_execution_started_event name inst inp = mk_event (-1) (ExecutionStarted name inp inst)"

definition new_task_scheduled_event :: "int \<Rightarrow> string \<Rightarrow> string option \<Rightarrow> event" where
  "new_task_scheduled_event i name inp = mk_event i (TaskScheduled name inp)"

definition new_task_completed_event :: "int \<Rightarrow> string option \<Rightarrow> event" where
  "new_task_completed_event i out = mk_event (-1) (TaskCompleted i out)"

definition new_failure_details :: "exn \<Rightarrow> failure_details" where
  "new_failure_details ex = \<lparr>errorType = exn_name (ex_kind ex), errorMessage = ex_msg ex\<rparr>"

definition new_task_failed_event :: "int \<Rightarrow> exn \<Rightarrow> event" where
  "new_task_failed_event i ex = mk_event (-1) (TaskFailed i (new_failure_details ex))"

definition new_child_workflow_created_event :: "int \<Rightarrow> string \<Rightarrow> string \<Rightarrow> string option \<Rightarrow> event" where
  "new_child_workflow_created_event i name inst inp =
     mk_event i (ChildWorkflowInstanceCreated name inp inst)"

definition new_child_workflow_completed_event :: "int \<Rightarrow> string option \<Rightarrow> event" where
  "new_child_workflow_completed_event i out = mk_event (-1) (ChildWorkflowInstanceCompleted i out)"

definition new_child_workflow_failed_event :: "int \<Rightarrow> exn \<Rightarrow> event" where
  "new_child_workflow_failed_event i ex =
     mk_event (-1) (ChildWorkflowInstanceFailed i (new_failure_details ex))"

definition new_event_raised_event :: "string \<Rightarrow> string option \<Rightarrow> event" where
  "new_event_raised_event name inp = mk_event (-1) (EventRaised name inp)"

definition new_suspend_event :: event where
  "new_suspend_event = mk_event (-1) ExecutionSuspended"

definition new_resume_event :: event where
  "new_resume_event = mk_event (-1) ExecutionResumed"

definition new_terminated_event :: "string option \<Rightarrow> event" where
  "new_terminated_event out = mk_event (-1) (ExecutionTerminated out)"

definition new_timer_created_event :: "int \<Rightarrow> fire_point \<Rightarrow> timer_origin option \<Rightarrow> event" where
  "new_timer_created_event i fire_at origin = mk_event i (TimerCreated (to_timestamp fire_at) origin)"

definition new_timer_fired_event :: "int \<Rightarrow> fire_point \<Rightarrow> event" where
  "new_timer_fired_event i fire_at = mk_event (-1) (TimerFired i (to_timestamp fire_at))"

section \<open>Actions\<close>

datatype status = RUNNING | COMPLETED | CONTINUED_AS_NEW | FAILED | CANCELED | TERMINATED
  | PENDING | SUSPENDED | STALLED

fun get_orchestration_status_str :: "status \<Rightarrow> string" where
  "get_orchestration_status_str RUNNING = ''RUNNING''"
| "get_orchestration_status_str COMPLETED = ''COMPLETED''"
| "get_orchestration_status_str CONTINUED_AS_NEW = ''CONTINUED_AS_NEW''"
| "get_orchestration_status_str FAILED = ''FAILED''"
| "get_orchestration_status_str CANCELED = ''CANCELED''"
| "get_orchestration_status_str TERMINATED = ''TERMINATED''"
| "get_orchestration_status_str PENDING = ''PENDING''"
| "get_orchestration_status_str SUSPENDED = ''SUSPENDED''"
| "get_orchestration_status_str STALLED = ''STALLED''"

datatype action_body =
    ScheduleTask string "string option" router string "int option"
  | CreateTimer timestamp "timer_origin option"
  | CreateChildWorkflow string "string option" "string option" router "int option"
  | CompleteWorkflow status "string option" "failure_details option" "event list option"
  | WorkflowVersionNotAvailable

record action =
  act_id :: int
  act_body :: action_body
  act_router :: "router option"

definition new_complete_workflow_action ::
  "int \<Rightarrow> status \<Rightarrow> string option \<Rightarrow> failure_details option \<Rightarrow> event list option \<Rightarrow> router option \<Rightarrow> action"
where
  "new_complete_workflow_action i st result details carryover rt =
     \<lparr>act_id = i, act_body = CompleteWorkflow st result details carryover, act_router = rt\<rparr>"

definition new_workflow_version_not_available_action :: "int \<Rightarrow> action" where
  "new_workflow_version_not_available_action i =
     \<lparr>act_id = i, act_body = WorkflowVersionNotAvailable, act_router = None\<rparr>"

definition new_schedule_task_action ::
  "int \<Rightarrow> string \<Rightarrow> string option \<Rightarrow> router \<Rightarrow> string \<Rightarrow> int option \<Rightarrow> action" where
  "new_schedule_task_action i name inp rt exec_id scope =
     \<lparr>act_id = i, act_body = ScheduleTask name inp rt exec_id scope, act_router = Some rt\<rparr>"

definition new_create_child_workflow_action ::
  "int \<Rightarrow> string \<Rightarrow> string option \<Rightarrow> string option \<Rightarrow> router \<Rightarrow> int option \<Rightarrow> action" where
  "new_create_child_workflow_action i name inst inp rt scope =
     \<lparr>act_id = i, act_body = CreateChildWorkflow name inst inp rt scope, act_router = Some rt\<rparr>"

definition new_create_timer_action :: "int \<Rightarrow> fire_point \<Rightarrow> timer_origin option \<Rightarrow> action" where
  "new_create_timer_action i fire_at origin =
     \<lparr>act_id = i, act_body = CreateTimer (to_timestamp fire_at) origin, act_router = None\<rparr>"

definition fire_at_matches_sentinel :: "timestamp \<Rightarrow> bool" where
  "fire_at_matches_sentinel ts =
     (ts_seconds ts = ts_seconds OPTIONAL_TIMER_FIRE_AT \<and> ts_nanos ts = ts_nanos OPTIONAL_TIMER_FIRE_AT)"

definition is_optional_timer_action :: "action \<Rightarrow> bool" where
  "is_optional_timer_action a = (case act_body a of
     CreateTimer ts (Some (OriginExternalEvent n)) \<Rightarrow> fire_at_matches_sentinel ts
   | _ \<Rightarrow> False)"

definition is_optional_timer_event :: "event \<Rightarrow> bool" where
  "is_optional_timer_event e = (case ev_body e of
     TimerCreated ts origin \<Rightarrow> fire_at_matches_sentinel ts \<and>
       (case origin of None \<Rightarrow> True | Some (OriginExternalEvent n) \<Rightarrow> True | _ \<Rightarrow> False)
   | _ \<Rightarrow> False)"

definition is_complete_action :: "action \<Rightarrow> bool" where
  "is_complete_action a = (case act_body a of CompleteWorkflow _ _ _ _ \<Rightarrow> True | _ \<Rightarrow> False)"

lemma is_optional_timer_action_simps [simp]:
  "\<not> is_optional_timer_action (new_schedule_task_action i n inp rt x sc)"
  "\<not> is_optional_timer_action (new_create_child_workflow_action i n inst inp rt sc)"
  "\<not> is_optional_timer_action (new_complete_workflow_action i st r d c ro)"
  by (simp_all add: is_optional_timer_action_def new_schedule_task_action_def
      new_create_child_workflow_action_def new_complete_workflow_action_def)

lemma is_complete_action_simps [simp]:
  "\<not> is_complete_action (new_schedule_task_action i n inp rt x sc)"
  "\<not> is_complete_action (new_create_child_workflow_action i n inst inp rt sc)"
  "\<not> is_complete_action (new_create_timer_action i ts og)"
  "\<not> is_complete_action (new_workflow_version_not_available_action i)"
  "is_complete_action (new_complete_workflow_action i st r d c ro)"
  by (simp_all add: is_complete_action_def new_schedule_task_action_def new_create_timer_action_def
      new_create_child_workflow_action_def new_complete_workflow_action_def
      new_workflow_version_not_available_action_def)

lemma act_id_simps [simp]:
  "act_id (new_schedule_task_action i n inp rt x sc) = i"
  "act_id (new_create_child_workflow_action i n inst inp rt sc) = i"
  "act_id (new_create_timer_action i ts og) = i"
  "act_id (new_workflow_version_not_available_action i) = i"
  "act_id (new_complete_workflow_action i st r d c ro) = i"
  by (simp_all add: new_schedule_task_action_def new_create_timer_action_def
      new_create_child_workflow_action_def new_complete_workflow_action_def
      new_workflow_version_not_available_action_def)

text \<open>
  A timer made from a datetime is never taken for an optional timer, and the indefinite wait's
  timer always is.
\<close>

lemma optional_timer_action_iff:
  "is_optional_timer_action (new_create_timer_action i ts og) \<longleftrightarrow>
     to_timestamp ts = OPTIONAL_TIMER_FIRE_AT \<and> (\<exists>n. og = Some (OriginExternalEvent n))"
  by (auto simp: is_optional_timer_action_def new_create_timer_action_def
      fire_at_matches_sentinel_def split: option.splits timer_origin.splits)

end
