(* ===== verification/Deterministic.thy ===== *)
theory Deterministic
  imports Proto
begin

text \<open>
  The deterministic helpers of \<open>_durabletask/deterministic.py\<close>: the ISO text of a datetime (the
  proleptic Gregorian calendar of Python's \<open>datetime\<close>), the names that \<open>uuid4\<close> hashes, seeds and
  the sequenced clock. SHA-1, SHA-256 and the pseudo-random generator of the standard library are
  parameters: a hash is a function of the hashed text, a generator a function of its seed.
\<close>

section \<open>Calendar\<close>

definition us_per_day :: int where "us_per_day = 86400000000"

text \<open>Year, month and day of a day number (0 is 1970-01-01), counted in eras of 400 years from March.\<close>

definition civil_of_days :: "int \<Rightarrow> int \<times> int \<times> int" where
  "civil_of_days z0 =
    (let z = z0 + 719468; era = z div 146097; doe = z mod 146097;
         yoe = (doe - doe div 1460 + doe div 36524 - doe div 146096) div 365;
         doy = doe - (365 * yoe + yoe div 4 - yoe div 100);
         mp = (5 * doy + 2) div 153;
         d = doy - (153 * mp + 2) div 5 + 1;
         m = (if mp < 10 then mp + 3 else mp - 9)
     in (yoe + era * 400 + (if m \<le> 2 then 1 else 0), m, d))"

lemma civil_examples:
  "civil_of_days 0 = (1970, 1, 1)" "civil_of_days 11016 = (2000, 2, 29)"
  "civil_of_days (-719162) = (1, 1, 1)" "civil_of_days 2932896 = (9999, 12, 31)"
  by code_simp+

definition pad_int :: "nat \<Rightarrow> int \<Rightarrow> string" where
  "pad_int w i = zero_pad w (str_of_nat (nat i))"

text \<open>\<open>datetime.isoformat()\<close> of a naive datetime.\<close>

definition isoformat :: "int \<Rightarrow> string" where
  "isoformat dt =
    (let day = dt div us_per_day; us = dt mod us_per_day; secs = us div 1000000; frac = us mod 1000000
     in case civil_of_days day of (y, m, d) \<Rightarrow>
       pad_int 4 y @ ''-'' @ pad_int 2 m @ ''-'' @ pad_int 2 d @ ''T'' @
       pad_int 2 (secs div 3600) @ '':'' @ pad_int 2 (secs div 60 mod 60) @ '':'' @ pad_int 2 (secs mod 60) @
       (if frac = 0 then [] else ''.'' @ pad_int 6 frac))"

text \<open>\<open>repr\<close> of a \<open>timedelta\<close> and of a \<open>datetime\<close> (with the repr of its \<open>tzinfo\<close>, if any).\<close>

definition repr_timedelta :: "int \<Rightarrow> string" where
  "repr_timedelta td =
    (let days = td div us_per_day; secs = td mod us_per_day div 1000000; us = td mod 1000000;
         parts = (if days \<noteq> 0 then [''days='' @ str_of_int days] else []) @
           (if secs \<noteq> 0 then [''seconds='' @ str_of_int secs] else []) @
           (if us \<noteq> 0 then [''microseconds='' @ str_of_int us] else [])
     in ''datetime.timedelta('' @ (if parts = [] then ''0'' else join_str '', '' parts) @ '')'')"

definition repr_datetime :: "int \<Rightarrow> string option \<Rightarrow> string" where
  "repr_datetime dt tz =
    (let us = dt mod us_per_day; secs = us div 1000000; frac = us mod 1000000; s = secs mod 60
     in case civil_of_days (dt div us_per_day) of (y, m, d) \<Rightarrow>
       ''datetime.datetime('' @
       join_str '', '' (map str_of_int
         ([y, m, d, secs div 3600, secs div 60 mod 60] @
          (if frac \<noteq> 0 then [s, frac] else if s \<noteq> 0 then [s] else []))) @
       (case tz of None \<Rightarrow> [] | Some r \<Rightarrow> '', tzinfo='' @ r) @ '')'')"

section \<open>Seeds and identifiers\<close>

record determinism_seed =
  seed_instance_id :: string
  orchestration_unix_ts :: int

text \<open>\<open>int.from_bytes(hash_bytes[:8], byteorder='big')\<close> over the digest of the text.\<close>

definition from_bytes_big :: "nat list \<Rightarrow> nat" where
  "from_bytes_big bs = foldl (\<lambda>n b. n * 256 + b) 0 bs"

definition to_int :: "(string \<Rightarrow> nat list) \<Rightarrow> determinism_seed \<Rightarrow> nat" where
  "to_int sha256 sd =
     from_bytes_big (take 8 (sha256 (seed_instance_id sd @ '':'' @ str_of_int (orchestration_unix_ts sd))))"

text \<open>
  \<open>datetime.timestamp()\<close> of a naive datetime reads it in the local time zone of the process:
  \<open>tz\<close> is the offset of that zone from UTC, in microseconds. \<open>int\<close> truncates towards zero.
\<close>

definition derive_seed :: "(string \<Rightarrow> nat list) \<Rightarrow> int \<Rightarrow> string \<Rightarrow> int \<Rightarrow> nat" where
  "derive_seed sha256 tz inst dt =
    (let us = dt - tz; ts = (if us < 0 then - ((- us) div 1000000) else us div 1000000)
     in to_int sha256 \<lparr>seed_instance_id = inst, orchestration_unix_ts = ts\<rparr>)"

definition guid_name :: "string \<Rightarrow> int \<Rightarrow> nat \<Rightarrow> string" where
  "guid_name inst dt counter = inst @ ''_'' @ isoformat dt @ ''_'' @ str_of_nat counter"

text \<open>\<open>uuid5\<close> of the DNS namespace of the .NET SDK is the parameter \<open>u5\<close>.\<close>

definition deterministic_uuid_v5 :: "(string \<Rightarrow> string) \<Rightarrow> string \<Rightarrow> int \<Rightarrow> nat \<Rightarrow> string" where
  "deterministic_uuid_v5 u5 inst dt counter = u5 (guid_name inst dt counter)"

text \<open>
  The version and variant bits of the deprecated \<open>deterministic_uuid4\<close>, on its sixteen random bytes.
\<close>

definition uuid4_bits :: "nat list \<Rightarrow> nat list" where
  "uuid4_bits bs = bs[6 := bs ! 6 mod 16 + 64, 8 := bs ! 8 mod 64 + 128]"

section \<open>Properties of the generated names\<close>

lemma str_of_nat_digits: "c \<in> set (str_of_nat n) \<Longrightarrow> \<exists>d < 10. c = digit d"
proof (induction n rule: str_of_nat.induct)
  case (1 n)
  show ?case
  proof (cases "n < 10")
    case True
    with 1(2) show ?thesis by (auto simp: str_of_nat.simps)
  next
    case False
    then have "str_of_nat n = str_of_nat (n div 10) @ [digit (n mod 10)]" by (subst str_of_nat.simps) simp
    with 1(2) consider "c \<in> set (str_of_nat (n div 10))" | "c = digit (n mod 10)" by auto
    then show ?thesis
    proof cases
      case 1
      then show ?thesis using "1.IH" False by blast
    next
      case 2
      then show ?thesis by (intro exI [of _ "n mod 10"]) simp
    qed
  qed
qed

lemma digit_inj: "d < 10 \<Longrightarrow> e < 10 \<Longrightarrow> digit d = digit e \<Longrightarrow> d = e"
proof -
  assume "d < 10" "e < 10" "digit d = digit e"
  then have "of_char (char_of (48 + d) :: char) = (of_char (char_of (48 + e) :: char) :: nat)"
    by (simp add: digit_def)
  with \<open>d < 10\<close> \<open>e < 10\<close> show "d = e" by (simp add: of_char_of)
qed

lemma underscore_not_digit: "CHR ''_'' \<notin> set (str_of_nat n)"
proof
  assume "CHR ''_'' \<in> set (str_of_nat n)"
  then obtain d where "d < 10" "CHR ''_'' = digit d" using str_of_nat_digits by blast
  then have "of_char (CHR ''_'') = (of_char (char_of (48 + d) :: char) :: nat)" by (simp add: digit_def)
  with \<open>d < 10\<close> show False by (simp add: of_char_of)
qed

lemma str_of_nat_inj: "str_of_nat m = str_of_nat n \<Longrightarrow> m = n"
proof (induction m arbitrary: n rule: less_induct)
  case (less m)
  show ?case
  proof (cases "m < 10")
    case True
    have "n < 10"
    proof (rule ccontr)
      assume "\<not> n < 10"
      then have "str_of_nat n = str_of_nat (n div 10) @ [digit (n mod 10)]" by (subst str_of_nat.simps) simp
      moreover have "length (str_of_nat m) = 1" using True by (subst str_of_nat.simps) simp
      moreover have "str_of_nat (n div 10) \<noteq> []" by simp
      ultimately show False using less.prems by (metis length_append_singleton length_0_conv One_nat_def Suc_inject)
    qed
    with less.prems True show ?thesis
      by (subst (asm) (1 2) str_of_nat.simps) (auto dest: digit_inj)
  next
    case False
    have m: "str_of_nat m = str_of_nat (m div 10) @ [digit (m mod 10)]" using False by (subst str_of_nat.simps) simp
    have "\<not> n < 10"
    proof
      assume "n < 10"
      then have "str_of_nat n = [digit n]" by (subst str_of_nat.simps) simp
      with less.prems m show False by simp
    qed
    then have n: "str_of_nat n = str_of_nat (n div 10) @ [digit (n mod 10)]" by (subst str_of_nat.simps) simp
    have "m div 10 = n div 10" using less.IH [of "m div 10" "n div 10"] False less.prems m n by simp
    moreover have "m mod 10 = n mod 10" using less.prems m n by (intro digit_inj) simp_all
    ultimately show ?thesis by (metis div_mult_mod_eq)
  qed
qed

lemma guid_name_inj:
  assumes "guid_name inst dt n = guid_name inst dt' m"
  shows "n = m"
proof -
  have split: "takeWhile (\<lambda>c. c \<noteq> CHR ''_'') (rev (guid_name inst t k)) = rev (str_of_nat k)" for t k
  proof -
    have all: "\<forall>c \<in> set (rev (str_of_nat k)). c \<noteq> CHR ''_''" using underscore_not_digit [of k] by auto
    have eq: "rev (guid_name inst t k) = rev (str_of_nat k) @ CHR ''_'' # rev (inst @ ''_'' @ isoformat t)"
      by (simp add: guid_name_def)
    show ?thesis unfolding eq by (subst takeWhile_append2) (use all in auto)
  qed
  have "rev (str_of_nat n) = rev (str_of_nat m)" using split [of dt n] split [of dt' m] assms by simp
  then show ?thesis by (simp add: str_of_nat_inj)
qed

end
