(* ===== verification/WfRetry.thy ===== *)
theory WfRetry
  imports Complex_Main Proto
begin

text \<open>
  The retry policy of workflow tasks: \<open>RetryPolicy\<close>, \<open>is_error_non_retryable\<close> and
  \<open>RetryableTask.compute_next_delay\<close> of \<open>_durabletask/task.py\<close>.

  Floats are exact rationals here. \<open>timedelta(seconds=x)\<close> rounds to the nearest microsecond, ties
  to even, as Python does, and \<open>math.pow\<close> raises \<open>OverflowError\<close> from \<open>2 ^ 1024\<close> on.
\<close>

record retry_policy =
  first_retry_interval :: int
  max_number_of_attempts :: int
  backoff_coefficient :: "rat option"
  max_retry_interval :: "int option"
  retry_timeout :: "int option"
  non_retryable_error_types :: "string list option"

text \<open>An entry of \<open>non_retryable_error_types\<close>: a name or a class (by its \<open>__name__\<close>).\<close>

datatype error_ref = ErrorName string | ErrorClass string

fun error_ref_name :: "error_ref \<Rightarrow> string option" where
  "error_ref_name (ErrorName n) = (if n = [] then None else Some n)"
| "error_ref_name (ErrorClass n) = Some n"

definition normalize_error_types :: "error_ref list option \<Rightarrow> string list option" where
  "normalize_error_types ts = (case ts of
     None \<Rightarrow> None
   | Some [] \<Rightarrow> None
   | Some xs \<Rightarrow> Some (remdups (List.map_filter error_ref_name xs)))"

definition new_retry_policy ::
  "int \<Rightarrow> int \<Rightarrow> rat option \<Rightarrow> int option \<Rightarrow> int option \<Rightarrow> error_ref list option \<Rightarrow> retry_policy res"
where
  "new_retry_policy first max_attempts backoff max_interval timeout errs =
    (if first < 0 then Inl (exc ValueError ''first_retry_interval must be >= 0'')
     else if max_attempts < 1 then Inl (exc ValueError ''max_number_of_attempts must be >= 1'')
     else if (case backoff of None \<Rightarrow> False | Some b \<Rightarrow> b < 1)
       then Inl (exc ValueError ''backoff_coefficient must be >= 1'')
     else if (case max_interval of None \<Rightarrow> False | Some m \<Rightarrow> m < 0)
       then Inl (exc ValueError ''max_retry_interval must be >= 0'')
     else if (case timeout of None \<Rightarrow> False | Some t \<Rightarrow> t < 0)
       then Inl (exc ValueError ''retry_timeout must be >= 0'')
     else Inr \<lparr>first_retry_interval = first, max_number_of_attempts = max_attempts,
                backoff_coefficient = backoff, max_retry_interval = max_interval,
                retry_timeout = timeout,
                non_retryable_error_types = normalize_error_types errs\<rparr>)"

definition is_error_non_retryable :: "string \<Rightarrow> retry_policy \<Rightarrow> bool" where
  "is_error_non_retryable error_type p =
     (if error_type = ''NonRetryableError'' then True
      else case non_retryable_error_types p of
        None \<Rightarrow> False
      | Some names \<Rightarrow> error_type \<in> set names)"

section \<open>The delay of the next attempt\<close>

definition round_half_even :: "rat \<Rightarrow> int" where
  "round_half_even x = (let f = \<lfloor>x\<rfloor>; r = x - of_int f in
     if r < 1 / 2 then f else if r > 1 / 2 then f + 1 else if even f then f else f + 1)"

definition td_of_seconds :: "rat \<Rightarrow> int res" where
  "td_of_seconds q = (let m = round_half_even (q * 1000000) in
     if - td_max \<le> m \<and> m \<le> td_max then Inr m
     else Inl (exc OverflowError ''days; must have magnitude <= 999999999''))"

definition math_pow :: "rat \<Rightarrow> nat \<Rightarrow> rat res" where
  "math_pow b n = (let x = b ^ n in
     if x < 2 ^ 1024 then Inr x else Inl (exc OverflowError ''math range error''))"

definition seconds_of :: "int \<Rightarrow> rat" where
  "seconds_of us = of_int us / 1000000"

definition backoff_of :: "retry_policy \<Rightarrow> rat" where
  "backoff_of p = (case backoff_coefficient p of None \<Rightarrow> 1 | Some b \<Rightarrow> b)"

text \<open>The body of the loop: the delay after attempt \<open>Suc i\<close>, capped.\<close>

definition delay_at :: "retry_policy \<Rightarrow> nat \<Rightarrow> rat res" where
  "delay_at p i = res_bind (math_pow (backoff_of p) i) (\<lambda>pw.
     let d = pw * seconds_of (first_retry_interval p) in
     Inr (case max_retry_interval p of None \<Rightarrow> d | Some m \<Rightarrow> min d (seconds_of m)))"

text \<open>\<open>n\<close> rounds of the loop: the elapsed total and the last delay.\<close>

fun delay_loop :: "retry_policy \<Rightarrow> nat \<Rightarrow> (rat \<times> rat) res" where
  "delay_loop p 0 = Inr (0, 0)"
| "delay_loop p (Suc n) = res_bind (delay_loop p n) (\<lambda>(tot, _).
     res_bind (delay_at p n) (\<lambda>d. Inr (tot + d, d)))"

definition retry_expiration :: "retry_policy \<Rightarrow> int \<Rightarrow> int res" where
  "retry_expiration p start = (case retry_timeout p of None \<Rightarrow> Inr dt_max | Some t \<Rightarrow> dt_add start t)"

definition compute_next_delay :: "retry_policy \<Rightarrow> nat \<Rightarrow> int \<Rightarrow> int option res" where
  "compute_next_delay p attempt start =
     (if int attempt \<ge> max_number_of_attempts p then Inr None
      else res_bind (retry_expiration p start) (\<lambda>expiration.
           res_bind (delay_loop p attempt) (\<lambda>(tot, next_delay).
           res_bind (td_of_seconds tot) (\<lambda>elapsed.
           res_bind (dt_add start elapsed) (\<lambda>next_start.
             if next_start < expiration
             then res_bind (td_of_seconds next_delay) (\<lambda>d. Inr (Some d))
             else Inr None)))))"

section \<open>Facts about delays\<close>

text \<open>What the constructor guarantees.\<close>

definition valid_policy :: "retry_policy \<Rightarrow> bool" where
  "valid_policy p \<longleftrightarrow> 0 \<le> first_retry_interval p \<and> 1 \<le> max_number_of_attempts p \<and> 1 \<le> backoff_of p \<and>
     (\<forall>m. max_retry_interval p = Some m \<longrightarrow> 0 \<le> m) \<and> (\<forall>t. retry_timeout p = Some t \<longrightarrow> 0 \<le> t)"

lemma new_retry_policy_valid: "new_retry_policy f n b m t e = Inr p \<Longrightarrow> valid_policy p"
  by (auto simp: new_retry_policy_def valid_policy_def backoff_of_def split: if_splits option.splits)

lemma round_half_even_mono: "x \<le> y \<Longrightarrow> round_half_even x \<le> round_half_even y"
proof -
  assume xy: "x \<le> y"
  then have le: "\<lfloor>x\<rfloor> \<le> \<lfloor>y\<rfloor>" by (rule floor_mono)
  have lo: "\<lfloor>y\<rfloor> \<le> round_half_even y" and hi: "round_half_even x \<le> \<lfloor>x\<rfloor> + 1"
    by (auto simp: round_half_even_def Let_def)
  show ?thesis
  proof (cases "\<lfloor>x\<rfloor> = \<lfloor>y\<rfloor>")
    case True
    with xy show ?thesis by (auto simp: round_half_even_def Let_def)
  next
    case False
    with le lo hi show ?thesis by linarith
  qed
qed

lemma round_half_even_of_int [simp]: "round_half_even (of_int i) = i"
  by (simp add: round_half_even_def)

lemma round_half_even_le: "x \<le> of_int i \<Longrightarrow> round_half_even x \<le> i"
  using round_half_even_mono [of x "of_int i"] by simp

lemma round_half_even_ge: "of_int i \<le> x \<Longrightarrow> i \<le> round_half_even x"
  using round_half_even_mono [of "of_int i" x] by simp

lemma delay_at_ge0:
  assumes "valid_policy p" and "delay_at p i = Inr d"
  shows "0 \<le> d"
proof -
  from assms obtain pw where pw: "math_pow (backoff_of p) i = Inr pw"
    by (auto simp: delay_at_def res_bind_Inr_iff)
  then have "0 \<le> pw"
    using assms(1) by (auto simp: math_pow_def Let_def valid_policy_def split: if_splits)
  then have "0 \<le> pw * seconds_of (first_retry_interval p)"
    using assms(1) by (simp add: valid_policy_def seconds_of_def)
  moreover have "\<forall>m. max_retry_interval p = Some m \<longrightarrow> 0 \<le> seconds_of m"
    using assms(1) by (simp add: valid_policy_def seconds_of_def)
  ultimately show ?thesis
    using pw assms(2) by (auto simp: delay_at_def Let_def split: option.splits)
qed

lemma delay_at_le_cap:
  "delay_at p i = Inr d \<Longrightarrow> max_retry_interval p = Some m \<Longrightarrow> d \<le> seconds_of m"
  by (auto simp: delay_at_def res_bind_Inr_iff Let_def)

lemma delay_at_mono:
  assumes "valid_policy p" and "delay_at p i = Inr d" and "delay_at p j = Inr d'" and "i \<le> j"
  shows "d \<le> d'"
proof -
  let ?b = "backoff_of p"
  have le: "?b ^ i * seconds_of (first_retry_interval p) \<le> ?b ^ j * seconds_of (first_retry_interval p)"
    using assms(1,4)
    by (intro mult_right_mono power_increasing) (auto simp: valid_policy_def seconds_of_def)
  with assms(2,3) show ?thesis
    by (auto simp: delay_at_def math_pow_def Let_def split: if_splits option.splits)
qed

lemma delay_loop_last:
  "delay_loop p (Suc n) = Inr (tot, d) \<Longrightarrow> delay_at p n = Inr d"
  by (auto simp: res_bind_Inr_iff)

lemma delay_loop_total:
  "delay_loop p n = Inr (tot, d) \<Longrightarrow>
     \<exists>ds. length ds = n \<and> (\<forall>i<n. delay_at p i = Inr (ds ! i)) \<and> tot = sum_list ds"
proof (induction n arbitrary: tot d)
  case (Suc n)
  then obtain tot' e d' where 1: "delay_loop p n = Inr (tot', e)" and 2: "delay_at p n = Inr d'"
    and 3: "tot = tot' + d'"
    by (auto simp: res_bind_Inr_iff)
  from Suc.IH [OF 1] obtain ds where "length ds = n" "\<forall>i<n. delay_at p i = Inr (ds ! i)"
    "tot' = sum_list ds" by blast
  with 2 3 have "length (ds @ [d']) = Suc n \<and> (\<forall>i<Suc n. delay_at p i = Inr ((ds @ [d']) ! i)) \<and>
      tot = sum_list (ds @ [d'])"
    by (auto simp: nth_append less_Suc_eq)
  then show ?case by blast
qed simp

lemma td_of_seconds_mono:
  "td_of_seconds x = Inr a \<Longrightarrow> td_of_seconds y = Inr b \<Longrightarrow> x \<le> y \<Longrightarrow> a \<le> b"
  by (auto simp: td_of_seconds_def Let_def intro: round_half_even_mono split: if_splits)

lemma td_of_seconds_bounds:
  "td_of_seconds x = Inr a \<Longrightarrow> 0 \<le> x \<Longrightarrow> 0 \<le> a"
  "td_of_seconds x = Inr a \<Longrightarrow> x \<le> seconds_of m \<Longrightarrow> a \<le> m"
  by (auto simp: td_of_seconds_def Let_def seconds_of_def intro!: round_half_even_ge round_half_even_le
      split: if_splits)

lemma compute_next_delay_Some:
  assumes "compute_next_delay p n start = Inr (Some d)" and "n > 0"
  obtains tot q elapsed expiration where
    "int n < max_number_of_attempts p" "delay_loop p n = Inr (tot, q)" "delay_at p (n - 1) = Inr q"
    "td_of_seconds q = Inr d" "td_of_seconds tot = Inr elapsed"
    "retry_expiration p start = Inr expiration" "start + elapsed < expiration"
proof -
  from assms(1) have lt: "int n < max_number_of_attempts p"
    by (auto simp: compute_next_delay_def split: if_splits)
  from assms(1) lt obtain tot q elapsed expiration where
    h: "delay_loop p n = Inr (tot, q)" "td_of_seconds q = Inr d" "td_of_seconds tot = Inr elapsed"
    "retry_expiration p start = Inr expiration" "start + elapsed < expiration"
    by (auto simp: compute_next_delay_def res_bind_Inr_iff dt_add_Inr_iff split: if_splits)
  from assms(2) h(1) have "delay_at p (n - 1) = Inr q"
    using delay_loop_last [of p "n - 1"] by simp
  with lt h that show ?thesis by blast
qed

text \<open>
  Retry delays are sound: whenever \<open>compute_next_delay\<close> schedules a retry after attempt \<open>n\<close>, the
  attempt limit is not reached, the delay is not negative and at most the policy's cap, the time of
  the next attempt lies before the retry timeout, and the delay is never shorter than the one
  of an earlier attempt.
\<close>

theorem compute_next_delay_sound:
  assumes "valid_policy p" and "0 < n" and "compute_next_delay p n start = Inr (Some d)"
  shows "int n < max_number_of_attempts p \<and> 0 \<le> d \<and>
    (\<forall>m. max_retry_interval p = Some m \<longrightarrow> d \<le> m) \<and>
    (\<forall>t. retry_timeout p = Some t \<longrightarrow>
       (\<exists>tot q elapsed. delay_loop p n = Inr (tot, q) \<and> td_of_seconds tot = Inr elapsed \<and> elapsed < t)) \<and>
    (\<forall>k start' d'. 0 < k \<and> k \<le> n \<and> compute_next_delay p k start' = Inr (Some d') \<longrightarrow> d' \<le> d)"
proof -
  from compute_next_delay_Some [OF assms(3,2)] obtain tot q elapsed expiration where
    h: "int n < max_number_of_attempts p" "delay_loop p n = Inr (tot, q)" "delay_at p (n - 1) = Inr q"
    "td_of_seconds q = Inr d" "td_of_seconds tot = Inr elapsed"
    "retry_expiration p start = Inr expiration" "start + elapsed < expiration" by metis
  have "0 \<le> d" using delay_at_ge0 [OF assms(1) h(3)] td_of_seconds_bounds(1) [OF h(4)] by simp
  moreover have "d \<le> m" if "max_retry_interval p = Some m" for m
    using td_of_seconds_bounds(2) [OF h(4)] delay_at_le_cap [OF h(3) that] by simp
  moreover have "elapsed < t" if "retry_timeout p = Some t" for t
    using h(6,7) that by (auto simp: retry_expiration_def dt_add_Inr_iff)
  moreover have "d' \<le> d" if k: "0 < k" "k \<le> n" and c: "compute_next_delay p k start' = Inr (Some d')"
    for k start' d'
  proof -
    from compute_next_delay_Some [OF c k(1)] obtain q' where
      "delay_at p (k - 1) = Inr q'" "td_of_seconds q' = Inr d'" by metis
    with delay_at_mono [OF assms(1) _ h(3)] td_of_seconds_mono [OF _ h(4)] k show ?thesis
      by (meson diff_le_mono)
  qed
  ultimately show ?thesis using h by blast
qed

definition sample_policy :: retry_policy where
  "sample_policy = \<lparr>first_retry_interval = 1000000, max_number_of_attempts = 5,
     backoff_coefficient = Some 2, max_retry_interval = Some 3000000,
     retry_timeout = Some 60000000, non_retryable_error_types = None\<rparr>"

lemma sample_policy_second_delay: "compute_next_delay sample_policy 2 0 = Inr (Some 2000000)"
  by (simp add: sample_policy_def compute_next_delay_def retry_expiration_def dt_add_def dt_min_def
      dt_max_def numeral_2_eq_2 delay_at_def math_pow_def backoff_of_def seconds_of_def
      td_of_seconds_def round_half_even_def td_max_def Let_def)

theorem compute_next_delay_sound_witness:
  "int 2 < max_number_of_attempts sample_policy \<and> (0::int) \<le> 2000000"
  using compute_next_delay_sound [of sample_policy 2 0 2000000] sample_policy_second_delay
  by (simp add: valid_policy_def sample_policy_def backoff_of_def)

end
