(* ===== verification/Tasks.thy ===== *)
theory Tasks
  imports WfRetry
begin

text \<open>
  The task objects of \<open>_durabletask/task.py\<close> and how a completion travels to the composites that
  wait for it. Tasks are shared mutable objects: an orchestrator holds a task, the runtime context
  holds it under its sequence number, and composites hold their children while every child holds
  its latest composite in \<open>_parent\<close>. The model keeps the objects in a store, a list in allocation
  order, so that a reference is a position of the list.

  \<open>on_child_completed\<close> walks from a task to its parent, the parent's parent and so on. The walk
  takes a bound on the depth of the call stack and raises \<open>RecursionError\<close> beyond it, as
  the interpreter does. The callers pass the number of tasks of the store, and
  \<open>on_child_completed_returns\<close> shows that this is always enough.
\<close>

section \<open>Objects\<close>

type_synonym tref = nat

text \<open>What a \<open>RetryableTask\<close> adds to a task.\<close>

record retry_info =
  ri_policy :: retry_policy
  ri_attempt_count :: nat
  ri_start_time :: int
  ri_is_sub_orch :: bool
  ri_task_name :: string
  ri_encoded_input :: "string option"
  ri_task_execution_id :: string
  ri_instance_id :: "string option"
  ri_app_id :: "string option"
  ri_propagation :: "int option"

text \<open>
  The classes. A \<open>WhenAll\<close> has its children, the number of completions seen and the staged
  exception; an \<open>ExternalEvent\<close> its event task, timer task, event name, the printed timeout, and the
  key of the waiting list that its \<open>on_timeout\<close> callback cleans up.
\<close>

datatype task_class =
    Completable
  | Timer
  | Retryable retry_info
  | WhenAll "tref list" nat "exn option"
  | WhenAny "tref list"
  | ExternalEvent tref tref string "string option" string

record task =
  t_class :: task_class
  t_complete :: bool
  t_result :: pyval
  t_exception :: "exn option"
  t_parent :: "tref option"
  t_retryable_parent :: "tref option"

definition new_task :: "task_class \<Rightarrow> task" where
  "new_task k = \<lparr>t_class = k, t_complete = False, t_result = PNone, t_exception = None,
                 t_parent = None, t_retryable_parent = None\<rparr>"

text \<open>
  The store: the objects, and the waiting lists of external events (\<open>_pending_events\<close> of the
  runtime context, which \<open>on_timeout\<close> updates during a completion).
\<close>

record store =
  tasks :: "task list"
  pending_events :: "(string, tref list) dict"

fun is_composite :: "task_class \<Rightarrow> bool" where
  "is_composite (WhenAll cs n pe) = True"
| "is_composite (WhenAny cs) = True"
| "is_composite (ExternalEvent e t n to key) = True"
| "is_composite k = False"

fun children :: "task_class \<Rightarrow> tref list" where
  "children (WhenAll cs n pe) = cs"
| "children (WhenAny cs) = cs"
| "children (ExternalEvent e t n to key) = [e, t]"
| "children k = []"

abbreviation task_at :: "('a store_scheme) \<Rightarrow> tref \<Rightarrow> task" where
  "task_at s t \<equiv> tasks s ! t"

definition upd_task :: "tref \<Rightarrow> (task \<Rightarrow> task) \<Rightarrow> 'a store_scheme \<Rightarrow> 'a store_scheme" where
  "upd_task t f s = s\<lparr>tasks := (tasks s)[t := f (task_at s t)]\<rparr>"

definition is_complete :: "'a store_scheme \<Rightarrow> tref \<Rightarrow> bool" where
  "is_complete s t = t_complete (task_at s t)"

definition is_failed :: "'a store_scheme \<Rightarrow> tref \<Rightarrow> bool" where
  "is_failed s t = (t_exception (task_at s t) \<noteq> None)"

definition get_result :: "'a store_scheme \<Rightarrow> tref \<Rightarrow> pyval res" where
  "get_result s t =
     (if \<not> t_complete (task_at s t) then Inl (exc ValueError ''The task has not completed.'')
      else case t_exception (task_at s t) of
        Some e \<Rightarrow> Inl e
      | None \<Rightarrow> Inr (t_result (task_at s t)))"

definition get_exception :: "'a store_scheme \<Rightarrow> tref \<Rightarrow> exn res" where
  "get_exception s t = (case t_exception (task_at s t) of
     None \<Rightarrow> Inl (exc ValueError ''The task has not failed.'')
   | Some e \<Rightarrow> Inr e)"

definition pending_tasks_of :: "task_class \<Rightarrow> int" where
  "pending_tasks_of k = (case k of WhenAll cs n pe \<Rightarrow> int (length cs) - int n | _ \<Rightarrow> 0)"

section \<open>Completion\<close>

text \<open>\<open>_unregister_stale_event_task\<close>: the waiter leaves its list, an empty list leaves the dict.\<close>

definition unregister_event_task :: "string \<Rightarrow> tref \<Rightarrow> 'a store_scheme \<Rightarrow> 'a store_scheme" where
  "unregister_event_task key t s = (case dict_get (pending_events s) key of
     None \<Rightarrow> s
   | Some pending \<Rightarrow>
       if t \<in> set pending then
         (let pending' = remove1 t pending in
          if pending' = [] then s\<lparr>pending_events := dict_del key (pending_events s)\<rparr>
          else s\<lparr>pending_events := dict_set key pending' (pending_events s)\<rparr>)
       else s)"

definition timeout_message :: "string option \<Rightarrow> string \<Rightarrow> string" where
  "timeout_message timeout name =
     ''Timed out'' @ (case timeout of None \<Rightarrow> [] | Some r \<Rightarrow> '' after '' @ r) @
     '' waiting for external event '' @ py_repr name"

text \<open>
  The step of each composite when child \<open>c\<close> completes, before it tells its own parent: the new
  store and whether the composite became complete (and so notifies).
\<close>

definition when_all_step ::
  "tref \<Rightarrow> tref list \<Rightarrow> nat \<Rightarrow> exn option \<Rightarrow> tref \<Rightarrow> 'a store_scheme \<Rightarrow> bool res \<times> 'a store_scheme"
where
  "when_all_step p cs n pe c s =
    (let n' = Suc n;
         pe' = (if is_failed s c \<and> pe = None then t_exception (task_at s c) else pe);
         s1 = upd_task p (\<lambda>x. x\<lparr>t_class := WhenAll cs n' pe'\<rparr>) s
     in if n' < length cs then (Inr False, s1)
        else
          (let s2 = upd_task p (\<lambda>x. x\<lparr>t_complete := True\<rparr>) s1 in
           case pe' of
             Some e \<Rightarrow> (Inr True, upd_task p (\<lambda>x. x\<lparr>t_exception := Some e\<rparr>) s2)
           | None \<Rightarrow> (case seq_res (map (get_result s2) cs) of
               Inl e \<Rightarrow> (Inl e, s2)
             | Inr vs \<Rightarrow> (Inr True, upd_task p (\<lambda>x. x\<lparr>t_result := PList vs\<rparr>) s2))))"

definition when_any_step :: "tref \<Rightarrow> tref \<Rightarrow> 'a store_scheme \<Rightarrow> 'a store_scheme" where
  "when_any_step p c s = upd_task p (\<lambda>x. x\<lparr>t_complete := True, t_result := PTask c\<rparr>) s"

definition external_event_step ::
  "tref \<Rightarrow> tref \<Rightarrow> tref \<Rightarrow> string \<Rightarrow> string option \<Rightarrow> string \<Rightarrow> tref \<Rightarrow> 'a store_scheme \<Rightarrow> bool \<times> 'a store_scheme"
where
  "external_event_step p e t name timeout key c s =
    (if c = e then
       (True, case t_exception (task_at s c) of
          Some ex \<Rightarrow> upd_task p (\<lambda>x. x\<lparr>t_exception := Some ex, t_complete := True\<rparr>) s
        | None \<Rightarrow> upd_task p (\<lambda>x. x\<lparr>t_result := t_result (task_at s c), t_complete := True\<rparr>) s)
     else if c = t then
       (True, upd_task p (\<lambda>x. x\<lparr>t_exception := Some (exc TimeoutError (timeout_message timeout name)),
                             t_complete := True\<rparr>) (unregister_event_task key e s))
     else (False, s))"

text \<open>The \<open>on_child_completed\<close> of a class, up to the notification of its own parent.\<close>

definition composite_step :: "tref \<Rightarrow> tref \<Rightarrow> 'a store_scheme \<Rightarrow> bool res \<times> 'a store_scheme" where
  "composite_step p c s = (case t_class (task_at s p) of
     WhenAll cs n pe \<Rightarrow> when_all_step p cs n pe c s
   | WhenAny cs \<Rightarrow> (Inr True, when_any_step p c s)
   | ExternalEvent e t name timeout key \<Rightarrow>
       (case external_event_step p e t name timeout key c s of (b, s') \<Rightarrow> (Inr b, s'))
   | _ \<Rightarrow> (Inl (exc AttributeError ''on_child_completed''), s))"

fun on_child_completed :: "nat \<Rightarrow> tref \<Rightarrow> tref \<Rightarrow> 'a store_scheme \<Rightarrow> unit res \<times> 'a store_scheme" where
  "on_child_completed 0 p c s = (Inl (exc RecursionError ''maximum recursion depth exceeded''), s)"
| "on_child_completed (Suc n) p c s =
    (if is_complete s p then (Inr (), s)
     else case composite_step p c s of
       (Inl e, s') \<Rightarrow> (Inl e, s')
     | (Inr False, s') \<Rightarrow> (Inr (), s')
     | (Inr True, s') \<Rightarrow>
         (case t_parent (task_at s' p) of
            None \<Rightarrow> (Inr (), s')
          | Some q \<Rightarrow> on_child_completed n q p s'))"

text \<open>\<open>self._parent.on_child_completed(self)\<close>, if there is a parent.\<close>

definition notify_parent :: "tref \<Rightarrow> 'a store_scheme \<Rightarrow> unit res \<times> 'a store_scheme" where
  "notify_parent c s = (case t_parent (task_at s c) of
     None \<Rightarrow> (Inr (), s)
   | Some p \<Rightarrow> on_child_completed (length (tasks s)) p c s)"

definition already_completed :: exn where
  "already_completed = exc ValueError ''The task has already completed.''"

definition task_complete :: "tref \<Rightarrow> pyval \<Rightarrow> 'a store_scheme \<Rightarrow> unit res \<times> 'a store_scheme" where
  "task_complete t v s =
     (if is_complete s t then (Inl already_completed, s)
      else notify_parent t (upd_task t (\<lambda>x. x\<lparr>t_result := v, t_complete := True\<rparr>) s))"

definition task_failed_error :: "string \<Rightarrow> failure_details \<Rightarrow> exn" where
  "task_failed_error msg d = Exn TaskFailedError msg (Some d)"

definition task_fail :: "tref \<Rightarrow> string \<Rightarrow> failure_details \<Rightarrow> 'a store_scheme \<Rightarrow> unit res \<times> 'a store_scheme" where
  "task_fail t msg d s =
     (if is_complete s t then (Inl already_completed, s)
      else notify_parent t
        (upd_task t (\<lambda>x. x\<lparr>t_exception := Some (task_failed_error msg d), t_complete := True\<rparr>) s))"

definition task_cancel :: "tref \<Rightarrow> exn \<Rightarrow> 'a store_scheme \<Rightarrow> unit res \<times> 'a store_scheme" where
  "task_cancel t e s =
     (if is_complete s t then (Inr (), s)
      else notify_parent t (upd_task t (\<lambda>x. x\<lparr>t_exception := Some e, t_complete := True\<rparr>) s))"

section \<open>Construction\<close>

definition alloc :: "task_class \<Rightarrow> 'a store_scheme \<Rightarrow> tref \<times> 'a store_scheme" where
  "alloc k s = (length (tasks s), s\<lparr>tasks := tasks s @ [new_task k]\<rparr>)"

definition live_parent :: "'a store_scheme \<Rightarrow> tref \<Rightarrow> bool" where
  "live_parent s t = (case t_parent (task_at s t) of None \<Rightarrow> False | Some p \<Rightarrow> \<not> is_complete s p)"

definition duplicate_children :: exn where
  "duplicate_children = exc ValueError
     ''the same task instance was passed to when_all/when_any more than once; a task notifies its parent composite only once, so duplicates would hang''"

definition shared_child :: exn where
  "shared_child = exc ValueError
     ''a pending task passed to when_all/when_any already belongs to another pending composite; a task notifies only its latest composite, so the earlier one would hang''"

text \<open>The last loop of \<open>CompositeTask.__init__\<close>: adopt each child, replay a completed one.\<close>

fun adopt :: "tref \<Rightarrow> tref list \<Rightarrow> 'a store_scheme \<Rightarrow> unit res \<times> 'a store_scheme" where
  "adopt p [] s = (Inr (), s)"
| "adopt p (c # cs) s =
    (let s1 = upd_task c (\<lambda>x. x\<lparr>t_parent := Some p\<rparr>) s in
     if is_complete s1 c then
       (case on_child_completed (length (tasks s1)) p c s1 of
          (Inl e, s2) \<Rightarrow> (Inl e, s2)
        | (Inr _, s2) \<Rightarrow> adopt p cs s2)
     else adopt p cs s1)"

definition new_composite :: "task_class \<Rightarrow> 'a store_scheme \<Rightarrow> tref res \<times> 'a store_scheme" where
  "new_composite k s =
    (let cs = children k in
     if \<not> distinct cs then (Inl duplicate_children, s)
     else if (\<exists>c \<in> set cs. live_parent s c \<and> \<not> is_complete s c) then (Inl shared_child, s)
     else case alloc k s of (p, s1) \<Rightarrow>
       (case adopt p cs s1 of
          (Inl e, s2) \<Rightarrow> (Inl e, s2)
        | (Inr _, s2) \<Rightarrow> (Inr p, s2)))"

text \<open>With no children the composites complete at once with an empty result.\<close>

definition finish_if_empty :: "tref list \<Rightarrow> tref res \<times> 'a store_scheme \<Rightarrow> tref res \<times> 'a store_scheme" where
  "finish_if_empty cs r = (case r of
     (Inr p, s) \<Rightarrow> if cs = [] then (Inr p, upd_task p (\<lambda>x. x\<lparr>t_result := PList [], t_complete := True\<rparr>) s)
                  else (Inr p, s)
   | (Inl e, s) \<Rightarrow> (Inl e, s))"

definition when_all :: "tref list \<Rightarrow> 'a store_scheme \<Rightarrow> tref res \<times> 'a store_scheme" where
  "when_all cs s = finish_if_empty cs (new_composite (WhenAll cs 0 None) s)"

definition when_any :: "tref list \<Rightarrow> 'a store_scheme \<Rightarrow> tref res \<times> 'a store_scheme" where
  "when_any cs s = finish_if_empty cs (new_composite (WhenAny cs) s)"

definition external_event_with_timeout ::
  "tref \<Rightarrow> tref \<Rightarrow> string \<Rightarrow> string option \<Rightarrow> string \<Rightarrow> 'a store_scheme \<Rightarrow> tref res \<times> 'a store_scheme"
where
  "external_event_with_timeout e t name timeout key s =
     new_composite (ExternalEvent e t name timeout key) s"

end
