(* ===== verification/StoreInv.thy ===== *)
theory StoreInv
  imports Tasks
begin

text \<open>
  The invariant of the task store: how the fields of a composite agree with its children while a
  completion is on its way up, and the walk of \<open>on_child_completed\<close> restoring that agreement
  within its bound.
\<close>

section \<open>The invariant of the store\<close>

lemma tasks_upd [simp]: "tasks (upd_task t f s) = (tasks s)[t := f (task_at s t)]"
  and pending_upd [simp]: "pending_events (upd_task t f s) = pending_events s"
  by (simp_all add: upd_task_def)

text \<open>
  Undelivered completions are pairs of a composite and a child: the child is complete but the
  composite has not counted it yet. Between operations there are none. While a completion travels
  upwards, or while a composite adopts its children, there are some.
\<close>

type_synonym undelivered = "(tref \<times> tref) set"

definition delivered :: "undelivered \<Rightarrow> task list \<Rightarrow> tref \<Rightarrow> tref list \<Rightarrow> tref set" where
  "delivered D ts p cs = {c \<in> set cs. t_complete (ts ! c) \<and> (p, c) \<notin> D}"

definition waits_ok :: "undelivered \<Rightarrow> task list \<Rightarrow> tref \<Rightarrow> tref list \<Rightarrow> bool" where
  "waits_ok D ts p cs \<longleftrightarrow>
     (\<forall>c \<in> set cs. \<not> t_complete (ts ! c) \<and> (p, c) \<notin> D \<longrightarrow> t_parent (ts ! c) = Some p)"

text \<open>What a task's own fields say about its children.\<close>

fun class_ok :: "undelivered \<Rightarrow> task list \<Rightarrow> tref \<Rightarrow> task \<Rightarrow> bool" where
  "class_ok D ts p x = (case t_class x of
     WhenAll cs n pe \<Rightarrow>
       (if t_complete x then
          (\<forall>c \<in> set cs. t_complete (ts ! c)) \<and>
          (t_exception x = None \<longrightarrow> t_result x = PList (map (\<lambda>c. t_result (ts ! c)) cs) \<and>
             (\<forall>c \<in> set cs. t_exception (ts ! c) = None)) \<and>
          (\<forall>e. t_exception x = Some e \<longrightarrow> (\<exists>c \<in> set cs. t_exception (ts ! c) = Some e))
        else
          n = card (delivered D ts p cs) \<and> n < length cs \<and> waits_ok D ts p cs \<and>
          (pe = None \<longrightarrow> (\<forall>c \<in> delivered D ts p cs. t_exception (ts ! c) = None)) \<and>
          (\<forall>e. pe = Some e \<longrightarrow> (\<exists>c \<in> delivered D ts p cs. t_exception (ts ! c) = Some e)))
   | WhenAny cs \<Rightarrow>
       (if t_complete x then
          t_exception x = None \<and>
          (cs = [] \<and> t_result x = PList [] \<or> (\<exists>c \<in> set cs. t_complete (ts ! c) \<and> t_result x = PTask c))
        else delivered D ts p cs = {} \<and> waits_ok D ts p cs \<and> cs \<noteq> [])
   | ExternalEvent e t name timeout key \<Rightarrow>
       (if t_complete x then
          t_complete (ts ! e) \<and> (t_exception x = None \<longrightarrow> t_result x = t_result (ts ! e)) \<and> t_exception x = t_exception (ts ! e) \<or>
          t_complete (ts ! t) \<and> t_exception x = Some (exc TimeoutError (timeout_message timeout name))
        else delivered D ts p [e, t] = {} \<and> waits_ok D ts p [e, t])
   | _ \<Rightarrow> True)"

declare class_ok.simps [simp del]

definition links_ok :: "task list \<Rightarrow> tref \<Rightarrow> bool" where
  "links_ok ts t \<longleftrightarrow>
     (\<forall>p. t_parent (ts ! t) = Some p \<longrightarrow>
        t < p \<and> p < length ts \<and> t \<in> set (children (t_class (ts ! p)))) \<and>
     distinct (children (t_class (ts ! t))) \<and>
     (\<forall>c \<in> set (children (t_class (ts ! t))). c < t) \<and>
     (t_exception (ts ! t) \<noteq> None \<longrightarrow> t_complete (ts ! t))"

definition tasks_inv :: "undelivered \<Rightarrow> task list \<Rightarrow> bool" where
  "tasks_inv D ts \<longleftrightarrow> (\<forall>t < length ts. links_ok ts t \<and> class_ok D ts t (ts ! t))"

lemma tasks_inv_Nil [simp]: "tasks_inv D []"
  by (simp add: tasks_inv_def)

lemma tasks_invD:
  "tasks_inv D ts \<Longrightarrow> t < length ts \<Longrightarrow> links_ok ts t"
  "tasks_inv D ts \<Longrightarrow> t < length ts \<Longrightarrow> class_ok D ts t (ts ! t)"
  by (simp_all add: tasks_inv_def)

lemma children_lt:
  "tasks_inv D ts \<Longrightarrow> t < length ts \<Longrightarrow> c \<in> set (children (t_class (ts ! t))) \<Longrightarrow> c < t"
  using tasks_invD(1) [of D ts t] by (simp add: links_ok_def)

lemma parent_gt:
  "tasks_inv D ts \<Longrightarrow> t < length ts \<Longrightarrow> t_parent (ts ! t) = Some p \<Longrightarrow>
     t < p \<and> p < length ts \<and> t \<in> set (children (t_class (ts ! p)))"
  using tasks_invD(1) [of D ts t] by (simp add: links_ok_def)

text \<open>A task's clause reads only its own fields and what its children show.\<close>

definition outlook :: "task \<Rightarrow> bool \<times> pyval \<times> exn option \<times> tref option" where
  "outlook x = (t_complete x, t_result x, t_exception x, t_parent x)"

lemma class_ok_cong:
  assumes "\<And>c. c \<in> set (children (t_class x)) \<Longrightarrow> outlook (ts' ! c) = outlook (ts ! c)"
    and "\<And>c. c \<in> set (children (t_class x)) \<Longrightarrow> (p, c) \<in> D' \<longleftrightarrow> (p, c) \<in> D"
  shows "class_ok D' ts' p x = class_ok D ts p x"
proof -
  have ob: "t_complete (ts' ! c) = t_complete (ts ! c)" "t_result (ts' ! c) = t_result (ts ! c)"
    "t_exception (ts' ! c) = t_exception (ts ! c)" "t_parent (ts' ! c) = t_parent (ts ! c)"
    if "c \<in> set (children (t_class x))" for c
    using assms(1) [OF that] by (simp_all add: outlook_def)
  have del: "delivered D' ts' p cs = delivered D ts p cs" and wt: "waits_ok D' ts' p cs = waits_ok D ts p cs"
    if "cs = children (t_class x)" for cs
    using ob assms(2) that by (auto simp: delivered_def waits_ok_def)
  show ?thesis
  proof (cases "t_class x")
    case (WhenAll cs n pe)
    with del [of cs] wt [of cs] ob show ?thesis
      by (auto simp: class_ok.simps delivered_def cong: map_cong)
  next
    case (WhenAny cs)
    with del [of cs] wt [of cs] ob show ?thesis by (auto simp: class_ok.simps)
  next
    case (ExternalEvent e t n to k)
    with del [of "[e, t]"] wt [of "[e, t]"] ob show ?thesis by (simp add: class_ok.simps)
  qed (simp_all add: class_ok.simps)
qed

text \<open>An update of task \<open>p\<close> that shows the same to its composites.\<close>

lemma tasks_inv_update:
  assumes inv: "tasks_inv D ts" and p: "p < length ts" and x: "outlook x = outlook (ts ! p)"
    "children (t_class x) = children (t_class (ts ! p))"
    and D: "\<And>i c. i \<noteq> p \<Longrightarrow> (i, c) \<in> D' \<longleftrightarrow> (i, c) \<in> D"
    and own: "class_ok D' ts p x"
  shows "tasks_inv D' (ts[p := x])"
  unfolding tasks_inv_def
proof (intro allI impI conjI)
  fix i assume i: "i < length (ts[p := x])"
  have sh: "outlook ((ts[p := x]) ! j) = outlook (ts ! j)" for j using p x(1) by (cases "j = p") auto
  have cl: "children (t_class ((ts[p := x]) ! j)) = children (t_class (ts ! j))" for j
    using p x(2) by (cases "j = p") auto
  have ob: "t_complete ((ts[p := x]) ! j) = t_complete (ts ! j)"
    "t_exception ((ts[p := x]) ! j) = t_exception (ts ! j)" "t_parent ((ts[p := x]) ! j) = t_parent (ts ! j)" for j
    using sh [of j] by (simp_all add: outlook_def)
  have L: "links_ok ts i" using inv i by (simp add: tasks_invD(1))
  then show "links_ok (ts[p := x]) i" unfolding links_ok_def cl ob by simp
  show "class_ok D' (ts[p := x]) i ((ts[p := x]) ! i)"
  proof (cases "i = p")
    case True
    have "class_ok D' (ts[p := x]) p x = class_ok D' ts p x" by (rule class_ok_cong) (simp_all add: sh)
    with own p True show ?thesis by simp
  next
    case False
    have "class_ok D' (ts[p := x]) i (ts ! i) = class_ok D ts i (ts ! i)"
      by (rule class_ok_cong) (simp_all add: sh D [OF False])
    with False tasks_invD(2) [OF inv, of i] i show ?thesis by simp
  qed
qed

text \<open>
  The completion of task \<open>t\<close> under every other task: one that lists it as a child is either
  complete, and stays so, or waits for it, and then \<open>t\<close> is undelivered to it.
\<close>

lemma class_ok_child_completes:
  assumes "class_ok D ts i (ts ! i)" and "i \<noteq> t" and "D \<subseteq> {t} \<times> UNIV"
    and "t < length ts" and "\<not> t_complete (ts ! t)"
    and "t_parent x = t_parent (ts ! t)" and "t_complete x"
    and "D' = (case t_parent x of None \<Rightarrow> {} | Some q \<Rightarrow> {(q, t)})"
    and "t \<in> set (children (t_class (ts ! i)))"
    and lt: "\<forall>c \<in> set (children (t_class (ts ! i))). c < length ts"
  shows "class_ok D' (ts[t := x]) i (ts ! i)"
proof -
  have nD: "(i, c) \<notin> D" for c using assms(2,3) by auto
  have nth: "c \<in> set (children (t_class (ts ! i))) \<Longrightarrow> (ts[t := x]) ! c = (if c = t then x else ts ! c)" for c
    using lt assms(4) by auto
  have wait: "t_parent x = Some i" if "waits_ok D ts i cs" "t \<in> set cs" for cs
    using that assms(5,6) nD by (auto simp: waits_ok_def)
  have keep: "delivered D' (ts[t := x]) i cs = delivered D ts i cs \<and> waits_ok D' (ts[t := x]) i cs"
    if w: "waits_ok D ts i cs" "cs = children (t_class (ts ! i))" for cs
  proof -
    have D': "D' = {(i, t)}" using wait [OF w(1)] w(2) assms(8,9) by simp
    show ?thesis
      using w nD nth assms(5) unfolding D' by (auto simp: delivered_def waits_ok_def split: if_splits)
  qed
  show ?thesis
  proof (cases "t_class (ts ! i)")
    case (WhenAll cs n pe)
    have tc: "t \<in> set cs" using assms(9) WhenAll by simp
    have nc: "\<not> t_complete (ts ! i)"
      using assms(1,5) tc WhenAll by (auto simp: class_ok.simps)
    then have w: "n = card (delivered D ts i cs)" "n < length cs" "waits_ok D ts i cs"
      and none: "pe = None \<longrightarrow> (\<forall>c \<in> delivered D ts i cs. t_exception (ts ! c) = None)"
      and some: "\<forall>e. pe = Some e \<longrightarrow> (\<exists>c \<in> delivered D ts i cs. t_exception (ts ! c) = Some e)"
      using assms(1) WhenAll by (simp_all add: class_ok.simps)
    have del: "(ts[t := x]) ! c = ts ! c" if "c \<in> delivered D ts i cs" for c
      using that assms(5) by (cases "c = t") (auto simp: delivered_def)
    have "delivered D' (ts[t := x]) i cs = delivered D ts i cs" "waits_ok D' (ts[t := x]) i cs"
      using keep [OF w(3)] WhenAll by simp_all
    with nc w none some del WhenAll show ?thesis by (simp add: class_ok.simps)
  next
    case (WhenAny cs)
    show ?thesis
    proof (cases "t_complete (ts ! i)")
      case True
      with assms(1,9) WhenAny obtain c where
        c: "c \<in> set cs" "t_complete (ts ! c)" "t_result (ts ! i) = PTask c" "t_exception (ts ! i) = None"
        by (auto simp: class_ok.simps)
      then have "(ts[t := x]) ! c = ts ! c" using assms(5) by (cases "c = t") auto
      with c True WhenAny show ?thesis by (auto simp: class_ok.simps)
    next
      case False
      with assms(1) WhenAny have w: "waits_ok D ts i cs" "delivered D ts i cs = {}" "cs \<noteq> []"
        by (simp_all add: class_ok.simps)
      have "delivered D' (ts[t := x]) i cs = delivered D ts i cs" "waits_ok D' (ts[t := x]) i cs"
        using keep [OF w(1)] WhenAny by simp_all
      with w WhenAny False show ?thesis by (simp add: class_ok.simps)
    qed
  next
    case (ExternalEvent e tm n to k)
    show ?thesis
    proof (cases "t_complete (ts ! i)")
      case True
      have same: "(ts[t := x]) ! c = ts ! c" if "t_complete (ts ! c)" for c
        using that assms(5) by (cases "c = t") auto
      let ?y = "ts ! i"
      from True assms(1) ExternalEvent
      have "t_complete (ts ! e) \<and> (t_exception ?y = None \<longrightarrow> t_result ?y = t_result (ts ! e)) \<and> t_exception ?y = t_exception (ts ! e) \<or>
            t_complete (ts ! tm) \<and> t_exception ?y = Some (exc TimeoutError (timeout_message to n))"
        by (simp add: class_ok.simps)
      then show ?thesis
      proof
        assume "t_complete (ts ! e) \<and> (t_exception ?y = None \<longrightarrow> t_result ?y = t_result (ts ! e)) \<and> t_exception ?y = t_exception (ts ! e)"
        moreover from this have "(ts[t := x]) ! e = ts ! e" by (intro same) simp
        ultimately show ?thesis using True ExternalEvent by (simp add: class_ok.simps)
      next
        assume "t_complete (ts ! tm) \<and> t_exception ?y = Some (exc TimeoutError (timeout_message to n))"
        moreover from this have "(ts[t := x]) ! tm = ts ! tm" by (intro same) simp
        ultimately show ?thesis using True ExternalEvent by (simp add: class_ok.simps)
      qed
    next
      case False
      with assms(1) ExternalEvent have w: "waits_ok D ts i [e, tm]" "delivered D ts i [e, tm] = {}"
        by (simp_all add: class_ok.simps)
      have "delivered D' (ts[t := x]) i [e, tm] = delivered D ts i [e, tm]" "waits_ok D' (ts[t := x]) i [e, tm]"
        using keep [OF w(1)] ExternalEvent by simp_all
      with w ExternalEvent False show ?thesis by (simp add: class_ok.simps)
    qed
  qed (simp_all add: class_ok.simps)
qed

lemma tasks_inv_complete:
  assumes inv: "tasks_inv D ts" and D: "D \<subseteq> {t} \<times> UNIV" and t: "t < length ts"
    and nc: "\<not> t_complete (ts ! t)" and x: "children (t_class x) = children (t_class (ts ! t))"
    "t_parent x = t_parent (ts ! t)" "t_complete x"
    and D': "D' = (case t_parent x of None \<Rightarrow> {} | Some q \<Rightarrow> {(q, t)})"
    and own: "class_ok D' (ts[t := x]) t x"
  shows "tasks_inv D' (ts[t := x])"
  unfolding tasks_inv_def
proof (intro allI impI conjI)
  fix i assume i: "i < length (ts[t := x])"
  have cl: "children (t_class ((ts[t := x]) ! j)) = children (t_class (ts ! j))" for j
    using t x(1) by (cases "j = t") auto
  have L: "links_ok ts i" using inv i by (simp add: tasks_invD(1))
  show "links_ok (ts[t := x]) i"
  proof (cases "i = t")
    case True
    with L t x show ?thesis unfolding links_ok_def cl by simp
  next
    case False
    with L show ?thesis unfolding links_ok_def cl by simp
  qed
  show "class_ok D' (ts[t := x]) i ((ts[t := x]) ! i)"
  proof (cases "i = t")
    case True
    with own t show ?thesis by simp
  next
    case False
    have iL: "i < length ts" using i by simp
    have ok: "class_ok D ts i (ts ! i)" by (rule tasks_invD(2) [OF inv iL])
    have lt: "\<forall>c \<in> set (children (t_class (ts ! i))). c < length ts"
      using children_lt [OF inv iL] iL by fastforce
    have "class_ok D' (ts[t := x]) i (ts ! i)"
    proof (cases "t \<in> set (children (t_class (ts ! i)))")
      case True
      show ?thesis
        by (rule class_ok_child_completes [OF ok False D t nc x(2,3) D' True lt])
    next
      case nt: False
      have "class_ok D' (ts[t := x]) i (ts ! i) = class_ok D ts i (ts ! i)"
      proof (rule class_ok_cong)
        fix c assume c: "c \<in> set (children (t_class (ts ! i)))"
        with nt show "outlook ((ts[t := x]) ! c) = outlook (ts ! c)" by (cases "c = t") auto
        from c nt have "(i, c) \<notin> D'" unfolding D' by (auto split: option.splits)
        moreover have "(i, c) \<notin> D" using D False by auto
        ultimately show "(i, c) \<in> D' \<longleftrightarrow> (i, c) \<in> D" by simp
      qed
      with ok show ?thesis by simp
    qed
    with False show ?thesis by simp
  qed
qed

text \<open>A child of an incomplete composite that has not been counted yet is counted.\<close>

lemma delivered_insert:
  assumes "c \<in> set cs" and "t_complete (ts ! c)" and "(p, c) \<in> D"
  shows "delivered (D - {(p, c)}) ts p cs = insert c (delivered D ts p cs)"
    and "c \<notin> delivered D ts p cs"
    and "card (delivered (D - {(p, c)}) ts p cs) = Suc (card (delivered D ts p cs))"
proof -
  show eq: "delivered (D - {(p, c)}) ts p cs = insert c (delivered D ts p cs)"
    using assms by (auto simp: delivered_def)
  show c: "c \<notin> delivered D ts p cs" using assms by (simp add: delivered_def)
  show "card (delivered (D - {(p, c)}) ts p cs) = Suc (card (delivered D ts p cs))"
    unfolding eq using c by (simp add: delivered_def)
qed

lemma waits_remove:
  assumes "waits_ok D ts p cs" and "t_complete (ts ! c)"
  shows "waits_ok (D - {(p, c)}) ts p cs"
  using assms by (auto simp: waits_ok_def)

definition staged :: "task list \<Rightarrow> tref \<Rightarrow> exn option \<Rightarrow> exn option" where
  "staged ts c pe = (if t_exception (ts ! c) \<noteq> None \<and> pe = None then t_exception (ts ! c) else pe)"

lemma staged_ok:
  assumes "c \<in> set cs" and "t_complete (ts ! c)" and "(p, c) \<in> D"
    and "pe = None \<longrightarrow> (\<forall>d \<in> delivered D ts p cs. t_exception (ts ! d) = None)"
    and "\<forall>e. pe = Some e \<longrightarrow> (\<exists>d \<in> delivered D ts p cs. t_exception (ts ! d) = Some e)"
  shows "staged ts c pe = None \<longrightarrow> (\<forall>d \<in> delivered (D - {(p, c)}) ts p cs. t_exception (ts ! d) = None)"
    and "\<forall>e. staged ts c pe = Some e \<longrightarrow> (\<exists>d \<in> delivered (D - {(p, c)}) ts p cs. t_exception (ts ! d) = Some e)"
  using assms(4,5) unfolding delivered_insert(1) [OF assms(1-3)] staged_def by (auto split: if_splits)

lemma tasks_inv_count:
  assumes inv: "tasks_inv D ts" and p: "p < length ts" "\<not> t_complete (ts ! p)"
    and k: "t_class (ts ! p) = WhenAll cs n pe" and c: "c \<in> set cs" "t_complete (ts ! c)" "(p, c) \<in> D"
    and n: "Suc n < length cs"
  shows "tasks_inv (D - {(p, c)}) (ts[p := (ts ! p)\<lparr>t_class := WhenAll cs (Suc n) (staged ts c pe)\<rparr>])"
proof (rule tasks_inv_update [OF inv p(1)])
  have ok: "n = card (delivered D ts p cs)" "waits_ok D ts p cs"
    "pe = None \<longrightarrow> (\<forall>d \<in> delivered D ts p cs. t_exception (ts ! d) = None)"
    "\<forall>e. pe = Some e \<longrightarrow> (\<exists>d \<in> delivered D ts p cs. t_exception (ts ! d) = Some e)"
    using tasks_invD(2) [OF inv p(1)] k p(2) by (simp_all add: class_ok.simps)
  show "class_ok (D - {(p, c)}) ts p ((ts ! p)\<lparr>t_class := WhenAll cs (Suc n) (staged ts c pe)\<rparr>)"
    using p(2) n delivered_insert(3) [OF c] ok(1) waits_remove [OF ok(2) c(2)] staged_ok [OF c ok(3,4)]
    by (simp add: class_ok.simps)
qed (use k in \<open>simp_all add: outlook_def\<close>)

lemma card_full:
  assumes "card (delivered D ts p cs) = length cs"
  shows "\<forall>c \<in> set cs. t_complete (ts ! c) \<and> (p, c) \<notin> D"
proof -
  have sub: "delivered D ts p cs \<subseteq> set cs" by (auto simp: delivered_def)
  then have "card (delivered D ts p cs) \<le> card (set cs)" by (simp add: card_mono)
  with assms card_length [of cs] have "card (delivered D ts p cs) = card (set cs)" by simp
  with sub have "delivered D ts p cs = set cs" by (simp add: card_subset_eq)
  then show ?thesis by (auto simp: delivered_def)
qed

lemma seq_res_get_result:
  assumes "\<forall>c \<in> set cs. t_complete (task_at s c) \<and> t_exception (task_at s c) = None"
  shows "seq_res (map (get_result s) cs) = Inr (map (\<lambda>c. t_result (task_at s c)) cs)"
  using assms by (induction cs) (simp_all add: get_result_def)

text \<open>
  What an operation on the store leaves alone: everything that is complete, the links, and the
  class of every task up to the counters of a \<open>WhenAll\<close>.
\<close>

fun shape :: "task_class \<Rightarrow> task_class" where
  "shape (WhenAll cs n pe) = WhenAll cs 0 None"
| "shape k = k"

lemma children_shape: "shape k = shape k' \<Longrightarrow> children k = children k'"
  by (cases k; cases k') auto

lemma shape_WhenAll: "shape k = shape (WhenAll cs n pe) \<longleftrightarrow> (\<exists>n pe. k = WhenAll cs n pe)"
  by (cases k) auto

definition ties :: "task \<Rightarrow> tref option \<times> tref option" where
  "ties x = (t_parent x, t_retryable_parent x)"

lemma ties_simps [simp]:
  "ties (x\<lparr>t_class := k\<rparr>) = ties x" "ties (x\<lparr>t_complete := b\<rparr>) = ties x"
  "ties (x\<lparr>t_result := v\<rparr>) = ties x" "ties (x\<lparr>t_exception := e\<rparr>) = ties x"
  by (simp_all add: ties_def)

lemma ties_parent: "ties x = ties y \<Longrightarrow> t_parent x = t_parent y"
  by (simp add: ties_def)

definition keeps :: "(tref \<Rightarrow> bool) \<Rightarrow> task list \<Rightarrow> task list \<Rightarrow> bool" where
  "keeps P ts ts' \<longleftrightarrow> length ts' = length ts \<and>
     (\<forall>i. shape (t_class (ts' ! i)) = shape (t_class (ts ! i)) \<and>
          ties (ts' ! i) = ties (ts ! i) \<and>
          (t_complete (ts ! i) \<or> P i \<longrightarrow> ts' ! i = ts ! i))"

lemma keeps_refl [simp]: "keeps P ts ts"
  by (simp add: keeps_def)

lemma keeps_trans: "keeps P ts1 ts2 \<Longrightarrow> keeps Q ts2 ts3 \<Longrightarrow> keeps (\<lambda>i. P i \<and> Q i) ts1 ts3"
  unfolding keeps_def by metis

lemma keeps_mono: "keeps P ts ts' \<Longrightarrow> (\<And>i. Q i \<Longrightarrow> P i) \<Longrightarrow> keeps Q ts ts'"
  unfolding keeps_def by metis

lemma keeps_children: "keeps P ts ts' \<Longrightarrow> children (t_class (ts' ! i)) = children (t_class (ts ! i))"
  unfolding keeps_def by (metis children_shape)

lemma keeps_update:
  assumes "shape (t_class x) = shape (t_class (ts ! p))" and "ties x = ties (ts ! p)"
    and "\<not> t_complete (ts ! p)"
  shows "keeps (\<lambda>i. i \<noteq> p) ts (ts[p := x])"
  unfolding keeps_def
proof (intro conjI allI)
  fix i
  show "shape (t_class ((ts[p := x]) ! i)) = shape (t_class (ts ! i))"
    using assms(1) by (cases "i = p"; cases "p < length ts") (auto simp: not_less list_update_beyond)
  show "ties ((ts[p := x]) ! i) = ties (ts ! i)"
    using assms(2) by (cases "i = p"; cases "p < length ts") (auto simp: not_less list_update_beyond)
  show "t_complete (ts ! i) \<or> i \<noteq> p \<longrightarrow> (ts[p := x]) ! i = ts ! i"
    using assms(3) by (cases "i = p") auto
qed simp

lemma tasks_inv_drop:
  assumes inv: "tasks_inv D ts" and D: "D \<subseteq> {p} \<times> UNIV" and p: "t_complete (ts ! p)"
    and D': "D' \<subseteq> {p} \<times> UNIV"
  shows "tasks_inv D' ts"
  unfolding tasks_inv_def
proof (intro allI impI conjI)
  fix i assume i: "i < length ts"
  then show "links_ok ts i" by (rule tasks_invD(1) [OF inv])
  have ok: "class_ok D ts i (ts ! i)" by (rule tasks_invD(2) [OF inv i])
  show "class_ok D' ts i (ts ! i)"
  proof (cases "i = p")
    case True
    with ok p show ?thesis by (cases "t_class (ts ! i)") (simp_all add: class_ok.simps)
  next
    case False
    then have "class_ok D' ts i (ts ! i) = class_ok D ts i (ts ! i)"
      using D D' by (intro class_ok_cong) auto
    with ok show ?thesis by simp
  qed
qed

text \<open>One step of the walk: the composite counts the child, or completes.\<close>

definition passed_up :: "task list \<Rightarrow> tref \<Rightarrow> undelivered" where
  "passed_up ts p = (case t_parent (ts ! p) of None \<Rightarrow> {} | Some q \<Rightarrow> {(q, p)})"

definition step_ok ::
  "undelivered \<Rightarrow> tref \<Rightarrow> tref \<Rightarrow> task list \<Rightarrow> bool \<Rightarrow> task list \<Rightarrow> bool"
where
  "step_ok D p c ts b ts' \<longleftrightarrow> keeps (\<lambda>i. i \<noteq> p) ts ts' \<and> t_complete (ts' ! p) = b \<and>
     tasks_inv (if b then passed_up ts p else D - {(p, c)}) ts'"

lemma step_ok_complete:
  assumes inv: "tasks_inv D ts" and D: "D \<subseteq> {p} \<times> UNIV" and p: "p < length ts" "\<not> t_complete (ts ! p)"
    and x: "shape (t_class x) = shape (t_class (ts ! p))" "ties x = ties (ts ! p)" "t_complete x"
    and own: "class_ok (passed_up ts p) (ts[p := x]) p x"
  shows "step_ok D p c ts True (ts[p := x])"
proof -
  have "tasks_inv (passed_up ts p) (ts[p := x])"
    by (rule tasks_inv_complete [OF inv D p children_shape [OF x(1)] ties_parent [OF x(2)] x(3) _ own]) (simp add: passed_up_def ties_parent [OF x(2)])
  with keeps_update [OF x(1,2) p(2)] x(3) p(1) show ?thesis by (simp add: step_ok_def)
qed

text \<open>Completing a composite leaves its children as they are.\<close>

lemma child_kept:
  assumes "tasks_inv D ts" and "p < length ts" and "c \<in> set (children (t_class (ts ! p)))"
  shows "(ts[p := x]) ! c = ts ! c"
  using children_lt [OF assms] by simp

lemma when_all_final:
  assumes inv: "tasks_inv D ts" and D: "D \<subseteq> {p} \<times> UNIV" and p: "p < length ts" "\<not> t_complete (ts ! p)"
    and k: "t_class (ts ! p) = WhenAll cs n pe" and c: "c \<in> set cs" "t_complete (ts ! c)" "(p, c) \<in> D"
    and n: "\<not> Suc n < length cs"
    and x: "t_class x = WhenAll cs (Suc n) (staged ts c pe)" "ties x = ties (ts ! p)" "t_complete x"
      "staged ts c pe = None \<Longrightarrow> t_exception x = None \<and> t_result x = PList (map (\<lambda>d. t_result (ts ! d)) cs)"
      "\<And>e. staged ts c pe = Some e \<Longrightarrow> t_exception x = Some e"
  shows "step_ok D p c ts True (ts[p := x])"
    and "\<forall>d \<in> set cs. t_complete (ts ! d)"
    and "staged ts c pe = None \<Longrightarrow> \<forall>d \<in> set cs. t_exception (ts ! d) = None"
proof -
  let ?D = "D - {(p, c)}"
  have ok: "n = card (delivered D ts p cs)" "n < length cs" "waits_ok D ts p cs"
    "pe = None \<longrightarrow> (\<forall>d \<in> delivered D ts p cs. t_exception (ts ! d) = None)"
    "\<forall>e. pe = Some e \<longrightarrow> (\<exists>d \<in> delivered D ts p cs. t_exception (ts ! d) = Some e)"
    using tasks_invD(2) [OF inv p(1)] k p(2) by (simp_all add: class_ok.simps)
  have full: "card (delivered ?D ts p cs) = length cs"
    using delivered_insert(3) [OF c] ok(1,2) n by simp
  note all = card_full [OF full]
  then show comp: "\<forall>d \<in> set cs. t_complete (ts ! d)" by simp
  have del: "delivered ?D ts p cs = set cs" using all by (auto simp: delivered_def)
  show noex: "\<forall>d \<in> set cs. t_exception (ts ! d) = None" if "staged ts c pe = None"
    using staged_ok(1) [OF c ok(4,5)] that del by simp
  have ch: "(ts[p := x]) ! d = ts ! d" if "d \<in> set cs" for d
    using child_kept [OF inv p(1), of d x] k that by simp
  have "class_ok (passed_up ts p) (ts[p := x]) p x"
  proof (cases "staged ts c pe")
    case None
    with x noex comp ch show ?thesis by (simp add: class_ok.simps)
  next
    case (Some e)
    with staged_ok(2) [OF c ok(4,5)] del have "\<exists>d \<in> set cs. t_exception (ts ! d) = Some e" by simp
    with Some x comp ch show ?thesis by (simp add: class_ok.simps)
  qed
  then show "step_ok D p c ts True (ts[p := x])"
    using step_ok_complete [OF inv D p _ x(2,3)] k x(1) by simp
qed

lemma when_any_final:
  assumes inv: "tasks_inv D ts" and D: "D \<subseteq> {p} \<times> UNIV" and p: "p < length ts" "\<not> t_complete (ts ! p)"
    and k: "t_class (ts ! p) = WhenAny cs" and c: "c \<in> set cs" "t_complete (ts ! c)"
  shows "step_ok D p c ts True (ts[p := (ts ! p)\<lparr>t_complete := True, t_result := PTask c\<rparr>])"
proof -
  have "t_exception (ts ! p) = None"
    using tasks_invD(1) [OF inv p(1)] p(2) by (auto simp: links_ok_def)
  moreover have "(ts[p := x]) ! c = ts ! c" for x
    using child_kept [OF inv p(1), of c x] k c(1) by simp
  ultimately have "class_ok (passed_up ts p) (ts[p := (ts ! p)\<lparr>t_complete := True, t_result := PTask c\<rparr>]) p
      ((ts ! p)\<lparr>t_complete := True, t_result := PTask c\<rparr>)"
    using c k by (auto simp: class_ok.simps)
  then show ?thesis using step_ok_complete [OF inv D p] by simp
qed

lemma external_event_final:
  assumes inv: "tasks_inv D ts" and D: "D \<subseteq> {p} \<times> UNIV" and p: "p < length ts" "\<not> t_complete (ts ! p)"
    and k: "t_class (ts ! p) = ExternalEvent e tm name timeout key"
    and x: "t_class x = t_class (ts ! p)" "ties x = ties (ts ! p)" "t_complete x"
    and res: "t_complete (ts ! e) \<and> (t_exception x = None \<longrightarrow> t_result x = t_result (ts ! e)) \<and> t_exception x = t_exception (ts ! e) \<or>
      t_complete (ts ! tm) \<and> t_exception x = Some (exc TimeoutError (timeout_message timeout name))"
  shows "step_ok D p c ts True (ts[p := x])"
proof -
  have "(ts[p := x]) ! e = ts ! e" "(ts[p := x]) ! tm = ts ! tm"
    using child_kept [OF inv p(1), of _ x] k by simp_all
  with res x k have "class_ok (passed_up ts p) (ts[p := x]) p x" by (simp add: class_ok.simps)
  with x show ?thesis using step_ok_complete [OF inv D p] by simp
qed

lemma staged_is_failed:
  "(if is_failed s c \<and> pe = None then t_exception (task_at s c) else pe) = staged (tasks s) c pe"
  by (simp add: staged_def is_failed_def)

lemma when_all_step_ok:
  assumes inv: "tasks_inv D (tasks s)" and D: "D \<subseteq> {p} \<times> UNIV"
    and p: "p < length (tasks s)" "\<not> t_complete (task_at s p)"
    and k: "t_class (task_at s p) = WhenAll cs n pe"
    and c: "c \<in> set cs" "t_complete (task_at s c)" "(p, c) \<in> D"
  shows "\<exists>b s'. when_all_step p cs n pe c s = (Inr b, s') \<and> step_ok D p c (tasks s) b (tasks s') \<and>
            pending_events s' = pending_events s"
proof (cases "Suc n < length cs")
  case True
  let ?x = "(task_at s p)\<lparr>t_class := WhenAll cs (Suc n) (staged (tasks s) c pe)\<rparr>"
  have "when_all_step p cs n pe c s =
      (Inr False, upd_task p (\<lambda>x. x\<lparr>t_class := WhenAll cs (Suc n) (staged (tasks s) c pe)\<rparr>) s)"
    using True by (simp add: when_all_step_def staged_is_failed Let_def)
  moreover have "step_ok D p c (tasks s) False ((tasks s)[p := ?x])"
    using tasks_inv_count [OF inv p k c True] keeps_update [of ?x "tasks s" p] k p by (simp add: step_ok_def)
  ultimately show ?thesis by (simp add: ex_bool_eq)
next
  case False
  let ?pe = "staged (tasks s) c pe" and ?ts = "tasks s"
  let ?s2 = "upd_task p (\<lambda>x. x\<lparr>t_complete := True\<rparr>) (upd_task p (\<lambda>x. x\<lparr>t_class := WhenAll cs (Suc n) ?pe\<rparr>) s)"
  have noexc: "t_exception (?ts ! p) = None"
    using tasks_invD(1) [OF inv p(1)] p(2) by (auto simp: links_ok_def)
  note fin = when_all_final [OF inv D p k c False]
  show ?thesis
  proof (cases ?pe)
    case (Some e)
    let ?x = "(?ts ! p)\<lparr>t_class := WhenAll cs (Suc n) ?pe, t_complete := True, t_exception := Some e\<rparr>"
    have "when_all_step p cs n pe c s = (Inr True, upd_task p (\<lambda>x. x\<lparr>t_exception := Some e\<rparr>) ?s2)"
      using False Some by (simp add: when_all_step_def staged_is_failed Let_def)
    moreover have "tasks (upd_task p (\<lambda>x. x\<lparr>t_exception := Some e\<rparr>) ?s2) = ?ts[p := ?x]"
      using p(1) by simp
    moreover have "step_ok D p c ?ts True (?ts[p := ?x])"
      by (rule fin(1)) (simp_all add: Some)
    ultimately show ?thesis by (simp add: ex_bool_eq)
  next
    case None
    let ?x = "(?ts ! p)\<lparr>t_class := WhenAll cs (Suc n) ?pe, t_complete := True,
                t_result := PList (map (\<lambda>d. t_result (?ts ! d)) cs)\<rparr>"
    have ok: "step_ok D p c ?ts True (?ts[p := ?x])"
      by (rule fin(1)) (simp_all add: None noexc)
    have comp: "\<forall>d \<in> set cs. t_complete (?ts ! d)" "\<forall>d \<in> set cs. t_exception (?ts ! d) = None"
      using fin(2,3) [of ?x] None noexc by simp_all
    have same: "task_at ?s2 d = ?ts ! d" if "d \<in> set cs" for d
      using children_lt [OF inv p(1), of d] k that by simp
    have "seq_res (map (get_result ?s2) cs) = Inr (map (\<lambda>d. t_result (task_at ?s2 d)) cs)"
      by (rule seq_res_get_result) (use comp same in simp)
    also have "map (\<lambda>d. t_result (task_at ?s2 d)) cs = map (\<lambda>d. t_result (?ts ! d)) cs"
      by (rule map_cong [OF refl]) (simp only: same)
    finally have "when_all_step p cs n pe c s =
        (Inr True, upd_task p (\<lambda>x. x\<lparr>t_result := PList (map (\<lambda>d. t_result (?ts ! d)) cs)\<rparr>) ?s2)"
      using False None by (simp add: when_all_step_def staged_is_failed Let_def)
    moreover have "tasks (upd_task p (\<lambda>x. x\<lparr>t_result := PList (map (\<lambda>d. t_result (?ts ! d)) cs)\<rparr>) ?s2) = ?ts[p := ?x]"
      using p(1) by simp
    ultimately show ?thesis using ok by (simp add: ex_bool_eq)
  qed
qed

lemma tasks_unregister [simp]: "tasks (unregister_event_task key t s) = tasks s"
  by (simp add: unregister_event_task_def Let_def split: option.split)

lemma composite_step_ok:
  assumes inv: "tasks_inv D (tasks s)" and D: "D \<subseteq> {p} \<times> UNIV"
    and p: "p < length (tasks s)" "\<not> t_complete (task_at s p)"
    and c: "c \<in> set (children (t_class (task_at s p)))" "t_complete (task_at s c)" "(p, c) \<in> D"
  shows "\<exists>b s'. composite_step p c s = (Inr b, s') \<and> step_ok D p c (tasks s) b (tasks s')"
proof (cases "t_class (task_at s p)")
  case (WhenAll cs n pe)
  with when_all_step_ok [OF inv D p] c show ?thesis by (fastforce simp: composite_step_def)
next
  case (WhenAny cs)
  with when_any_final [OF inv D p] c show ?thesis by (simp add: ex_bool_eq composite_step_def when_any_step_def)
next
  case (ExternalEvent e tm name timeout key)
  have noexc: "t_exception (task_at s p) = None"
    using tasks_invD(1) [OF inv p(1)] p(2) by (auto simp: links_ok_def)
  note fin = external_event_final [OF inv D p ExternalEvent]
  show ?thesis
  proof (cases "c = e")
    case True
    have "step_ok D p c (tasks s) True (tasks (snd (external_event_step p e tm name timeout key c s)))"
      using True c(2) noexc
      by (auto simp: external_event_step_def split: option.split intro!: fin)
    with True ExternalEvent show ?thesis by (simp add: ex_bool_eq composite_step_def external_event_step_def)
  next
    case False
    with c ExternalEvent have "c = tm" by simp
    with False c have "step_ok D p c (tasks s) True (tasks (snd (external_event_step p e tm name timeout key c s)))"
      by (auto simp: external_event_step_def intro!: fin)
    with False \<open>c = tm\<close> ExternalEvent show ?thesis by (simp add: ex_bool_eq composite_step_def external_event_step_def)
  qed
qed (use c in simp_all)

text \<open>The walk ends within the bound, and it leaves no completion undelivered.\<close>

lemma on_child_completed_ok:
  assumes "tasks_inv D (tasks s)" and "D \<subseteq> {p} \<times> UNIV" and "p < length (tasks s)"
    and "c \<in> set (children (t_class (task_at s p)))" "t_complete (task_at s c)" "(p, c) \<in> D"
    and "length (tasks s) \<le> n + p"
  shows "\<exists>s'. on_child_completed n p c s = (Inr (), s') \<and> keeps (\<lambda>i. i < p) (tasks s) (tasks s') \<and>
     tasks_inv (if t_complete (task_at s' p) then {} else D - {(p, c)}) (tasks s')"
  using assms
proof (induction n arbitrary: D p c s)
  case 0
  then show ?case by simp
next
  case (Suc n)
  show ?case
  proof (cases "t_complete (task_at s p)")
    case True
    with tasks_inv_drop [OF Suc.prems(1,2), of "{}"] show ?thesis by (simp add: is_complete_def)
  next
    case False
    obtain b s1 where step: "composite_step p c s = (Inr b, s1)" and ok: "step_ok D p c (tasks s) b (tasks s1)"
      using composite_step_ok [OF Suc.prems(1,2,3) False Suc.prems(4-6)] by blast
    have kp: "keeps (\<lambda>i. i < p) (tasks s) (tasks s1)"
      by (rule keeps_mono [of "\<lambda>i. i \<noteq> p"]) (use ok in \<open>auto simp: step_ok_def\<close>)
    show ?thesis
    proof (cases b)
      case nb: False
      with step ok False kp show ?thesis by (auto simp: step_ok_def is_complete_def)
    next
      case True
      have par: "t_parent (task_at s1 p) = t_parent (task_at s p)" and len: "length (tasks s1) = length (tasks s)"
        using kp by (simp_all add: keeps_def ties_def)
      show ?thesis
      proof (cases "t_parent (task_at s p)")
        case None
        with True step ok False kp par show ?thesis by (auto simp: step_ok_def is_complete_def passed_up_def)
      next
        case (Some q)
        have inv1: "tasks_inv {(q, p)} (tasks s1)" and cp: "t_complete (task_at s1 p)"
          using ok True Some by (simp_all add: step_ok_def passed_up_def)
        have q: "p < q" "q < length (tasks s1)" "p \<in> set (children (t_class (task_at s1 q)))"
          using parent_gt [OF inv1, of p q] Suc.prems(3) len par Some by simp_all
        have "\<exists>s'. on_child_completed n q p s1 = (Inr (), s') \<and> keeps (\<lambda>i. i < q) (tasks s1) (tasks s') \<and>
            tasks_inv (if t_complete (task_at s' q) then {} else {(q, p)} - {(q, p)}) (tasks s')"
          by (rule Suc.IH) (use inv1 cp q Suc.prems(7) len in auto)
        then obtain s2 where s2: "on_child_completed n q p s1 = (Inr (), s2)"
          "keeps (\<lambda>i. i < q) (tasks s1) (tasks s2)" "tasks_inv {} (tasks s2)" by (auto split: if_splits)
        have k2: "keeps (\<lambda>i. i < p) (tasks s) (tasks s2)"
          by (rule keeps_mono [OF keeps_trans [OF kp s2(2)]]) (use q(1) in simp)
        have "t_complete (task_at s2 p)" using s2(2) cp by (simp add: keeps_def ties_def)
        moreover have "on_child_completed (Suc n) p c s = (Inr (), s2)"
          using step True False par Some s2(1) by (simp add: is_complete_def)
        ultimately show ?thesis using k2 s2(3) by auto
      qed
    qed
  qed
qed

end
