(* ===== verification/TaskStore.thy ===== *)
theory TaskStore
  imports StoreInv
begin

text \<open>
  Every operation of the runtime on tasks keeps the invariant of the store, so it holds in every
  reachable store. From it follow the contracts of \<open>when_all\<close>, \<open>when_any\<close> and of an external event
  with a timeout: a composite is complete exactly when its rule says so, and it never hangs.
\<close>

section \<open>The operations keep the invariant\<close>

text \<open>
  Completing a plain task notifies at most one chain of composites, never runs into the recursion
  bound, and re-establishes the invariant.
\<close>

lemma notify_parent_ok:
  assumes inv: "tasks_inv {} (tasks s)" and t: "t < length (tasks s)" "\<not> t_complete (task_at s t)"
    "\<not> is_composite (t_class (task_at s t))"
    and f: "t_class (f (task_at s t)) = t_class (task_at s t)" "ties (f (task_at s t)) = ties (task_at s t)"
      "t_complete (f (task_at s t))"
  shows "\<exists>s'. notify_parent t (upd_task t f s) = (Inr (), s') \<and> tasks_inv {} (tasks s') \<and>
     keeps (\<lambda>i. i \<noteq> t \<and> (\<forall>q. t_parent (task_at s t) = Some q \<longrightarrow> i < q)) (tasks s) (tasks s') \<and> task_at s' t = f (task_at s t)"
proof -
  let ?x = "f (task_at s t)" and ?s = "upd_task t f s"
  have inv1: "tasks_inv (passed_up (tasks s) t) (tasks ?s)"
    unfolding tasks_upd
  proof (rule tasks_inv_complete [OF inv _ t(1,2) _ ties_parent [OF f(2)] f(3)])
    show "class_ok (passed_up (tasks s) t) ((tasks s)[t := ?x]) t ?x"
      using t(3) f(1) by (cases "t_class (task_at s t)") (simp_all add: class_ok.simps)
  qed (simp_all add: f ties_parent [OF f(2)] passed_up_def)
  have kp: "keeps (\<lambda>i. i \<noteq> t) (tasks s) (tasks ?s)"
    unfolding tasks_upd by (rule keeps_update) (simp_all add: f t)
  have at: "task_at ?s t = ?x" and len: "length (tasks ?s) = length (tasks s)" using t(1) by simp_all
  show ?thesis
  proof (cases "t_parent (task_at s t)")
    case None
    then have "notify_parent t ?s = (Inr (), ?s)" using at ties_parent [OF f(2)] by (simp add: notify_parent_def)
    moreover have "tasks_inv {} (tasks ?s)" using inv1 None by (simp add: passed_up_def)
    moreover have "keeps (\<lambda>i. i \<noteq> t \<and> (\<forall>q. t_parent (task_at s t) = Some q \<longrightarrow> i < q)) (tasks s) (tasks ?s)" by (rule keeps_mono [OF kp]) simp
    ultimately show ?thesis using at by blast
  next
    case (Some q)
    have inv2: "tasks_inv {(q, t)} (tasks ?s)" using inv1 Some by (simp add: passed_up_def)
    have par: "t_parent (task_at ?s t) = Some q" using at ties_parent [OF f(2)] Some by simp
    have q: "t < q" "q < length (tasks ?s)" "t \<in> set (children (t_class (task_at ?s q)))"
      using parent_gt [OF inv2, of t q] par t(1) len by auto
    have ct: "t_complete (task_at ?s t)" using at f(3) by simp
    have "\<exists>s'. on_child_completed (length (tasks ?s)) q t ?s = (Inr (), s') \<and>
        keeps (\<lambda>i. i < q) (tasks ?s) (tasks s') \<and>
        tasks_inv (if t_complete (task_at s' q) then {} else {(q, t)} - {(q, t)}) (tasks s')"
      by (rule on_child_completed_ok [OF inv2 _ q(2,3) ct]) auto
    then obtain s' where s': "on_child_completed (length (tasks ?s)) q t ?s = (Inr (), s')"
      "keeps (\<lambda>i. i < q) (tasks ?s) (tasks s')" "tasks_inv {} (tasks s')" by (auto split: if_splits)
    have "notify_parent t ?s = (Inr (), s')" using par s'(1) by (simp add: notify_parent_def)
    moreover have "keeps (\<lambda>i. i \<noteq> t \<and> (\<forall>q. t_parent (task_at s t) = Some q \<longrightarrow> i < q)) (tasks s) (tasks s')"
      by (rule keeps_mono [OF keeps_trans [OF kp s'(2)]]) (use Some in simp)
    moreover have "task_at s' t = ?x" using s'(2) ct at by (simp add: keeps_def ties_def)
    ultimately show ?thesis using s'(3) by blast
  qed
qed

text \<open>A new object at the end of the store, without a parent.\<close>

lemma tasks_inv_append:
  assumes inv: "tasks_inv {} ts" and D: "D \<subseteq> {length ts} \<times> UNIV"
    and x: "t_parent x = None" "distinct (children (t_class x))"
      "\<forall>c \<in> set (children (t_class x)). c < length ts" "t_exception x \<noteq> None \<longrightarrow> t_complete x"
    and own: "class_ok D (ts @ [x]) (length ts) x"
  shows "tasks_inv D (ts @ [x])"
  unfolding tasks_inv_def
proof (intro allI impI conjI)
  fix i assume i: "i < length (ts @ [x])"
  show "links_ok (ts @ [x]) i"
  proof (cases "i = length ts")
    case True
    with x show ?thesis by (simp add: links_ok_def)
  next
    case False
    with i have il: "i < length ts" by simp
    with tasks_invD(1) [OF inv il] show ?thesis by (auto simp: links_ok_def nth_append)
  qed
  show "class_ok D (ts @ [x]) i ((ts @ [x]) ! i)"
  proof (cases "i = length ts")
    case True
    with own show ?thesis by simp
  next
    case False
    with i have il: "i < length ts" by simp
    have "class_ok D (ts @ [x]) i (ts ! i) = class_ok {} ts i (ts ! i)"
    proof (rule class_ok_cong)
      fix c assume "c \<in> set (children (t_class (ts ! i)))"
      then have "c < length ts" using children_lt [OF inv il] il by fastforce
      then show "outlook ((ts @ [x]) ! c) = outlook (ts ! c)" by (simp add: nth_append)
    qed (use D False in auto)
    with tasks_invD(2) [OF inv il] il show ?thesis by (simp add: nth_append)
  qed
qed

text \<open>The composite \<open>p\<close> becomes the parent of one of its children.\<close>

definition claimable :: "task list \<Rightarrow> tref \<Rightarrow> tref \<Rightarrow> bool" where
  "claimable ts p c \<longleftrightarrow> (\<forall>i < length ts. i \<noteq> p \<and> \<not> t_complete (ts ! i) \<and>
     c \<in> set (children (t_class (ts ! i))) \<longrightarrow> t_complete (ts ! c))"

lemma waits_adopt:
  assumes "waits_ok D ts i cs" and "c < length ts"
    and "i = p \<and> (p, c) \<in> D \<or> t_complete (ts ! c) \<or> c \<notin> set cs"
  shows "waits_ok D (ts[c := (ts ! c)\<lparr>t_parent := Some p\<rparr>]) i cs"
  unfolding waits_ok_def
proof (intro ballI impI)
  fix d assume d: "d \<in> set cs" "\<not> t_complete ((ts[c := (ts ! c)\<lparr>t_parent := Some p\<rparr>]) ! d) \<and> (i, d) \<notin> D"
  with assms(2,3) have "d \<noteq> c" by auto
  with d assms(1) show "t_parent ((ts[c := (ts ! c)\<lparr>t_parent := Some p\<rparr>]) ! d) = Some i"
    by (auto simp: waits_ok_def)
qed

lemma tasks_inv_adopt:
  assumes inv: "tasks_inv D ts" and p: "p < length ts" "c \<in> set (children (t_class (ts ! p)))"
    and D: "(p, c) \<in> D" and cl: "claimable ts p c"
  shows "tasks_inv D (ts[c := (ts ! c)\<lparr>t_parent := Some p\<rparr>])"
  unfolding tasks_inv_def
proof (intro allI impI conjI)
  let ?ts = "ts[c := (ts ! c)\<lparr>t_parent := Some p\<rparr>]"
  have cp: "c < p" "c < length ts" using children_lt [OF inv p] p(1) by auto
  have ob: "t_class (?ts ! j) = t_class (ts ! j)" "t_complete (?ts ! j) = t_complete (ts ! j)"
    "t_exception (?ts ! j) = t_exception (ts ! j)" "t_result (?ts ! j) = t_result (ts ! j)"
    "t_parent (?ts ! j) = (if j = c then Some p else t_parent (ts ! j))" for j
    using cp(2) by (cases "j = c"; simp)+
  fix i assume i: "i < length ?ts"
  then have il: "i < length ts" by simp
  have L: "links_ok ts i" by (rule tasks_invD(1) [OF inv il])
  show "links_ok ?ts i"
    using L p cp unfolding links_ok_def ob by (auto split: if_splits)
  have ok: "class_ok D ts i (ts ! i)" by (rule tasks_invD(2) [OF inv il])
  have W: "waits_ok D ?ts i cs" if "waits_ok D ts i cs" "cs = children (t_class (ts ! i))" "\<not> t_complete (ts ! i)" for cs
    using waits_adopt [OF that(1) cp(2), of p] cl that(2,3) il D by (auto simp: claimable_def)
  have Dl: "delivered D ?ts i = delivered D ts i" by (simp add: delivered_def ob fun_eq_iff)
  note [simp del] = nth_list_update_eq nth_list_update_neq
  have "class_ok D ?ts i (?ts ! i)"
  proof (cases "t_class (ts ! i)")
    case (WhenAll cs n pe)
    with W have "\<not> t_complete (ts ! i) \<Longrightarrow> waits_ok D ts i cs \<Longrightarrow> waits_ok D ?ts i cs" by simp
    with ok WhenAll show ?thesis by (simp add: class_ok.simps ob Dl split: if_splits)
  next
    case (WhenAny cs)
    with W have "\<not> t_complete (ts ! i) \<Longrightarrow> waits_ok D ts i cs \<Longrightarrow> waits_ok D ?ts i cs" by simp
    with ok WhenAny show ?thesis by (simp add: class_ok.simps ob Dl split: if_splits)
  next
    case (ExternalEvent e t n to k)
    with W have "\<not> t_complete (ts ! i) \<Longrightarrow> waits_ok D ts i [e, t] \<Longrightarrow> waits_ok D ?ts i [e, t]" by simp
    with ok ExternalEvent show ?thesis by (simp add: class_ok.simps ob Dl split: if_splits)
  qed (simp_all add: class_ok.simps ob)
  then show "class_ok D ?ts i (?ts ! i)" .
qed

lemma class_ok_undelivered:
  assumes ok: "class_ok D ts i x" and c: "\<not> t_complete (ts ! c)" "t_parent (ts ! c) = Some p"
    and D: "\<And>q d. (q, d) \<noteq> (p, c) \<Longrightarrow> (q, d) \<in> D' \<longleftrightarrow> (q, d) \<in> D"
  shows "class_ok D' ts i x"
proof -
  have del: "delivered D' ts i = delivered D ts i"
  proof
    fix cs
    have "(i, d) \<in> D' \<longleftrightarrow> (i, d) \<in> D" if "t_complete (ts ! d)" for d
      using D [of i d] c(1) that by (cases "d = c") auto
    then show "delivered D' ts i cs = delivered D ts i cs" by (auto simp: delivered_def)
  qed
  have wt: "waits_ok D' ts i cs" if "waits_ok D ts i cs" for cs
    unfolding waits_ok_def
  proof (intro ballI impI)
    fix d assume d: "d \<in> set cs" "\<not> t_complete (ts ! d) \<and> (i, d) \<notin> D'"
    show "t_parent (ts ! d) = Some i"
    proof (cases "(i, d) = (p, c)")
      case True
      with c(2) show ?thesis by simp
    next
      case False
      with d D that show ?thesis by (simp add: waits_ok_def)
    qed
  qed
  show ?thesis using ok by (cases "t_class x") (auto simp: class_ok.simps del wt split: if_splits)
qed

lemma claimable_cong:
  assumes "length ts' = length ts" and "\<And>i. i < length ts \<Longrightarrow> i \<noteq> p \<Longrightarrow>
      t_class (ts' ! i) = t_class (ts ! i) \<and> t_complete (ts' ! i) = t_complete (ts ! i)"
    and "c < length ts" and "c \<noteq> p"
  shows "claimable ts' p c = claimable ts p c"
  using assms by (auto simp: claimable_def)

lemma adopt_ok:
  assumes "tasks_inv ({p} \<times> set cs) (tasks s)" and "length (tasks s) = Suc p"
    and "set cs \<subseteq> set (children (t_class (task_at s p)))" and "distinct cs"
    and "t_parent (task_at s p) = None" and "\<forall>c \<in> set cs. claimable (tasks s) p c"
  shows "\<exists>s'. adopt p cs s = (Inr (), s') \<and> tasks_inv {} (tasks s') \<and> length (tasks s') = Suc p \<and>
    shape (t_class (task_at s' p)) = shape (t_class (task_at s p)) \<and> t_parent (task_at s' p) = None \<and>
    (\<forall>i < p. task_at s' i = (if i \<in> set cs then (task_at s i)\<lparr>t_parent := Some p\<rparr> else task_at s i))"
  using assms
proof (induction cs arbitrary: s)
  case Nil
  then show ?case by simp
next
  case (Cons c cs)
  let ?D = "{p} \<times> set (c # cs)"
  define s1 where "s1 = upd_task c (\<lambda>x. x\<lparr>t_parent := Some p\<rparr>) s"
  have p: "p < length (tasks s)" using Cons.prems(2) by simp
  have cc: "c \<in> set (children (t_class (task_at s p)))" using Cons.prems(3) by simp
  have cp: "c < p" using children_lt [OF Cons.prems(1) p cc] .
  have lt: "d < p" if "d \<in> set cs" for d
    using children_lt [OF Cons.prems(1) p, of d] Cons.prems(3) that by auto
  have inv1: "tasks_inv ?D (tasks s1)"
    unfolding s1_def tasks_upd by (rule tasks_inv_adopt [OF Cons.prems(1) p cc]) (use Cons.prems(6) in simp_all)
  have s1: "length (tasks s1) = Suc p" "task_at s1 p = task_at s p"
    "\<And>i. i < p \<Longrightarrow> task_at s1 i = (if i = c then (task_at s i)\<lparr>t_parent := Some p\<rparr> else task_at s i)"
    using Cons.prems(2) cp by (simp_all add: s1_def)
  have "\<exists>s2. (adopt p (c # cs) s = adopt p cs s2) \<and> keeps (\<lambda>i. i < p) (tasks s1) (tasks s2) \<and>
      tasks_inv ({p} \<times> set cs) (tasks s2)"
  proof (cases "t_complete (task_at s1 c)")
    case True
    have "\<exists>s2. on_child_completed (length (tasks s1)) p c s1 = (Inr (), s2) \<and>
        keeps (\<lambda>i. i < p) (tasks s1) (tasks s2) \<and>
        tasks_inv (if t_complete (task_at s2 p) then {} else ?D - {(p, c)}) (tasks s2)"
      by (rule on_child_completed_ok [OF inv1]) (use True cc s1 in auto)
    then obtain s2 where s2: "on_child_completed (length (tasks s1)) p c s1 = (Inr (), s2)"
      "keeps (\<lambda>i. i < p) (tasks s1) (tasks s2)"
      "tasks_inv (if t_complete (task_at s2 p) then {} else ?D - {(p, c)}) (tasks s2)" by blast
    have eq: "?D - {(p, c)} = {p} \<times> set cs" using Cons.prems(4) by auto
    have "tasks_inv ({p} \<times> set cs) (tasks s2)"
    proof (cases "t_complete (task_at s2 p)")
      case c2: True
      with s2(3) have "tasks_inv {} (tasks s2)" by simp
      show ?thesis by (rule tasks_inv_drop [OF \<open>tasks_inv {} (tasks s2)\<close> _ c2]) auto
    next
      case False
      with s2(3) eq show ?thesis by simp
    qed
    moreover have "adopt p (c # cs) s = adopt p cs s2"
      using True s2(1) by (simp add: s1_def is_complete_def)
    ultimately show ?thesis using s2(2) by blast
  next
    case False
    have "tasks_inv ({p} \<times> set cs) (tasks s1)"
      unfolding tasks_inv_def
    proof (intro allI impI conjI)
      fix i assume i: "i < length (tasks s1)"
      show "links_ok (tasks s1) i" by (rule tasks_invD(1) [OF inv1 i])
      show "class_ok ({p} \<times> set cs) (tasks s1) i (task_at s1 i)"
      proof (rule class_ok_undelivered [OF tasks_invD(2) [OF inv1 i] False])
        show "\<And>q d. (q, d) \<noteq> (p, c) \<Longrightarrow> (q, d) \<in> {p} \<times> set cs \<longleftrightarrow> (q, d) \<in> ?D" by auto
        show "t_parent (task_at s1 c) = Some p" using s1(3) [OF cp] by simp
      qed
    qed
    moreover have "adopt p (c # cs) s = adopt p cs s1"
      using False by (simp add: s1_def is_complete_def)
    ultimately show ?thesis by (metis keeps_refl)
  qed
  then obtain s2 where s2: "adopt p (c # cs) s = adopt p cs s2" "keeps (\<lambda>i. i < p) (tasks s1) (tasks s2)"
    "tasks_inv ({p} \<times> set cs) (tasks s2)" by blast
  have at2: "task_at s2 i = task_at s1 i" if "i < p" for i using s2(2) that by (simp add: keeps_def ties_def)
  have k2: "length (tasks s2) = Suc p" "shape (t_class (task_at s2 p)) = shape (t_class (task_at s p))"
    "t_parent (task_at s2 p) = None"
    using s2(2) s1 Cons.prems(5) by (simp_all add: keeps_def ties_def)
  have cl: "\<forall>d \<in> set cs. claimable (tasks s2) p d"
  proof
    fix d assume d: "d \<in> set cs"
    have "claimable (tasks s2) p d = claimable (tasks s) p d"
      by (rule claimable_cong) (use k2 Cons.prems(2) at2 s1(3) lt [OF d] in auto)
    with Cons.prems(6) d show "claimable (tasks s2) p d" by simp
  qed
  have "\<exists>s'. adopt p cs s2 = (Inr (), s') \<and> tasks_inv {} (tasks s') \<and> length (tasks s') = Suc p \<and>
    shape (t_class (task_at s' p)) = shape (t_class (task_at s2 p)) \<and> t_parent (task_at s' p) = None \<and>
    (\<forall>i < p. task_at s' i = (if i \<in> set cs then (task_at s2 i)\<lparr>t_parent := Some p\<rparr> else task_at s2 i))"
    by (rule Cons.IH [OF s2(3) k2(1) _ _ k2(3) cl])
      (use Cons.prems(3,4) children_shape [OF k2(2)] in auto)
  then obtain s' where s': "adopt p cs s2 = (Inr (), s')" "tasks_inv {} (tasks s')" "length (tasks s') = Suc p"
    "shape (t_class (task_at s' p)) = shape (t_class (task_at s p))" "t_parent (task_at s' p) = None"
    "\<forall>i < p. task_at s' i = (if i \<in> set cs then (task_at s2 i)\<lparr>t_parent := Some p\<rparr> else task_at s2 i)"
    using k2(2) by auto
  have "\<forall>i < p. task_at s' i = (if i \<in> set (c # cs) then (task_at s i)\<lparr>t_parent := Some p\<rparr> else task_at s i)"
    using s'(6) at2 s1(3) by auto
  with s' s2(1) show ?case by simp
qed

fun fresh_class :: "task_class \<Rightarrow> bool" where
  "fresh_class (WhenAll cs n pe) \<longleftrightarrow> n = 0 \<and> pe = None"
| "fresh_class k \<longleftrightarrow> True"

lemma class_ok_fresh:
  assumes "fresh_class k" and "children k \<noteq> [] \<or> \<not> is_composite k"
  shows "class_ok ({p} \<times> set (children k)) ts p (new_task k)"
proof -
  have "delivered ({p} \<times> set cs) ts p cs = {}" "waits_ok ({p} \<times> set cs) ts p cs" for cs
    by (auto simp: delivered_def waits_ok_def)
  moreover from this [of "[e, t]" for e t] have "delivered ({p} \<times> {e, t}) ts p [e, t] = {}"
    "waits_ok ({p} \<times> {e, t}) ts p [e, t]" for e t by simp_all
  ultimately show ?thesis using assms by (cases k) (auto simp: class_ok.simps new_task_def)
qed

lemma alloc_ok:
  assumes "tasks_inv {} (tasks s)" and "distinct (children k)"
    and "\<forall>c \<in> set (children k). c < length (tasks s)" and "fresh_class k"
    and "children k \<noteq> [] \<or> \<not> is_composite k"
  shows "tasks_inv ({length (tasks s)} \<times> set (children k)) (tasks (snd (alloc k s)))"
  unfolding alloc_def
  using tasks_inv_append [OF assms(1), of "{length (tasks s)} \<times> set (children k)" "new_task k"]
    class_ok_fresh [OF assms(4,5)] assms(2,3)
  by (simp add: new_task_def) auto

lemma live_parent_claimable:
  assumes inv: "tasks_inv {} ts" and "tasks s = ts" and "\<not> (live_parent s c \<and> \<not> is_complete s c)"
    and c: "c < length ts"
  shows "claimable ts p c"
  unfolding claimable_def
proof (intro allI impI)
  fix i assume i: "i < length ts" "i \<noteq> p \<and> \<not> t_complete (ts ! i) \<and> c \<in> set (children (t_class (ts ! i)))"
  have "class_ok {} ts i (ts ! i)" by (rule tasks_invD(2) [OF inv i(1)])
  then have "waits_ok {} ts i (children (t_class (ts ! i)))"
    using i(2) by (cases "t_class (ts ! i)") (simp_all add: class_ok.simps)
  then have "\<not> t_complete (ts ! c) \<Longrightarrow> t_parent (ts ! c) = Some i" using i(2) by (simp add: waits_ok_def)
  then show "t_complete (ts ! c)"
    using assms(2,3) i(2) by (cases "t_complete (ts ! c)") (simp_all add: live_parent_def is_complete_def)
qed

lemma new_composite_ok:
  assumes inv: "tasks_inv {} (tasks s)" and k: "fresh_class k" "children k \<noteq> []"
    and lt: "\<forall>c \<in> set (children k). c < length (tasks s)"
    and ok: "distinct (children k)" "\<forall>c \<in> set (children k). \<not> (live_parent s c \<and> \<not> is_complete s c)"
  shows "\<exists>s'. new_composite k s = (Inr (length (tasks s)), s') \<and> tasks_inv {} (tasks s') \<and>
    length (tasks s') = Suc (length (tasks s)) \<and> shape (t_class (task_at s' (length (tasks s)))) = shape k \<and>
    (\<forall>i < length (tasks s). task_at s' i =
       (if i \<in> set (children k) then (task_at s i)\<lparr>t_parent := Some (length (tasks s))\<rparr> else task_at s i))"
proof -
  let ?p = "length (tasks s)" and ?s1 = "snd (alloc k s)"
  have inv1: "tasks_inv ({?p} \<times> set (children k)) (tasks ?s1)"
    by (rule alloc_ok [OF inv ok(1) lt k(1)]) (use k(2) in simp)
  have s1: "length (tasks ?s1) = Suc ?p" "t_class (task_at ?s1 ?p) = k" "t_parent (task_at ?s1 ?p) = None"
    "\<And>i. i < ?p \<Longrightarrow> task_at ?s1 i = task_at s i"
    by (simp_all add: alloc_def new_task_def nth_append)
  have "claimable (tasks ?s1) ?p c" if c: "c \<in> set (children k)" for c
  proof -
    have "claimable (tasks s) ?p c"
      by (rule live_parent_claimable [OF inv refl]) (use ok(2) lt c in auto)
    then show ?thesis using s1 lt c by (auto simp: claimable_def less_Suc_eq)
  qed
  then have "\<exists>s'. adopt ?p (children k) ?s1 = (Inr (), s') \<and> tasks_inv {} (tasks s') \<and>
    length (tasks s') = Suc ?p \<and> shape (t_class (task_at s' ?p)) = shape (t_class (task_at ?s1 ?p)) \<and>
    t_parent (task_at s' ?p) = None \<and>
    (\<forall>i < ?p. task_at s' i =
      (if i \<in> set (children k) then (task_at ?s1 i)\<lparr>t_parent := Some ?p\<rparr> else task_at ?s1 i))"
    by (intro adopt_ok [OF inv1 s1(1) _ ok(1) s1(3)]) (simp_all add: s1(2))
  then obtain s' where s': "adopt ?p (children k) ?s1 = (Inr (), s')" "tasks_inv {} (tasks s')"
    "length (tasks s') = Suc ?p" "shape (t_class (task_at s' ?p)) = shape k"
    "\<forall>i < ?p. task_at s' i =
      (if i \<in> set (children k) then (task_at ?s1 i)\<lparr>t_parent := Some ?p\<rparr> else task_at ?s1 i)"
    using s1(2) by auto
  have "new_composite k s = (Inr ?p, s')"
    using ok s'(1) by (auto simp: new_composite_def alloc_def Let_def)
  with s' s1(4) show ?thesis by auto
qed

lemma new_composite_error:
  assumes "\<not> (distinct (children k) \<and> (\<forall>c \<in> set (children k). \<not> (live_parent s c \<and> \<not> is_complete s c)))"
  shows "\<exists>e. new_composite k s = (Inl e, s) \<and> e \<in> {duplicate_children, shared_child}"
  using assms by (auto simp: new_composite_def Let_def)

lemma new_composite_inv:
  assumes "tasks_inv {} (tasks s)" and "fresh_class k" "children k \<noteq> []"
    and "\<forall>c \<in> set (children k). c < length (tasks s)"
  shows "tasks_inv {} (tasks (snd (new_composite k s)))"
proof (cases "distinct (children k) \<and> (\<forall>c \<in> set (children k). \<not> (live_parent s c \<and> \<not> is_complete s c))")
  case True
  with new_composite_ok [OF assms(1-4)] show ?thesis by auto
next
  case False
  from new_composite_error [OF this] assms(1) show ?thesis by auto
qed

text \<open>With no children a composite is complete when its constructor returns.\<close>

lemma empty_composite_inv:
  assumes inv: "tasks_inv {} (tasks s)" and k: "k = WhenAll [] 0 None \<or> k = WhenAny []"
  shows "tasks_inv {} (tasks (snd (finish_if_empty [] (new_composite k s))))"
proof -
  have ch: "children k = []" using k by auto
  have eq: "tasks (snd (finish_if_empty [] (new_composite k s))) =
      tasks s @ [(new_task k)\<lparr>t_result := PList [], t_complete := True\<rparr>]"
    using ch by (simp add: finish_if_empty_def new_composite_def alloc_def)
  show ?thesis
    unfolding eq by (rule tasks_inv_append [OF inv]) (use k in \<open>auto simp: new_task_def class_ok.simps\<close>)
qed

section \<open>Reachable stores\<close>

text \<open>
  The operations the runtime context performs on tasks: it creates plain tasks, completes, fails and
  cancels them when a history event arrives, counts the attempts of a retried task, ties a retry
  timer to its task, and builds composites.
\<close>

fun is_retryable :: "task_class \<Rightarrow> bool" where
  "is_retryable (Retryable ri) = True"
| "is_retryable k = False"

inductive store_step :: "'a store_scheme \<Rightarrow> 'a store_scheme \<Rightarrow> bool" where
  create: "\<not> is_composite k \<Longrightarrow> store_step s (snd (alloc k s))"
| complete: "t < length (tasks s) \<Longrightarrow> \<not> is_composite (t_class (task_at s t)) \<Longrightarrow>
    store_step s (snd (task_complete t v s))"
| fail: "t < length (tasks s) \<Longrightarrow> \<not> is_composite (t_class (task_at s t)) \<Longrightarrow>
    store_step s (snd (task_fail t msg d s))"
| cancel: "t < length (tasks s) \<Longrightarrow> \<not> is_composite (t_class (task_at s t)) \<Longrightarrow>
    store_step s (snd (task_cancel t e s))"
| attempt: "t < length (tasks s) \<Longrightarrow> t_class (task_at s t) = Retryable ri \<Longrightarrow>
    store_step s (upd_task t (\<lambda>x. x\<lparr>t_class := Retryable ri'\<rparr>) s)"
| retry_timer: "t < length (tasks s) \<Longrightarrow>
    (\<And>q. r = Some q \<Longrightarrow> q < length (tasks s) \<and> is_retryable (t_class (task_at s q))) \<Longrightarrow>
    store_step s (upd_task t (\<lambda>x. x\<lparr>t_retryable_parent := r\<rparr>) s)"
| waiters: "store_step s (s\<lparr>pending_events := pe\<rparr>)"
| all: "set cs \<subseteq> {..<length (tasks s)} \<Longrightarrow> store_step s (snd (when_all cs s))"
| any: "set cs \<subseteq> {..<length (tasks s)} \<Longrightarrow> store_step s (snd (when_any cs s))"
| event: "e < length (tasks s) \<Longrightarrow> t < length (tasks s) \<Longrightarrow>
    store_step s (snd (external_event_with_timeout e t name timeout key s))"

definition empty_store :: store where
  "empty_store = \<lparr>tasks = [], pending_events = []\<rparr>"

definition store_reach :: "store \<Rightarrow> bool" where
  "store_reach s \<longleftrightarrow> rtranclp store_step empty_store s"

lemmas completion_defs = task_complete_def task_fail_def task_cancel_def

lemma when_all_inv:
  assumes "tasks_inv {} (tasks s)" and "set cs \<subseteq> {..<length (tasks s)}"
  shows "tasks_inv {} (tasks (snd (when_all cs s)))"
proof (cases "cs = []")
  case True
  with empty_composite_inv [OF assms(1)] show ?thesis by (simp add: when_all_def)
next
  case False
  then have "snd (finish_if_empty cs r) = snd r" for r :: "tref res \<times> 'a store_scheme"
    by (cases r) (auto simp: finish_if_empty_def split: sum.split)
  with False assms show ?thesis
    unfolding when_all_def by (auto intro!: new_composite_inv)
qed

lemma when_any_inv:
  assumes "tasks_inv {} (tasks s)" and "set cs \<subseteq> {..<length (tasks s)}"
  shows "tasks_inv {} (tasks (snd (when_any cs s)))"
proof (cases "cs = []")
  case True
  with empty_composite_inv [OF assms(1)] show ?thesis by (simp add: when_any_def)
next
  case False
  then have "snd (finish_if_empty cs r) = snd r" for r :: "tref res \<times> 'a store_scheme"
    by (cases r) (auto simp: finish_if_empty_def split: sum.split)
  with False assms show ?thesis
    unfolding when_any_def by (auto intro!: new_composite_inv)
qed

lemma completion_inv:
  assumes "tasks_inv {} (tasks s)" and "t < length (tasks s)" and "\<not> is_composite (t_class (task_at s t))"
  shows "tasks_inv {} (tasks (snd (task_complete t v s)))"
    and "tasks_inv {} (tasks (snd (task_fail t msg d s)))"
    and "tasks_inv {} (tasks (snd (task_cancel t e s)))"
  using notify_parent_ok [OF assms(1,2) _ assms(3), of "\<lambda>x. x\<lparr>t_result := v, t_complete := True\<rparr>"]
    notify_parent_ok [OF assms(1,2) _ assms(3), of "\<lambda>x. x\<lparr>t_exception := Some (task_failed_error msg d), t_complete := True\<rparr>"]
    notify_parent_ok [OF assms(1,2) _ assms(3), of "\<lambda>x. x\<lparr>t_exception := Some e, t_complete := True\<rparr>"] assms(1)
  by (auto simp: completion_defs is_complete_def)

lemma plain_update_inv:
  assumes "tasks_inv {} (tasks s)" and "t < length (tasks s)"
    and "outlook x = outlook (task_at s t)"
    and "t_class x = t_class (task_at s t) \<or> (\<not> is_composite (t_class x) \<and> \<not> is_composite (t_class (task_at s t)))"
  shows "tasks_inv {} ((tasks s)[t := x])"
proof (rule tasks_inv_update [OF assms(1-3)])
  have nc: "children k = []" if "\<not> is_composite k" for k using that by (cases k) simp_all
  show "children (t_class x) = children (t_class (task_at s t))" using assms(4) nc by metis
  show "class_ok {} (tasks s) t x"
  proof (cases "t_class x = t_class (task_at s t)")
    case True
    have eq: "t_complete x = t_complete (task_at s t)" "t_result x = t_result (task_at s t)"
      "t_exception x = t_exception (task_at s t)" using assms(3) by (simp_all add: outlook_def)
    from tasks_invD(2) [OF assms(1,2)] show ?thesis unfolding class_ok.simps by (simp only: True eq)
  next
    case False
    with assms(4) show ?thesis by (cases "t_class x") (simp_all add: class_ok.simps)
  qed
qed simp

lemma store_step_inv:
  assumes "store_step s s'" and "tasks_inv {} (tasks s)"
  shows "tasks_inv {} (tasks s')"
  using assms
proof cases
  case (create k)
  then show ?thesis
    using alloc_ok [OF assms(2), of k] by (cases k) simp_all
next
  case (attempt t ri ri')
  then show ?thesis using plain_update_inv [OF assms(2)] by (simp add: outlook_def)
next
  case (retry_timer t r)
  then show ?thesis using plain_update_inv [OF assms(2)] by (simp add: outlook_def)
next
  case (event e t name timeout key)
  then show ?thesis
    unfolding external_event_with_timeout_def using assms(2) by (auto intro!: new_composite_inv)
qed (use assms(2) in \<open>simp_all add: completion_inv when_all_inv when_any_inv\<close>)

interpretation task_store: step_invariant empty_store store_step "\<lambda>s. tasks_inv {} (tasks s)"
  by unfold_locales (simp_all add: empty_store_def store_step_inv)

lemma store_reach_inv: "store_reach s \<Longrightarrow> tasks_inv {} (tasks s)"
  unfolding store_reach_def by (rule task_store.reachable_inv)

lemma store_reach_step: "store_reach s \<Longrightarrow> store_step s s' \<Longrightarrow> store_reach s'"
  unfolding store_reach_def by (rule rtranclp.rtrancl_into_rtrancl)

lemma store_reach_empty: "store_reach empty_store"
  by (simp add: store_reach_def)

lemma store_reach_class:
  "store_reach s \<Longrightarrow> t < length (tasks s) \<Longrightarrow> class_ok {} (tasks s) t (task_at s t)"
  by (rule tasks_invD(2) [OF store_reach_inv])

section \<open>The contracts\<close>

text \<open>The store of the witnesses: three tasks, a \<open>when_all\<close> of the first two and a \<open>when_any\<close>.\<close>

definition demo_tasks :: store where
  "demo_tasks = snd (alloc Timer (snd (alloc Completable (snd (alloc Completable empty_store)))))"

lemma demo_tasks_reach: "store_reach demo_tasks"
  unfolding demo_tasks_def
  by (rule store_reach_step [OF _ store_step.create], rule store_reach_step [OF _ store_step.create],
      rule store_reach_step [OF store_reach_empty store_step.create]) simp_all

lemma demo_tasks_eval: "demo_tasks =
  \<lparr>tasks = [new_task Completable, new_task Completable, new_task Timer], pending_events = []\<rparr>"
  by (simp add: demo_tasks_def alloc_def empty_store_def)

lemma demo_all_reach: "store_reach (snd (when_all [0, 1] demo_tasks))"
  by (rule store_reach_step [OF demo_tasks_reach store_step.all]) (simp add: demo_tasks_eval)

lemma demo_any_reach: "store_reach (snd (when_any [1, 2] demo_tasks))"
  by (rule store_reach_step [OF demo_tasks_reach store_step.any]) (simp add: demo_tasks_eval)

lemma demo_event_reach: "store_reach (snd (external_event_with_timeout 0 2 ''ev'' None ''ev'' demo_tasks))"
  by (rule store_reach_step [OF demo_tasks_reach store_step.event]) (simp_all add: demo_tasks_eval)

lemmas demo_defs = demo_tasks_eval when_all_def when_any_def external_event_with_timeout_def
  new_composite_def finish_if_empty_def alloc_def upd_task_def is_complete_def is_failed_def new_task_def
  live_parent_def Let_def

lemma when_all_iff_children:
  assumes "store_reach s" and "p < length (tasks s)" and "t_class (task_at s p) = WhenAll cs n pe"
  shows "is_complete s p \<longleftrightarrow> (\<forall>c \<in> set cs. is_complete s c)"
proof (cases "is_complete s p")
  case True
  with store_reach_class [OF assms(1,2)] assms(3) show ?thesis by (simp add: class_ok.simps is_complete_def)
next
  case False
  with store_reach_class [OF assms(1,2)] assms(3) have n: "card (delivered {} (tasks s) p cs) < length cs"
    by (simp add: class_ok.simps is_complete_def)
  have "\<not> (\<forall>c \<in> set cs. is_complete s c)"
  proof
    assume "\<forall>c \<in> set cs. is_complete s c"
    then have "delivered {} (tasks s) p cs = set cs" by (auto simp: delivered_def is_complete_def)
    moreover have "distinct cs"
      using tasks_invD(1) [OF store_reach_inv [OF assms(1)] assms(2)] assms(3) by (simp add: links_ok_def)
    ultimately show False using n by (simp add: distinct_card)
  qed
  with False show ?thesis by blast
qed

text \<open>
  C6. A \<open>when_all\<close> never hangs and never fires early: in every reachable store it is complete
  exactly when all its children are. When complete it has failed exactly when a child has, its
  exception is then the exception of a child, and otherwise its result is the list of the children's
  results in the order they were passed.
\<close>

theorem when_all_complete_iff:
  assumes "store_reach s" and "p < length (tasks s)" and "t_class (task_at s p) = WhenAll cs n pe"
  shows "(is_complete s p \<longleftrightarrow> (\<forall>c \<in> set cs. is_complete s c)) \<and>
    (is_complete s p \<longrightarrow> (is_failed s p \<longleftrightarrow> (\<exists>c \<in> set cs. is_failed s c))) \<and>
    (is_failed s p \<longrightarrow> is_complete s p \<and> (\<exists>c \<in> set cs. get_exception s c = get_exception s p)) \<and>
    (is_complete s p \<and> \<not> is_failed s p \<longrightarrow>
       get_result s p = Inr (PList (map (\<lambda>c. t_result (task_at s c)) cs)))"
proof -
  have ok: "class_ok {} (tasks s) p (task_at s p)" and l: "links_ok (tasks s) p"
    using assms(1,2) by (simp_all add: store_reach_class tasks_invD(1) [OF store_reach_inv])
  have fc: "is_failed s p \<Longrightarrow> is_complete s p"
    using l by (auto simp: links_ok_def is_failed_def is_complete_def)
  show ?thesis
  proof (cases "is_complete s p")
    case True
    show ?thesis
    proof (cases "t_exception (task_at s p)")
      case None
      with ok assms(3) True show ?thesis
        by (auto simp: class_ok.simps is_complete_def is_failed_def get_result_def)
    next
      case (Some e)
      with ok assms(3) True have all: "\<forall>c \<in> set cs. is_complete s c"
        and ex: "\<exists>c \<in> set cs. t_exception (task_at s c) = Some e"
        by (auto simp: class_ok.simps is_complete_def)
      have "get_exception s c = get_exception s p \<and> is_failed s c" if "t_exception (task_at s c) = Some e" for c
        using that Some by (simp add: get_exception_def is_failed_def)
      with ex have "\<exists>c \<in> set cs. get_exception s c = get_exception s p \<and> is_failed s c" by blast
      moreover have "is_failed s p" using Some by (simp add: is_failed_def)
      ultimately show ?thesis using all True by blast
    qed
  next
    case False
    with when_all_iff_children [OF assms] have "\<not> (\<forall>c \<in> set cs. is_complete s c)" by blast
    with False fc show ?thesis by blast
  qed
qed

theorem when_all_complete_iff_witness:
  "let s = snd (when_all [0, 1] demo_tasks) in
     t_class (task_at s 3) = WhenAll [0, 1] 0 None \<and> \<not> is_complete s 3 \<and>
     (is_complete s 3 \<longleftrightarrow> (\<forall>c \<in> {0, 1}. is_complete s c))"
proof -
  have "t_class (task_at (snd (when_all [0, 1] demo_tasks)) 3) = WhenAll [0, 1] 0 None"
    "3 < length (tasks (snd (when_all [0, 1] demo_tasks)))"
    "\<not> is_complete (snd (when_all [0, 1] demo_tasks)) 3"
    by (simp_all add: demo_defs)
  with when_all_complete_iff [OF demo_all_reach, of 3 "[0, 1]" 0 None] show ?thesis by (simp add: Let_def)
qed

text \<open>
  Completions always return: completing, failing or cancelling a task in a reachable store
  never runs into the recursion limit and raises nothing, except that completing or failing a
  task that is already complete raises its \<open>ValueError\<close>; cancelling such a task does nothing.
\<close>

theorem completion_returns:
  assumes "store_reach s" and "t < length (tasks s)" and "\<not> is_composite (t_class (task_at s t))"
  shows "fst (task_complete t v s) = (if is_complete s t then Inl already_completed else Inr ()) \<and>
    fst (task_fail t msg d s) = (if is_complete s t then Inl already_completed else Inr ()) \<and>
    fst (task_cancel t e s) = Inr () \<and>
    (is_complete s t \<longrightarrow> snd (task_complete t v s) = s \<and> snd (task_fail t msg d s) = s \<and>
       snd (task_cancel t e s) = s)"
  using notify_parent_ok [OF store_reach_inv [OF assms(1)] assms(2) _ assms(3), of "\<lambda>x. x\<lparr>t_result := v, t_complete := True\<rparr>"]
    notify_parent_ok [OF store_reach_inv [OF assms(1)] assms(2) _ assms(3), of "\<lambda>x. x\<lparr>t_exception := Some (task_failed_error msg d), t_complete := True\<rparr>"]
    notify_parent_ok [OF store_reach_inv [OF assms(1)] assms(2) _ assms(3), of "\<lambda>x. x\<lparr>t_exception := Some e, t_complete := True\<rparr>"]
  by (auto simp: completion_defs is_complete_def)

theorem completion_returns_witness:
  "fst (task_complete 0 (PInt 5) (snd (when_all [0, 1] demo_tasks))) = Inr ()"
  using completion_returns [OF demo_all_reach, of 0 "PInt 5"] by (simp add: demo_defs)

text \<open>
  A \<open>when_any\<close> is complete exactly when one of its children is (at once when it has none), it
  never fails, and its result is a complete child.
\<close>

theorem when_any_complete_iff:
  assumes "store_reach s" and "p < length (tasks s)" and "t_class (task_at s p) = WhenAny cs"
  shows "(is_complete s p \<longleftrightarrow> cs = [] \<or> (\<exists>c \<in> set cs. is_complete s c)) \<and> \<not> is_failed s p \<and>
    (is_complete s p \<and> cs \<noteq> [] \<longrightarrow> (\<exists>c \<in> set cs. is_complete s c \<and> get_result s p = Inr (PTask c)))"
proof -
  have ok: "class_ok {} (tasks s) p (task_at s p)" and l: "links_ok (tasks s) p"
    using assms(1,2) by (simp_all add: store_reach_class tasks_invD(1) [OF store_reach_inv])
  have nf: "\<not> is_failed s p"
    using ok l assms(3) by (auto simp: links_ok_def class_ok.simps is_failed_def)
  show ?thesis
    using ok assms(3) nf
    by (cases "is_complete s p")
      (auto simp: class_ok.simps is_complete_def is_failed_def get_result_def delivered_def)
qed

theorem when_any_complete_iff_witness:
  "let s = snd (when_any [1, 2] demo_tasks) in \<not> is_complete s 3 \<and> \<not> is_failed s 3"
proof -
  have "t_class (task_at (snd (when_any [1, 2] demo_tasks)) 3) = WhenAny [1, 2]"
    "3 < length (tasks (snd (when_any [1, 2] demo_tasks)))"
    "\<not> is_complete (snd (when_any [1, 2] demo_tasks)) 3"
    by (simp_all add: demo_defs)
  with when_any_complete_iff [OF demo_any_reach, of 3 "[1, 2]"] show ?thesis by (simp add: Let_def)
qed

text \<open>
  The first completion wins a \<open>when_any\<close>: when a plain task completes while the \<open>when_any\<close> over it
  is pending, the \<open>when_any\<close> completes in the same call with exactly that task as its result.
\<close>

lemma when_any_first_wins:
  assumes "store_reach s" and "p < length (tasks s)" and "t_class (task_at s p) = WhenAny cs"
    and "\<not> is_complete s p" and "t \<in> set cs" and "\<not> is_composite (t_class (task_at s t))"
  shows "get_result (snd (task_complete t v s)) p = Inr (PTask t)"
proof -
  note inv = store_reach_inv [OF assms(1)]
  have ok: "class_ok {} (tasks s) p (task_at s p)" and l: "links_ok (tasks s) p"
    using assms(1,2) by (simp_all add: store_reach_class tasks_invD(1) [OF store_reach_inv])
  then have none: "\<not> t_complete (task_at s c)" and par: "t_parent (task_at s c) = Some p"
    if "c \<in> set cs" for c
    using assms(3,4) that by (auto simp: class_ok.simps is_complete_def delivered_def waits_ok_def)
  have tp: "t < p" using l assms(3,5) by (simp add: links_ok_def)
  let ?f = "\<lambda>x. x\<lparr>t_result := v, t_complete := True\<rparr>"
  have "\<exists>s'. notify_parent t (upd_task t ?f s) = (Inr (), s') \<and> tasks_inv {} (tasks s') \<and>
      keeps (\<lambda>i. i \<noteq> t \<and> (\<forall>q. t_parent (task_at s t) = Some q \<longrightarrow> i < q)) (tasks s) (tasks s') \<and>
      task_at s' t = ?f (task_at s t)"
    by (rule notify_parent_ok [OF inv]) (use tp assms(2,6) none [OF assms(5)] in simp_all)
  then obtain s' where s': "notify_parent t (upd_task t ?f s) = (Inr (), s')" "tasks_inv {} (tasks s')"
    "keeps (\<lambda>i. i \<noteq> t \<and> (\<forall>q. t_parent (task_at s t) = Some q \<longrightarrow> i < q)) (tasks s) (tasks s')"
    "task_at s' t = ?f (task_at s t)" by blast
  have p': "p < length (tasks s')" using s'(3) assms(2) by (simp add: keeps_def ties_def)
  have "shape (t_class (task_at s' p)) = shape (WhenAny cs)" using s'(3) assms(3) by (simp add: keeps_def ties_def)
  then have k': "t_class (task_at s' p) = WhenAny cs" by (cases "t_class (task_at s' p)") auto
  have only: "c = t" if c: "c \<in> set cs" "t_complete (task_at s' c)" for c
  proof (rule ccontr)
    assume "c \<noteq> t"
    moreover have "c < p" using l assms(3) c(1) by (simp add: links_ok_def)
    ultimately have "task_at s' c = task_at s c" using s'(3) par [OF assms(5)] by (simp add: keeps_def ties_def)
    with none c show False by simp
  qed
  have ct: "t_complete (task_at s' t)" by (simp add: s'(4))
  note ok' = tasks_invD(2) [OF s'(2) p']
  have cp: "t_complete (task_at s' p)"
  proof (rule ccontr)
    assume "\<not> t_complete (task_at s' p)"
    with ok' k' have "delivered {} (tasks s') p cs = {}" by (simp add: class_ok.simps)
    with ct assms(5) show False by (simp add: delivered_def)
  qed
  with ok' k' assms(5) obtain c where "c \<in> set cs" "t_complete (task_at s' c)"
    "t_result (task_at s' p) = PTask c" "t_exception (task_at s' p) = None"
    by (auto simp: class_ok.simps)
  with only cp have "t_complete (task_at s' p) \<and> t_exception (task_at s' p) = None \<and> t_result (task_at s' p) = PTask t"
    by metis
  moreover have "snd (task_complete t v s) = s'"
    using s'(1) none [OF assms(5)] by (simp add: task_complete_def is_complete_def)
  ultimately show ?thesis by (simp add: get_result_def)
qed

lemma when_any_first_wins_witness:
  "get_result (snd (task_complete 2 PNone (snd (when_any [1, 2] demo_tasks)))) 3 = Inr (PTask 2)"
  by (rule when_any_first_wins [OF demo_any_reach, of 3 "[1, 2]" 2 PNone]) (simp_all add: demo_defs)

text \<open>
  An external event with a timeout is complete exactly when its event task or its timer is. It
  then has the outcome of the event task, or it has failed with the \<open>TimeoutError\<close> that names the
  event and the timeout, and then the timer has fired.
\<close>

lemma external_event_outcome:
  assumes "store_reach s" and "p < length (tasks s)"
    and "t_class (task_at s p) = ExternalEvent e t name timeout key"
  shows "(is_complete s p \<longleftrightarrow> is_complete s e \<or> is_complete s t) \<and>
    (is_complete s p \<longrightarrow> is_complete s e \<and> get_result s p = get_result s e \<or>
       is_complete s t \<and> get_result s p = Inl (exc TimeoutError (timeout_message timeout name)))"
proof -
  have ok: "class_ok {} (tasks s) p (task_at s p)" by (rule store_reach_class [OF assms(1,2)])
  show ?thesis
  proof (cases "is_complete s p")
    case False
    with ok assms(3) show ?thesis by (auto simp: class_ok.simps delivered_def is_complete_def)
  next
    case True
    with ok assms(3) show ?thesis
      by (auto simp: class_ok.simps is_complete_def get_result_def split: option.split)
  qed
qed

lemma external_event_outcome_witness:
  "\<not> is_complete (snd (external_event_with_timeout 0 2 ''ev'' None ''ev'' demo_tasks)) 3"
  using external_event_outcome [OF demo_event_reach, of 3 0 2 "''ev''" None "''ev''"]
  by (simp add: demo_defs)

text \<open>
  Building a \<open>when_all\<close>: the same task twice, or a pending task that another pending composite
  waits for, is refused with its \<open>ValueError\<close> and nothing changes; otherwise the result is a new
  task, complete at once exactly when all the children are complete already, and the only change to
  the older tasks is that the children have the new parent.
\<close>

lemma when_all_construction:
  assumes "store_reach s" and "set cs \<subseteq> {..<length (tasks s)}"
  shows "case when_all cs s of
     (Inl e, s') \<Rightarrow> s' = s \<and> (e = duplicate_children \<and> \<not> distinct cs \<or>
        e = shared_child \<and> (\<exists>c \<in> set cs. live_parent s c \<and> \<not> is_complete s c))
   | (Inr p, s') \<Rightarrow> p = length (tasks s) \<and> length (tasks s') = Suc p \<and> distinct cs \<and>
        (\<forall>c \<in> set cs. \<not> (live_parent s c \<and> \<not> is_complete s c)) \<and>
        (is_complete s' p \<longleftrightarrow> (\<forall>c \<in> set cs. is_complete s c)) \<and>
        (\<forall>i < p. task_at s' i =
           (if i \<in> set cs then (task_at s i)\<lparr>t_parent := Some p\<rparr> else task_at s i))"
proof (cases "cs = []")
  case True
  then show ?thesis by (simp add: demo_defs nth_append)
next
  case ne: False
  then have fin: "finish_if_empty cs r = r" for r :: "tref res \<times> store"
    by (cases r) (auto simp: finish_if_empty_def split: sum.split)
  note inv = store_reach_inv [OF assms(1)]
  show ?thesis
  proof (cases "distinct cs \<and> (\<forall>c \<in> set cs. \<not> (live_parent s c \<and> \<not> is_complete s c))")
    case False
    then show ?thesis by (auto simp: when_all_def fin new_composite_def Let_def)
  next
    case True
    let ?p = "length (tasks s)"
    obtain s' where s': "new_composite (WhenAll cs 0 None) s = (Inr ?p, s')" "tasks_inv {} (tasks s')"
      "length (tasks s') = Suc ?p" "shape (t_class (task_at s' ?p)) = shape (WhenAll cs 0 None)"
      "\<forall>i < ?p. task_at s' i = (if i \<in> set cs then (task_at s i)\<lparr>t_parent := Some ?p\<rparr> else task_at s i)"
      using new_composite_ok [OF inv, of "WhenAll cs 0 None"] True ne assms(2) by auto
    have w: "when_all cs s = (Inr ?p, s')" using s'(1) by (simp add: when_all_def fin)
    obtain n pe where k: "t_class (task_at s' ?p) = WhenAll cs n pe"
      using s'(4) shape_WhenAll by metis
    have "store_reach s'"
      using store_reach_step [OF assms(1) store_step.all [OF assms(2)]] w by simp
    then have "is_complete s' ?p \<longleftrightarrow> (\<forall>c \<in> set cs. is_complete s' c)"
      by (rule when_all_iff_children) (use s'(3) k in simp_all)
    moreover have "is_complete s' c \<longleftrightarrow> is_complete s c" if "c \<in> set cs" for c
      using s'(5) assms(2) that by (auto simp: is_complete_def)
    ultimately show ?thesis using w True s'(3,5) by simp
  qed
qed

lemma when_all_construction_witness:
  "fst (when_all [0, 0] demo_tasks) = Inl duplicate_children \<and> fst (when_all [0, 1] demo_tasks) = Inr 3"
  using when_all_construction [OF demo_tasks_reach, of "[0, 0]"]
    when_all_construction [OF demo_tasks_reach, of "[0, 1]"]
  by (simp add: demo_defs)

end
