(* ===== verification/Registry.thy ===== *)
theory Registry
  imports Prelude
begin

text \<open>
  The worker's registry (\<open>_Registry\<close> of \<open>_durabletask/worker.py\<close>): orchestrators by name, versioned
  orchestrators by name and version with the latest version of each name, and activities. A
  registered function is abstract here; a function argument is its \<open>__name__\<close> with the function,
  \<open>None\<close> when missing.
\<close>

record ('o, 'a) registry =
  orchestrators :: "(string, 'o) dict"
  versioned_orchestrators :: "(string, (string, 'o) dict) dict"
  latest_version_name :: "(string, string) dict"
  activities :: "(string, 'a) dict"

definition empty_registry :: "('o, 'a) registry" where
  "empty_registry = \<lparr>orchestrators = [], versioned_orchestrators = [], latest_version_name = [], activities = []\<rparr>"

definition get_name :: "string \<Rightarrow> string res" where
  "get_name n =
     (if n = ''<lambda>'' then Inl (exc ValueError
        ''Cannot infer a name from a lambda function. Please provide a name explicitly.'')
      else Inr n)"

definition add_named_orchestrator ::
  "string \<Rightarrow> 'o \<Rightarrow> string option \<Rightarrow> bool \<Rightarrow> ('o, 'a) registry \<Rightarrow> unit res \<times> ('o, 'a) registry"
where
  "add_named_orchestrator name fn version is_latest r =
    (if name = [] then (Inl (exc ValueError ''A non-empty orchestrator name is required.''), r)
     else case version of
       None \<Rightarrow>
         if dict_has (orchestrators r) name
         then (Inl (exc ValueError (''A '' @ [CHR 39] @ name @ [CHR 39] @ '' orchestrator already exists.'')), r)
         else (Inr (), r\<lparr>orchestrators := dict_set name fn (orchestrators r)\<rparr>)
     | Some v \<Rightarrow>
         let r1 = (if dict_has (versioned_orchestrators r) name then r
                   else r\<lparr>versioned_orchestrators := dict_set name [] (versioned_orchestrators r)\<rparr>);
             vs = the (dict_get (versioned_orchestrators r1) name)
         in if dict_has vs v
            then (Inl (exc ValueError (''The version '' @ [CHR 39] @ v @ [CHR 39] @ '' of '' @ [CHR 39] @ name @
                    [CHR 39] @ '' orchestrator already exists.'')), r1)
            else (let r2 = r1\<lparr>versioned_orchestrators := dict_set name (dict_set v fn vs) (versioned_orchestrators r1)\<rparr>
                  in (Inr (), if is_latest then r2\<lparr>latest_version_name := dict_set name v (latest_version_name r2)\<rparr>
                              else r2)))"

definition add_orchestrator ::
  "(string \<times> 'o) option \<Rightarrow> string option \<Rightarrow> bool \<Rightarrow> ('o, 'a) registry \<Rightarrow> string res \<times> ('o, 'a) registry"
where
  "add_orchestrator fn version is_latest r = (case fn of
     None \<Rightarrow> (Inl (exc ValueError ''An orchestrator function argument is required.''), r)
   | Some (n, f) \<Rightarrow> (case get_name n of
       Inl e \<Rightarrow> (Inl e, r)
     | Inr name \<Rightarrow> (case add_named_orchestrator name f version is_latest r of
         (Inl e, r') \<Rightarrow> (Inl e, r')
       | (Inr _, r') \<Rightarrow> (Inr name, r'))))"

definition get_orchestrator ::
  "('o, 'a) registry \<Rightarrow> string \<Rightarrow> string option \<Rightarrow> ('o option \<times> string option) res"
where
  "get_orchestrator r name version =
    (if dict_has (orchestrators r) name then Inr (dict_get (orchestrators r) name, None)
     else case dict_get (versioned_orchestrators r) name of
       None \<Rightarrow> Inr (None, None)
     | Some vs \<Rightarrow>
         (case (case version of
                  Some v \<Rightarrow> if v \<noteq> [] then Some v else dict_get (latest_version_name r) name
                | None \<Rightarrow> dict_get (latest_version_name r) name) of
            None \<Rightarrow> Inr (None, None)
          | Some v \<Rightarrow>
              if \<not> dict_has vs v then Inl (exc VersionNotRegisteredException [])
              else Inr (dict_get vs v, Some v)))"

definition add_named_activity :: "string \<Rightarrow> 'a \<Rightarrow> ('o, 'a) registry \<Rightarrow> unit res \<times> ('o, 'a) registry" where
  "add_named_activity name fn r =
    (if name = [] then (Inl (exc ValueError ''A non-empty activity name is required.''), r)
     else if dict_has (activities r) name
       then (Inl (exc ValueError (''A '' @ [CHR 39] @ name @ [CHR 39] @ '' activity already exists.'')), r)
     else (Inr (), r\<lparr>activities := dict_set name fn (activities r)\<rparr>))"

definition add_activity :: "(string \<times> 'a) option \<Rightarrow> ('o, 'a) registry \<Rightarrow> string res \<times> ('o, 'a) registry" where
  "add_activity fn r = (case fn of
     None \<Rightarrow> (Inl (exc ValueError ''An activity function argument is required.''), r)
   | Some (n, f) \<Rightarrow> (case get_name n of
       Inl e \<Rightarrow> (Inl e, r)
     | Inr name \<Rightarrow> (case add_named_activity name f r of
         (Inl e, r') \<Rightarrow> (Inl e, r')
       | (Inr _, r') \<Rightarrow> (Inr name, r'))))"

definition get_activity :: "('o, 'a) registry \<Rightarrow> string \<Rightarrow> 'a option" where
  "get_activity r name = dict_get (activities r) name"

end
