(* ===== verification/Context.thy ===== *)
theory Context
  imports Deterministic TaskStore Registry
begin

text \<open>
  The runtime context of an orchestration (\<open>_RuntimeOrchestrationContext\<close> of
  \<open>_durabletask/worker.py\<close>): the bookkeeping of actions, tasks and buffered events, the calls an
  orchestrator makes on it, and the generator protocol (\<open>run\<close>, \<open>resume\<close>).

  An orchestrator is a coinductive program: it returns, raises, yields a value and waits to be
  resumed with a result or an exception, or calls the context and goes on with what the call returned
  or raised. What the application computes between two of these points is part of the continuation.
\<close>

section \<open>Programs\<close>

text \<open>A function reference: a string, or a callable with its \<open>__name__\<close>.\<close>

datatype fn_ref = FnName string | FnObj string

text \<open>
  The time of a timer: a datetime with the offset and the \<open>repr\<close> of its time zone if it is aware,
  a \<open>timedelta\<close>, or a protobuf timestamp.
\<close>

datatype fire_arg = FireAt int "(int \<times> string) option" | FireIn int | FireTs timestamp

datatype ctxop =
    OpCreateTimer fire_arg
  | OpCallActivity fn_ref pyval "retry_policy option" "string option" "int option"
  | OpCallSubOrchestrator fn_ref pyval "string option" "retry_policy option" "string option" "int option"
  | OpWaitForExternalEvent string "fire_arg option"
  | OpWhenAll "tref list"
  | OpWhenAny "tref list"
  | OpGetResult tref
  | OpIsComplete tref
  | OpContinueAsNew pyval bool
  | OpSetCustomStatus pyval
  | OpIsPatched string
  | OpNewGuid
  | OpNow
  | OpNowWithSequence
  | OpIsReplaying
  | OpInstanceId

codatatype gen =
    GReturn pyval
  | GRaise exn
  | GYield pyval "pyval res \<Rightarrow> gen"
  | GCall ctxop "pyval res \<Rightarrow> gen"

datatype gen_state = NoGen | SuspendedGen "pyval res \<Rightarrow> gen" | FinishedGen

section \<open>State\<close>

record ctx = store +
  generator :: gen_state
  previous_task :: pyval
  is_replaying :: bool
  ctx_complete :: bool
  ctx_result :: pyval
  pending_actions :: "(int, action) dict"
  pending_tasks :: "(int, tref) dict"
  sequence_number :: int
  current_utc_datetime :: int
  ctx_instance_id :: string
  ctx_app_id :: "string option"
  completion_status :: "status option"
  received_events :: "(string, pyval list) dict"
  new_input :: pyval
  save_events :: bool
  encoded_custom_status :: "string option"
  orchestrator_version_name :: "string option"
  version_name :: "string option"
  history_patches :: "(string, bool) dict"
  applied_patches :: "(string, bool) dict"
  encountered_patches :: "string list"
  uuid_counter :: nat
  timestamp_counter :: nat

text \<open>\<open>datetime(1000, 1, 1)\<close>.\<close>

definition initial_datetime :: int where
  "initial_datetime = -354285 * us_per_day"

lemma initial_datetime_eval: "isoformat initial_datetime = ''1000-01-01T00:00:00''"
  by code_simp

definition new_context :: "string \<Rightarrow> ctx" where
  "new_context inst = \<lparr>tasks = [], pending_events = [], generator = NoGen, previous_task = PNone,
     is_replaying = True, ctx_complete = False, ctx_result = PNone, pending_actions = [],
     pending_tasks = [], sequence_number = 0, current_utc_datetime = initial_datetime,
     ctx_instance_id = inst, ctx_app_id = None, completion_status = None, received_events = [],
     new_input = PNone, save_events = False, encoded_custom_status = None,
     orchestrator_version_name = None, version_name = None, history_patches = [],
     applied_patches = [], encountered_patches = [], uuid_counter = 0, timestamp_counter = 0\<rparr>"

text \<open>An operation that may raise: what it did before it raised stays done.\<close>

type_synonym ('a, 's) op = "'s \<Rightarrow> 'a res \<times> 's"

definition op_then :: "'a res \<times> 's \<Rightarrow> ('a \<Rightarrow> ('b, 's) op) \<Rightarrow> 'b res \<times> 's" where
  "op_then r f = (case r of (Inl e, s) \<Rightarrow> (Inl e, s) | (Inr x, s) \<Rightarrow> f x s)"

lemma op_then_simps [simp]:
  "op_then (Inl e, s) f = (Inl e, s)" "op_then (Inr x, s) f = f x s"
  by (simp_all add: op_then_def)

section \<open>Bookkeeping\<close>

definition next_sequence_number :: "ctx \<Rightarrow> int \<times> ctx" where
  "next_sequence_number s =
     (let n = sequence_number s + 1 in (n, s\<lparr>sequence_number := n\<rparr>))"

definition add_action :: "action \<Rightarrow> ctx \<Rightarrow> ctx" where
  "add_action a s = s\<lparr>pending_actions := dict_set (act_id a) a (pending_actions s)\<rparr>"

definition add_task :: "int \<Rightarrow> tref \<Rightarrow> ctx \<Rightarrow> ctx" where
  "add_task i t s = s\<lparr>pending_tasks := dict_set i t (pending_tasks s)\<rparr>"

definition completion_router :: "ctx \<Rightarrow> router option" where
  "completion_router s = (case ctx_app_id s of
     Some a \<Rightarrow> if a = [] then None else Some \<lparr>sourceAppID = a, targetAppID = []\<rparr>
   | None \<Rightarrow> None)"

definition encode_result :: "bool \<Rightarrow> pyval \<Rightarrow> string option res" where
  "encode_result is_encoded v =
     (case v of
        PNone \<Rightarrow> Inr None
      | PStr r \<Rightarrow> if is_encoded then Inr (Some r) else res_bind (to_json v) (\<lambda>j. Inr (Some j))
      | _ \<Rightarrow> res_bind (to_json v) (\<lambda>j. Inr (Some j)))"

definition set_complete :: "pyval \<Rightarrow> status \<Rightarrow> bool \<Rightarrow> (unit, ctx) op" where
  "set_complete result st is_encoded s =
    (if ctx_complete s then (Inr (), s)
     else
       let s1 = s\<lparr>ctx_complete := True, completion_status := Some st, pending_actions := [],
                  ctx_result := result\<rparr>
       in case encode_result is_encoded result of
            Inl e \<Rightarrow> (Inl e, s1)
          | Inr result_json \<Rightarrow>
              (case next_sequence_number s1 of (i, s2) \<Rightarrow>
                 (Inr (), add_action
                    (new_complete_workflow_action i st result_json None None (completion_router s2)) s2)))"

definition set_failed :: "exn \<Rightarrow> ctx \<Rightarrow> ctx" where
  "set_failed ex s =
    (if ctx_complete s then s
     else
       let s1 = s\<lparr>ctx_complete := True, pending_actions := [], completion_status := Some FAILED\<rparr>
       in case next_sequence_number s1 of (i, s2) \<Rightarrow>
            add_action (new_complete_workflow_action i FAILED None (Some (new_failure_details ex)) None
                          (completion_router s2)) s2)"

definition set_version_not_registered :: "ctx \<Rightarrow> ctx" where
  "set_version_not_registered s =
    (let s1 = s\<lparr>pending_actions := [], completion_status := Some STALLED\<rparr>
     in case next_sequence_number s1 of (i, s2) \<Rightarrow>
          add_action (new_workflow_version_not_available_action i) s2)"

definition set_continued_as_new :: "pyval \<Rightarrow> bool \<Rightarrow> ctx \<Rightarrow> ctx" where
  "set_continued_as_new v save s =
    (if ctx_complete s then s
     else s\<lparr>ctx_complete := True, pending_actions := [],
            completion_status := Some CONTINUED_AS_NEW, new_input := v, save_events := save\<rparr>)"

text \<open>The buffered events that a continued instance starts with, one event for each value.\<close>

definition carryover_event :: "string \<Rightarrow> pyval \<Rightarrow> event res" where
  "carryover_event name v =
     res_bind (if truthy v then res_bind (to_json v) (\<lambda>j. Inr (Some j)) else Inr None)
       (\<lambda>encoded. Inr (new_event_raised_event name encoded))"

definition carryover_events :: "(string, pyval list) dict \<Rightarrow> event list res" where
  "carryover_events rcv = seq_res (concat (map (\<lambda>(name, vs). map (carryover_event name) vs) rcv))"

definition get_actions :: "(action list, ctx) op" where
  "get_actions s =
    (if completion_status s = Some CONTINUED_AS_NEW then
       (case (if save_events s then res_bind (carryover_events (received_events s)) (\<lambda>es. Inr (Some es))
              else Inr None) of
          Inl e \<Rightarrow> (Inl e, s)
        | Inr carryover \<Rightarrow>
            (case next_sequence_number s of (i, s1) \<Rightarrow>
               (case encode_result False (new_input s1) of
                  Inl e \<Rightarrow> (Inl e, s1)
                | Inr j \<Rightarrow>
                    (Inr [new_complete_workflow_action i CONTINUED_AS_NEW j None carryover
                            (completion_router s1)], s1))))
     else (Inr (map snd (pending_actions s)), s))"

text \<open>
  \<open>_drop_optional_pending_at\<close>: the keys above the dropped one move down by one, in ascending order,
  and a moved action carries its new id.
\<close>

definition shift_key :: "('v \<Rightarrow> int \<Rightarrow> 'v) \<Rightarrow> int \<Rightarrow> (int, 'v) dict \<Rightarrow> (int, 'v) dict" where
  "shift_key renumber old d = (case dict_get d old of
     None \<Rightarrow> d
   | Some v \<Rightarrow> dict_set (old - 1) (renumber v (old - 1)) (dict_del old d))"

definition shift_above :: "('v \<Rightarrow> int \<Rightarrow> 'v) \<Rightarrow> int \<Rightarrow> (int, 'v) dict \<Rightarrow> (int, 'v) dict" where
  "shift_above renumber i d =
     fold (shift_key renumber) (sort (filter (\<lambda>k. k > i) (dict_keys d))) d"

definition drop_optional_pending_at :: "int \<Rightarrow> ctx \<Rightarrow> bool \<times> ctx" where
  "drop_optional_pending_at i s =
    (case dict_get (pending_actions s) i of
       None \<Rightarrow> (False, s)
     | Some a \<Rightarrow>
         if \<not> is_optional_timer_action a then (False, s)
         else (True, s\<lparr>pending_actions :=
                          shift_above (\<lambda>a k. a\<lparr>act_id := k\<rparr>) i (dict_del i (pending_actions s)),
                       pending_tasks := shift_above (\<lambda>t k. t) i (dict_del i (pending_tasks s)),
                       sequence_number := sequence_number s - 1\<rparr>))"

section \<open>Calls of the orchestrator\<close>

definition set_custom_status :: "pyval \<Rightarrow> (unit, ctx) op" where
  "set_custom_status v s = (case v of
     PNone \<Rightarrow> (Inr (), s\<lparr>encoded_custom_status := None\<rparr>)
   | PStr c \<Rightarrow> (Inr (), s\<lparr>encoded_custom_status := Some c\<rparr>)
   | _ \<Rightarrow> (case to_json v of
       Inl e \<Rightarrow> (Inl e, s)
     | Inr j \<Rightarrow> (Inr (), s\<lparr>encoded_custom_status := Some j\<rparr>)))"

definition fire_point_of :: "int \<Rightarrow> fire_arg \<Rightarrow> fire_point res" where
  "fire_point_of now f = (case f of
     FireIn d \<Rightarrow> res_bind (dt_add now d) (\<lambda>t. Inr (AtDatetime t))
   | FireAt t None \<Rightarrow> Inr (AtDatetime t)
   | FireAt t (Some (offset, tz)) \<Rightarrow> res_bind (dt_add t (- offset)) (\<lambda>u. Inr (AtDatetime u))
   | FireTs ts \<Rightarrow> Inr (AtTimestamp ts))"

definition create_timer_internal ::
  "fire_arg \<Rightarrow> tref option \<Rightarrow> timer_origin option \<Rightarrow> (tref, ctx) op" where
  "create_timer_internal f retryable origin s =
    (case next_sequence_number s of (i, s1) \<Rightarrow>
       (case fire_point_of (current_utc_datetime s1) f of
          Inl e \<Rightarrow> (Inl e, s1)
        | Inr fp \<Rightarrow>
            (case alloc Timer (add_action (new_create_timer_action i fp origin) s1) of (t, s2) \<Rightarrow>
               (Inr t, add_task i t (case retryable of
                   None \<Rightarrow> s2
                 | Some r \<Rightarrow> upd_task t (\<lambda>x. x\<lparr>t_retryable_parent := Some r\<rparr>) s2)))))"

definition create_timer :: "fire_arg \<Rightarrow> (tref, ctx) op" where
  "create_timer f = create_timer_internal f None (Some OriginCreateTimer)"

definition ref_name :: "fn_ref \<Rightarrow> string res" where
  "ref_name f = (case f of FnName n \<Rightarrow> Inr n | FnObj n \<Rightarrow> get_name n)"

text \<open>
  \<open>call_activity_function_helper\<close> serves a new call, with an input to encode and perhaps a retry
  policy, and the next attempt of a retried task, whose input is encoded already.
\<close>

datatype call_spec = NewCall pyval "retry_policy option" | RetryCall tref "string option"

definition call_router :: "ctx \<Rightarrow> string option \<Rightarrow> router" where
  "call_router s app_id =
     \<lparr>sourceAppID = (case ctx_app_id s of None \<Rightarrow> [] | Some a \<Rightarrow> a),
      targetAppID = (case app_id of None \<Rightarrow> [] | Some a \<Rightarrow> a)\<rparr>"

definition child_instance_id :: "string \<Rightarrow> int \<Rightarrow> string option \<Rightarrow> string" where
  "child_instance_id parent i inst =
     (case inst of Some n \<Rightarrow> n | None \<Rightarrow> parent @ '':'' @ fmt_04x i)"

definition call_action ::
  "int \<Rightarrow> fn_ref \<Rightarrow> string option \<Rightarrow> bool \<Rightarrow> string option \<Rightarrow> string option \<Rightarrow> string \<Rightarrow> int option \<Rightarrow> ctx \<Rightarrow> (string \<times> action) res"
where
  "call_action i fn inp is_sub inst app_id exec_id scope s =
    (if \<not> is_sub then
       res_bind (ref_name fn) (\<lambda>name.
         Inr (name, new_schedule_task_action i name inp (call_router s app_id) exec_id scope))
     else case fn of
       FnObj n \<Rightarrow> Inl (exc ValueError ''Orchestrator function name must be a string'')
     | FnName name \<Rightarrow>
         Inr (name, new_create_child_workflow_action i name
                      (Some (child_instance_id (ctx_instance_id s) i inst)) inp (call_router s app_id) scope))"

definition call_activity_function_helper ::
  "int option \<Rightarrow> fn_ref \<Rightarrow> call_spec \<Rightarrow> bool \<Rightarrow> string option \<Rightarrow> string option \<Rightarrow> string \<Rightarrow> int option \<Rightarrow> (tref, ctx) op"
where
  "call_activity_function_helper oid fn spec is_sub inst app_id exec_id scope s0 =
    (case (case oid of Some i \<Rightarrow> (i, s0) | None \<Rightarrow> next_sequence_number s0) of (i, s) \<Rightarrow>
      (case (case spec of
               NewCall v rp \<Rightarrow> encode_result False v
             | RetryCall t enc \<Rightarrow> Inr enc) of
         Inl e \<Rightarrow> (Inl e, s)
       | Inr inp \<Rightarrow>
          (case call_action i fn inp is_sub inst app_id exec_id scope s of
             Inl e \<Rightarrow> (Inl e, s)
           | Inr (name, action) \<Rightarrow>
              (let s1 = add_action action s in
               case (case spec of
                       NewCall v None \<Rightarrow> alloc Completable s1
                     | NewCall v (Some rp) \<Rightarrow> alloc (Retryable
                         \<lparr>ri_policy = rp, ri_attempt_count = 1, ri_start_time = current_utc_datetime s1,
                          ri_is_sub_orch = is_sub, ri_task_name = name, ri_encoded_input = inp,
                          ri_task_execution_id = exec_id,
                          ri_instance_id = (if is_sub then Some (child_instance_id (ctx_instance_id s) i inst) else inst),
                          ri_app_id = app_id, ri_propagation = scope\<rparr>) s1
                     | RetryCall t enc \<Rightarrow> (t, s1)) of (t, s2) \<Rightarrow>
                 (Inr t, add_task i t s2)))))"

definition uuid4 :: "(string \<Rightarrow> string) \<Rightarrow> ctx \<Rightarrow> string \<times> ctx" where
  "uuid4 u5 s = (deterministic_uuid_v5 u5 (ctx_instance_id s) (current_utc_datetime s) (uuid_counter s),
     s\<lparr>uuid_counter := uuid_counter s + 1\<rparr>)"

definition now_with_sequence :: "(int, ctx) op" where
  "now_with_sequence s =
     (dt_add (current_utc_datetime s) (int (timestamp_counter s)),
      s\<lparr>timestamp_counter := timestamp_counter s + 1\<rparr>)"

definition call_activity ::
  "(string \<Rightarrow> string) \<Rightarrow> fn_ref \<Rightarrow> pyval \<Rightarrow> retry_policy option \<Rightarrow> string option \<Rightarrow> int option \<Rightarrow> (tref, ctx) op"
where
  "call_activity u5 fn v rp app_id scope s =
    (case next_sequence_number s of (i, s1) \<Rightarrow>
     case uuid4 u5 s1 of (exec_id, s2) \<Rightarrow>
       call_activity_function_helper (Some i) fn (NewCall v rp) False None app_id exec_id scope s2)"

definition call_sub_orchestrator ::
  "fn_ref \<Rightarrow> pyval \<Rightarrow> string option \<Rightarrow> retry_policy option \<Rightarrow> string option \<Rightarrow> int option \<Rightarrow> (tref, ctx) op"
where
  "call_sub_orchestrator fn v inst rp app_id scope s =
    (case next_sequence_number s of (i, s1) \<Rightarrow>
      (case ref_name fn of
         Inl e \<Rightarrow> (Inl e, s1)
       | Inr name \<Rightarrow>
           call_activity_function_helper (Some i) (FnName name) (NewCall v rp) True inst app_id [] scope s1))"

text \<open>
  \<open>wait_for_external_event\<close>: a buffered value completes the task at once; otherwise the task
  joins the waiting list of the folded name.
\<close>

definition buffered :: "string \<Rightarrow> ctx \<Rightarrow> pyval list" where
  "buffered key s = (case dict_get (received_events s) key of None \<Rightarrow> [] | Some vs \<Rightarrow> vs)"

definition take_buffered :: "string \<Rightarrow> ctx \<Rightarrow> (pyval \<times> ctx) option" where
  "take_buffered key s = (case buffered key s of
     [] \<Rightarrow> None
   | v # vs \<Rightarrow> Some (v, s\<lparr>received_events := (if vs = [] then dict_del key (received_events s)
                                        else dict_set key vs (received_events s))\<rparr>))"

definition take_or_wait :: "string \<Rightarrow> tref \<Rightarrow> (unit, ctx) op" where
  "take_or_wait key t s =
    (case take_buffered key s of
       Some (v, s1) \<Rightarrow> task_complete t v s1
     | None \<Rightarrow>
         (Inr (), s\<lparr>pending_events :=
            dict_set key ((case dict_get (pending_events s) key of None \<Rightarrow> [] | Some ts \<Rightarrow> ts) @ [t])
              (pending_events s)\<rparr>))"

definition zero_timeout_error :: "string \<Rightarrow> exn" where
  "zero_timeout_error name = exc TimeoutError
     (''Wait for external event '' @ py_repr name @ '' canceled immediately due to zero timeout'')"

definition is_indefinite :: "fire_arg option \<Rightarrow> bool" where
  "is_indefinite timeout = (case timeout of None \<Rightarrow> True | Some (FireIn d) \<Rightarrow> d < 0 | _ \<Rightarrow> False)"

definition repr_timeout :: "fire_arg option \<Rightarrow> string option" where
  "repr_timeout timeout =
    (if is_indefinite timeout then None
     else case timeout of
       Some (FireIn d) \<Rightarrow> Some (repr_timedelta d)
     | Some (FireAt t None) \<Rightarrow> Some (repr_datetime t None)
     | Some (FireAt t (Some (offset, tz))) \<Rightarrow> Some (repr_datetime t (Some tz))
     | _ \<Rightarrow> None)"

definition wait_for_external_event :: "string \<Rightarrow> fire_arg option \<Rightarrow> (tref, ctx) op" where
  "wait_for_external_event name timeout s0 =
    (case alloc Completable s0 of (t, s1) \<Rightarrow>
     let key = casefold name in
     op_then (take_or_wait key t s1) (\<lambda>_ s2.
       if is_complete s2 t then (Inr t, s2)
       else if timeout = Some (FireIn 0) then
         op_then (task_cancel t (zero_timeout_error name) (unregister_event_task key t s2))
           (\<lambda>_ s3. (Inr t, s3))
       else
         op_then (create_timer_internal
             (if is_indefinite timeout then FireTs OPTIONAL_TIMER_FIRE_AT else the timeout)
             None (Some (OriginExternalEvent name)) s2)
           (\<lambda>timer s3. external_event_with_timeout t timer name (repr_timeout timeout) key s3)))"

definition continue_as_new :: "pyval \<Rightarrow> bool \<Rightarrow> ctx \<Rightarrow> ctx" where
  "continue_as_new v save s = (if ctx_complete s then s else set_continued_as_new v save s)"

definition is_patched_inner :: "string \<Rightarrow> ctx \<Rightarrow> bool \<times> ctx" where
  "is_patched_inner p s = (case dict_get (applied_patches s) p of
     Some b \<Rightarrow> (b, s)
   | None \<Rightarrow>
       if dict_has (history_patches s) p then (True, s\<lparr>applied_patches := dict_set p True (applied_patches s)\<rparr>)
       else if is_replaying s then (False, s\<lparr>applied_patches := dict_set p False (applied_patches s)\<rparr>)
       else (True, s\<lparr>applied_patches := dict_set p True (applied_patches s)\<rparr>))"

definition is_patched :: "string \<Rightarrow> ctx \<Rightarrow> bool \<times> ctx" where
  "is_patched p s = (case is_patched_inner p s of (b, s1) \<Rightarrow>
     (b, if b then s1\<lparr>encountered_patches := encountered_patches s1 @ [p]\<rparr> else s1))"

text \<open>
  One call of the orchestrator on its context, with the value it returns to the program. An object
  that is not a task of this context has no task attributes.
\<close>

definition returning :: "('a \<Rightarrow> pyval) \<Rightarrow> 'a res \<times> ctx \<Rightarrow> pyval res \<times> ctx" where
  "returning f r = (case r of (Inl e, s) \<Rightarrow> (Inl e, s) | (Inr x, s) \<Rightarrow> (Inr (f x), s))"

definition no_attribute :: "string \<Rightarrow> string \<Rightarrow> exn" where
  "no_attribute ty attr = exc AttributeError
     ([CHR 39] @ ty @ [CHR 39] @ '' object has no attribute '' @ [CHR 39] @ attr @ [CHR 39])"

definition on_tasks :: "tref list \<Rightarrow> string \<Rightarrow> (pyval, ctx) op \<Rightarrow> (pyval, ctx) op" where
  "on_tasks ts attr f s =
     (if (\<forall>t \<in> set ts. t < length (tasks s)) then f s else (Inl (no_attribute ''object'' attr), s))"

fun run_op :: "(string \<Rightarrow> string) \<Rightarrow> ctxop \<Rightarrow> (pyval, ctx) op" where
  "run_op u5 (OpCreateTimer f) s = returning PTask (create_timer f s)"
| "run_op u5 (OpCallActivity fn v rp app scope) s = returning PTask (call_activity u5 fn v rp app scope s)"
| "run_op u5 (OpCallSubOrchestrator fn v inst rp app scope) s =
     returning PTask (call_sub_orchestrator fn v inst rp app scope s)"
| "run_op u5 (OpWaitForExternalEvent name timeout) s = returning PTask (wait_for_external_event name timeout s)"
| "run_op u5 (OpWhenAll cs) s = on_tasks cs ''_parent'' (\<lambda>s. returning PTask (when_all cs s)) s"
| "run_op u5 (OpWhenAny cs) s = on_tasks cs ''_parent'' (\<lambda>s. returning PTask (when_any cs s)) s"
| "run_op u5 (OpGetResult t) s = on_tasks [t] ''get_result'' (\<lambda>s. (get_result s t, s)) s"
| "run_op u5 (OpIsComplete t) s = on_tasks [t] ''is_complete'' (\<lambda>s. (Inr (PBool (is_complete s t)), s)) s"
| "run_op u5 (OpContinueAsNew v save) s = (Inr PNone, continue_as_new v save s)"
| "run_op u5 (OpSetCustomStatus v) s = returning (\<lambda>_. PNone) (set_custom_status v s)"
| "run_op u5 (OpIsPatched p) s = (case is_patched p s of (b, s') \<Rightarrow> (Inr (PBool b), s'))"
| "run_op u5 OpNewGuid s = (case uuid4 u5 s of (g, s') \<Rightarrow> (Inr (PStr g), s'))"
| "run_op u5 OpNow s = (Inr (PInt (current_utc_datetime s)), s)"
| "run_op u5 OpNowWithSequence s = returning PInt (now_with_sequence s)"
| "run_op u5 OpIsReplaying s = (Inr (PBool (is_replaying s)), s)"
| "run_op u5 OpInstanceId s = (Inr (PStr (ctx_instance_id s)), s)"

section \<open>Driving the generator\<close>

datatype outcome = Yielded pyval "pyval res \<Rightarrow> gen" | Returned pyval | Raised exn

text \<open>Up to the next yield. An orchestrator that calls the context for ever gives no result.\<close>

partial_function (option) drive :: "(string \<Rightarrow> string) \<Rightarrow> gen \<Rightarrow> ctx \<Rightarrow> (outcome \<times> ctx) option" where
  "drive u5 g s = (case g of
     GReturn v \<Rightarrow> Some (Returned v, s)
   | GRaise e \<Rightarrow> Some (Raised e, s)
   | GYield v k \<Rightarrow> Some (Yielded v k, s)
   | GCall opn k \<Rightarrow> (case run_op u5 opn s of (r, s') \<Rightarrow> drive u5 (k r) s'))"

text \<open>How \<open>run\<close> and \<open>resume\<close> end: normally, with \<open>StopIteration\<close>, or with another exception.\<close>

datatype flow = Continue | Stop pyval | Raise exn

text \<open>
  \<open>send\<close> and \<open>throw\<close> on the generator. A finished generator answers \<open>send\<close> with \<open>StopIteration\<close> and
  re-raises what is thrown into it.
\<close>

definition resume_with :: "(string \<Rightarrow> string) \<Rightarrow> pyval res \<Rightarrow> ctx \<Rightarrow> (outcome \<times> ctx) option" where
  "resume_with u5 r s = (case generator s of
     SuspendedGen k \<Rightarrow> drive u5 (k r) s
   | _ \<Rightarrow> Some (case r of Inr v \<Rightarrow> Returned PNone | Inl e \<Rightarrow> Raised e, s))"

fun type_name :: "pyval \<Rightarrow> string" where
  "type_name PNone = ''NoneType''"
| "type_name (PBool b) = ''bool''"
| "type_name (PInt i) = ''int''"
| "type_name (PStr r) = ''str''"
| "type_name (PList vs) = ''list''"
| "type_name (PDict d) = ''dict''"
| "type_name (PNs d) = ''types.SimpleNamespace''"
| "type_name (PTask t) = ''Task''"

text \<open>\<open>self._previous_task is not None and self._previous_task.is_complete\<close>.\<close>

definition previous_complete :: "ctx \<Rightarrow> bool res" where
  "previous_complete s = (case previous_task s of
     PNone \<Rightarrow> Inr False
   | PTask t \<Rightarrow> (if t < length (tasks s) then Inr (is_complete s t)
                else Inl (no_attribute ''object'' ''is_complete''))
   | v \<Rightarrow> Inl (no_attribute (type_name v) ''is_complete''))"

definition previous_outcome :: "ctx \<Rightarrow> pyval res" where
  "previous_outcome s = (case previous_task s of
     PTask t \<Rightarrow> (if is_failed s t then (case get_exception s t of Inl e \<Rightarrow> Inl e | Inr e \<Rightarrow> Inl e)
                else get_result s t)
   | _ \<Rightarrow> Inr PNone)"

text \<open>\<open>isinstance(next_task, task.Task)\<close>.\<close>

definition is_task :: "ctx \<Rightarrow> pyval \<Rightarrow> bool" where
  "is_task s v = (case v of PTask t \<Rightarrow> t < length (tasks s) | _ \<Rightarrow> False)"

definition not_a_task :: exn where
  "not_a_task = exc TypeError ''The orchestrator generator yielded a non-Task object''"

partial_function (option) resume_loop :: "(string \<Rightarrow> string) \<Rightarrow> ctx \<Rightarrow> (flow \<times> ctx) option" where
  "resume_loop u5 s = (case previous_complete s of
     Inl e \<Rightarrow> Some (Raise e, s)
   | Inr b \<Rightarrow>
       if \<not> b then Some (Continue, s)
       else Option.bind (resume_with u5 (previous_outcome s) s) (\<lambda>(oc, s1). case oc of
         Returned v \<Rightarrow> Some (Stop v, s1\<lparr>generator := FinishedGen\<rparr>)
       | Raised e \<Rightarrow> Some (Raise e, s1\<lparr>generator := FinishedGen\<rparr>)
       | Yielded v k \<Rightarrow>
           (if is_task s1 v then resume_loop u5 (s1\<lparr>generator := SuspendedGen k, previous_task := v\<rparr>)
            else Some (Raise not_a_task, s1\<lparr>generator := SuspendedGen k\<rparr>))))"

definition no_generator :: exn where
  "no_generator = exc TypeError
     ''The orchestrator generator is not initialized! Was the orchestration history corrupted?''"

definition resume :: "(string \<Rightarrow> string) \<Rightarrow> ctx \<Rightarrow> (flow \<times> ctx) option" where
  "resume u5 s = (case generator s of NoGen \<Rightarrow> Some (Raise no_generator, s) | _ \<Rightarrow> resume_loop u5 s)"

definition run :: "(string \<Rightarrow> string) \<Rightarrow> gen \<Rightarrow> ctx \<Rightarrow> (flow \<times> ctx) option" where
  "run u5 g s = Option.bind (drive u5 g s) (\<lambda>(oc, s1). case oc of
     Returned v \<Rightarrow> Some (Stop v, s1\<lparr>generator := FinishedGen\<rparr>)
   | Raised e \<Rightarrow> Some (Raise e, s1\<lparr>generator := FinishedGen\<rparr>)
   | Yielded v k \<Rightarrow>
       (let s2 = s1\<lparr>generator := SuspendedGen k, previous_task := v\<rparr> in
        case previous_complete s2 of
          Inl e \<Rightarrow> Some (Raise e, s2)
        | Inr False \<Rightarrow> Some (Continue, s2)
        | Inr True \<Rightarrow> resume u5 s2))"

end
