(* ===== verification/ToolTypes.thy ===== *)
theory ToolTypes
  imports Json
begin

text \<open>
  The types of the tools that a language model may call (\<open>clients/grpc/_conversation_helpers.py\<close>): the JSON schema
  that is made of an annotation, \<open>_python_type_to_json_schema\<close>, and the coercion of an argument to the
  annotation, \<open>_coerce_and_validate\<close>.

  An annotation is a value of \<open>pytype\<close>: what \<open>get_origin\<close>, \<open>get_args\<close>, \<open>inspect.signature\<close> and
  \<open>get_type_hints\<close> say of it. Floats, bytes and pydantic models are not modelled, nor are
  subclasses: an object has exactly one class. Python is older than 3.14: \<open>X | Y\<close> is not a \<open>typing.Union\<close>.
\<close>

section \<open>Values and types\<close>

datatype toolval =
    VNone | VBool bool | VInt int | VStr string | VList "toolval list" | VTuple "toolval list"
  | VDict "(toolval \<times> toolval) list" | VEnum string string toolval | VObj string "(string \<times> toolval) list"

text \<open>
  \<open>TUnion\<close> says whether it is written \<open>X | Y\<close>. A dataclass has fields with whether they have a default; a plain
  class has the parameters of its constructor (whether required, the hint), its \<open>__slots__\<close> and its own hints.
\<close>

datatype pytype =
    TAny | TNone | TStr | TInt | TBool
  | TUnion bool "pytype list"
  | TLiteral "toolval list"
  | TList "pytype option"
  | TDict "(pytype \<times> pytype) option"
  | TEnum string "(string \<times> toolval) list"
  | TData string "(string \<times> bool \<times> pytype) list"
  | TClass string "(string \<times> bool \<times> pytype option) list" "string list option" "(string \<times> pytype) list"

text \<open>Equality: a bool is a number.\<close>

fun py_eq :: "toolval \<Rightarrow> toolval \<Rightarrow> bool" where
  "py_eq (VBool a) (VInt i) = (i = (if a then 1 else 0))"
| "py_eq (VInt i) (VBool a) = (i = (if a then 1 else 0))"
| "py_eq (VList xs) (VList ys) = list_all2 py_eq xs ys"
| "py_eq (VTuple xs) (VTuple ys) = list_all2 py_eq xs ys"
| "py_eq v w = (v = w)"

definition py_in :: "toolval \<Rightarrow> toolval list \<Rightarrow> bool" where
  "py_in v vs \<longleftrightarrow> (\<exists>w \<in> set vs. py_eq v w)"

lemma py_eq_refl [simp]: "py_eq v v"
  by (induction v) (auto simp: list_all2_same)

text \<open>
  What is not under the source: the text of an object, the constructor of a class, and the signatures of the
  builtin classes (the names of their parameters and whether they are required).
\<close>

record tool_env =
  te_repr :: "toolval \<Rightarrow> string"
  te_construct :: "string \<Rightarrow> (string \<times> toolval) list \<Rightarrow> toolval res"
  te_builtin :: "string \<Rightarrow> (string \<times> bool) list option"

fun tv_repr :: "tool_env \<Rightarrow> toolval \<Rightarrow> string" where
  "tv_repr te VNone = ''None''"
| "tv_repr te (VBool b) = (if b then ''True'' else ''False'')"
| "tv_repr te (VInt i) = str_of_int i"
| "tv_repr te (VStr s) = py_repr s"
| "tv_repr te (VList vs) = ''['' @ join_str '', '' (map (tv_repr te) vs) @ '']''"
| "tv_repr te (VTuple vs) = (case vs of
     [v] \<Rightarrow> ''('' @ tv_repr te v @ '',)'' | _ \<Rightarrow> ''('' @ join_str '', '' (map (tv_repr te) vs) @ '')'')"
| "tv_repr te (VDict d) = ''{'' @ join_str '', '' (map (\<lambda>p. tv_repr te (fst p) @ '': '' @ tv_repr te (snd p)) d) @ ''}''"
| "tv_repr te v = te_repr te v"

definition py_str :: "tool_env \<Rightarrow> toolval \<Rightarrow> string" where
  "py_str te v = (case v of VStr s \<Rightarrow> s | VEnum n m x \<Rightarrow> n @ ''.'' @ m | _ \<Rightarrow> tv_repr te v)"

definition tv_type_name :: "toolval \<Rightarrow> string" where
  "tv_type_name v = (case v of
     VNone \<Rightarrow> ''NoneType'' | VBool b \<Rightarrow> ''bool'' | VInt i \<Rightarrow> ''int'' | VStr s \<Rightarrow> ''str'' | VList vs \<Rightarrow> ''list''
   | VTuple vs \<Rightarrow> ''tuple'' | VDict d \<Rightarrow> ''dict'' | VEnum n m x \<Rightarrow> n | VObj n fs \<Rightarrow> n)"

text \<open>\<open>isinstance\<close> against the builtin classes that annotations name.\<close>

definition is_instance :: "toolval \<Rightarrow> pytype \<Rightarrow> bool" where
  "is_instance v t = (case t of
     TNone \<Rightarrow> v = VNone
   | TStr \<Rightarrow> (case v of VStr s \<Rightarrow> True | _ \<Rightarrow> False)
   | TInt \<Rightarrow> (case v of VInt i \<Rightarrow> True | VBool b \<Rightarrow> True | _ \<Rightarrow> False)
   | TBool \<Rightarrow> (case v of VBool b \<Rightarrow> True | _ \<Rightarrow> False)
   | TEnum n ms \<Rightarrow> (case v of VEnum n' m x \<Rightarrow> n' = n | _ \<Rightarrow> False)
   | TData n fs \<Rightarrow> (case v of VObj n' as \<Rightarrow> n' = n | _ \<Rightarrow> False)
   | TClass n ps sl hs \<Rightarrow> (case v of VObj n' as \<Rightarrow> n' = n | _ \<Rightarrow> False)
   | _ \<Rightarrow> False)"

section \<open>Coercion\<close>

definition is_space :: "char \<Rightarrow> bool" where
  "is_space c = (let n = of_char c :: nat in 9 \<le> n \<and> n \<le> 13 \<or> 28 \<le> n \<and> n \<le> 32 \<or> n = 133 \<or> n = 160)"

definition py_strip :: "string \<Rightarrow> string" where
  "py_strip s = rev (dropWhile is_space (rev (dropWhile is_space s)))"

text \<open>\<open>int(s)\<close> in base ten: a sign, and digits that single underscores may separate.\<close>

fun read_digits :: "bool \<Rightarrow> nat \<Rightarrow> string \<Rightarrow> nat option" where
  "read_digits after acc [] = (if after then Some acc else None)"
| "read_digits after acc (c # s) = (case digit_val c of
     Some d \<Rightarrow> read_digits True (10 * acc + d) s
   | None \<Rightarrow> if c = CHR ''_'' \<and> after then read_digits False acc s else None)"

definition py_int :: "string \<Rightarrow> int res" where
  "py_int s = (let t = py_strip s;
     n = (case t of
        [] \<Rightarrow> None
      | c # r \<Rightarrow> if c = CHR ''-'' then map_option (\<lambda>n. - int n) (read_digits False 0 r)
                else if c = CHR ''+'' then map_option int (read_digits False 0 r)
                else map_option int (read_digits False 0 t))
   in case n of
        Some i \<Rightarrow> Inr i
      | None \<Rightarrow> Inl (exc ValueError (''invalid literal for int() with base 10: '' @ py_repr s)))"

definition coerce_bool :: "tool_env \<Rightarrow> toolval \<Rightarrow> bool res" where
  "coerce_bool te v =
    (let failed = Inl (exc ValueError (''Cannot coerce to bool: '' @ tv_repr te v)) in
     case v of
       VBool b \<Rightarrow> Inr b
     | VInt i \<Rightarrow> Inr (i \<noteq> 0)
     | VStr s \<Rightarrow> (let t = str_lower (py_strip s) in
         if t \<in> set [''true'', ''1'', ''yes'', ''y'', ''on''] then Inr True
         else if t \<in> set [''false'', ''0'', ''no'', ''n'', ''off''] then Inr False
         else failed)
     | _ \<Rightarrow> failed)"

definition coerce_scalar :: "tool_env \<Rightarrow> toolval \<Rightarrow> pytype \<Rightarrow> toolval res" where
  "coerce_scalar te v t = (case t of
     TStr \<Rightarrow> Inr (case v of VStr s \<Rightarrow> v | _ \<Rightarrow> VStr (py_str te v))
   | TInt \<Rightarrow> (case v of
        VBool b \<Rightarrow> Inr (VInt (if b then 1 else 0))
      | VInt i \<Rightarrow> Inr v
      | VStr s \<Rightarrow> map_sum id VInt (py_int (py_strip s))
      | _ \<Rightarrow> Inl (exc ValueError []))
   | TBool \<Rightarrow> map_sum id VBool (coerce_bool te v)
   | _ \<Rightarrow> Inr v)"

definition coerce_enum :: "tool_env \<Rightarrow> toolval \<Rightarrow> string \<Rightarrow> (string \<times> toolval) list \<Rightarrow> toolval res" where
  "coerce_enum te v n ms =
    (let failed = Inl (exc ValueError (''Cannot coerce '' @ tv_repr te v @ '' to '' @ n)) in
     if is_instance v (TEnum n ms) then Inr v
     else case find (\<lambda>m. py_eq (snd m) v) ms of
       Some (m, x) \<Rightarrow> Inr (VEnum n m x)
     | None \<Rightarrow>
        (case v of
           VStr s \<Rightarrow>
             (let name = py_strip s in
              case map_of ms name of
                Some x \<Rightarrow> Inr (VEnum n name x)
              | None \<Rightarrow> (case find (\<lambda>m. str_lower (fst m) = str_lower name) ms of
                   Some (m, x) \<Rightarrow> Inr (VEnum n m x)
                 | None \<Rightarrow> failed))
         | _ \<Rightarrow> failed))"

definition try_literal :: "toolval \<Rightarrow> toolval \<Rightarrow> toolval" where
  "try_literal v target = (case (target, v) of
     (VInt i, VStr s) \<Rightarrow> (case py_int s of Inr j \<Rightarrow> VInt j | Inl e \<Rightarrow> v)
   | _ \<Rightarrow> v)"

definition coerce_literal :: "tool_env \<Rightarrow> toolval \<Rightarrow> toolval list \<Rightarrow> toolval res" where
  "coerce_literal te v lits =
    (if py_in v lits then Inr v
     else case find (\<lambda>c. py_in c lits) (map (try_literal v) lits) of
       Some c \<Rightarrow> Inr c
     | None \<Rightarrow> Inl (exc ValueError (tv_repr te v @ '' not in allowed literals '' @ tv_repr te (VList lits))))"

text \<open>A dict under construction: keys are compared by value, and a list or a dict is not hashable.\<close>

fun hashable :: "toolval \<Rightarrow> bool" where
  "hashable (VList vs) = False"
| "hashable (VDict d) = False"
| "hashable (VTuple vs) = (\<forall>v \<in> set vs. hashable v)"
| "hashable v = True"

fun tv_dict_set :: "toolval \<Rightarrow> toolval \<Rightarrow> (toolval \<times> toolval) list \<Rightarrow> (toolval \<times> toolval) list" where
  "tv_dict_set k v [] = [(k, v)]"
| "tv_dict_set k v ((k', v') # d) = (if py_eq k' k then (k', v) # d else (k', v') # tv_dict_set k v d)"

definition tv_dict_get :: "(toolval \<times> toolval) list \<Rightarrow> string \<Rightarrow> toolval option" where
  "tv_dict_get d k = map_option snd (find (\<lambda>p. py_eq (fst p) (VStr k)) d)"

fun build_dict :: "(toolval \<times> toolval) list \<Rightarrow> (toolval res \<times> toolval res) list \<Rightarrow> toolval res" where
  "build_dict acc [] = Inr (VDict acc)"
| "build_dict acc ((k, v) # ps) = res_bind k (\<lambda>ck. res_bind v (\<lambda>cv.
     if hashable ck then build_dict (tv_dict_set ck cv acc) ps else Inl (exc TypeError ''unhashable type'')))"

definition missing_error :: "string \<Rightarrow> string list \<Rightarrow> exn" where
  "missing_error n names = exc ValueError
     (''Missing required constructor arg(s) for '' @ n @ '': '' @ join_str '', '' names)"

definition construct :: "tool_env \<Rightarrow> string \<Rightarrow> (string \<times> toolval) list \<times> string list \<Rightarrow> toolval res" where
  "construct te n km = (case km of (kwargs, missing) \<Rightarrow>
     if missing \<noteq> [] then Inl (missing_error n missing)
     else case te_construct te n kwargs of
       Inr v \<Rightarrow> Inr v
     | Inl e \<Rightarrow> Inl (exc ValueError (''Failed constructing '' @ n @ '' with '' @
         tv_repr te (VDict (map (\<lambda>p. (VStr (fst p), snd p)) kwargs)) @ '': '' @ ex_msg e)))"

definition any_error :: exn where
  "any_error = exc TypeError ''We cannot handle parameters with type Any''"

text \<open>The last part of the code: a class, and the fall through to the scalars.\<close>

definition scalar_or_instance :: "tool_env \<Rightarrow> toolval \<Rightarrow> pytype \<Rightarrow> string \<Rightarrow> toolval res" where
  "scalar_or_instance te v t n = (case coerce_scalar te v t of
     Inr w \<Rightarrow> Inr w
   | Inl e \<Rightarrow> if is_instance v t then Inr v
             else Inl (exc ValueError (''Expected '' @ n @ '', got '' @ tv_type_name v)))"

definition coerce_builtin :: "tool_env \<Rightarrow> toolval \<Rightarrow> pytype \<Rightarrow> string \<Rightarrow> toolval res" where
  "coerce_builtin te v t n =
    (if is_instance v t then Inr v
     else case v of
       VDict d \<Rightarrow>
         (case te_builtin te n of
            None \<Rightarrow> Inl (exc ValueError (''Cannot inspect constructor for '' @ n))
          | Some ps \<Rightarrow>
             if \<exists>p \<in> set ps. tv_dict_get d (fst p) \<noteq> None then Inl any_error
             else construct te n ([], map fst (filter snd ps)))
     | _ \<Rightarrow> scalar_or_instance te v t n)"

function (sequential) coerce_and_validate :: "tool_env \<Rightarrow> toolval \<Rightarrow> pytype \<Rightarrow> toolval res"
  and coerce_options :: "tool_env \<Rightarrow> toolval \<Rightarrow> exn option \<Rightarrow> pytype list \<Rightarrow> toolval res"
  and coerce_params :: "tool_env \<Rightarrow> (toolval \<times> toolval) list \<Rightarrow> (string \<times> bool \<times> pytype option) list \<Rightarrow>
    ((string \<times> toolval) list \<times> string list) res"
where
  "coerce_and_validate te v TAny = Inl any_error"
| "coerce_and_validate te v (TUnion new opts) = coerce_options te v None opts"
| "coerce_and_validate te v (TLiteral lits) = coerce_literal te v lits"
| "coerce_and_validate te v (TList item) = (case v of
     VList vs \<Rightarrow> map_sum id VList (seq_res (map (\<lambda>x. case item of None \<Rightarrow> Inl any_error
       | Some t \<Rightarrow> coerce_and_validate te x t) vs))
   | _ \<Rightarrow> Inl (exc ValueError (''Expected list, got '' @ tv_type_name v)))"
| "coerce_and_validate te v (TDict None) = (case v of
     VDict d \<Rightarrow> if d = [] then Inr (VDict []) else Inl any_error
   | _ \<Rightarrow> Inl (exc ValueError (''Expected dict, got '' @ tv_type_name v)))"
| "coerce_and_validate te v (TDict (Some (kt, vt))) = (case v of
     VDict d \<Rightarrow> build_dict [] (map (\<lambda>p. (coerce_and_validate te (fst p) kt, coerce_and_validate te (snd p) vt)) d)
   | _ \<Rightarrow> Inl (exc ValueError (''Expected dict, got '' @ tv_type_name v)))"
| "coerce_and_validate te v (TEnum n ms) = coerce_enum te v n ms"
| "coerce_and_validate te v (TData n fs) =
    (if is_instance v (TData n fs) \<or> v = VNone then Inr v
     else Inl (exc ValueError (''Expected '' @ n @ '' dataclass instance, got '' @ tv_type_name v)))"
| "coerce_and_validate te v (TClass n ps sl hs) =
    (if is_instance v (TClass n ps sl hs) then Inr v
     else case v of
       VDict d \<Rightarrow> res_bind (coerce_params te d ps) (construct te n)
     | _ \<Rightarrow> scalar_or_instance te v (TClass n ps sl hs) n)"
| "coerce_and_validate te v TNone = coerce_builtin te v TNone ''NoneType''"
| "coerce_and_validate te v TStr = coerce_builtin te v TStr ''str''"
| "coerce_and_validate te v TInt = coerce_builtin te v TInt ''int''"
| "coerce_and_validate te v TBool = coerce_builtin te v TBool ''bool''"
| "coerce_options te v prev [] = Inl (exc ValueError (case prev of
     None \<Rightarrow> ''Cannot coerce '' @ tv_repr te v | Some e \<Rightarrow> ex_msg e))"
| "coerce_options te v prev (t # ts) =
    (if t = TNone then if v = VNone then Inr VNone else coerce_options te v prev ts
     else case coerce_and_validate te v t of
       Inr w \<Rightarrow> Inr w
     | Inl e \<Rightarrow> coerce_options te v (Some e) ts)"
| "coerce_params te d [] = Inr ([], [])"
| "coerce_params te d ((n, req, hint) # ps) =
    (case tv_dict_get d n of
       Some x \<Rightarrow>
         (case (case hint of None \<Rightarrow> Inl any_error | Some t \<Rightarrow> coerce_and_validate te x t) of
            Inl e \<Rightarrow> Inl e
          | Inr w \<Rightarrow> map_sum id (\<lambda>km. ((n, w) # fst km, snd km)) (coerce_params te d ps))
     | None \<Rightarrow> map_sum id (\<lambda>km. (fst km, if req then n # snd km else snd km)) (coerce_params te d ps))"
  by pat_completeness auto
termination
  by (relation "measure (\<lambda>x. case x of
      Inl (te, v, t) \<Rightarrow> size t
    | Inr (Inl (te, v, l, ts)) \<Rightarrow> size_list size ts
    | Inr (Inr (te, d, ps)) \<Rightarrow> size_list (size_prod (\<lambda>_. 0) (size_prod (\<lambda>_. 0) (size_option size))) ps)")
    auto

section \<open>JSON schemas\<close>

text \<open>The settings for large enumerations: how many members are listed, and whether more are an error.\<close>

record enum_settings =
  es_max_items :: nat
  es_error :: bool

fun to_pyval :: "toolval \<Rightarrow> pyval" where
  "to_pyval VNone = PNone"
| "to_pyval (VBool b) = PBool b"
| "to_pyval (VInt i) = PInt i"
| "to_pyval (VStr s) = PStr s"
| "to_pyval (VList vs) = PList (map to_pyval vs)"
| "to_pyval (VTuple vs) = PList (map to_pyval vs)"
| "to_pyval (VDict d) = PDict (map (\<lambda>p. (case fst p of VStr s \<Rightarrow> s | _ \<Rightarrow> [], to_pyval (snd p))) d)"
| "to_pyval (VEnum n m x) = to_pyval x"
| "to_pyval (VObj n fs) = PNone"

definition json_primitive_type :: "pyval \<Rightarrow> string" where
  "json_primitive_type v = (case v of PNone \<Rightarrow> ''null'' | PBool b \<Rightarrow> ''boolean'' | PInt i \<Rightarrow> ''integer'' | _ \<Rightarrow> ''string'')"

definition schema_type :: "string \<Rightarrow> string \<times> pyval" where
  "schema_type s = (''type'', PStr s)"

text \<open>A literal: its type is named if all values but None share it.\<close>

definition literal_schema :: "toolval list \<Rightarrow> pyval" where
  "literal_schema lits =
    (let vals = map to_pyval lits; types = remdups (map json_primitive_type vals);
         non_null = filter (\<lambda>t. t \<noteq> ''null'') types
     in PDict ((''enum'', PList vals) #
       (if length non_null = 1 then [schema_type (hd non_null)]
        else if types = [''null''] then [schema_type ''null''] else [])))"

definition enum_schema :: "enum_settings \<Rightarrow> string \<Rightarrow> (string \<times> toolval) list \<Rightarrow> pyval res" where
  "enum_schema es n ms =
    (if length ms \<le> es_max_items es
       then Inr (PDict [schema_type ''string'', (''enum'', PList (map (to_pyval \<circ> snd) ms))])
     else if es_error es then Inl (exc ValueError (''Enum '' @ py_repr n @ '' has '' @ str_of_nat (length ms) @ '' members''))
     else Inr (PDict ([schema_type ''string'', (''description'', PStr (n @ '' (enum with '' @ str_of_nat (length ms) @ '' values). ''
         @ ''Provide a valid value. Schema compacted to avoid oversized enum listing.''))] @
       (if ms = [] then [] else [(''examples'', PList (map (to_pyval \<circ> snd) (take 5 ms)))]))))"

definition unsupported :: "string \<Rightarrow> 'a res" where
  "unsupported field = Inl (exc TypeError (''Unsupported type in JSON schema conversion for field '' @ py_repr field))"

text \<open>\<open>get_origin(ptype) is Union and type(None) in get_args(ptype)\<close>.\<close>

definition is_optional :: "pytype \<Rightarrow> bool" where
  "is_optional t = (case t of TUnion new opts \<Rightarrow> \<not> new \<and> TNone \<in> set opts | _ \<Rightarrow> False)"

text \<open>The names that a class requires: those without a default, then again those of its slots or its hints.\<close>

definition class_required :: "(string \<times> bool \<times> pytype option) list \<Rightarrow> string list option \<Rightarrow> (string \<times> pytype) list \<Rightarrow> string list" where
  "class_required ps sl hs = map fst (filter (\<lambda>p. fst (snd p)) ps) @
    (case sl of
       Some ns \<Rightarrow> filter (\<lambda>n. case map_of hs n of None \<Rightarrow> True | Some t \<Rightarrow> \<not> is_optional t) ns
     | None \<Rightarrow> map fst (filter (\<lambda>h. \<not> is_optional (snd h)) hs))"

text \<open>A dict of properties, filled in order; the first exception wins.\<close>

fun set_properties :: "(string \<times> pyval) list \<Rightarrow> (string \<times> pyval res) list \<Rightarrow> (string \<times> pyval) list res" where
  "set_properties d [] = Inr d"
| "set_properties d ((n, Inl e) # ps) = Inl e"
| "set_properties d ((n, Inr s) # ps) = set_properties (dict_set n s d) ps"

lemma size_of_field: "(a, b, t) \<in> set fs \<Longrightarrow> size t \<le> size_list (size_prod (\<lambda>_. 0) (size_prod (\<lambda>_. 0) size)) fs"
  by (erule size_list_estimation') simp

lemma size_of_param:
  "(a, b, Some t) \<in> set ps \<Longrightarrow> size t \<le> size_list (size_prod (\<lambda>_. 0) (size_prod (\<lambda>_. 0) (size_option size))) ps"
  by (erule size_list_estimation') simp

lemma size_of_hint: "(a, t) \<in> set hs \<Longrightarrow> size t \<le> size_list (size_prod (\<lambda>_. 0) size) hs"
  by (erule size_list_estimation') simp

lemma size_of_option: "t \<in> set ts \<Longrightarrow> size t \<le> size_list size ts"
  by (erule size_list_estimation') simp

function (sequential) type_schema :: "enum_settings \<Rightarrow> string \<Rightarrow> pytype \<Rightarrow> pyval res" where
  "type_schema es f TNone = Inr (PDict [schema_type ''null''])"
| "type_schema es f (TUnion False opts) =
    (case filter (\<lambda>t. t \<noteq> TNone) opts of
       [t] \<Rightarrow> if TNone \<in> set opts then type_schema es f t
         else map_sum id (\<lambda>ss. PDict [(''anyOf'', PList ss)]) (seq_res (map (type_schema es f) opts))
     | _ \<Rightarrow> map_sum id (\<lambda>ss. PDict [(''anyOf'', PList ss)]) (seq_res (map (type_schema es f) opts)))"
| "type_schema es f (TLiteral lits) = Inr (literal_schema lits)"
| "type_schema es f (TList None) = Inr (PDict [schema_type ''array''])"
| "type_schema es f (TList (Some t)) =
    map_sum id (\<lambda>s. PDict [schema_type ''array'', (''items'', s)]) (type_schema es (f @ ''[]'') t)"
| "type_schema es f (TDict None) = Inr (PDict [schema_type ''object''])"
| "type_schema es f (TDict (Some (k, v))) =
    (if k = TStr then map_sum id (\<lambda>s. PDict [schema_type ''object'', (''additionalProperties'', s)]) (type_schema es (f @ ''.*'') v)
     else Inr (PDict [schema_type ''object'']))"
| "type_schema es f TStr = Inr (PDict [schema_type ''string''])"
| "type_schema es f TInt = Inr (PDict [schema_type ''integer''])"
| "type_schema es f TBool = Inr (PDict [schema_type ''boolean''])"
| "type_schema es f (TEnum n ms) = enum_schema es n ms"
| "type_schema es f (TData n fs) =
    map_sum id (\<lambda>ps. PDict [schema_type ''object'', (''properties'', PDict ps),
        (''required'', PList (map (PStr \<circ> fst) (filter (\<lambda>p. \<not> fst (snd p)) fs)))])
      (set_properties [] (map (\<lambda>p. (fst p, type_schema es (fst p) (snd (snd p)))) fs))"
| "type_schema es f (TClass n ps sl hs) =
    (let ctor = map (\<lambda>p. (fst p, case snd (snd p) of Some t \<Rightarrow> type_schema es (fst p) t
           | None \<Rightarrow> (case map_of (map (\<lambda>h. (fst h, type_schema es (fst h) (snd h))) hs) (fst p) of
               Some s \<Rightarrow> s | None \<Rightarrow> unsupported (fst p)))) ps;
         own = map (\<lambda>h. (fst h, type_schema es (fst h) (snd h))) hs;
         rest = (case sl of None \<Rightarrow> own
           | Some ns \<Rightarrow> map (\<lambda>m. (m, case map_of own m of Some s \<Rightarrow> s | None \<Rightarrow> unsupported m)) ns)
     in map_sum id (\<lambda>d. if d = [] then PDict [schema_type ''object'']
          else PDict ([schema_type ''object'', (''properties'', PDict d)] @
            (if class_required ps sl hs = [] then [] else [(''required'', PList (map PStr (class_required ps sl hs)))])))
        (set_properties [] (ctor @ rest)))"
| "type_schema es f t = unsupported f"
  by pat_completeness auto
termination
proof (relation "measure (\<lambda>(es, f, t). size t)")
  fix es f opts t ts assume "filter (\<lambda>t. t \<noteq> TNone) opts = t # ts"
  then have "t \<in> set opts" by (metis filter_eq_ConsD in_set_conv_decomp)
  then show "((es, f, t), es, f, TUnion False opts) \<in> measure (\<lambda>(es, f, t). size t)"
    by (simp add: size_list_estimation' less_Suc_eq_le)
qed (auto simp: less_Suc_eq_le intro: size_of_field size_of_option trans_le_add1 [OF size_of_param] trans_le_add2 [OF size_of_hint])

end
