(* ===== verification/CallbackServicer.thy ===== *)
theory CallbackServicer
  imports Json
begin

text \<open>
  The server of an application's callbacks, \<open>_CallbackServicer\<close> of \<open>ext/grpc/_servicer.py\<close>: the registration of
  methods, topics, bindings and jobs, and the dispatch of what the sidecar sends, with \<open>SubscriptionMessage\<close> of
  \<open>common/pubsub/subscription.py\<close>.

  A handler is a function object, with an identity and perhaps a \<open>__name__\<close>. What a handler does is an argument of the
  operations that call it. A subscription is a protobuf message that is shared by the two collections of the
  servicer and changed in place: here the map of topics holds indices into the list. Data are bytes, one
  \<open>char\<close> each.
\<close>

section \<open>State\<close>

datatype cb = Callback (cb_id: nat) (cb_name: "string option")

record topic_rule =
  ru_match :: string
  ru_path :: string

record topic_subscription =
  tp_pubsub :: string
  tp_topic :: string
  tp_metadata :: "(string, string) dict"
  tp_dead_letter :: string
  tp_default :: string
  tp_rules :: "topic_rule list"

record registered_subscription =
  rg_subscription :: topic_subscription
  rg_rules :: "(int \<times> topic_rule) list"

record servicer =
  sv_methods :: "(string, cb) dict"
  sv_topics :: "(string, cb) dict"
  sv_legacy :: "(cb, bool) dict"
  sv_bindings :: "(string, cb) dict"
  sv_jobs :: "(string, cb) dict"
  sv_registered_map :: "(string, nat) dict"
  sv_registered :: "registered_subscription list"
  sv_binding_names :: "string list"
  sv_routes :: "(string \<times> string, cb) dict"
  sv_unvalidated :: "(string, cb list) dict"

definition new_servicer :: servicer where
  "new_servicer = \<lparr>sv_methods = [], sv_topics = [], sv_legacy = [], sv_bindings = [], sv_jobs = [],
     sv_registered_map = [], sv_registered = [], sv_binding_names = [], sv_routes = [], sv_unvalidated = []\<rparr>"

definition DELIMITER :: string where
  "DELIMITER = '':''"

section \<open>Registration\<close>

record rule =
  rule_match :: string
  rule_priority :: int

definition register_method :: "string \<Rightarrow> cb \<Rightarrow> servicer \<Rightarrow> unit res \<times> servicer" where
  "register_method name f s =
    (if dict_has (sv_methods s) name then (Inl (exc ValueError (name @ '' is already registered'')), s)
     else (Inr (), s\<lparr>sv_methods := dict_set name f (sv_methods s)\<rparr>))"

definition register_binding :: "string \<Rightarrow> cb \<Rightarrow> servicer \<Rightarrow> unit res \<times> servicer" where
  "register_binding name f s =
    (if dict_has (sv_bindings s) name then (Inl (exc ValueError (name @ '' is already registered'')), s)
     else (Inr (), s\<lparr>sv_bindings := dict_set name f (sv_bindings s), sv_binding_names := sv_binding_names s @ [name]\<rparr>))"

definition register_job_event :: "string \<Rightarrow> cb \<Rightarrow> servicer \<Rightarrow> unit res \<times> servicer" where
  "register_job_event name f s =
    (if dict_has (sv_jobs s) name
       then (Inl (exc ValueError (''Job event handler for '' @ name @ '' is already registered'')), s)
     else (Inr (), s\<lparr>sv_jobs := dict_set name f (sv_jobs s)\<rparr>))"

text \<open>The arguments of \<open>register_topic\<close>.\<close>

record topic_registration =
  rt_pubsub :: string
  rt_topic :: string
  rt_cb :: cb
  rt_metadata :: "(string, string) dict option"
  rt_dead_letter :: "string option"
  rt_rule :: "rule option"
  rt_disable_validation :: bool
  rt_legacy :: bool

text \<open>\<open>getattr(cb, '__name__', rule.match)\<close>.\<close>

definition rule_path :: "cb \<Rightarrow> rule \<Rightarrow> string" where
  "rule_path f r = (case cb_name f of Some n \<Rightarrow> n | None \<Rightarrow> rule_match r)"

definition registration_path :: "topic_registration \<Rightarrow> string" where
  "registration_path q = (case rt_rule q of None \<Rightarrow> [] | Some r \<Rightarrow> rule_path (rt_cb q) r)"

definition topic_key :: "string \<Rightarrow> string \<Rightarrow> string" where
  "topic_key pubsub topic = pubsub @ DELIMITER @ topic"

definition route_key :: "string \<Rightarrow> string \<Rightarrow> string \<Rightarrow> string" where
  "route_key pubsub topic path = topic_key pubsub topic @ DELIMITER @ path"

definition new_subscription :: "topic_registration \<Rightarrow> registered_subscription" where
  "new_subscription q =
    \<lparr>rg_subscription =
       \<lparr>tp_pubsub = rt_pubsub q, tp_topic = rt_topic q,
        tp_metadata = (case rt_metadata q of None \<Rightarrow> [] | Some m \<Rightarrow> m),
        tp_dead_letter = (case rt_dead_letter q of None \<Rightarrow> [] | Some d \<Rightarrow> d),
        tp_default = (if rt_disable_validation q \<and> rt_rule q = None then rt_topic q else []),
        tp_rules = []\<rparr>,
     rg_rules = []\<rparr>"

definition add_rule :: "cb \<Rightarrow> rule \<Rightarrow> registered_subscription \<Rightarrow> registered_subscription" where
  "add_rule f r g =
    (let rules = sort_key fst (rg_rules g @ [(rule_priority r, \<lparr>ru_match = rule_match r, ru_path = rule_path f r\<rparr>)])
     in g\<lparr>rg_rules := rules, rg_subscription := (rg_subscription g)\<lparr>tp_rules := map snd rules\<rparr>\<rparr>)"

definition map_callback :: "topic_registration \<Rightarrow> servicer \<Rightarrow> servicer" where
  "map_callback q s =
    (let f = rt_cb q;
         s1 = s\<lparr>sv_topics := dict_set (route_key (rt_pubsub q) (rt_topic q) (registration_path q)) f (sv_topics s),
                sv_legacy := dict_set f (rt_legacy q) (sv_legacy s),
                sv_routes := dict_set (rt_pubsub q, if rt_rule q = None then rt_topic q else registration_path q) f
                  (sv_routes s)\<rparr>
     in if rt_disable_validation q
          then s1\<lparr>sv_unvalidated := dict_set (rt_pubsub q)
            ((case dict_get (sv_unvalidated s1) (rt_pubsub q) of None \<Rightarrow> [] | Some fs \<Rightarrow> fs) @ [f]) (sv_unvalidated s1)\<rparr>
        else s1)"

definition find_subscription :: "topic_registration \<Rightarrow> servicer \<Rightarrow> nat \<times> servicer" where
  "find_subscription q s =
    (let key = topic_key (rt_pubsub q) (rt_topic q) in
     case dict_get (sv_registered_map s) key of
       Some i \<Rightarrow> (i, s)
     | None \<Rightarrow> (let i = length (sv_registered s) in
         (i, s\<lparr>sv_registered_map := dict_set key i (sv_registered_map s),
               sv_registered := sv_registered s @ [new_subscription q]\<rparr>)))"

definition register_topic :: "topic_registration \<Rightarrow> servicer \<Rightarrow> unit res \<times> servicer" where
  "register_topic q s =
    (if dict_has (sv_topics s) (route_key (rt_pubsub q) (rt_topic q) (registration_path q))
       then (Inl (exc ValueError (rt_topic q @ '' is already registered with '' @ rt_pubsub q)), s)
     else case find_subscription q (map_callback q s) of
       (i, s1) \<Rightarrow> (Inr (), case rt_rule q of
           None \<Rightarrow> s1
         | Some r \<Rightarrow> s1\<lparr>sv_registered := (sv_registered s1)[i := add_rule (rt_cb q) r (sv_registered s1 ! i)]\<rparr>))"

section \<open>Routing\<close>

definition get_topic_callback :: "string \<Rightarrow> string \<Rightarrow> string \<Rightarrow> servicer \<Rightarrow> cb option" where
  "get_topic_callback pubsub topic path s =
    (case dict_get (sv_topics s) (route_key pubsub topic path) of
       Some f \<Rightarrow> Some f
     | None \<Rightarrow>
      (case dict_get (sv_routes s) (pubsub, path) of
         Some f \<Rightarrow> Some f
       | None \<Rightarrow>
          if path = [] then
            (case dict_get (sv_routes s) (pubsub, topic) of
               Some f \<Rightarrow> Some f
             | None \<Rightarrow> (case dict_get (sv_unvalidated s) pubsub of Some [f] \<Rightarrow> Some f | _ \<Rightarrow> None))
          else None))"

definition list_topic_subscriptions :: "servicer \<Rightarrow> topic_subscription list" where
  "list_topic_subscriptions s = map rg_subscription (sv_registered s)"

definition list_input_bindings :: "servicer \<Rightarrow> string list" where
  "list_input_bindings s = sv_binding_names s"

section \<open>Events\<close>

record topic_event_request =
  te_id :: string
  te_source :: string
  te_type :: string
  te_spec_version :: string
  te_content_type :: string
  te_data :: string
  te_topic :: string
  te_pubsub :: string
  te_path :: string
  te_extensions :: "(string, pyval) dict"

text \<open>
  UTF-8, for the code points that the model has: two bytes above 127 make a code point below 256. What is
  not UTF-8, or has a code point above, is not decoded.
\<close>

fun utf8_decode :: "string \<Rightarrow> string option" where
  "utf8_decode [] = Some []"
| "utf8_decode (c # s) =
    (let n = of_char c :: nat in
     if n < 128 then map_option (Cons c) (utf8_decode s)
     else if n = 194 \<or> n = 195 then
       (case s of
          [] \<Rightarrow> None
        | d # s' \<Rightarrow> (let m = of_char d :: nat in
            if 128 \<le> m \<and> m < 192 then map_option (Cons (char_of ((n - 192) * 64 + (m - 128)))) (utf8_decode s')
            else None))
     else None)"

text \<open>A message that a handler gets: \<open>SubscriptionMessage\<close>, whose data are parsed by their media type.\<close>

record subscription_message =
  sm_id :: string
  sm_source :: string
  sm_type :: string
  sm_spec_version :: string
  sm_content_type :: string
  sm_topic :: string
  sm_pubsub :: string
  sm_raw_data :: string
  sm_extensions :: "(string, pyval) dict"
  sm_data :: "pyval option"
  sm_metadata :: "(string, string) dict"

definition is_json_type :: "string \<Rightarrow> bool" where
  "is_json_type ty \<longleftrightarrow> ty = ''application/json'' \<or> prefix ''application/'' ty \<and> suffix ''+json'' ty"

definition parse_json_bytes :: "string \<Rightarrow> pyval option" where
  "parse_json_bytes raw = (case utf8_decode raw of
     None \<Rightarrow> None
   | Some s \<Rightarrow> (case json_loads s of Inl e \<Rightarrow> None | Inr v \<Rightarrow> Some v))"

definition parse_data_content :: "string \<Rightarrow> string \<Rightarrow> pyval option" where
  "parse_data_content ty raw =
    (if ty = ''application/json'' then parse_json_bytes raw
     else if ty = ''text/plain'' then map_option PStr (utf8_decode raw)
     else if is_json_type ty then parse_json_bytes raw
     else None)"

definition new_subscription_message :: "topic_event_request \<Rightarrow> (string, string) dict \<Rightarrow> subscription_message" where
  "new_subscription_message q md =
    \<lparr>sm_id = te_id q, sm_source = te_source q, sm_type = te_type q, sm_spec_version = te_spec_version q,
     sm_content_type = te_content_type q, sm_topic = te_topic q, sm_pubsub = te_pubsub q, sm_raw_data = te_data q,
     sm_extensions = te_extensions q,
     sm_data = (if te_data q = [] then None else parse_data_content (te_content_type q) (te_data q)),
     sm_metadata = md\<rparr>"

text \<open>The deprecated \<open>v1.Event\<close> of the cloudevents package: the fields that are set on it.\<close>

record legacy_event =
  le_type :: "string option"
  le_id :: string
  le_source :: "string option"
  le_data :: string
  le_content_type :: string
  le_subject :: string
  le_extensions :: "(string, pyval) dict option"

datatype topic_event = LegacyEvent legacy_event | MessageEvent subscription_message

text \<open>\<open>d.update(e)\<close>, item by item.\<close>

definition dict_update :: "('k, 'v) dict \<Rightarrow> ('k \<times> 'v) list \<Rightarrow> ('k, 'v) dict" where
  "dict_update d es = foldl (\<lambda>d p. dict_set (fst p) (snd p) d) d es"

definition metadata_items :: "(string, string) dict \<Rightarrow> (string \<times> pyval) list" where
  "metadata_items md = map (\<lambda>p. (''_metadata_'' @ fst p, PStr (snd p))) md"

definition build_topic_event :: "bool \<Rightarrow> topic_event_request \<Rightarrow> (string, string) dict \<Rightarrow> topic_event" where
  "build_topic_event legacy q md =
    (if legacy then LegacyEvent
       \<lparr>le_type = Some (te_type q), le_id = te_id q, le_source = Some (te_source q), le_data = te_data q,
        le_content_type = te_content_type q, le_subject = te_topic q,
        le_extensions = Some (dict_update (dict_update [] (te_extensions q)) (metadata_items md))\<rparr>
     else MessageEvent (new_subscription_message q md))"

definition uses_legacy :: "servicer \<Rightarrow> cb \<Rightarrow> bool" where
  "uses_legacy s f = (case dict_get (sv_legacy s) f of None \<Rightarrow> True | Some b \<Rightarrow> b)"

text \<open>
  What a handler answers to an event, and what an operation of the server gives: the status code it sets on the
  gRPC context, and the response or the exception.
\<close>

datatype topic_status = StatusSuccess | StatusRetry | StatusDrop

datatype handler_answer = TopicAnswer topic_status | OtherAnswer

type_synonym topic_handlers = "cb \<Rightarrow> topic_event \<Rightarrow> handler_answer res"

type_synonym 'a served = "grpc_code option \<times> 'a res"

definition unimplemented :: "string \<Rightarrow> 'a served" where
  "unimplemented m = (Some UNIMPLEMENTED, Inl (exc NotImplementedError m))"

definition on_topic_event ::
  "topic_handlers \<Rightarrow> topic_event_request \<Rightarrow> (string, string) dict \<Rightarrow> servicer \<Rightarrow> topic_status option served" where
  "on_topic_event run q md s =
    (case get_topic_callback (te_pubsub q) (te_topic q) (te_path q) s of
       None \<Rightarrow> unimplemented (''topic '' @ te_topic q @ '' is not implemented!'')
     | Some f \<Rightarrow> (None, map_sum id (\<lambda>a. case a of TopicAnswer st \<Rightarrow> Some st | OtherAnswer \<Rightarrow> None)
         (run f (build_topic_event (uses_legacy s f) q md))))"

section \<open>Bulk events\<close>

record cloud_payload =
  cp_id :: string
  cp_source :: string
  cp_type :: string
  cp_spec_version :: string
  cp_content_type :: string
  cp_data :: string
  cp_extensions :: "(string, pyval) dict"

record bulk_entry =
  be_id :: string
  be_cloud_event :: "cloud_payload option"
  be_bytes :: "string option"
  be_content_type :: string
  be_metadata :: "(string, string) dict"

record bulk_request =
  bk_pubsub :: string
  bk_topic :: string
  bk_path :: string
  bk_entries :: "bulk_entry list"

definition bulk_entry_legacy_event :: "bulk_entry \<Rightarrow> bulk_request \<Rightarrow> (string, string) dict \<Rightarrow> legacy_event" where
  "bulk_entry_legacy_event e q md =
    (let base = (case be_cloud_event e of
           Some ce \<Rightarrow> dict_update [] (cp_extensions ce)
         | None \<Rightarrow> []);
         ext = dict_update (dict_update base (map (\<lambda>p. (fst p, PStr (snd p))) (be_metadata e))) (metadata_items md);
         ext' = (if ext = [] then None else Some ext)
     in case be_cloud_event e of
          Some ce \<Rightarrow> \<lparr>le_type = Some (cp_type ce), le_id = cp_id ce, le_source = Some (cp_source ce), le_data = cp_data ce,
            le_content_type = cp_content_type ce, le_subject = bk_topic q, le_extensions = ext'\<rparr>
        | None \<Rightarrow> \<lparr>le_type = None, le_id = be_id e, le_source = None,
            le_data = (case be_bytes e of Some b \<Rightarrow> b | None \<Rightarrow> []),
            le_content_type = be_content_type e, le_subject = bk_topic q, le_extensions = ext'\<rparr>)"

definition entry_request :: "bulk_entry \<Rightarrow> bulk_request \<Rightarrow> topic_event_request" where
  "entry_request e q = (case be_cloud_event e of
     Some ce \<Rightarrow> \<lparr>te_id = cp_id ce, te_source = cp_source ce, te_type = cp_type ce, te_spec_version = cp_spec_version ce,
       te_content_type = cp_content_type ce, te_data = cp_data ce, te_topic = bk_topic q, te_pubsub = bk_pubsub q,
       te_path = [], te_extensions = cp_extensions ce\<rparr>
   | None \<Rightarrow> \<lparr>te_id = be_id e, te_source = [], te_type = [], te_spec_version = [], te_content_type = be_content_type e,
       te_data = (case be_bytes e of Some b \<Rightarrow> b | None \<Rightarrow> []), te_topic = bk_topic q, te_pubsub = bk_pubsub q,
       te_path = [], te_extensions = []\<rparr>)"

definition bulk_entry_subscription_message ::
  "bulk_entry \<Rightarrow> bulk_request \<Rightarrow> (string, string) dict \<Rightarrow> subscription_message" where
  "bulk_entry_subscription_message e q md = new_subscription_message (entry_request e q) (dict_update md (be_metadata e))"

definition bulk_status :: "topic_handlers \<Rightarrow> cb \<Rightarrow> bool \<Rightarrow> bulk_request \<Rightarrow> (string, string) dict \<Rightarrow> bulk_entry \<Rightarrow> topic_status" where
  "bulk_status run f legacy q md e =
    (case run f (if legacy then LegacyEvent (bulk_entry_legacy_event e q md)
                 else MessageEvent (bulk_entry_subscription_message e q md)) of
       Inl ex \<Rightarrow> StatusRetry
     | Inr (TopicAnswer st) \<Rightarrow> st
     | Inr OtherAnswer \<Rightarrow> StatusSuccess)"

definition handle_bulk_topic_event ::
  "topic_handlers \<Rightarrow> bulk_request \<Rightarrow> (string, string) dict \<Rightarrow> servicer \<Rightarrow> (string \<times> topic_status) list option" where
  "handle_bulk_topic_event run q md s =
    (case get_topic_callback (bk_pubsub q) (bk_topic q) (bk_path q) s of
       None \<Rightarrow> None
     | Some f \<Rightarrow> Some (map (\<lambda>e. (be_id e, bulk_status run f (uses_legacy s f) q md e)) (bk_entries q)))"

definition on_bulk_topic_event ::
  "topic_handlers \<Rightarrow> bulk_request \<Rightarrow> (string, string) dict \<Rightarrow> servicer \<Rightarrow> (string \<times> topic_status) list served" where
  "on_bulk_topic_event run q md s =
    (case handle_bulk_topic_event run q md s of
       None \<Rightarrow> unimplemented (''bulk topic '' @ bk_topic q @ '' is not implemented!'')
     | Some sts \<Rightarrow> (None, Inr sts))"

section \<open>Methods, bindings and jobs\<close>

record any_value =
  av_type_url :: string
  av_value :: string

definition JSON_CONTENT_TYPE :: string where
  "JSON_CONTENT_TYPE = ''application/json; charset=utf-8''"

text \<open>The request and the response of a method, as their constructors make them.\<close>

record method_request =
  mr_data :: any_value
  mr_content_type :: string
  mr_metadata :: "(string \<times> string) list"

definition new_method_request :: "any_value \<Rightarrow> string \<Rightarrow> (string \<times> string) list \<Rightarrow> method_request" where
  "new_method_request d ty md =
    \<lparr>mr_data = d, mr_content_type = (if av_type_url d = [] \<and> ty = [] then JSON_CONTENT_TYPE else ty), mr_metadata = md\<rparr>"

datatype method_answer =
    Falsy | TextAnswer string | MessageAnswer any_value
  | ResponseAnswer any_value "string option" "(string \<times> string) list"
  | InvalidAnswer

text \<open>The initial metadata that are sent, with the data and the content type of the response.\<close>

record method_response =
  ms_headers :: "(string \<times> string) list"
  ms_data :: any_value
  ms_content_type :: string

definition on_invoke_method ::
  "(cb \<Rightarrow> method_request \<Rightarrow> method_answer res) \<Rightarrow> string \<Rightarrow> any_value \<Rightarrow> string \<Rightarrow> (string \<times> string) list \<Rightarrow> servicer \<Rightarrow>
    method_response served" where
  "on_invoke_method run name d ty md s =
    (case dict_get (sv_methods s) name of
       None \<Rightarrow> unimplemented (name @ '' method not implemented!'')
     | Some f \<Rightarrow>
        (case run f (new_method_request d ty md) of
           Inl e \<Rightarrow> (None, Inl e)
         | Inr Falsy \<Rightarrow> (None, Inr \<lparr>ms_headers = [], ms_data = \<lparr>av_type_url = [], av_value = []\<rparr>, ms_content_type = []\<rparr>)
         | Inr (TextAnswer b) \<Rightarrow>
            (None, Inr \<lparr>ms_headers = [], ms_data = \<lparr>av_type_url = [], av_value = b\<rparr>, ms_content_type = JSON_CONTENT_TYPE\<rparr>)
         | Inr (MessageAnswer a) \<Rightarrow> (None, Inr \<lparr>ms_headers = [], ms_data = a, ms_content_type = JSON_CONTENT_TYPE\<rparr>)
         | Inr (ResponseAnswer a ct hs) \<Rightarrow>
            (None, Inr \<lparr>ms_headers = hs, ms_data = a, ms_content_type = (case ct of None \<Rightarrow> [] | Some c \<Rightarrow> c)\<rparr>)
         | Inr InvalidAnswer \<Rightarrow> (Some OUT_OF_RANGE, Inl (exc NotImplementedError (name @ '' method not implemented!'')))))"

definition on_binding_event ::
  "(cb \<Rightarrow> string \<times> (string, string) dict \<times> (string \<times> string) list \<Rightarrow> unit res) \<Rightarrow> string \<Rightarrow> string \<Rightarrow> (string, string) dict \<Rightarrow>
    (string \<times> string) list \<Rightarrow> servicer \<Rightarrow> unit served" where
  "on_binding_event run name d bmd md s =
    (case dict_get (sv_bindings s) name of
       None \<Rightarrow> unimplemented (name @ '' binding not implemented!'')
     | Some f \<Rightarrow> (None, run f (d, bmd, md)))"

definition handle_job_event ::
  "(cb \<Rightarrow> string \<times> string \<Rightarrow> unit res) \<Rightarrow> string \<Rightarrow> any_value option \<Rightarrow> servicer \<Rightarrow> unit served" where
  "handle_job_event run name d s =
    (case dict_get (sv_jobs s) name of
       None \<Rightarrow> unimplemented (''Job event handler for '' @ name @ '' not implemented!'')
     | Some f \<Rightarrow> (None, run f (name, case d of None \<Rightarrow> [] | Some a \<Rightarrow> av_value a)))"

end
