(* ===== verification/ClientHelpers.thy ===== *)
theory ClientHelpers
  imports ToolTypes CallbackServicer "HOL-Library.Word"
begin

text \<open>
  What the service clients share: \<open>clients/grpc/_helpers.py\<close>, with the conversion of data to bytes and back, the
  validation of arguments, and the packing of parameters.
\<close>

section \<open>Data\<close>

text \<open>An argument that should be bytes or a string; anything else comes with the name of its class.\<close>

datatype pydata = DBytes string | DText string | DOther string

definition utf8_char :: "char \<Rightarrow> string" where
  "utf8_char c = (let n = of_char c :: nat in
     if n < 128 then [c] else [char_of (192 + n div 64), char_of (128 + n mod 64)])"

definition utf8_encode :: "string \<Rightarrow> string" where
  "utf8_encode s = concat (map utf8_char s)"

lemma utf8_decode_char: "utf8_decode (utf8_char c @ s) = map_option (Cons c) (utf8_decode s)"
proof -
  define n where "n = (of_char c :: nat)"
  have n: "n < 256" and c: "c = char_of n" by (simp_all add: n_def)
  have "n div 64 = 2 \<or> n div 64 = 3" if "\<not> n < 128" using that n by auto
  moreover have "n div 64 * 64 + n mod 64 = n" by simp
  ultimately show ?thesis
    using n by (auto simp: utf8_char_def Let_def n_def [symmetric] c of_char_of)
qed

lemma utf8_roundtrip [simp]: "utf8_decode (utf8_encode s) = Some s"
proof (induction s)
  case (Cons c s)
  have "utf8_encode (c # s) = utf8_char c @ utf8_encode s" by (simp add: utf8_encode_def)
  then show ?case using utf8_decode_char [of c "utf8_encode s"] Cons.IH by simp
qed (simp add: utf8_encode_def)

text \<open>Raising a string is a TypeError.\<close>

definition not_an_exception :: exn where
  "not_an_exception = exc TypeError ''exceptions must derive from BaseException''"

definition to_bytes :: "pydata \<Rightarrow> string res" where
  "to_bytes d = (case d of
     DBytes b \<Rightarrow> Inr b
   | DText s \<Rightarrow> Inr (utf8_encode s)
   | DOther n \<Rightarrow> Inl not_an_exception)"

definition to_str :: "pydata \<Rightarrow> string res" where
  "to_str d = (case d of
     DText s \<Rightarrow> Inr s
   | DBytes b \<Rightarrow> (case utf8_decode b of Some s \<Rightarrow> Inr s | None \<Rightarrow> Inl (exc ValueError ''invalid utf-8''))
   | DOther n \<Rightarrow> Inl not_an_exception)"

definition is_data :: "pydata \<Rightarrow> bool" where
  "is_data d = (case d of DOther n \<Rightarrow> False | _ \<Rightarrow> True)"

definition invalid_data :: "pydata \<Rightarrow> exn" where
  "invalid_data d = exc ValueError (''invalid type for data '' @
     (case d of DOther n \<Rightarrow> ''<class '' @ py_repr n @ ''>'' | DBytes b \<Rightarrow> ''<class 'bytes'>'' | DText s \<Rightarrow> ''<class 'str'>''))"

lemma data_as_bytes: "is_data d \<Longrightarrow> \<exists>b. to_bytes d = Inr b"
  by (cases d) (simp_all add: is_data_def to_bytes_def)

lemma text_survives: "to_bytes (DText s) = Inr b \<Longrightarrow> to_str (DBytes b) = Inr s"
  by (auto simp: to_bytes_def to_str_def)

section \<open>Metadata\<close>

type_synonym grpc_metadata = "(string \<times> string) list"

definition add_value :: "string \<Rightarrow> string \<Rightarrow> (string, string list) dict \<Rightarrow> (string, string list) dict" where
  "add_value k v d = dict_set k ((case dict_get d k of None \<Rightarrow> [] | Some vs \<Rightarrow> vs) @ [v]) d"

definition tuple_to_dict :: "grpc_metadata \<Rightarrow> (string, string list) dict" where
  "tuple_to_dict md = foldl (\<lambda>d p. add_value (fst p) (snd p) d) [] md"

text \<open>No value is lost, and the values of a key keep their order.\<close>

lemma tuple_to_dict_values:
  "(case dict_get (tuple_to_dict md) k of None \<Rightarrow> [] | Some vs \<Rightarrow> vs) = map snd (filter (\<lambda>p. fst p = k) md)"
proof (induction md rule: rev_induct)
  case (snoc p md)
  then show ?case by (auto simp: tuple_to_dict_def add_value_def dict_get_set split: option.splits)
qed (simp add: tuple_to_dict_def)

section \<open>Validation\<close>

definition is_blank :: "string \<Rightarrow> bool" where
  "is_blank s \<longleftrightarrow> py_strip s = []"

fun validate_not_none :: "(string \<times> string option) list \<Rightarrow> unit res" where
  "validate_not_none [] = Inr ()"
| "validate_not_none ((n, None) # fs) = Inl (exc ValueError (n @ '' name cannot be None''))"
| "validate_not_none ((n, Some v) # fs) = validate_not_none fs"

fun validate_not_blank :: "(string \<times> string option) list \<Rightarrow> unit res" where
  "validate_not_blank [] = Inr ()"
| "validate_not_blank ((n, v) # fs) =
    (if (case v of None \<Rightarrow> True | Some s \<Rightarrow> is_blank s)
       then Inl (exc ValueError (n @ '' name cannot be empty or blank''))
     else validate_not_blank fs)"

lemma validate_not_blank_iff:
  "validate_not_blank fs = Inr () \<longleftrightarrow> (\<forall>(n, v) \<in> set fs. \<exists>s. v = Some s \<and> \<not> is_blank s)"
  by (induction fs rule: validate_not_blank.induct) (auto split: option.splits)

lemma validate_not_blank_kind: "validate_not_blank fs = Inl e \<Longrightarrow> ex_kind e = ValueError"
  by (induction fs rule: validate_not_blank.induct) (auto split: if_splits)

section \<open>Parameters\<close>

text \<open>
  The values that \<open>convert_value_to_grpc_any\<close> packs, and what it packs them in. A value that is out of the range
  of its wrapper is refused by protobuf. Floats are not modelled.
\<close>

datatype grpc_value = GBool bool | GText string | GInt int | GBytes string | GAny any_value | GOther string

datatype packed_any =
    BoolPacked bool | StringPacked string | Int32Packed "32 word" | Int64Packed "64 word" | BytesPacked string
  | GivenAny any_value

definition convert_value_to_grpc_any :: "grpc_value \<Rightarrow> packed_any res" where
  "convert_value_to_grpc_any v = (case v of
     GAny a \<Rightarrow> Inr (GivenAny a)
   | GBool b \<Rightarrow> Inr (BoolPacked b)
   | GText s \<Rightarrow> Inr (StringPacked s)
   | GInt i \<Rightarrow>
       if -2147483648 \<le> i \<and> i \<le> 2147483647 then Inr (Int32Packed (word_of_int i))
       else if -9223372036854775808 \<le> i \<and> i \<le> 9223372036854775807 then Inr (Int64Packed (word_of_int i))
       else Inl (exc ValueError (''Value out of range: '' @ str_of_int i))
   | GBytes b \<Rightarrow> Inr (BytesPacked b)
   | GOther n \<Rightarrow> Inl (exc ValueError (''Unsupported parameter type: <class '' @ py_repr n @
       ''>. Supported types: str, int, float, bool, bytes, GrpcAny'')))"

definition convert_dict_to_grpc_dict_of_any :: "(string, grpc_value) dict \<Rightarrow> (string, packed_any) dict res" where
  "convert_dict_to_grpc_dict_of_any d =
    seq_res (map (\<lambda>p. res_bind (convert_value_to_grpc_any (snd p)) (\<lambda>a. Inr (fst p, a))) d)"

text \<open>What the receiver unpacks.\<close>

definition unpacked :: "packed_any \<Rightarrow> grpc_value" where
  "unpacked a = (case a of
     BoolPacked b \<Rightarrow> GBool b | StringPacked s \<Rightarrow> GText s | Int32Packed w \<Rightarrow> GInt (sint w) | Int64Packed w \<Rightarrow> GInt (sint w)
   | BytesPacked b \<Rightarrow> GBytes b | GivenAny x \<Rightarrow> GAny x)"

definition packable :: "grpc_value \<Rightarrow> bool" where
  "packable v = (case v of GInt i \<Rightarrow> -(2 ^ 63) \<le> i \<and> i < 2 ^ 63 | GOther n \<Rightarrow> False | _ \<Rightarrow> True)"

lemma sint_of_int_32: "-(2 ^ 31) \<le> i \<Longrightarrow> i < 2 ^ 31 \<Longrightarrow> sint (word_of_int i :: 32 word) = i"
  by (simp add: signed_of_int signed_take_bit_int_eq_self)

lemma sint_of_int_64: "-(2 ^ 63) \<le> i \<Longrightarrow> i < 2 ^ 63 \<Longrightarrow> sint (word_of_int i :: 64 word) = i"
  by (simp add: signed_of_int signed_take_bit_int_eq_self)

lemma packs_iff: "(\<exists>a. convert_value_to_grpc_any v = Inr a) \<longleftrightarrow> packable v"
  by (cases v) (auto simp: convert_value_to_grpc_any_def packable_def)

lemma packs_value: "convert_value_to_grpc_any v = Inr a \<Longrightarrow> unpacked a = v"
  by (cases v) (auto simp: convert_value_to_grpc_any_def unpacked_def sint_of_int_32 sint_of_int_64 split: if_splits)

definition narrow :: "packed_any \<Rightarrow> bool" where
  "narrow a = (case a of Int64Packed w \<Rightarrow> \<not> (-(2 ^ 31) \<le> sint w \<and> sint w < 2 ^ 31) | _ \<Rightarrow> True)"

lemma packs_narrow: "convert_value_to_grpc_any v = Inr a \<Longrightarrow> narrow a"
  by (cases v) (auto simp: convert_value_to_grpc_any_def narrow_def sint_of_int_64 split: if_splits)

lemma packs_error: "convert_value_to_grpc_any v = Inl e \<Longrightarrow> ex_kind e = ValueError \<and> \<not> packable v"
  by (cases v) (auto simp: convert_value_to_grpc_any_def packable_def split: if_splits)

lemma packing_fails:
  "convert_dict_to_grpc_dict_of_any d = Inl e \<Longrightarrow> \<exists>p \<in> set d. convert_value_to_grpc_any (snd p) = Inl e"
  unfolding convert_dict_to_grpc_dict_of_any_def
proof (induction d)
  case (Cons q d)
  obtain k v where q: "q = (k, v)" by (cases q)
  show ?case
  proof (cases "convert_value_to_grpc_any v")
    case (Inl e')
    with Cons.prems q show ?thesis by simp
  next
    case (Inr a)
    with Cons q show ?thesis by (auto simp: res_bind_Inl_iff)
  qed
qed simp

text \<open>
  C40. The parameters of a conversation are packed all or none: they are refused exactly if one of them has another
  type or is an integer that 64 bits do not hold, and otherwise every name has its own value, which the
  receiver gets back unchanged, integers in the smallest of the two widths that holds them.
\<close>

theorem parameters_packed:
  "case convert_dict_to_grpc_dict_of_any d of
     Inl e \<Rightarrow> ex_kind e = ValueError \<and> \<not> list_all (\<lambda>p. packable (snd p)) d
   | Inr packed \<Rightarrow> list_all (\<lambda>p. packable (snd p)) d \<and> list_all (\<lambda>p. narrow (snd p)) packed \<and>
       map (\<lambda>p. (fst p, unpacked (snd p))) packed = d"
proof (cases "convert_dict_to_grpc_dict_of_any d")
  case (Inl e)
  from packing_fails [OF this] obtain k v where "(k, v) \<in> set d" "convert_value_to_grpc_any v = Inl e" by auto
  with packs_error [of v e] Inl show ?thesis by (auto simp: list_all_iff intro!: bexI [of _ "(k, v)"])
next
  case (Inr packed)
  then have "list_all2 (\<lambda>p q. fst q = fst p \<and> convert_value_to_grpc_any (snd p) = Inr (snd q)) d packed"
    unfolding convert_dict_to_grpc_dict_of_any_def seq_res_Inr_iff
  proof (induction d arbitrary: packed)
    case (Cons p d)
    from Cons.prems obtain a ps where "packed = a # ps" "res_bind (convert_value_to_grpc_any (snd p)) (\<lambda>a. Inr (fst p, a)) = Inr a"
      "map (\<lambda>p. res_bind (convert_value_to_grpc_any (snd p)) (\<lambda>a. Inr (fst p, a))) d = map Inr ps"
      by (auto simp: Cons_eq_map_conv)
    with Cons.IH [of ps] show ?case by (auto simp: res_bind_Inr_iff)
  qed simp
  then have "list_all (\<lambda>p. packable (snd p)) d \<and> list_all (\<lambda>p. narrow (snd p)) packed \<and>
       map (\<lambda>p. (fst p, unpacked (snd p))) packed = d"
    by (induction rule: list_all2_induct) (auto simp: packs_value packs_narrow packs_iff [symmetric] prod_eq_iff)
  with Inr show ?thesis by simp
qed

end
