(* ===== verification/ClientRetry.thy ===== *)
theory ClientRetry
  imports Complex_Main Prelude
begin

text \<open>
  The retry policy of the service clients (\<open>clients/retry.py\<close>): its validation, and the loops of \<open>run_rpc\<close>,
  \<open>run_rpc_async\<close> and \<open>make_http_call\<close>, which share their structure. Status codes are of type \<open>'c\<close>. What the
  \<open>n\<close>-th call does is the parameter \<open>f n\<close>. With unlimited attempts a loop may run for ever, so it is a
  partial function. A multiplier is an integer or a double, whose value is kept exact. As in Python,
  a power of a double that is too large to round to a double raises, and so does the multiplication of
  a double with an integer that is.
\<close>

section \<open>The policy\<close>

datatype multiplier = IntMult int | FloatMult rat

definition mult_value :: "multiplier \<Rightarrow> rat" where
  "mult_value m = (case m of IntMult i \<Rightarrow> of_int i | FloatMult q \<Rightarrow> q)"

record 'c client_policy =
  max_attempts :: int
  initial_backoff :: int
  max_backoff :: int
  backoff_multiplier :: multiplier
  retryable_http_status_codes :: "int list"
  retryable_grpc_status_codes :: "'c list"

definition new_client_policy :: "int \<Rightarrow> int \<Rightarrow> int \<Rightarrow> multiplier \<Rightarrow> int list \<Rightarrow> 'c list \<Rightarrow> 'c client_policy res" where
  "new_client_policy attempts init_b max_b mult http grpc =
    (if attempts < -1 then Inl (exc ValueError ''max_attempts must be greater than or equal to -1'')
     else if init_b < 1 then Inl (exc ValueError ''initial_backoff must be greater than or equal to 1'')
     else if max_b < 1 then Inl (exc ValueError ''max_backoff must be greater than or equal to 1'')
     else if mult_value mult < 1 then Inl (exc ValueError ''backoff_multiplier must be greater than or equal to 1'')
     else if http = [] then Inl (exc ValueError ''retryable_http_status_codes can't be empty'')
     else if grpc = [] then Inl (exc ValueError ''retryable_http_status_codes can't be empty'')
     else Inr \<lparr>max_attempts = attempts, initial_backoff = init_b, max_backoff = max_b, backoff_multiplier = mult,
               retryable_http_status_codes = http, retryable_grpc_status_codes = grpc\<rparr>)"

text \<open>From half a unit in the last place above the greatest double on, a number rounds to infinity.\<close>

definition float_limit :: rat where
  "float_limit = 2 ^ 1024 - 2 ^ 970"

definition backoff_error :: "'c client_policy \<Rightarrow> nat \<Rightarrow> exn option" where
  "backoff_error p attempt =
    (case backoff_multiplier p of
       IntMult i \<Rightarrow> None
     | FloatMult q \<Rightarrow>
         if float_limit \<le> q ^ attempt then Some (exc OverflowError ''(34, 'Numerical result out of range')'')
         else if float_limit \<le> of_int (initial_backoff p)
           then Some (exc OverflowError ''int too large to convert to float'')
         else None)"

definition backoff_seconds :: "'c client_policy \<Rightarrow> nat \<Rightarrow> rat" where
  "backoff_seconds p attempt =
     min (of_int (max_backoff p)) (of_int (initial_backoff p) * mult_value (backoff_multiplier p) ^ attempt)"

definition sleep_time :: "'c client_policy \<Rightarrow> nat \<Rightarrow> rat res" where
  "sleep_time p attempt =
     (case backoff_error p attempt of Some e \<Rightarrow> Inl e | None \<Rightarrow> Inr (backoff_seconds p attempt))"

section \<open>The loop\<close>

text \<open>
  \<open>again\<close> tells whether an outcome may be tried again, \<open>raising\<close> is the outcome of an exception in the
  loop itself, and \<open>exhausted\<close> is what follows the loop. The result comes with the delays slept.
\<close>

partial_function (option) retry_loop ::
  "'c client_policy \<Rightarrow> ('o \<Rightarrow> bool) \<Rightarrow> (exn \<Rightarrow> 'o) \<Rightarrow> (nat \<Rightarrow> 'o) \<Rightarrow> (nat \<Rightarrow> 'o) \<Rightarrow> nat \<Rightarrow>
   ('o \<times> rat list) option" where
  "retry_loop p again raising exhausted f attempt =
    (if max_attempts p = -1 \<or> int attempt < max_attempts p then
       (if \<not> again (f attempt) then Some (f attempt, [])
        else if max_attempts p \<noteq> -1 \<and> int attempt = max_attempts p - 1 then Some (f attempt, [])
        else
          (case sleep_time p attempt of
             Inl e \<Rightarrow> Some (raising e, [])
           | Inr d \<Rightarrow>
               Option.bind (retry_loop p again raising exhausted f (Suc attempt)) (\<lambda>(r, ds).
                 Some (r, d # ds))))
     else Some (exhausted attempt, []))"

datatype ('c, 'a) rpc_outcome = RpcReturns 'a | RpcRaises 'c | RpcOther exn

definition rpc_again :: "'c client_policy \<Rightarrow> ('c, 'a) rpc_outcome \<Rightarrow> bool" where
  "rpc_again p r = (case r of RpcRaises c \<Rightarrow> c \<in> set (retryable_grpc_status_codes p) | _ \<Rightarrow> False)"

definition rpc_exhausted :: "nat \<Rightarrow> ('c, 'a) rpc_outcome" where
  "rpc_exhausted attempt = RpcOther (exc PyException (''RPC call failed after '' @ str_of_nat attempt @ '' retries''))"

definition run_rpc ::
  "'c client_policy \<Rightarrow> (nat \<Rightarrow> ('c, 'a) rpc_outcome) \<Rightarrow> (('c, 'a) rpc_outcome \<times> rat list) option" where
  "run_rpc p f = (if max_attempts p = 0 then Some (f 0, []) else retry_loop p (rpc_again p) RpcOther rpc_exhausted f 0)"

text \<open>A response with its status, an exception of the session, or nothing, behind the loop.\<close>

datatype 'b http_outcome = HttpResponse int 'b | HttpRaises exn | HttpNone

definition http_again :: "'c client_policy \<Rightarrow> 'b http_outcome \<Rightarrow> bool" where
  "http_again p r = (case r of HttpResponse st b \<Rightarrow> st \<in> set (retryable_http_status_codes p) | _ \<Rightarrow> False)"

definition make_http_call ::
  "'c client_policy \<Rightarrow> (nat \<Rightarrow> 'b http_outcome) \<Rightarrow> ('b http_outcome \<times> rat list) option" where
  "make_http_call p f =
     (if max_attempts p = 0 then Some (f 0, []) else retry_loop p (http_again p) HttpRaises (\<lambda>_. HttpNone) f 0)"

section \<open>When it stops\<close>

text \<open>
  The first call that ends the retries: its outcome is final, it is the last one allowed, or the delay
  after it cannot be computed. What comes out then.
\<close>

definition stops :: "'c client_policy \<Rightarrow> ('o \<Rightarrow> bool) \<Rightarrow> (nat \<Rightarrow> 'o) \<Rightarrow> nat \<Rightarrow> bool" where
  "stops p again f k \<longleftrightarrow> \<not> again (f k) \<or> max_attempts p \<noteq> -1 \<and> int k + 1 \<ge> max_attempts p"

definition decides :: "'c client_policy \<Rightarrow> ('o \<Rightarrow> bool) \<Rightarrow> (nat \<Rightarrow> 'o) \<Rightarrow> nat \<Rightarrow> bool" where
  "decides p again f k \<longleftrightarrow> stops p again f k \<or> backoff_error p k \<noteq> None"

definition final_outcome ::
  "'c client_policy \<Rightarrow> ('o \<Rightarrow> bool) \<Rightarrow> (exn \<Rightarrow> 'o) \<Rightarrow> (nat \<Rightarrow> 'o) \<Rightarrow> nat \<Rightarrow> 'o" where
  "final_outcome p again raising f k =
    (if stops p again f k then f k else raising (the (backoff_error p k)))"

lemma retry_loop_decided:
  assumes "decides p again f k" and "\<forall>i < k. \<not> decides p again f i" and "n \<le> k" and "max_attempts p \<noteq> 0"
    and "-1 \<le> max_attempts p"
  shows "retry_loop p again raising exhausted f n =
    Some (final_outcome p again raising f k, map (backoff_seconds p) [n..<k])"
  using assms(3)
proof (induction "k - n" arbitrary: n)
  case 0
  then have "n = k" by simp
  moreover have "max_attempts p = -1 \<or> int k < max_attempts p"
  proof (cases k)
    case 0
    with assms(4,5) show ?thesis by linarith
  next
    case (Suc j)
    then have "\<not> decides p again f j" using assms(2) by simp
    with Suc show ?thesis by (auto simp: decides_def stops_def)
  qed
  ultimately show ?case using assms(1)
    by (subst retry_loop.simps) (auto simp: decides_def stops_def sleep_time_def final_outcome_def)
next
  case (Suc d)
  then have n: "n < k" by simp
  with assms(2) have nd: "\<not> decides p again f n" by simp
  have "retry_loop p again raising exhausted f (Suc n) =
      Some (final_outcome p again raising f k, map (backoff_seconds p) [Suc n..<k])"
    by (rule Suc.hyps(1)) (use Suc.hyps(2) n in simp_all)
  with nd n show ?case
    by (subst retry_loop.simps) (auto simp: decides_def stops_def sleep_time_def upt_rec [of n k])
qed

lemma retry_loop_endless':
  "retry_loop q ag ra ex g n = Some y \<Longrightarrow> q = p \<Longrightarrow> ag = again \<Longrightarrow> g = f \<Longrightarrow> \<forall>k. \<not> decides p again f k \<Longrightarrow> False"
proof (induct q ag ra ex g n y rule: retry_loop.raw_induct [rotated, consumes 1])
  case (1 loop q ag ra ex g n y)
  then have "\<not> decides p again f n" by blast
  with 1(2-5) have "\<exists>z. loop q ag ra ex g (Suc n) = Some z"
    by (auto simp: decides_def stops_def sleep_time_def bind_eq_Some_conv split: if_splits)
  with 1(1,3-6) show ?case by blast
qed

lemma retry_loop_endless:
  assumes "\<forall>k. \<not> decides p again f k"
  shows "retry_loop p again raising exhausted f n = None"
proof (cases "retry_loop p again raising exhausted f n")
  case (Some y)
  from retry_loop_endless' [OF this refl refl refl assms] show ?thesis ..
qed

text \<open>A policy that was accepted.\<close>

definition policy_ok :: "'c client_policy \<Rightarrow> bool" where
  "policy_ok p \<longleftrightarrow> -1 \<le> max_attempts p \<and> 1 \<le> initial_backoff p \<and> 1 \<le> max_backoff p \<and> 1 \<le> mult_value (backoff_multiplier p)"

lemma new_client_policy_ok:
  "new_client_policy a i m q http grpc = Inr p \<Longrightarrow>
   policy_ok p \<and> max_attempts p = a \<and> initial_backoff p = i \<and> max_backoff p = m \<and> backoff_multiplier p = q"
  by (auto simp: new_client_policy_def policy_ok_def split: if_splits)

lemma backoff_seconds_bounds:
  assumes "policy_ok p"
  shows "1 \<le> backoff_seconds p k" and "backoff_seconds p k \<le> of_int (max_backoff p)"
    and "backoff_seconds p k \<le> backoff_seconds p (Suc k)"
proof -
  let ?i = "of_int (initial_backoff p) :: rat" and ?m = "mult_value (backoff_multiplier p)"
  have i: "1 \<le> ?i" and m: "1 \<le> ?m" using assms by (simp_all add: policy_ok_def)
  have pow: "1 \<le> ?m ^ k" "?m ^ k \<le> ?m ^ Suc k"
    using m by (simp_all add: one_le_power power_increasing)
  have "1 * 1 \<le> ?i * ?m ^ k" by (rule mult_mono) (use i pow in simp_all)
  with assms show "1 \<le> backoff_seconds p k" by (simp add: backoff_seconds_def policy_ok_def)
  show "backoff_seconds p k \<le> of_int (max_backoff p)" by (simp add: backoff_seconds_def)
  have "?i * ?m ^ k \<le> ?i * ?m ^ Suc k" by (rule mult_left_mono) (use i pow in simp_all)
  then show "backoff_seconds p k \<le> backoff_seconds p (Suc k)" unfolding backoff_seconds_def by (intro min.mono) simp_all
qed

lemma bernoulli: "1 \<le> q \<Longrightarrow> 1 + of_nat k * (q - 1) \<le> (q::rat) ^ k"
proof (induction k)
  case (Suc k)
  have "(1 + of_nat k * (q - 1)) * q = 1 + of_nat (Suc k) * (q - 1) + of_nat k * ((q - 1) * (q - 1))"
    by (simp add: algebra_simps)
  then have "1 + of_nat (Suc k) * (q - 1) \<le> (1 + of_nat k * (q - 1)) * q" by simp
  also have "\<dots> \<le> q ^ Suc k" using mult_right_mono [OF Suc.IH [OF Suc.prems], of q] Suc.prems by (simp add: mult.commute)
  finally show ?case .
qed simp

text \<open>A double greater than one has a power that is too large.\<close>

lemma float_overflows_sometime:
  assumes "backoff_multiplier p = FloatMult q" and "1 < q"
  shows "\<exists>k. backoff_error p k \<noteq> None"
proof -
  from assms(2) have "0 < q - 1" by simp
  from ex_less_of_nat_mult [OF this, of float_limit] obtain k where "float_limit < of_nat k * (q - 1)" ..
  also have "\<dots> \<le> q ^ k" using bernoulli [of q k] assms(2) by simp
  finally show ?thesis using assms(1) by (auto simp: backoff_error_def intro!: exI [of _ k])
qed

definition never_overflows :: "'c client_policy \<Rightarrow> bool" where
  "never_overflows p \<longleftrightarrow>
    (case backoff_multiplier p of IntMult i \<Rightarrow> True | FloatMult q \<Rightarrow> q = 1 \<and> of_int (initial_backoff p) < float_limit)"

lemma never_overflows_iff:
  assumes "policy_ok p"
  shows "never_overflows p \<longleftrightarrow> (\<forall>k. backoff_error p k = None)"
proof (cases "backoff_multiplier p")
  case (IntMult i)
  then show ?thesis by (simp add: never_overflows_def backoff_error_def)
next
  case (FloatMult q)
  have limit: "1 < float_limit" by (simp add: float_limit_def)
  show ?thesis
  proof (cases "q = 1")
    case True
    with FloatMult limit show ?thesis by (simp add: never_overflows_def backoff_error_def not_le)
  next
    case False
    with assms FloatMult have "1 < q" by (simp add: policy_ok_def mult_value_def)
    from float_overflows_sometime [OF FloatMult this] False FloatMult show ?thesis
      by (simp add: never_overflows_def)
  qed
qed

definition with_retries ::
  "'c client_policy \<Rightarrow> ('o \<Rightarrow> bool) \<Rightarrow> (exn \<Rightarrow> 'o) \<Rightarrow> (nat \<Rightarrow> 'o) \<Rightarrow> (nat \<Rightarrow> 'o) \<Rightarrow> ('o \<times> rat list) option" where
  "with_retries p again raising exhausted f =
     (if max_attempts p = 0 then Some (f 0, []) else retry_loop p again raising exhausted f 0)"

lemma with_retries_decided:
  assumes "policy_ok p" and "decides p again f k" and "\<forall>i < k. \<not> decides p again f i"
  shows "with_retries p again raising exhausted f =
      Some (final_outcome p again raising f k, map (backoff_seconds p) [0..<k]) \<and>
    (max_attempts p \<noteq> -1 \<longrightarrow> int k + 1 \<le> max 1 (max_attempts p))"
proof -
  have bound: "int k + 1 \<le> max 1 (max_attempts p)" if "max_attempts p \<noteq> -1"
  proof (cases k)
    case (Suc j)
    then have "\<not> decides p again f j" using assms(3) by simp
    with that Suc show ?thesis by (simp add: decides_def stops_def)
  qed simp
  show ?thesis
  proof (cases "max_attempts p = 0")
    case True
    with bound have "k = 0" by simp
    with True show ?thesis by (simp add: with_retries_def final_outcome_def stops_def)
  next
    case False
    with retry_loop_decided [OF assms(2,3) le0 False] assms(1) bound show ?thesis
      by (simp add: with_retries_def policy_ok_def)
  qed
qed

lemma with_retries_endless:
  assumes ok: "policy_ok p"
  shows "with_retries p again raising ex h = None \<longleftrightarrow>
    max_attempts p = -1 \<and> never_overflows p \<and> (\<forall>k. again (h k))"
proof
  assume none: "with_retries p again raising ex h = None"
  have nd: "\<not> decides p again h k" for k
  proof
    assume "decides p again h k"
    then have l: "decides p again h (LEAST k. decides p again h k)" by (rule LeastI)
    have "\<forall>i < (LEAST k. decides p again h k). \<not> decides p again h i" by (auto dest: not_less_Least)
    from with_retries_decided [OF ok l this] none show False by simp
  qed
  have "max_attempts p = -1"
  proof (rule ccontr)
    assume "max_attempts p \<noteq> -1"
    then have "decides p again h (nat (max_attempts p))" by (simp add: decides_def stops_def)
    with nd show False by blast
  qed
  with nd show "max_attempts p = -1 \<and> never_overflows p \<and> (\<forall>k. again (h k))"
    by (auto simp: never_overflows_iff [OF ok] decides_def stops_def)
next
  assume "max_attempts p = -1 \<and> never_overflows p \<and> (\<forall>k. again (h k))"
  with retry_loop_endless [of p again h raising ex 0] show "with_retries p again raising ex h = None"
    by (simp add: with_retries_def decides_def stops_def never_overflows_iff [OF ok])
qed

text \<open>
  C16. Calls are retried as the policy says: under an accepted policy, \<open>run_rpc\<close> and \<open>make_http_call\<close> end with
  the first outcome that is not retryable, or with that of the last allowed attempt, after one delay
  for each earlier attempt, and the code behind the loops is never reached. The delays never fall, and
  lie between one and \<open>max_backoff\<close> seconds. But a delay that is a double too large raises an
  \<open>OverflowError\<close> in place of a further attempt: with unlimited attempts, retryable outcomes are tried
  for ever exactly when the multiplier is an integer, or the double one.
\<close>

theorem client_retries:
  assumes "new_client_policy a i m q http grpc = Inr p"
  shows "(\<forall>k. decides p (rpc_again p) f k \<and> (\<forall>j < k. \<not> decides p (rpc_again p) f j) \<longrightarrow>
        run_rpc p f = Some (final_outcome p (rpc_again p) RpcOther f k, map (backoff_seconds p) [0..<k]) \<and>
        (a \<noteq> -1 \<longrightarrow> int k + 1 \<le> max 1 a)) \<and>
    (\<forall>k. decides p (http_again p) g k \<and> (\<forall>j < k. \<not> decides p (http_again p) g j) \<longrightarrow>
        make_http_call p g = Some (final_outcome p (http_again p) HttpRaises g k, map (backoff_seconds p) [0..<k]) \<and>
        (a \<noteq> -1 \<longrightarrow> int k + 1 \<le> max 1 a)) \<and>
    (run_rpc p f = None \<longleftrightarrow> a = -1 \<and> never_overflows p \<and> (\<forall>k. rpc_again p (f k))) \<and>
    (make_http_call p g = None \<longleftrightarrow> a = -1 \<and> never_overflows p \<and> (\<forall>k. http_again p (g k))) \<and>
    (\<forall>k. 1 \<le> backoff_seconds p k \<and> backoff_seconds p k \<le> of_int m \<and> backoff_seconds p k \<le> backoff_seconds p (Suc k))"
proof -
  have ok: "policy_ok p" and a: "max_attempts p = a" and m: "max_backoff p = m"
    using new_client_policy_ok [OF assms] by simp_all
  have rpc: "run_rpc p f = with_retries p (rpc_again p) RpcOther rpc_exhausted f"
    and http: "make_http_call p g = with_retries p (http_again p) HttpRaises (\<lambda>_. HttpNone) g"
    by (simp_all add: run_rpc_def make_http_call_def with_retries_def)
  note dec = with_retries_decided [OF ok, unfolded a]
  show ?thesis
    unfolding rpc http
    by (intro conjI allI impI with_retries_endless [OF ok, unfolded a]; (elim conjE)?)
      (simp_all add: dec backoff_seconds_bounds [OF ok, unfolded m])
qed

definition demo_policy :: "unit client_policy" where
  "demo_policy = \<lparr>max_attempts = 3, initial_backoff = 1, max_backoff = 20, backoff_multiplier = FloatMult (3/2),
     retryable_http_status_codes = [503], retryable_grpc_status_codes = [()]\<rparr>"

text \<open>Two failures, then a value. And a policy without a limit does not try for ever.\<close>

definition demo_calls :: "nat \<Rightarrow> (unit, nat) rpc_outcome" where
  "demo_calls n = (if n < 2 then RpcRaises () else RpcReturns 7)"

theorem client_retries_witness:
  "run_rpc demo_policy demo_calls = Some (RpcReturns 7, [1, 3 / 2]) \<and>
   run_rpc (demo_policy\<lparr>max_attempts := -1\<rparr>) (\<lambda>_. RpcRaises () :: (unit, nat) rpc_outcome) \<noteq> None"
proof
  have p: "new_client_policy 3 1 20 (FloatMult (3/2)) [503] [()] = Inr demo_policy"
    by (simp add: new_client_policy_def demo_policy_def mult_value_def)
  have no: "\<not> float_limit \<le> 1" "\<not> float_limit \<le> 3 / 2" by (simp_all add: float_limit_def)
  have "decides demo_policy (rpc_again demo_policy) demo_calls 2"
    "\<forall>j < 2. \<not> decides demo_policy (rpc_again demo_policy) demo_calls j"
    using no by (auto simp: decides_def stops_def rpc_again_def demo_policy_def demo_calls_def backoff_error_def
        numeral_2_eq_2 less_Suc_eq)
  with client_retries [OF p, of demo_calls "\<lambda>_. HttpNone"]
  have "run_rpc demo_policy demo_calls = Some (final_outcome demo_policy (rpc_again demo_policy) RpcOther demo_calls 2,
      map (backoff_seconds demo_policy) [0..<2])" by blast
  then show "run_rpc demo_policy demo_calls = Some (RpcReturns 7, [1, 3 / 2])"
    by (simp add: demo_calls_def backoff_seconds_def demo_policy_def upt_rec final_outcome_def stops_def rpc_again_def
        mult_value_def)
next
  let ?p = "demo_policy\<lparr>max_attempts := -1\<rparr>"
  have "new_client_policy (-1) 1 20 (FloatMult (3/2)) [503] [()] = Inr ?p"
    by (simp add: new_client_policy_def demo_policy_def mult_value_def)
  from client_retries [OF this, of "\<lambda>_. RpcRaises ()" "\<lambda>_. HttpNone"]
  have "run_rpc ?p (\<lambda>_. RpcRaises () :: (unit, nat) rpc_outcome) = None \<longrightarrow> never_overflows ?p" by blast
  moreover have "\<not> never_overflows ?p" by (simp add: never_overflows_def demo_policy_def)
  ultimately show "run_rpc ?p (\<lambda>_. RpcRaises () :: (unit, nat) rpc_outcome) \<noteq> None" by blast
qed

end
