(* ===== verification/StateClient.thy ===== *)
theory StateClient
  imports ClientHelpers ClientRetry
begin

text \<open>
  The state operations of the service clients: \<open>DaprGrpcClient\<close> of \<open>clients/grpc/client.py\<close> and
  \<open>DaprGrpcClientAsync\<close> of \<open>aio/clients/grpc/client.py\<close>, with \<open>clients/grpc/_state.py\<close>. A method of the sidecar is a
  function of the request and of the sidecar's state; it gives an outcome and the new state. Requests and answers
  are records. The deprecated argument \<open>metadata\<close>, which is handed on to gRPC, and warnings are left out.
\<close>

section \<open>Calls\<close>

type_synonym ('q, 'r, 'st) rpc_method = "'q \<Rightarrow> 'st \<Rightarrow> (grpc_code, 'r \<times> grpc_metadata) rpc_outcome \<times> 'st"

text \<open>What a client raises: the error of gRPC, the same as a DaprGrpcError, or another exception.\<close>

datatype client_failure = RaisedRpc grpc_code | RaisedDaprGrpc grpc_code | Raised exn

type_synonym 'a client_answer = "client_failure + 'a"

definition rpc_answer :: "(grpc_code, 'a) rpc_outcome \<Rightarrow> 'a client_answer" where
  "rpc_answer out = (case out of RpcReturns a \<Rightarrow> Inr a | RpcRaises c \<Rightarrow> Inl (RaisedRpc c) | RpcOther e \<Rightarrow> Inl (Raised e))"

definition after_attempts :: "('q, 'r, 'st) rpc_method \<Rightarrow> 'q \<Rightarrow> 'st \<Rightarrow> nat \<Rightarrow> 'st" where
  "after_attempts m q s n = ((\<lambda>s. snd (m q s)) ^^ n) s"

text \<open>\<open>self.retry_policy.run_rpc(m, req)\<close>, and a call without retries.\<close>

definition call_rpc ::
  "grpc_code client_policy \<Rightarrow> ('q, 'r, 'st) rpc_method \<Rightarrow> 'q \<Rightarrow> 'st \<Rightarrow> (('r \<times> grpc_metadata) client_answer \<times> 'st) option" where
  "call_rpc p m q s = map_option (\<lambda>(out, ds). (rpc_answer out, after_attempts m q s (Suc (length ds))))
     (run_rpc p (\<lambda>n. fst (m q (after_attempts m q s n))))"

definition call_once :: "('q, 'r, 'st) rpc_method \<Rightarrow> 'q \<Rightarrow> 'st \<Rightarrow> ('r \<times> grpc_metadata) client_answer \<times> 'st" where
  "call_once m q s = map_prod rpc_answer id (m q s)"

definition dapr_grpc_error :: "client_failure \<Rightarrow> client_failure" where
  "dapr_grpc_error e = (case e of RaisedRpc c \<Rightarrow> RaisedDaprGrpc c | _ \<Rightarrow> e)"

text \<open>The text of the error, which is the sidecar's, is left out.\<close>

definition dapr_internal_error :: "client_failure \<Rightarrow> client_failure" where
  "dapr_internal_error e = (case e of RaisedRpc c \<Rightarrow> Raised (exc DaprInternalError []) | _ \<Rightarrow> e)"

text \<open>A request or an exception before the call, the call, and what is made of its answer.\<close>

definition operation ::
  "(client_failure \<Rightarrow> client_failure) \<Rightarrow> ('r \<times> grpc_metadata \<Rightarrow> 'a) \<Rightarrow> 'q res \<Rightarrow> ('q \<Rightarrow> (('r \<times> grpc_metadata) client_answer \<times> 'st) option) \<Rightarrow>
    'st \<Rightarrow> ('a client_answer \<times> 'st) option" where
  "operation err mk req call s = (case req of
     Inl e \<Rightarrow> Some (Inl (Raised e), s)
   | Inr q \<Rightarrow> map_option (map_prod (map_sum err mk) id) (call q))"

definition aio_operation ::
  "(client_failure \<Rightarrow> client_failure) \<Rightarrow> ('r \<times> grpc_metadata \<Rightarrow> 'a) \<Rightarrow> 'q res \<Rightarrow> ('q, 'r, 'st) rpc_method \<Rightarrow> 'st \<Rightarrow> 'a client_answer \<times> 'st" where
  "aio_operation err mk req m s = (case req of
     Inl e \<Rightarrow> (Inl (Raised e), s)
   | Inr q \<Rightarrow> map_prod (map_sum err mk) id (call_once m q s))"

section \<open>Items and options\<close>

datatype consistency = ConsistencyUnspecified | ConsistencyEventual | ConsistencyStrong
datatype concurrency = ConcurrencyUnspecified | ConcurrencyFirstWrite | ConcurrencyLastWrite

record state_options =
  so_consistency :: "consistency option"
  so_concurrency :: "concurrency option"

definition options_proto :: "state_options \<Rightarrow> (concurrency \<times> consistency) res" where
  "options_proto o' = (case (so_concurrency o', so_consistency o') of
     (Some c, Some d) \<Rightarrow> Inr (c, d)
   | _ \<Rightarrow> Inl (exc AttributeError ''NoneType object has no attribute value''))"

definition opt_options :: "state_options option \<Rightarrow> (concurrency \<times> consistency) option res" where
  "opt_options o' = (case o' of None \<Rightarrow> Inr None | Some x \<Rightarrow> map_sum id Some (options_proto x))"

record state_item =
  si_key :: string
  si_value :: pydata
  si_etag :: "string option"
  si_options :: "state_options option"
  si_metadata :: "(string, string) dict"

definition new_state_item ::
  "string \<Rightarrow> pydata \<Rightarrow> string option \<Rightarrow> state_options option \<Rightarrow> (string, string) dict \<Rightarrow> state_item res" where
  "new_state_item k v etag o' md = (if is_data v
     then Inr \<lparr>si_key = k, si_value = v, si_etag = etag, si_options = o', si_metadata = md\<rparr>
     else Inl (invalid_data v))"

record state_item_proto =
  ip_key :: string
  ip_value :: string
  ip_etag :: "string option"
  ip_options :: "(concurrency \<times> consistency) option"
  ip_metadata :: "(string, string) dict"

text \<open>An operation of a transaction; an upsert needs data.\<close>

record tx_operation =
  tx_delete :: bool
  tx_key :: string
  tx_data :: "pydata option"
  tx_etag :: "string option"
  tx_metadata :: "(string, string) dict"

definition new_tx_operation ::
  "string \<Rightarrow> pydata option \<Rightarrow> string option \<Rightarrow> bool \<Rightarrow> (string, string) dict option \<Rightarrow> tx_operation res" where
  "new_tx_operation k d etag del md =
    (if \<not> del \<and> (case d of None \<Rightarrow> True | Some v \<Rightarrow> \<not> is_data v)
       then Inl (invalid_data (case d of None \<Rightarrow> DOther ''NoneType'' | Some v \<Rightarrow> v))
     else Inr \<lparr>tx_delete = del, tx_key = k, tx_data = d, tx_etag = etag,
       tx_metadata = (case md of None \<Rightarrow> [] | Some m \<Rightarrow> m)\<rparr>)"

section \<open>Requests and answers\<close>

record get_state_request =
  gq_store :: string
  gq_key :: string
  gq_metadata :: "(string, string) dict"

record bulk_state_request =
  bq_store :: string
  bq_keys :: "string list"
  bq_parallelism :: int
  bq_metadata :: "(string, string) dict"

record query_request =
  qq_store :: string
  qq_query :: string
  qq_metadata :: "(string, string) dict"

record save_request =
  sq_store :: string
  sq_states :: "state_item_proto list"

record transaction_request =
  tq_store :: string
  tq_operations :: "(bool \<times> state_item_proto) list"
  tq_metadata :: "(string, string) dict"

record delete_request =
  dq_store :: string
  dq_key :: string
  dq_etag :: "string option"
  dq_options :: "(concurrency \<times> consistency) option"
  dq_metadata :: "(string, string) dict"

record state_response =
  sp_data :: string
  sp_etag :: string
  sp_headers :: grpc_metadata

record bulk_item =
  bi_key :: string
  bi_data :: string
  bi_etag :: string
  bi_error :: string

record bulk_response =
  br_items :: "bulk_item list"
  br_headers :: grpc_metadata

record query_response =
  qr_results :: "bulk_item list"
  qr_token :: string
  qr_metadata :: "(string, string) dict"
  qr_headers :: grpc_metadata

record 'st state_stub =
  rpc_get :: "(get_state_request, string \<times> string, 'st) rpc_method"
  rpc_bulk :: "(bulk_state_request, bulk_item list, 'st) rpc_method"
  rpc_query :: "(query_request, bulk_item list \<times> string \<times> (string, string) dict, 'st) rpc_method"
  rpc_save :: "(save_request, unit, 'st) rpc_method"
  rpc_transaction :: "(transaction_request, unit, 'st) rpc_method"
  rpc_delete :: "(delete_request, unit, 'st) rpc_method"

definition in_store :: "string \<Rightarrow> 'a res \<Rightarrow> 'a res" where
  "in_store store q = (if is_blank store then Inl (exc ValueError ''State store name cannot be empty'') else q)"

definition get_request :: "string \<Rightarrow> string \<Rightarrow> (string, string) dict \<Rightarrow> get_state_request res" where
  "get_request store k md = in_store store (Inr \<lparr>gq_store = store, gq_key = k, gq_metadata = md\<rparr>)"

definition get_bulk_request :: "string \<Rightarrow> string list \<Rightarrow> int \<Rightarrow> (string, string) dict \<Rightarrow> bulk_state_request res" where
  "get_bulk_request store ks n md = in_store store (Inr \<lparr>bq_store = store, bq_keys = ks, bq_parallelism = n, bq_metadata = md\<rparr>)"

definition query_request :: "string \<Rightarrow> string \<Rightarrow> (string, string) dict \<Rightarrow> query_request res" where
  "query_request store q md = in_store store (Inr \<lparr>qq_store = store, qq_query = q, qq_metadata = md\<rparr>)"

definition save_one_request ::
  "string \<Rightarrow> string \<Rightarrow> pydata \<Rightarrow> string option \<Rightarrow> state_options option \<Rightarrow> (string, string) dict \<Rightarrow> save_request res" where
  "save_one_request store k v etag o' md =
    (if \<not> is_data v then Inl (invalid_data v)
     else in_store store (res_bind (opt_options o') (\<lambda>o''. res_bind (to_bytes v) (\<lambda>b.
       Inr \<lparr>sq_store = store, sq_states = [\<lparr>ip_key = k, ip_value = b, ip_etag = etag, ip_options = o'', ip_metadata = md\<rparr>]\<rparr>))))"

text \<open>The options of an item of a bulk are handed to protobuf as they are, which refuses them.\<close>

definition bulk_item_proto :: "state_item \<Rightarrow> state_item_proto res" where
  "bulk_item_proto i = res_bind (to_bytes (si_value i)) (\<lambda>b.
     case si_options i of
       None \<Rightarrow> Inr \<lparr>ip_key = si_key i, ip_value = b, ip_etag = si_etag i, ip_options = None, ip_metadata = si_metadata i\<rparr>
     | Some x \<Rightarrow> Inl (exc TypeError ''Parameter to initialize message field must be dict or instance of same class''))"

definition save_bulk_request :: "string \<Rightarrow> state_item list \<Rightarrow> save_request res" where
  "save_bulk_request store items =
    (if items = [] then Inl (exc ValueError ''States to be saved cannot be empty'')
     else in_store store (res_bind (seq_res (map bulk_item_proto items)) (\<lambda>ps.
       Inr \<lparr>sq_store = store, sq_states = ps\<rparr>)))"

definition tx_proto :: "tx_operation \<Rightarrow> (bool \<times> state_item_proto) res" where
  "tx_proto o' = res_bind (case tx_data o' of None \<Rightarrow> to_bytes (DText []) | Some d \<Rightarrow> to_bytes d) (\<lambda>b.
     Inr (tx_delete o', \<lparr>ip_key = tx_key o', ip_value = b, ip_etag = tx_etag o', ip_options = None, ip_metadata = tx_metadata o'\<rparr>))"

definition tx_request :: "string \<Rightarrow> tx_operation list \<Rightarrow> (string, string) dict \<Rightarrow> transaction_request res" where
  "tx_request store os md = in_store store (res_bind (seq_res (map tx_proto os)) (\<lambda>ps.
     Inr \<lparr>tq_store = store, tq_operations = ps, tq_metadata = md\<rparr>))"

definition delete_request ::
  "string \<Rightarrow> string \<Rightarrow> string option \<Rightarrow> state_options option \<Rightarrow> (string, string) dict \<Rightarrow> delete_request res" where
  "delete_request store k etag o' md = in_store store (res_bind (opt_options o') (\<lambda>o''.
     Inr \<lparr>dq_store = store, dq_key = k, dq_etag = etag, dq_options = o'', dq_metadata = md\<rparr>))"

definition to_state_response :: "(string \<times> string) \<times> grpc_metadata \<Rightarrow> state_response" where
  "to_state_response r = \<lparr>sp_data = fst (fst r), sp_etag = snd (fst r), sp_headers = snd r\<rparr>"

definition to_bulk_response :: "bulk_item list \<times> grpc_metadata \<Rightarrow> bulk_response" where
  "to_bulk_response r = \<lparr>br_items = fst r, br_headers = snd r\<rparr>"

definition to_query_response :: "(bulk_item list \<times> string \<times> (string, string) dict) \<times> grpc_metadata \<Rightarrow> query_response" where
  "to_query_response r = \<lparr>qr_results = fst (fst r), qr_token = fst (snd (fst r)), qr_metadata = snd (snd (fst r)), qr_headers = snd r\<rparr>"

section \<open>The client\<close>

definition get_state_call where
  "get_state_call p stub store k md s =
    operation dapr_grpc_error to_state_response (get_request store k md) (\<lambda>q. call_rpc p (rpc_get stub) q s) s"

definition get_bulk_state where
  "get_bulk_state p stub store ks n md s =
    operation dapr_grpc_error to_bulk_response (get_bulk_request store ks n md) (\<lambda>q. call_rpc p (rpc_bulk stub) q s) s"

definition query_state where
  "query_state p stub store query md s =
    operation dapr_grpc_error to_query_response (query_request store query md) (\<lambda>q. call_rpc p (rpc_query stub) q s) s"

definition save_state_call where
  "save_state_call p stub store k v etag o' md s =
    operation dapr_grpc_error snd (save_one_request store k v etag o' md) (\<lambda>q. call_rpc p (rpc_save stub) q s) s"

definition save_bulk_state where
  "save_bulk_state p stub store items s =
    operation dapr_grpc_error snd (save_bulk_request store items) (\<lambda>q. call_rpc p (rpc_save stub) q s) s"

definition execute_state_transaction where
  "execute_state_transaction p stub store os md s =
    operation dapr_grpc_error snd (tx_request store os md) (\<lambda>q. call_rpc p (rpc_transaction stub) q s) s"

definition delete_state where
  "delete_state p stub store k etag o' md s =
    operation dapr_grpc_error snd (delete_request store k etag o' md) (\<lambda>q. call_rpc p (rpc_delete stub) q s) s"

section \<open>The asynchronous client\<close>

text \<open>It retries in \<open>save_state\<close> only, which is also alone in raising DaprInternalError.\<close>

definition aio_get_state where
  "aio_get_state stub store k md s = aio_operation dapr_grpc_error to_state_response (get_request store k md) (rpc_get stub) s"

definition aio_get_bulk_state where
  "aio_get_bulk_state stub store ks n md s =
    aio_operation dapr_grpc_error to_bulk_response (get_bulk_request store ks n md) (rpc_bulk stub) s"

definition aio_query_state where
  "aio_query_state stub store query md s =
    aio_operation dapr_grpc_error to_query_response (query_request store query md) (rpc_query stub) s"

definition aio_save_state where
  "aio_save_state p stub store k v etag o' md s =
    operation dapr_internal_error snd (save_one_request store k v etag o' md) (\<lambda>q. call_rpc p (rpc_save stub) q s) s"

definition aio_save_bulk_state where
  "aio_save_bulk_state stub store items s = aio_operation dapr_grpc_error snd (save_bulk_request store items) (rpc_save stub) s"

definition aio_execute_state_transaction where
  "aio_execute_state_transaction stub store os md s =
    aio_operation dapr_grpc_error snd (tx_request store os md) (rpc_transaction stub) s"

definition aio_delete_state where
  "aio_delete_state stub store k etag o' md s =
    aio_operation dapr_grpc_error snd (delete_request store k etag o' md) (rpc_delete stub) s"

end
