(* ===== verification/StateClientProps.thy ===== *)
theory StateClientProps
  imports StateClient
begin

text \<open>
  What the state operations of the clients promise over a sidecar that behaves as documented: reads leave the store
  alone, a write that returns has its effect, and one that fails has it or not.
\<close>

section \<open>Calls and retries\<close>

lemma retry_loop_returns':
  "retry_loop q ag ra ex f n = Some y \<Longrightarrow> (\<forall>k a. ex k \<noteq> RpcReturns a) \<Longrightarrow> (\<forall>e a. ra e \<noteq> RpcReturns a) \<Longrightarrow>
   fst y = RpcReturns x \<Longrightarrow> f (n + length (snd y)) = RpcReturns x"
proof (induct q ag ra ex f n y rule: retry_loop.raw_induct [rotated, consumes 1])
  case (1 loop q ag ra ex f n y)
  show ?case
  proof (cases "snd y")
    case Nil
    with 1(2-5) show ?thesis by (auto simp: bind_eq_Some_conv split: if_splits sum.splits)
  next
    case (Cons d ds)
    with 1(2) have "loop q ag ra ex f (Suc n) = Some (fst y, ds)"
      by (auto simp: bind_eq_Some_conv split: if_splits sum.splits)
    from 1(1) [OF this 1(3,4)] 1(5) Cons show ?thesis by simp
  qed
qed

lemma run_rpc_returns: "run_rpc p f = Some (RpcReturns x, ds) \<Longrightarrow> f (length ds) = RpcReturns x"
  using retry_loop_returns' [of p "rpc_again p" RpcOther rpc_exhausted f 0 "(RpcReturns x, ds)" x]
  by (auto simp: run_rpc_def rpc_exhausted_def split: if_splits)

lemma retry_loop_earlier:
  "retry_loop q ag ra ex f n = Some y \<Longrightarrow> k < length (snd y) \<Longrightarrow> ag (f (n + k))"
proof (induct q ag ra ex f n y arbitrary: k rule: retry_loop.raw_induct [rotated, consumes 1])
  case (1 loop q ag ra ex f n y)
  from 1(3) obtain d ds where y: "snd y = d # ds" by (cases "snd y") auto
  with 1(2) have loop: "loop q ag ra ex f (Suc n) = Some (fst y, ds)" and "ag (f n)"
    by (auto simp: bind_eq_Some_conv split: if_splits sum.splits)
  with 1(3) 1(1) [OF loop] y show ?case by (cases k) auto
qed

lemma run_rpc_earlier: "run_rpc p f = Some (out, ds) \<Longrightarrow> k < length ds \<Longrightarrow> rpc_again p (f k)"
  using retry_loop_earlier [of p "rpc_again p" RpcOther rpc_exhausted f 0 "(out, ds)" k]
  by (auto simp: run_rpc_def split: if_splits)

lemma retry_loop_last:
  "retry_loop q ag ra ex f n = Some y \<Longrightarrow> max_attempts q = -1 \<or> int n < max_attempts q \<Longrightarrow>
   \<not> ag (f (n + length (snd y))) \<Longrightarrow> fst y = f (n + length (snd y))"
proof (induct q ag ra ex f n y rule: retry_loop.raw_induct [rotated, consumes 1])
  case (1 loop q ag ra ex f n y)
  show ?case
  proof (cases "snd y")
    case Nil
    with 1(2-4) show ?thesis by (auto simp: bind_eq_Some_conv split: if_splits sum.splits)
  next
    case (Cons d ds)
    with 1(2,3) have loop: "loop q ag ra ex f (Suc n) = Some (fst y, ds)" and "max_attempts q = -1 \<or> int (Suc n) < max_attempts q"
      by (auto simp: bind_eq_Some_conv split: if_splits sum.splits)
    from 1(1) [OF this] 1(4) Cons show ?thesis by simp
  qed
qed

lemma run_rpc_last:
  assumes "policy_ok p" and "run_rpc p f = Some (out, ds)" and "f (length ds) = RpcReturns a"
  shows "out = RpcReturns a"
proof (cases "max_attempts p = 0")
  case True
  with assms(2,3) show ?thesis by (auto simp: run_rpc_def)
next
  case False
  with assms(1) have "max_attempts p = -1 \<or> int 0 < max_attempts p" by (auto simp: policy_ok_def)
  with retry_loop_last [of p "rpc_again p" RpcOther rpc_exhausted f 0 "(out, ds)"] False assms(2,3)
  show ?thesis by (simp add: run_rpc_def rpc_again_def)
qed

lemma rpc_answer_Inr: "rpc_answer out = Inr a \<longleftrightarrow> out = RpcReturns a"
  by (cases out) (simp_all add: rpc_answer_def)

lemma call_rpc_returns:
  assumes "call_rpc p m q s = Some (Inr a, s')"
  obtains n where "fst (m q (after_attempts m q s n)) = RpcReturns a" and "s' = snd (m q (after_attempts m q s n))"
proof -
  from assms obtain ds where "run_rpc p (\<lambda>n. fst (m q (after_attempts m q s n))) = Some (RpcReturns a, ds)"
    "s' = after_attempts m q s (Suc (length ds))"
    by (auto simp: call_rpc_def rpc_answer_Inr)
  with run_rpc_returns [OF this(1)] that [of "length ds"] show ?thesis by (simp add: after_attempts_def)
qed

lemma call_rpc_state: "call_rpc p m q s = Some (r, s') \<Longrightarrow> \<exists>n. s' = after_attempts m q s (Suc n)"
  by (auto simp: call_rpc_def)

lemma call_rpc_final:
  assumes "policy_ok p" and "\<not> rpc_again p (fst (m q s))"
  shows "call_rpc p m q s = Some (call_once m q s)"
proof -
  have "run_rpc p (\<lambda>n. fst (m q (after_attempts m q s n))) = Some (fst (m q s), [])"
    using assms by (subst run_rpc_def, subst retry_loop.simps) (auto simp: after_attempts_def policy_ok_def)
  then show ?thesis by (simp add: call_rpc_def call_once_def after_attempts_def prod_eq_iff)
qed

section \<open>The sidecar\<close>

type_synonym store_view = "string \<Rightarrow> string \<Rightarrow> string option"

definition put_item :: "string \<Rightarrow> state_item_proto \<Rightarrow> store_view \<Rightarrow> store_view" where
  "put_item store i v = v(store := (v store)(ip_key i \<mapsto> ip_value i))"

definition drop_key :: "string \<Rightarrow> string \<Rightarrow> store_view \<Rightarrow> store_view" where
  "drop_key store k v = v(store := (v store)(k := None))"

definition save_effect :: "save_request \<Rightarrow> store_view \<Rightarrow> store_view" where
  "save_effect q v = fold (put_item (sq_store q)) (sq_states q) v"

definition delete_effect :: "delete_request \<Rightarrow> store_view \<Rightarrow> store_view" where
  "delete_effect q = drop_key (dq_store q) (dq_key q)"

definition tx_effect :: "transaction_request \<Rightarrow> store_view \<Rightarrow> store_view" where
  "tx_effect q v = fold (\<lambda>(del, i). if del then drop_key (tq_store q) (ip_key i) else put_item (tq_store q) i) (tq_operations q) v"

text \<open>A method that writes: its effect is there once it returns, and there or not when it fails.\<close>

definition writes :: "('st \<Rightarrow> 'v) \<Rightarrow> ('q, 'r, 'st) rpc_method \<Rightarrow> ('q \<Rightarrow> 'v \<Rightarrow> 'v) \<Rightarrow> bool" where
  "writes view m eff \<longleftrightarrow> (\<forall>q s. view (snd (m q s)) = eff q (view s) \<or>
     view (snd (m q s)) = view s \<and> (\<forall>a. fst (m q s) \<noteq> RpcReturns a))"

definition value_bytes :: "string option \<Rightarrow> string" where
  "value_bytes x = (case x of None \<Rightarrow> [] | Some b \<Rightarrow> b)"

definition reads :: "('st \<Rightarrow> store_view) \<Rightarrow> (get_state_request, string \<times> string, 'st) rpc_method \<Rightarrow> bool" where
  "reads view m \<longleftrightarrow> (\<forall>q s. view (snd (m q s)) = view s \<and>
     (\<forall>d e h. fst (m q s) = RpcReturns ((d, e), h) \<longrightarrow> d = value_bytes (view s (gq_store q) (gq_key q))))"

definition state_sidecar :: "('st \<Rightarrow> store_view) \<Rightarrow> 'st state_stub \<Rightarrow> bool" where
  "state_sidecar view stub \<longleftrightarrow> reads view (rpc_get stub) \<and> writes view (rpc_save stub) save_effect \<and>
     writes view (rpc_delete stub) delete_effect \<and> writes view (rpc_transaction stub) tx_effect"

text \<open>A write may be sent again after it had its effect, so it has to be the same twice as once.\<close>

lemma fold_keywise:
  assumes "\<And>x v. f x v = v(st := (v st)(key x := val x))"
  shows "fold f xs (fold f xs v) = fold f xs v"
proof -
  have other: "fold f xs v t = v t" if "t \<noteq> st" for v t xs using that by (induction xs arbitrary: v) (auto simp: assms)
  have eq: "fold f xs v st k = fold f xs w st k" if "v st k = w st k \<or> k \<in> key ` set xs" for v w k xs
    using that by (induction xs arbitrary: v w) (auto simp: assms)
  have out: "fold f xs v st k = v st k" if "k \<notin> key ` set xs" for v k xs
    using that by (induction xs arbitrary: v) (auto simp: assms)
  have "fold f xs (fold f xs v) t k = fold f xs v t k" for t k
    by (cases "t = st"; cases "k \<in> key ` set xs") (auto simp: other out intro: eq)
  then show ?thesis by blast
qed

lemma save_twice: "save_effect q (save_effect q v) = save_effect q v"
  unfolding save_effect_def by (rule fold_keywise [where key = ip_key and val = "\<lambda>i. Some (ip_value i)"]) (simp add: put_item_def)

lemma delete_twice: "delete_effect q (delete_effect q v) = delete_effect q v"
  by (simp add: delete_effect_def drop_key_def)

lemma tx_twice: "tx_effect q (tx_effect q v) = tx_effect q v"
  unfolding tx_effect_def
  by (rule fold_keywise [where key = "\<lambda>p. ip_key (snd p)" and val = "\<lambda>p. if fst p then None else Some (ip_value (snd p))"])
    (auto simp: put_item_def drop_key_def)

lemma writes_attempts:
  assumes "writes view m eff" and "\<And>v. eff q (eff q v) = eff q v"
  shows "view (after_attempts m q s n) = view s \<or> view (after_attempts m q s n) = eff q (view s)"
proof (induction n)
  case (Suc n)
  let ?t = "after_attempts m q s n"
  have "after_attempts m q s (Suc n) = snd (m q ?t)" by (simp add: after_attempts_def)
  moreover have "view (snd (m q ?t)) = view ?t \<or> view (snd (m q ?t)) = eff q (view ?t)"
    using assms(1) unfolding writes_def by blast
  ultimately show ?case using Suc assms(2) [of "view s"] by (elim disjE) simp_all
qed (simp add: after_attempts_def)

lemma written:
  assumes "writes view m eff" and "\<And>v. eff q (eff q v) = eff q v" and "call_rpc p m q s = Some (r, s')"
  shows "view s' = view s \<or> view s' = eff q (view s)" and "r = Inr a \<Longrightarrow> view s' = eff q (view s)"
proof -
  have attempts: "view (after_attempts m q s n) = view s \<or> view (after_attempts m q s n) = eff q (view s)" for n
    by (rule writes_attempts [OF assms(1)]) (rule assms(2))
  from call_rpc_state [OF assms(3)] obtain n where "s' = after_attempts m q s (Suc n)" ..
  with attempts [of "Suc n"] show "view s' = view s \<or> view s' = eff q (view s)" by simp
  assume "r = Inr a"
  with assms(3) have "call_rpc p m q s = Some (Inr a, s')" by simp
  then obtain n where n: "fst (m q (after_attempts m q s n)) = RpcReturns a" "s' = snd (m q (after_attempts m q s n))"
    by (rule call_rpc_returns)
  then have "view s' = eff q (view (after_attempts m q s n))"
    using assms(1) unfolding writes_def by metis
  moreover have "eff q (view (after_attempts m q s n)) = eff q (view s)"
    using attempts [of n] assms(2) [of "view s"] by (elim disjE) simp_all
  ultimately show "view s' = eff q (view s)" by simp
qed

lemma reads_attempts: "reads view m \<Longrightarrow> view (after_attempts m q s n) = view s"
  by (induction n) (simp_all add: reads_def after_attempts_def)

lemma read_value:
  assumes "reads view m" and "call_rpc p m q s = Some (r, s')"
  shows "view s' = view s" and "r = Inr ((d, e), h) \<Longrightarrow> d = value_bytes (view s (gq_store q) (gq_key q))"
proof -
  from call_rpc_state [OF assms(2)] reads_attempts [OF assms(1)] show "view s' = view s" by auto
  assume "r = Inr ((d, e), h)"
  with assms(2) have "call_rpc p m q s = Some (Inr ((d, e), h), s')" by (simp only:)
  then obtain n where "fst (m q (after_attempts m q s n)) = RpcReturns ((d, e), h)" by (rule call_rpc_returns)
  with assms(1) reads_attempts [OF assms(1), of q s n] show "d = value_bytes (view s (gq_store q) (gq_key q))"
    unfolding reads_def by metis
qed

section \<open>Operations\<close>

lemma operation_Some:
  "operation err mk req call s = Some (r, s') \<longleftrightarrow>
    (\<exists>e. req = Inl e \<and> r = Inl (Raised e) \<and> s' = s) \<or>
    (\<exists>q r0. req = Inr q \<and> call q = Some (r0, s') \<and> r = map_sum err mk r0)"
  by (cases req) (auto simp: operation_def)

datatype client_write =
    SaveOne string pydata "string option" "state_options option" "(string, string) dict"
  | SaveBulk "state_item list"
  | Transact "tx_operation list" "(string, string) dict"
  | Remove string "string option" "state_options option" "(string, string) dict"

text \<open>A write as the client performs it, and what it should do to a map from keys to bytes.\<close>

definition perform ::
  "grpc_code client_policy \<Rightarrow> 'st state_stub \<Rightarrow> string \<Rightarrow> client_write \<Rightarrow> 'st \<Rightarrow> (grpc_metadata client_answer \<times> 'st) option" where
  "perform p stub store w s = (case w of
     SaveOne k v etag o' md \<Rightarrow> save_state_call p stub store k v etag o' md s
   | SaveBulk items \<Rightarrow> save_bulk_state p stub store items s
   | Transact os md \<Rightarrow> execute_state_transaction p stub store os md s
   | Remove k etag o' md \<Rightarrow> delete_state p stub store k etag o' md s)"

definition data_bytes :: "pydata \<Rightarrow> string" where
  "data_bytes d = (case d of DBytes b \<Rightarrow> b | DText s \<Rightarrow> utf8_encode s | DOther n \<Rightarrow> [])"

definition write_spec :: "client_write \<Rightarrow> (string \<Rightarrow> string option) \<Rightarrow> string \<Rightarrow> string option" where
  "write_spec w m = (case w of
     SaveOne k v etag o' md \<Rightarrow> m(k \<mapsto> data_bytes v)
   | SaveBulk items \<Rightarrow> fold (\<lambda>i m. m(si_key i \<mapsto> data_bytes (si_value i))) items m
   | Transact os md \<Rightarrow> fold (\<lambda>o' m. if tx_delete o' then m(tx_key o' := None)
       else m(tx_key o' \<mapsto> (case tx_data o' of None \<Rightarrow> [] | Some d \<Rightarrow> data_bytes d))) os m
   | Remove k etag o' md \<Rightarrow> m(k := None))"

lemma to_bytes_data: "to_bytes d = Inr b \<Longrightarrow> b = data_bytes d"
  by (cases d) (auto simp: to_bytes_def data_bytes_def)

lemma in_store_Inr: "in_store store q = Inr x \<longleftrightarrow> \<not> is_blank store \<and> q = Inr x"
  by (simp add: in_store_def)

lemma bulk_effect:
  "seq_res (map bulk_item_proto items) = Inr ps \<Longrightarrow>
   fold (put_item store) ps v = v(store := fold (\<lambda>i m. m(si_key i \<mapsto> data_bytes (si_value i))) items (v store))"
  unfolding seq_res_Inr_iff
proof (induction items arbitrary: ps v)
  case (Cons i items)
  then obtain q qs where "ps = q # qs" "bulk_item_proto i = Inr q" "map bulk_item_proto items = map Inr qs"
    by (auto simp: Cons_eq_map_conv)
  moreover have "put_item store q v = v(store := (v store)(si_key i \<mapsto> data_bytes (si_value i)))"
    using \<open>bulk_item_proto i = Inr q\<close>
    by (auto simp: bulk_item_proto_def res_bind_Inr_iff put_item_def dest!: to_bytes_data split: option.splits)
  ultimately show ?case using Cons.IH [of qs] by (simp add: fun_upd_def cong: if_cong)
qed simp

lemma transaction_effect:
  "seq_res (map tx_proto os) = Inr ps \<Longrightarrow>
   fold (\<lambda>(del, i). if del then drop_key store (ip_key i) else put_item store i) ps v =
     v(store := fold (\<lambda>o' m. if tx_delete o' then m(tx_key o' := None)
       else m(tx_key o' \<mapsto> (case tx_data o' of None \<Rightarrow> [] | Some d \<Rightarrow> data_bytes d))) os (v store))"
  unfolding seq_res_Inr_iff
proof (induction os arbitrary: ps v)
  case (Cons i os)
  then obtain q qs where "ps = q # qs" "tx_proto i = Inr q" "map tx_proto os = map Inr qs"
    by (auto simp: Cons_eq_map_conv)
  moreover have "(if fst q then drop_key store (ip_key (snd q)) else put_item store (snd q)) v =
      v(store := if tx_delete i then (v store)(tx_key i := None)
        else (v store)(tx_key i \<mapsto> (case tx_data i of None \<Rightarrow> [] | Some d \<Rightarrow> data_bytes d)))"
    using \<open>tx_proto i = Inr q\<close>
    by (auto simp: tx_proto_def res_bind_Inr_iff put_item_def drop_key_def dest!: to_bytes_data split: option.splits)
      (auto simp: data_bytes_def utf8_encode_def)
  ultimately show ?case using Cons.IH [of qs] by (simp add: case_prod_beta fun_upd_def cong: if_cong)
qed simp

lemma operation_effect:
  assumes "operation err mk req (\<lambda>q. call_rpc p m q s) s = Some (r, s')" and "writes view m eff"
    and "\<And>q v. eff q (eff q v) = eff q v" and "\<And>q. req = Inr q \<Longrightarrow> eff q (view s) = target"
  shows "(view s' = view s \<or> view s' = target) \<and> (\<forall>h. r = Inr h \<longrightarrow> view s' = target)"
proof (cases req)
  case (Inl e)
  with assms(1) show ?thesis by (auto simp: operation_def)
next
  case (Inr q)
  with assms(1) obtain r0 where r0: "call_rpc p m q s = Some (r0, s')" "r = map_sum err mk r0" by (auto simp: operation_Some)
  note w = written [OF assms(2) assms(3) r0(1)]
  from w(1) w(2) assms(4) [OF Inr] r0(2) show ?thesis by (cases r0) auto
qed

lemma save_one_effect:
  "save_one_request store k v etag o' md = Inr q \<Longrightarrow> save_effect q m = m(store := (m store)(k \<mapsto> data_bytes v))"
  by (auto simp: save_one_request_def in_store_Inr res_bind_Inr_iff save_effect_def put_item_def split: if_splits
      dest!: to_bytes_data)

lemma save_bulk_effect:
  "save_bulk_request store items = Inr q \<Longrightarrow>
   save_effect q m = m(store := fold (\<lambda>i m. m(si_key i \<mapsto> data_bytes (si_value i))) items (m store))"
  by (auto simp: save_bulk_request_def in_store_Inr res_bind_Inr_iff save_effect_def bulk_effect split: if_splits)

lemma tx_request_effect:
  "tx_request store os md = Inr q \<Longrightarrow> tx_effect q m = m(store := write_spec (Transact os md) (m store))"
  by (auto simp: tx_request_def in_store_Inr res_bind_Inr_iff tx_effect_def transaction_effect write_spec_def)

lemma delete_request_effect:
  "delete_request store k etag o' md = Inr q \<Longrightarrow> delete_effect q m = m(store := (m store)(k := None))"
  by (auto simp: delete_request_def in_store_Inr res_bind_Inr_iff delete_effect_def drop_key_def)

lemma perform_write:
  assumes "state_sidecar view stub" and "perform p stub store w s = Some (r, s')"
  defines "target \<equiv> (view s)(store := write_spec w (view s store))"
  shows "(view s' = view s \<or> view s' = target) \<and> (\<forall>h. r = Inr h \<longrightarrow> view s' = target)"
proof -
  from assms(1) have sc: "writes view (rpc_save stub) save_effect" "writes view (rpc_delete stub) delete_effect"
    "writes view (rpc_transaction stub) tx_effect" by (auto simp: state_sidecar_def)
  note defs = perform_def save_state_call_def save_bulk_state_def execute_state_transaction_def delete_state_def
  show ?thesis
  proof (cases w)
    case (SaveOne k v etag o' md)
    with assms(2) show ?thesis
      by (intro operation_effect [OF _ sc(1) save_twice]) (auto simp: defs target_def write_spec_def dest: save_one_effect)
  next
    case (SaveBulk items)
    with assms(2) show ?thesis
      by (intro operation_effect [OF _ sc(1) save_twice]) (auto simp: defs target_def write_spec_def dest: save_bulk_effect)
  next
    case (Transact os md)
    with assms(2) show ?thesis
      by (intro operation_effect [OF _ sc(3) tx_twice]) (auto simp: defs target_def dest: tx_request_effect)
  next
    case (Remove k etag o' md)
    with assms(2) show ?thesis
      by (intro operation_effect [OF _ sc(2) delete_twice]) (auto simp: defs target_def write_spec_def dest: delete_request_effect)
  qed
qed

text \<open>A client that writes for a while: the answers, and where the sidecar is afterwards.\<close>

fun perform_all ::
  "grpc_code client_policy \<Rightarrow> 'st state_stub \<Rightarrow> string \<Rightarrow> client_write list \<Rightarrow> 'st \<Rightarrow> (grpc_metadata client_answer list \<times> 'st) option" where
  "perform_all p stub store [] s = Some ([], s)"
| "perform_all p stub store (w # ws) s = (case perform p stub store w s of
     None \<Rightarrow> None
   | Some (r, s1) \<Rightarrow> map_option (map_prod (Cons r) id) (perform_all p stub store ws s1))"

fun apply_done :: "client_write list \<Rightarrow> bool list \<Rightarrow> (string \<Rightarrow> string option) \<Rightarrow> string \<Rightarrow> string option" where
  "apply_done (w # ws) (b # bs) m = apply_done ws bs (if b then write_spec w m else m)"
| "apply_done ws bs m = m"

lemma apply_done_all: "length ws = n \<Longrightarrow> apply_done ws (replicate n True) m = fold write_spec ws m"
  by (induction ws arbitrary: n m) auto

lemma perform_all_done:
  assumes "state_sidecar view stub" and "perform_all p stub store ws s = Some (rs, s')"
  shows "\<exists>bs. list_all2 (\<lambda>r b. (\<exists>h. r = Inr h) \<longrightarrow> b) rs bs \<and> length bs = length ws \<and>
    view s' = (view s)(store := apply_done ws bs (view s store))"
  using assms(2)
proof (induction ws arbitrary: s rs)
  case (Cons w ws)
  then obtain r s1 rs1 where w: "perform p stub store w s = Some (r, s1)" "perform_all p stub store ws s1 = Some (rs1, s')"
    "rs = r # rs1" by (auto split: option.splits)
  from Cons.IH [OF w(2)] obtain bs where bs: "list_all2 (\<lambda>r b. (\<exists>h. r = Inr h) \<longrightarrow> b) rs1 bs" "length bs = length ws"
    "view s' = (view s1)(store := apply_done ws bs (view s1 store))" by blast
  define b where "b = (view s1 \<noteq> view s)"
  from perform_write [OF assms(1) w(1)] have
    "view s1 = (view s)(store := (if (\<exists>h. r = Inr h) \<or> b then write_spec w (view s store) else view s store))"
    by (auto simp: b_def)
  with bs w(3) show ?case
    by (intro exI [of _ "((\<exists>h. r = Inr h) \<or> b) # bs"]) auto
qed simp


text \<open>A sidecar whose first save is applied but fails in transit.\<close>

definition demo_state_stub :: "(store_view \<times> nat) state_stub" where
  "demo_state_stub =
    \<lparr>rpc_get = (\<lambda>q s. (RpcReturns ((value_bytes (fst s (gq_store q) (gq_key q)), []), []), s)),
     rpc_bulk = (\<lambda>q s. (RpcRaises UNIMPLEMENTED, s)),
     rpc_query = (\<lambda>q s. (RpcRaises UNIMPLEMENTED, s)),
     rpc_save = (\<lambda>q s. (if snd s = 0 then RpcRaises UNAVAILABLE else RpcReturns ((), []), save_effect q (fst s), Suc (snd s))),
     rpc_transaction = (\<lambda>q s. (RpcReturns ((), []), tx_effect q (fst s), snd s)),
     rpc_delete = (\<lambda>q s. (RpcReturns ((), []), delete_effect q (fst s), snd s))\<rparr>"

definition demo_client_policy :: "grpc_code client_policy" where
  "demo_client_policy = \<lparr>max_attempts = 2, initial_backoff = 1, max_backoff = 5, backoff_multiplier = IntMult 2,
     retryable_http_status_codes = [500], retryable_grpc_status_codes = [UNAVAILABLE]\<rparr>"

lemma demo_state_sidecar: "state_sidecar fst demo_state_stub"
  by (simp add: state_sidecar_def reads_def writes_def demo_state_stub_def)

lemma demo_save:
  "perform_all demo_client_policy demo_state_stub ''st'' [SaveOne ''k'' (DText ''v'') None None []] (\<lambda>_ _. None, 0) =
    Some ([Inr []], (\<lambda>_ _. None)(''st'' := [''k'' \<mapsto> ''v'']), 2)"
proof -
  let ?q = "\<lparr>sq_store = ''st'', sq_states = [\<lparr>ip_key = ''k'', ip_value = ''v'', ip_etag = None, ip_options = None, ip_metadata = []\<rparr>]\<rparr>"
  have q: "save_one_request ''st'' ''k'' (DText ''v'') None None [] = Inr ?q"
    by (simp add: save_one_request_def in_store_def is_blank_def py_strip_def is_space_def is_data_def opt_options_def
        to_bytes_def utf8_encode_def utf8_char_def Let_def)
  have "run_rpc demo_client_policy (\<lambda>n. fst (rpc_save demo_state_stub ?q (after_attempts (rpc_save demo_state_stub) ?q (\<lambda>_ _. None, 0) n))) =
      Some (RpcReturns ((), []), [1])"
    by (simp add: run_rpc_def demo_client_policy_def demo_state_stub_def after_attempts_def retry_loop.simps rpc_again_def sleep_time_def
        backoff_error_def backoff_seconds_def mult_value_def)
  then have "call_rpc demo_client_policy (rpc_save demo_state_stub) ?q (\<lambda>_ _. None, 0) =
      Some (Inr ((), []), (\<lambda>_ _. None)(''st'' := [''k'' \<mapsto> ''v'']), 2)"
    by (simp add: call_rpc_def rpc_answer_def after_attempts_def demo_state_stub_def save_effect_def put_item_def eval_nat_numeral)
  with q show ?thesis by (simp add: perform_def save_state_call_def operation_def)
qed


section \<open>The two clients\<close>

text \<open>Nothing that the sidecar would answer now is worth a retry.\<close>

definition settled :: "grpc_code client_policy \<Rightarrow> 'st state_stub \<Rightarrow> 'st \<Rightarrow> bool" where
  "settled p stub s \<longleftrightarrow>
    (\<forall>q. \<not> rpc_again p (fst (rpc_get stub q s))) \<and> (\<forall>q. \<not> rpc_again p (fst (rpc_bulk stub q s))) \<and>
    (\<forall>q. \<not> rpc_again p (fst (rpc_query stub q s))) \<and> (\<forall>q. \<not> rpc_again p (fst (rpc_save stub q s))) \<and>
    (\<forall>q. \<not> rpc_again p (fst (rpc_transaction stub q s))) \<and> (\<forall>q. \<not> rpc_again p (fst (rpc_delete stub q s)))"

lemma operation_once:
  "policy_ok p \<Longrightarrow> \<forall>q. \<not> rpc_again p (fst (m q s)) \<Longrightarrow>
   operation err mk req (\<lambda>q. call_rpc p m q s) s = Some (aio_operation err mk req m s)"
  by (cases req) (simp_all add: operation_def aio_operation_def call_rpc_final)

definition as_internal :: "client_failure \<Rightarrow> client_failure" where
  "as_internal e = (case e of RaisedDaprGrpc c \<Rightarrow> Raised (exc DaprInternalError []) | _ \<Rightarrow> e)"

lemma operation_errors:
  "operation dapr_internal_error mk req (\<lambda>q. call_rpc p m q s) s =
   map_option (map_prod (map_sum as_internal id) id) (operation dapr_grpc_error mk req (\<lambda>q. call_rpc p m q s) s)"
proof -
  have "map_sum dapr_internal_error mk (rpc_answer out) = map_sum as_internal id (map_sum dapr_grpc_error mk (rpc_answer out))" for out
    by (cases out) (simp_all add: rpc_answer_def dapr_internal_error_def dapr_grpc_error_def as_internal_def)
  then show ?thesis
    by (cases req) (simp_all add: operation_def as_internal_def call_rpc_def option.map_comp comp_def prod.map_comp case_prod_beta)
qed

text \<open>
  C30. The two clients do the same as long as nothing is worth a retry: each state operation of the asynchronous client
  answers as the synchronous one and leaves the sidecar in the same state. Saving is the exception: both retry it, with
  the same effect, and the asynchronous client turns the error of gRPC into a DaprInternalError.
\<close>

theorem clients_agree:
  assumes "policy_ok p" and "settled p stub s"
  shows "get_state_call p stub store k md s = Some (aio_get_state stub store k md s) \<and>
    get_bulk_state p stub store ks n md s = Some (aio_get_bulk_state stub store ks n md s) \<and>
    query_state p stub store query md s = Some (aio_query_state stub store query md s) \<and>
    save_bulk_state p stub store items s = Some (aio_save_bulk_state stub store items s) \<and>
    execute_state_transaction p stub store os md s = Some (aio_execute_state_transaction stub store os md s) \<and>
    delete_state p stub store k etag opts md s = Some (aio_delete_state stub store k etag opts md s) \<and>
    aio_save_state p stub store k v etag opts md t =
      map_option (map_prod (map_sum as_internal id) id) (save_state_call p stub store k v etag opts md t)"
  using assms(2)
  by (auto simp: settled_def operation_once [OF assms(1)] get_state_call_def aio_get_state_def get_bulk_state_def aio_get_bulk_state_def query_state_def
      aio_query_state_def save_bulk_state_def aio_save_bulk_state_def execute_state_transaction_def
      aio_execute_state_transaction_def delete_state_def aio_delete_state_def aio_save_state_def save_state_call_def
      operation_errors)

theorem clients_agree_witness:
  "get_state_call demo_client_policy demo_state_stub ''st'' ''k'' [] (\<lambda>_ _. None, 1) =
   Some (aio_get_state demo_state_stub ''st'' ''k'' [] (\<lambda>_ _. None, 1))"
proof -
  have "policy_ok demo_client_policy" by (simp add: policy_ok_def demo_client_policy_def mult_value_def)
  moreover have "settled demo_client_policy demo_state_stub (\<lambda>_ _. None, 1)"
    by (simp add: settled_def demo_state_stub_def demo_client_policy_def rpc_again_def)
  ultimately show ?thesis by (rule clients_agree [THEN conjunct1])
qed

text \<open>An item with options cannot be saved in a bulk.\<close>

lemma bulk_options_refused:
  assumes "si_options i = Some o'" and "is_data (si_value i)" and "\<not> is_blank store"
  shows "\<exists>m. save_bulk_state p stub store [i] s = Some (Inl (Raised (exc TypeError m)), s)"
  using assms data_as_bytes [OF assms(2)]
  by (auto simp: save_bulk_state_def operation_def save_bulk_request_def in_store_def bulk_item_proto_def)

end
