(* ===== verification/SessionStore.thy ===== *)
theory SessionStore
  imports Context StateClientProps "HOL-Library.Sublist"
begin

text \<open>
  The session manager for strands agents (\<open>ext/strands/dapr_session_manager.py\<close>): sessions, agents and lists of messages as
  JSON documents in a state store, and a manifest of the agents of each session. The state operations are those of
  \<open>StateClient\<close>, so every access may be retried and may fail. The classes of strands are parameters.
\<close>

section \<open>The parameters\<close>

text \<open>A class of strands with its conversion to and from a dict.\<close>

record 'x session_class =
  sc_to_dict :: "'x \<Rightarrow> (string, pyval) dict"
  sc_from_dict :: "(string, pyval) dict \<Rightarrow> 'x res"
  sc_name :: "'x \<Rightarrow> string"
  sc_message_id :: "'x \<Rightarrow> int"
  sc_keep_created :: "'x \<Rightarrow> 'x \<Rightarrow> 'x"

text \<open>
  \<open>sc_name\<close> is the identifier of a session or an agent, \<open>sc_message_id\<close> that of a message, and \<open>sc_keep_created x y\<close> is \<open>x\<close>
  with the time of creation of \<open>y\<close>. The manager: the client with its policy, the name of the
  store, the time to live and the consistency, and \<open>_identifier.validate\<close> of strands.
\<close>

record 'st session_manager =
  sm_policy :: "grpc_code client_policy"
  sm_stub :: "'st state_stub"
  sm_store :: string
  sm_ttl :: "int option"
  sm_consistency :: string
  sm_valid :: "string \<Rightarrow> unit res"

section \<open>Programs over the store\<close>

type_synonym ('a, 'st) session_prog = "'st \<Rightarrow> ('a res \<times> 'st) option"

definition sp_return :: "'a res \<Rightarrow> ('a, 'st) session_prog" where
  "sp_return r s = Some (r, s)"

definition sp_bind :: "('a, 'st) session_prog \<Rightarrow> ('a \<Rightarrow> ('b, 'st) session_prog) \<Rightarrow> ('b, 'st) session_prog" where
  "sp_bind m f s = (case m s of
     None \<Rightarrow> None
   | Some (Inl e, s1) \<Rightarrow> Some (Inl e, s1)
   | Some (Inr x, s1) \<Rightarrow> f x s1)"

definition session_exception :: "string \<Rightarrow> exn" where
  "session_exception m = exc (UserError ''SessionException'') m"

section \<open>Keys and metadata\<close>

definition session_key :: "'st session_manager \<Rightarrow> string \<Rightarrow> string res" where
  "session_key sm sid = res_bind (sm_valid sm sid) (\<lambda>_. Inr (sid @ '':session''))"

definition agent_key :: "'st session_manager \<Rightarrow> string \<Rightarrow> string \<Rightarrow> string res" where
  "agent_key sm sid aid = res_bind (sm_valid sm sid) (\<lambda>_. res_bind (sm_valid sm aid) (\<lambda>_. Inr (sid @ '':agents:'' @ aid)))"

definition messages_key :: "'st session_manager \<Rightarrow> string \<Rightarrow> string \<Rightarrow> string res" where
  "messages_key sm sid aid = res_bind (sm_valid sm sid) (\<lambda>_. res_bind (sm_valid sm aid) (\<lambda>_. Inr (sid @ '':messages:'' @ aid)))"

definition manifest_key :: "'st session_manager \<Rightarrow> string \<Rightarrow> string res" where
  "manifest_key sm sid = res_bind (sm_valid sm sid) (\<lambda>_. Inr (sid @ '':manifest''))"

definition read_metadata :: "'st session_manager \<Rightarrow> (string, string) dict" where
  "read_metadata sm = (if sm_consistency sm = [] then [] else [(''consistency'', sm_consistency sm)])"

definition write_metadata :: "'st session_manager \<Rightarrow> (string, string) dict" where
  "write_metadata sm = (case sm_ttl sm of None \<Rightarrow> [] | Some t \<Rightarrow> [(''ttlInSeconds'', str_of_int t)])"

definition session_state_options :: "'st session_manager \<Rightarrow> state_options option" where
  "session_state_options sm =
    (if sm_consistency sm = ''strong''
       then Some \<lparr>so_consistency = Some ConsistencyStrong, so_concurrency = Some ConcurrencyUnspecified\<rparr>
     else if sm_consistency sm = ''eventual''
       then Some \<lparr>so_consistency = Some ConsistencyEventual, so_concurrency = Some ConcurrencyUnspecified\<rparr>
     else None)"

section \<open>Documents\<close>

definition document :: "string \<Rightarrow> pyval option res" where
  "document b = (if b = [] then Inr None
     else case utf8_decode b of
       None \<Rightarrow> Inl (session_exception ''Failed to read state key'')
     | Some t \<Rightarrow> (case json_loads t of
         Inl e \<Rightarrow> Inl (session_exception ''Invalid JSON in state key'')
       | Inr v \<Rightarrow> Inr (Some v)))"

definition read_state :: "'st session_manager \<Rightarrow> string \<Rightarrow> (pyval option, 'st) session_prog" where
  "read_state sm key s = (case get_state_call (sm_policy sm) (sm_stub sm) (sm_store sm) key (read_metadata sm) s of
     None \<Rightarrow> None
   | Some (Inl e, s1) \<Rightarrow> Some (Inl (session_exception (''Failed to read state key '' @ key)), s1)
   | Some (Inr r, s1) \<Rightarrow> Some (document (sp_data r), s1))"

definition write_state :: "'st session_manager \<Rightarrow> string \<Rightarrow> pyval \<Rightarrow> (unit, 'st) session_prog" where
  "write_state sm key v s = (case json_dumps_raw v of
     Inl e \<Rightarrow> Some (Inl (session_exception (''Failed to write state key '' @ key)), s)
   | Inr t \<Rightarrow>
      (case save_state_call (sm_policy sm) (sm_stub sm) (sm_store sm) key (DText t) None (session_state_options sm) (write_metadata sm) s of
         None \<Rightarrow> None
       | Some (Inl e, s1) \<Rightarrow> Some (Inl (session_exception (''Failed to write state key '' @ key)), s1)
       | Some (Inr h, s1) \<Rightarrow> Some (Inr (), s1)))"

definition erase_state :: "'st session_manager \<Rightarrow> string \<Rightarrow> (unit, 'st) session_prog" where
  "erase_state sm key s =
    (case delete_state (sm_policy sm) (sm_stub sm) (sm_store sm) key None (session_state_options sm) [] s of
       None \<Rightarrow> None
     | Some (Inl e, s1) \<Rightarrow> Some (Inl (session_exception (''Failed to delete state key '' @ key)), s1)
     | Some (Inr h, s1) \<Rightarrow> Some (Inr (), s1))"

text \<open>\<open>data.get(name, [])\<close> of a document, which may not be a dict, and the list it should be.\<close>

definition member_or_empty :: "string \<Rightarrow> pyval \<Rightarrow> pyval res" where
  "member_or_empty n v = (case v of
     PDict d \<Rightarrow> Inr (case dict_get d n of None \<Rightarrow> PList [] | Some x \<Rightarrow> x)
   | _ \<Rightarrow> Inl (no_attribute (type_name v) ''get''))"

definition list_or_empty :: "pyval \<Rightarrow> pyval list" where
  "list_or_empty v = (case v of PList vs \<Rightarrow> vs | _ \<Rightarrow> [])"

definition stored_messages :: "pyval \<Rightarrow> pyval list res" where
  "stored_messages v = res_bind (member_or_empty ''messages'' v) (\<lambda>x. Inr (list_or_empty x))"

definition messages_document :: "pyval list \<Rightarrow> pyval" where
  "messages_document vs = PDict [(''messages'', PList vs)]"

text \<open>\<open>from_dict\<close> on a document: what is not a dict has no items.\<close>

definition load_object :: "'x session_class \<Rightarrow> pyval \<Rightarrow> 'x res" where
  "load_object c v = (case v of PDict d \<Rightarrow> sc_from_dict c d | _ \<Rightarrow> Inl (exc TypeError ''argument must be a mapping''))"

definition dump_object :: "'x session_class \<Rightarrow> 'x \<Rightarrow> pyval" where
  "dump_object c x = PDict (sc_to_dict c x)"

section \<open>Sessions and agents\<close>

definition read_object :: "'st session_manager \<Rightarrow> 'x session_class \<Rightarrow> string res \<Rightarrow> ('x option, 'st) session_prog" where
  "read_object sm c key = sp_bind (sp_return key) (\<lambda>k. sp_bind (read_state sm k) (\<lambda>d.
     sp_return (case d of None \<Rightarrow> Inr None | Some v \<Rightarrow> map_sum id Some (load_object c v))))"

definition read_session :: "'st session_manager \<Rightarrow> 'se session_class \<Rightarrow> string \<Rightarrow> ('se option, 'st) session_prog" where
  "read_session sm c sid = read_object sm c (session_key sm sid)"

definition create_session :: "'st session_manager \<Rightarrow> 'se session_class \<Rightarrow> 'se \<Rightarrow> ('se, 'st) session_prog" where
  "create_session sm c x = sp_bind (sp_return (session_key sm (sc_name c x))) (\<lambda>k.
     sp_bind (read_session sm c (sc_name c x)) (\<lambda>old.
       if old \<noteq> None then sp_return (Inl (session_exception (''Session '' @ sc_name c x @ '' already exists'')))
       else sp_bind (write_state sm k (dump_object c x)) (\<lambda>_. sp_return (Inr x))))"

definition read_agent :: "'st session_manager \<Rightarrow> 'ag session_class \<Rightarrow> string \<Rightarrow> string \<Rightarrow> ('ag option, 'st) session_prog" where
  "read_agent sm c sid aid = read_object sm c (agent_key sm sid aid)"

text \<open>The manifest lists agents by name; an empty or missing one counts as a list without agents.\<close>

definition manifest_of :: "pyval option \<Rightarrow> pyval" where
  "manifest_of d = (case d of Some v \<Rightarrow> if truthy v then v else PDict [(''agents'', PList [])] | None \<Rightarrow> PDict [(''agents'', PList [])])"

text \<open>\<open>x in v\<close> for a text \<open>x\<close>.\<close>

definition py_contains :: "string \<Rightarrow> pyval \<Rightarrow> bool res" where
  "py_contains x v = (case v of
     PList vs \<Rightarrow> Inr (PStr x \<in> set vs)
   | PStr s \<Rightarrow> Inr (sublist x s)
   | PDict d \<Rightarrow> Inr (dict_has d x)
   | _ \<Rightarrow> Inl (exc TypeError (''argument of type '' @ py_repr (type_name v) @ '' is not iterable'')))"

definition add_agent :: "string \<Rightarrow> pyval \<Rightarrow> pyval res" where
  "add_agent aid v = (case v of
     PDict d \<Rightarrow> (case dict_get d ''agents'' of
         None \<Rightarrow> Inl (exc KeyError (py_repr ''agents''))
       | Some x \<Rightarrow> res_bind (py_contains aid x) (\<lambda>b.
           if b then Inr v else (case x of
             PList vs \<Rightarrow> Inr (PDict (dict_set ''agents'' (PList (vs @ [PStr aid])) d))
           | _ \<Rightarrow> Inl (no_attribute (type_name x) ''append''))))
   | _ \<Rightarrow> Inl (exc TypeError (''indices must be integers or slices, not str'')))"

definition create_agent :: "'st session_manager \<Rightarrow> 'ag session_class \<Rightarrow> string \<Rightarrow> 'ag \<Rightarrow> (unit, 'st) session_prog" where
  "create_agent sm c sid x = sp_bind (sp_return (agent_key sm sid (sc_name c x))) (\<lambda>k.
     sp_bind (write_state sm k (dump_object c x)) (\<lambda>_.
     sp_bind (sp_return (messages_key sm sid (sc_name c x))) (\<lambda>mk.
     sp_bind (write_state sm mk (messages_document [])) (\<lambda>_.
     sp_bind (sp_return (manifest_key sm sid)) (\<lambda>fk.
     sp_bind (read_state sm fk) (\<lambda>d.
     sp_bind (sp_return (add_agent (sc_name c x) (manifest_of d))) (\<lambda>v. write_state sm fk v)))))))"

definition update_agent :: "'st session_manager \<Rightarrow> 'ag session_class \<Rightarrow> string \<Rightarrow> 'ag \<Rightarrow> (unit, 'st) session_prog" where
  "update_agent sm c sid x = sp_bind (read_agent sm c sid (sc_name c x)) (\<lambda>old. case old of
     None \<Rightarrow> sp_return (Inl (session_exception (''Agent '' @ sc_name c x @ '' in session '' @ sid @ '' does not exist'')))
   | Some y \<Rightarrow> sp_bind (sp_return (agent_key sm sid (sc_name c x))) (\<lambda>k. write_state sm k (dump_object c (sc_keep_created c x y))))"

text \<open>What the loop over the names in a manifest runs through. The validation does not take a name that is no text.\<close>

definition agent_names :: "pyval option \<Rightarrow> pyval list res" where
  "agent_names d = (case d of
     None \<Rightarrow> Inr []
   | Some v \<Rightarrow> if truthy v then (case member_or_empty ''agents'' v of
         Inl e \<Rightarrow> Inl e
       | Inr x \<Rightarrow> (case x of
           PList vs \<Rightarrow> Inr vs
         | PStr s \<Rightarrow> Inr (map (\<lambda>c. PStr [c]) s)
         | PDict d \<Rightarrow> Inr (map (\<lambda>p. PStr (fst p)) d)
         | _ \<Rightarrow> Inl (exc TypeError (py_repr (type_name x) @ '' object is not iterable'')))) else Inr [])"

fun delete_agents :: "'st session_manager \<Rightarrow> string \<Rightarrow> pyval list \<Rightarrow> (unit, 'st) session_prog" where
  "delete_agents sm sid [] = sp_return (Inr ())"
| "delete_agents sm sid (v # vs) = (case v of
     PStr aid \<Rightarrow> sp_bind (sp_return (agent_key sm sid aid)) (\<lambda>k.
       sp_bind (sp_return (messages_key sm sid aid)) (\<lambda>mk.
       sp_bind (erase_state sm k) (\<lambda>_. sp_bind (erase_state sm mk) (\<lambda>_. delete_agents sm sid vs))))
   | _ \<Rightarrow> sp_return (Inl (exc TypeError ''agent id'')))"

definition delete_session :: "'st session_manager \<Rightarrow> string \<Rightarrow> (unit, 'st) session_prog" where
  "delete_session sm sid = sp_bind (sp_return (session_key sm sid)) (\<lambda>k.
     sp_bind (sp_return (manifest_key sm sid)) (\<lambda>fk.
     sp_bind (read_state sm fk) (\<lambda>d.
     sp_bind (sp_return (agent_names d)) (\<lambda>vs.
     sp_bind (delete_agents sm sid vs) (\<lambda>_.
     sp_bind (erase_state sm fk) (\<lambda>_. erase_state sm k))))))"

section \<open>Messages\<close>

definition read_messages :: "'st session_manager \<Rightarrow> string \<Rightarrow> string \<Rightarrow> (pyval list option, 'st) session_prog" where
  "read_messages sm sid aid = sp_bind (sp_return (messages_key sm sid aid)) (\<lambda>k. sp_bind (read_state sm k) (\<lambda>d.
     sp_return (case d of None \<Rightarrow> Inr None | Some v \<Rightarrow> map_sum id Some (stored_messages v))))"

definition write_messages :: "'st session_manager \<Rightarrow> string \<Rightarrow> string \<Rightarrow> pyval list \<Rightarrow> (unit, 'st) session_prog" where
  "write_messages sm sid aid vs = sp_bind (sp_return (messages_key sm sid aid)) (\<lambda>k. write_state sm k (messages_document vs))"

definition create_message :: "'st session_manager \<Rightarrow> 'ms session_class \<Rightarrow> string \<Rightarrow> string \<Rightarrow> 'ms \<Rightarrow> (unit, 'st) session_prog" where
  "create_message sm c sid aid m = sp_bind (read_messages sm sid aid) (\<lambda>old.
     write_messages sm sid aid ((case old of None \<Rightarrow> [] | Some vs \<Rightarrow> vs) @ [dump_object c m]))"

text \<open>The first entry with \<open>msg_dict.get('message_id') == message_id\<close>, and the list with that entry replaced.\<close>

definition has_message_id :: "int \<Rightarrow> pyval \<Rightarrow> bool res" where
  "has_message_id i v = (case v of
     PDict d \<Rightarrow> Inr (case dict_get d ''message_id'' of
         Some (PInt j) \<Rightarrow> j = i
       | Some (PBool b) \<Rightarrow> i = (if b then 1 else 0)
       | _ \<Rightarrow> False)
   | _ \<Rightarrow> Inl (no_attribute (type_name v) ''get''))"

fun find_message :: "int \<Rightarrow> pyval list \<Rightarrow> pyval option res" where
  "find_message i [] = Inr None"
| "find_message i (v # vs) = res_bind (has_message_id i v) (\<lambda>b. if b then Inr (Some v) else find_message i vs)"

fun replace_message :: "int \<Rightarrow> pyval \<Rightarrow> pyval list \<Rightarrow> pyval list option res" where
  "replace_message i y [] = Inr None"
| "replace_message i y (v # vs) = res_bind (has_message_id i v) (\<lambda>b.
     if b then Inr (Some (y # vs)) else res_bind (replace_message i y vs) (\<lambda>r. Inr (map_option (Cons v) r)))"

definition read_message ::
  "'st session_manager \<Rightarrow> 'ms session_class \<Rightarrow> string \<Rightarrow> string \<Rightarrow> int \<Rightarrow> ('ms option, 'st) session_prog" where
  "read_message sm c sid aid i = sp_bind (read_messages sm sid aid) (\<lambda>old.
     sp_return (res_bind (find_message i (case old of None \<Rightarrow> [] | Some vs \<Rightarrow> vs)) (\<lambda>r. case r of
       None \<Rightarrow> Inr None
     | Some v \<Rightarrow> map_sum id Some (load_object c v))))"

definition update_message :: "'st session_manager \<Rightarrow> 'ms session_class \<Rightarrow> string \<Rightarrow> string \<Rightarrow> 'ms \<Rightarrow> (unit, 'st) session_prog" where
  "update_message sm c sid aid m = sp_bind (read_message sm c sid aid (sc_message_id c m)) (\<lambda>old. case old of
     None \<Rightarrow> sp_return (Inl (session_exception (''Message '' @ str_of_int (sc_message_id c m) @ '' does not exist'')))
   | Some y \<Rightarrow> sp_bind (read_messages sm sid aid) (\<lambda>found. case found of
       None \<Rightarrow> sp_return (Inl (session_exception (''Messages not found for agent '' @ aid @ '' in session '' @ sid)))
     | Some vs \<Rightarrow>
        sp_bind (sp_return (replace_message (sc_message_id c m) (dump_object c (sc_keep_created c m y)) vs)) (\<lambda>r. case r of
           None \<Rightarrow> sp_return (Inl (session_exception (''Message '' @ str_of_int (sc_message_id c m) @ '' not found in list'')))
         | Some ws \<Rightarrow> write_messages sm sid aid ws)))"

text \<open>The slices \<open>xs[i:j]\<close> and \<open>xs[i:]\<close>; negative bounds count from the end.\<close>

definition slice_bound :: "int \<Rightarrow> 'x list \<Rightarrow> nat" where
  "slice_bound i xs = (if i < 0 then nat (int (length xs) + i) else nat i)"

definition list_messages ::
  "'st session_manager \<Rightarrow> 'ms session_class \<Rightarrow> string \<Rightarrow> string \<Rightarrow> int option \<Rightarrow> int \<Rightarrow> ('ms list, 'st) session_prog" where
  "list_messages sm c sid aid limit offset = sp_bind (read_messages sm sid aid) (\<lambda>old. sp_return (case old of
     None \<Rightarrow> Inr []
   | Some vs \<Rightarrow> seq_res (map (load_object c) (case limit of
       None \<Rightarrow> drop (slice_bound offset vs) vs
     | Some n \<Rightarrow> drop (slice_bound offset vs) (take (slice_bound (offset + n) vs) vs)))))"

end
