(* ===== verification/SessionStoreProps.thy ===== *)
theory SessionStoreProps
  imports SessionStore
begin

text \<open>
  The session manager implements a plain store of sessions, agents and messages, over any sidecar that keeps state as
  documented and with retried calls, for identifiers without colons.
\<close>

section \<open>Documents in the store\<close>

lemma sp_bind_Some:
  "sp_bind m f s = Some (Inr y, s'') \<longleftrightarrow> (\<exists>x s'. m s = Some (Inr x, s') \<and> f x s' = Some (Inr y, s''))"
  by (auto simp: sp_bind_def split: option.splits sum.splits)

lemma sp_return_Some: "sp_return r s = Some (Inr x, s') \<longleftrightarrow> r = Inr x \<and> s' = s"
  by (auto simp: sp_return_def)

lemmas sp_runs = sp_bind_Some sp_return_Some

text \<open>What a read of each key would give.\<close>

definition docs :: "('st \<Rightarrow> store_view) \<Rightarrow> 'st session_manager \<Rightarrow> 'st \<Rightarrow> string \<Rightarrow> pyval option res" where
  "docs view sm s = (\<lambda>k. document (value_bytes (view s (sm_store sm) k)))"

lemma utf8_encode_nonempty: "s \<noteq> [] \<Longrightarrow> utf8_encode s \<noteq> []"
  by (cases s) (simp_all add: utf8_encode_def utf8_char_def Let_def)

lemma document_raw: "json_doc v \<Longrightarrow> document (utf8_encode (raw_text v)) = Inr (Some v)"
  by (simp add: document_def utf8_encode_nonempty raw_text_nonempty json_loads_raw)

lemma read_state_done:
  assumes "state_sidecar view (sm_stub sm)" and "read_state sm k s = Some (Inr d, s')"
  shows "docs view sm s' = docs view sm s \<and> docs view sm s k = Inr d"
proof -
  from assms(2) obtain r where r: "get_state_call (sm_policy sm) (sm_stub sm) (sm_store sm) k (read_metadata sm) s = Some (Inr r, s')"
    "document (sp_data r) = Inr d"
    by (auto simp: read_state_def split: option.splits sum.splits)
  let ?q = "\<lparr>gq_store = sm_store sm, gq_key = k, gq_metadata = read_metadata sm\<rparr>"
  from r(1) obtain r0 where r0: "call_rpc (sm_policy sm) (rpc_get (sm_stub sm)) ?q s = Some (r0, s')"
    "Inr r = map_sum dapr_grpc_error to_state_response r0"
    by (auto simp: get_state_call_def operation_Some get_request_def in_store_Inr)
  then obtain b e h where b: "r0 = Inr ((b, e), h)" "r = to_state_response ((b, e), h)" by (cases r0) auto
  from assms(1) have "reads view (rpc_get (sm_stub sm))" by (simp add: state_sidecar_def)
  from read_value [OF this r0(1)] b have "view s' = view s" "sp_data r = value_bytes (view s (sm_store sm) k)"
    by (auto simp: to_state_response_def)
  with r(2) show ?thesis by (simp add: docs_def)
qed

lemma write_state_done:
  assumes "state_sidecar view (sm_stub sm)" and "write_state sm k v s = Some (Inr u, s')" and "json_doc v"
  shows "docs view sm s' = (docs view sm s)(k := Inr (Some v))"
proof -
  from assms(2,3) obtain h where "save_state_call (sm_policy sm) (sm_stub sm) (sm_store sm) k (DText (raw_text v)) None
      (session_state_options sm) (write_metadata sm) s = Some (Inr h, s')"
    by (auto simp: write_state_def json_dumps_raw_def json_doc_plain split: option.splits sum.splits)
  then have "perform (sm_policy sm) (sm_stub sm) (sm_store sm)
      (SaveOne k (DText (raw_text v)) None (session_state_options sm) (write_metadata sm)) s = Some (Inr h, s')"
    by (simp add: perform_def)
  from perform_write [OF assms(1) this]
  have "view s' = (view s)(sm_store sm := (view s (sm_store sm))(k \<mapsto> utf8_encode (raw_text v)))"
    by (simp add: write_spec_def data_bytes_def)
  with assms(3) show ?thesis by (auto simp: docs_def document_raw value_bytes_def)
qed

lemma erase_state_done:
  assumes "state_sidecar view (sm_stub sm)" and "erase_state sm k s = Some (Inr u, s')"
  shows "docs view sm s' = (docs view sm s)(k := Inr None)"
proof -
  from assms(2) obtain h where "delete_state (sm_policy sm) (sm_stub sm) (sm_store sm) k None (session_state_options sm) [] s = Some (Inr h, s')"
    by (auto simp: erase_state_def split: option.splits sum.splits)
  then have "perform (sm_policy sm) (sm_stub sm) (sm_store sm) (Remove k None (session_state_options sm) []) s = Some (Inr h, s')"
    by (simp add: perform_def)
  from perform_write [OF assms(1) this] have "view s' = (view s)(sm_store sm := (view s (sm_store sm))(k := None))"
    by (simp add: write_spec_def)
  then show ?thesis by (auto simp: docs_def document_def value_bytes_def)
qed

section \<open>Keys\<close>

definition plain_id :: "string \<Rightarrow> bool" where
  "plain_id i \<longleftrightarrow> CHR '':'' \<notin> set i"

lemma split_colon:
  "plain_id x \<Longrightarrow> plain_id y \<Longrightarrow> x @ CHR '':'' # r = y @ CHR '':'' # r' \<longleftrightarrow> x = y \<and> r = r'"
proof (induction x arbitrary: y)
  case Nil
  then show ?case by (cases y) (auto simp: plain_id_def)
next
  case (Cons c x)
  then show ?case by (cases y) (auto simp: plain_id_def)
qed

lemma keys_differ:
  assumes "plain_id s" and "plain_id t"
  shows "s @ '':session'' = t @ '':session'' \<longleftrightarrow> s = t" and "s @ '':manifest'' = t @ '':manifest'' \<longleftrightarrow> s = t"
    and "s @ '':agents:'' @ i = t @ '':agents:'' @ j \<longleftrightarrow> s = t \<and> i = j"
    and "s @ '':messages:'' @ i = t @ '':messages:'' @ j \<longleftrightarrow> s = t \<and> i = j"
    and "s @ '':session'' \<noteq> t @ '':manifest''" and "s @ '':session'' \<noteq> t @ '':agents:'' @ i" and "s @ '':session'' \<noteq> t @ '':messages:'' @ i"
    and "s @ '':manifest'' \<noteq> t @ '':session''" and "s @ '':manifest'' \<noteq> t @ '':agents:'' @ i" and "s @ '':manifest'' \<noteq> t @ '':messages:'' @ i"
    and "s @ '':agents:'' @ i \<noteq> t @ '':session''" and "s @ '':agents:'' @ i \<noteq> t @ '':manifest''" and "s @ '':agents:'' @ i \<noteq> t @ '':messages:'' @ j"
    and "s @ '':messages:'' @ i \<noteq> t @ '':session''" and "s @ '':messages:'' @ i \<noteq> t @ '':manifest''"
    and "s @ '':messages:'' @ i \<noteq> t @ '':agents:'' @ j"
  using split_colon [OF assms] by simp_all

text \<open>Identifiers with colons can stand for the same key: an agent of one session is another session.\<close>

lemma keys_collide:
  assumes "\<And>i. sm_valid sm i = Inr ()"
  shows "agent_key sm ''x'' ''y:session'' = session_key sm ''x:agents:y''"
  using assms by (simp add: agent_key_def session_key_def)

section \<open>The specification\<close>

record ('se, 'ag, 'ms) session_spec =
  as_session :: "string \<Rightarrow> 'se option"
  as_agent :: "string \<Rightarrow> string \<Rightarrow> 'ag option"
  as_messages :: "string \<Rightarrow> string \<Rightarrow> 'ms list option"
  as_manifest :: "string \<Rightarrow> string list option"

datatype ('se, 'ag, 'ms) session_op =
    CreateSession 'se
  | DeleteSession string
  | CreateAgent string 'ag
  | UpdateAgent string 'ag
  | CreateMessage string string 'ms
  | UpdateMessage string string 'ms

definition messages_or_none :: "'ms list option \<Rightarrow> 'ms list" where
  "messages_or_none x = (case x of None \<Rightarrow> [] | Some ms \<Rightarrow> ms)"

text \<open>The first message with an identifier, and the list with that one replaced.\<close>

fun replace_same :: "('ms \<Rightarrow> int) \<Rightarrow> ('ms \<Rightarrow> 'ms \<Rightarrow> 'ms) \<Rightarrow> 'ms \<Rightarrow> 'ms list \<Rightarrow> 'ms list option" where
  "replace_same mid keep m [] = None"
| "replace_same mid keep m (x # xs) =
    (if mid x = mid m then Some (keep m x # xs) else map_option (Cons x) (replace_same mid keep m xs))"

text \<open>What an operation does; nothing means that it has to raise.\<close>

definition spec_op ::
  "'se session_class \<Rightarrow> 'ag session_class \<Rightarrow> 'ms session_class \<Rightarrow> ('se, 'ag, 'ms) session_op \<Rightarrow>
   ('se, 'ag, 'ms) session_spec \<Rightarrow> ('se, 'ag, 'ms) session_spec option" where
  "spec_op cs ca cm p a = (case p of
     CreateSession x \<Rightarrow> if as_session a (sc_name cs x) \<noteq> None then None
       else Some (a\<lparr>as_session := (as_session a)(sc_name cs x \<mapsto> x)\<rparr>)
   | DeleteSession i \<Rightarrow> (let js = set (messages_or_none (as_manifest a i)) in
       Some (a\<lparr>as_agent := (as_agent a)(i := (\<lambda>j. if j \<in> js then None else as_agent a i j)),
         as_messages := (as_messages a)(i := (\<lambda>j. if j \<in> js then None else as_messages a i j)),
         as_manifest := (as_manifest a)(i := None), as_session := (as_session a)(i := None)\<rparr>))
   | CreateAgent i x \<Rightarrow> (let j = sc_name ca x; js = messages_or_none (as_manifest a i) in
       Some (a\<lparr>as_agent := (as_agent a)(i := (as_agent a i)(j \<mapsto> x)), as_messages := (as_messages a)(i := (as_messages a i)(j \<mapsto> [])),
         as_manifest := (as_manifest a)(i \<mapsto> (if j \<in> set js then js else js @ [j]))\<rparr>))
   | UpdateAgent i x \<Rightarrow> (case as_agent a i (sc_name ca x) of
       None \<Rightarrow> None
     | Some y \<Rightarrow> Some (a\<lparr>as_agent := (as_agent a)(i := (as_agent a i)(sc_name ca x \<mapsto> sc_keep_created ca x y))\<rparr>))
   | CreateMessage i j m \<Rightarrow>
       Some (a\<lparr>as_messages := (as_messages a)(i := (as_messages a i)(j \<mapsto> messages_or_none (as_messages a i j) @ [m]))\<rparr>)
   | UpdateMessage i j m \<Rightarrow> (case replace_same (sc_message_id cm) (sc_keep_created cm) m (messages_or_none (as_messages a i j)) of
       None \<Rightarrow> None
     | Some ms \<Rightarrow> Some (a\<lparr>as_messages := (as_messages a)(i := (as_messages a i)(j \<mapsto> ms))\<rparr>)))"

definition session_op ::
  "'st session_manager \<Rightarrow> 'se session_class \<Rightarrow> 'ag session_class \<Rightarrow> 'ms session_class \<Rightarrow> ('se, 'ag, 'ms) session_op \<Rightarrow>
   (unit, 'st) session_prog" where
  "session_op sm cs ca cm p = (case p of
     CreateSession x \<Rightarrow> sp_bind (create_session sm cs x) (\<lambda>_. sp_return (Inr ()))
   | DeleteSession i \<Rightarrow> delete_session sm i
   | CreateAgent i x \<Rightarrow> create_agent sm ca i x
   | UpdateAgent i x \<Rightarrow> update_agent sm ca i x
   | CreateMessage i j m \<Rightarrow> create_message sm cm i j m
   | UpdateMessage i j m \<Rightarrow> update_message sm cm i j m)"

text \<open>The documents that stand for a state of the specification.\<close>

definition manifest_document :: "string list \<Rightarrow> pyval" where
  "manifest_document js = PDict [(''agents'', PList (map PStr js))]"

definition stands_for ::
  "'se session_class \<Rightarrow> 'ag session_class \<Rightarrow> 'ms session_class \<Rightarrow> (string \<Rightarrow> pyval option res) \<Rightarrow> ('se, 'ag, 'ms) session_spec \<Rightarrow> bool" where
  "stands_for cs ca cm D a \<longleftrightarrow> (\<forall>i j. plain_id i \<longrightarrow> plain_id j \<longrightarrow>
     D (i @ '':session'') = Inr (map_option (dump_object cs) (as_session a i)) \<and>
     D (i @ '':agents:'' @ j) = Inr (map_option (dump_object ca) (as_agent a i j)) \<and>
     D (i @ '':messages:'' @ j) = Inr (map_option (\<lambda>ms. messages_document (map (dump_object cm) ms)) (as_messages a i j)) \<and>
     D (i @ '':manifest'') = Inr (map_option manifest_document (as_manifest a i)) \<and>
     list_all plain_id (messages_or_none (as_manifest a i)))"

text \<open>Classes whose objects are JSON documents and come back from their dicts.\<close>

definition documents_ok :: "'x session_class \<Rightarrow> bool" where
  "documents_ok c \<longleftrightarrow> (\<forall>x. json_doc (PDict (sc_to_dict c x)) \<and> sc_from_dict c (sc_to_dict c x) = Inr x) \<and>
     (\<forall>x y. sc_name c (sc_keep_created c x y) = sc_name c x)"

definition messages_ok :: "'x session_class \<Rightarrow> bool" where
  "messages_ok c \<longleftrightarrow> documents_ok c \<and> (\<forall>x. dict_get (sc_to_dict c x) ''message_id'' = Some (PInt (sc_message_id c x)))"

definition op_plain :: "'se session_class \<Rightarrow> 'ag session_class \<Rightarrow> ('se, 'ag, 'ms) session_op \<Rightarrow> bool" where
  "op_plain cs ca p = (case p of
     CreateSession x \<Rightarrow> plain_id (sc_name cs x)
   | DeleteSession i \<Rightarrow> plain_id i
   | CreateAgent i x \<Rightarrow> plain_id i \<and> plain_id (sc_name ca x)
   | UpdateAgent i x \<Rightarrow> plain_id i \<and> plain_id (sc_name ca x)
   | CreateMessage i j m \<Rightarrow> plain_id i \<and> plain_id j
   | UpdateMessage i j m \<Rightarrow> plain_id i \<and> plain_id j)"


section \<open>Reading\<close>

lemma key_forms:
  "session_key sm i = Inr k \<Longrightarrow> k = i @ '':session''" "agent_key sm i j = Inr k \<Longrightarrow> k = i @ '':agents:'' @ j"
  "messages_key sm i j = Inr k \<Longrightarrow> k = i @ '':messages:'' @ j" "manifest_key sm i = Inr k \<Longrightarrow> k = i @ '':manifest''"
  by (auto simp: session_key_def agent_key_def messages_key_def manifest_key_def res_bind_Inr_iff)

lemma load_dumped: "documents_ok c \<Longrightarrow> load_object c (dump_object c x) = Inr x"
  by (simp add: documents_ok_def load_object_def dump_object_def)

lemma doc_dumped: "documents_ok c \<Longrightarrow> json_doc (dump_object c x)"
  by (simp add: documents_ok_def dump_object_def)

lemma read_object_done:
  assumes "state_sidecar view (sm_stub sm)" and "documents_ok c" and "read_object sm c key s = Some (Inr r, s')"
  obtains k where "key = Inr k" and "docs view sm s' = docs view sm s"
    and "\<And>x. docs view sm s k = Inr (map_option (dump_object c) x) \<Longrightarrow> r = x"
proof -
  from assms(3) obtain k d where k: "key = Inr k" "read_state sm k s = Some (Inr d, s')"
    and r: "(case d of None \<Rightarrow> Inr None | Some v \<Rightarrow> map_sum id Some (load_object c v)) = Inr r"
    by (auto simp: read_object_def sp_runs)
  note rd = read_state_done [OF assms(1) k(2)]
  have "r = x" if "docs view sm s k = Inr (map_option (dump_object c) x)" for x
    using that rd r by (cases x) (auto simp: load_dumped [OF assms(2)])
  with k(1) rd that show ?thesis by blast
qed

lemma read_messages_done:
  assumes "state_sidecar view (sm_stub sm)" and "read_messages sm i j s = Some (Inr r, s')"
  shows "docs view sm s' = docs view sm s"
    and "docs view sm s (i @ '':messages:'' @ j) = Inr (map_option messages_document x) \<Longrightarrow> r = x"
proof -
  from assms(2) obtain k d where k: "messages_key sm i j = Inr k" "read_state sm k s = Some (Inr d, s')"
    and r: "(case d of None \<Rightarrow> Inr None | Some v \<Rightarrow> map_sum id Some (stored_messages v)) = Inr r"
    by (auto simp: read_messages_def sp_runs)
  note rd = read_state_done [OF assms(1) k(2)]
  from rd show "docs view sm s' = docs view sm s" ..
  show "docs view sm s (i @ '':messages:'' @ j) = Inr (map_option messages_document x) \<Longrightarrow> r = x"
    using rd r key_forms(3) [OF k(1)]
    by (cases x) (auto simp: stored_messages_def messages_document_def member_or_empty_def list_or_empty_def dict_simps)
qed

lemma write_messages_done:
  assumes "state_sidecar view (sm_stub sm)" and "write_messages sm i j vs s = Some (Inr u, s')" and "list_all json_doc vs"
  shows "docs view sm s' = (docs view sm s)(i @ '':messages:'' @ j := Inr (Some (messages_document vs)))"
proof -
  from assms(2) obtain k where k: "messages_key sm i j = Inr k" "write_state sm k (messages_document vs) s = Some (Inr u, s')"
    by (auto simp: write_messages_def sp_runs)
  have "json_doc (messages_document vs)" using assms(3) by (simp add: messages_document_def list_all_iff dict_simps)
  from write_state_done [OF assms(1) k(2) this] key_forms(3) [OF k(1)] show ?thesis by simp
qed

lemma find_dumped:
  assumes "messages_ok c"
  shows "find_message i (map (dump_object c) ms) = Inr (map_option (dump_object c) (find (\<lambda>x. sc_message_id c x = i) ms))"
  using assms by (induction ms) (auto simp: messages_ok_def has_message_id_def dump_object_def)

lemma replace_dumped:
  assumes "messages_ok c" and "find (\<lambda>x. sc_message_id c x = sc_message_id c m) ms = Some y"
  shows "replace_message (sc_message_id c m) (dump_object c (sc_keep_created c m y)) (map (dump_object c) ms) =
    Inr (map_option (map (dump_object c)) (replace_same (sc_message_id c) (sc_keep_created c) m ms))"
  using assms by (induction ms) (auto simp: messages_ok_def has_message_id_def dump_object_def option.map_comp comp_def)

lemma replace_found: "replace_same mid keep m ms = None \<longleftrightarrow> find (\<lambda>x. mid x = mid m) ms = None"
  by (induction ms) auto


section \<open>Operations\<close>

lemma stands_forD:
  assumes "stands_for cs ca cm D a" and "plain_id i"
  shows "D (i @ '':session'') = Inr (map_option (dump_object cs) (as_session a i))"
    and "plain_id j \<Longrightarrow> D (i @ '':agents:'' @ j) = Inr (map_option (dump_object ca) (as_agent a i j))"
    and "plain_id j \<Longrightarrow> D (i @ '':messages:'' @ j) = Inr (map_option messages_document (map_option (map (dump_object cm)) (as_messages a i j)))"
    and "D (i @ '':manifest'') = Inr (map_option manifest_document (as_manifest a i))"
    and "list_all plain_id (messages_or_none (as_manifest a i))"
  using assms by (auto simp: stands_for_def option.map_comp comp_def)

text \<open>Changing the document of one key changes one component of the state that the documents stand for.\<close>

lemma stands_for_session:
  "stands_for cs ca cm D a \<Longrightarrow> plain_id i \<Longrightarrow>
   stands_for cs ca cm (D(i @ '':session'' := Inr (map_option (dump_object cs) x))) (a\<lparr>as_session := (as_session a)(i := x)\<rparr>)"
  unfolding stands_for_def by (intro allI impI conjI) (simp_all add: keys_differ del: append.simps)

lemma stands_for_agent:
  "stands_for cs ca cm D a \<Longrightarrow> plain_id i \<Longrightarrow> plain_id j \<Longrightarrow>
   stands_for cs ca cm (D(i @ '':agents:'' @ j := Inr (map_option (dump_object ca) x)))
     (a\<lparr>as_agent := (as_agent a)(i := (as_agent a i)(j := x))\<rparr>)"
  unfolding stands_for_def by (intro allI impI conjI) (simp_all add: keys_differ del: append.simps)

lemma stands_for_messages:
  "stands_for cs ca cm D a \<Longrightarrow> plain_id i \<Longrightarrow> plain_id j \<Longrightarrow>
   stands_for cs ca cm (D(i @ '':messages:'' @ j := Inr (map_option (\<lambda>ms. messages_document (map (dump_object cm) ms)) x)))
     (a\<lparr>as_messages := (as_messages a)(i := (as_messages a i)(j := x))\<rparr>)"
  unfolding stands_for_def by (intro allI impI conjI) (simp_all add: keys_differ del: append.simps)

lemma stands_for_manifest:
  "stands_for cs ca cm D a \<Longrightarrow> plain_id i \<Longrightarrow> list_all plain_id (messages_or_none x) \<Longrightarrow>
   stands_for cs ca cm (D(i @ '':manifest'' := Inr (map_option manifest_document x))) (a\<lparr>as_manifest := (as_manifest a)(i := x)\<rparr>)"
  unfolding stands_for_def by (intro allI impI conjI) (simp_all add: keys_differ del: append.simps)


lemma create_session_done:
  assumes "state_sidecar view (sm_stub sm)" and "documents_ok cs" and "stands_for cs ca cm (docs view sm s) a" and "plain_id (sc_name cs x)"
    and "create_session sm cs x s = Some (Inr y, s')"
  shows "as_session a (sc_name cs x) = None"
    and "stands_for cs ca cm (docs view sm s') (a\<lparr>as_session := (as_session a)(sc_name cs x \<mapsto> x)\<rparr>)"
proof -
  from assms(5) obtain k s1 where k: "session_key sm (sc_name cs x) = Inr k"
    and rd: "read_object sm cs (session_key sm (sc_name cs x)) s = Some (Inr None, s1)"
    and wr: "write_state sm k (dump_object cs x) s1 = Some (Inr (), s')"
    by (auto simp: create_session_def read_session_def sp_runs split: if_splits)
  note key = key_forms(1) [OF k]
  from read_object_done [OF assms(1,2) rd] k obtain same: "docs view sm s1 = docs view sm s"
    and none: "\<And>z. docs view sm s k = Inr (map_option (dump_object cs) z) \<Longrightarrow> None = z" by fastforce
  from none [of "as_session a (sc_name cs x)"] stands_forD(1) [OF assms(3,4)] key have none: "as_session a (sc_name cs x) = None" by simp
  from none show "as_session a (sc_name cs x) = None" .
  from stands_for_session [OF assms(3,4), of "Some x"] write_state_done [OF assms(1) wr doc_dumped [OF assms(2)]] same key
  show "stands_for cs ca cm (docs view sm s') (a\<lparr>as_session := (as_session a)(sc_name cs x \<mapsto> x)\<rparr>)" by simp
qed

lemma update_agent_done:
  assumes "state_sidecar view (sm_stub sm)" and "documents_ok ca" and "stands_for cs ca cm (docs view sm s) a"
    and "plain_id i" and "plain_id (sc_name ca x)" and "update_agent sm ca i x s = Some (Inr u, s')"
  obtains y where "as_agent a i (sc_name ca x) = Some y"
    and "stands_for cs ca cm (docs view sm s') (a\<lparr>as_agent := (as_agent a)(i := (as_agent a i)(sc_name ca x \<mapsto> sc_keep_created ca x y))\<rparr>)"
proof -
  let ?j = "sc_name ca x"
  from assms(6) obtain k y s1 where k: "agent_key sm i ?j = Inr k"
    and rd: "read_object sm ca (agent_key sm i ?j) s = Some (Inr (Some y), s1)"
    and wr: "write_state sm k (dump_object ca (sc_keep_created ca x y)) s1 = Some (Inr (), s')"
    by (auto simp: update_agent_def read_agent_def sp_runs split: option.splits)
  note key = key_forms(2) [OF k]
  from read_object_done [OF assms(1,2) rd] k obtain same: "docs view sm s1 = docs view sm s"
    and old: "\<And>z. docs view sm s k = Inr (map_option (dump_object ca) z) \<Longrightarrow> Some y = z" by fastforce
  from old [of "as_agent a i ?j"] stands_forD(2) [OF assms(3-5)] key have old: "as_agent a i ?j = Some y" by simp
  from stands_for_agent [OF assms(3-5), of "Some (sc_keep_created ca x y)"]
    write_state_done [OF assms(1) wr doc_dumped [OF assms(2)]] same key
  show ?thesis by (intro that [OF old]) simp
qed

lemma create_message_done:
  assumes "state_sidecar view (sm_stub sm)" and "documents_ok cm" and "stands_for cs ca cm (docs view sm s) a"
    and "plain_id i" and "plain_id j" and "create_message sm cm i j m s = Some (Inr u, s')"
  shows "stands_for cs ca cm (docs view sm s')
    (a\<lparr>as_messages := (as_messages a)(i := (as_messages a i)(j \<mapsto> messages_or_none (as_messages a i j) @ [m]))\<rparr>)"
proof -
  from assms(6) obtain r s1 where rd: "read_messages sm i j s = Some (Inr r, s1)"
    and wr: "write_messages sm i j ((case r of None \<Rightarrow> [] | Some vs \<Rightarrow> vs) @ [dump_object cm m]) s1 = Some (Inr (), s')"
    by (auto simp: create_message_def sp_runs)
  from read_messages_done [OF assms(1) rd] stands_forD(3) [OF assms(3-5)]
  have same: "docs view sm s1 = docs view sm s" and r: "r = map_option (map (dump_object cm)) (as_messages a i j)" by auto
  have "(case r of None \<Rightarrow> [] | Some vs \<Rightarrow> vs) @ [dump_object cm m] = map (dump_object cm) (messages_or_none (as_messages a i j) @ [m])"
    by (cases "as_messages a i j") (simp_all add: r messages_or_none_def)
  moreover have "list_all json_doc (map (dump_object cm) (messages_or_none (as_messages a i j) @ [m]))"
    using doc_dumped [OF assms(2)] by (simp add: list_all_iff)
  ultimately show ?thesis
    using stands_for_messages [OF assms(3-5), of "Some (messages_or_none (as_messages a i j) @ [m])"]
      write_messages_done [OF assms(1) wr] same by simp
qed

lemma update_message_done:
  assumes "state_sidecar view (sm_stub sm)" and "messages_ok cm" and "stands_for cs ca cm (docs view sm s) a"
    and "plain_id i" and "plain_id j" and "update_message sm cm i j m s = Some (Inr u, s')"
  obtains ms where "replace_same (sc_message_id cm) (sc_keep_created cm) m (messages_or_none (as_messages a i j)) = Some ms"
    and "stands_for cs ca cm (docs view sm s') (a\<lparr>as_messages := (as_messages a)(i := (as_messages a i)(j \<mapsto> ms))\<rparr>)"
proof -
  let ?old = "messages_or_none (as_messages a i j)"
  have ok: "documents_ok cm" using assms(2) by (simp add: messages_ok_def)
  from assms(6) obtain y s1 vs s2 ws where rm: "read_message sm cm i j (sc_message_id cm m) s = Some (Inr (Some y), s1)"
    and again: "read_messages sm i j s1 = Some (Inr (Some vs), s2)"
    and repl: "replace_message (sc_message_id cm m) (dump_object cm (sc_keep_created cm m y)) vs = Inr (Some ws)"
    and wr: "write_messages sm i j ws s2 = Some (Inr (), s')"
    by (auto simp: update_message_def sp_runs split: option.splits)
  have some: "map_sum id Some x = Inr (Some y) \<longleftrightarrow> x = Inr y" for x :: "'b res" by (cases x) auto
  from rm obtain r v where rd: "read_messages sm i j s = Some (Inr r, s1)"
    and found: "find_message (sc_message_id cm m) (case r of None \<Rightarrow> [] | Some vs \<Rightarrow> vs) = Inr (Some v)" "load_object cm v = Inr y"
    by (auto simp: read_message_def sp_runs res_bind_Inr_iff some split: option.splits)
  note D = stands_forD(3) [OF assms(3-5)]
  from read_messages_done [OF assms(1) rd] D
  have same: "docs view sm s1 = docs view sm s" and r: "r = map_option (map (dump_object cm)) (as_messages a i j)" by auto
  from read_messages_done [OF assms(1) again] D same
  have same2: "docs view sm s2 = docs view sm s" and "Some vs = map_option (map (dump_object cm)) (as_messages a i j)" by auto
  then have vs: "vs = map (dump_object cm) ?old" by (cases "as_messages a i j") (auto simp: messages_or_none_def)
  have "(case r of None \<Rightarrow> [] | Some vs \<Rightarrow> vs) = map (dump_object cm) ?old"
    by (cases "as_messages a i j") (simp_all add: r messages_or_none_def)
  with found have "find (\<lambda>x. sc_message_id cm x = sc_message_id cm m) ?old = Some y"
    by (auto simp: find_dumped [OF assms(2)] load_dumped [OF ok])
  from replace_dumped [OF assms(2) this] repl vs
  obtain ms where ms: "replace_same (sc_message_id cm) (sc_keep_created cm) m ?old = Some ms" "ws = map (dump_object cm) ms" by auto
  have "list_all json_doc ws" using doc_dumped [OF ok] by (simp add: ms(2) list_all_iff)
  from stands_for_messages [OF assms(3-5), of "Some ms"] write_messages_done [OF assms(1) wr this] same2 ms(2)
  show ?thesis by (intro that [OF ms(1)]) simp
qed

text \<open>The manifest with one more agent.\<close>

definition with_agent :: "string \<Rightarrow> string list \<Rightarrow> string list" where
  "with_agent j js = (if j \<in> set js then js else js @ [j])"

lemma add_agent_manifest:
  "add_agent j (manifest_of (map_option manifest_document x)) = Inr (manifest_document (with_agent j (messages_or_none x)))"
  by (cases x) (auto simp: add_agent_def manifest_of_def manifest_document_def messages_or_none_def with_agent_def py_contains_def
      dict_simps)

lemma create_agent_done:
  assumes "state_sidecar view (sm_stub sm)" and "documents_ok ca" and "stands_for cs ca cm (docs view sm s) a"
    and "plain_id i" and "plain_id (sc_name ca x)" and "create_agent sm ca i x s = Some (Inr u, s')"
  defines "j \<equiv> sc_name ca x"
  shows "stands_for cs ca cm (docs view sm s') (a\<lparr>as_agent := (as_agent a)(i := (as_agent a i)(j \<mapsto> x)),
    as_messages := (as_messages a)(i := (as_messages a i)(j \<mapsto> [])),
    as_manifest := (as_manifest a)(i \<mapsto> with_agent j (messages_or_none (as_manifest a i)))\<rparr>)"
proof -
  from assms(6) obtain k1 s1 k2 s2 k3 d s3 v where k1: "agent_key sm i j = Inr k1"
    and w1: "write_state sm k1 (dump_object ca x) s = Some (Inr (), s1)"
    and k2: "messages_key sm i j = Inr k2" and w2: "write_state sm k2 (messages_document []) s1 = Some (Inr (), s2)"
    and k3: "manifest_key sm i = Inr k3" and rd: "read_state sm k3 s2 = Some (Inr d, s3)"
    and v: "add_agent j (manifest_of d) = Inr v" and w3: "write_state sm k3 v s3 = Some (Inr (), s')"
    unfolding create_agent_def sp_runs j_def by fastforce
  note keys = key_forms(2) [OF k1] key_forms(3) [OF k2] key_forms(4) [OF k3]
  have p: "plain_id j" using assms(5) by (simp add: j_def)
  let ?a1 = "a\<lparr>as_agent := (as_agent a)(i := (as_agent a i)(j \<mapsto> x))\<rparr>"
  let ?a2 = "?a1\<lparr>as_messages := (as_messages a)(i := (as_messages a i)(j \<mapsto> []))\<rparr>"
  have "stands_for cs ca cm (docs view sm s1) ?a1"
    using stands_for_agent [OF assms(3,4) p, of "Some x"] write_state_done [OF assms(1) w1 doc_dumped [OF assms(2)]] keys by simp
  moreover have "json_doc (messages_document [])" by (simp add: messages_document_def dict_simps)
  ultimately have a2: "stands_for cs ca cm (docs view sm s2) ?a2"
    using stands_for_messages [OF _ assms(4) p, of cs ca cm "docs view sm s1" ?a1 "Some []"] write_state_done [OF assms(1) w2] keys
    by simp
  from read_state_done [OF assms(1) rd] stands_forD(4) [OF a2 assms(4)] keys
  have same: "docs view sm s3 = docs view sm s2" and "d = map_option manifest_document (as_manifest a i)" by simp_all
  with v have v: "v = manifest_document (with_agent j (messages_or_none (as_manifest a i)))" by (simp add: add_agent_manifest)
  have "json_doc v" by (simp add: v manifest_document_def dict_simps)
  moreover have "list_all plain_id (messages_or_none (Some (with_agent j (messages_or_none (as_manifest a i)))))"
    using stands_forD(5) [OF assms(3,4)] p by (simp add: with_agent_def messages_or_none_def)
  ultimately show ?thesis
    using stands_for_manifest [OF a2 assms(4), of "Some (with_agent j (messages_or_none (as_manifest a i)))"]
      write_state_done [OF assms(1) w3] same keys v by simp
qed

text \<open>A state of the specification with some agents of a session and their messages erased.\<close>

definition without_agents :: "string \<Rightarrow> string set \<Rightarrow> ('se, 'ag, 'ms) session_spec \<Rightarrow> ('se, 'ag, 'ms) session_spec" where
  "without_agents i js a = a\<lparr>as_agent := (as_agent a)(i := (\<lambda>j. if j \<in> js then None else as_agent a i j)),
     as_messages := (as_messages a)(i := (\<lambda>j. if j \<in> js then None else as_messages a i j))\<rparr>"

lemma delete_agents_done:
  assumes "state_sidecar view (sm_stub sm)" and "plain_id i"
  shows "stands_for cs ca cm (docs view sm s) a \<Longrightarrow> list_all plain_id js \<Longrightarrow>
    delete_agents sm i (map PStr js) s = Some (Inr u, s') \<Longrightarrow> stands_for cs ca cm (docs view sm s') (without_agents i (set js) a)"
proof (induction js arbitrary: s a)
  case Nil
  then show ?case by (simp add: sp_runs without_agents_def)
next
  case (Cons j js)
  from Cons.prems(3) obtain k1 k2 s1 s2 where k1: "agent_key sm i j = Inr k1" and k2: "messages_key sm i j = Inr k2"
    and e1: "erase_state sm k1 s = Some (Inr (), s1)" and e2: "erase_state sm k2 s1 = Some (Inr (), s2)"
    and rest: "delete_agents sm i (map PStr js) s2 = Some (Inr u, s')"
    by (auto simp: sp_runs)
  note keys = key_forms(2) [OF k1] key_forms(3) [OF k2]
  have p: "plain_id j" "list_all plain_id js" using Cons.prems(2) by simp_all
  let ?a1 = "a\<lparr>as_agent := (as_agent a)(i := (as_agent a i)(j := None))\<rparr>"
  let ?a2 = "?a1\<lparr>as_messages := (as_messages a)(i := (as_messages a i)(j := None))\<rparr>"
  have "stands_for cs ca cm (docs view sm s1) ?a1"
    using stands_for_agent [OF Cons.prems(1) assms(2) p(1), of None] erase_state_done [OF assms(1) e1] keys by simp
  from stands_for_messages [OF this assms(2) p(1), of None] erase_state_done [OF assms(1) e2] keys
  have "stands_for cs ca cm (docs view sm s2) ?a2" by simp
  from Cons.IH [OF this p(2) rest] have "stands_for cs ca cm (docs view sm s') (without_agents i (set js) ?a2)" .
  moreover have "without_agents i (set js) ?a2 = without_agents i (set (j # js)) a"
    by (cases a) (auto simp: without_agents_def fun_eq_iff)
  ultimately show ?case by simp
qed

lemma agent_names_manifest: "agent_names (map_option manifest_document x) = Inr (map PStr (messages_or_none x))"
  by (cases x) (simp_all add: agent_names_def manifest_document_def messages_or_none_def member_or_empty_def dict_simps)

lemma delete_session_done:
  assumes "state_sidecar view (sm_stub sm)" and "stands_for cs ca cm (docs view sm s) a"
    and "plain_id i" and "delete_session sm i s = Some (Inr u, s')"
  shows "stands_for cs ca cm (docs view sm s') ((without_agents i (set (messages_or_none (as_manifest a i))) a)
    \<lparr>as_manifest := (as_manifest a)(i := None), as_session := (as_session a)(i := None)\<rparr>)"
proof -
  from assms(4) obtain k1 k2 d s1 vs s2 s3 where k: "session_key sm i = Inr k1" "manifest_key sm i = Inr k2"
    and rd: "read_state sm k2 s = Some (Inr d, s1)" and vs: "agent_names d = Inr vs"
    and del: "delete_agents sm i vs s1 = Some (Inr (), s2)" and e1: "erase_state sm k2 s2 = Some (Inr (), s3)"
    and e2: "erase_state sm k1 s3 = Some (Inr (), s')"
    unfolding delete_session_def sp_runs by fastforce
  note keys = key_forms(1) [OF k(1)] key_forms(4) [OF k(2)]
  let ?js = "messages_or_none (as_manifest a i)"
  let ?b = "without_agents i (set ?js) a"
  from read_state_done [OF assms(1) rd] stands_forD(4) [OF assms(2,3)] keys
  have same: "docs view sm s1 = docs view sm s" and "d = map_option manifest_document (as_manifest a i)" by simp_all
  with vs have "vs = map PStr ?js" by (simp add: agent_names_manifest)
  with delete_agents_done [OF assms(1,3) _ stands_forD(5) [OF assms(2,3)], of cs ca cm s1 a] assms(2) same del
  have b: "stands_for cs ca cm (docs view sm s2) ?b" by simp
  have "as_manifest ?b = as_manifest a" "as_session ?b = as_session a" by (simp_all add: without_agents_def)
  with stands_for_manifest [OF b assms(3), of None] erase_state_done [OF assms(1) e1] keys
  have "stands_for cs ca cm (docs view sm s3) (?b\<lparr>as_manifest := (as_manifest a)(i := None)\<rparr>)"
    by (simp add: messages_or_none_def)
  from stands_for_session [OF this assms(3), of None] erase_state_done [OF assms(1) e2] keys
    \<open>as_session ?b = as_session a\<close> show ?thesis by simp
qed

section \<open>Runs\<close>

fun session_ops ::
  "'st session_manager \<Rightarrow> 'se session_class \<Rightarrow> 'ag session_class \<Rightarrow> 'ms session_class \<Rightarrow> ('se, 'ag, 'ms) session_op list \<Rightarrow>
   (unit, 'st) session_prog" where
  "session_ops sm cs ca cm [] = sp_return (Inr ())"
| "session_ops sm cs ca cm (p # ps) = sp_bind (session_op sm cs ca cm p) (\<lambda>_. session_ops sm cs ca cm ps)"

fun spec_ops ::
  "'se session_class \<Rightarrow> 'ag session_class \<Rightarrow> 'ms session_class \<Rightarrow> ('se, 'ag, 'ms) session_op list \<Rightarrow>
   ('se, 'ag, 'ms) session_spec \<Rightarrow> ('se, 'ag, 'ms) session_spec option" where
  "spec_ops cs ca cm [] a = Some a"
| "spec_ops cs ca cm (p # ps) a = Option.bind (spec_op cs ca cm p a) (spec_ops cs ca cm ps)"

lemma session_op_done:
  assumes "state_sidecar view (sm_stub sm)" and "documents_ok cs" and "documents_ok ca" and "messages_ok cm"
    and "stands_for cs ca cm (docs view sm s) a" and "op_plain cs ca p" and "session_op sm cs ca cm p s = Some (Inr u, s')"
  shows "\<exists>a'. spec_op cs ca cm p a = Some a' \<and> stands_for cs ca cm (docs view sm s') a'"
proof -
  have cm: "documents_ok cm" using assms(4) by (simp add: messages_ok_def)
  show ?thesis
  proof (cases p)
    case (CreateSession x)
    with assms(6,7) obtain y where "plain_id (sc_name cs x)" "create_session sm cs x s = Some (Inr y, s')"
      by (auto simp: op_plain_def session_op_def sp_runs)
    from create_session_done [OF assms(1,2,5) this] CreateSession show ?thesis by (simp add: spec_op_def)
  next
    case (DeleteSession i)
    with assms(6,7) delete_session_done [OF assms(1,5), of i u s'] show ?thesis
      by (simp add: op_plain_def session_op_def spec_op_def without_agents_def Let_def)
  next
    case (CreateAgent i x)
    with assms(6,7) create_agent_done [OF assms(1,3,5), of i x u s'] show ?thesis
      by (simp add: op_plain_def session_op_def spec_op_def with_agent_def Let_def)
  next
    case (UpdateAgent i x)
    with assms(6,7) have "plain_id i" "plain_id (sc_name ca x)" "update_agent sm ca i x s = Some (Inr u, s')"
      by (simp_all add: op_plain_def session_op_def)
    then obtain y where "as_agent a i (sc_name ca x) = Some y"
      and "stands_for cs ca cm (docs view sm s') (a\<lparr>as_agent := (as_agent a)(i := (as_agent a i)(sc_name ca x \<mapsto> sc_keep_created ca x y))\<rparr>)"
      by (rule update_agent_done [OF assms(1,3,5)])
    with UpdateAgent show ?thesis by (simp add: spec_op_def)
  next
    case (CreateMessage i j m)
    with assms(6,7) create_message_done [OF assms(1) cm assms(5), of i j m u s'] show ?thesis
      by (simp add: op_plain_def session_op_def spec_op_def)
  next
    case (UpdateMessage i j m)
    with assms(6,7) have "plain_id i" "plain_id j" "update_message sm cm i j m s = Some (Inr u, s')"
      by (simp_all add: op_plain_def session_op_def)
    then obtain ms where "replace_same (sc_message_id cm) (sc_keep_created cm) m (messages_or_none (as_messages a i j)) = Some ms"
      and "stands_for cs ca cm (docs view sm s') (a\<lparr>as_messages := (as_messages a)(i := (as_messages a i)(j \<mapsto> ms))\<rparr>)"
      by (rule update_message_done [OF assms(1,4,5)])
    with UpdateMessage show ?thesis by (simp add: spec_op_def)
  qed
qed

lemma session_ops_done:
  assumes "state_sidecar view (sm_stub sm)" and "documents_ok cs" and "documents_ok ca" and "messages_ok cm"
  shows "stands_for cs ca cm (docs view sm s) a \<Longrightarrow> list_all (op_plain cs ca) ps \<Longrightarrow>
    session_ops sm cs ca cm ps s = Some (Inr u, s') \<Longrightarrow>
    \<exists>a'. spec_ops cs ca cm ps a = Some a' \<and> stands_for cs ca cm (docs view sm s') a'"
proof (induction ps arbitrary: s a)
  case (Cons p ps)
  then obtain s1 where "session_op sm cs ca cm p s = Some (Inr (), s1)" "session_ops sm cs ca cm ps s1 = Some (Inr u, s')"
    by (auto simp: sp_runs)
  with Cons session_op_done [OF assms Cons.prems(1), of p "()" s1] show ?case by fastforce
qed (simp add: sp_runs)

lemma list_messages_done:
  assumes "state_sidecar view (sm_stub sm)" and "documents_ok cm" and "stands_for cs ca cm (docs view sm s) a"
    and "plain_id i" and "plain_id j" and "list_messages sm cm i j limit offset s = Some (Inr ms, s')"
  shows "ms = (let xs = messages_or_none (as_messages a i j) in case limit of
     None \<Rightarrow> drop (slice_bound offset xs) xs
   | Some n \<Rightarrow> drop (slice_bound offset xs) (take (slice_bound (offset + n) xs) xs))"
proof -
  from assms(6) obtain r where rd: "read_messages sm i j s = Some (Inr r, s')"
    and ms: "(case r of None \<Rightarrow> Inr [] | Some vs \<Rightarrow> seq_res (map (load_object cm) (case limit of
       None \<Rightarrow> drop (slice_bound offset vs) vs
     | Some n \<Rightarrow> drop (slice_bound offset vs) (take (slice_bound (offset + n) vs) vs)))) = Inr ms"
    by (auto simp: list_messages_def sp_runs)
  from read_messages_done(2) [OF assms(1) rd] stands_forD(3) [OF assms(3-5)]
  have r: "r = map_option (map (dump_object cm)) (as_messages a i j)" by simp
  have loads: "seq_res (map (load_object cm) (map (dump_object cm) xs)) = Inr xs" for xs
    by (simp add: seq_res_Inr_iff load_dumped [OF assms(2)])
  have cut: "drop n (take m (map (dump_object cm) xs)) = map (dump_object cm) (drop n (take m xs))"
    "drop n (map (dump_object cm) xs) = map (dump_object cm) (drop n xs)" for m n xs
    by (simp_all add: drop_map take_map)
  have slices: "slice_bound k (map (dump_object cm) xs) = slice_bound k xs" for k xs by (simp add: slice_bound_def)
  show ?thesis
  proof (cases "as_messages a i j")
    case None
    with ms r show ?thesis by (auto simp: messages_or_none_def Let_def split: option.splits)
  next
    case (Some xs)
    with ms r show ?thesis
      by (cases limit) (simp_all add: messages_or_none_def slices cut loads del: map_map)
  qed
qed

text \<open>
  C31. The session manager implements a plain store: over any sidecar that keeps state as documented (a call may fail, may be
  retried, and may have had its effect although it failed), for classes whose objects come back from their dicts and for
  identifiers without colons, operations that all return have done on the documents what the specification does: no
  agent or message of another session is touched, a session created twice is refused, an update keeps the time of
  creation and needs what it updates, and deleting a session removes exactly the agents of its manifest. What is read
  afterwards is what the specification holds; messages come in the order of their creation, cut as the slice asks.
\<close>

theorem session_store_refines:
  assumes "state_sidecar view (sm_stub sm)" and "documents_ok cs" and "documents_ok ca" and "messages_ok cm"
    and "stands_for cs ca cm (docs view sm s) a" and "list_all (op_plain cs ca) ps"
    and "session_ops sm cs ca cm ps s = Some (Inr (), s')"
  shows "\<exists>a'. spec_ops cs ca cm ps a = Some a' \<and> stands_for cs ca cm (docs view sm s') a' \<and>
    (\<forall>i j t. plain_id i \<and> plain_id j \<longrightarrow>
      (\<forall>r. read_session sm cs i s' = Some (Inr r, t) \<longrightarrow> r = as_session a' i) \<and>
      (\<forall>r. read_agent sm ca i j s' = Some (Inr r, t) \<longrightarrow> r = as_agent a' i j) \<and>
      (\<forall>n k ms. list_messages sm cm i j n k s' = Some (Inr ms, t) \<longrightarrow>
        ms = (let xs = messages_or_none (as_messages a' i j) in case n of
          None \<Rightarrow> drop (slice_bound k xs) xs
        | Some n \<Rightarrow> drop (slice_bound k xs) (take (slice_bound (k + n) xs) xs))))"
proof -
  have cm: "documents_ok cm" using assms(4) by (simp add: messages_ok_def)
  from session_ops_done [OF assms(1-4) assms(5-7)]
  obtain a' where a': "spec_ops cs ca cm ps a = Some a'" "stands_for cs ca cm (docs view sm s') a'" by blast
  have se: "r = as_session a' i" if i: "plain_id i" and rd: "read_session sm cs i s' = Some (Inr r, t)" for i r t
  proof (rule read_object_done [OF assms(1,2) rd [unfolded read_session_def]])
    fix k assume "session_key sm i = Inr k" and "\<And>x. docs view sm s' k = Inr (map_option (dump_object cs) x) \<Longrightarrow> r = x"
    with key_forms(1) stands_forD(1) [OF a'(2) i] show ?thesis by blast
  qed
  have ag: "r = as_agent a' i j" if i: "plain_id i" "plain_id j" and rd: "read_agent sm ca i j s' = Some (Inr r, t)" for i j r t
  proof (rule read_object_done [OF assms(1,3) rd [unfolded read_agent_def]])
    fix k assume "agent_key sm i j = Inr k" and "\<And>x. docs view sm s' k = Inr (map_option (dump_object ca) x) \<Longrightarrow> r = x"
    with key_forms(2) stands_forD(2) [OF a'(2) i] show ?thesis by blast
  qed
  note ms = list_messages_done [OF assms(1) cm a'(2)]
  show ?thesis
    by (intro exI [of _ a'] conjI allI impI a') (use se ag ms in blast)+
qed

section \<open>A sidecar that answers\<close>

definition always_answers :: "('q, 'r, 'st) rpc_method \<Rightarrow> bool" where
  "always_answers m \<longleftrightarrow> (\<forall>q s. \<exists>a. fst (m q s) = RpcReturns a)"

text \<open>Nothing that a manager needs fails: the calls, the name of the store and the check of identifiers.\<close>

definition answering :: "'st session_manager \<Rightarrow> bool" where
  "answering sm \<longleftrightarrow> policy_ok (sm_policy sm) \<and> always_answers (rpc_get (sm_stub sm)) \<and> always_answers (rpc_save (sm_stub sm)) \<and>
     always_answers (rpc_delete (sm_stub sm)) \<and> \<not> is_blank (sm_store sm) \<and> (\<forall>i. plain_id i \<longrightarrow> sm_valid sm i = Inr ())"

lemma call_answered: "policy_ok p \<Longrightarrow> always_answers m \<Longrightarrow> \<exists>a s'. call_rpc p m q s = Some (Inr a, s')"
proof -
  assume p: "policy_ok p" and "always_answers m"
  then obtain a where "fst (m q s) = RpcReturns a" unfolding always_answers_def by blast
  with call_rpc_final [OF p, of m q s] show ?thesis
    by (cases "m q s") (simp add: rpc_again_def call_once_def rpc_answer_def)
qed

lemma session_options_Inr: "\<exists>x. opt_options (session_state_options sm) = Inr x"
  by (auto simp: session_state_options_def opt_options_def options_proto_def)

lemma read_state_total:
  assumes "answering sm" and "state_sidecar view (sm_stub sm)"
  obtains s' where "read_state sm k s = Some (docs view sm s k, s')" and "docs view sm s' = docs view sm s"
proof -
  let ?q = "\<lparr>gq_store = sm_store sm, gq_key = k, gq_metadata = read_metadata sm\<rparr>"
  from assms(1) call_answered [of "sm_policy sm" "rpc_get (sm_stub sm)" ?q s]
  obtain d e h s' where r: "call_rpc (sm_policy sm) (rpc_get (sm_stub sm)) ?q s = Some (Inr ((d, e), h), s')"
    by (auto simp: answering_def)
  from assms(2) have rd: "reads view (rpc_get (sm_stub sm))" by (simp add: state_sidecar_def)
  from read_value [OF rd r] have v: "view s' = view s" "d = value_bytes (view s (sm_store sm) k)" by simp_all
  from assms(1) r have "read_state sm k s = Some (document d, s')"
    by (simp add: read_state_def get_state_call_def operation_def get_request_def in_store_def answering_def to_state_response_def)
  with v that show ?thesis by (simp add: docs_def)
qed

lemma write_state_total:
  assumes "answering sm" and "json_doc v"
  obtains s' where "write_state sm k v s = Some (Inr (), s')"
proof -
  from session_options_Inr [of sm] obtain x where x: "opt_options (session_state_options sm) = Inr x" ..
  obtain q where q: "save_one_request (sm_store sm) k (DText (raw_text v)) None (session_state_options sm) (write_metadata sm) = Inr q"
    using assms(1) x by (simp add: save_one_request_def is_data_def in_store_def answering_def to_bytes_def)
  from assms(1) call_answered [of "sm_policy sm" "rpc_save (sm_stub sm)" q s]
  obtain a s' where "call_rpc (sm_policy sm) (rpc_save (sm_stub sm)) q s = Some (Inr a, s')"
    by (auto simp: answering_def)
  with q assms(2) that show ?thesis
    by (simp add: write_state_def json_dumps_raw_def json_doc_plain save_state_call_def operation_def)
qed

lemma erase_state_total:
  assumes "answering sm"
  obtains s' where "erase_state sm k s = Some (Inr (), s')"
proof -
  from session_options_Inr [of sm] obtain x where x: "opt_options (session_state_options sm) = Inr x" ..
  obtain q where q: "delete_request (sm_store sm) k None (session_state_options sm) [] = Inr q"
    using assms x by (simp add: delete_request_def in_store_def answering_def)
  from assms call_answered [of "sm_policy sm" "rpc_delete (sm_stub sm)" q s]
  obtain a s' where "call_rpc (sm_policy sm) (rpc_delete (sm_stub sm)) q s = Some (Inr a, s')"
    by (auto simp: answering_def)
  with q that show ?thesis by (simp add: erase_state_def delete_state_def operation_def)
qed

lemma keys_total:
  assumes "answering sm" and "plain_id i"
  shows "session_key sm i = Inr (i @ '':session'')" and "manifest_key sm i = Inr (i @ '':manifest'')"
    and "plain_id j \<Longrightarrow> agent_key sm i j = Inr (i @ '':agents:'' @ j)" and "plain_id j \<Longrightarrow> messages_key sm i j = Inr (i @ '':messages:'' @ j)"
  using assms by (simp_all add: answering_def session_key_def manifest_key_def agent_key_def messages_key_def)

lemma sp_bind_run [simp]: "m s = Some (Inr x, s1) \<Longrightarrow> sp_bind m f s = f x s1"
  by (simp add: sp_bind_def)

lemma sp_bind_return [simp]: "sp_bind (sp_return (Inr x)) f = f x"
  by (simp add: sp_bind_def sp_return_def fun_eq_iff)

lemma read_object_total:
  assumes "answering sm" and "state_sidecar view (sm_stub sm)" and "documents_ok c"
    and "docs view sm s k = Inr (map_option (dump_object c) x)"
  obtains s' where "read_object sm c (Inr k) s = Some (Inr x, s')" and "docs view sm s' = docs view sm s"
proof -
  obtain s' where "read_state sm k s = Some (docs view sm s k, s')" "docs view sm s' = docs view sm s"
    by (rule read_state_total [OF assms(1,2)])
  with assms(3,4) that show ?thesis
    by (cases x) (simp_all add: read_object_def load_dumped sp_return_def)
qed

lemma read_messages_total:
  assumes "answering sm" and "state_sidecar view (sm_stub sm)" and "stands_for cs ca cm (docs view sm s) a"
    and "plain_id i" and "plain_id j"
  obtains s' where "read_messages sm i j s = Some (Inr (map_option (map (dump_object cm)) (as_messages a i j)), s')"
    and "docs view sm s' = docs view sm s"
proof -
  obtain s' where "read_state sm (i @ '':messages:'' @ j) s = Some (docs view sm s (i @ '':messages:'' @ j), s')"
    "docs view sm s' = docs view sm s"
    by (rule read_state_total [OF assms(1,2)])
  with that keys_total(4) [OF assms(1,4,5)] stands_forD(3) [OF assms(3-5)] show ?thesis
    by (cases "as_messages a i j")
      (simp_all add: read_messages_def sp_return_def stored_messages_def messages_document_def member_or_empty_def list_or_empty_def
        dict_simps)
qed

lemma write_messages_total:
  assumes "answering sm" and "documents_ok cm" and "plain_id i" and "plain_id j"
  obtains s' where "write_messages sm i j (map (dump_object cm) ms) s = Some (Inr (), s')"
proof -
  have "json_doc (messages_document (map (dump_object cm) ms))"
    using doc_dumped [OF assms(2)] by (simp add: messages_document_def dict_simps)
  then obtain s' where "write_state sm (i @ '':messages:'' @ j) (messages_document (map (dump_object cm) ms)) s = Some (Inr (), s')"
    by (rule write_state_total [OF assms(1)])
  with that keys_total(4) [OF assms(1,3,4)] show ?thesis by (simp add: write_messages_def)
qed

lemma create_session_total:
  assumes "answering sm" and "state_sidecar view (sm_stub sm)" and "documents_ok cs" and "stands_for cs ca cm (docs view sm s) a"
    and "plain_id (sc_name cs x)"
  shows "\<exists>r s'. create_session sm cs x s = Some (r, s') \<and> (r = Inr x \<longleftrightarrow> as_session a (sc_name cs x) = None) \<and> (\<forall>y. r = Inr y \<longrightarrow> y = x)"
proof -
  note key = keys_total(1) [OF assms(1,5)]
  obtain s1 where s1: "read_object sm cs (Inr (sc_name cs x @ '':session'')) s = Some (Inr (as_session a (sc_name cs x)), s1)"
    by (rule read_object_total [OF assms(1-3) stands_forD(1) [OF assms(4,5)]])
  obtain s2 where "write_state sm (sc_name cs x @ '':session'') (dump_object cs x) s1 = Some (Inr (), s2)"
    by (rule write_state_total [OF assms(1) doc_dumped [OF assms(3)]])
  with key s1 show ?thesis by (simp add: create_session_def read_session_def sp_return_def)
qed

lemma update_agent_total:
  assumes "answering sm" and "state_sidecar view (sm_stub sm)" and "documents_ok ca" and "stands_for cs ca cm (docs view sm s) a"
    and "plain_id i" and "plain_id (sc_name ca x)"
  shows "\<exists>r s'. update_agent sm ca i x s = Some (r, s') \<and> (r = Inr () \<longleftrightarrow> as_agent a i (sc_name ca x) \<noteq> None)"
proof -
  note key = keys_total(3) [OF assms(1,5,6)]
  obtain s1 where s1: "read_object sm ca (Inr (i @ '':agents:'' @ sc_name ca x)) s = Some (Inr (as_agent a i (sc_name ca x)), s1)"
    by (rule read_object_total [OF assms(1-3) stands_forD(2) [OF assms(4-6)]])
  show ?thesis
  proof (cases "as_agent a i (sc_name ca x)")
    case None
    with key s1 show ?thesis by (simp add: update_agent_def read_agent_def sp_return_def)
  next
    case (Some y)
    obtain s2 where "write_state sm (i @ '':agents:'' @ sc_name ca x) (dump_object ca (sc_keep_created ca x y)) s1 = Some (Inr (), s2)"
      by (rule write_state_total [OF assms(1) doc_dumped [OF assms(3)]])
    with key s1 Some show ?thesis by (simp add: update_agent_def read_agent_def)
  qed
qed

lemma create_message_total:
  assumes "answering sm" and "state_sidecar view (sm_stub sm)" and "documents_ok cm" and "stands_for cs ca cm (docs view sm s) a"
    and "plain_id i" and "plain_id j"
  shows "\<exists>s'. create_message sm cm i j m s = Some (Inr (), s')"
proof -
  obtain s1 where "read_messages sm i j s = Some (Inr (map_option (map (dump_object cm)) (as_messages a i j)), s1)"
    by (rule read_messages_total [OF assms(1,2,4-6)])
  moreover have "(case map_option (map (dump_object cm)) x of None \<Rightarrow> [] | Some vs \<Rightarrow> vs) @ [dump_object cm m] =
      map (dump_object cm) (messages_or_none x @ [m])" for x
    by (cases x) (simp_all add: messages_or_none_def)
  moreover obtain s2 where "write_messages sm i j (map (dump_object cm) (messages_or_none (as_messages a i j) @ [m])) s1 = Some (Inr (), s2)"
    by (rule write_messages_total [OF assms(1,3,5,6)])
  ultimately show ?thesis by (simp add: create_message_def del: map_append)
qed

lemma update_message_total:
  assumes "answering sm" and "state_sidecar view (sm_stub sm)" and "messages_ok cm" and "stands_for cs ca cm (docs view sm s) a"
    and "plain_id i" and "plain_id j"
  shows "\<exists>r s'. update_message sm cm i j m s = Some (r, s') \<and>
    (r = Inr () \<longleftrightarrow> replace_same (sc_message_id cm) (sc_keep_created cm) m (messages_or_none (as_messages a i j)) \<noteq> None)"
proof -
  let ?old = "messages_or_none (as_messages a i j)" and ?r = "map_option (map (dump_object cm)) (as_messages a i j)"
  have cm: "documents_ok cm" using assms(3) by (simp add: messages_ok_def)
  obtain s1 where s1: "read_messages sm i j s = Some (Inr ?r, s1)" and d1: "docs view sm s1 = docs view sm s"
    by (rule read_messages_total [OF assms(1,2,4-6)])
  have "(case ?r of None \<Rightarrow> [] | Some vs \<Rightarrow> vs) = map (dump_object cm) ?old"
    by (cases "as_messages a i j") (simp_all add: messages_or_none_def)
  with s1 have rm: "read_message sm cm i j (sc_message_id cm m) s =
      Some (Inr (find (\<lambda>x. sc_message_id cm x = sc_message_id cm m) ?old), s1)"
    by (cases "find (\<lambda>x. sc_message_id cm x = sc_message_id cm m) ?old")
      (simp_all add: read_message_def sp_return_def find_dumped [OF assms(3)] load_dumped [OF cm])
  show ?thesis
  proof (cases "find (\<lambda>x. sc_message_id cm x = sc_message_id cm m) ?old")
    case None
    with rm show ?thesis by (simp add: update_message_def sp_return_def replace_found)
  next
    case (Some y)
    then obtain ms where ms: "replace_same (sc_message_id cm) (sc_keep_created cm) m ?old = Some ms"
      using replace_found [of "sc_message_id cm" "sc_keep_created cm" m ?old] by fastforce
    from Some obtain zs where xs: "as_messages a i j = Some zs" by (cases "as_messages a i j") (simp_all add: messages_or_none_def)
    obtain s2 where s2: "read_messages sm i j s1 = Some (Inr ?r, s2)"
      by (rule read_messages_total [OF assms(1,2) assms(4) [folded d1] assms(5,6)])
    obtain s3 where "write_messages sm i j (map (dump_object cm) ms) s2 = Some (Inr (), s3)"
      by (rule write_messages_total [OF assms(1) cm assms(5,6)])
    with rm Some s2 xs ms replace_dumped [OF assms(3) Some] show ?thesis by (simp add: update_message_def messages_or_none_def)
  qed
qed

lemma create_agent_total:
  assumes "answering sm" and "state_sidecar view (sm_stub sm)" and "documents_ok ca" and "stands_for cs ca cm (docs view sm s) a"
    and "plain_id i" and "plain_id (sc_name ca x)"
  shows "\<exists>s'. create_agent sm ca i x s = Some (Inr (), s')"
proof -
  let ?j = "sc_name ca x"
  note keys = keys_total(2) [OF assms(1,5)] keys_total(3,4) [OF assms(1,5,6)]
  obtain s1 where s1: "write_state sm (i @ '':agents:'' @ ?j) (dump_object ca x) s = Some (Inr (), s1)"
    by (rule write_state_total [OF assms(1) doc_dumped [OF assms(3)]])
  have doc: "json_doc (messages_document [])" by (simp add: messages_document_def dict_simps)
  obtain s2 where s2: "write_state sm (i @ '':messages:'' @ ?j) (messages_document []) s1 = Some (Inr (), s2)"
    by (rule write_state_total [OF assms(1) doc])
  obtain s3 where s3: "read_state sm (i @ '':manifest'') s2 = Some (docs view sm s2 (i @ '':manifest''), s3)"
    by (rule read_state_total [OF assms(1,2)])
  have "docs view sm s2 (i @ '':manifest'') = docs view sm s (i @ '':manifest'')"
    using write_state_done [OF assms(2) s1 doc_dumped [OF assms(3)]] write_state_done [OF assms(2) s2 doc] keys_differ [OF assms(5) assms(5)]
    by simp
  with s3 stands_forD(4) [OF assms(4,5)]
  have s3: "read_state sm (i @ '':manifest'') s2 = Some (Inr (map_option manifest_document (as_manifest a i)), s3)" by simp
  have "json_doc (manifest_document (with_agent ?j (messages_or_none (as_manifest a i))))" by (simp add: manifest_document_def dict_simps)
  then obtain s4 where "write_state sm (i @ '':manifest'') (manifest_document (with_agent ?j (messages_or_none (as_manifest a i)))) s3 = Some (Inr (), s4)"
    by (rule write_state_total [OF assms(1)])
  with keys s1 s2 s3 show ?thesis by (simp add: create_agent_def add_agent_manifest)
qed

lemma delete_agents_total:
  assumes "answering sm" and "plain_id i"
  shows "list_all plain_id js \<Longrightarrow> \<exists>s'. delete_agents sm i (map PStr js) s = Some (Inr (), s')"
proof (induction js arbitrary: s)
  case Nil
  show ?case by (simp add: sp_return_def)
next
  case (Cons j js)
  then have p: "plain_id j" "list_all plain_id js" by simp_all
  obtain s1 where "erase_state sm (i @ '':agents:'' @ j) s = Some (Inr (), s1)" by (rule erase_state_total [OF assms(1)])
  moreover obtain s2 where "erase_state sm (i @ '':messages:'' @ j) s1 = Some (Inr (), s2)" by (rule erase_state_total [OF assms(1)])
  ultimately show ?case using keys_total(3,4) [OF assms p(1)] Cons.IH [OF p(2), of s2] by simp
qed

lemma delete_session_total:
  assumes "answering sm" and "state_sidecar view (sm_stub sm)" and "stands_for cs ca cm (docs view sm s) a" and "plain_id i"
  shows "\<exists>s'. delete_session sm i s = Some (Inr (), s')"
proof -
  obtain s1 where "read_state sm (i @ '':manifest'') s = Some (docs view sm s (i @ '':manifest''), s1)"
    by (rule read_state_total [OF assms(1,2)])
  with stands_forD(4) [OF assms(3,4)]
  have s1: "read_state sm (i @ '':manifest'') s = Some (Inr (map_option manifest_document (as_manifest a i)), s1)" by simp
  from delete_agents_total [OF assms(1,4) stands_forD(5) [OF assms(3,4)]]
  obtain s2 where s2: "delete_agents sm i (map PStr (messages_or_none (as_manifest a i))) s1 = Some (Inr (), s2)" by blast
  obtain s3 where s3: "erase_state sm (i @ '':manifest'') s2 = Some (Inr (), s3)" by (rule erase_state_total [OF assms(1)])
  obtain s4 where "erase_state sm (i @ '':session'') s3 = Some (Inr (), s4)" by (rule erase_state_total [OF assms(1)])
  with s1 s2 s3 keys_total(1,2) [OF assms(1,4)] show ?thesis by (simp add: delete_session_def agent_names_manifest)
qed

lemma session_op_total:
  assumes "answering sm" and "state_sidecar view (sm_stub sm)" and "documents_ok cs" and "documents_ok ca" and "messages_ok cm"
    and "stands_for cs ca cm (docs view sm s) a" and "op_plain cs ca p"
  shows "\<exists>r s'. session_op sm cs ca cm p s = Some (r, s') \<and> (r = Inr () \<longleftrightarrow> spec_op cs ca cm p a \<noteq> None)"
proof -
  have cm: "documents_ok cm" using assms(5) by (simp add: messages_ok_def)
  show ?thesis
  proof (cases p)
    case (CreateSession x)
    with assms(7) create_session_total [OF assms(1-3,6), of x] obtain r s' where
      "create_session sm cs x s = Some (r, s')" "r = Inr x \<longleftrightarrow> as_session a (sc_name cs x) = None" "\<forall>y. r = Inr y \<longrightarrow> y = x"
      by (auto simp: op_plain_def)
    with CreateSession show ?thesis by (cases r) (simp_all add: session_op_def spec_op_def sp_bind_def sp_return_def)
  next
    case (DeleteSession i)
    with assms(7) delete_session_total [OF assms(1,2,6), of i] show ?thesis
      by (auto simp: session_op_def spec_op_def op_plain_def Let_def)
  next
    case (CreateAgent i x)
    with assms(7) create_agent_total [OF assms(1,2,4,6), of i x] show ?thesis
      by (auto simp: session_op_def spec_op_def op_plain_def Let_def)
  next
    case (UpdateAgent i x)
    with assms(7) update_agent_total [OF assms(1,2,4,6), of i x] show ?thesis
      by (auto simp: session_op_def spec_op_def op_plain_def split: option.splits)
  next
    case (CreateMessage i j m)
    with assms(7) create_message_total [OF assms(1,2) cm assms(6), of i j m] show ?thesis
      by (auto simp: session_op_def spec_op_def op_plain_def)
  next
    case (UpdateMessage i j m)
    with assms(7) update_message_total [OF assms(1,2,5,6), of i j m] show ?thesis
      by (auto simp: session_op_def spec_op_def op_plain_def split: option.splits)
  qed
qed

lemma session_ops_total:
  assumes "answering sm" and "state_sidecar view (sm_stub sm)" and "documents_ok cs" and "documents_ok ca" and "messages_ok cm"
    and "stands_for cs ca cm (docs view sm s) a" and "list_all (op_plain cs ca) ps"
  shows "\<exists>r s'. session_ops sm cs ca cm ps s = Some (r, s') \<and> (r = Inr () \<longleftrightarrow> spec_ops cs ca cm ps a \<noteq> None)"
  using assms(6,7)
proof (induction ps arbitrary: s a)
  case Nil
  show ?case by (simp add: sp_return_def)
next
  case (Cons p ps)
  then have p: "op_plain cs ca p" and ps: "list_all (op_plain cs ca) ps" by simp_all
  from session_op_total [OF assms(1-5) Cons.prems(1) p] obtain r s1
    where r: "session_op sm cs ca cm p s = Some (r, s1)" "r = Inr () \<longleftrightarrow> spec_op cs ca cm p a \<noteq> None" by blast
  show ?case
  proof (cases "spec_op cs ca cm p a")
    case None
    with r show ?thesis by (cases r) (simp_all add: sp_bind_def)
  next
    case (Some b)
    with r have run: "session_op sm cs ca cm p s = Some (Inr (), s1)" by simp
    from session_op_done [OF assms(2-5) Cons.prems(1) p run] Some have "stands_for cs ca cm (docs view sm s1) b" by simp
    from Cons.IH [OF this ps] run Some show ?thesis by simp
  qed
qed

lemma list_messages_total:
  assumes "answering sm" and "state_sidecar view (sm_stub sm)" and "documents_ok cm" and "stands_for cs ca cm (docs view sm s) a"
    and "plain_id i" and "plain_id j"
  shows "\<exists>ms s'. list_messages sm cm i j n k s = Some (Inr ms, s')"
proof -
  obtain s1 where s1: "read_messages sm i j s = Some (Inr (map_option (map (dump_object cm)) (as_messages a i j)), s1)"
    by (rule read_messages_total [OF assms(1,2,4-6)])
  have all: "\<exists>ms. seq_res (map (load_object cm) vs) = Inr ms" if "set vs \<subseteq> range (dump_object cm)" for vs
    using that by (induction vs) (auto simp: load_dumped [OF assms(3)])
  have "set (drop p (map (dump_object cm) xs)) \<subseteq> range (dump_object cm)"
    "set (drop p (take q (map (dump_object cm) xs))) \<subseteq> range (dump_object cm)" for p q xs
    by (auto dest!: in_set_dropD in_set_takeD)
  note rng = this
  show ?thesis
  proof (cases "as_messages a i j")
    case None
    with s1 show ?thesis by (simp add: list_messages_def sp_return_def)
  next
    case (Some xs)
    with s1 all [OF rng(1)] all [OF rng(2)] show ?thesis
      by (cases n) (simp_all add: list_messages_def sp_return_def)
  qed
qed

text \<open>
  C32. The session manager does not get stuck: over a sidecar that answers, every run of operations comes to an end, and it
  ends well exactly if the specification allows each operation; the operations that the code refuses are a
  session that exists already and the update of an agent or a message that does not.
\<close>

theorem session_store_runs:
  assumes "answering sm" and "state_sidecar view (sm_stub sm)" and "documents_ok cs" and "documents_ok ca" and "messages_ok cm"
    and "stands_for cs ca cm (docs view sm s) a" and "list_all (op_plain cs ca) ps"
  shows "\<exists>r s'. session_ops sm cs ca cm ps s = Some (r, s') \<and> (r = Inr () \<longleftrightarrow> spec_ops cs ca cm ps a \<noteq> None)"
  by (rule session_ops_total [OF assms])

text \<open>
  Two consequences: deleting a session leaves the messages of an agent that was never created, as it is in no manifest, and
  creating an agent again empties its messages.
\<close>

lemma orphan_messages_kept:
  "spec_op cs ca cm (DeleteSession i) a = Some b \<Longrightarrow> j \<notin> set (messages_or_none (as_manifest a i)) \<Longrightarrow> as_messages b i j = as_messages a i j"
  by (auto simp: spec_op_def Let_def)

lemma recreated_agent_forgets:
  "spec_op cs ca cm (CreateAgent i x) a = Some b \<Longrightarrow> as_messages b i (sc_name ca x) = Some []"
  by (auto simp: spec_op_def Let_def)

section \<open>A concrete run\<close>

definition demo_named :: "string \<Rightarrow> string session_class" where
  "demo_named n = \<lparr>sc_to_dict = (\<lambda>x. [(n, PStr x)]), sc_from_dict = (\<lambda>d. case dict_get d n of Some (PStr x) \<Rightarrow> Inr x | _ \<Rightarrow> Inl (exc KeyError n)),
     sc_name = (\<lambda>x. x), sc_message_id = (\<lambda>x. 0), sc_keep_created = (\<lambda>x y. x)\<rparr>"

definition demo_messages :: "int session_class" where
  "demo_messages = \<lparr>sc_to_dict = (\<lambda>x. [(''message_id'', PInt x)]),
     sc_from_dict = (\<lambda>d. case dict_get d ''message_id'' of Some (PInt x) \<Rightarrow> Inr x | _ \<Rightarrow> Inl (exc KeyError ''message_id'')),
     sc_name = (\<lambda>x. []), sc_message_id = (\<lambda>x. x), sc_keep_created = (\<lambda>x y. x)\<rparr>"

definition demo_answering_stub :: "store_view state_stub" where
  "demo_answering_stub =
    \<lparr>rpc_get = (\<lambda>q s. (RpcReturns ((value_bytes (s (gq_store q) (gq_key q)), []), []), s)),
     rpc_bulk = (\<lambda>q s. (RpcRaises UNIMPLEMENTED, s)),
     rpc_query = (\<lambda>q s. (RpcRaises UNIMPLEMENTED, s)),
     rpc_save = (\<lambda>q s. (RpcReturns ((), []), save_effect q s)),
     rpc_transaction = (\<lambda>q s. (RpcReturns ((), []), tx_effect q s)),
     rpc_delete = (\<lambda>q s. (RpcReturns ((), []), delete_effect q s))\<rparr>"

definition demo_session_manager :: "store_view session_manager" where
  "demo_session_manager = \<lparr>sm_policy = demo_client_policy, sm_stub = demo_answering_stub, sm_store = ''st'', sm_ttl = Some 60,
     sm_consistency = ''strong'', sm_valid = (\<lambda>i. Inr ())\<rparr>"

definition empty_sessions :: "('se, 'ag, 'ms) session_spec" where
  "empty_sessions = \<lparr>as_session = (\<lambda>i. None), as_agent = (\<lambda>i j. None), as_messages = (\<lambda>i j. None), as_manifest = (\<lambda>i. None)\<rparr>"

definition demo_session_ops :: "(string, string, int) session_op list" where
  "demo_session_ops = [CreateSession ''s'', CreateAgent ''s'' ''a'', CreateMessage ''s'' ''a'' 7, CreateMessage ''s'' ''a'' 8, CreateMessage ''s'' ''b'' 9]"

abbreviation "demo_sessions \<equiv> demo_named ''session_id''"
abbreviation "demo_agents \<equiv> demo_named ''agent_id''"

lemma demo_classes: "documents_ok (demo_named n)" "messages_ok demo_messages"
  by (simp_all add: documents_ok_def messages_ok_def demo_named_def demo_messages_def dict_simps)

lemma demo_session_manager_ok: "answering demo_session_manager" "state_sidecar id (sm_stub demo_session_manager)"
  by (simp_all add: answering_def demo_session_manager_def demo_answering_stub_def always_answers_def policy_ok_def demo_client_policy_def mult_value_def
      is_blank_def py_strip_def is_space_def state_sidecar_def reads_def writes_def)

lemma demo_start: "stands_for demo_sessions demo_agents demo_messages (docs id demo_session_manager (\<lambda>_ _. None)) empty_sessions"
  by (simp add: stands_for_def docs_def value_bytes_def document_def empty_sessions_def messages_or_none_def)

lemma demo_ops_plain: "list_all (op_plain demo_sessions demo_agents) demo_session_ops"
  by (simp add: demo_session_ops_def op_plain_def demo_named_def plain_id_def)

lemma demo_spec:
  "spec_ops demo_sessions demo_agents demo_messages demo_session_ops empty_sessions =
   Some \<lparr>as_session = (\<lambda>i. None)(''s'' \<mapsto> ''s''), as_agent = (\<lambda>i j. None)(''s'' := (\<lambda>j. None)(''a'' \<mapsto> ''a'')),
     as_messages = (\<lambda>i j. None)(''s'' := (\<lambda>j. None)(''a'' \<mapsto> [7, 8], ''b'' \<mapsto> [9])), as_manifest = (\<lambda>i. None)(''s'' \<mapsto> [''a''])\<rparr>"
  by (simp add: demo_session_ops_def spec_op_def empty_sessions_def demo_named_def messages_or_none_def Let_def fun_eq_iff)

theorem session_store_runs_witness:
  "\<exists>s'. session_ops demo_session_manager demo_sessions demo_agents demo_messages demo_session_ops (\<lambda>_ _. None) = Some (Inr (), s')"
  using session_store_runs [OF demo_session_manager_ok demo_classes(1) demo_classes(1) demo_classes(2) demo_start demo_ops_plain] demo_spec
  by simp

lemma demo_session_run:
  obtains s' where "session_ops demo_session_manager demo_sessions demo_agents demo_messages demo_session_ops (\<lambda>_ _. None) = Some (Inr (), s')"
  using session_ops_total [OF demo_session_manager_ok demo_classes(1) demo_classes(1) demo_classes(2) demo_start demo_ops_plain] demo_spec
  by auto

theorem session_store_refines_witness:
  "\<exists>s' t. session_ops demo_session_manager demo_sessions demo_agents demo_messages demo_session_ops (\<lambda>_ _. None) = Some (Inr (), s') \<and>
     list_messages demo_session_manager demo_messages ''s'' ''a'' None 0 s' = Some (Inr [7, 8], t)"
proof -
  obtain s' where run: "session_ops demo_session_manager demo_sessions demo_agents demo_messages demo_session_ops (\<lambda>_ _. None) = Some (Inr (), s')"
    by (rule demo_session_run)
  from session_store_refines [OF demo_session_manager_ok(2) demo_classes(1) demo_classes(1) demo_classes(2) demo_start demo_ops_plain run]
  obtain b where spec: "spec_ops demo_sessions demo_agents demo_messages demo_session_ops empty_sessions = Some b"
    and st: "stands_for demo_sessions demo_agents demo_messages (docs id demo_session_manager s') b"
    and ms: "\<And>i j t n k ms. plain_id i \<Longrightarrow> plain_id j \<Longrightarrow> list_messages demo_session_manager demo_messages i j n k s' = Some (Inr ms, t) \<Longrightarrow>
        ms = (let xs = messages_or_none (as_messages b i j) in case n of
          None \<Rightarrow> drop (slice_bound k xs) xs
        | Some n \<Rightarrow> drop (slice_bound k xs) (take (slice_bound (k + n) xs) xs))"
    by blast
  from spec demo_spec have b: "as_messages b ''s'' ''a'' = Some [7, 8]" by auto
  have p: "plain_id ''s''" "plain_id ''a''" by (simp_all add: plain_id_def)
  have "documents_ok demo_messages" using demo_classes(2) by (simp add: messages_ok_def)
  from list_messages_total [OF demo_session_manager_ok this st p, of None 0]
  obtain xs t where xs: "list_messages demo_session_manager demo_messages ''s'' ''a'' None 0 s' = Some (Inr xs, t)" by blast
  with ms [OF p xs] b have "xs = [7, 8]" by (simp add: messages_or_none_def slice_bound_def)
  with run xs show ?thesis by blast
qed

end
