(* ===== verification/Base64.thy ===== *)
theory Base64
  imports Prelude
begin

text \<open>
  The standard library's base64 coding, as the actor runtime uses it (\<open>base64.b64encode\<close>, \<open>b64decode\<close> with and
  without \<open>validate\<close>): the encoder, and the decoder of \<open>binascii\<close> as the state machine it is. Bytes are
  \<open>string\<close>. A \<open>binascii.Error\<close> is a \<open>ValueError\<close>.
\<close>

section \<open>Digits\<close>

definition b64_char :: "nat \<Rightarrow> char" where
  "b64_char n =
    (if n < 26 then char_of (65 + n) else if n < 52 then char_of (71 + n) else if n < 62 then char_of (n - 4)
     else if n = 62 then CHR ''+'' else CHR ''/'')"

definition b64_val :: "char \<Rightarrow> nat option" where
  "b64_val c = (let n = of_char c :: nat in
     if 65 \<le> n \<and> n \<le> 90 then Some (n - 65)
     else if 97 \<le> n \<and> n \<le> 122 then Some (n - 71)
     else if 48 \<le> n \<and> n \<le> 57 then Some (n + 4)
     else if n = 43 then Some 62 else if n = 47 then Some 63 else None)"

abbreviation byte_of :: "char \<Rightarrow> nat" where
  "byte_of c \<equiv> of_char c"

section \<open>Encoding\<close>

fun b64encode :: "string \<Rightarrow> string" where
  "b64encode [] = []"
| "b64encode [x] = [b64_char (byte_of x div 4), b64_char (byte_of x mod 4 * 16), CHR ''='', CHR ''='']"
| "b64encode [x, y] =
     [b64_char (byte_of x div 4), b64_char (byte_of x mod 4 * 16 + byte_of y div 16),
      b64_char (byte_of y mod 16 * 4), CHR ''='']"
| "b64encode (x # y # z # s) =
     b64_char (byte_of x div 4) # b64_char (byte_of x mod 4 * 16 + byte_of y div 16) #
     b64_char (byte_of y mod 16 * 4 + byte_of z div 64) # b64_char (byte_of z mod 64) # b64encode s"

section \<open>Decoding\<close>

text \<open>
  \<open>a2b_base64\<close>: the position \<open>q\<close> in the group of four, the bits left over \<open>l\<close>, the padding seen \<open>p\<close>, whether
  padding has \<open>started\<close>, and the number \<open>n\<close> of bytes written.
\<close>

definition emit :: "nat \<Rightarrow> string res \<Rightarrow> string res" where
  "emit b r = map_sum id ((#) (char_of b)) r"

fun a2b :: "bool \<Rightarrow> nat \<Rightarrow> nat \<Rightarrow> nat \<Rightarrow> bool \<Rightarrow> nat \<Rightarrow> string \<Rightarrow> string res" where
  "a2b strict q l p started n [] =
    (if q = 0 then Inr []
     else if q = 1 then Inl (exc ValueError (''Invalid base64-encoded string: number of data characters ('' @
       str_of_nat (n div 3 * 4 + 1) @ '') cannot be 1 more than a multiple of 4''))
     else Inl (exc ValueError ''Incorrect padding''))"
| "a2b strict q l p started n (c # s) =
    (if c = CHR ''='' then
       (if 2 \<le> q \<and> 4 \<le> q + Suc p then
          (if strict \<and> s \<noteq> [] then Inl (exc ValueError ''Excess data after padding'') else Inr [])
        else a2b strict q l (if 2 \<le> q then Suc p else p) True n s)
     else
       (case b64_val c of
          None \<Rightarrow>
            if strict then Inl (exc ValueError ''Only base64 data is allowed'') else a2b strict q l p started n s
        | Some v \<Rightarrow>
            if strict \<and> started then Inl (exc ValueError ''Discontinuous padding not allowed'')
            else if q = 0 then a2b strict 1 v 0 started n s
            else if q = 1 then emit (l * 4 + v div 16) (a2b strict 2 (v mod 16) 0 started (Suc n) s)
            else if q = 2 then emit (l * 16 + v div 4) (a2b strict 3 (v mod 4) 0 started (Suc n) s)
            else emit (l * 64 + v) (a2b strict 0 0 0 started (Suc n) s)))"

definition b64decode :: "bool \<Rightarrow> string \<Rightarrow> string res" where
  "b64decode validate s =
    (if \<exists>c \<in> set s. 128 \<le> byte_of c then Inl (exc ValueError ''string argument should contain only ASCII characters'')
     else if validate \<and> take 1 s = ''='' then Inl (exc ValueError ''Leading padding not allowed'')
     else a2b validate 0 0 0 False 0 s)"

section \<open>The round trip\<close>

lemma b64_val_char: "n < 64 \<Longrightarrow> b64_val (b64_char n) = Some n"
  by (auto simp: b64_val_def b64_char_def Let_def of_char_of)

lemma b64_char_byte: "n < 64 \<Longrightarrow> byte_of (b64_char n) < 128"
  by (auto simp: b64_char_def of_char_of)

lemma b64_char_not_pad: "n < 64 \<Longrightarrow> b64_char n \<noteq> CHR ''=''"
  using b64_val_char [of n] by (auto simp: b64_val_def)

lemma byte_less [simp]: "byte_of c < 256"
  by simp

lemma emit_Inr [simp]: "emit (byte_of c) (Inr s) = Inr (c # s)"
  by (simp add: emit_def)

text \<open>The six-bit parts of bytes put together again.\<close>

lemma sextets:
  fixes x y z :: nat
  assumes "x < 256" and "y < 256" and "z < 256"
  shows "x div 4 < 64" "x mod 4 * 16 < 64" "x mod 4 * 16 + y div 16 < 64" "y mod 16 * 4 < 64"
    "y mod 16 * 4 + z div 64 < 64" "z mod 64 < 64"
    "x div 4 * 4 + (x mod 4 * 16) div 16 = x" "x div 4 * 4 + (x mod 4 * 16 + y div 16) div 16 = x"
    "(x mod 4 * 16 + y div 16) mod 16 * 16 + (y mod 16 * 4) div 4 = y"
    "(x mod 4 * 16 + y div 16) mod 16 * 16 + (y mod 16 * 4 + z div 64) div 4 = y"
    "(y mod 16 * 4 + z div 64) mod 4 * 64 + z mod 64 = z"
proof -
  have d: "x div 4 < 64" "y div 16 < 16" "z div 64 < 4" using assms by (simp_all add: less_mult_imp_div_less)
  have m: "x mod 4 < 4" "y mod 16 < 16" "z mod 64 < 64" by simp_all
  have small: "x mod 4 * 16 + y div 16 < 64" "y mod 16 * 4 + z div 64 < 64"
    using d m by linarith+
  have split: "(x mod 4 * 16 + y div 16) div 16 = x mod 4" "(x mod 4 * 16 + y div 16) mod 16 = y div 16"
    "(y mod 16 * 4 + z div 64) div 4 = y mod 16" "(y mod 16 * 4 + z div 64) mod 4 = z div 64"
    using d by (simp_all add: div_mult_self3 mod_mult_self3)
  show "x div 4 < 64" "x mod 4 * 16 < 64" "x mod 4 * 16 + y div 16 < 64" "y mod 16 * 4 < 64"
    "y mod 16 * 4 + z div 64 < 64" "z mod 64 < 64"
    using d m small by linarith+
  show "x div 4 * 4 + (x mod 4 * 16) div 16 = x" by simp
  show "x div 4 * 4 + (x mod 4 * 16 + y div 16) div 16 = x"
    "(x mod 4 * 16 + y div 16) mod 16 * 16 + (y mod 16 * 4) div 4 = y"
    "(x mod 4 * 16 + y div 16) mod 16 * 16 + (y mod 16 * 4 + z div 64) div 4 = y"
    "(y mod 16 * 4 + z div 64) mod 4 * 64 + z mod 64 = z"
    unfolding split by simp_all
qed

lemmas byte_sextets = sextets [OF byte_less byte_less byte_less]

text \<open>One digit, read.\<close>

lemma a2b_digit:
  "n < 64 \<Longrightarrow> a2b strict 0 l p False k (b64_char n # s) = a2b strict 1 n 0 False k s"
  "n < 64 \<Longrightarrow> a2b strict 1 l p False k (b64_char n # s) = emit (l * 4 + n div 16) (a2b strict 2 (n mod 16) 0 False (Suc k) s)"
  "n < 64 \<Longrightarrow> a2b strict 2 l p False k (b64_char n # s) = emit (l * 16 + n div 4) (a2b strict 3 (n mod 4) 0 False (Suc k) s)"
  "n < 64 \<Longrightarrow> a2b strict 3 l p False k (b64_char n # s) = emit (l * 64 + n) (a2b strict 0 0 0 False (Suc k) s)"
  by (simp_all add: b64_val_char b64_char_not_pad)

lemma emit_eq: "b = byte_of c \<Longrightarrow> emit b r = map_sum id ((#) c) r"
  by (simp add: emit_def)

lemma a2b_encode: "a2b strict 0 l p False n (b64encode s) = Inr s"
proof (induction s arbitrary: l p n rule: b64encode.induct)
  case (2 x)
  show ?case
    by (simp only: b64encode.simps a2b_digit byte_sextets(1,2) emit_eq [OF byte_sextets(7)])
      simp
next
  case (3 x y)
  show ?case
    by (simp only: b64encode.simps a2b_digit byte_sextets(1-6)
        emit_eq [OF byte_sextets(8)] emit_eq [OF byte_sextets(9)])
      simp
next
  case (4 x y z s)
  show ?case
    by (simp only: b64encode.simps a2b_digit byte_sextets(1-6) 4
        emit_eq [OF byte_sextets(8)] emit_eq [OF byte_sextets(10)]
        emit_eq [OF byte_sextets(11)])
      simp
qed simp

lemma b64encode_ascii: "c \<in> set (b64encode s) \<Longrightarrow> byte_of c < 128"
  by (induction s rule: b64encode.induct) (auto simp: b64_char_byte byte_sextets)

lemma b64encode_head: "s \<noteq> [] \<Longrightarrow> \<exists>n r. n < 64 \<and> b64encode s = b64_char n # r"
  by (cases s rule: b64encode.cases) (use byte_sextets(1) in auto)

lemma b64_roundtrip: "b64decode validate (b64encode s) = Inr s"
proof -
  have "take 1 (b64encode s) \<noteq> ''=''"
    using b64encode_head [of s] b64_char_not_pad by (cases "s = []") auto
  moreover have "\<not> (\<exists>c \<in> set (b64encode s). 128 \<le> byte_of c)" using b64encode_ascii [of _ s] by (auto simp: not_le)
  ultimately show ?thesis by (simp add: b64decode_def a2b_encode)
qed

lemma b64encode_Nil_iff [simp]: "b64encode s = [] \<longleftrightarrow> s = []"
  by (cases s rule: b64encode.cases) simp_all

end
