(* ===== verification/Conversation.thy ===== *)
theory Conversation
  imports StateClient Base64
begin

text \<open>
  Conversations (\<open>clients/grpc/conversation.py\<close>): messages and their conversion to protobuf, the answers of the sidecar with
  their tool calls, and the operations \<open>converse_alpha1\<close> and \<open>converse_alpha2\<close> of both clients. The content of a message is
  the list of its texts.
\<close>

section \<open>Messages\<close>

record role_message =
  rm_name :: "string option"
  rm_content :: "string list"

text \<open>A tool call: an identifier, and a function with its arguments as JSON text.\<close>

record tool_call =
  tc_id :: "string option"
  tc_function :: "(string \<times> string) option"

record assistant_message =
  am_name :: "string option"
  am_content :: "string list"
  am_tool_calls :: "tool_call list"

record tool_message =
  tm_tool_id :: "string option"
  tm_name :: string
  tm_content :: "string list"

record conversation_message =
  of_developer :: "role_message option"
  of_system :: "role_message option"
  of_user :: "role_message option"
  of_assistant :: "assistant_message option"
  of_tool :: "tool_message option"

definition no_message :: conversation_message where
  "no_message = \<lparr>of_developer = None, of_system = None, of_user = None, of_assistant = None, of_tool = None\<rparr>"

text \<open>The protobuf message holds one of its cases, or none.\<close>

record call_proto =
  cp_id :: "string option"
  cp_function :: "(string \<times> string) option"

datatype message_proto =
    NoMessage
  | DeveloperProto string "string list"
  | SystemProto string "string list"
  | UserProto string "string list"
  | AssistantProto string "string list" "call_proto list"
  | ToolProto "string option" string "string list"

definition text_or_empty :: "string option \<Rightarrow> string" where
  "text_or_empty x = (case x of None \<Rightarrow> [] | Some s \<Rightarrow> s)"

definition unless_empty :: "string option \<Rightarrow> string option" where
  "unless_empty x = (case x of None \<Rightarrow> None | Some s \<Rightarrow> if s = [] then None else Some s)"

definition call_to_proto :: "tool_call \<Rightarrow> call_proto" where
  "call_to_proto c = \<lparr>cp_id = unless_empty (tc_id c), cp_function = tc_function c\<rparr>"

definition message_to_proto :: "conversation_message \<Rightarrow> message_proto" where
  "message_to_proto m = (case of_developer m of
     Some d \<Rightarrow> DeveloperProto (text_or_empty (rm_name d)) (rm_content d)
   | None \<Rightarrow> (case of_system m of
     Some d \<Rightarrow> SystemProto (text_or_empty (rm_name d)) (rm_content d)
   | None \<Rightarrow> (case of_user m of
     Some d \<Rightarrow> UserProto (text_or_empty (rm_name d)) (rm_content d)
   | None \<Rightarrow> (case of_assistant m of
     Some d \<Rightarrow> AssistantProto (text_or_empty (am_name d)) (am_content d) (map call_to_proto (am_tool_calls d))
   | None \<Rightarrow> (case of_tool m of
     Some d \<Rightarrow> ToolProto (unless_empty (tm_tool_id d)) (tm_name d) (tm_content d)
   | None \<Rightarrow> NoMessage)))))"

text \<open>The helpers that make messages. What a tool gives is a text, bytes, or something with a JSON text or a \<open>str\<close>.\<close>

datatype tool_output = OutText string | OutBytes string | OutEncoded string

definition stringify_tool_output :: "tool_output \<Rightarrow> string" where
  "stringify_tool_output v = (case v of
     OutText s \<Rightarrow> s | OutBytes b \<Rightarrow> ''base64:'' @ b64encode b | OutEncoded t \<Rightarrow> t)"

definition create_user_message :: "string \<Rightarrow> conversation_message" where
  "create_user_message t = no_message\<lparr>of_user := Some \<lparr>rm_name = None, rm_content = [t]\<rparr>\<rparr>"

definition create_system_message :: "string \<Rightarrow> conversation_message" where
  "create_system_message t = no_message\<lparr>of_system := Some \<lparr>rm_name = None, rm_content = [t]\<rparr>\<rparr>"

definition create_assistant_message :: "string \<Rightarrow> conversation_message" where
  "create_assistant_message t = no_message\<lparr>of_assistant := Some \<lparr>am_name = None, am_content = [t], am_tool_calls = []\<rparr>\<rparr>"

definition create_tool_message :: "string \<Rightarrow> string \<Rightarrow> tool_output \<Rightarrow> conversation_message" where
  "create_tool_message i n v =
    no_message\<lparr>of_tool := Some \<lparr>tm_tool_id = Some i, tm_name = n, tm_content = [stringify_tool_output v]\<rparr>\<rparr>"

section \<open>Answers\<close>

text \<open>An answer as protobuf gives it: fields that are not set read as empty or zero.\<close>

record choice_proto =
  hp_finish_reason :: string
  hp_index :: int
  hp_content :: string
  hp_tool_calls :: "call_proto list"

record token_usage =
  us_completion :: int
  us_prompt :: int
  us_total :: int
  us_accepted_prediction :: int
  us_completion_audio :: int
  us_reasoning :: int
  us_rejected_prediction :: int
  us_prompt_audio :: int
  us_cached :: int

definition no_usage :: token_usage where
  "no_usage = \<lparr>us_completion = 0, us_prompt = 0, us_total = 0, us_accepted_prediction = 0, us_completion_audio = 0,
     us_reasoning = 0, us_rejected_prediction = 0, us_prompt_audio = 0, us_cached = 0\<rparr>"

record output_proto =
  tp_choices :: "choice_proto list"
  tp_model :: string
  tp_usage :: "token_usage option"

record conversation_choice =
  ch_finish_reason :: string
  ch_index :: int
  ch_content :: string
  ch_tool_calls :: "tool_call list"

record conversation_result =
  cr_choices :: "conversation_choice list"
  cr_model :: "string option"
  cr_usage :: "token_usage option"

text \<open>A loop over a list that threads the number of identifiers drawn so far.\<close>

fun draw_map :: "(nat \<Rightarrow> 'a \<Rightarrow> 'b \<times> nat) \<Rightarrow> nat \<Rightarrow> 'a list \<Rightarrow> 'b list \<times> nat" where
  "draw_map f n [] = ([], n)"
| "draw_map f n (x # xs) = (case f n x of (y, n1) \<Rightarrow> case draw_map f n1 xs of (ys, n2) \<Rightarrow> (y # ys, n2))"

text \<open>\<open>fresh k\<close> is the \<open>k\<close>-th identifier drawn; a call without one gets it.\<close>

definition call_of_proto :: "(nat \<Rightarrow> string) \<Rightarrow> nat \<Rightarrow> call_proto \<Rightarrow> tool_call \<times> nat" where
  "call_of_proto fresh n c = (let fn = (case cp_function c of None \<Rightarrow> ([], []) | Some f \<Rightarrow> f); i = text_or_empty (cp_id c) in
     if i = [] then (\<lparr>tc_id = Some (fresh n), tc_function = Some fn\<rparr>, Suc n) else (\<lparr>tc_id = Some i, tc_function = Some fn\<rparr>, n))"

definition choice_of_proto :: "(nat \<Rightarrow> string) \<Rightarrow> nat \<Rightarrow> choice_proto \<Rightarrow> conversation_choice \<times> nat" where
  "choice_of_proto fresh n h = (case draw_map (call_of_proto fresh) n (hp_tool_calls h) of (cs, n1) \<Rightarrow>
     (\<lparr>ch_finish_reason = hp_finish_reason h, ch_index = hp_index h, ch_content = hp_content h, ch_tool_calls = cs\<rparr>, n1))"

text \<open>A message is true for Python even if it is not set, so the usage is always there.\<close>

definition output_of_proto :: "(nat \<Rightarrow> string) \<Rightarrow> nat \<Rightarrow> output_proto \<Rightarrow> conversation_result \<times> nat" where
  "output_of_proto fresh n out = (case draw_map (choice_of_proto fresh) n (tp_choices out) of (hs, n1) \<Rightarrow>
     (\<lparr>cr_choices = hs, cr_model = (if tp_model out = [] then None else Some (tp_model out)),
       cr_usage = Some (case tp_usage out of None \<Rightarrow> no_usage | Some u \<Rightarrow> u)\<rparr>, n1))"

definition get_outputs :: "(nat \<Rightarrow> string) \<Rightarrow> output_proto list \<Rightarrow> conversation_result list" where
  "get_outputs fresh outs = fst (draw_map (output_of_proto fresh) 0 outs)"

definition assistant_of_choice :: "conversation_choice \<Rightarrow> conversation_message" where
  "assistant_of_choice h = no_message\<lparr>of_assistant := Some \<lparr>am_name = None,
     am_content = (if ch_content h = [] then [] else [ch_content h]), am_tool_calls = ch_tool_calls h\<rparr>\<rparr>"

definition to_assistant_messages :: "conversation_result list \<Rightarrow> conversation_message list" where
  "to_assistant_messages outs = concat (map (\<lambda>r. map assistant_of_choice (cr_choices r)) outs)"

section \<open>Operations\<close>

record conversation_input =
  ci_content :: string
  ci_role :: "string option"
  ci_scrub :: "bool option"

record converse_request =
  cv_name :: string
  cv_inputs :: "conversation_input list"
  cv_context :: "string option"
  cv_parameters :: "(string, packed_any) dict"
  cv_metadata :: "(string, string) dict"
  cv_scrub :: "bool option"
  cv_temperature :: "rat option"

definition converse_request ::
  "string \<Rightarrow> conversation_input list \<Rightarrow> string option \<Rightarrow> (string, grpc_value) dict \<Rightarrow> (string, string) dict \<Rightarrow> bool option \<Rightarrow>
   rat option \<Rightarrow> converse_request res" where
  "converse_request name inputs ctx ps md scrub temp = res_bind (convert_dict_to_grpc_dict_of_any ps) (\<lambda>packed.
     Inr \<lparr>cv_name = name, cv_inputs = inputs, cv_context = ctx, cv_parameters = packed, cv_metadata = md, cv_scrub = scrub,
          cv_temperature = temp\<rparr>)"

definition converse_alpha1 where
  "converse_alpha1 p m name inputs ctx ps md scrub temp s =
    operation dapr_grpc_error fst (converse_request name inputs ctx ps md scrub temp) (\<lambda>q. call_rpc p m q s) s"

definition aio_converse_alpha1 where
  "aio_converse_alpha1 m name inputs ctx ps md scrub temp s =
    aio_operation dapr_grpc_error fst (converse_request name inputs ctx ps md scrub temp) m s"

text \<open>
  The parameters of a tool are a dict or a Struct; \<open>parse\<close> is the parser of protobuf from a dict or, for bytes, from the
  text of their base64 code. None stands for an empty dict too.
\<close>

datatype ('d, 'z) struct_arg = GivenStruct 'z | DictStruct 'd | BytesStruct string | OtherStruct string

definition convert_value_to_struct :: "('d + string \<Rightarrow> 'z res) \<Rightarrow> ('d, 'z) struct_arg \<Rightarrow> 'z res" where
  "convert_value_to_struct parse a = (case a of
     GivenStruct z \<Rightarrow> Inr z
   | OtherStruct n \<Rightarrow> Inl (exc ValueError (''Value must be a dictionary, got <class '' @ py_repr n @ ''>''))
   | _ \<Rightarrow> (case parse (case a of DictStruct d \<Rightarrow> Inl d | BytesStruct b \<Rightarrow> Inr (b64encode b)) of
       Inr z \<Rightarrow> Inr z
     | Inl e \<Rightarrow> if ex_kind e \<in> {TypeError, ValueError} then Inl (exc ValueError ''Unsupported parameter type or value'') else Inl e))"

record ('d, 'z) conversation_tool =
  ct_name :: string
  ct_description :: "string option"
  ct_parameters :: "('d, 'z) struct_arg option"

record 'z tool_proto =
  tlp_name :: string
  tlp_description :: "string option"
  tlp_parameters :: "'z option"

definition conversation_tool_proto ::
  "('d + string \<Rightarrow> 'z res) \<Rightarrow> ('d, 'z) conversation_tool \<Rightarrow> 'z tool_proto res" where
  "conversation_tool_proto parse t =
    res_bind (case ct_parameters t of None \<Rightarrow> Inr None | Some a \<Rightarrow> map_sum id Some (convert_value_to_struct parse a)) (\<lambda>z.
      Inr \<lparr>tlp_name = ct_name t, tlp_description = unless_empty (ct_description t), tlp_parameters = z\<rparr>)"

record input_alpha2 =
  ia_messages :: "conversation_message list"
  ia_scrub :: "bool option"

record 'z converse2_request =
  c2_name :: string
  c2_inputs :: "(message_proto list \<times> bool option) list"
  c2_parameters :: "(string, packed_any) dict"
  c2_metadata :: "(string, string) dict"
  c2_tools :: "'z tool_proto list"
  c2_context :: "string option"
  c2_scrub :: "bool option"
  c2_temperature :: "rat option"
  c2_tool_choice :: "string option"
  c2_response_format :: "'z option"
  c2_cache_seconds :: "int option"

definition converse2_request ::
  "('d + string \<Rightarrow> 'z res) \<Rightarrow> string \<Rightarrow> input_alpha2 list \<Rightarrow> string option \<Rightarrow> (string, grpc_value) dict \<Rightarrow> (string, string) dict \<Rightarrow>
   bool option \<Rightarrow> rat option \<Rightarrow> ('d, 'z) conversation_tool list \<Rightarrow> string option \<Rightarrow> 'z option \<Rightarrow> int option \<Rightarrow> 'z converse2_request res" where
  "converse2_request parse name inputs ctx ps md scrub temp tools choice fmt cache =
    res_bind (seq_res (map (conversation_tool_proto parse) tools)) (\<lambda>ts.
    res_bind (convert_dict_to_grpc_dict_of_any ps) (\<lambda>packed.
      Inr \<lparr>c2_name = name, c2_inputs = map (\<lambda>i. (map message_to_proto (ia_messages i), ia_scrub i)) inputs,
           c2_parameters = packed, c2_metadata = md, c2_tools = ts, c2_context = ctx, c2_scrub = scrub, c2_temperature = temp,
           c2_tool_choice = choice, c2_response_format = fmt, c2_cache_seconds = cache\<rparr>))"

text \<open>The answer of the second version: the context and the outputs.\<close>

definition to_converse2_response ::
  "(nat \<Rightarrow> string) \<Rightarrow> (string \<times> output_proto list) \<times> grpc_metadata \<Rightarrow> string \<times> conversation_result list" where
  "to_converse2_response fresh r = (fst (fst r), get_outputs fresh (snd (fst r)))"

definition converse_alpha2 where
  "converse_alpha2 p m fresh parse name inputs ctx ps md scrub temp tools choice fmt cache s =
    operation dapr_grpc_error (to_converse2_response fresh)
      (converse2_request parse name inputs ctx ps md scrub temp tools choice fmt cache) (\<lambda>q. call_rpc p m q s) s"

text \<open>The asynchronous client retries this operation too.\<close>

definition aio_converse_alpha2 where
  "aio_converse_alpha2 p m fresh parse name inputs ctx ps md scrub temp tools choice fmt cache s =
    operation dapr_grpc_error (to_converse2_response fresh)
      (converse2_request parse name inputs ctx ps md scrub temp tools choice fmt cache) (\<lambda>q. call_rpc p m q s) s"

section \<open>Tool calls keep their identity\<close>

definition proto_call_id :: "call_proto \<Rightarrow> string" where
  "proto_call_id c = text_or_empty (cp_id c)"

definition proto_call_function :: "call_proto \<Rightarrow> string \<times> string" where
  "proto_call_function c = (case cp_function c of None \<Rightarrow> ([], []) | Some f \<Rightarrow> f)"

definition all_choices :: "output_proto list \<Rightarrow> choice_proto list" where
  "all_choices outs = concat (map tp_choices outs)"

text \<open>Identifiers with the missing ones drawn, from the \<open>n\<close>-th draw on.\<close>

fun fill_ids :: "(nat \<Rightarrow> string) \<Rightarrow> nat \<Rightarrow> string list \<Rightarrow> string list \<times> nat" where
  "fill_ids fresh n [] = ([], n)"
| "fill_ids fresh n (i # ids) = (if i = [] then (case fill_ids fresh (Suc n) ids of (js, m) \<Rightarrow> (fresh n # js, m))
     else (case fill_ids fresh n ids of (js, m) \<Rightarrow> (i # js, m)))"

lemma draw_map_append:
  "draw_map f n (xs @ ys) = (case draw_map f n xs of (us, n1) \<Rightarrow> case draw_map f n1 ys of (vs, n2) \<Rightarrow> (us @ vs, n2))"
  by (induction xs arbitrary: n) (simp_all split: prod.splits)

lemma fill_ids_append:
  "fill_ids fresh n (xs @ ys) = (case fill_ids fresh n xs of (us, n1) \<Rightarrow> case fill_ids fresh n1 ys of (vs, n2) \<Rightarrow> (us @ vs, n2))"
  by (induction xs arbitrary: n) (simp_all split: prod.splits)

lemma calls_of_proto:
  "draw_map (call_of_proto fresh) n cs = (ts, m) \<Longrightarrow>
   fill_ids fresh n (map proto_call_id cs) = (map (\<lambda>t. text_or_empty (tc_id t)) ts, m) \<and>
   map tc_function ts = map (\<lambda>c. Some (proto_call_function c)) cs"
  by (induction cs arbitrary: n ts m)
    (auto simp: call_of_proto_def Let_def proto_call_id_def proto_call_function_def text_or_empty_def split: prod.splits if_splits option.splits)

definition choice_ids :: "choice_proto \<Rightarrow> string list" where
  "choice_ids h = map proto_call_id (hp_tool_calls h)"

text \<open>A choice and the assistant message made of it: the same content and the same calls, but for missing identifiers.\<close>

definition carries :: "choice_proto \<Rightarrow> conversation_message \<Rightarrow> string list \<Rightarrow> bool" where
  "carries h m ids \<longleftrightarrow> (\<exists>cs. message_to_proto m = AssistantProto [] (if hp_content h = [] then [] else [hp_content h]) cs \<and>
     map proto_call_id cs = ids \<and> map cp_function cs = map (\<lambda>c. Some (proto_call_function c)) (hp_tool_calls h))"

lemma choice_carried:
  assumes "choice_of_proto fresh n h = (c, m)"
  shows "\<exists>ids. fill_ids fresh n (choice_ids h) = (ids, m) \<and> carries h (assistant_of_choice c) ids"
proof -
  from assms obtain ts where ts: "draw_map (call_of_proto fresh) n (hp_tool_calls h) = (ts, m)" "ch_content c = hp_content h"
    "ch_tool_calls c = ts" by (auto simp: choice_of_proto_def split: prod.splits)
  note calls = calls_of_proto [OF ts(1)]
  have "map proto_call_id (map call_to_proto ts) = map (\<lambda>t. text_or_empty (tc_id t)) ts"
    by (auto simp: proto_call_id_def call_to_proto_def text_or_empty_def unless_empty_def split: option.splits)
  moreover have "map cp_function (map call_to_proto ts) = map tc_function ts" by (simp add: call_to_proto_def)
  ultimately show ?thesis
    using calls ts(2,3) by (auto simp: carries_def choice_ids_def assistant_of_choice_def no_message_def message_to_proto_def text_or_empty_def)
qed

lemma choices_carried:
  "draw_map (choice_of_proto fresh) n hs = (cs, m) \<Longrightarrow>
   \<exists>iss. fill_ids fresh n (concat (map choice_ids hs)) = (concat iss, m) \<and> length iss = length hs \<and>
     list_all2 (\<lambda>(h, ids) c. carries h (assistant_of_choice c) ids) (zip hs iss) cs"
proof (induction hs arbitrary: n cs m)
  case (Cons h hs)
  then obtain c n1 cs' where c: "choice_of_proto fresh n h = (c, n1)" "draw_map (choice_of_proto fresh) n1 hs = (cs', m)" "cs = c # cs'"
    by (auto split: prod.splits)
  from choice_carried [OF c(1)] obtain ids where ids: "fill_ids fresh n (choice_ids h) = (ids, n1)" "carries h (assistant_of_choice c) ids" by blast
  from Cons.IH [OF c(2)] obtain iss where iss: "fill_ids fresh n1 (concat (map choice_ids hs)) = (concat iss, m)" "length iss = length hs"
    "list_all2 (\<lambda>(h, ids) c. carries h (assistant_of_choice c) ids) (zip hs iss) cs'" by blast
  with ids c(3) show ?case by (intro exI [of _ "ids # iss"]) (simp add: fill_ids_append)
qed (simp add: exI [of _ "[]"])

lemma outputs_flat:
  "draw_map (output_of_proto fresh) n outs = (rs, m) \<Longrightarrow>
   draw_map (choice_of_proto fresh) n (all_choices outs) = (concat (map cr_choices rs), m)"
proof (induction outs arbitrary: n rs m)
  case (Cons out outs)
  then obtain r n1 rs' where r: "output_of_proto fresh n out = (r, n1)" "draw_map (output_of_proto fresh) n1 outs = (rs', m)" "rs = r # rs'"
    by (auto split: prod.splits)
  then have "draw_map (choice_of_proto fresh) n (tp_choices out) = (cr_choices r, n1)" by (auto simp: output_of_proto_def split: prod.splits)
  with Cons.IH [OF r(2)] r(3) show ?case by (simp add: all_choices_def draw_map_append)
qed (simp add: all_choices_def)

lemma fill_ids_spec:
  assumes "inj fresh" and "\<And>k. fresh k \<notin> set ids \<and> fresh k \<noteq> []"
  shows "fill_ids fresh n ids = (js, m) \<Longrightarrow> distinct (filter (\<lambda>i. i \<noteq> []) ids) \<Longrightarrow>
    distinct js \<and> [] \<notin> set js \<and> set js \<subseteq> set ids \<union> fresh ` {n..} \<and> list_all2 (\<lambda>i j. i \<noteq> [] \<longrightarrow> j = i) ids js"
  using assms(2)
proof (induction ids arbitrary: n js m)
  case (Cons i ids)
  have out: "fresh k \<notin> set ids" "fresh k \<noteq> i" for k using Cons.prems(3) [of k] by auto
  show ?case
  proof (cases "i = []")
    case True
    with Cons.prems(1) obtain js' where js: "fill_ids fresh (Suc n) ids = (js', m)" "js = fresh n # js'" by (auto split: prod.splits)
    have IH: "distinct js' \<and> [] \<notin> set js' \<and> set js' \<subseteq> set ids \<union> fresh ` {Suc n..} \<and> list_all2 (\<lambda>i j. i \<noteq> [] \<longrightarrow> j = i) ids js'"
      by (rule Cons.IH [OF js(1)]) (use Cons.prems(2,3) True in auto)
    have "fresh n \<notin> fresh ` {Suc n..}" using assms(1) by (auto simp: inj_eq)
    with IH out(1) have "fresh n \<notin> set js'" by blast
    with IH js(2) True Cons.prems(3) [of n] show ?thesis by auto
  next
    case False
    with Cons.prems(1) obtain js' where js: "fill_ids fresh n ids = (js', m)" "js = i # js'" by (auto split: prod.splits)
    have IH: "distinct js' \<and> [] \<notin> set js' \<and> set js' \<subseteq> set ids \<union> fresh ` {n..} \<and> list_all2 (\<lambda>i j. i \<noteq> [] \<longrightarrow> j = i) ids js'"
      by (rule Cons.IH [OF js(1)]) (use Cons.prems(2,3) False in auto)
    have "i \<notin> set ids" using Cons.prems(2) False by simp
    with IH out(2) have "i \<notin> set js'" by force
    with IH js(2) False show ?thesis by auto
  qed
qed simp


definition demo_tool_answer :: "output_proto list" where
  "demo_tool_answer = [\<lparr>tp_choices = [\<lparr>hp_finish_reason = ''tool_calls'', hp_index = 0, hp_content = [],
     hp_tool_calls = [\<lparr>cp_id = None, cp_function = Some (''f'', ''{}'')\<rparr>, \<lparr>cp_id = Some ''c1'', cp_function = Some (''g'', ''{}'')\<rparr>]\<rparr>],
     tp_model = [], tp_usage = None\<rparr>]"


text \<open>An answer without usage comes with one whose counts are zero.\<close>

lemma usage_never_missing: "cr_usage (fst (output_of_proto fresh n out)) \<noteq> None"
  by (simp add: output_of_proto_def split: prod.splits)

end
