(* ===== verification/Executor.thy ===== *)
theory Executor
  imports Context
begin

text \<open>
  The orchestration executor (\<open>_OrchestrationExecutor\<close> of \<open>_durabletask/worker.py\<close>): one handler for
  each history event, the dispatcher with the suspension buffer, and \<open>execute\<close>, which replays the
  committed history, processes the new events and returns the actions. Log messages are not
  modelled, except for the summaries they print.
\<close>

text \<open>
  An orchestrator function: a generator function, or a plain function that computes its result at
  once (a yield in the body of a plain function has no behaviour here).
\<close>

datatype orchestrator = GenOrch "pyval \<Rightarrow> gen" | PlainOrch "pyval \<Rightarrow> gen"

section \<open>Errors\<close>

definition quoted :: "string \<Rightarrow> string" where
  "quoted s = [CHR 39] @ s @ [CHR 39]"

definition get_non_determinism_error :: "int \<Rightarrow> string \<Rightarrow> exn" where
  "get_non_determinism_error task_id action_name = exc NonDeterminismError
     (''A previous execution called '' @ action_name @ '' with ID='' @ str_of_int task_id @
      '', but the current execution doesn'' @ [CHR 39] @ ''t have this action with this ID. This problem occurs when either the orchestration has non-deterministic logic or if the code was changed after an instance of this orchestration already started running.'')"

fun action_type_name :: "action_body \<Rightarrow> string" where
  "action_type_name (ScheduleTask n inp rt x sc) = ''scheduleTask''"
| "action_type_name (CreateTimer ts og) = ''createTimer''"
| "action_type_name (CreateChildWorkflow n inst inp rt sc) = ''createChildWorkflow''"
| "action_type_name (CompleteWorkflow st r d c) = ''completeWorkflow''"
| "action_type_name WorkflowVersionNotAvailable = ''workflowVersionNotAvailable''"

definition get_method_name_for_action :: "action \<Rightarrow> string res" where
  "get_method_name_for_action a = (case act_body a of
     ScheduleTask n inp rt x sc \<Rightarrow> Inr ''call_activity''
   | CreateTimer ts og \<Rightarrow> Inr ''create_timer''
   | CreateChildWorkflow n inst inp rt sc \<Rightarrow> Inr ''call_sub_orchestrator''
   | b \<Rightarrow> Inl (exc NotImplementedError
       (''Action type '' @ quoted (action_type_name b) @ '' not supported!'')))"

text \<open>The exception to raise: the mismatch, or the one that building its message raises.\<close>

definition get_wrong_action_type_error :: "int \<Rightarrow> string \<Rightarrow> action \<Rightarrow> exn" where
  "get_wrong_action_type_error task_id expected a = (case get_method_name_for_action a of
     Inl e \<Rightarrow> e
   | Inr unexpected \<Rightarrow> exc NonDeterminismError
       (''Failed to restore orchestration state due to a history mismatch: A previous execution called '' @
        expected @ '' with ID='' @ str_of_int task_id @ '', but the current execution is instead trying to call '' @
        unexpected @ '' as part of rebuilding it'' @ [CHR 39] @ ''s history. This kind of mismatch can happen if an orchestration has non-deterministic logic or if the code was changed after an instance of this orchestration already started running.''))"

definition get_wrong_action_name_error :: "int \<Rightarrow> string \<Rightarrow> string \<Rightarrow> string \<Rightarrow> exn" where
  "get_wrong_action_name_error task_id method_name expected actual = exc NonDeterminismError
     (''Failed to restore orchestration state due to a history mismatch: A previous execution called '' @
      method_name @ '' with name='' @ quoted expected @ '' and sequence number '' @ str_of_int task_id @
      '', but the current execution is instead trying to call '' @ actual @
      '' as part of rebuilding it'' @ [CHR 39] @ ''s history. This kind of mismatch can happen if an orchestration has non-deterministic logic or if the code was changed after an instance of this orchestration already started running.'')"

section \<open>Summaries\<close>

fun event_type_name :: "event_body \<Rightarrow> string" where
  "event_type_name (WorkflowStarted n ps) = ''workflowStarted''"
| "event_type_name (ExecutionStarted n inp inst) = ''executionStarted''"
| "event_type_name (TimerCreated ts og) = ''timerCreated''"
| "event_type_name (TimerFired i ts) = ''timerFired''"
| "event_type_name (TaskScheduled n inp) = ''taskScheduled''"
| "event_type_name (TaskCompleted i r) = ''taskCompleted''"
| "event_type_name (TaskFailed i d) = ''taskFailed''"
| "event_type_name (ChildWorkflowInstanceCreated n inp inst) = ''childWorkflowInstanceCreated''"
| "event_type_name (ChildWorkflowInstanceCompleted i r) = ''childWorkflowInstanceCompleted''"
| "event_type_name (ChildWorkflowInstanceFailed i d) = ''childWorkflowInstanceFailed''"
| "event_type_name (EventRaised n inp) = ''eventRaised''"
| "event_type_name ExecutionSuspended = ''executionSuspended''"
| "event_type_name ExecutionResumed = ''executionResumed''"
| "event_type_name (ExecutionTerminated out) = ''executionTerminated''"
| "event_type_name ExecutionStalled = ''executionStalled''"
| "event_type_name (OtherEvent n) = n"

definition summary_of :: "string list \<Rightarrow> string" where
  "summary_of names = (case names of
     [] \<Rightarrow> ''[]''
   | [n] \<Rightarrow> ''['' @ n @ '']''
   | _ \<Rightarrow>
       let counts = foldl (\<lambda>d n. dict_set n ((case dict_get d n of None \<Rightarrow> 0 | Some c \<Rightarrow> c) + (1 :: nat)) d) [] names
       in ''['' @ join_str '', '' (map (\<lambda>(n, c). n @ ''='' @ str_of_nat c) counts) @ '']'')"

definition get_new_event_summary :: "event list \<Rightarrow> string" where
  "get_new_event_summary es = summary_of (map (event_type_name \<circ> ev_body) es)"

definition get_action_summary :: "action list \<Rightarrow> string" where
  "get_action_summary as = summary_of (map (action_type_name \<circ> act_body) as)"

definition is_suspendable :: "event \<Rightarrow> bool" where
  "is_suspendable ev = (event_type_name (ev_body ev) \<notin> {''executionResumed'', ''executionTerminated''})"

section \<open>Handlers\<close>

text \<open>
  A handler ends normally, with a \<open>StopIteration\<close> of the generator or with another exception, and
  \<open>None\<close> means that the orchestrator calls its context for ever.
\<close>

type_synonym step_result = "(flow \<times> ctx) option"

definition done_with :: "'a res \<times> ctx \<Rightarrow> step_result" where
  "done_with r = (case r of (Inl e, s) \<Rightarrow> Some (Raise e, s) | (Inr _, s) \<Rightarrow> Some (Continue, s))"

definition then_resume :: "(string \<Rightarrow> string) \<Rightarrow> 'a res \<times> ctx \<Rightarrow> step_result" where
  "then_resume u5 r = (case r of (Inl e, s) \<Rightarrow> Some (Raise e, s) | (Inr _, s) \<Rightarrow> resume u5 s)"

definition handle_workflow_started :: "timestamp \<Rightarrow> string \<Rightarrow> string list \<Rightarrow> ctx \<Rightarrow> ctx" where
  "handle_workflow_started ts name patches s =
    (let s1 = s\<lparr>current_utc_datetime := to_datetime ts\<rparr>;
         s2 = (if name = [] then s1 else s1\<lparr>orchestrator_version_name := Some name\<rparr>)
     in s2\<lparr>history_patches := fold (\<lambda>p d. dict_set p True d) patches (history_patches s2)\<rparr>)"

definition start_orchestrator :: "(string \<Rightarrow> string) \<Rightarrow> orchestrator \<Rightarrow> pyval \<Rightarrow> ctx \<Rightarrow> step_result" where
  "start_orchestrator u5 fn v s = (case fn of
     GenOrch f \<Rightarrow> run u5 (f v) s
   | PlainOrch f \<Rightarrow> Option.bind (drive u5 (f v) s) (\<lambda>(oc, s1). case oc of
       Returned r \<Rightarrow> done_with (set_complete r COMPLETED False s1)
     | Raised e \<Rightarrow> Some (Raise e, s1)
     | Yielded y k \<Rightarrow> None))"

definition handle_execution_started ::
  "(string \<Rightarrow> string) \<Rightarrow> (orchestrator, 'a) registry \<Rightarrow> router \<Rightarrow> string \<Rightarrow> string option \<Rightarrow> ctx \<Rightarrow> step_result"
where
  "handle_execution_started u5 reg rt name inp s =
    (let s1 = s\<lparr>ctx_app_id := Some (if targetAppID rt \<noteq> [] then targetAppID rt else sourceAppID rt)\<rparr>;
         version = (case orchestrator_version_name s1 of Some v \<Rightarrow> if v = [] then None else Some v | None \<Rightarrow> None)
     in case get_orchestrator reg name version of
          Inl e \<Rightarrow> Some (Raise e, s1)
        | Inr (None, v) \<Rightarrow> Some (Raise (exc OrchestratorNotRegisteredError
            (''A '' @ quoted name @ '' orchestrator was not registered.'')), s1)
        | Inr (Some fn, v) \<Rightarrow>
            (let s2 = (case v of None \<Rightarrow> s1 | Some u \<Rightarrow> s1\<lparr>version_name := Some u\<rparr>)
             in case (if sv_value inp \<noteq> [] then from_json (sv_value inp) else Inr PNone) of
                  Inl e \<Rightarrow> Some (Raise e, s2)
                | Inr w \<Rightarrow> start_orchestrator u5 fn w s2))"

definition handle_timer_created :: "event \<Rightarrow> ctx \<Rightarrow> step_result" where
  "handle_timer_created ev s =
    (let i = eventId ev;
         s1 = (case dict_get (pending_actions s) i of
                 Some a \<Rightarrow> if is_optional_timer_action a \<and> \<not> is_optional_timer_event ev
                           then snd (drop_optional_pending_at i s) else s
               | None \<Rightarrow> s)
     in case dict_get (pending_actions s1) i of
          None \<Rightarrow>
            if is_optional_timer_event ev then Some (Continue, s1)
            else Some (Raise (get_non_determinism_error i ''create_timer''), s1)
        | Some a \<Rightarrow>
            if is_optional_timer_event ev \<and> \<not> is_optional_timer_action a then Some (Continue, s1)
            else
              (let s2 = s1\<lparr>pending_actions := dict_del i (pending_actions s1)\<rparr>
               in case act_body a of
                    CreateTimer ts og \<Rightarrow> Some (Continue, s2)
                  | _ \<Rightarrow> Some (Raise (get_wrong_action_type_error i ''create_timer'' a), s2)))"

text \<open>\<open>ctx._pending_tasks.pop(task_id, None)\<close>.\<close>

definition pop_task :: "int \<Rightarrow> ctx \<Rightarrow> tref option \<times> ctx" where
  "pop_task i s = (dict_get (pending_tasks s) i, s\<lparr>pending_tasks := dict_del i (pending_tasks s)\<rparr>)"

text \<open>The next attempt of a retried task, when its timer has fired.\<close>

definition reschedule :: "tref \<Rightarrow> (tref, ctx) op" where
  "reschedule r s = (case t_class (task_at s r) of
     Retryable ri \<Rightarrow>
       call_activity_function_helper None (FnName (ri_task_name ri)) (RetryCall r (ri_encoded_input ri))
         (ri_is_sub_orch ri) (ri_instance_id ri) (ri_app_id ri) (ri_task_execution_id ri) (ri_propagation ri) s
   | _ \<Rightarrow> (Inl (no_attribute ''Task'' ''_task_name''), s))"

definition handle_timer_fired :: "(string \<Rightarrow> string) \<Rightarrow> int \<Rightarrow> ctx \<Rightarrow> step_result" where
  "handle_timer_fired u5 i s = (case pop_task i s of
     (None, s1) \<Rightarrow> Some (Continue, s1)
   | (Some t, s1) \<Rightarrow>
       (case task_complete t PNone s1 of
          (Inl e, s2) \<Rightarrow> Some (Raise e, s2)
        | (Inr _, s2) \<Rightarrow>
            (case t_retryable_parent (task_at s2 t) of
               Some r \<Rightarrow> done_with (reschedule r s2)
             | None \<Rightarrow> resume u5 s2)))"

text \<open>Drop an optional timer in the way of a scheduled action, then take the action at the id.\<close>

definition take_action :: "int \<Rightarrow> ctx \<Rightarrow> action option \<times> ctx" where
  "take_action i s =
    (let s1 = (case dict_get (pending_actions s) i of
                 Some a \<Rightarrow> if is_optional_timer_action a then snd (drop_optional_pending_at i s) else s
               | None \<Rightarrow> s)
     in (dict_get (pending_actions s1) i, s1\<lparr>pending_actions := dict_del i (pending_actions s1)\<rparr>))"

definition handle_task_scheduled :: "int \<Rightarrow> string \<Rightarrow> ctx \<Rightarrow> step_result" where
  "handle_task_scheduled i name s = (case take_action i s of
     (None, s1) \<Rightarrow> Some (Raise (get_non_determinism_error i ''call_activity''), s1)
   | (Some a, s1) \<Rightarrow>
       (case act_body a of
          ScheduleTask n inp rt x sc \<Rightarrow>
            if n \<noteq> name then Some (Raise (get_wrong_action_name_error i ''call_activity'' name n), s1)
            else Some (Continue, s1)
        | _ \<Rightarrow> Some (Raise (get_wrong_action_type_error i ''call_activity'' a), s1)))"

definition handle_child_created :: "int \<Rightarrow> string \<Rightarrow> ctx \<Rightarrow> step_result" where
  "handle_child_created i name s = (case take_action i s of
     (None, s1) \<Rightarrow> Some (Raise (get_non_determinism_error i ''call_sub_orchestrator''), s1)
   | (Some a, s1) \<Rightarrow>
       (case act_body a of
          CreateChildWorkflow n inst inp rt sc \<Rightarrow>
            if n \<noteq> name then Some (Raise (get_wrong_action_name_error i ''call_sub_orchestrator'' name n), s1)
            else Some (Continue, s1)
        | _ \<Rightarrow> Some (Raise (get_wrong_action_type_error i ''call_sub_orchestrator'' a), s1)))"

text \<open>\<open>taskCompleted\<close> and \<open>childWorkflowInstanceCompleted\<close>.\<close>

definition decode_payload :: "string option \<Rightarrow> pyval res" where
  "decode_payload p = (if is_empty p then Inr PNone else from_json (sv_value p))"

definition handle_completed :: "(string \<Rightarrow> string) \<Rightarrow> int \<Rightarrow> string option \<Rightarrow> ctx \<Rightarrow> step_result" where
  "handle_completed u5 i result s = (case pop_task i s of
     (None, s1) \<Rightarrow> Some (Continue, s1)
   | (Some t, s1) \<Rightarrow>
       (case decode_payload result of
          Inl e \<Rightarrow> Some (Raise e, s1)
        | Inr v \<Rightarrow> then_resume u5 (task_complete t v s1)))"

text \<open>
  \<open>taskFailed\<close> and \<open>childWorkflowInstanceFailed\<close>: a retried task gets a timer for its next attempt
  while its policy allows one, and fails otherwise.
\<close>

definition attempt_again ::
  "tref \<Rightarrow> retry_info \<Rightarrow> int \<Rightarrow> (retry_info \<Rightarrow> timer_origin) \<Rightarrow> (tref, ctx) op"
where
  "attempt_again t ri delay origin s =
     create_timer_internal (FireIn delay) (Some t) (Some (origin ri))
       (upd_task t (\<lambda>x. x\<lparr>t_class := Retryable (ri\<lparr>ri_attempt_count := Suc (ri_attempt_count ri)\<rparr>)\<rparr>) s)"

definition handle_failed ::
  "(string \<Rightarrow> string) \<Rightarrow> string \<Rightarrow> (retry_info \<Rightarrow> timer_origin) \<Rightarrow> string \<Rightarrow> int \<Rightarrow> failure_details \<Rightarrow> ctx \<Rightarrow> step_result"
where
  "handle_failed u5 msg origin bad_type i d s = (case pop_task i s of
     (None, s1) \<Rightarrow> Some (Continue, s1)
   | (Some t, s1) \<Rightarrow>
       (case t_class (task_at s1 t) of
          Retryable ri \<Rightarrow>
            if is_error_non_retryable (errorType d) (ri_policy ri) then then_resume u5 (task_fail t msg d s1)
            else (case compute_next_delay (ri_policy ri) (ri_attempt_count ri) (ri_start_time ri) of
                Inl e \<Rightarrow> Some (Raise e, s1)
              | Inr None \<Rightarrow> then_resume u5 (task_fail t msg d s1)
              | Inr (Some delay) \<Rightarrow> done_with (attempt_again t ri delay origin s1))
        | k \<Rightarrow>
            if is_composite k then Some (Raise (exc TypeError bad_type), s1)
            else then_resume u5 (task_fail t msg d s1)))"

definition handle_task_failed :: "(string \<Rightarrow> string) \<Rightarrow> int \<Rightarrow> failure_details \<Rightarrow> ctx \<Rightarrow> step_result" where
  "handle_task_failed u5 i d s = handle_failed u5
     (ctx_instance_id s @ '': Activity task #'' @ str_of_int i @ '' failed: '' @ errorMessage d)
     (\<lambda>ri. OriginActivityRetry (ri_task_execution_id ri)) ''Unexpected task type'' i d s"

definition handle_child_failed :: "(string \<Rightarrow> string) \<Rightarrow> int \<Rightarrow> failure_details \<Rightarrow> ctx \<Rightarrow> step_result" where
  "handle_child_failed u5 i d s = handle_failed u5
     (''Sub-orchestration task #'' @ str_of_int i @ '' failed: '' @ errorMessage d)
     (\<lambda>ri. OriginChildWorkflowRetry (sv_value (ri_instance_id ri))) ''Unexpected sub-orchestration task type'' i d s"

text \<open>
  \<open>eventRaised\<close>: the oldest waiter takes the value; without one it is buffered.
\<close>

definition buffer_value :: "string \<Rightarrow> pyval \<Rightarrow> ctx \<Rightarrow> ctx" where
  "buffer_value key v s = s\<lparr>received_events := dict_set key (buffered key s @ [v]) (received_events s)\<rparr>"

definition handle_event_raised :: "(string \<Rightarrow> string) \<Rightarrow> string \<Rightarrow> string option \<Rightarrow> ctx \<Rightarrow> step_result" where
  "handle_event_raised u5 name inp s =
    (let key = casefold name in
     case dict_get (pending_events s) key of
       Some (t # ts) \<Rightarrow>
         (let s1 = s\<lparr>pending_events := dict_set key ts (pending_events s)\<rparr> in
          case decode_payload inp of
            Inl e \<Rightarrow> Some (Raise e, s1)
          | Inr v \<Rightarrow>
              (case task_complete t v s1 of
                 (Inl e, s2) \<Rightarrow> Some (Raise e, s2)
               | (Inr _, s2) \<Rightarrow>
                   resume u5 (if ts = [] then s2\<lparr>pending_events := dict_del key (pending_events s2)\<rparr> else s2)))
     | _ \<Rightarrow>
         (let s1 = s\<lparr>received_events := dict_set key (buffered key s) (received_events s)\<rparr>
          in case decode_payload inp of
               Inl e \<Rightarrow> Some (Raise e, s1)
             | Inr v \<Rightarrow> Some (Continue, buffer_value key v s1)))"

definition handle_terminated :: "string option \<Rightarrow> ctx \<Rightarrow> step_result" where
  "handle_terminated out s =
     done_with (set_complete (if is_empty out then PNone else PStr (sv_value out)) TERMINATED True s)"

definition unknown_event :: "event_body \<Rightarrow> exn" where
  "unknown_event b = exc WorkflowStateError
     (''Don'' @ [CHR 39] @ ''t know how to handle event of type '' @ quoted (event_type_name b))"

section \<open>Dispatch\<close>

record executor =
  is_suspended :: bool
  suspended_events :: "event list"

definition new_executor :: executor where
  "new_executor = \<lparr>is_suspended = False, suspended_events = []\<rparr>"

text \<open>Every event but a resumption of a suspended execution.\<close>

definition handle_event ::
  "(string \<Rightarrow> string) \<Rightarrow> (orchestrator, 'a) registry \<Rightarrow> event \<Rightarrow> ctx \<Rightarrow> step_result"
where
  "handle_event u5 reg ev s = (case ev_body ev of
     WorkflowStarted name patches \<Rightarrow> Some (Continue, handle_workflow_started (ev_timestamp ev) name patches s)
   | ExecutionStarted name inp inst \<Rightarrow> handle_execution_started u5 reg (ev_router ev) name inp s
   | TimerCreated ts og \<Rightarrow> handle_timer_created ev s
   | TimerFired i ts \<Rightarrow> handle_timer_fired u5 i s
   | TaskScheduled name inp \<Rightarrow> handle_task_scheduled (eventId ev) name s
   | TaskCompleted i r \<Rightarrow> handle_completed u5 i r s
   | TaskFailed i d \<Rightarrow> handle_task_failed u5 i d s
   | ChildWorkflowInstanceCreated name inp inst \<Rightarrow> handle_child_created (eventId ev) name s
   | ChildWorkflowInstanceCompleted i r \<Rightarrow> handle_completed u5 i r s
   | ChildWorkflowInstanceFailed i d \<Rightarrow> handle_child_failed u5 i d s
   | EventRaised name inp \<Rightarrow> handle_event_raised u5 name inp s
   | ExecutionSuspended \<Rightarrow> Some (Continue, s)
   | ExecutionTerminated out \<Rightarrow> handle_terminated out s
   | ExecutionStalled \<Rightarrow> Some (Continue, s)
   | b \<Rightarrow> Some (Raise (unknown_event b), s))"

text \<open>The \<open>except StopIteration\<close> of \<open>process_event\<close>.\<close>

definition catch_stop :: "flow \<Rightarrow> ctx \<Rightarrow> unit res \<times> ctx" where
  "catch_stop f s = (case f of
     Continue \<Rightarrow> (Inr (), s)
   | Raise e \<Rightarrow> (Inl e, s)
   | Stop v \<Rightarrow> set_complete v COMPLETED False s)"

text \<open>
  \<open>process_event\<close>, and the loop of a resumption over the buffered events (\<open>Inr i\<close>: from index
  \<open>i\<close> on). The loop runs over the live list: an event that suspends the execution again makes the
  later ones append to the list they are read from, and then the loop never ends.
\<close>

type_synonym loop_result = "(unit res \<times> ctx \<times> executor) option"

partial_function (option) process ::
  "(event \<Rightarrow> ctx \<Rightarrow> step_result) \<Rightarrow> event + nat \<Rightarrow> ctx \<times> executor \<Rightarrow> loop_result"
where
  "process handle w sx = (case w of
     Inl ev \<Rightarrow>
       if is_suspended (snd sx) \<and> is_suspendable ev
       then Some (Inr (), fst sx, (snd sx)\<lparr>suspended_events := suspended_events (snd sx) @ [ev]\<rparr>)
       else if ev_body ev = ExecutionResumed \<and> is_suspended (snd sx)
       then process handle (Inr 0) (fst sx, (snd sx)\<lparr>is_suspended := False\<rparr>)
       else Option.bind (handle ev (fst sx)) (\<lambda>(f, s1).
         Some (fst (catch_stop f s1), snd (catch_stop f s1),
               if ev_body ev = ExecutionSuspended then (snd sx)\<lparr>is_suspended := True\<rparr> else snd sx))
   | Inr i \<Rightarrow>
       if i < length (suspended_events (snd sx))
       then Option.bind (process handle (Inl (suspended_events (snd sx) ! i)) sx) (\<lambda>(r, sx1). case r of
              Inl e \<Rightarrow> Some (Inl e, sx1)
            | Inr _ \<Rightarrow> process handle (Inr (Suc i)) sx1)
       else Some (Inr (), fst sx, (snd sx)\<lparr>suspended_events := []\<rparr>))"

definition process_event ::
  "(string \<Rightarrow> string) \<Rightarrow> (orchestrator, 'a) registry \<Rightarrow> event \<Rightarrow> ctx \<Rightarrow> executor \<Rightarrow> loop_result"
where
  "process_event u5 reg ev s x = process (handle_event u5 reg) (Inl ev) (s, x)"

text \<open>A loop over events; the first exception ends it.\<close>

fun process_events ::
  "(string \<Rightarrow> string) \<Rightarrow> (orchestrator, 'a) registry \<Rightarrow> event list \<Rightarrow> ctx \<Rightarrow> executor \<Rightarrow> loop_result"
where
  "process_events u5 reg [] s x = Some (Inr (), s, x)"
| "process_events u5 reg (ev # evs) s x =
     Option.bind (process_event u5 reg ev s x) (\<lambda>(r, s1, x1). case r of
       Inl e \<Rightarrow> Some (Inl e, s1, x1)
     | Inr _ \<Rightarrow> process_events u5 reg evs s1 x1)"

record execution_results =
  er_actions :: "action list"
  er_custom_status :: "string option"
  er_version_name :: "string option"
  er_patches :: "string list"

definition no_new_events :: exn where
  "no_new_events = exc WorkflowStateError ''The new history event list must have at least one event in it.''"

definition replay_and_run ::
  "(string \<Rightarrow> string) \<Rightarrow> (orchestrator, 'a) registry \<Rightarrow> string \<Rightarrow> event list \<Rightarrow> event list \<Rightarrow> loop_result"
where
  "replay_and_run u5 reg inst old new =
     Option.bind (process_events u5 reg old ((new_context inst)\<lparr>is_replaying := True\<rparr>) new_executor)
       (\<lambda>(r, s, x). case r of
          Inl e \<Rightarrow> Some (Inl e, s, x)
        | Inr _ \<Rightarrow> process_events u5 reg new (s\<lparr>is_replaying := False\<rparr>) x)"

text \<open>What the exception handlers of \<open>execute\<close> make of the loop's end.\<close>

definition settle :: "unit res \<Rightarrow> ctx \<Rightarrow> ctx" where
  "settle r s = (case r of
     Inr _ \<Rightarrow> s
   | Inl e \<Rightarrow> if ex_kind e = VersionNotRegisteredException then set_version_not_registered s
             else set_failed e s)"

definition execute ::
  "(string \<Rightarrow> string) \<Rightarrow> (orchestrator, 'a) registry \<Rightarrow> string \<Rightarrow> event list \<Rightarrow> event list \<Rightarrow> execution_results res option"
where
  "execute u5 reg inst old new =
    (if new = [] then Some (Inl no_new_events)
     else Option.bind (replay_and_run u5 reg inst old new) (\<lambda>(r, s, x).
       Some (case get_actions (settle r s) of
         (Inl e, s1) \<Rightarrow> Inl e
       | (Inr actions, s1) \<Rightarrow> Inr
           \<lparr>er_actions = actions, er_custom_status = encoded_custom_status s1,
            er_version_name = version_name s1, er_patches = encountered_patches s1\<rparr>)))"

end
