(* ===== verification/WorkflowClient.thy ===== *)
theory WorkflowClient
  imports Executor
begin

text \<open>
  The client of the workflow engine: \<open>TaskHubGrpcClient\<close> of \<open>_durabletask/client.py\<close> (its asynchronous twin in
  \<open>_durabletask/aio/client.py\<close> runs the same code with awaits), and \<open>DaprWorkflowClient\<close> with \<open>WorkflowState\<close>
  on top of it.

  A call of the stub has the outcome that the sidecar gives it. Instants of the monotonic clock and delays are
  rational seconds; every reading of the clock is an input.
\<close>

section \<open>Requests\<close>

record create_instance_request =
  cr_name :: string
  cr_instanceId :: string
  cr_input :: "string option"
  cr_scheduledStart :: "timestamp option"
  cr_version :: string

record raise_event_request =
  re_instanceId :: string
  re_name :: string
  re_input :: "string option"

record terminate_request =
  tm_instanceId :: string
  tm_output :: "string option"
  tm_recursive :: bool

text \<open>A wrapped payload: \<open>StringValue(to_json(v))\<close> if the condition holds.\<close>

definition payload_if :: "bool \<Rightarrow> pyval \<Rightarrow> string option res" where
  "payload_if b v = (if b then map_sum id Some (to_json v) else Inr None)"

text \<open>A callable with its \<open>__name__\<close>; \<open>fresh\<close> is the identifier that \<open>uuid4\<close> draws. A datetime is true.\<close>

datatype orchestrator_ref = ByOrchestratorName string | ByOrchestratorFunction string

definition schedule_new_orchestration ::
  "string \<Rightarrow> orchestrator_ref \<Rightarrow> pyval \<Rightarrow> string option \<Rightarrow> fire_point option \<Rightarrow> create_instance_request res" where
  "schedule_new_orchestration fresh orchestrator inp instance_id start_at =
    res_bind (case orchestrator of ByOrchestratorName n \<Rightarrow> Inr n | ByOrchestratorFunction n \<Rightarrow> get_name n) (\<lambda>name.
    res_bind (payload_if (inp \<noteq> PNone) inp) (\<lambda>p.
      Inr \<lparr>cr_name = name,
           cr_instanceId = (case instance_id of Some i \<Rightarrow> if i \<noteq> [] then i else fresh | None \<Rightarrow> fresh),
           cr_input = p, cr_scheduledStart = map_option to_timestamp start_at, cr_version = []\<rparr>))"

definition raise_orchestration_event :: "string \<Rightarrow> string \<Rightarrow> pyval \<Rightarrow> raise_event_request res" where
  "raise_orchestration_event i name v =
    res_bind (payload_if (truthy v) v) (\<lambda>p. Inr \<lparr>re_instanceId = i, re_name = name, re_input = p\<rparr>)"

definition terminate_orchestration :: "string \<Rightarrow> pyval \<Rightarrow> bool \<Rightarrow> terminate_request res" where
  "terminate_orchestration i out recursive =
    res_bind (payload_if (truthy out) out) (\<lambda>p. Inr \<lparr>tm_instanceId = i, tm_output = p, tm_recursive = recursive\<rparr>)"

text \<open>The requests without a payload: to suspend (\<open>pause_workflow\<close>), to resume and to purge.\<close>

datatype instance_request = SuspendInstance string | ResumeInstance string | PurgeInstances string bool

definition suspend_orchestration :: "string \<Rightarrow> instance_request" where
  "suspend_orchestration i = SuspendInstance i"

definition resume_orchestration :: "string \<Rightarrow> instance_request" where
  "resume_orchestration i = ResumeInstance i"

definition purge_orchestration :: "string \<Rightarrow> bool \<Rightarrow> instance_request" where
  "purge_orchestration i recursive = PurgeInstances i recursive"

text \<open>\<open>schedule_new_workflow\<close>: a registered function goes by its alternate name.\<close>

datatype workflow_ref = WorkflowName string | WorkflowFunction string "string option"

definition workflow_name :: "workflow_ref \<Rightarrow> string" where
  "workflow_name w = (case w of
     WorkflowName n \<Rightarrow> n | WorkflowFunction n (Some alt) \<Rightarrow> alt | WorkflowFunction n None \<Rightarrow> n)"

definition schedule_new_workflow ::
  "string \<Rightarrow> workflow_ref \<Rightarrow> pyval \<Rightarrow> string option \<Rightarrow> fire_point option \<Rightarrow> create_instance_request res" where
  "schedule_new_workflow fresh w = schedule_new_orchestration fresh (ByOrchestratorName (workflow_name w))"

section \<open>States\<close>

text \<open>\<open>GetInstanceResponse\<close>; a wrapper that is not set reads as the empty string.\<close>

record instance_response =
  ir_exists :: bool
  ir_name :: string
  ir_status :: int
  ir_created :: int
  ir_updated :: int
  ir_input :: string
  ir_output :: string
  ir_custom_status :: string
  ir_error_type :: string
  ir_error_message :: string

record workflow_state =
  ws_instance_id :: string
  ws_name :: string
  ws_status :: status
  ws_created :: int
  ws_updated :: int
  ws_input :: "string option"
  ws_output :: "string option"
  ws_custom_status :: "string option"
  ws_failure :: "failure_details option"

definition statuses :: "status list" where
  "statuses = [RUNNING, COMPLETED, CONTINUED_AS_NEW, FAILED, CANCELED, TERMINATED, PENDING, SUSPENDED, STALLED]"

text \<open>\<open>OrchestrationStatus(value)\<close>.\<close>

definition status_of_value :: "int \<Rightarrow> status res" where
  "status_of_value n = (if 0 \<le> n \<and> nat n < length statuses then Inr (statuses ! nat n)
     else Inl (exc ValueError (str_of_int n @ '' is not a valid OrchestrationStatus'')))"

definition value_or_none :: "string \<Rightarrow> string option" where
  "value_or_none s = (if s = [] then None else Some s)"

definition new_orchestration_state :: "string \<Rightarrow> instance_response \<Rightarrow> workflow_state option res" where
  "new_orchestration_state i res =
    (if \<not> ir_exists res then Inr None
     else res_bind (status_of_value (ir_status res)) (\<lambda>st. Inr (Some
       \<lparr>ws_instance_id = i, ws_name = ir_name res, ws_status = st,
        ws_created = ir_created res, ws_updated = ir_updated res,
        ws_input = value_or_none (ir_input res), ws_output = value_or_none (ir_output res),
        ws_custom_status = value_or_none (ir_custom_status res),
        ws_failure = (if ir_error_message res \<noteq> [] \<or> ir_error_type res \<noteq> []
          then Some \<lparr>errorType = ir_error_type res, errorMessage = ir_error_message res\<rparr> else None)\<rparr>)))"

definition raise_if_failed :: "workflow_state \<Rightarrow> unit res" where
  "raise_if_failed s = (case ws_failure s of
     None \<Rightarrow> Inr ()
   | Some d \<Rightarrow> Inl (Exn (UserError ''OrchestrationFailedError'')
       (''Orchestration '' @ CHR 39 # ws_instance_id s @ CHR 39 # '' failed: '' @ errorMessage d) (Some d)))"

text \<open>\<open>WorkflowState.runtime_status\<close>.\<close>

datatype workflow_status =
    WF_UNKNOWN | WF_RUNNING | WF_COMPLETED | WF_FAILED | WF_TERMINATED | WF_PENDING | WF_SUSPENDED | WF_STALLED

definition runtime_status :: "workflow_state \<Rightarrow> workflow_status" where
  "runtime_status s = (case ws_status s of
     RUNNING \<Rightarrow> WF_RUNNING | COMPLETED \<Rightarrow> WF_COMPLETED | FAILED \<Rightarrow> WF_FAILED | TERMINATED \<Rightarrow> WF_TERMINATED
   | PENDING \<Rightarrow> WF_PENDING | SUSPENDED \<Rightarrow> WF_SUSPENDED | STALLED \<Rightarrow> WF_STALLED | _ \<Rightarrow> WF_UNKNOWN)"

section \<open>Waiting\<close>

definition TRANSIENT_RPC_CODES :: "grpc_code list" where
  "TRANSIENT_RPC_CODES = [FAILED_PRECONDITION, UNAVAILABLE]"

definition MAX_TRANSIENT_RETRY_SECONDS :: rat where
  "MAX_TRANSIENT_RETRY_SECONDS = 30"

definition is_deadline_cancellation :: "grpc_code \<Rightarrow> rat option \<Rightarrow> rat \<Rightarrow> bool" where
  "is_deadline_cancellation code deadline clock =
    (case deadline of None \<Rightarrow> False | Some d \<Rightarrow> code = CANCELLED \<and> d \<le> clock)"

text \<open>
  A round of the loop: what the call gives, and three readings of the clock: in the check of the deadline,
  after it, and after the sleep.
\<close>

record 'o wait_round =
  wr_outcome :: 'o
  wr_checked :: rat
  wr_now :: rat
  wr_woke :: rat

datatype 'a rpc_result = CallReturns 'a | CallFails grpc_code | CallRaises exn

datatype 'a wait_end = Waited 'a | WaitFailed grpc_code | WaitRaised exn | TimedOut

definition min_opt :: "rat \<Rightarrow> rat option \<Rightarrow> rat" where
  "min_opt x y = (case y of None \<Rightarrow> x | Some z \<Rightarrow> min x z)"

text \<open>
  The loop, with its variables \<open>deadline\<close>, \<open>transient_deadline\<close>, \<open>backoff\<close> and \<open>grpc_timeout\<close>. It gives the
  time limit of each call with the sleep after it, and how it ends; without rounds left the last call is on.
\<close>

type_synonym wait_log = "(rat option \<times> rat option) list"

fun wait_loop :: "('o \<Rightarrow> 'a rpc_result) \<Rightarrow> rat option \<Rightarrow> rat option \<Rightarrow> rat \<Rightarrow> rat option \<Rightarrow> 'o wait_round list \<Rightarrow>
    wait_log \<times> 'a wait_end option" where
  "wait_loop call_fn dl td backoff g [] = ([(g, None)], None)"
| "wait_loop call_fn dl td backoff g (r # rs) =
    (case call_fn (wr_outcome r) of
       CallReturns v \<Rightarrow> ([(g, None)], Some (Waited v))
     | CallRaises e \<Rightarrow> ([(g, None)], Some (WaitRaised e))
     | CallFails code \<Rightarrow>
        if code = DEADLINE_EXCEEDED \<or> is_deadline_cancellation code dl (wr_checked r) then ([(g, None)], Some TimedOut)
        else if code \<notin> set TRANSIENT_RPC_CODES then ([(g, None)], Some (WaitFailed code))
        else if dl = None \<and> (\<exists>t. td = Some t \<and> t \<le> wr_now r) then ([(g, None)], Some (WaitFailed code))
        else
          let td' = (if dl = None \<and> td = None then Some (wr_now r + MAX_TRANSIENT_RETRY_SECONDS) else td);
              remaining = map_option (\<lambda>d. d - wr_now r) dl
          in if (\<exists>m. remaining = Some m \<and> m \<le> 0) then ([(g, None)], Some TimedOut)
             else
               let sleep_for = min_opt (min_opt (min backoff 5) remaining) (map_option (\<lambda>t. t - wr_now r) td');
                   g' = map_option (\<lambda>d. d - wr_woke r) dl
               in if (\<exists>m. g' = Some m \<and> m \<le> 0) then ([(g, Some sleep_for)], Some TimedOut)
                  else case wait_loop call_fn dl td' (min (backoff * 2) 5) g' rs of
                    (calls, en) \<Rightarrow> ((g, Some sleep_for) # calls, en))"

definition unbounded :: "rat option \<Rightarrow> bool" where
  "unbounded timeout \<longleftrightarrow> timeout = None \<or> timeout = Some 0"

definition call_with_transient_retry ::
  "rat \<Rightarrow> rat option \<Rightarrow> ('o \<Rightarrow> 'a rpc_result) \<Rightarrow> 'o wait_round list \<Rightarrow> wait_log \<times> 'a wait_end option" where
  "call_with_transient_retry clock timeout call_fn rs =
    (let limit = (if unbounded timeout then None else timeout)
     in wait_loop call_fn (map_option (\<lambda>t. clock + t) limit) None (1 / 2) limit rs)"

text \<open>The two waits make the same use of it; the log messages of the second are left out.\<close>

datatype stub_outcome = StubReturns instance_response | StubFails grpc_code

definition instance_call :: "string \<Rightarrow> stub_outcome \<Rightarrow> workflow_state option rpc_result" where
  "instance_call i out = (case out of
     StubFails c \<Rightarrow> CallFails c
   | StubReturns res \<Rightarrow>
       (case new_orchestration_state i res of Inl e \<Rightarrow> CallRaises e | Inr st \<Rightarrow> CallReturns st))"

datatype client_error = RpcError grpc_code string | ClientError exn

definition ended_wait :: "string \<Rightarrow> 'a wait_end \<Rightarrow> client_error + 'a" where
  "ended_wait what en = (case en of
     Waited v \<Rightarrow> Inr v
   | WaitFailed c \<Rightarrow> Inl (RpcError c [])
   | WaitRaised e \<Rightarrow> Inl (ClientError e)
   | TimedOut \<Rightarrow> Inl (ClientError (exc TimeoutError (''Timed-out waiting for the orchestration to '' @ what))))"

definition wait_for_orchestration_start ::
  "string \<Rightarrow> rat \<Rightarrow> rat option \<Rightarrow> stub_outcome wait_round list \<Rightarrow> (client_error + workflow_state option) option" where
  "wait_for_orchestration_start i clock timeout rs =
    map_option (ended_wait ''start'') (snd (call_with_transient_retry clock timeout (instance_call i) rs))"

definition wait_for_orchestration_completion ::
  "string \<Rightarrow> rat \<Rightarrow> rat option \<Rightarrow> stub_outcome wait_round list \<Rightarrow> (client_error + workflow_state option) option" where
  "wait_for_orchestration_completion i clock timeout rs =
    map_option (ended_wait ''complete'') (snd (call_with_transient_retry clock timeout (instance_call i) rs))"

text \<open>The waits of the workflow client. The limit is a number of seconds, and 0 is none.\<close>

definition wait_for_workflow_start ::
  "string \<Rightarrow> rat \<Rightarrow> nat \<Rightarrow> stub_outcome wait_round list \<Rightarrow> (client_error + workflow_state option) option" where
  "wait_for_workflow_start i clock limit rs = wait_for_orchestration_start i clock (Some (of_nat limit)) rs"

definition wait_for_workflow_completion ::
  "string \<Rightarrow> rat \<Rightarrow> nat \<Rightarrow> stub_outcome wait_round list \<Rightarrow> (client_error + workflow_state option) option" where
  "wait_for_workflow_completion i clock limit rs = wait_for_orchestration_completion i clock (Some (of_nat limit)) rs"

text \<open>\<open>get_workflow_state\<close>: an instance that does not exist is an error whose details say so.\<close>

definition get_workflow_state ::
  "string \<Rightarrow> (grpc_code \<times> string) + instance_response \<Rightarrow> client_error + workflow_state option" where
  "get_workflow_state i out = (case out of
     Inr res \<Rightarrow> (case new_orchestration_state i res of Inl e \<Rightarrow> Inl (ClientError e) | Inr st \<Rightarrow> Inr st)
   | Inl (code, details) \<Rightarrow>
      if sublist ''no such instance exists'' details then Inr None else Inl (RpcError code details))"

section \<open>Properties of the wait\<close>

text \<open>The clock goes on: a sleep lasts at least as long as it should, and no reading is before an earlier one.\<close>

fun clock_runs :: "wait_log \<Rightarrow> 'o wait_round list \<Rightarrow> bool" where
  "clock_runs ((g, Some s) # calls) (r # rs) =
    (wr_now r + s \<le> wr_woke r \<and> (rs \<noteq> [] \<longrightarrow> wr_woke r \<le> wr_now (hd rs)) \<and> clock_runs calls rs)"
| "clock_runs calls rs = True"

definition fails_with :: "('o \<Rightarrow> 'a rpc_result) \<Rightarrow> grpc_code list \<Rightarrow> 'o wait_round \<Rightarrow> bool" where
  "fails_with call_fn cs r = (\<exists>c \<in> set cs. call_fn (wr_outcome r) = CallFails c)"

text \<open>What the first \<open>n\<close> sleeps add up to when none is cut short.\<close>

fun slept :: "rat \<Rightarrow> nat \<Rightarrow> rat" where
  "slept b 0 = 0"
| "slept b (Suc n) = min b 5 + slept (min (b * 2) 5) n"

text \<open>The instant that ends the retries: the deadline, or the one of the transient errors.\<close>

definition retry_limit :: "rat option \<Rightarrow> rat option \<Rightarrow> rat \<Rightarrow> rat" where
  "retry_limit dl td now = (case dl of Some d \<Rightarrow> d | None \<Rightarrow>
     (case td of Some t \<Rightarrow> t | None \<Rightarrow> now + MAX_TRANSIENT_RETRY_SECONDS))"

lemma transient_codes:
  "c \<in> set TRANSIENT_RPC_CODES \<Longrightarrow> c \<noteq> DEADLINE_EXCEEDED \<and> \<not> is_deadline_cancellation c dl t"
  by (auto simp: TRANSIENT_RPC_CODES_def is_deadline_cancellation_def split: option.splits)

lemma failing_round:
  assumes "fails_with call_fn TRANSIENT_RPC_CODES r" and "dl = None \<or> td = None"
  defines "stop_at \<equiv> retry_limit dl td (wr_now r)"
  shows "(\<exists>calls en. wait_loop call_fn dl td b g (r # rs) = (calls, Some en) \<and> (stop_at \<le> wr_now r \<or> stop_at \<le> wr_woke r)) \<or>
    (wr_now r < stop_at \<and> (\<exists>td' g'. (dl = None \<or> td' = None) \<and> (\<forall>t. retry_limit dl td' t = stop_at) \<and>
      wait_loop call_fn dl td b g (r # rs) =
        map_prod (Cons (g, Some (min (min b 5) (stop_at - wr_now r)))) id (wait_loop call_fn dl td' (min (b * 2) 5) g' rs)))"
proof -
  from assms(1) obtain c where c: "c \<in> set TRANSIENT_RPC_CODES" "call_fn (wr_outcome r) = CallFails c"
    by (auto simp: fails_with_def)
  note simps = c transient_codes [OF c(1)] retry_limit_def stop_at_def min_opt_def Let_def MAX_TRANSIENT_RETRY_SECONDS_def
  show ?thesis
  proof (cases dl)
    case (Some d)
    with assms(2) have "td = None" by simp
    with Some show ?thesis
      by (cases "d \<le> wr_now r"; cases "d \<le> wr_woke r")
        (auto simp: simps map_prod_def split: prod.splits intro!: exI [of _ "Some (d - wr_woke r)"])
  next
    case None
    then show ?thesis
    proof (cases td)
      case (Some t)
      show ?thesis
      proof (cases "t \<le> wr_now r")
        case True
        with None Some show ?thesis by (auto simp: simps)
      next
        case False
        then have "wait_loop call_fn dl td b g (r # rs) = map_prod (Cons (g, Some (min (min b 5) (stop_at - wr_now r)))) id
            (wait_loop call_fn dl td (min (b * 2) 5) None rs)"
          using None Some by (simp add: simps map_prod_def split: prod.splits)
        moreover have "\<forall>u. retry_limit dl td u = stop_at" "wr_now r < stop_at"
          using None Some False by (simp_all add: simps)
        ultimately show ?thesis using None by blast
      qed
    next
      case td: None
      have "retry_limit dl (Some (wr_now r + 30)) t = stop_at" for t using None td by (simp add: simps)
      moreover have "wait_loop call_fn dl td b g (r # rs) = map_prod (Cons (g, Some (min (min b 5) (stop_at - wr_now r)))) id
          (wait_loop call_fn dl (Some (wr_now r + 30)) (min (b * 2) 5) None rs)"
        using None td by (simp add: simps map_prod_def split: prod.splits)
      moreover have "wr_now r < stop_at" using None td by (simp add: simps)
      ultimately show ?thesis using None by blast
    qed
  qed
qed

lemma slept_nonneg: "0 \<le> b \<Longrightarrow> 0 \<le> slept b n"
  by (induction n arbitrary: b) auto

lemma retries_end:
  assumes "\<forall>r \<in> set rs. fails_with call_fn TRANSIENT_RPC_CODES r" and "dl = None \<or> td = None" and "0 \<le> b"
    and "clock_runs (fst (wait_loop call_fn dl td b g rs)) rs" and "n < length rs"
    and "retry_limit dl td (wr_now (hd rs)) - wr_now (hd rs) \<le> slept b n"
  shows "snd (wait_loop call_fn dl td b g rs) \<noteq> None"
  using assms
proof (induction n arbitrary: rs td b g)
  case 0
  then obtain r rs' where rs: "rs = r # rs'" by (cases rs) auto
  with 0 have "fails_with call_fn TRANSIENT_RPC_CODES r" "\<not> wr_now r < retry_limit dl td (wr_now r)" by auto
  with 0 failing_round [of call_fn r dl td b g rs'] rs show ?case by (metis option.distinct(1) snd_conv)
next
  case (Suc n)
  then obtain r r' rs' where rs: "rs = r # r' # rs'" by (cases rs; cases "tl rs") auto
  let ?stop = "retry_limit dl td (wr_now r)" and ?s = "min (min b 5) (retry_limit dl td (wr_now r) - wr_now r)"
  from Suc.prems(1) rs have "fails_with call_fn TRANSIENT_RPC_CODES r" by simp
  with Suc.prems(2) failing_round [of call_fn r dl td b g "r' # rs'"] consider
      (ends) "snd (wait_loop call_fn dl td b g rs) \<noteq> None"
    | (goes_on) td' g' where "wr_now r < ?stop" "dl = None \<or> td' = None" "\<forall>t. retry_limit dl td' t = ?stop"
        "wait_loop call_fn dl td b g rs = map_prod (Cons (g, Some ?s)) id (wait_loop call_fn dl td' (min (b * 2) 5) g' (r' # rs'))"
    unfolding rs by (metis option.distinct(1) snd_conv)
  then show ?case
  proof cases
    case goes_on
    from Suc.prems(4) rs goes_on(4) have clock: "wr_now r + ?s \<le> wr_now r'"
      "clock_runs (fst (wait_loop call_fn dl td' (min (b * 2) 5) g' (r' # rs'))) (r' # rs')" by auto
    have "?stop - wr_now r \<le> min b 5 + slept (min (b * 2) 5) n" using Suc.prems(6) rs by simp
    with clock(1) goes_on(1,3) Suc.prems(3) slept_nonneg [of "min (b * 2) 5" n]
    have "retry_limit dl td' (wr_now r') - wr_now r' \<le> slept (min (b * 2) 5) n"
      by (auto simp: min_def split: if_splits)
    with Suc.IH [of "r' # rs'" td' "min (b * 2) 5" g'] Suc.prems(1,3,5) goes_on(2) clock(2) rs
    have "snd (wait_loop call_fn dl td' (min (b * 2) 5) g' (r' # rs')) \<noteq> None" by simp
    with goes_on(4) show ?thesis by simp
  qed
qed

text \<open>
  What a bounded wait promises of its calls: one that starts at the reading \<open>t\<close> may take until the deadline, a
  sleep is positive, takes five seconds at most and ends by the deadline, and after it time is left.
\<close>

primrec keeps_deadline :: "rat \<Rightarrow> rat \<Rightarrow> wait_log \<Rightarrow> 'o wait_round list \<Rightarrow> bool" where
  "keeps_deadline d t [] rs = True"
| "keeps_deadline d t (c # calls) rs =
    (fst c = Some (d - t) \<and> (\<forall>s. snd c = Some s \<longrightarrow> 0 < s \<and> s \<le> 5 \<and> wr_now (hd rs) + s \<le> d) \<and>
     (calls \<noteq> [] \<longrightarrow> wr_woke (hd rs) < d) \<and> keeps_deadline d (wr_woke (hd rs)) calls (tl rs))"

lemma bounded_loop:
  assumes "0 < b" and "wait_loop call_fn (Some d) None b (Some (d - t)) rs = (calls, en)"
  shows "keeps_deadline d t calls rs \<and> (\<forall>c \<in> set TRANSIENT_RPC_CODES. en \<noteq> Some (WaitFailed c))"
  using assms
proof (induction rs arbitrary: b t calls en)
  case (Cons r rs)
  obtain calls' en' where rest: "wait_loop call_fn (Some d) None (min (b * 2) 5) (Some (d - wr_woke r)) rs = (calls', en')"
    by fastforce
  with Cons.IH [of "min (b * 2) 5" "wr_woke r"] Cons.prems(1)
  have "keeps_deadline d (wr_woke r) calls' rs \<and> (\<forall>c \<in> set TRANSIENT_RPC_CODES. en' \<noteq> Some (WaitFailed c))" by simp
  with Cons.prems rest show ?case
    by (auto simp: Let_def min_opt_def split: rpc_result.splits if_splits)
qed auto

lemma unbounded_loop:
  assumes "wait_loop call_fn None td b None rs = (calls, en)"
  shows "(\<forall>c \<in> set calls. fst c = None) \<and>
    (\<forall>c \<in> set TRANSIENT_RPC_CODES. en = Some (WaitFailed c) \<longrightarrow> calls \<noteq> [] \<and> length calls \<le> length rs \<and>
       (if td = None then 1 < length calls else True) \<and>
       retry_limit None td (wr_now (hd rs)) \<le> wr_now (rs ! (length calls - 1)))"
  using assms
proof (induction rs arbitrary: b td calls en)
  case (Cons r rs)
  let ?td = "case td of None \<Rightarrow> Some (wr_now r + MAX_TRANSIENT_RETRY_SECONDS) | Some t \<Rightarrow> Some t"
  obtain calls' en' where rest: "wait_loop call_fn None ?td (min (b * 2) 5) None rs = (calls', en')" by fastforce
  from Cons.IH [OF this] Cons.prems rest show ?case
    by (auto simp: Let_def retry_limit_def nth_Cons' Suc_le_eq split: rpc_result.splits if_splits option.splits)
qed auto

lemma failing_end:
  assumes "\<forall>r \<in> set rs. fails_with call_fn TRANSIENT_RPC_CODES r" and "wait_loop call_fn dl td b g rs = (calls, en)"
  shows "en = None \<or> (if dl = None then \<exists>c \<in> set TRANSIENT_RPC_CODES. en = Some (WaitFailed c) else en = Some TimedOut)"
  using assms
proof (induction rs arbitrary: td b g calls en)
  case (Cons r rs)
  then obtain c where c: "c \<in> set TRANSIENT_RPC_CODES" "call_fn (wr_outcome r) = CallFails c"
    by (auto simp: fails_with_def)
  with transient_codes [OF c(1)] Cons show ?case
    by (fastforce simp: Let_def split: if_splits prod.splits)
qed auto

text \<open>
  C27. A wait ends even if the sidecar never answers: when every call fails with a transient error, an unbounded
  wait makes at most ten calls and then raises the error, and a bounded one makes at most one call more than it
  takes sleeps of the exponential backoff to fill the timeout, and then times out. All that is assumed of the clock is
  that it goes on.
\<close>

theorem wait_ends:
  assumes "call_with_transient_retry clock timeout call_fn rs = (calls, en)"
    and "\<forall>r \<in> set rs. fails_with call_fn TRANSIENT_RPC_CODES r"
    and "clock_runs calls rs" and "n < length rs" and "clock \<le> wr_now (hd rs)"
    and "if unbounded timeout then 9 \<le> n else the timeout \<le> slept (1 / 2) n"
  shows "if unbounded timeout then \<exists>c \<in> set TRANSIENT_RPC_CODES. en = Some (WaitFailed c) else en = Some TimedOut"
proof -
  let ?limit = "if unbounded timeout then None else timeout"
  let ?dl = "map_option (\<lambda>t. clock + t) ?limit"
  have loop: "wait_loop call_fn ?dl None (1 / 2) ?limit rs = (calls, en)"
    using assms(1) by (simp add: call_with_transient_retry_def Let_def)
  let ?n = "if unbounded timeout then 9 else n"
  have "retry_limit ?dl None (wr_now (hd rs)) - wr_now (hd rs) \<le> slept (1 / 2) ?n"
    using assms(5,6) by (auto simp: retry_limit_def MAX_TRANSIENT_RETRY_SECONDS_def unbounded_def numeral_eq_Suc split: option.splits)
  moreover have "?n < length rs" using assms(4,6) by (auto split: if_splits)
  ultimately have "en \<noteq> None"
    using retries_end [of rs call_fn ?dl None "1 / 2" ?limit ?n] assms(2,3) loop by simp
  with failing_end [OF assms(2) loop] show ?thesis by (auto simp: unbounded_def split: if_splits)
qed

definition demo_outage :: "rat \<Rightarrow> stub_outcome wait_round" where
  "demo_outage t = \<lparr>wr_outcome = StubFails UNAVAILABLE, wr_checked = t, wr_now = t, wr_woke = t + 5\<rparr>"

theorem wait_ends_witness:
  "snd (call_with_transient_retry 0 (Some 2) (instance_call ''a'') (map demo_outage [0, 5, 10, 15])) = Some TimedOut"
proof -
  have "fst (call_with_transient_retry 0 (Some 2) (instance_call ''a'') (map demo_outage [0, 5, 10, 15])) = [(Some 2, Some (1 / 2))]"
    by (simp add: call_with_transient_retry_def unbounded_def Let_def demo_outage_def instance_call_def min_opt_def
        TRANSIENT_RPC_CODES_def is_deadline_cancellation_def)
  then show ?thesis
    using wait_ends [of 0 "Some 2" "instance_call ''a''" "map demo_outage [0, 5, 10, 15]" _ _ 3, OF surjective_pairing]
    by (simp add: fails_with_def demo_outage_def instance_call_def unbounded_def numeral_eq_Suc TRANSIENT_RPC_CODES_def)
qed

text \<open>
  A wait keeps to its limits. A bounded one starts no call and no sleep that could go past the deadline: each call
  has what is left until the deadline for its time limit, and each sleep ends by it. It never raises a transient error.
  An unbounded one sets no limit to its calls, and raises a transient error only thirty seconds or more after the
  first failure, and never the first.
\<close>

theorem wait_keeps_limits:
  assumes "call_with_transient_retry clock timeout call_fn rs = (calls, en)"
  shows "if unbounded timeout
    then (\<forall>c \<in> set calls. fst c = None) \<and>
      (\<forall>c \<in> set TRANSIENT_RPC_CODES. en = Some (WaitFailed c) \<longrightarrow> 1 < length calls \<and>
         wr_now (hd rs) + 30 \<le> wr_now (rs ! (length calls - 1)))
    else keeps_deadline (clock + the timeout) clock calls rs \<and> (\<forall>c \<in> set TRANSIENT_RPC_CODES. en \<noteq> Some (WaitFailed c))"
proof (cases "unbounded timeout")
  case True
  with assms have "wait_loop call_fn None None (1 / 2) None rs = (calls, en)"
    by (simp add: call_with_transient_retry_def)
  from unbounded_loop [OF this] True show ?thesis
    by (simp add: retry_limit_def MAX_TRANSIENT_RETRY_SECONDS_def)
next
  case False
  then obtain T where T: "timeout = Some T" by (cases timeout) (auto simp: unbounded_def)
  with False assms have "wait_loop call_fn (Some (clock + T)) None (1 / 2) (Some (clock + T - clock)) rs = (calls, en)"
    by (simp add: call_with_transient_retry_def)
  from bounded_loop [OF _ this] False T show ?thesis by simp
qed

theorem wait_keeps_limits_witness:
  "let w = call_with_transient_retry 0 None (instance_call ''a'') (map demo_outage [0, 5, 3600])
   in snd w = Some (WaitFailed UNAVAILABLE) \<and> length (fst w) = 3 \<and> (\<forall>c \<in> set (fst w). fst c = None)"
proof -
  have "snd (call_with_transient_retry 0 None (instance_call ''a'') (map demo_outage [0, 5, 3600])) = Some (WaitFailed UNAVAILABLE)"
    "length (fst (call_with_transient_retry 0 None (instance_call ''a'') (map demo_outage [0, 5, 3600]))) = 3"
    by (simp_all add: call_with_transient_retry_def unbounded_def Let_def demo_outage_def instance_call_def min_opt_def
        TRANSIENT_RPC_CODES_def is_deadline_cancellation_def MAX_TRANSIENT_RETRY_SECONDS_def)
  with wait_keeps_limits [of 0 None "instance_call ''a''" "map demo_outage [0, 5, 3600]", OF surjective_pairing] show ?thesis
    by (simp add: unbounded_def Let_def)
qed

text \<open>A second outage after an hour of healthy waiting is not retried: the window starts at the first failure.\<close>

lemma later_outage_raises:
  "snd (call_with_transient_retry 0 None (instance_call i)
     [demo_outage 1, (demo_outage 3600) \<lparr>wr_outcome := StubFails UNAVAILABLE\<rparr>]) = Some (WaitFailed UNAVAILABLE)"
  by (simp add: call_with_transient_retry_def unbounded_def Let_def demo_outage_def instance_call_def min_opt_def
      TRANSIENT_RPC_CODES_def is_deadline_cancellation_def MAX_TRANSIENT_RETRY_SECONDS_def)

section \<open>Payloads\<close>

lemma payload_arrives:
  assumes "json_rt v"
  shows "\<exists>p. payload_if b v = Inr p \<and> decode_payload p = Inr (if b then v else PNone)"
proof -
  have "to_json v = Inr (json_text v)" "json_text v \<noteq> []" "from_json (json_text v) = Inr v"
    using json_rt_serializable [OF assms] json_text_nonempty reads_back_decode [OF json_rt_reads_back [OF assms]]
    by (simp_all add: to_json_def from_json_def)
  then show ?thesis by (simp add: payload_if_def decode_payload_def is_empty_def sv_value_def)
qed

text \<open>
  C28. What a client sends is what the workflow gets. The input of a workflow arrives whatever it is, under the name
  the workflow is registered with; the data of an event and the output of a termination arrive if they are true for
  Python, and otherwise None arrives: zero, false, the empty string and empty collections are lost.
\<close>

theorem client_payloads_arrive:
  assumes "json_rt v"
  shows "(\<exists>q. schedule_new_workflow fresh w v i t = Inr q \<and> cr_name q = workflow_name w \<and> decode_payload (cr_input q) = Inr v) \<and>
    (\<exists>q. raise_orchestration_event j name v = Inr q \<and> decode_payload (re_input q) = Inr (if truthy v then v else PNone)) \<and>
    (\<exists>q. terminate_orchestration j v rec = Inr q \<and> decode_payload (tm_output q) = Inr (if truthy v then v else PNone))"
proof (intro conjI)
  from payload_arrives [OF assms, of "v \<noteq> PNone"] obtain p
    where p: "payload_if (v \<noteq> PNone) v = Inr p" "decode_payload p = Inr (if v \<noteq> PNone then v else PNone)" by blast
  then show "\<exists>q. schedule_new_workflow fresh w v i t = Inr q \<and> cr_name q = workflow_name w \<and> decode_payload (cr_input q) = Inr v"
    by (auto simp: schedule_new_workflow_def schedule_new_orchestration_def split: if_splits)
  from payload_arrives [OF assms, of "truthy v"] obtain p'
    where "payload_if (truthy v) v = Inr p'" "decode_payload p' = Inr (if truthy v then v else PNone)" by blast
  then show "\<exists>q. raise_orchestration_event j name v = Inr q \<and> decode_payload (re_input q) = Inr (if truthy v then v else PNone)"
    and "\<exists>q. terminate_orchestration j v rec = Inr q \<and> decode_payload (tm_output q) = Inr (if truthy v then v else PNone)"
    by (simp_all add: raise_orchestration_event_def terminate_orchestration_def)
qed

theorem client_payloads_arrive_witness:
  "\<exists>q. raise_orchestration_event ''i'' ''go'' (PInt 0) = Inr q \<and> decode_payload (re_input q) = Inr PNone"
  using client_payloads_arrive [of "PInt 0" _ _ _ _ "''i''" "''go''"] by simp

text \<open>
  The state a client reads is the one the sidecar keeps, for every status it can name; a status it cannot name is
  a ValueError, and an instance that does not exist is None, as a response or as an error that says so. Two
  statuses are reported as unknown.
\<close>

lemma state_is_read:
  assumes "ir_exists res" and "ir_status res = int k"
  shows "k < 9 \<Longrightarrow> \<exists>st. get_workflow_state i (Inr res) = Inr (Some st) \<and> ws_instance_id st = i \<and> ws_name st = ir_name res \<and>
      ws_status st = statuses ! k \<and> (runtime_status st = WF_UNKNOWN \<longleftrightarrow> ws_status st \<in> {CONTINUED_AS_NEW, CANCELED}) \<and>
      sv_value (ws_input st) = ir_input res \<and> sv_value (ws_output st) = ir_output res \<and>
      (raise_if_failed st = Inr () \<longleftrightarrow> ir_error_type res = [] \<and> ir_error_message res = [])"
    and "9 \<le> k \<Longrightarrow> \<exists>m. get_workflow_state i (Inr res) = Inl (ClientError (exc ValueError m))"
    and "get_workflow_state i (Inr (res\<lparr>ir_exists := False\<rparr>)) = Inr None"
  using assms
  by (auto simp: get_workflow_state_def new_orchestration_state_def status_of_value_def statuses_def value_or_none_def
      sv_value_def raise_if_failed_def runtime_status_def split: status.splits)

end
