(* ===== verification/WorkflowRuntime.thy ===== *)
theory WorkflowRuntime
  imports Registry Context WorkflowClient
begin

text \<open>
  The workflow runtime that applications use: registration and the decorators of \<open>workflow_runtime.py\<close>, the input
  models of \<open>_model_protocol.py\<close>, and \<open>DaprWorkflowContext\<close>. Function objects are mutable and shared, so they live in a
  store; their attributes \<open>_dapr_alternate_name\<close>, \<open>_workflow_registered\<close> and \<open>_activity_registered\<close> are fields.
  Logging is left out.
\<close>

section \<open>Functions and their signatures\<close>

text \<open>
  An annotation; one written as text carries what \<open>get_type_hints\<close> makes of it, nothing when that raises. Classes have
  names.
\<close>

datatype annotation =
    AnnNoneType
  | AnnClass string
  | AnnUnion "annotation list"
  | AnnText "annotation option"
  | AnnOther

text \<open>
  What a function does: the code of the application, another function called with the same arguments, or another
  function given back, whatever the arguments.
\<close>

datatype fn_body = UserCode nat | PassTo fn_body | GiveBack fn_body

text \<open>The signature lists the annotations of the parameters; it may be impossible to inspect.\<close>

record fn_object =
  fo_name :: string
  fo_alternate :: "string option"
  fo_workflow_registered :: bool
  fo_activity_registered :: bool
  fo_signature :: "annotation option list option"
  fo_body :: fn_body

definition new_function :: "string \<Rightarrow> annotation option list option \<Rightarrow> nat \<Rightarrow> fn_object" where
  "new_function n sig k = \<lparr>fo_name = n, fo_alternate = None, fo_workflow_registered = False, fo_activity_registered = False,
     fo_signature = sig, fo_body = UserCode k\<rparr>"

section \<open>Input models\<close>

text \<open>What a class of the application does as a model: \<open>'m\<close> are its instances.\<close>

record 'm model_protocol =
  mp_is_model_class :: "string \<Rightarrow> bool"
  mp_class :: "'m \<Rightarrow> string"
  mp_isinstance :: "'m \<Rightarrow> string \<Rightarrow> bool"
  mp_validate :: "string \<Rightarrow> (string, pyval) dict \<Rightarrow> 'm res"
  mp_supports_mode :: "'m \<Rightarrow> bool"
  mp_dump_json :: "'m \<Rightarrow> pyval"
  mp_dump :: "'m \<Rightarrow> pyval"

definition dump_model :: "'m model_protocol \<Rightarrow> 'm \<Rightarrow> pyval res" where
  "dump_model mp m =
    (if \<not> mp_is_model_class mp (mp_class mp m) then
       Inl (exc TypeError (''Expected a model-like object with model_dump/model_validate, got '' @ mp_class mp m))
     else Inr (if mp_supports_mode mp m then mp_dump_json mp m else mp_dump mp m))"

definition unwrap_optional :: "annotation \<Rightarrow> annotation" where
  "unwrap_optional a = (case a of
     AnnUnion as \<Rightarrow> (case filter (\<lambda>x. x \<noteq> AnnNoneType) as of [x] \<Rightarrow> x | _ \<Rightarrow> a)
   | _ \<Rightarrow> a)"

definition resolve_input :: "'m model_protocol \<Rightarrow> annotation option list option \<Rightarrow> bool \<times> string option" where
  "resolve_input mp sig = (case sig of
     None \<Rightarrow> (False, None)
   | Some ps \<Rightarrow>
      if length ps < 2 then (False, None)
      else (case ps ! 1 of
        None \<Rightarrow> (True, None)
      | Some a \<Rightarrow>
         (case (case a of AnnText h \<Rightarrow> h | _ \<Rightarrow> Some a) of
            None \<Rightarrow> (True, None)
          | Some a' \<Rightarrow> (True, case unwrap_optional a' of
              AnnClass c \<Rightarrow> if mp_is_model_class mp c then Some c else None
            | _ \<Rightarrow> None))))"

text \<open>An input is a decoded payload or an instance of a model.\<close>

datatype 'm wf_input = Decoded pyval | Instance 'm

definition cannot_coerce :: "string \<Rightarrow> string \<Rightarrow> exn" where
  "cannot_coerce ty c = exc TypeError (''Cannot coerce value of type '' @ ty @ '' into '' @ c @
     ''; expected a dict, SimpleNamespace, or existing model instance.'')"

definition coerce_to_model :: "'m model_protocol \<Rightarrow> 'm wf_input \<Rightarrow> string \<Rightarrow> 'm res" where
  "coerce_to_model mp v c =
    (if \<not> mp_is_model_class mp c then
       Inl (exc TypeError (''<class '' @ py_repr c @ ''> is not a model class (no model_dump/model_validate)''))
     else case v of
       Instance m \<Rightarrow> if mp_isinstance mp m c then Inr m else Inl (cannot_coerce (mp_class mp m) c)
     | Decoded x \<Rightarrow> (case x of
         PNs d \<Rightarrow> mp_validate mp c d
       | PDict d \<Rightarrow> mp_validate mp c d
       | _ \<Rightarrow> Inl (cannot_coerce (type_name x) c)))"

definition coerce_input :: "'m model_protocol \<Rightarrow> 'm wf_input \<Rightarrow> string option \<Rightarrow> 'm wf_input res" where
  "coerce_input mp v model = (case model of
     None \<Rightarrow> Inr v
   | Some c \<Rightarrow>
      if v = Decoded PNone \<or> (case v of Instance m \<Rightarrow> mp_isinstance mp m c | Decoded x \<Rightarrow> False) then Inr v
      else map_sum id Instance (coerce_to_model mp v c))"

section \<open>Wrappers\<close>

text \<open>What is put in the registry: the function with what was found out about its input when it was registered.\<close>

record wrapper =
  wr_fn :: nat
  wr_accepts_input :: bool
  wr_input_model :: "string option"

definition make_wrapper :: "'m model_protocol \<Rightarrow> fn_object list \<Rightarrow> nat \<Rightarrow> wrapper" where
  "make_wrapper mp fns f = (case resolve_input mp (fo_signature (fns ! f)) of
     (acc, model) \<Rightarrow> \<lparr>wr_fn = f, wr_accepts_input = acc, wr_input_model = model\<rparr>)"

text \<open>
  The wrapper called with a context and an input. \<open>code\<close> is the application's; a function that gives another one back
  takes no arguments.
\<close>

fun call_body :: "(nat \<Rightarrow> 'c \<Rightarrow> 'm wf_input option \<Rightarrow> 'a res) \<Rightarrow> fn_body \<Rightarrow> 'c \<Rightarrow> 'm wf_input option \<Rightarrow> 'a res" where
  "call_body code (UserCode k) c a = code k c a"
| "call_body code (PassTo b) c a = call_body code b c a"
| "call_body code (GiveBack b) c a = Inl (exc TypeError ''innerfn() takes 0 positional arguments'')"

definition wrapper_args :: "'m model_protocol \<Rightarrow> wrapper \<Rightarrow> 'm wf_input \<Rightarrow> 'm wf_input option res" where
  "wrapper_args mp w v = (if \<not> wr_accepts_input w then Inr None else map_sum id Some (coerce_input mp v (wr_input_model w)))"

definition call_wrapper ::
  "'m model_protocol \<Rightarrow> (nat \<Rightarrow> 'c \<Rightarrow> 'm wf_input option \<Rightarrow> 'a res) \<Rightarrow> fn_object list \<Rightarrow> wrapper \<Rightarrow> 'c \<Rightarrow> 'm wf_input \<Rightarrow> 'a res" where
  "call_wrapper mp code fns w c v = res_bind (wrapper_args mp w v) (\<lambda>a. call_body code (fo_body (fns ! wr_fn w)) c a)"

section \<open>Registration\<close>

text \<open>The functions of the program and the registry of the worker of one runtime.\<close>

record world =
  w_fns :: "fn_object list"
  w_registry :: "(wrapper, wrapper) registry"

definition set_fn :: "nat \<Rightarrow> (fn_object \<Rightarrow> fn_object) \<Rightarrow> world \<Rightarrow> world" where
  "set_fn f g w = w\<lparr>w_fns := (w_fns w)[f := g (w_fns w ! f)]\<rparr>"

definition name_or :: "string option \<Rightarrow> string \<Rightarrow> string" where
  "name_or name n = (case name of Some m \<Rightarrow> if m = [] then n else m | None \<Rightarrow> n)"

text \<open>
  The checks that the three registrations share: a function is registered once for its kind, and a name of its own is
  not replaced. \<open>own\<close> is the name it gets when it has none.
\<close>

definition claim_name ::
  "string \<Rightarrow> (fn_object \<Rightarrow> bool) \<Rightarrow> nat \<Rightarrow> string option \<Rightarrow> string \<Rightarrow> world \<Rightarrow> unit res \<times> world" where
  "claim_name kind registered f name own w = (let fn = w_fns w ! f in
     if registered fn then (case fo_alternate fn of
         None \<Rightarrow> (Inl (exc KeyError ''_dapr_alternate_name''), w)
       | Some alt \<Rightarrow> (Inl (exc ValueError (kind @ '' '' @ fo_name fn @ '' already registered as '' @ alt)), w))
     else (case fo_alternate fn of
         Some alt \<Rightarrow> if name \<noteq> None
           then (Inl (exc ValueError (kind @ '' '' @ fo_name fn @ '' already has an alternate name '' @ alt)), w)
           else (Inr (), w)
       | None \<Rightarrow> (Inr (), set_fn f (\<lambda>fn. fn\<lparr>fo_alternate := Some own\<rparr>) w)))"

definition alternate_of :: "world \<Rightarrow> nat \<Rightarrow> string" where
  "alternate_of w f = (case fo_alternate (w_fns w ! f) of Some n \<Rightarrow> n | None \<Rightarrow> [])"

definition register_workflow :: "'m model_protocol \<Rightarrow> nat \<Rightarrow> string option \<Rightarrow> world \<Rightarrow> unit res \<times> world" where
  "register_workflow mp f name w =
    (case claim_name ''Workflow'' fo_workflow_registered f name (name_or name (fo_name (w_fns w ! f))) w of
       (Inl e, w1) \<Rightarrow> (Inl e, w1)
     | (Inr _, w1) \<Rightarrow>
        (case add_named_orchestrator (alternate_of w1 f) (make_wrapper mp (w_fns w) f) None False (w_registry w1) of
           (Inl e, r) \<Rightarrow> (Inl e, w1\<lparr>w_registry := r\<rparr>)
         | (Inr _, r) \<Rightarrow> (Inr (), set_fn f (\<lambda>fn. fn\<lparr>fo_workflow_registered := True\<rparr>) (w1\<lparr>w_registry := r\<rparr>))))"

definition register_versioned_workflow ::
  "'m model_protocol \<Rightarrow> nat \<Rightarrow> string \<Rightarrow> string option \<Rightarrow> bool \<Rightarrow> world \<Rightarrow> unit res \<times> world" where
  "register_versioned_workflow mp f name version latest w =
    (case claim_name ''Workflow'' fo_workflow_registered f (Some name) name w of
       (Inl e, w1) \<Rightarrow> (Inl e, w1)
     | (Inr _, w1) \<Rightarrow>
        (case add_named_orchestrator name (make_wrapper mp (w_fns w) f)
            (Some (case version of Some v \<Rightarrow> v | None \<Rightarrow> fo_name (w_fns w ! f))) latest (w_registry w1) of
           (Inl e, r) \<Rightarrow> (Inl e, w1\<lparr>w_registry := r\<rparr>)
         | (Inr _, r) \<Rightarrow> (Inr (), set_fn f (\<lambda>fn. fn\<lparr>fo_workflow_registered := True\<rparr>) (w1\<lparr>w_registry := r\<rparr>))))"

definition register_activity :: "'m model_protocol \<Rightarrow> nat \<Rightarrow> string option \<Rightarrow> world \<Rightarrow> unit res \<times> world" where
  "register_activity mp f name w =
    (case claim_name ''Activity'' fo_activity_registered f name (name_or name (fo_name (w_fns w ! f))) w of
       (Inl e, w1) \<Rightarrow> (Inl e, w1)
     | (Inr _, w1) \<Rightarrow>
        (case add_named_activity (alternate_of w1 f) (make_wrapper mp (w_fns w) f) (w_registry w1) of
           (Inl e, r) \<Rightarrow> (Inl e, w1\<lparr>w_registry := r\<rparr>)
         | (Inr _, r) \<Rightarrow> (Inr (), set_fn f (\<lambda>fn. fn\<lparr>fo_activity_registered := True\<rparr>) (w1\<lparr>w_registry := r\<rparr>))))"

text \<open>
  The decorators register their argument and give back a new function with a copy of its attributes, which gives the
  argument back; \<open>alternate_name\<close> gives a function that calls it.
\<close>

definition decorated :: "unit res \<times> world \<Rightarrow> nat \<Rightarrow> nat res \<times> world" where
  "decorated r f = (case r of
     (Inl e, w) \<Rightarrow> (Inl e, w)
   | (Inr _, w) \<Rightarrow>
      (let fn = w_fns w ! f in
       if fo_signature fn = None then (Inl (exc ValueError ''no signature found''), w)
       else (Inr (length (w_fns w)), w\<lparr>w_fns := w_fns w @ [fn\<lparr>fo_body := GiveBack (fo_body fn)\<rparr>]\<rparr>)))"

definition workflow :: "'m model_protocol \<Rightarrow> nat \<Rightarrow> string option \<Rightarrow> world \<Rightarrow> nat res \<times> world" where
  "workflow mp f name w = decorated (register_workflow mp f name w) f"

definition versioned_workflow ::
  "'m model_protocol \<Rightarrow> nat \<Rightarrow> string \<Rightarrow> string option \<Rightarrow> bool \<Rightarrow> world \<Rightarrow> nat res \<times> world" where
  "versioned_workflow mp f name version latest w = decorated (register_versioned_workflow mp f name version latest w) f"

definition activity :: "'m model_protocol \<Rightarrow> nat \<Rightarrow> string option \<Rightarrow> world \<Rightarrow> nat res \<times> world" where
  "activity mp f name w = decorated (register_activity mp f name w) f"

definition alternate_name :: "nat \<Rightarrow> string option \<Rightarrow> world \<Rightarrow> nat res \<times> world" where
  "alternate_name f name w = (let fn = w_fns w ! f in case fo_alternate fn of
     Some alt \<Rightarrow> (Inl (exc ValueError (''Function '' @ fo_name fn @ '' already has an alternate name '' @ alt)), w)
   | None \<Rightarrow>
      (let w1 = set_fn f (\<lambda>fn. fn\<lparr>fo_alternate := Some (name_or name (fo_name fn))\<rparr>) w; fn1 = w_fns w1 ! f in
       if fo_signature fn1 = None then (Inl (exc ValueError ''no signature found''), w1)
       else (Inr (length (w_fns w1)), w1\<lparr>w_fns := w_fns w1 @ [fn1\<lparr>fo_body := PassTo (fo_body fn1)\<rparr>]\<rparr>)))"

section \<open>The context\<close>

text \<open>A call of \<open>DaprWorkflowContext\<close>; workflows and activities are names or function objects.\<close>

datatype target = NamedTarget string | FunctionTarget nat

datatype dapr_call =
    CallSetCustomStatus pyval
  | CallCreateTimer fire_arg
  | CallActivity target pyval "retry_policy option" "string option" "int option"
  | CallChildWorkflow target pyval "string option" "retry_policy option" "string option" "int option"
  | CallWaitForExternalEvent string "fire_arg option"
  | CallContinueAsNew pyval bool
  | CallIsPatched string
  | CallInstanceId
  | CallCurrentUtcDatetime
  | CallIsReplaying

definition function_name :: "fn_object \<Rightarrow> string" where
  "function_name fn = (case fo_alternate fn of Some alt \<Rightarrow> alt | None \<Rightarrow> fo_name fn)"

definition activity_ref :: "fn_object list \<Rightarrow> target \<Rightarrow> fn_ref" where
  "activity_ref fns t = (case t of NamedTarget n \<Rightarrow> FnName n | FunctionTarget f \<Rightarrow> FnName (function_name (fns ! f)))"

definition child_ref :: "fn_object list \<Rightarrow> target \<Rightarrow> fn_ref" where
  "child_ref fns t = (case t of NamedTarget n \<Rightarrow> FnName n | FunctionTarget f \<Rightarrow> FnObj (function_name (fns ! f)))"

definition context_op :: "fn_object list \<Rightarrow> dapr_call \<Rightarrow> ctxop" where
  "context_op fns c = (case c of
     CallSetCustomStatus v \<Rightarrow> OpSetCustomStatus v
   | CallCreateTimer t \<Rightarrow> OpCreateTimer t
   | CallActivity t v rp app scope \<Rightarrow> OpCallActivity (activity_ref fns t) v rp app scope
   | CallChildWorkflow t v inst rp app scope \<Rightarrow> OpCallSubOrchestrator (child_ref fns t) v inst rp app scope
   | CallWaitForExternalEvent n timeout \<Rightarrow> OpWaitForExternalEvent n timeout
   | CallContinueAsNew v save \<Rightarrow> OpContinueAsNew v save
   | CallIsPatched p \<Rightarrow> OpIsPatched p
   | CallInstanceId \<Rightarrow> OpInstanceId
   | CallCurrentUtcDatetime \<Rightarrow> OpNow
   | CallIsReplaying \<Rightarrow> OpIsReplaying)"

definition run_dapr_call :: "(string \<Rightarrow> string) \<Rightarrow> fn_object list \<Rightarrow> dapr_call \<Rightarrow> (pyval, ctx) op" where
  "run_dapr_call u5 fns c = run_op u5 (context_op fns c)"

section \<open>Starting\<close>

text \<open>
  \<open>wait_for_worker_ready\<close>: \<open>ready k\<close> is the answer of the \<open>k\<close>-th poll. The time waited is a rational here.
\<close>

function wait_for_worker_ready :: "(nat \<Rightarrow> bool) \<Rightarrow> nat \<Rightarrow> rat \<Rightarrow> rat \<Rightarrow> bool" where
  "wait_for_worker_ready ready k elapsed timeout =
    (if elapsed < timeout then (if ready k then True else wait_for_worker_ready ready (Suc k) (elapsed + 1 / 10) timeout)
     else False)"
  by pat_completeness auto

termination
proof (relation "measure (\<lambda>(ready, k, elapsed, timeout). nat \<lceil>10 * (timeout - elapsed)\<rceil>)", goal_cases)
  case (2 ready k elapsed timeout)
  have "10 * (timeout - (elapsed + 1 / 10)) = 10 * (timeout - elapsed) - 1" by (simp add: algebra_simps)
  then have "\<lceil>10 * (timeout - (elapsed + 1 / 10))\<rceil> = \<lceil>10 * (timeout - elapsed)\<rceil> - 1" by (simp only: ceiling_diff_one)
  moreover have "0 < \<lceil>10 * (timeout - elapsed)\<rceil>" using 2(1) by simp
  ultimately show ?case by simp
qed simp

declare wait_for_worker_ready.simps [simp del]

text \<open>The start of the worker, which may raise, and the wait.\<close>

definition start_runtime :: "unit res \<Rightarrow> (nat \<Rightarrow> bool) \<Rightarrow> rat option \<Rightarrow> unit res" where
  "start_runtime started ready timeout = res_bind started (\<lambda>_.
     if wait_for_worker_ready ready 0 0 (case timeout of None \<Rightarrow> 30 | Some t \<Rightarrow> t) then Inr ()
     else Inl (exc RuntimeError ''WorkflowRuntime worker and its stream are not ready''))"

definition grpc_channel_options :: "int option \<Rightarrow> int \<Rightarrow> (string \<times> int) list option" where
  "grpc_channel_options given setting =
    (let n = (case given of Some x \<Rightarrow> if x = 0 then setting else x | None \<Rightarrow> setting) in
     if n = 0 then None else Some [(''grpc.max_send_message_length'', n), (''grpc.max_receive_message_length'', n)])"

end
