(* ===== verification/WorkflowRuntimeProps.thy ===== *)
theory WorkflowRuntimeProps
  imports WorkflowRuntime
begin

text \<open>
  What the workflow runtime promises: a function that was registered is the one that is called, and models survive as
  inputs.
\<close>

section \<open>Registered functions are found\<close>

text \<open>What a program does with one runtime: it defines functions, registers and decorates them, in any order.\<close>

datatype runtime_op =
    DefineFunction string "annotation option list option" nat
  | RegisterWorkflow nat "string option"
  | RegisterVersioned nat string "string option" bool
  | RegisterActivity nat "string option"
  | DecorateWorkflow nat "string option"
  | DecorateVersioned nat string "string option" bool
  | DecorateActivity nat "string option"
  | DecorateName nat "string option"

definition on_function :: "nat \<Rightarrow> ('a \<times> world) \<Rightarrow> world \<Rightarrow> world" where
  "on_function f r w = (if f < length (w_fns w) then snd r else w)"

definition run_runtime_op :: "'m model_protocol \<Rightarrow> runtime_op \<Rightarrow> world \<Rightarrow> world" where
  "run_runtime_op mp a w = (case a of
     DefineFunction n sig k \<Rightarrow> w\<lparr>w_fns := w_fns w @ [new_function n sig k]\<rparr>
   | RegisterWorkflow f name \<Rightarrow> on_function f (register_workflow mp f name w) w
   | RegisterVersioned f name v latest \<Rightarrow> on_function f (register_versioned_workflow mp f name v latest w) w
   | RegisterActivity f name \<Rightarrow> on_function f (register_activity mp f name w) w
   | DecorateWorkflow f name \<Rightarrow> on_function f (workflow mp f name w) w
   | DecorateVersioned f name v latest \<Rightarrow> on_function f (versioned_workflow mp f name v latest w) w
   | DecorateActivity f name \<Rightarrow> on_function f (activity mp f name w) w
   | DecorateName f name \<Rightarrow> on_function f (alternate_name f name w) w)"

definition run_runtime_ops :: "'m model_protocol \<Rightarrow> runtime_op list \<Rightarrow> world" where
  "run_runtime_ops mp as = foldl (\<lambda>w a. run_runtime_op mp a w) \<lparr>w_fns = [], w_registry = empty_registry\<rparr> as"

text \<open>The code at the bottom of a function that calls or gives back another one.\<close>

fun base_code :: "fn_body \<Rightarrow> nat" where
  "base_code (UserCode k) = k"
| "base_code (PassTo b) = base_code b"
| "base_code (GiveBack b) = base_code b"

definition same_code :: "fn_object list \<Rightarrow> nat \<Rightarrow> nat \<Rightarrow> bool" where
  "same_code fns f g \<longleftrightarrow> base_code (fo_body (fns ! f)) = base_code (fo_body (fns ! g))"

definition workflow_entry :: "('o, 'a) registry \<Rightarrow> string \<Rightarrow> 'o \<Rightarrow> bool" where
  "workflow_entry r n x \<longleftrightarrow> dict_get (orchestrators r) n = Some x \<or>
     (\<exists>vs v. dict_get (versioned_orchestrators r) n = Some vs \<and> dict_get vs v = Some x)"

definition activity_entry :: "('o, 'a) registry \<Rightarrow> string \<Rightarrow> 'a \<Rightarrow> bool" where
  "activity_entry r n x \<longleftrightarrow> get_activity r n = Some x"

text \<open>
  Each function that is marked as registered has an entry with its code under its name, and each entry is that of a
  marked function, under its name.
\<close>

definition agree :: "(fn_object \<Rightarrow> bool) \<Rightarrow> (string \<Rightarrow> wrapper \<Rightarrow> bool) \<Rightarrow> fn_object list \<Rightarrow> bool" where
  "agree flag E fns \<longleftrightarrow>
    (\<forall>f < length fns. flag (fns ! f) \<longrightarrow>
      (\<exists>n x. fo_alternate (fns ! f) = Some n \<and> E n x \<and> same_code fns (wr_fn x) f)) \<and>
    (\<forall>n x. E n x \<longrightarrow> wr_fn x < length fns \<and> fo_alternate (fns ! wr_fn x) = Some n \<and> flag (fns ! wr_fn x))"

lemma same_code_update:
  assumes "fo_body y = fo_body (fns ! f)"
  shows "same_code (fns[f := y]) g h = same_code fns g h"
proof -
  have "fo_body (fns[f := y] ! g) = fo_body (fns ! g)" for g
    using assms by (cases "f < length fns"; cases "g = f") (simp_all add: list_update_beyond)
  then show ?thesis by (simp add: same_code_def)
qed

lemma agree_update:
  assumes "agree flag E fns" and "f < length fns" and "flag y = flag (fns ! f)" and "fo_body y = fo_body (fns ! f)"
    and "fo_alternate (fns ! f) = None \<or> fo_alternate y = fo_alternate (fns ! f)"
  shows "agree flag E (fns[f := y])"
proof -
  note code = same_code_update [OF assms(4)]
  have unflagged: "\<not> flag (fns ! f)" if "fo_alternate (fns ! f) = None"
    using assms(1,2) that by (force simp: agree_def)
  show ?thesis unfolding agree_def
  proof (intro conjI allI impI)
    fix g assume g: "g < length (fns[f := y])" "flag (fns[f := y] ! g)"
    then have "flag (fns ! g)" using assms(2,3) by (cases "g = f") auto
    with assms(1) g obtain n x where x: "fo_alternate (fns ! g) = Some n" "E n x" "same_code fns (wr_fn x) g"
      unfolding agree_def by auto
    moreover have "wr_fn x < length fns" using assms(1) x(2) by (simp add: agree_def)
    moreover have "fo_alternate (fns[f := y] ! g) = Some n"
      using x(1) assms(2,5) by (cases "g = f") auto
    ultimately show "\<exists>n x. fo_alternate (fns[f := y] ! g) = Some n \<and> E n x \<and> same_code (fns[f := y]) (wr_fn x) g"
      using code g(1) by auto
  next
    fix n x assume "E n x"
    with assms(1) have x: "wr_fn x < length fns" "fo_alternate (fns ! wr_fn x) = Some n" "flag (fns ! wr_fn x)"
      by (auto simp: agree_def)
    then show "wr_fn x < length (fns[f := y])" by simp
    show "fo_alternate (fns[f := y] ! wr_fn x) = Some n" "flag (fns[f := y] ! wr_fn x)"
      using x assms(2,3,5) by (cases "wr_fn x = f"; auto)+
  qed
qed

lemma agree_append:
  assumes "agree flag E fns"
    and "flag y \<Longrightarrow> \<exists>f < length fns. flag (fns ! f) \<and> fo_alternate y = fo_alternate (fns ! f) \<and>
      base_code (fo_body y) = base_code (fo_body (fns ! f))"
  shows "agree flag E (fns @ [y])"
proof -
  have old: "(fns @ [y]) ! g = fns ! g" if "g < length fns" for g using that by (simp add: nth_append)
  show ?thesis unfolding agree_def
  proof (intro conjI allI impI)
    fix g assume g: "g < length (fns @ [y])" "flag ((fns @ [y]) ! g)"
    obtain f where f: "f < length fns" "flag (fns ! f)" "fo_alternate ((fns @ [y]) ! g) = fo_alternate (fns ! f)"
      "base_code (fo_body ((fns @ [y]) ! g)) = base_code (fo_body (fns ! f))"
    proof (cases "g < length fns")
      case True
      with g that [of g] show ?thesis by (simp add: old)
    next
      case False
      with g(1) have "g = length fns" by simp
      with g assms(2) that show ?thesis by auto
    qed
    with assms(1) obtain n x where x: "fo_alternate (fns ! f) = Some n" "E n x" "same_code fns (wr_fn x) f"
      unfolding agree_def by blast
    moreover have "wr_fn x < length fns" using assms(1) x(2) by (simp add: agree_def)
    ultimately show "\<exists>n x. fo_alternate ((fns @ [y]) ! g) = Some n \<and> E n x \<and> same_code (fns @ [y]) (wr_fn x) g"
      using f(3,4) by (auto simp: same_code_def old)
  next
    fix n x assume "E n x"
    with assms(1) have "wr_fn x < length fns \<and> fo_alternate (fns ! wr_fn x) = Some n \<and> flag (fns ! wr_fn x)"
      by (simp add: agree_def)
    then show "wr_fn x < length (fns @ [y])" "fo_alternate ((fns @ [y]) ! wr_fn x) = Some n" "flag ((fns @ [y]) ! wr_fn x)"
      by (simp_all add: old)
  qed
qed

lemma agree_register:
  assumes "agree flag E fns" and "f < length fns" and "fo_alternate (fns ! f) = Some n" and "wr_fn wr = f"
    and "\<And>m x. E' m x \<longleftrightarrow> E m x \<or> m = n \<and> x = wr" and "flag y" and "fo_alternate y = Some n" and "fo_body y = fo_body (fns ! f)"
  shows "agree flag E' (fns[f := y])"
proof -
  note code = same_code_update [OF assms(8)]
  have inside: "wr_fn x < length fns \<and> fo_alternate (fns ! wr_fn x) = Some m \<and> flag (fns ! wr_fn x)" if "E m x" for m x
    using assms(1) that by (auto simp: agree_def)
  show ?thesis unfolding agree_def
  proof (intro conjI allI impI)
    fix g assume g: "g < length (fns[f := y])" "flag (fns[f := y] ! g)"
    show "\<exists>m x. fo_alternate (fns[f := y] ! g) = Some m \<and> E' m x \<and> same_code (fns[f := y]) (wr_fn x) g"
    proof (cases "g = f")
      case True
      with assms(2,4,5,7) show ?thesis by (intro exI [of _ n] exI [of _ wr]) (simp add: same_code_def)
    next
      case False
      with g have "g < length fns" "flag (fns ! g)" by auto
      with assms(1) obtain m x where x: "fo_alternate (fns ! g) = Some m" "E m x" "same_code fns (wr_fn x) g"
        unfolding agree_def by blast
      with inside [OF x(2)] code [of "wr_fn x" g] False \<open>g < length fns\<close> assms(5) show ?thesis by auto
    qed
  next
    fix m x assume "E' m x"
    then consider "E m x" | "m = n" "x = wr" using assms(5) by blast
    note c = this
    show "wr_fn x < length (fns[f := y])" using c inside assms(2,4) by cases auto
    show "fo_alternate (fns[f := y] ! wr_fn x) = Some m"
      using c
    proof cases
      case 1
      with inside [OF 1] assms(2,3,7) show ?thesis by (cases "wr_fn x = f") auto
    qed (use assms(2,4,7) in auto)
    show "flag (fns[f := y] ! wr_fn x)"
      using c
    proof cases
      case 1
      with inside [OF 1] assms(2,6) show ?thesis by (cases "wr_fn x = f") auto
    qed (use assms(2,4,6) in auto)
  qed
qed

definition world_ok :: "world \<Rightarrow> bool" where
  "world_ok w \<longleftrightarrow> agree fo_activity_registered (activity_entry (w_registry w)) (w_fns w) \<and>
     agree fo_workflow_registered (workflow_entry (w_registry w)) (w_fns w)"

lemma orchestrator_entries:
  assumes "add_named_orchestrator n x v latest r = (res, r')"
  shows "activity_entry r' = activity_entry r"
    and "workflow_entry r' m y \<longleftrightarrow> workflow_entry r m y \<or> res = Inr () \<and> m = n \<and> y = x"
proof -
  from assms show "activity_entry r' = activity_entry r"
    by (auto simp: add_named_orchestrator_def activity_entry_def [abs_def] get_activity_def Let_def split: if_splits option.splits)
  from assms show "workflow_entry r' m y \<longleftrightarrow> workflow_entry r m y \<or> res = Inr () \<and> m = n \<and> y = x"
    by (cases v; cases "dict_get (versioned_orchestrators r) n")
      (auto simp: add_named_orchestrator_def workflow_entry_def Let_def dict_has_def dict_get_set split: if_splits,
       (metis option.distinct(1))+)
qed

lemma activity_entries:
  assumes "add_named_activity n x r = (res, r')"
  shows "workflow_entry r' = workflow_entry r"
    and "activity_entry r' m y \<longleftrightarrow> activity_entry r m y \<or> res = Inr () \<and> m = n \<and> y = x"
  using assms
  by (auto simp: add_named_activity_def activity_entry_def get_activity_def workflow_entry_def [abs_def] dict_has_def dict_get_set split: if_splits)

lemma claimed:
  assumes "claim_name kind registered f name own w = (res, w1)" and "world_ok w" and "f < length (w_fns w)"
  shows "world_ok w1" and "w_registry w1 = w_registry w" and "length (w_fns w1) = length (w_fns w)"
    and "res = Inr () \<Longrightarrow> fo_alternate (w_fns w1 ! f) = Some (alternate_of w1 f) \<and> (name \<noteq> None \<longrightarrow> alternate_of w1 f = own)"
  using assms
  by (auto simp: claim_name_def Let_def set_fn_def world_ok_def alternate_of_def intro!: agree_update split: if_splits option.splits)

lemma registered_ok:
  assumes "world_ok w" and "f < length (w_fns w)" and "fo_alternate (w_fns w ! f) = Some n" and "wr_fn x = f"
  shows "(\<And>m y. activity_entry r m y \<longleftrightarrow> activity_entry (w_registry w) m y \<or> m = n \<and> y = x) \<Longrightarrow>
      workflow_entry r = workflow_entry (w_registry w) \<Longrightarrow>
      world_ok (set_fn f (\<lambda>fn. fn\<lparr>fo_activity_registered := True\<rparr>) (w\<lparr>w_registry := r\<rparr>))"
    and "(\<And>m y. workflow_entry r m y \<longleftrightarrow> workflow_entry (w_registry w) m y \<or> m = n \<and> y = x) \<Longrightarrow>
      activity_entry r = activity_entry (w_registry w) \<Longrightarrow>
      world_ok (set_fn f (\<lambda>fn. fn\<lparr>fo_workflow_registered := True\<rparr>) (w\<lparr>w_registry := r\<rparr>))"
proof -
  from assms(1) have A: "agree fo_activity_registered (activity_entry (w_registry w)) (w_fns w)"
    and W: "agree fo_workflow_registered (workflow_entry (w_registry w)) (w_fns w)" by (simp_all add: world_ok_def)
  { assume e: "\<And>m y. activity_entry r m y \<longleftrightarrow> activity_entry (w_registry w) m y \<or> m = n \<and> y = x"
      and same: "workflow_entry r = workflow_entry (w_registry w)"
    let ?y = "(w_fns w ! f)\<lparr>fo_activity_registered := True\<rparr>"
    have "agree fo_activity_registered (activity_entry r) ((w_fns w)[f := ?y])"
      by (rule agree_register [OF A assms(2-4) e]) (simp_all add: assms(3))
    moreover have "agree fo_workflow_registered (workflow_entry r) ((w_fns w)[f := ?y])"
      unfolding same by (rule agree_update [OF W assms(2)]) simp_all
    ultimately show "world_ok (set_fn f (\<lambda>fn. fn\<lparr>fo_activity_registered := True\<rparr>) (w\<lparr>w_registry := r\<rparr>))"
      by (simp add: world_ok_def set_fn_def) }
  assume e: "\<And>m y. workflow_entry r m y \<longleftrightarrow> workflow_entry (w_registry w) m y \<or> m = n \<and> y = x"
    and same: "activity_entry r = activity_entry (w_registry w)"
  let ?y = "(w_fns w ! f)\<lparr>fo_workflow_registered := True\<rparr>"
  have "agree fo_workflow_registered (workflow_entry r) ((w_fns w)[f := ?y])"
    by (rule agree_register [OF W assms(2-4) e]) (simp_all add: assms(3))
  moreover have "agree fo_activity_registered (activity_entry r) ((w_fns w)[f := ?y])"
    unfolding same by (rule agree_update [OF A assms(2)]) simp_all
  ultimately show "world_ok (set_fn f (\<lambda>fn. fn\<lparr>fo_workflow_registered := True\<rparr>) (w\<lparr>w_registry := r\<rparr>))"
    by (simp add: world_ok_def set_fn_def)
qed

lemma register_activity_ok:
  assumes "register_activity mp f name w = (res, w')" and "world_ok w" and "f < length (w_fns w)"
  shows "world_ok w' \<and> length (w_fns w') = length (w_fns w)"
proof -
  obtain c w1 where c: "claim_name ''Activity'' fo_activity_registered f name (name_or name (fo_name (w_fns w ! f))) w = (c, w1)"
    by fastforce
  note ok = claimed [OF c assms(2,3)]
  obtain c' r where r: "add_named_activity (alternate_of w1 f) (make_wrapper mp (w_fns w) f) (w_registry w1) = (c', r)" by fastforce
  note entries = activity_entries [OF r]
  have target: "wr_fn (make_wrapper mp (w_fns w) f) = f" by (simp add: make_wrapper_def split: prod.splits)
  show ?thesis
  proof (cases c)
    case (Inl e)
    with assms(1) c ok show ?thesis by (simp add: register_activity_def)
  next
    case (Inr u)
    note alt = conjunct1 [OF ok(4)]
    show ?thesis
    proof (cases c')
      case (Inl e)
      with assms(1) c Inr r have "w' = w1\<lparr>w_registry := r\<rparr>" by (simp add: register_activity_def)
      moreover have "activity_entry r = activity_entry (w_registry w1)" using entries(2) Inl by (intro ext) simp
      ultimately show ?thesis using ok entries(1) by (simp add: world_ok_def)
    next
      case (Inr u')
      with assms(1) c \<open>c = Inr u\<close> r
      have w': "w' = set_fn f (\<lambda>fn. fn\<lparr>fo_activity_registered := True\<rparr>) (w1\<lparr>w_registry := r\<rparr>)"
        by (simp add: register_activity_def)
      have "world_ok w'" unfolding w'
        by (rule registered_ok(1) [OF ok(1) _ alt target]) (use ok(3) assms(3) \<open>c = Inr u\<close> Inr entries in auto)
      with w' ok(3) show ?thesis by (simp add: set_fn_def)
    qed
  qed
qed

text \<open>The two ways to register a workflow differ in the version.\<close>

lemma register_orchestrator_ok:
  assumes "world_ok w" and "f < length (w_fns w)" and "claim_name ''Workflow'' fo_workflow_registered f name own w = (c, w1)"
    and "add_named_orchestrator n (make_wrapper mp (w_fns w) f) v latest (w_registry w1) = (c', r)"
    and "c = Inr () \<Longrightarrow> n = alternate_of w1 f"
  shows "world_ok w1 \<and> length (w_fns w1) = length (w_fns w)"
    and "c = Inr () \<Longrightarrow> c' = Inl e \<Longrightarrow> world_ok (w1\<lparr>w_registry := r\<rparr>)"
    and "c = Inr () \<Longrightarrow> c' = Inr () \<Longrightarrow> world_ok (set_fn f (\<lambda>fn. fn\<lparr>fo_workflow_registered := True\<rparr>) (w1\<lparr>w_registry := r\<rparr>))"
proof -
  note ok = claimed [OF assms(3,1,2)]
  note entries = orchestrator_entries [OF assms(4)]
  have target: "wr_fn (make_wrapper mp (w_fns w) f) = f" by (simp add: make_wrapper_def split: prod.splits)
  show "world_ok w1 \<and> length (w_fns w1) = length (w_fns w)" using ok by simp
  show "world_ok (w1\<lparr>w_registry := r\<rparr>)" if "c = Inr ()" "c' = Inl e"
  proof -
    have "workflow_entry r = workflow_entry (w_registry w1)" using entries(2) that by (intro ext) simp
    with ok(1) entries(1) show ?thesis by (simp add: world_ok_def)
  qed
  show "world_ok (set_fn f (\<lambda>fn. fn\<lparr>fo_workflow_registered := True\<rparr>) (w1\<lparr>w_registry := r\<rparr>))" if "c = Inr ()" "c' = Inr ()"
    by (rule registered_ok(2) [OF ok(1) _ conjunct1 [OF ok(4) [OF that(1)]] target])
      (use ok(3) assms(2,5) that entries in auto)
qed

lemma register_workflow_ok:
  assumes "register_workflow mp f name w = (res, w')" and "world_ok w" and "f < length (w_fns w)"
  shows "world_ok w' \<and> length (w_fns w') = length (w_fns w)"
proof -
  obtain c w1 where c: "claim_name ''Workflow'' fo_workflow_registered f name (name_or name (fo_name (w_fns w ! f))) w = (c, w1)"
    by fastforce
  obtain c' r where r: "add_named_orchestrator (alternate_of w1 f) (make_wrapper mp (w_fns w) f) None False (w_registry w1) = (c', r)"
    by fastforce
  from register_orchestrator_ok [OF assms(2,3) c r] assms(1) c r show ?thesis
    by (auto simp: register_workflow_def set_fn_def split: sum.splits)
qed

lemma register_versioned_ok:
  assumes "register_versioned_workflow mp f name v latest w = (res, w')" and "world_ok w" and "f < length (w_fns w)"
  shows "world_ok w' \<and> length (w_fns w') = length (w_fns w)"
proof -
  obtain c w1 where c: "claim_name ''Workflow'' fo_workflow_registered f (Some name) name w = (c, w1)" by fastforce
  obtain c' r where r: "add_named_orchestrator name (make_wrapper mp (w_fns w) f)
      (Some (case v of Some v \<Rightarrow> v | None \<Rightarrow> fo_name (w_fns w ! f))) latest (w_registry w1) = (c', r)" by fastforce
  have "c = Inr () \<Longrightarrow> name = alternate_of w1 f" using claimed(4) [OF c assms(2,3)] by simp
  from register_orchestrator_ok [OF assms(2,3) c r this] assms(1) c r show ?thesis
    by (auto simp: register_versioned_workflow_def set_fn_def split: sum.splits)
qed

lemma decorated_ok:
  assumes "world_ok w" and "f < length (w_fns w)"
  shows "world_ok (snd (decorated (res, w) f))"
  using assms by (auto simp: decorated_def Let_def world_ok_def intro!: agree_append split: sum.splits)

lemma alternate_name_ok:
  assumes "world_ok w" and "f < length (w_fns w)"
  shows "world_ok (snd (alternate_name f name w))"
proof (cases "fo_alternate (w_fns w ! f)")
  case None
  let ?y = "(w_fns w ! f)\<lparr>fo_alternate := Some (name_or name (fo_name (w_fns w ! f)))\<rparr>"
  have A: "agree fo_activity_registered (activity_entry (w_registry w)) ((w_fns w)[f := ?y])"
    and W: "agree fo_workflow_registered (workflow_entry (w_registry w)) ((w_fns w)[f := ?y])"
    by (rule agree_update; use assms None in \<open>auto simp: world_ok_def\<close>)+
  have "agree fo_activity_registered (activity_entry (w_registry w)) ((w_fns w)[f := ?y] @ [?y\<lparr>fo_body := PassTo (fo_body ?y)\<rparr>])"
    by (rule agree_append [OF A]) (use assms(2) in \<open>auto intro!: exI [of _ f]\<close>)
  moreover have "agree fo_workflow_registered (workflow_entry (w_registry w)) ((w_fns w)[f := ?y] @ [?y\<lparr>fo_body := PassTo (fo_body ?y)\<rparr>])"
    by (rule agree_append [OF W]) (use assms(2) in \<open>auto intro!: exI [of _ f]\<close>)
  ultimately show ?thesis using A W None assms(2) by (simp add: alternate_name_def Let_def set_fn_def world_ok_def)
qed (use assms in \<open>simp add: alternate_name_def Let_def\<close>)

lemma run_runtime_op_ok:
  assumes "world_ok w"
  shows "world_ok (run_runtime_op mp a w)"
proof -
  have on: "world_ok (on_function f r w)" if "f < length (w_fns w) \<Longrightarrow> world_ok (snd r)" for f and r :: "'x \<times> world"
    using that assms by (simp add: on_function_def)
  have dec: "world_ok (snd (decorated r f))" if "world_ok (snd r)" "f < length (w_fns (snd r))" for r f
    using decorated_ok [OF that, of "fst r"] by simp
  show ?thesis
  proof (cases a)
    case (DefineFunction n sig k)
    with assms show ?thesis by (auto simp: run_runtime_op_def world_ok_def new_function_def intro!: agree_append)
  next
    case (RegisterWorkflow f name)
    with register_workflow_ok [where mp = mp, OF prod.collapse [symmetric] assms] show ?thesis by (auto simp: run_runtime_op_def intro!: on)
  next
    case (RegisterVersioned f name v latest)
    with register_versioned_ok [where mp = mp, OF prod.collapse [symmetric] assms] show ?thesis by (auto simp: run_runtime_op_def intro!: on)
  next
    case (RegisterActivity f name)
    with register_activity_ok [where mp = mp, OF prod.collapse [symmetric] assms] show ?thesis by (auto simp: run_runtime_op_def intro!: on)
  next
    case (DecorateWorkflow f name)
    with register_workflow_ok [where mp = mp, OF prod.collapse [symmetric] assms] show ?thesis
      by (auto simp: run_runtime_op_def workflow_def intro!: on dec)
  next
    case (DecorateVersioned f name v latest)
    with register_versioned_ok [where mp = mp, OF prod.collapse [symmetric] assms] show ?thesis
      by (auto simp: run_runtime_op_def versioned_workflow_def intro!: on dec)
  next
    case (DecorateActivity f name)
    with register_activity_ok [where mp = mp, OF prod.collapse [symmetric] assms] show ?thesis
      by (auto simp: run_runtime_op_def activity_def intro!: on dec)
  next
    case (DecorateName f name)
    with alternate_name_ok [OF assms] show ?thesis by (auto simp: run_runtime_op_def intro!: on)
  qed
qed

lemma run_runtime_ops_ok: "world_ok (run_runtime_ops mp as)"
proof -
  have "world_ok (foldl (\<lambda>w a. run_runtime_op mp a w) w as)" if "world_ok w" for w
    using that by (induction as arbitrary: w) (simp_all add: run_runtime_op_ok)
  moreover have "world_ok \<lparr>w_fns = [], w_registry = empty_registry\<rparr>"
    by (simp add: world_ok_def agree_def activity_entry_def workflow_entry_def get_activity_def empty_registry_def dict_get_def)
  ultimately show ?thesis by (simp add: run_runtime_ops_def)
qed


definition no_models :: "unit model_protocol" where
  "no_models = \<lparr>mp_is_model_class = (\<lambda>c. False), mp_class = (\<lambda>m. []), mp_isinstance = (\<lambda>m c. False),
     mp_validate = (\<lambda>c d. Inr ()), mp_supports_mode = (\<lambda>m. False), mp_dump_json = (\<lambda>m. PNone), mp_dump = (\<lambda>m. PNone)\<rparr>"

text \<open>A function with a name of its own, decorated as an activity; the third object is what the decorator gave back.\<close>

definition demo_runtime_ops :: "runtime_op list" where
  "demo_runtime_ops = [DefineFunction ''f'' (Some [None, None]) 7, DecorateName 0 (Some ''add''), DecorateActivity 1 None]"


text \<open>
  The name is claimed before the registry is asked. If the registry refuses it, the function keeps it, and every later
  registration under another name is refused.
\<close>

lemma refused_name_sticks:
  assumes "register_activity mp f name w = (Inl e, w')" and "f < length (w_fns w)" and "\<not> fo_activity_registered (w_fns w ! f)"
  shows "fo_alternate (w_fns w' ! f) \<noteq> None \<and> (\<exists>e. ex_kind e = ValueError \<and> register_activity mp f (Some other) w' = (Inl e, w'))"
  using assms
  by (auto simp: register_activity_def claim_name_def Let_def set_fn_def split: option.splits sum.splits prod.splits if_splits)

text \<open>A lambda can be registered as a workflow and started by a client, but not called as a child.\<close>

lemma lambda_child_refused:
  "function_name (fns ! f) = ''<lambda>'' \<Longrightarrow> \<exists>e. ref_name (child_ref fns (FunctionTarget f)) = Inl e"
  by (simp add: child_ref_def ref_name_def get_name_def)

section \<open>Models as inputs\<close>

text \<open>
  C34. The input of a function whose second parameter is annotated with a model class is None or an instance of it: anything
  else is coerced or refused before the function runs. And a model survives the way of an input: encoded as the client and
  the context encode it, and decoded as the worker decodes it, it comes back to the function as the instance that was sent,
  if the class reads its own dumps.
\<close>

theorem model_inputs:
  assumes "resolve_input mp (fo_signature (fns ! f)) = (True, Some c)"
    and "\<And>d m. mp_validate mp c d = Inr m \<Longrightarrow> mp_isinstance mp m c"
    and "dump_model mp m = Inr (PDict d)" and "json_rt (PDict d)" and "mp_validate mp c d = Inr m"
  shows "(\<forall>v. case wrapper_args mp (make_wrapper mp fns f) v of
       Inl e \<Rightarrow> v \<noteq> Decoded PNone \<and> call_wrapper mp code fns (make_wrapper mp fns f) ctxt v = Inl e
     | Inr a \<Rightarrow> a = Some (Decoded PNone) \<or> (\<exists>m. a = Some (Instance m) \<and> mp_isinstance mp m c)) \<and>
    (\<exists>p v. res_bind (dump_model mp m) (payload_if True) = Inr p \<and> decode_payload p = Inr v \<and>
      wrapper_args mp (make_wrapper mp fns f) (Decoded v) = Inr (Some (Instance m)))"
proof -
  from assms(1) have c: "mp_is_model_class mp c"
    by (auto simp: resolve_input_def split: option.splits annotation.splits if_splits)
  from assms(1) have w: "make_wrapper mp fns f = \<lparr>wr_fn = f, wr_accepts_input = True, wr_input_model = Some c\<rparr>"
    by (simp add: make_wrapper_def)
  have "case wrapper_args mp (make_wrapper mp fns f) v of
       Inl e \<Rightarrow> v \<noteq> Decoded PNone \<and> call_wrapper mp code fns (make_wrapper mp fns f) ctxt v = Inl e
     | Inr a \<Rightarrow> a = Some (Decoded PNone) \<or> (\<exists>m. a = Some (Instance m) \<and> mp_isinstance mp m c)" for v
  proof (cases v)
    case (Decoded x)
    with c assms(2) show ?thesis
      by (cases x)
        (auto simp: w wrapper_args_def call_wrapper_def coerce_input_def coerce_to_model_def map_sum_def split: sum.splits)
  next
    case (Instance m)
    with c show ?thesis
      by (auto simp: w wrapper_args_def call_wrapper_def coerce_input_def coerce_to_model_def split: sum.splits)
  qed
  moreover from payload_arrives [OF assms(4), of True] obtain p where
    "payload_if True (PDict d) = Inr p" "decode_payload p = Inr (PDict d)" by auto
  ultimately show ?thesis
    using assms(3,5) c by (auto simp: w wrapper_args_def coerce_input_def coerce_to_model_def)
qed

text \<open>A class with one number.\<close>

definition demo_models :: "int model_protocol" where
  "demo_models = \<lparr>mp_is_model_class = (\<lambda>c. c = ''Order''), mp_class = (\<lambda>m. ''Order''), mp_isinstance = (\<lambda>m c. c = ''Order''),
     mp_validate = (\<lambda>c d. case dict_get d ''n'' of Some (PInt i) \<Rightarrow> Inr i | _ \<Rightarrow> Inl (exc ValueError ''n'')),
     mp_supports_mode = (\<lambda>m. True), mp_dump_json = (\<lambda>m. PDict [(''n'', PInt m)]), mp_dump = (\<lambda>m. PNone)\<rparr>"

theorem model_inputs_witness:
  "\<exists>p v. payload_if True (PDict [(''n'', PInt 3)]) = Inr p \<and> decode_payload p = Inr v \<and>
     wrapper_args demo_models (make_wrapper demo_models [new_function ''f'' (Some [None, Some (AnnUnion [AnnClass ''Order'', AnnNoneType])]) 0] 0)
       (Decoded v) = Inr (Some (Instance 3))"
proof -
  let ?fns = "[new_function ''f'' (Some [None, Some (AnnUnion [AnnClass ''Order'', AnnNoneType])]) 0]"
  have d: "dump_model demo_models 3 = Inr (PDict [(''n'', PInt 3)])" by (simp add: dump_model_def demo_models_def)
  have "\<exists>p v. res_bind (dump_model demo_models 3) (payload_if True) = Inr p \<and> decode_payload p = Inr v \<and>
      wrapper_args demo_models (make_wrapper demo_models ?fns 0) (Decoded v) = Inr (Some (Instance 3))"
  proof (rule conjunct2 [OF model_inputs [where code = "\<lambda>_ _ _. Inr ()" and ctxt = "()"]])
    show "resolve_input demo_models (fo_signature (?fns ! 0)) = (True, Some ''Order'')"
      by (simp add: resolve_input_def new_function_def unwrap_optional_def demo_models_def)
    show "mp_isinstance demo_models m ''Order''" for m by (simp add: demo_models_def)
    show "dump_model demo_models 3 = Inr (PDict [(''n'', PInt 3)])" by (rule d)
    show "json_rt (PDict [(''n'', PInt 3)])" by (simp add: AUTO_SERIALIZED_def dict_wf_def dict_has_def dict_get_def)
    show "mp_validate demo_models ''Order'' [(''n'', PInt 3)] = Inr 3" by (simp add: demo_models_def dict_get_def)
  qed
  then show ?thesis by (simp only: d res_bind_simps)
qed

section \<open>Starting\<close>

text \<open>The runtime starts if the worker is ready at one of the polls that begin before the time is up, ten each second.\<close>

lemma wait_for_worker_ready_iff:
  "wait_for_worker_ready ready k elapsed timeout \<longleftrightarrow> (\<exists>i. elapsed + of_nat i / 10 < timeout \<and> ready (k + i))"
proof (induction ready k elapsed timeout rule: wait_for_worker_ready.induct)
  case (1 ready k elapsed timeout)
  have split: "(\<exists>i. P i) \<longleftrightarrow> P 0 \<or> (\<exists>i. P (Suc i))" for P :: "nat \<Rightarrow> bool" by (metis not0_implies_Suc)
  show ?case
  proof (cases "elapsed < timeout")
    case True
    have "elapsed + 1 / 10 + of_nat i / 10 = elapsed + of_nat (Suc i) / 10" for i :: nat by (simp add: field_simps)
    with 1 True show ?thesis
      by (subst wait_for_worker_ready.simps) (auto simp: split [of "\<lambda>i. elapsed + of_nat i / 10 < timeout \<and> ready (k + i)"])
  next
    case False
    have "\<not> elapsed + of_nat i / 10 < timeout" for i :: nat
    proof -
      have "0 \<le> (of_nat i / 10 :: rat)" by simp
      with False show ?thesis by linarith
    qed
    with False show ?thesis by (subst wait_for_worker_ready.simps) simp
  qed
qed

end
