(* ===== verification/ServiceClient.thy ===== *)
theory ServiceClient
  imports StateClient
begin

text \<open>
  The other operations of the service clients (\<open>clients/grpc/client.py\<close>, \<open>aio/clients/grpc/client.py\<close>): publishing,
  invocation, secrets, configuration, locks, jobs (\<open>clients/grpc/_jobs.py\<close>) and metadata. As in \<open>StateClient\<close>, the
  asynchronous client differs in that it does not retry. Data of a message are bytes in an \<open>Any\<close>.
\<close>

section \<open>Falling back\<close>

text \<open>A method, and its older name for a sidecar that does not implement it.\<close>

definition fallback_call ::
  "('q \<Rightarrow> 'st \<Rightarrow> (('r \<times> grpc_metadata) client_answer \<times> 'st) option) \<Rightarrow>
   ('q \<Rightarrow> 'st \<Rightarrow> (('r \<times> grpc_metadata) client_answer \<times> 'st) option) \<Rightarrow> 'q \<Rightarrow> 'st \<Rightarrow>
   (('r \<times> grpc_metadata) client_answer \<times> 'st) option" where
  "fallback_call call alpha q s = (case call q s of
     None \<Rightarrow> None
   | Some (Inr a, s1) \<Rightarrow> Some (Inr a, s1)
   | Some (Inl e, s1) \<Rightarrow>
       if e = RaisedRpc UNIMPLEMENTED then map_option (map_prod (map_sum dapr_grpc_error id) id) (alpha q s1)
       else Some (Inl (dapr_grpc_error e), s1))"

definition call_or_alpha ::
  "grpc_code client_policy \<Rightarrow> ('q, 'r, 'st) rpc_method \<Rightarrow> ('q, 'r, 'st) rpc_method \<Rightarrow> 'q \<Rightarrow> 'st \<Rightarrow>
   (('r \<times> grpc_metadata) client_answer \<times> 'st) option" where
  "call_or_alpha p m m' = fallback_call (call_rpc p m) (call_rpc p m')"

definition once_or_alpha ::
  "('q, 'r, 'st) rpc_method \<Rightarrow> ('q, 'r, 'st) rpc_method \<Rightarrow> 'q \<Rightarrow> 'st \<Rightarrow> (('r \<times> grpc_metadata) client_answer \<times> 'st) option" where
  "once_or_alpha m m' = fallback_call (\<lambda>q s. Some (call_once m q s)) (\<lambda>q s. Some (call_once m' q s))"

section \<open>Publishing\<close>

record publish_request =
  pq_pubsub :: string
  pq_topic :: string
  pq_data :: string
  pq_content_type :: string
  pq_metadata :: "(string, string) dict"

definition publish_event_request ::
  "string \<Rightarrow> string \<Rightarrow> pydata \<Rightarrow> (string, string) dict \<Rightarrow> string option \<Rightarrow> publish_request res" where
  "publish_event_request pubsub topic d md ty =
    (if \<not> is_data d then Inl (invalid_data d)
     else map_sum id (\<lambda>b. \<lparr>pq_pubsub = pubsub, pq_topic = topic, pq_data = b,
       pq_content_type = (case ty of None \<Rightarrow> [] | Some t \<Rightarrow> t), pq_metadata = md\<rparr>) (to_bytes d))"

record publish_entry =
  pe_id :: string
  pe_event :: string
  pe_content_type :: string

record bulk_publish_request =
  bpq_pubsub :: string
  bpq_topic :: string
  bpq_entries :: "publish_entry list"
  bpq_metadata :: "(string, string) dict"

definition given_or :: "string \<Rightarrow> string option \<Rightarrow> string" where
  "given_or dflt ty = (case ty of Some t \<Rightarrow> if t = [] then dflt else t | None \<Rightarrow> dflt)"

text \<open>\<open>ids n\<close> is the identifier drawn for the \<open>n\<close>-th event.\<close>

definition publish_entry_of :: "(nat \<Rightarrow> string) \<Rightarrow> string option \<Rightarrow> nat \<times> pydata \<Rightarrow> publish_entry res" where
  "publish_entry_of ids ty p = (case snd p of
     DBytes b \<Rightarrow> Inr \<lparr>pe_id = ids (fst p), pe_event = b, pe_content_type = given_or ''application/octet-stream'' ty\<rparr>
   | DText s \<Rightarrow> Inr \<lparr>pe_id = ids (fst p), pe_event = utf8_encode s, pe_content_type = given_or ''text/plain'' ty\<rparr>
   | DOther n \<Rightarrow> Inl (exc ValueError (''invalid type for event <class '' @ py_repr n @ ''>'')))"

definition publish_events_request ::
  "(nat \<Rightarrow> string) \<Rightarrow> string \<Rightarrow> string \<Rightarrow> pydata list \<Rightarrow> (string, string) dict \<Rightarrow> string option \<Rightarrow> bulk_publish_request res" where
  "publish_events_request ids pubsub topic ds md ty =
    map_sum id (\<lambda>es. \<lparr>bpq_pubsub = pubsub, bpq_topic = topic, bpq_entries = es, bpq_metadata = md\<rparr>)
      (seq_res (map (publish_entry_of ids ty) (enumerate 0 ds)))"

record bulk_publish_response =
  bpr_failed :: "(string \<times> string) list"
  bpr_headers :: grpc_metadata

definition to_publish_response :: "(string \<times> string) list \<times> grpc_metadata \<Rightarrow> bulk_publish_response" where
  "to_publish_response r = \<lparr>bpr_failed = fst r, bpr_headers = snd r\<rparr>"

definition publish_event where
  "publish_event p m pubsub topic d md ty s =
    operation dapr_grpc_error snd (publish_event_request pubsub topic d md ty) (\<lambda>q. call_rpc p (m :: (_, unit, _) rpc_method) q s) s"

definition aio_publish_event where
  "aio_publish_event m pubsub topic d md ty s =
    aio_operation dapr_grpc_error snd (publish_event_request pubsub topic d md ty) (m :: (_, unit, _) rpc_method) s"

definition publish_events where
  "publish_events p m alpha ids pubsub topic ds md ty s =
    operation id to_publish_response (publish_events_request ids pubsub topic ds md ty) (\<lambda>q. call_or_alpha p m alpha q s) s"

definition aio_publish_events where
  "aio_publish_events m alpha ids pubsub topic ds md ty s =
    operation id to_publish_response (publish_events_request ids pubsub topic ds md ty) (\<lambda>q. once_or_alpha m alpha q s) s"

section \<open>Invocation\<close>

text \<open>The data of an invocation: nothing, bytes or text, or a message with its type.\<close>

datatype invoke_data = NoData | PlainData pydata | MessageData any_value

record service_request =
  iq_app :: string
  iq_method :: string
  iq_data :: any_value
  iq_content_type :: string
  iq_http :: "(string \<times> string) option"

text \<open>\<open>set_data\<close>, and the content type that \<open>InvokeMethodRequest\<close> chooses.\<close>

definition invoke_any :: "invoke_data \<Rightarrow> any_value res" where
  "invoke_any d = (case d of
     NoData \<Rightarrow> Inr \<lparr>av_type_url = [], av_value = []\<rparr>
   | PlainData v \<Rightarrow> if is_data v then map_sum id (\<lambda>b. \<lparr>av_type_url = [], av_value = b\<rparr>) (to_bytes v) else Inl (invalid_data v)
   | MessageData a \<Rightarrow> Inr a)"

definition invoke_content_type :: "any_value \<Rightarrow> string option \<Rightarrow> string" where
  "invoke_content_type a ty = (let t = (case ty of None \<Rightarrow> [] | Some t \<Rightarrow> t) in
     if av_type_url a = [] \<and> t = [] then JSON_CONTENT_TYPE else t)"

text \<open>\<open>urlencode\<close>: letters, digits and four signs stand for themselves, a space is a plus.\<close>

definition hex_digit_upper :: "nat \<Rightarrow> char" where
  "hex_digit_upper n = char_of (if n < 10 then 48 + n else 55 + n)"

definition quote_byte :: "char \<Rightarrow> string" where
  "quote_byte c = (let n = of_char c :: nat in
     if 48 \<le> n \<and> n \<le> 57 \<or> 65 \<le> n \<and> n \<le> 90 \<or> 97 \<le> n \<and> n \<le> 122 \<or> c \<in> set ''_.-~'' then [c]
     else if n = 32 then ''+''
     else [CHR ''%'', hex_digit_upper (n div 16), hex_digit_upper (n mod 16)])"

definition quote_plus :: "string \<Rightarrow> string" where
  "quote_plus s = concat (map quote_byte (utf8_encode s))"

definition urlencode :: "(string \<times> string) list \<Rightarrow> string" where
  "urlencode ps = join_str ''&'' (map (\<lambda>p. quote_plus (fst p) @ ''='' @ quote_plus (snd p)) ps)"

definition HTTP_VERBS :: "string list" where
  "HTTP_VERBS = [''NONE'', ''GET'', ''HEAD'', ''POST'', ''PUT'', ''DELETE'', ''CONNECT'', ''OPTIONS'', ''TRACE'', ''PATCH'']"

definition get_http_extension :: "string \<Rightarrow> (string \<times> string) list option \<Rightarrow> (string \<times> string) res" where
  "get_http_extension verb qs =
    (if verb \<notin> set HTTP_VERBS
       then Inl (exc ValueError (''Enum Verb has no value defined for name '' @ py_repr verb))
     else Inr (verb, case qs of None \<Rightarrow> [] | Some ps \<Rightarrow> urlencode ps))"

definition invoke_method_request ::
  "string \<Rightarrow> string \<Rightarrow> invoke_data \<Rightarrow> string option \<Rightarrow> string option \<Rightarrow> (string \<times> string) list option \<Rightarrow> service_request res" where
  "invoke_method_request app name d ty verb qs = res_bind (invoke_any d) (\<lambda>a.
     res_bind (case verb of
         None \<Rightarrow> Inr None
       | Some v \<Rightarrow> if v = [] then Inr None else map_sum id Some (get_http_extension v qs)) (\<lambda>h.
       Inr \<lparr>iq_app = app, iq_method = name, iq_data = a, iq_content_type = invoke_content_type a ty, iq_http = h\<rparr>))"

record invoke_response =
  ir_data :: any_value
  ir_content_type :: string
  ir_headers :: grpc_metadata

definition to_invoke_response :: "(any_value \<times> string) \<times> grpc_metadata \<Rightarrow> invoke_response" where
  "to_invoke_response r = \<lparr>ir_data = fst (fst r),
     ir_content_type = (if av_type_url (fst (fst r)) = [] \<and> snd (fst r) = [] then JSON_CONTENT_TYPE else snd (fst r)),
     ir_headers = snd r\<rparr>"

definition invoke_method where
  "invoke_method p m app name d ty verb qs s =
    operation id to_invoke_response (invoke_method_request app name d ty verb qs) (\<lambda>q. call_rpc p m q s) s"

definition aio_invoke_method where
  "aio_invoke_method m app name d ty verb qs s =
    aio_operation id to_invoke_response (invoke_method_request app name d ty verb qs) m s"

record binding_request =
  nq_name :: string
  nq_data :: string
  nq_metadata :: "(string, string) dict"
  nq_operation :: string

record binding_response =
  nr_data :: string
  nr_metadata :: "(string, string) dict"
  nr_headers :: grpc_metadata

definition invoke_binding_request :: "string \<Rightarrow> string \<Rightarrow> pydata \<Rightarrow> (string, string) dict \<Rightarrow> binding_request res" where
  "invoke_binding_request name op d md =
    map_sum id (\<lambda>b. \<lparr>nq_name = name, nq_data = b, nq_metadata = md, nq_operation = op\<rparr>) (to_bytes d)"

definition to_binding_response :: "(string \<times> (string, string) dict) \<times> grpc_metadata \<Rightarrow> binding_response" where
  "to_binding_response r = \<lparr>nr_data = fst (fst r), nr_metadata = snd (fst r), nr_headers = snd r\<rparr>"

definition invoke_binding where
  "invoke_binding p m name op d md s =
    operation id to_binding_response (invoke_binding_request name op d md) (\<lambda>q. call_rpc p m q s) s"

definition aio_invoke_binding where
  "aio_invoke_binding m name op d md s = aio_operation id to_binding_response (invoke_binding_request name op d md) m s"

section \<open>Secrets and configuration\<close>

text \<open>A request by store and keys with its metadata. The errors of gRPC are passed on as they are.\<close>

record store_request =
  rq_store :: string
  rq_keys :: "string list"
  rq_metadata :: "(string, string) dict"

definition get_secret where
  "get_secret p m store k md s =
    operation id id (Inr \<lparr>rq_store = store, rq_keys = [k], rq_metadata = md\<rparr>)
      (\<lambda>q. call_rpc p (m :: (_, (string, string) dict, _) rpc_method) q s) s"

definition aio_get_secret where
  "aio_get_secret m store k md s =
    aio_operation id id (Inr \<lparr>rq_store = store, rq_keys = [k], rq_metadata = md\<rparr>) (m :: (_, (string, string) dict, _) rpc_method) s"

text \<open>The map of maps is copied entry by entry.\<close>

definition copy_dict :: "('k, 'v) dict \<Rightarrow> ('k, 'v) dict" where
  "copy_dict d = foldl (\<lambda>acc p. dict_set (fst p) (snd p) acc) [] d"

definition to_bulk_secrets :: "(string, (string, string) dict) dict \<times> grpc_metadata \<Rightarrow> (string, (string, string) dict) dict \<times> grpc_metadata" where
  "to_bulk_secrets r = (copy_dict (map (\<lambda>p. (fst p, copy_dict (snd p))) (fst r)), snd r)"

definition get_bulk_secret where
  "get_bulk_secret p m store md s =
    operation id to_bulk_secrets (Inr \<lparr>rq_store = store, rq_keys = [], rq_metadata = md\<rparr>) (\<lambda>q. call_rpc p m q s) s"

definition aio_get_bulk_secret where
  "aio_get_bulk_secret m store md s =
    aio_operation id to_bulk_secrets (Inr \<lparr>rq_store = store, rq_keys = [], rq_metadata = md\<rparr>) m s"

record configuration_item =
  ci_value :: string
  ci_version :: string
  ci_metadata :: "(string, string) dict"

definition configuration_request :: "string \<Rightarrow> string list \<Rightarrow> (string, string) dict \<Rightarrow> store_request res" where
  "configuration_request store ks md =
    (if is_blank store then Inl (exc ValueError ''Config store name cannot be empty to get the configuration'')
     else Inr \<lparr>rq_store = store, rq_keys = ks, rq_metadata = md\<rparr>)"

definition to_configuration_response ::
  "(string, configuration_item) dict \<times> grpc_metadata \<Rightarrow> (string, configuration_item) dict \<times> grpc_metadata" where
  "to_configuration_response r = (copy_dict (fst r), snd r)"

definition get_configuration where
  "get_configuration p m store ks md s =
    operation id to_configuration_response (configuration_request store ks md) (\<lambda>q. call_rpc p m q s) s"

definition aio_get_configuration where
  "aio_get_configuration m store ks md s =
    aio_operation id to_configuration_response (configuration_request store ks md) m s"

text \<open>
  \<open>ConfigurationWatcher\<close>: the thread that reads the stream keeps the identifier of the first response, and hands
  every response with items to the handler until the stream ends or the handler raises. \<open>watch_configuration\<close> gives the
  identifier if it came in time.
\<close>

record watcher =
  wt_id :: string
  wt_set :: bool
  wt_handled :: "(string \<times> (string, configuration_item) dict) list"

fun read_subscribe_config ::
  "(string \<Rightarrow> (string, configuration_item) dict \<Rightarrow> bool) \<Rightarrow> bool \<Rightarrow> (string \<times> (string, configuration_item) dict) list \<Rightarrow> watcher \<Rightarrow> watcher" where
  "read_subscribe_config handler first [] w = w"
| "read_subscribe_config handler first ((i, items) # rs) w =
    (let w1 = (if first then w\<lparr>wt_id := i, wt_set := True\<rparr> else w) in
     if items \<noteq> [] then
       (let w2 = w1\<lparr>wt_handled := wt_handled w1 @ [(i, copy_dict items)]\<rparr> in
        if handler i (copy_dict items) then read_subscribe_config handler False rs w2 else w2)
     else read_subscribe_config handler False rs w1)"

definition watch_configuration ::
  "(string \<Rightarrow> (string, configuration_item) dict \<Rightarrow> bool) \<Rightarrow> (string \<times> (string, configuration_item) dict) list \<Rightarrow> bool \<Rightarrow>
    string option \<times> watcher" where
  "watch_configuration handler rs in_time =
    (let w = read_subscribe_config handler True rs \<lparr>wt_id = [], wt_set = False, wt_handled = []\<rparr>
     in (if wt_set w \<and> in_time then Some (wt_id w) else None, w))"

section \<open>Locks\<close>

record lock_request =
  lq_store :: string
  lq_resource :: string
  lq_owner :: string
  lq_expiry :: int

record lock_response =
  lr_success :: bool
  lr_store :: string
  lr_resource :: string
  lr_owner :: string
  lr_headers :: grpc_metadata

datatype unlock_status = UnlockSuccess | LockDoesNotExist | LockBelongsToOthers | UnlockInternalError

definition try_lock_request :: "string \<Rightarrow> string \<Rightarrow> string \<Rightarrow> int \<Rightarrow> lock_request res" where
  "try_lock_request store resource owner expiry =
    res_bind (validate_not_blank [(''store_name'', Some store), (''resource_id'', Some resource), (''lock_owner'', Some owner)]) (\<lambda>_.
      if expiry < 1 then Inl (exc ValueError ''expiry_in_seconds must be a positive number'')
      else if 2 ^ 31 \<le> expiry then Inl (exc ValueError (''Value out of range: '' @ str_of_int expiry))
      else Inr \<lparr>lq_store = store, lq_resource = resource, lq_owner = owner, lq_expiry = expiry\<rparr>)"

definition unlock_request :: "string \<Rightarrow> string \<Rightarrow> string \<Rightarrow> lock_request res" where
  "unlock_request store resource owner =
    res_bind (validate_not_blank [(''store_name'', Some store), (''resource_id'', Some resource), (''lock_owner'', Some owner)]) (\<lambda>_.
      Inr \<lparr>lq_store = store, lq_resource = resource, lq_owner = owner, lq_expiry = 0\<rparr>)"

definition to_lock_response :: "string \<Rightarrow> string \<Rightarrow> string \<Rightarrow> bool \<times> grpc_metadata \<Rightarrow> lock_response" where
  "to_lock_response store resource owner r =
    \<lparr>lr_success = fst r, lr_store = store, lr_resource = resource, lr_owner = owner, lr_headers = snd r\<rparr>"

definition try_lock where
  "try_lock p m store resource owner expiry s =
    operation id (to_lock_response store resource owner) (try_lock_request store resource owner expiry) (\<lambda>q. call_rpc p m q s) s"

definition aio_try_lock where
  "aio_try_lock m store resource owner expiry s =
    aio_operation id (to_lock_response store resource owner) (try_lock_request store resource owner expiry) m s"

definition unlock where
  "unlock p m store resource owner s =
    operation id id (unlock_request store resource owner) (\<lambda>q. call_rpc p (m :: (_, unlock_status, _) rpc_method) q s) s"

definition aio_unlock where
  "aio_unlock m store resource owner s =
    aio_operation id id (unlock_request store resource owner) (m :: (_, unlock_status, _) rpc_method) s"

text \<open>\<open>__exit__\<close>, and a \<open>with\<close> block over a lock: the body runs whether or not the lock was acquired.\<close>

definition lock_exit where
  "lock_exit p m lk s = (if lr_success lk
     then map_option (map_prod (map_sum id (\<lambda>_. ())) id) (unlock p m (lr_store lk) (lr_resource lk) (lr_owner lk) s)
     else Some (Inr (), s))"

definition with_lock where
  "with_lock p mlock munlock store resource owner expiry body s =
    (case try_lock p mlock store resource owner expiry s of
       None \<Rightarrow> None
     | Some (Inl e, s1) \<Rightarrow> Some (Inl e, s1)
     | Some (Inr lk, s1) \<Rightarrow>
        (case body lk s1 of (r, s2) \<Rightarrow>
          (case lock_exit p munlock lk s2 of
             None \<Rightarrow> None
           | Some (Inl e, s3) \<Rightarrow> Some (Inl e, s3)
           | Some (Inr u, s3) \<Rightarrow> Some (r, s3))))"

section \<open>Jobs\<close>

datatype job_failure_policy = DropJob | ConstantJob "int option" "int option"

record dapr_job =
  jb_name :: string
  jb_schedule :: "string option"
  jb_repeats :: "int option"
  jb_due_time :: "string option"
  jb_ttl :: "string option"
  jb_data :: "any_value option"
  jb_policy :: "job_failure_policy option"

text \<open>
  The message, whose optional fields know whether they are set. Its counters are 32 bits wide, the seconds of an
  interval 64.
\<close>

record job_proto =
  jp_name :: string
  jp_schedule :: "string option"
  jp_repeats :: "32 word option"
  jp_due_time :: "string option"
  jp_ttl :: "string option"
  jp_data :: any_value
  jp_policy :: "(32 word option \<times> 64 word option) option option"

definition uint32 :: "int \<Rightarrow> 32 word res" where
  "uint32 i = (if 0 \<le> i \<and> i < 2 ^ 32 then Inr (word_of_int i) else Inl (exc ValueError (''Value out of range: '' @ str_of_int i)))"

definition opt_uint32 :: "int option \<Rightarrow> 32 word option res" where
  "opt_uint32 i = (case i of None \<Rightarrow> Inr None | Some x \<Rightarrow> map_sum id Some (uint32 x))"

definition opt_int64 :: "int option \<Rightarrow> 64 word option res" where
  "opt_int64 i = (case i of
     None \<Rightarrow> Inr None
   | Some x \<Rightarrow> if -(2 ^ 63) \<le> x \<and> x < 2 ^ 63 then Inr (Some (word_of_int x))
       else Inl (exc ValueError (''Value out of range: '' @ str_of_int x)))"

definition if_given :: "string option \<Rightarrow> string option" where
  "if_given t = (case t of Some s \<Rightarrow> if s = [] then None else Some s | None \<Rightarrow> None)"

definition failure_policy_proto :: "job_failure_policy \<Rightarrow> (32 word option \<times> 64 word option) option res" where
  "failure_policy_proto pol = (case pol of
     DropJob \<Rightarrow> Inr None
   | ConstantJob retries interval \<Rightarrow> res_bind (opt_int64 interval) (\<lambda>i. res_bind (opt_uint32 retries) (\<lambda>w. Inr (Some (w, i)))))"

definition get_job_proto :: "dapr_job \<Rightarrow> job_proto res" where
  "get_job_proto j = res_bind (opt_uint32 (jb_repeats j)) (\<lambda>reps.
     res_bind (case jb_policy j of None \<Rightarrow> Inr None | Some pol \<Rightarrow> map_sum id Some (failure_policy_proto pol)) (\<lambda>pol.
       Inr \<lparr>jp_name = jb_name j, jp_schedule = if_given (jb_schedule j), jp_repeats = reps, jp_due_time = if_given (jb_due_time j),
            jp_ttl = if_given (jb_ttl j),
            jp_data = (case jb_data j of None \<Rightarrow> \<lparr>av_type_url = [], av_value = []\<rparr> | Some a \<Rightarrow> a), jp_policy = pol\<rparr>))"

definition job_of_proto :: "job_proto \<Rightarrow> dapr_job" where
  "job_of_proto q =
    \<lparr>jb_name = jp_name q, jb_schedule = jp_schedule q, jb_repeats = map_option uint (jp_repeats q), jb_due_time = jp_due_time q,
     jb_ttl = jp_ttl q, jb_data = (if av_value (jp_data q) = [] then None else Some (jp_data q)),
     jb_policy = map_option (\<lambda>pol. case pol of None \<Rightarrow> DropJob | Some (w, i) \<Rightarrow> ConstantJob (map_option uint w) (map_option sint i)) (jp_policy q)\<rparr>"

definition schedule_job_request :: "dapr_job \<Rightarrow> bool \<Rightarrow> (job_proto \<times> bool) res" where
  "schedule_job_request j overwrite =
    res_bind (validate_not_blank [(''job_name'', Some (jb_name j))]) (\<lambda>_.
      if if_given (jb_schedule j) = None \<and> if_given (jb_due_time j) = None
        then Inl (exc ValueError ''Job must have either schedule or due_time specified'')
      else map_sum id (\<lambda>q. (q, overwrite)) (get_job_proto j))"

definition job_name_request :: "string \<Rightarrow> string res" where
  "job_name_request name = map_sum id (\<lambda>_. name) (validate_not_blank [(''job_name'', Some name)])"

definition schedule_job where
  "schedule_job p m alpha j overwrite s =
    operation id snd (schedule_job_request j overwrite) (\<lambda>q. call_or_alpha p m (alpha :: (_, unit, _) rpc_method) q s) s"

definition get_job where
  "get_job p m alpha name s =
    operation id (\<lambda>r. job_of_proto (fst r)) (job_name_request name) (\<lambda>q. call_or_alpha p m alpha q s) s"

definition delete_job where
  "delete_job p m alpha name s =
    operation id snd (job_name_request name) (\<lambda>q. call_or_alpha p m (alpha :: (_, unit, _) rpc_method) q s) s"

definition aio_schedule_job where
  "aio_schedule_job m alpha j overwrite s =
    operation id snd (schedule_job_request j overwrite) (\<lambda>q. once_or_alpha m (alpha :: (_, unit, _) rpc_method) q s) s"

definition aio_get_job where
  "aio_get_job m alpha name s =
    operation id (\<lambda>r. job_of_proto (fst r)) (job_name_request name) (\<lambda>q. once_or_alpha m alpha q s) s"

definition aio_delete_job where
  "aio_delete_job m alpha name s =
    operation id snd (job_name_request name) (\<lambda>q. once_or_alpha m (alpha :: (_, unit, _) rpc_method) q s) s"

section \<open>Metadata\<close>

record sidecar_metadata =
  mt_id :: string
  mt_actor_counts :: "(string \<times> int) list"
  mt_components :: "(string \<times> string \<times> string \<times> string list) list"
  mt_extended :: "(string, string) dict"
  mt_mcp_servers :: "string list"

text \<open>The counts of actors by type become a dict.\<close>

definition to_metadata_response :: "sidecar_metadata \<times> grpc_metadata \<Rightarrow> sidecar_metadata \<times> grpc_metadata" where
  "to_metadata_response r = (let m = fst r in
     (m\<lparr>mt_actor_counts := copy_dict (mt_actor_counts m), mt_extended := copy_dict (mt_extended m)\<rparr>, snd r))"

definition get_metadata where
  "get_metadata p m s = operation dapr_grpc_error to_metadata_response (Inr ()) (\<lambda>q. call_rpc p m q s) s"

definition aio_get_metadata where
  "aio_get_metadata m s = aio_operation dapr_grpc_error to_metadata_response (Inr ()) m s"

definition set_metadata_request :: "string option \<Rightarrow> string option \<Rightarrow> (string \<times> string) res" where
  "set_metadata_request name v =
    res_bind (validate_not_blank [(''attributeName'', name)]) (\<lambda>_.
    res_bind (validate_not_none [(''attributeValue'', v)]) (\<lambda>_. Inr (the name, the v)))"

definition set_metadata where
  "set_metadata p m name v s =
    operation id snd (set_metadata_request name v) (\<lambda>q. call_rpc p (m :: (_, unit, _) rpc_method) q s) s"

definition aio_set_metadata where
  "aio_set_metadata m name v s = aio_operation id snd (set_metadata_request name v) (m :: (_, unit, _) rpc_method) s"

definition shutdown where
  "shutdown p m s = operation id snd (Inr ()) (\<lambda>q. call_rpc p (m :: (unit, unit, _) rpc_method) q s) s"

definition aio_shutdown where
  "aio_shutdown m s = aio_operation id snd (Inr ()) (m :: (unit, unit, _) rpc_method) s"

end
