(* ===== verification/ServiceClientProps.thy ===== *)
theory ServiceClientProps
  imports ServiceClient StateClientProps "HOL-Library.Sublist"
begin

text \<open>
  What the publishing, job and lock operations of the clients promise over a sidecar that behaves as documented, with
  retries and with the older names of the methods.
\<close>

section \<open>Publishing in bulk\<close>

text \<open>What a request asks to publish: pubsub, topic, bytes and content type of each entry.\<close>

type_synonym published = "string \<times> string \<times> string \<times> string"

definition entry_event :: "bulk_publish_request \<Rightarrow> publish_entry \<Rightarrow> published" where
  "entry_event q e = (bpq_pubsub q, bpq_topic q, pe_event e, pe_content_type e)"

definition entries_but :: "string list \<Rightarrow> bulk_publish_request \<Rightarrow> published list" where
  "entries_but failed q = map (entry_event q) (filter (\<lambda>e. pe_id e \<notin> set failed) (bpq_entries q))"

text \<open>
  A call appends some of the entries to what was published, in their order; when it returns, all but those it reports
  as failed.
\<close>

definition publishes ::
  "('st \<Rightarrow> published list) \<Rightarrow> (bulk_publish_request, (string \<times> string) list, 'st) rpc_method \<Rightarrow> bool" where
  "publishes view m \<longleftrightarrow> (\<forall>q s. \<exists>new. view (snd (m q s)) = view s @ new \<and> subseq new (entries_but [] q) \<and>
     (\<forall>failed h. fst (m q s) = RpcReturns (failed, h) \<longrightarrow> new = entries_but (map fst failed) q))"

lemma publishes_attempts:
  assumes "publishes view m"
  shows "\<exists>parts. view (after_attempts m q s n) = view s @ concat parts \<and> (\<forall>new \<in> set parts. subseq new (entries_but [] q))"
proof (induction n)
  case 0
  show ?case by (rule exI [of _ "[]"]) (simp add: after_attempts_def)
next
  case (Suc n)
  then obtain parts where parts: "view (after_attempts m q s n) = view s @ concat parts"
    "\<forall>new \<in> set parts. subseq new (entries_but [] q)" by blast
  from assms obtain new where "view (snd (m q (after_attempts m q s n))) = view (after_attempts m q s n) @ new"
    "subseq new (entries_but [] q)" unfolding publishes_def by blast
  with parts show ?case by (intro exI [of _ "parts @ [new]"]) (auto simp: after_attempts_def)
qed

lemma published_parts:
  assumes "publishes view m" and "call_rpc p m q s = Some (r, s')"
  shows "\<exists>parts. view s' = view s @ concat parts \<and> (\<forall>new \<in> set parts. subseq new (entries_but [] q)) \<and>
    (\<forall>a. r = Inr a \<longrightarrow> parts \<noteq> [] \<and> List.last parts = entries_but (map fst (fst a)) q)"
proof (cases r)
  case (Inl e)
  from call_rpc_state [OF assms(2)] publishes_attempts [OF assms(1)] Inl show ?thesis by auto
next
  case (Inr a)
  with assms(2) have "call_rpc p m q s = Some (Inr a, s')" by simp
  then obtain n where n: "fst (m q (after_attempts m q s n)) = RpcReturns a" "s' = snd (m q (after_attempts m q s n))"
    by (rule call_rpc_returns)
  from publishes_attempts [OF assms(1)] obtain parts where parts: "view (after_attempts m q s n) = view s @ concat parts"
    "\<forall>new \<in> set parts. subseq new (entries_but [] q)" by blast
  from assms(1) n obtain new where "view s' = view (after_attempts m q s n) @ new" "subseq new (entries_but [] q)"
    "new = entries_but (map fst (fst a)) q" unfolding publishes_def by (metis prod.collapse)
  with parts Inr show ?thesis by (intro exI [of _ "parts @ [new]"]) auto
qed

lemma call_or_alpha_Some:
  "call_or_alpha p m alpha q s = Some (r, s') \<longleftrightarrow>
    (\<exists>a. call_rpc p m q s = Some (Inr a, s') \<and> r = Inr a) \<or>
    (\<exists>e. call_rpc p m q s = Some (Inl e, s') \<and> e \<noteq> RaisedRpc UNIMPLEMENTED \<and> r = Inl (dapr_grpc_error e)) \<or>
    (\<exists>s1 r0. call_rpc p m q s = Some (Inl (RaisedRpc UNIMPLEMENTED), s1) \<and> call_rpc p alpha q s1 = Some (r0, s') \<and>
      r = map_sum dapr_grpc_error id r0)"
  by (auto simp: call_or_alpha_def fallback_call_def split: option.splits sum.splits)

lemma map_sum_id_Inr: "map_sum f id r = Inr a \<longleftrightarrow> r = Inr a"
  by (cases r) simp_all

lemma published_either:
  assumes "publishes view m" and "publishes view alpha" and "call_or_alpha p m alpha q s = Some (r, s')"
  shows "\<exists>parts. view s' = view s @ concat parts \<and> (\<forall>new \<in> set parts. subseq new (entries_but [] q)) \<and>
    (\<forall>a. r = Inr a \<longrightarrow> parts \<noteq> [] \<and> List.last parts = entries_but (map fst (fst a)) q)"
  using assms(3) unfolding call_or_alpha_Some
proof (elim disjE exE conjE, goal_cases)
  case (1 a)
  from published_parts [OF assms(1) 1(1)] 1(2) show ?case by auto
next
  case (2 e)
  from published_parts [OF assms(1) 2(1)] 2(3) show ?case by auto
next
  case (3 s1 r0)
  from published_parts [OF assms(1) 3(1)] obtain ps where ps: "view s1 = view s @ concat ps"
    "\<forall>new \<in> set ps. subseq new (entries_but [] q)" by blast
  from published_parts [OF assms(2) 3(2)] obtain ps' where "view s' = view s1 @ concat ps'"
    "\<forall>new \<in> set ps'. subseq new (entries_but [] q)"
    "\<forall>a. r0 = Inr a \<longrightarrow> ps' \<noteq> [] \<and> List.last ps' = entries_but (map fst (fst a)) q" by blast
  with ps 3(3) show ?case by (intro exI [of _ "ps @ ps'"]) (auto simp: map_sum_id_Inr)
qed

text \<open>What the application asked to publish.\<close>

definition event_of :: "string \<Rightarrow> string \<Rightarrow> string option \<Rightarrow> pydata \<Rightarrow> published" where
  "event_of pubsub topic ty d = (pubsub, topic, data_bytes d,
     given_or (case d of DText s \<Rightarrow> ''text/plain'' | _ \<Rightarrow> ''application/octet-stream'') ty)"

definition sent_entry :: "(nat \<Rightarrow> string) \<Rightarrow> string option \<Rightarrow> nat \<times> pydata \<Rightarrow> publish_entry" where
  "sent_entry ids ty p = \<lparr>pe_id = ids (fst p), pe_event = data_bytes (snd p),
     pe_content_type = given_or (case snd p of DText s \<Rightarrow> ''text/plain'' | _ \<Rightarrow> ''application/octet-stream'') ty\<rparr>"

lemma entry_of_data: "publish_entry_of ids ty p = Inr e \<longleftrightarrow> is_data (snd p) \<and> e = sent_entry ids ty p"
  by (cases "snd p") (auto simp: publish_entry_of_def is_data_def data_bytes_def sent_entry_def)

lemma entries_of_data:
  "seq_res (map (publish_entry_of ids ty) ps) = Inr es \<Longrightarrow>
   list_all (\<lambda>p. is_data (snd p)) ps \<and> es = map (sent_entry ids ty) ps"
  unfolding seq_res_Inr_iff
  by (induction ps arbitrary: es) (auto simp: Cons_eq_map_conv entry_of_data)

lemma entries_refused:
  "seq_res (map (publish_entry_of ids ty) ps) = Inl e \<Longrightarrow> ex_kind e = ValueError \<and> \<not> list_all (\<lambda>p. is_data (snd p)) ps"
proof (induction ps)
  case (Cons p ps)
  show ?case
  proof (cases "publish_entry_of ids ty p")
    case (Inl e')
    with Cons.prems show ?thesis by (cases "snd p") (auto simp: publish_entry_of_def is_data_def)
  next
    case (Inr x)
    with Cons.prems Cons.IH show ?thesis by (auto simp: res_bind_def split: sum.splits)
  qed
qed simp

lemma enumerated_data: "list_all (\<lambda>p. is_data (snd p)) (enumerate n ds) = list_all is_data ds"
  by (induction ds arbitrary: n) auto

text \<open>The events that the sidecar did not report as failed.\<close>

definition unfailed :: "(nat \<Rightarrow> string) \<Rightarrow> (string \<times> string) list \<Rightarrow> pydata list \<Rightarrow> pydata list" where
  "unfailed ids failed ds = map snd (filter (\<lambda>p. ids (fst p) \<notin> fst ` set failed) (enumerate 0 ds))"

lemma entries_but_sent:
  "bpq_entries q = map (sent_entry ids ty) (enumerate 0 ds) \<Longrightarrow>
   entries_but (map fst failed) q = map (event_of (bpq_pubsub q) (bpq_topic q) ty) (unfailed ids failed ds)"
  by (simp add: entries_but_def unfailed_def filter_map comp_def sent_entry_def entry_event_def event_of_def)

lemma unfailed_none: "unfailed ids [] ds = ds"
  by (simp add: unfailed_def)


text \<open>A sidecar that knows only the older name, and reports no failures.\<close>

definition demo_bulk_publish :: "(bulk_publish_request, (string \<times> string) list, published list) rpc_method" where
  "demo_bulk_publish q s = (RpcReturns ([], []), s @ entries_but [] q)"

definition demo_unimplemented :: "('q, 'r, 'st) rpc_method" where
  "demo_unimplemented q s = (RpcRaises UNIMPLEMENTED, s)"

lemma unimplemented_call: "call_rpc demo_client_policy demo_unimplemented q s = Some (Inl (RaisedRpc UNIMPLEMENTED), s)"
  by (subst call_rpc_final)
    (simp_all add: policy_ok_def demo_client_policy_def mult_value_def demo_unimplemented_def rpc_again_def call_once_def rpc_answer_def)


section \<open>Jobs\<close>

text \<open>A job as it is stored: empty texts and empty data count as absent.\<close>

definition normal_job :: "dapr_job \<Rightarrow> dapr_job" where
  "normal_job j = j\<lparr>jb_schedule := if_given (jb_schedule j), jb_due_time := if_given (jb_due_time j), jb_ttl := if_given (jb_ttl j),
     jb_data := (case jb_data j of None \<Rightarrow> None | Some a \<Rightarrow> if av_value a = [] then None else Some a)\<rparr>"

definition counter_fits :: "int option \<Rightarrow> bool" where
  "counter_fits i = (case i of None \<Rightarrow> True | Some x \<Rightarrow> 0 \<le> x \<and> x < 2 ^ 32)"

definition policy_fits :: "job_failure_policy option \<Rightarrow> bool" where
  "policy_fits pol = (case pol of
     Some (ConstantJob retries interval) \<Rightarrow>
       counter_fits retries \<and> (case interval of None \<Rightarrow> True | Some x \<Rightarrow> -(2 ^ 63) \<le> x \<and> x < 2 ^ 63)
   | _ \<Rightarrow> True)"

definition schedulable :: "dapr_job \<Rightarrow> bool" where
  "schedulable j \<longleftrightarrow> \<not> is_blank (jb_name j) \<and> (if_given (jb_schedule j) \<noteq> None \<or> if_given (jb_due_time j) \<noteq> None) \<and>
     counter_fits (jb_repeats j) \<and> policy_fits (jb_policy j)"

lemma opt_uint32_fits: "(\<exists>w. opt_uint32 i = Inr w) \<longleftrightarrow> counter_fits i"
  by (auto simp: opt_uint32_def uint32_def counter_fits_def split: option.splits)

lemma opt_uint32_value: "opt_uint32 i = Inr w \<Longrightarrow> map_option uint w = i"
  by (auto simp: opt_uint32_def uint32_def take_bit_int_eq_self unsigned_of_int split: option.splits if_splits)

lemma opt_uint32_error: "opt_uint32 i = Inl e \<Longrightarrow> ex_kind e = ValueError \<and> \<not> counter_fits i"
  by (auto simp: opt_uint32_def uint32_def counter_fits_def split: option.splits if_splits)

lemma opt_int64_value: "opt_int64 i = Inr w \<Longrightarrow> map_option sint w = i"
  by (auto simp: opt_int64_def sint_of_int_64 split: option.splits if_splits)

lemma opt_int64_error: "opt_int64 i = Inl e \<Longrightarrow> ex_kind e = ValueError"
  by (auto simp: opt_int64_def split: option.splits if_splits)

lemma policy_proto:
  assumes "pol = Some x"
  shows "(case failure_policy_proto x of Inr w \<Rightarrow> policy_fits pol | Inl e \<Rightarrow> \<not> policy_fits pol \<and> ex_kind e = ValueError)"
  using assms
  by (auto simp: failure_policy_proto_def policy_fits_def res_bind_def opt_int64_def
      dest: opt_uint32_error opt_uint32_fits [THEN iffD1, OF exI]
      split: job_failure_policy.splits sum.splits option.splits if_splits)

lemma policy_of_proto:
  "failure_policy_proto x = Inr w \<Longrightarrow>
   (case w of None \<Rightarrow> DropJob | Some (w, i) \<Rightarrow> ConstantJob (map_option uint w) (map_option sint i)) = x"
  by (auto simp: failure_policy_proto_def res_bind_Inr_iff opt_uint32_value opt_int64_value split: job_failure_policy.splits)

lemma job_proto_back:
  assumes "get_job_proto j = Inr q"
  shows "jp_name q = jb_name j" and "job_of_proto q = normal_job j" and "counter_fits (jb_repeats j)" and "policy_fits (jb_policy j)"
proof -
  from assms obtain reps pol where q: "opt_uint32 (jb_repeats j) = Inr reps"
    "(case jb_policy j of None \<Rightarrow> Inr None | Some pol \<Rightarrow> map_sum id Some (failure_policy_proto pol)) = Inr pol"
    "q = \<lparr>jp_name = jb_name j, jp_schedule = if_given (jb_schedule j), jp_repeats = reps, jp_due_time = if_given (jb_due_time j),
            jp_ttl = if_given (jb_ttl j),
            jp_data = (case jb_data j of None \<Rightarrow> \<lparr>av_type_url = [], av_value = []\<rparr> | Some a \<Rightarrow> a), jp_policy = pol\<rparr>"
    by (auto simp: get_job_proto_def res_bind_Inr_iff)
  have pol: "map_option (\<lambda>pol. case pol of None \<Rightarrow> DropJob | Some (w, i) \<Rightarrow> ConstantJob (map_option uint w) (map_option sint i)) pol
      = jb_policy j \<and> policy_fits (jb_policy j)"
  proof (cases "jb_policy j")
    case None
    with q(2) show ?thesis by (simp add: policy_fits_def)
  next
    case (Some x)
    with q(2) obtain w where w: "failure_policy_proto x = Inr w" "pol = Some w" by (auto simp: map_sum_def split: sum.splits)
    with policy_of_proto [OF w(1)] policy_proto [OF Some] Some
    show ?thesis by simp
  qed
  from pol show "policy_fits (jb_policy j)" ..
  from opt_uint32_fits q(1) show "counter_fits (jb_repeats j)" by blast
  from q(3) show "jp_name q = jb_name j" by simp
  from q(3) conjunct1 [OF pol] opt_uint32_value [OF q(1)] show "job_of_proto q = normal_job j"
    by (simp add: job_of_proto_def normal_job_def split: option.splits)
qed

lemma job_proto_refused:
  assumes "get_job_proto j = Inl e"
  shows "ex_kind e = ValueError \<and> \<not> (counter_fits (jb_repeats j) \<and> policy_fits (jb_policy j))"
proof (cases "opt_uint32 (jb_repeats j)")
  case (Inl e')
  with assms opt_uint32_error [OF Inl] opt_uint32_fits [of "jb_repeats j"] show ?thesis by (auto simp: get_job_proto_def)
next
  case (Inr reps)
  with assms obtain x where "jb_policy j = Some x" "failure_policy_proto x = Inl e"
    by (auto simp: get_job_proto_def res_bind_Inl_iff map_sum_def split: option.splits sum.splits)
  with policy_proto [of "jb_policy j" x] show ?thesis by simp
qed

lemma schedule_request:
  "schedule_job_request j ow = Inr x \<Longrightarrow>
   schedulable j \<and> jp_name (fst x) = jb_name j \<and> job_of_proto (fst x) = normal_job j"
  by (cases "get_job_proto j")
    (auto simp: schedule_job_request_def res_bind_Inr_iff validate_not_blank_iff schedulable_def job_proto_back split: if_splits)

lemma schedule_refused: "schedule_job_request j ow = Inl e \<Longrightarrow> ex_kind e = ValueError \<and> \<not> schedulable j"
  using job_proto_refused [of j]
  by (cases "get_job_proto j")
    (auto simp: schedule_job_request_def res_bind_Inl_iff schedulable_def validate_not_blank_kind split: if_splits)

text \<open>A sidecar that keeps jobs by name.\<close>

type_synonym job_view = "string \<Rightarrow> job_proto option"

definition schedule_effect :: "job_proto \<times> bool \<Rightarrow> job_view \<Rightarrow> job_view" where
  "schedule_effect q v = v(jp_name (fst q) \<mapsto> fst q)"

definition fetches :: "('st \<Rightarrow> job_view) \<Rightarrow> (string, job_proto, 'st) rpc_method \<Rightarrow> bool" where
  "fetches view m \<longleftrightarrow> (\<forall>n s. view (snd (m n s)) = view s \<and> (\<forall>q h. fst (m n s) = RpcReturns (q, h) \<longrightarrow> view s n = Some q))"

lemma written_either:
  assumes "writes view m eff" and "writes view alpha eff" and "\<And>v. eff q (eff q v) = eff q v"
    and "call_or_alpha p m alpha q s = Some (Inr a, s')"
  shows "view s' = eff q (view s)"
  using assms(4) unfolding call_or_alpha_Some
proof (elim disjE exE conjE, goal_cases)
  case (1 b)
  have "view s' = eff q (view s)" by (rule written(2) [OF assms(1) _ 1(1)], rule assms(3), rule refl)
  then show ?case .
next
  case (3 s1 r0)
  from 3(3) have r0: "r0 = Inr a" by (cases r0) simp_all
  have "view s1 = view s \<or> view s1 = eff q (view s)" by (rule written(1) [OF assms(1) _ 3(1)], rule assms(3))
  moreover have "view s' = eff q (view s1)" by (rule written(2) [OF assms(2) _ 3(2) r0], rule assms(3))
  ultimately show ?case using assms(3) [of "view s"] by (elim disjE) simp_all
qed simp

lemma fetch_attempts: "fetches view m \<Longrightarrow> view (after_attempts m n s i) = view s"
  by (induction i) (simp_all add: after_attempts_def fetches_def)

lemma fetched:
  assumes "fetches view m" and "call_rpc p m n s = Some (r, s')"
  shows "view s' = view s" and "r = Inr (q, h) \<Longrightarrow> view s n = Some q"
proof -
  from call_rpc_state [OF assms(2)] fetch_attempts [OF assms(1)] show "view s' = view s" by auto
  assume "r = Inr (q, h)"
  with assms(2) have "call_rpc p m n s = Some (Inr (q, h), s')" by (simp only:)
  then obtain i where "fst (m n (after_attempts m n s i)) = RpcReturns (q, h)" by (rule call_rpc_returns)
  with assms(1) fetch_attempts [OF assms(1), of n s i] show "view s n = Some q" unfolding fetches_def by metis
qed

lemma fetched_either:
  assumes "fetches view m" and "fetches view alpha" and "call_or_alpha p m alpha n s = Some (Inr (q, h), s')"
  shows "view s n = Some q"
  using assms(3) unfolding call_or_alpha_Some
proof (elim disjE exE conjE, goal_cases)
  case (1 a)
  from 1(2) have "Inr a = Inr (q, h)" by simp
  from fetched(2) [OF assms(1) 1(1) this] show ?case .
next
  case (3 s1 r0)
  from 3(3) have "r0 = Inr (q, h)" by (cases r0) simp_all
  from fetched(2) [OF assms(2) 3(2) this] fetched(1) [OF assms(1) 3(1)] show ?case by simp
qed simp

text \<open>
  C39. A job that is scheduled can be read back: over a sidecar that keeps jobs by name, through the methods or their
  older names and with retries, the job that \<open>get_job\<close> gives after \<open>schedule_job\<close> returned is the one scheduled, up to
  empty texts and empty data, which come back as None. A job without a name, without schedule and due time, or with a
  count outside its field is refused with a ValueError and nothing is sent.
\<close>

theorem job_survives:
  assumes "writes view ms schedule_effect" and "writes view ma schedule_effect" and "fetches view mg" and "fetches view mh"
    and "schedule_job p ms ma j ow s = Some (r, s1)" and "get_job p mg mh (jb_name j) s1 = Some (r', s2)"
  shows "(if schedulable j then \<forall>h j'. r = Inr h \<and> r' = Inr j' \<longrightarrow> j' = normal_job j
     else (\<exists>e. r = Inl (Raised e) \<and> ex_kind e = ValueError) \<and> s1 = s)"
proof (cases "schedule_job_request j ow")
  case (Inl e)
  with schedule_refused [OF Inl] assms(5) show ?thesis by (auto simp: schedule_job_def operation_Some)
next
  case (Inr q)
  note req = schedule_request [OF Inr]
  from assms(5) Inr obtain r0 where r0: "call_or_alpha p ms ma q s = Some (r0, s1)" "r = map_sum id snd r0"
    by (auto simp: schedule_job_def operation_Some)
  have "j' = normal_job j" if "r = Inr h" "r' = Inr j'" for h j'
  proof -
    from r0(2) that(1) obtain a where a: "r0 = Inr a" by (cases r0) auto
    have "view s1 = schedule_effect q (view s)"
      by (rule written_either [OF assms(1,2)]) (use r0(1) a in \<open>auto simp: schedule_effect_def\<close>)
    then have stored: "view s1 (jb_name j) = Some (fst q)" using req by (simp add: schedule_effect_def)
    from assms(6) that(2) obtain n r1 where n: "job_name_request (jb_name j) = Inr n" "call_or_alpha p mg mh n s1 = Some (r1, s2)"
      "Inr j' = map_sum id (\<lambda>r. job_of_proto (fst r)) r1" by (auto simp: get_job_def operation_Some)
    from n(3) obtain x h' where x: "r1 = Inr (x, h')" "j' = job_of_proto x" by (cases r1) auto
    from n(1) have "n = jb_name j" by (auto simp: job_name_request_def map_sum_def split: sum.splits)
    with fetched_either [OF assms(3,4)] n(2) x(1) stored have "x = fst q" by fastforce
    with x(2) req show ?thesis by simp
  qed
  with req show ?thesis by auto
qed

text \<open>A sidecar that knows only the older names and keeps the job as it is sent.\<close>

definition demo_schedule :: "(job_proto \<times> bool, unit, job_view) rpc_method" where
  "demo_schedule q s = (RpcReturns ((), []), schedule_effect q s)"

definition demo_fetch :: "(string, job_proto, job_view) rpc_method" where
  "demo_fetch n s = (case s n of None \<Rightarrow> RpcRaises INTERNAL | Some q \<Rightarrow> RpcReturns (q, []), s)"

definition demo_job :: dapr_job where
  "demo_job = \<lparr>jb_name = ''j'', jb_schedule = Some ''@daily'', jb_repeats = Some 3, jb_due_time = Some [], jb_ttl = None,
     jb_data = Some \<lparr>av_type_url = ''t'', av_value = ''d''\<rparr>, jb_policy = Some (ConstantJob (Some 2) (Some 30))\<rparr>"

theorem job_survives_witness:
  "\<exists>q. schedule_job demo_client_policy demo_unimplemented demo_schedule demo_job False (\<lambda>_. None) = Some (Inr [], [''j'' \<mapsto> q]) \<and>
     get_job demo_client_policy demo_unimplemented demo_fetch ''j'' [''j'' \<mapsto> q] =
       Some (Inr (demo_job\<lparr>jb_due_time := None\<rparr>), [''j'' \<mapsto> q])"
proof -
  let ?q = "\<lparr>jp_name = ''j'', jp_schedule = Some ''@daily'', jp_repeats = Some 3, jp_due_time = None, jp_ttl = None,
     jp_data = \<lparr>av_type_url = ''t'', av_value = ''d''\<rparr>, jp_policy = Some (Some (Some 2, Some 30))\<rparr> :: job_proto"
  let ?s = "[''j'' \<mapsto> ?q]"
  have once: "call_rpc demo_client_policy demo_schedule q s = Some (call_once demo_schedule q s)"
    "call_rpc demo_client_policy demo_fetch n ?s = Some (call_once demo_fetch n ?s)" for q s n
    by (rule call_rpc_final;
        simp add: policy_ok_def demo_client_policy_def mult_value_def demo_schedule_def demo_fetch_def rpc_again_def)+
  have schedule: "schedule_job demo_client_policy demo_unimplemented demo_schedule demo_job False (\<lambda>_. None) = Some (Inr [], ?s)"
    by (simp add: schedule_job_def operation_def schedule_job_request_def demo_job_def is_blank_def py_strip_def is_space_def
        if_given_def get_job_proto_def opt_uint32_def uint32_def failure_policy_proto_def opt_int64_def call_or_alpha_def
        fallback_call_def unimplemented_call once call_once_def demo_schedule_def rpc_answer_def schedule_effect_def)
  have get: "get_job demo_client_policy demo_unimplemented demo_fetch (jb_name demo_job) ?s = Some (Inr (job_of_proto ?q), ?s)"
    by (simp add: get_job_def operation_def job_name_request_def demo_job_def is_blank_def py_strip_def is_space_def
        call_or_alpha_def fallback_call_def unimplemented_call once call_once_def demo_fetch_def rpc_answer_def)
  have "writes id demo_unimplemented schedule_effect" "writes id demo_schedule schedule_effect"
    "fetches id demo_unimplemented" "fetches id demo_fetch"
    by (auto simp: writes_def fetches_def demo_unimplemented_def demo_schedule_def demo_fetch_def split: option.splits)
  from job_survives [OF this schedule get]
  have "job_of_proto ?q = normal_job demo_job"
    by (simp add: schedulable_def demo_job_def is_blank_def py_strip_def is_space_def if_given_def counter_fits_def policy_fits_def)
  moreover have "normal_job demo_job = demo_job\<lparr>jb_due_time := None\<rparr>"
    by (simp add: normal_job_def demo_job_def if_given_def)
  ultimately show ?thesis using schedule get by (auto simp: demo_job_def)
qed

text \<open>Data without bytes are lost, even when they have a type.\<close>

lemma empty_job_data_lost:
  "get_job_proto j = Inr q \<Longrightarrow> jb_data j = Some \<lparr>av_type_url = ty, av_value = []\<rparr> \<Longrightarrow> jb_data (job_of_proto q) = None"
  by (simp add: job_proto_back normal_job_def)

section \<open>Locks\<close>

text \<open>Who holds the lock of a store and a resource.\<close>

type_synonym lock_view = "string \<times> string \<Rightarrow> string option"

definition lock_key :: "lock_request \<Rightarrow> string \<times> string" where
  "lock_key q = (lq_store q, lq_resource q)"

text \<open>
  A call that locks takes a free lock or changes nothing; it says which when it returns, and may have done either when
  it fails. \<open>lossless\<close>: a call that fails has done nothing.
\<close>

definition locks :: "('st \<Rightarrow> lock_view) \<Rightarrow> (lock_request, bool, 'st) rpc_method \<Rightarrow> bool" where
  "locks view m \<longleftrightarrow> (\<forall>q s.
     let taken = (view s (lock_key q) = None \<and> view (snd (m q s)) = (view s)(lock_key q \<mapsto> lq_owner q)) in
     (taken \<or> view (snd (m q s)) = view s) \<and>
     (\<forall>h. fst (m q s) = RpcReturns (True, h) \<longrightarrow> taken) \<and>
     (\<forall>h. fst (m q s) = RpcReturns (False, h) \<longrightarrow> view (snd (m q s)) = view s))"

definition lossless :: "('st \<Rightarrow> 'v) \<Rightarrow> ('q, 'r, 'st) rpc_method \<Rightarrow> bool" where
  "lossless view m \<longleftrightarrow> (\<forall>q s. (\<forall>a. fst (m q s) \<noteq> RpcReturns a) \<longrightarrow> view (snd (m q s)) = view s)"

text \<open>A call that unlocks frees the lock if the owner holds it, or changes nothing; it has freed it when it returns.\<close>

definition unlock_effect :: "lock_request \<Rightarrow> lock_view \<Rightarrow> lock_view" where
  "unlock_effect q v = (if v (lock_key q) = Some (lq_owner q) then v(lock_key q := None) else v)"

definition unlocks :: "('st \<Rightarrow> lock_view) \<Rightarrow> (lock_request, unlock_status, 'st) rpc_method \<Rightarrow> bool" where
  "unlocks view m \<longleftrightarrow> writes view m unlock_effect"

lemma lock_step:
  assumes "locks view m"
  shows "view (snd (m q s)) = view s \<or> view s (lock_key q) = None \<and> view (snd (m q s)) = (view s)(lock_key q \<mapsto> lq_owner q)"
    and "fst (m q s) = RpcReturns (True, h) \<Longrightarrow>
      view s (lock_key q) = None \<and> view (snd (m q s)) = (view s)(lock_key q \<mapsto> lq_owner q)"
    and "fst (m q s) = RpcReturns (False, h) \<Longrightarrow> view (snd (m q s)) = view s"
  using assms unfolding locks_def Let_def by blast+

lemma lock_attempts:
  assumes "locks view m"
  shows "view (after_attempts m q s n) = view s \<or>
    view s (lock_key q) = None \<and> view (after_attempts m q s n) = (view s)(lock_key q \<mapsto> lq_owner q)"
proof (induction n)
  case (Suc n)
  have "after_attempts m q s (Suc n) = snd (m q (after_attempts m q s n))" by (simp add: after_attempts_def)
  with lock_step(1) [OF assms, of q "after_attempts m q s n"] Suc show ?case by (elim disjE conjE) auto
qed (simp add: after_attempts_def)

lemma locked:
  assumes "locks view m" and "call_rpc p m q s = Some (r, s')"
  shows "view s' = view s \<or> view s (lock_key q) = None \<and> view s' = (view s)(lock_key q \<mapsto> lq_owner q)"
    and "r = Inr (True, h) \<Longrightarrow> view s (lock_key q) = None \<and> view s' = (view s)(lock_key q \<mapsto> lq_owner q)"
proof -
  from call_rpc_state [OF assms(2)] lock_attempts [OF assms(1)]
  show "view s' = view s \<or> view s (lock_key q) = None \<and> view s' = (view s)(lock_key q \<mapsto> lq_owner q)" by blast
  assume "r = Inr (True, h)"
  with assms(2) have "call_rpc p m q s = Some (Inr (True, h), s')" by (simp only:)
  then obtain n where n: "fst (m q (after_attempts m q s n)) = RpcReturns (True, h)" "s' = snd (m q (after_attempts m q s n))"
    by (rule call_rpc_returns)
  from lock_step(2) [OF assms(1) n(1)] lock_attempts [OF assms(1), of q s n] n(2)
  show "view s (lock_key q) = None \<and> view s' = (view s)(lock_key q \<mapsto> lq_owner q)" by auto
qed

lemma lossless_call:
  assumes "lossless view m" and "call_rpc p m q s = Some (Inr a, s')"
  shows "\<exists>t. view t = view s \<and> fst (m q t) = RpcReturns a \<and> s' = snd (m q t)"
proof -
  let ?f = "\<lambda>n. fst (m q (after_attempts m q s n))"
  from assms(2) obtain ds where ds: "run_rpc p ?f = Some (RpcReturns a, ds)" "s' = after_attempts m q s (Suc (length ds))"
    by (auto simp: call_rpc_def rpc_answer_Inr)
  have "view (after_attempts m q s n) = view s" if "n \<le> length ds" for n
    using that
  proof (induction n)
    case (Suc n)
    with run_rpc_earlier [OF ds(1), of n] have "\<forall>a. ?f n \<noteq> RpcReturns a" by (auto simp: rpc_again_def)
    with assms(1) have "view (snd (m q (after_attempts m q s n))) = view (after_attempts m q s n)" by (simp add: lossless_def)
    with Suc show ?case by (simp add: after_attempts_def)
  qed (simp add: after_attempts_def)
  with run_rpc_returns [OF ds(1)] ds(2) show ?thesis
    by (intro exI [of _ "after_attempts m q s (length ds)"]) (simp add: after_attempts_def)
qed

lemma lossless_locked:
  assumes "locks view m" and "lossless view m" and "call_rpc p m q s = Some (Inr (b, h), s')"
  shows "view s' = (if b then (view s)(lock_key q \<mapsto> lq_owner q) else view s)"
proof -
  from lossless_call [OF assms(2,3)] obtain t where t: "view t = view s" "fst (m q t) = RpcReturns (b, h)" "s' = snd (m q t)" by blast
  with lock_step(2,3) [OF assms(1), of q t h] show ?thesis by (cases b) simp_all
qed

lemma lossless_failed:
  assumes "policy_ok p" and "lossless view m" and "call_rpc p m q s = Some (Inl e, s')"
  shows "view s' = view s"
proof -
  let ?f = "\<lambda>n. fst (m q (after_attempts m q s n))"
  from assms(3) obtain out ds where ds: "run_rpc p ?f = Some (out, ds)" "rpc_answer out = Inl e"
    "s' = after_attempts m q s (Suc (length ds))" by (auto simp: call_rpc_def)
  have "\<forall>a. ?f n \<noteq> RpcReturns a" if "n \<le> length ds" for n
  proof (cases "n = length ds")
    case True
    with run_rpc_last [OF assms(1) ds(1)] ds(2) show ?thesis by (auto simp: rpc_answer_def)
  next
    case False
    with that run_rpc_earlier [OF ds(1), of n] show ?thesis by (auto simp: rpc_again_def)
  qed
  then have step: "view (after_attempts m q s (Suc n)) = view (after_attempts m q s n)" if "n \<le> length ds" for n
    using assms(2) that by (simp add: lossless_def after_attempts_def)
  have "view (after_attempts m q s n) = view s" if "n \<le> Suc (length ds)" for n
    using that by (induction n) (simp_all add: step, simp add: after_attempts_def)
  with ds(3) show ?thesis by simp
qed

lemma unlocked:
  assumes "unlocks view m" and "call_rpc p m q s = Some (r, s')"
  shows "view s' = view s \<or> view s' = unlock_effect q (view s)" and "r = Inr a \<Longrightarrow> view s' = unlock_effect q (view s)"
proof -
  have twice: "unlock_effect q (unlock_effect q v) = unlock_effect q v" for v by (simp add: unlock_effect_def)
  have w: "writes view m unlock_effect" using assms(1) by (simp add: unlocks_def)
  show "view s' = view s \<or> view s' = unlock_effect q (view s)" by (rule written(1) [OF w _ assms(2)], rule twice)
  assume "r = Inr a"
  show "view s' = unlock_effect q (view s)" by (rule written(2) [OF w _ assms(2) \<open>r = Inr a\<close>], rule twice)
qed

lemma try_lock_Some:
  "try_lock p m store resource owner expiry s = Some (r, s') \<Longrightarrow>
   (\<exists>e. r = Inl (Raised e) \<and> s' = s) \<or>
   (\<exists>q r0. lock_key q = (store, resource) \<and> lq_owner q = owner \<and> call_rpc p m q s = Some (r0, s') \<and>
     r = map_sum id (to_lock_response store resource owner) r0 \<and> unlock_request store resource owner = Inr (q\<lparr>lq_expiry := 0\<rparr>))"
  by (auto simp: try_lock_def operation_Some try_lock_request_def unlock_request_def res_bind_Inr_iff lock_key_def split: if_splits)

lemma lock_failed:
  assumes "locks view m" and "try_lock p m store resource owner expiry s = Some (Inl e, s')"
  shows "view s' = view s \<or> view s (store, resource) = None \<and> view s' = (view s)((store, resource) \<mapsto> owner)"
    and "policy_ok p \<Longrightarrow> lossless view m \<Longrightarrow> view s' = view s"
proof -
  note cases = try_lock_Some [OF assms(2)]
  from cases locked(1) [OF assms(1)]
  show "view s' = view s \<or> view s (store, resource) = None \<and> view s' = (view s)((store, resource) \<mapsto> owner)" by metis
  assume ok: "policy_ok p" "lossless view m"
  from cases show "view s' = view s"
  proof (elim disjE exE conjE, goal_cases)
    case (2 q r0)
    then obtain e' where "r0 = Inl e'" by (cases r0) auto
    with lossless_failed [OF ok] 2(3) show ?case by metis
  qed simp
qed

lemma lock_taken:
  assumes "locks view m" and "try_lock p m store resource owner expiry s = Some (Inr lk, s')"
  shows "lr_store lk = store \<and> lr_resource lk = resource \<and> lr_owner lk = owner \<and>
      (\<exists>q. unlock_request store resource owner = Inr q \<and> lock_key q = (store, resource) \<and> lq_owner q = owner)"
    and "view s' = view s \<or> view s (store, resource) = None \<and> view s' = (view s)((store, resource) \<mapsto> owner)"
    and "lr_success lk \<Longrightarrow> view s (store, resource) = None \<and> view s' = (view s)((store, resource) \<mapsto> owner)"
    and "lossless view m \<Longrightarrow> \<not> lr_success lk \<Longrightarrow> view s' = view s"
proof -
  from try_lock_Some [OF assms(2)] obtain q r0 where q: "lock_key q = (store, resource)" "lq_owner q = owner"
    "call_rpc p m q s = Some (r0, s')" "Inr lk = map_sum id (to_lock_response store resource owner) r0"
    "unlock_request store resource owner = Inr (q\<lparr>lq_expiry := 0\<rparr>)" by auto
  from q(4) obtain b h where r0: "r0 = Inr (b, h)" "lk = to_lock_response store resource owner (b, h)" by (cases r0) auto
  show "lr_store lk = store \<and> lr_resource lk = resource \<and> lr_owner lk = owner \<and>
      (\<exists>q. unlock_request store resource owner = Inr q \<and> lock_key q = (store, resource) \<and> lq_owner q = owner)"
    using r0(2) q(1,2,5) by (auto simp: to_lock_response_def lock_key_def)
  show "view s' = view s \<or> view s (store, resource) = None \<and> view s' = (view s)((store, resource) \<mapsto> owner)"
    using locked(1) [OF assms(1) q(3)] q(1,2) by simp
  have success: "lr_success lk = b" using r0(2) by (simp add: to_lock_response_def)
  show "view s (store, resource) = None \<and> view s' = (view s)((store, resource) \<mapsto> owner)" if "lr_success lk"
    using locked(2) [OF assms(1) q(3), of h] q(1,2) r0(1) success that by simp
  show "view s' = view s" if "lossless view m" "\<not> lr_success lk"
    using lossless_locked [OF assms(1) that(1), of p q s b h s'] q(3) r0(1) success that(2) by simp
qed

lemma exit_released:
  assumes "unlocks view m" and "lock_exit p m lk s = Some (u, s')" and "lr_success lk"
    and "unlock_request (lr_store lk) (lr_resource lk) (lr_owner lk) = Inr q"
  shows "view s' = view s \<or> view s' = unlock_effect q (view s)" and "u = Inr x \<Longrightarrow> view s' = unlock_effect q (view s)"
    and "policy_ok p \<Longrightarrow> \<forall>q t. \<exists>a. fst (m q t) = RpcReturns a \<Longrightarrow> u = Inr ()"
proof -
  from assms(2-4) obtain r0 where r0: "call_rpc p m q s = Some (r0, s')" "u = map_sum id (\<lambda>_. ()) (map_sum id id r0)"
    by (auto simp: lock_exit_def unlock_def operation_def)
  show "view s' = view s \<or> view s' = unlock_effect q (view s)" by (rule unlocked(1) [OF assms(1) r0(1)])
  show "view s' = unlock_effect q (view s)" if "u = Inr x"
    using unlocked(2) [OF assms(1) r0(1)] r0(2) that by (cases r0) auto
  assume ok: "policy_ok p" "\<forall>q t. \<exists>a. fst (m q t) = RpcReturns a"
  from ok(2) obtain a where a: "fst (m q s) = RpcReturns a" by blast
  with call_rpc_final [OF ok(1), of m q s] r0(1) have "call_once m q s = (r0, s')" by (simp add: rpc_again_def)
  with a r0(2) show "u = Inr ()" by (cases "m q s") (auto simp: call_once_def rpc_answer_def)
qed

lemma with_lock_cases:
  assumes "with_lock p ml mu store resource owner expiry body s = Some (r, s')"
  obtains e where "try_lock p ml store resource owner expiry s = Some (Inl e, s')" and "r = Inl e"
  | lk s1 u where "try_lock p ml store resource owner expiry s = Some (Inr lk, s1)"
      and "lock_exit p mu lk (snd (body lk s1)) = Some (u, s')" and "r = (case u of Inl e \<Rightarrow> Inl e | Inr y \<Rightarrow> fst (body lk s1))"
  using assms by (auto simp: with_lock_def split: option.splits sum.splits prod.splits)

lemma released:
  "v k = None \<Longrightarrow> lock_key q = k \<Longrightarrow> lq_owner q = owner \<Longrightarrow> unlock_effect q (v(k \<mapsto> owner)) = v"
  by (auto simp: unlock_effect_def)


text \<open>A sidecar that locks and unlocks, and one whose first answer to a lock is lost.\<close>

definition demo_lock :: "(lock_request, bool, lock_view) rpc_method" where
  "demo_lock q s = (if s (lock_key q) = None then (RpcReturns (True, []), s(lock_key q \<mapsto> lq_owner q))
     else (RpcReturns (False, []), s))"

definition demo_unlock :: "(lock_request, unlock_status, lock_view) rpc_method" where
  "demo_unlock q s = (RpcReturns (if s (lock_key q) = Some (lq_owner q) then UnlockSuccess else LockDoesNotExist, []), unlock_effect q s)"


definition demo_lossy_lock :: "(lock_request, bool, lock_view \<times> nat) rpc_method" where
  "demo_lossy_lock q s = (case demo_lock q (fst s) of (out, v) \<Rightarrow> (if snd s = 0 then RpcRaises UNAVAILABLE else out, v, Suc (snd s)))"

text \<open>
  Locking is retried like any other call, but is not the same twice as once. If the first answer is lost, the second
  attempt finds the lock taken: the body is told that it has no lock, and the lock stays until it expires.
\<close>

lemma retried_lock_leaks:
  "locks fst demo_lossy_lock"
  "\<exists>s'. with_lock demo_client_policy demo_lossy_lock munlock ''st'' ''r'' ''me'' 5 (\<lambda>lk t. (Inr (lr_success lk), t)) (\<lambda>_. None, 0) =
     Some (Inr False, s') \<and> fst s' (''st'', ''r'') = Some ''me''"
proof -
  show "locks fst demo_lossy_lock"
    by (auto simp: locks_def demo_lossy_lock_def demo_lock_def split: prod.splits if_splits)
  let ?q = "\<lparr>lq_store = ''st'', lq_resource = ''r'', lq_owner = ''me'', lq_expiry = 5\<rparr>"
  have "run_rpc demo_client_policy (\<lambda>n. fst (demo_lossy_lock ?q (after_attempts demo_lossy_lock ?q (\<lambda>_. None, 0) n))) =
      Some (RpcReturns (False, []), [1])"
    by (simp add: run_rpc_def demo_client_policy_def demo_lossy_lock_def demo_lock_def after_attempts_def retry_loop.simps
        rpc_again_def sleep_time_def backoff_error_def backoff_seconds_def mult_value_def lock_key_def)
  then have "call_rpc demo_client_policy demo_lossy_lock ?q (\<lambda>_. None, 0) =
      Some (Inr (False, []), [(''st'', ''r'') \<mapsto> ''me''], 2)"
    by (simp add: call_rpc_def rpc_answer_def after_attempts_def demo_lossy_lock_def demo_lock_def lock_key_def eval_nat_numeral)
  then show "\<exists>s'. with_lock demo_client_policy demo_lossy_lock munlock ''st'' ''r'' ''me'' 5 (\<lambda>lk t. (Inr (lr_success lk), t)) (\<lambda>_. None, 0) =
     Some (Inr False, s') \<and> fst s' (''st'', ''r'') = Some ''me''"
    by (simp add: with_lock_def try_lock_def operation_def try_lock_request_def is_blank_def py_strip_def is_space_def
        to_lock_response_def lock_exit_def)
qed

end
