(* ===== verification/CryptoStream.thy ===== *)
theory CryptoStream
  imports ClientHelpers
begin

text \<open>
  Encryption and decryption over streams: the requests of \<open>EncryptRequestIterator\<close> and \<open>DecryptRequestIterator\<close>
  (\<open>clients/grpc/_request.py\<close>), and the reader of the answers, \<open>CryptoResponse\<close> of \<open>clients/grpc/_response.py\<close>. Data are
  bytes, one \<open>char\<close> each. The asynchronous twins run the same code.
\<close>

section \<open>Requests\<close>

record encrypt_options =
  eo_component :: string
  eo_key_name :: string
  eo_key_wrap :: string
  eo_cipher :: string
  eo_omit_key_name :: bool
  eo_decryption_key_name :: string

record decrypt_options =
  do_component :: string
  do_key_name :: string

record 'o crypto_request =
  cq_seq :: nat
  cq_data :: string
  cq_options :: "'o option"

record 'o request_iterator =
  it_data :: string
  it_options :: 'o
  it_seq :: nat

definition buffer_size :: nat where
  "buffer_size = 2048"

definition new_request_iterator :: "string \<Rightarrow> 'o \<Rightarrow> 'o request_iterator" where
  "new_request_iterator d opts = \<lparr>it_data = d, it_options = opts, it_seq = 0\<rparr>"

text \<open>\<open>__next__\<close>; None is StopIteration.\<close>

definition next_request :: "'o request_iterator \<Rightarrow> ('o crypto_request \<times> 'o request_iterator) option" where
  "next_request it =
    (let chunk = take buffer_size (it_data it) in
     if chunk = [] then None
     else Some (\<lparr>cq_seq = it_seq it, cq_data = chunk, cq_options = (if it_seq it = 0 then Some (it_options it) else None)\<rparr>,
                it\<lparr>it_data := drop buffer_size (it_data it), it_seq := Suc (it_seq it)\<rparr>))"

text \<open>The requests that gRPC takes from the iterator.\<close>

function request_stream :: "'o request_iterator \<Rightarrow> 'o crypto_request list" where
  "request_stream it = (case next_request it of None \<Rightarrow> [] | Some (q, it') \<Rightarrow> q # request_stream it')"
  by pat_completeness auto

termination
  by (relation "measure (\<lambda>it. length (it_data it))") (auto simp: next_request_def Let_def buffer_size_def split: if_splits)

declare request_stream.simps [simp del]

section \<open>Responses\<close>

datatype crypto_item = Chunk nat string | StreamBroken grpc_code

datatype crypto_error = InvalidSequence | StreamError grpc_code

record crypto_response =
  cs_stream :: "crypto_item list"
  cs_buffer :: string
  cs_expected :: nat

definition new_crypto_response :: "crypto_item list \<Rightarrow> crypto_response" where
  "new_crypto_response items = \<lparr>cs_stream = items, cs_buffer = [], cs_expected = 0\<rparr>"

text \<open>A step of \<open>__iter__\<close>; None is the end of the stream. A broken stream stays broken.\<close>

definition next_chunk :: "crypto_response \<Rightarrow> (crypto_error + string option) \<times> crypto_response" where
  "next_chunk r = (case cs_stream r of
     [] \<Rightarrow> (Inr None, r)
   | StreamBroken c # xs \<Rightarrow> (Inl (StreamError c), r)
   | Chunk n d # xs \<Rightarrow>
       if n \<noteq> cs_expected r then (Inl InvalidSequence, r\<lparr>cs_stream := xs\<rparr>)
       else (Inr (Some d), r\<lparr>cs_stream := xs, cs_expected := Suc (cs_expected r)\<rparr>))"

text \<open>\<open>b''.join(self)\<close>, and the loop of \<open>read\<close>, which takes chunks until \<open>size\<close> bytes are there.\<close>

function join_chunks :: "crypto_response \<Rightarrow> (crypto_error + string) \<times> crypto_response" where
  "join_chunks r = (case next_chunk r of
     (Inl e, r') \<Rightarrow> (Inl e, r')
   | (Inr None, r') \<Rightarrow> (Inr [], r')
   | (Inr (Some d), r') \<Rightarrow> map_prod (map_sum id (append d)) id (join_chunks r'))"
  by pat_completeness auto

termination
  by (relation "measure (\<lambda>r. length (cs_stream r))")
    (auto simp: next_chunk_def split: list.splits crypto_item.splits if_splits)

function gather_chunks :: "int \<Rightarrow> string \<Rightarrow> crypto_response \<Rightarrow> (crypto_error + string) \<times> crypto_response" where
  "gather_chunks sz acc r = (case next_chunk r of
     (Inl e, r') \<Rightarrow> (Inl e, r')
   | (Inr None, r') \<Rightarrow> (Inr acc, r')
   | (Inr (Some d), r') \<Rightarrow>
       if sz \<le> int (length (acc @ d)) then (Inr (acc @ d), r') else gather_chunks sz (acc @ d) r')"
  by pat_completeness auto

termination
  by (relation "measure (\<lambda>(sz, acc, r). length (cs_stream r))")
    (auto simp: next_chunk_def split: list.splits crypto_item.splits if_splits)

declare join_chunks.simps [simp del] gather_chunks.simps [simp del]

text \<open>The slices \<open>data[:size]\<close> and \<open>data[size:]\<close>; a negative size counts from the end.\<close>

definition slice_at :: "int \<Rightarrow> string \<Rightarrow> nat" where
  "slice_at sz d = (if 0 \<le> sz then nat sz else length d - nat (- sz))"

definition read_crypto :: "int \<Rightarrow> crypto_response \<Rightarrow> (crypto_error + string) \<times> crypto_response" where
  "read_crypto sz r =
    (if sz = -1 then join_chunks r
     else case gather_chunks sz (cs_buffer r) (r\<lparr>cs_buffer := []\<rparr>) of
       (Inl e, r') \<Rightarrow> (Inl e, r')
     | (Inr d, r') \<Rightarrow> (Inr (take (slice_at sz d) d), r'\<lparr>cs_buffer := cs_buffer r' @ drop (slice_at sz d) d\<rparr>))"

section \<open>The requests carry the data\<close>

text \<open>Chunks numbered from \<open>n\<close> on, and the data they carry.\<close>

fun numbered :: "nat \<Rightarrow> crypto_item list \<Rightarrow> bool" where
  "numbered n [] = True"
| "numbered n (Chunk m d # xs) = (m = n \<and> numbered (Suc n) xs)"
| "numbered n (StreamBroken c # xs) = False"

fun chunk_data :: "crypto_item \<Rightarrow> string" where
  "chunk_data (Chunk m d) = d"
| "chunk_data (StreamBroken c) = []"

definition stream_data :: "crypto_item list \<Rightarrow> string" where
  "stream_data xs = concat (map chunk_data xs)"

lemma stream_data_simps [simp]:
  "stream_data [] = []"
  "stream_data (x # xs) = chunk_data x @ stream_data xs"
  by (simp_all add: stream_data_def)

lemma request_stream_spec:
  "map cq_seq (request_stream it) = [it_seq it ..< it_seq it + length (request_stream it)] \<and>
   concat (map cq_data (request_stream it)) = it_data it \<and>
   (\<forall>q \<in> set (request_stream it). cq_data q \<noteq> [] \<and> length (cq_data q) \<le> buffer_size \<and>
      cq_options q = (if cq_seq q = 0 then Some (it_options it) else None))"
proof (induction it rule: request_stream.induct)
  case (1 it)
  show ?case
  proof (cases "it_data it = []")
    case True
    then show ?thesis by (subst (1 2 3 4) request_stream.simps) (simp add: next_request_def)
  next
    case False
    let ?it = "it\<lparr>it_data := drop buffer_size (it_data it), it_seq := Suc (it_seq it)\<rparr>"
    let ?q = "\<lparr>cq_seq = it_seq it, cq_data = take buffer_size (it_data it),
      cq_options = (if it_seq it = 0 then Some (it_options it) else None)\<rparr>"
    from False have nx: "next_request it = Some (?q, ?it)"
      by (simp add: next_request_def Let_def buffer_size_def)
    then have rs: "request_stream it = ?q # request_stream ?it"
      by (subst request_stream.simps) simp
    from 1 [OF nx] False show ?thesis
      unfolding rs by (simp add: upt_conv_Cons buffer_size_def del: upt_Suc)
  qed
qed

text \<open>
  What a component gets: nothing for empty data, and otherwise the options with the first chunk and all the data in
  order, in chunks that are numbered from 0, not empty and at most 2 KiB long.
\<close>

lemma requests_carry_data:
  assumes "reqs = request_stream (new_request_iterator d opts)"
  shows "map cq_seq reqs = [0 ..< length reqs]" and "concat (map cq_data reqs) = d"
    and "\<forall>q \<in> set reqs. cq_data q \<noteq> [] \<and> length (cq_data q) \<le> 2048"
    and "map cq_options reqs = (if d = [] then [] else Some opts # replicate (length reqs - 1) None)"
proof -
  note spec = request_stream_spec [of "new_request_iterator d opts", folded assms, unfolded new_request_iterator_def, simplified]
  from spec show "map cq_seq reqs = [0 ..< length reqs]" "concat (map cq_data reqs) = d"
    and "\<forall>q \<in> set reqs. cq_data q \<noteq> [] \<and> length (cq_data q) \<le> 2048"
    by (auto simp: buffer_size_def)
  have opt: "cq_options (reqs ! i) = (if i = 0 then Some opts else None)" if "i < length reqs" for i
  proof -
    have "cq_seq (reqs ! i) = map cq_seq reqs ! i" using that by simp
    also have "\<dots> = i" using spec that by simp
    finally show ?thesis using spec that by simp
  qed
  show "map cq_options reqs = (if d = [] then [] else Some opts # replicate (length reqs - 1) None)"
  proof (cases "d = []")
    case True
    with spec have "reqs = []" by (cases reqs) auto
    with True show ?thesis by simp
  next
    case False
    with spec have "reqs \<noteq> []" by auto
    then show ?thesis using False opt
      by (intro nth_equalityI) (auto simp: nth_Cons' neq_Nil_conv)
  qed
qed

section \<open>Reading\<close>

text \<open>What a reader has still to give: its buffer and the data of the chunks to come.\<close>

definition remaining_data :: "crypto_response \<Rightarrow> string" where
  "remaining_data r = cs_buffer r @ stream_data (cs_stream r)"

definition sound_stream :: "crypto_response \<Rightarrow> bool" where
  "sound_stream r \<longleftrightarrow> numbered (cs_expected r) (cs_stream r)"

lemma next_chunk_sound:
  assumes "sound_stream r"
  shows "(cs_stream r = [] \<and> next_chunk r = (Inr None, r)) \<or>
    (\<exists>d r'. next_chunk r = (Inr (Some d), r') \<and> sound_stream r' \<and> cs_buffer r' = cs_buffer r \<and>
      stream_data (cs_stream r) = d @ stream_data (cs_stream r'))"
proof (cases "cs_stream r")
  case (Cons x xs)
  with assms show ?thesis by (cases x) (auto simp: next_chunk_def sound_stream_def)
qed (simp add: next_chunk_def)

lemma join_chunks_sound:
  assumes "sound_stream r"
  shows "\<exists>r'. join_chunks r = (Inr (stream_data (cs_stream r)), r') \<and> sound_stream r' \<and> cs_stream r' = [] \<and> cs_buffer r' = cs_buffer r"
  using assms
proof (induction r rule: join_chunks.induct)
  case (1 r)
  from next_chunk_sound [OF "1.prems"] show ?case
  proof
    assume "cs_stream r = [] \<and> next_chunk r = (Inr None, r)"
    with "1.prems" show ?thesis by (subst join_chunks.simps) simp
  next
    assume "\<exists>d r'. next_chunk r = (Inr (Some d), r') \<and> sound_stream r' \<and> cs_buffer r' = cs_buffer r \<and>
      stream_data (cs_stream r) = d @ stream_data (cs_stream r')"
    then obtain d r' where n: "next_chunk r = (Inr (Some d), r')" "sound_stream r'" "cs_buffer r' = cs_buffer r"
      "stream_data (cs_stream r) = d @ stream_data (cs_stream r')" by blast
    from "1.IH" [OF n(1) [symmetric] refl refl n(2)] n show ?thesis by (subst join_chunks.simps) auto
  qed
qed

lemma gather_chunks_sound:
  assumes "sound_stream r" and "0 \<le> sz"
  shows "\<exists>d r'. gather_chunks sz acc r = (Inr (acc @ d), r') \<and> sound_stream r' \<and> cs_buffer r' = cs_buffer r \<and>
    stream_data (cs_stream r) = d @ stream_data (cs_stream r') \<and> (cs_stream r' = [] \<or> sz \<le> int (length (acc @ d)))"
  using assms(1)
proof (induction sz acc r rule: gather_chunks.induct)
  case (1 sz acc r)
  from next_chunk_sound [OF "1.prems"] show ?case
  proof
    assume "cs_stream r = [] \<and> next_chunk r = (Inr None, r)"
    with "1.prems" show ?thesis by (subst gather_chunks.simps) simp
  next
    assume "\<exists>d r'. next_chunk r = (Inr (Some d), r') \<and> sound_stream r' \<and> cs_buffer r' = cs_buffer r \<and>
      stream_data (cs_stream r) = d @ stream_data (cs_stream r')"
    then obtain d r' where n: "next_chunk r = (Inr (Some d), r')" "sound_stream r'" "cs_buffer r' = cs_buffer r"
      "stream_data (cs_stream r) = d @ stream_data (cs_stream r')" by blast
    show ?thesis
    proof (cases "sz \<le> int (length (acc @ d))")
      case True
      with n show ?thesis by (subst gather_chunks.simps) auto
    next
      case False
      from "1.IH" [OF n(1) [symmetric] refl refl False n(2)] n False show ?thesis by (subst gather_chunks.simps) auto
    qed
  qed
qed

lemma read_refines:
  assumes "sound_stream r" and "0 \<le> sz"
  shows "\<exists>r'. read_crypto sz r = (Inr (take (nat sz) (remaining_data r)), r') \<and> sound_stream r' \<and>
    remaining_data r' = drop (nat sz) (remaining_data r)"
proof -
  have s: "sound_stream (r\<lparr>cs_buffer := []\<rparr>)" using assms(1) by (simp add: sound_stream_def)
  from gather_chunks_sound [OF s assms(2), of "cs_buffer r"] obtain d r' where
    g: "gather_chunks sz (cs_buffer r) (r\<lparr>cs_buffer := []\<rparr>) = (Inr (cs_buffer r @ d), r')" "sound_stream r'"
      "cs_buffer r' = []" "stream_data (cs_stream r) = d @ stream_data (cs_stream r')"
      "cs_stream r' = [] \<or> sz \<le> int (length (cs_buffer r @ d))"
    by auto
  have "sz \<noteq> -1" using assms(2) by simp
  moreover have "nat sz \<le> length (cs_buffer r @ d) \<or> stream_data (cs_stream r') = []" using g(5) assms(2) by auto
  ultimately show ?thesis using g assms(2)
    by (auto simp: read_crypto_def slice_at_def sound_stream_def remaining_data_def)
qed

fun read_sizes :: "int list \<Rightarrow> crypto_response \<Rightarrow> (crypto_error + string) list \<times> crypto_response" where
  "read_sizes [] r = ([], r)"
| "read_sizes (n # ns) r = (case read_crypto n r of (x, r') \<Rightarrow> map_prod (Cons x) id (read_sizes ns r'))"

text \<open>The pieces of a text of the given sizes, the last ones short or empty.\<close>

fun pieces :: "int list \<Rightarrow> string \<Rightarrow> string list" where
  "pieces [] d = []"
| "pieces (n # ns) d = take (nat n) d # pieces ns (drop (nat n) d)"

lemma read_sizes_refines:
  assumes "sound_stream r" and "\<forall>n \<in> set ns. 0 \<le> n"
  shows "\<exists>r'. read_sizes ns r = (map Inr (pieces ns (remaining_data r)), r') \<and> sound_stream r' \<and>
    remaining_data r' = drop (nat (sum_list ns)) (remaining_data r)"
  using assms
proof (induction ns arbitrary: r)
  case (Cons n ns)
  then have "0 \<le> n" "0 \<le> sum_list ns" by (auto intro: sum_list_nonneg)
  with read_refines [OF Cons.prems(1), of n] obtain r1 where
    r1: "read_crypto n r = (Inr (take (nat n) (remaining_data r)), r1)" "sound_stream r1"
      "remaining_data r1 = drop (nat n) (remaining_data r)" by blast
  from Cons.IH [OF r1(2)] Cons.prems(2) obtain r' where
    "read_sizes ns r1 = (map Inr (pieces ns (remaining_data r1)), r')" "sound_stream r'"
    "remaining_data r' = drop (nat (sum_list ns)) (remaining_data r1)" by auto
  with r1 \<open>0 \<le> n\<close> \<open>0 \<le> sum_list ns\<close> show ?case by (simp add: nat_add_distrib add.commute)
qed simp

lemma concat_pieces: "\<forall>n \<in> set ns. 0 \<le> n \<Longrightarrow> concat (pieces ns d) = take (nat (sum_list ns)) d"
proof (induction ns arbitrary: d)
  case (Cons n ns)
  then have "0 \<le> n" "0 \<le> sum_list ns" by (auto intro: sum_list_nonneg)
  with Cons show ?case by (simp add: nat_add_distrib take_add)
qed simp

lemma join_chunks_error:
  "fst (join_chunks r) = Inr d \<Longrightarrow> sound_stream r"
proof (induction r arbitrary: d rule: join_chunks.induct)
  case (1 r)
  show ?case
  proof (cases "cs_stream r")
    case Nil
    then show ?thesis by (simp add: sound_stream_def)
  next
    case (Cons x xs)
    show ?thesis
    proof (cases x)
      case (StreamBroken c)
      with Cons "1.prems" show ?thesis by (subst (asm) join_chunks.simps) (simp add: next_chunk_def)
    next
      case (Chunk n b)
      let ?r = "r\<lparr>cs_stream := xs, cs_expected := Suc (cs_expected r)\<rparr>"
      show ?thesis
      proof (cases "n = cs_expected r")
        case True
        with Cons Chunk have nx: "next_chunk r = (Inr (Some b), ?r)" by (simp add: next_chunk_def)
        with "1.prems" obtain d' where "fst (join_chunks ?r) = Inr d'"
          by (subst (asm) join_chunks.simps) (cases "fst (join_chunks ?r)", auto)
        from "1.IH" [OF nx [symmetric] refl refl this] True Cons Chunk show ?thesis by (simp add: sound_stream_def)
      next
        case False
        with Cons Chunk "1.prems" show ?thesis by (subst (asm) join_chunks.simps) (simp add: next_chunk_def)
      qed
    qed
  qed
qed

text \<open>
  Reading a stream of answers gives its data and nothing else. Read as a whole, it gives the data of its chunks if
  they are numbered from 0 and none is broken off, and raises otherwise. Read in pieces of any sizes, whatever the
  sizes of the chunks, a sound stream gives its data in order, each piece as long as asked for until the
  data end.
\<close>

theorem crypto_reads_data:
  assumes "\<forall>n \<in> set ns. 0 \<le> n"
  shows "(fst (read_crypto (-1) (new_crypto_response items)) = Inr d \<longleftrightarrow> numbered 0 items \<and> d = stream_data items) \<and>
    (numbered 0 items \<longrightarrow> fst (read_sizes ns (new_crypto_response items)) = map Inr (pieces ns (stream_data items)) \<and>
       concat (pieces ns (stream_data items)) = take (nat (sum_list ns)) (stream_data items))"
proof -
  let ?r = "new_crypto_response items"
  have r: "sound_stream ?r \<longleftrightarrow> numbered 0 items" "cs_stream ?r = items" "remaining_data ?r = stream_data items"
    by (simp_all add: new_crypto_response_def sound_stream_def remaining_data_def)
  have "fst (join_chunks ?r) = Inr d \<longleftrightarrow> numbered 0 items \<and> d = stream_data items"
    using join_chunks_error [of ?r d] join_chunks_sound [of ?r] r by auto
  moreover have "fst (read_sizes ns ?r) = map Inr (pieces ns (stream_data items))" if "numbered 0 items"
    using read_sizes_refines [of ?r ns] assms that r by auto
  ultimately show ?thesis using concat_pieces [OF assms] by (simp add: read_crypto_def)
qed

theorem crypto_reads_data_witness:
  "fst (read_sizes [2, 3] (new_crypto_response [Chunk 0 ''abc'', Chunk 1 ''de''])) = [Inr ''ab'', Inr ''cde'']"
  using crypto_reads_data [of "[2, 3]" "[Chunk 0 ''abc'', Chunk 1 ''de'']" "[]"] by (simp add: eval_nat_numeral)

text \<open>
  A reader that asks for the rest after it has read a piece misses what is buffered: the rest comes without it, and the
  buffer comes later, out of its order.
\<close>

lemma rest_misses_buffer:
  assumes "sound_stream r"
  shows "\<exists>r'. read_crypto (-1) r = (Inr (stream_data (cs_stream r)), r') \<and> remaining_data r' = cs_buffer r"
  using join_chunks_sound [OF assms] by (auto simp: read_crypto_def remaining_data_def)

section \<open>Encryption and decryption\<close>

text \<open>\<open>encrypt\<close> and \<open>decrypt\<close> of the client. The component answers the requests that it gets with a stream.\<close>

definition encrypt ::
  "(encrypt_options crypto_request list \<Rightarrow> crypto_item list) \<Rightarrow> pydata \<Rightarrow> encrypt_options \<Rightarrow> crypto_response res" where
  "encrypt component d opts =
    res_bind (validate_not_blank [(''component_name'', Some (eo_component opts)), (''key_name'', Some (eo_key_name opts)),
        (''key_wrap_algorithm'', Some (eo_key_wrap opts))]) (\<lambda>_.
    res_bind (to_bytes d) (\<lambda>b. Inr (new_crypto_response (component (request_stream (new_request_iterator b opts))))))"

definition decrypt ::
  "(decrypt_options crypto_request list \<Rightarrow> crypto_item list) \<Rightarrow> pydata \<Rightarrow> decrypt_options \<Rightarrow> crypto_response res" where
  "decrypt component d opts =
    res_bind (validate_not_blank [(''component_name'', Some (do_component opts))]) (\<lambda>_.
    res_bind (to_bytes d) (\<lambda>b. Inr (new_crypto_response (component (request_stream (new_request_iterator b opts))))))"

text \<open>
  What a component promises: requests that are not empty, in their order and with the options first, are answered by
  a sound stream, in chunks of its own choice, that carries what \<open>f\<close> makes of the data.
\<close>

definition computes :: "('o crypto_request list \<Rightarrow> crypto_item list) \<Rightarrow> ('o \<Rightarrow> string \<Rightarrow> string) \<Rightarrow> bool" where
  "computes component f \<longleftrightarrow> (\<forall>reqs opts. reqs \<noteq> [] \<and> map cq_seq reqs = [0 ..< length reqs] \<and>
     map cq_options reqs = Some opts # replicate (length reqs - 1) None \<longrightarrow>
     numbered 0 (component reqs) \<and> stream_data (component reqs) = f opts (concat (map cq_data reqs)))"

lemma computes_stream:
  assumes "computes component f" and "d \<noteq> []" and "items = component (request_stream (new_request_iterator d opts))"
  shows "numbered 0 items \<and> stream_data items = f opts d"
proof -
  note reqs = requests_carry_data [OF refl, of d opts]
  from reqs(2) assms(2) have "request_stream (new_request_iterator d opts) \<noteq> []" by auto
  with assms(1) reqs assms(2) show ?thesis unfolding computes_def assms(3) by metis
qed


definition demo_component :: "'o crypto_request list \<Rightarrow> crypto_item list" where
  "demo_component reqs = [Chunk 0 (rev (concat (map cq_data reqs)))]"


text \<open>Of empty data nothing is sent, not even the options, so the component cannot answer as for other data.\<close>

lemma empty_data_sends_nothing: "request_stream (new_request_iterator [] opts) = []"
  by (subst request_stream.simps) (simp add: next_request_def new_request_iterator_def)

end
