(* ===== verification/ActorState.thy ===== *)
theory ActorState
  imports Prelude
begin

text \<open>
  The state of an actor (\<open>actor/runtime/state_manager.py\<close>, \<open>state_change.py\<close>, \<open>_state_provider.py\<close>): a
  tracker of changes over a remote store, read key by key and written in one transaction.

  A Python value is \<open>'v option\<close>, \<open>None\<close> being Python's None. Reading the store is the sidecar's get_state,
  the parameter \<open>read\<close>, which returns the raw bytes, empty when the key is missing, or raises; the
  deserializer \<open>deser\<close> may raise. Bytes are strings of characters below 256.
\<close>

section \<open>Trackers\<close>

datatype change_kind = NoChange | AddChange | UpdateChange | RemoveChange

record 'v state_metadata =
  md_value :: "'v option"
  md_kind :: change_kind
  md_ttl :: "int option"

record 'v state_change =
  sc_name :: string
  sc_value :: "'v option"
  sc_kind :: change_kind
  sc_ttl :: "int option"

type_synonym 'v tracker = "(string, 'v state_metadata) dict"

text \<open>
  The default tracker of an actor, the tracker of the context variable if it is set, and whether the
  call is reentrant.
\<close>

record 'v state_manager =
  default_tracker :: "'v tracker"
  context_tracker :: "'v tracker option"
  in_reentrancy :: bool

definition new_state_manager :: "'v state_manager" where
  "new_state_manager = \<lparr>default_tracker = [], context_tracker = None, in_reentrancy = False\<rparr>"

definition state_tracker :: "'v state_manager \<Rightarrow> 'v tracker" where
  "state_tracker m = (case context_tracker m of
     Some t \<Rightarrow> if in_reentrancy m then t else default_tracker m
   | None \<Rightarrow> default_tracker m)"

definition set_tracker :: "'v tracker \<Rightarrow> 'v state_manager \<Rightarrow> 'v state_manager" where
  "set_tracker t m = (if context_tracker m \<noteq> None \<and> in_reentrancy m
     then m\<lparr>context_tracker := Some t\<rparr> else m\<lparr>default_tracker := t\<rparr>)"

definition set_state_context :: "string option \<Rightarrow> 'v state_manager \<Rightarrow> 'v state_manager" where
  "set_state_context ctx_id m = m\<lparr>context_tracker := (if ctx_id = None then None else Some [])\<rparr>"

definition metadata :: "'v option \<Rightarrow> change_kind \<Rightarrow> int option \<Rightarrow> 'v state_metadata" where
  "metadata v k ttl = \<lparr>md_value = v, md_kind = k, md_ttl = ttl\<rparr>"

definition track :: "string \<Rightarrow> 'v state_metadata \<Rightarrow> 'v state_manager \<Rightarrow> 'v state_manager" where
  "track k md m = set_tracker (dict_set k md (state_tracker m)) m"

definition untrack :: "string \<Rightarrow> 'v state_manager \<Rightarrow> 'v state_manager" where
  "untrack k m = set_tracker (dict_del k (state_tracker m)) m"

section \<open>The provider\<close>

definition try_load_state :: "(string \<Rightarrow> 'v option res) \<Rightarrow> (string \<Rightarrow> string res) \<Rightarrow> string \<Rightarrow> (bool \<times> 'v option) res" where
  "try_load_state deser read k = res_bind (read k) (\<lambda>raw.
     if raw = [] then Inr (False, None) else res_bind (deser raw) (\<lambda>v. Inr (True, v)))"

definition provider_contains :: "(string \<Rightarrow> string res) \<Rightarrow> string \<Rightarrow> bool res" where
  "provider_contains read k = res_bind (read k) (\<lambda>raw. Inr (raw \<noteq> []))"

definition operation_name :: "change_kind \<Rightarrow> string" where
  "operation_name kind = (case kind of
     RemoveChange \<Rightarrow> ''delete'' | AddChange \<Rightarrow> ''upsert'' | UpdateChange \<Rightarrow> ''upsert'' | NoChange \<Rightarrow> [])"

text \<open>The request body. The name is written as it is; the serializers of values and of integers are parameters.\<close>

abbreviation dq :: char where "dq \<equiv> CHR 34"

definition quote_text :: "string \<Rightarrow> string" where
  "quote_text s = dq # s @ [dq]"

definition change_text :: "('v \<Rightarrow> string) \<Rightarrow> (int \<Rightarrow> string) \<Rightarrow> 'v state_change \<Rightarrow> string" where
  "change_text ser ser_int c =
     ''{'' @ quote_text ''operation'' @ '':'' @ quote_text (operation_name (sc_kind c)) @ '','' @
     quote_text ''request'' @ '':{'' @ quote_text ''key'' @ '':'' @ quote_text (sc_name c) @
     (case sc_value c of None \<Rightarrow> [] | Some v \<Rightarrow> '','' @ quote_text ''value'' @ '':'' @ ser v) @
     (case sc_ttl c of
        Some ttl \<Rightarrow> if ttl \<ge> 0
          then '','' @ quote_text ''metadata'' @ '':{'' @ quote_text ''ttlInSeconds'' @ '':'' @ quote_text (ser_int ttl) @ ''}''
          else []
      | None \<Rightarrow> []) @ ''}}''"

definition transaction_body :: "('v \<Rightarrow> string) \<Rightarrow> (int \<Rightarrow> string) \<Rightarrow> 'v state_change list \<Rightarrow> string" where
  "transaction_body ser ser_int cs = ''['' @ join_str '','' (map (change_text ser ser_int) cs) @ '']''"

section \<open>Operations\<close>

type_synonym ('v, 'a) state_op = "'v state_manager \<Rightarrow> 'a res \<times> 'v state_manager"

definition key_error :: "string \<Rightarrow> exn" where
  "key_error k = exc KeyError (''Actor State with name '' @ k @ '' was not found.'')"

definition try_add_state :: "(string \<Rightarrow> string res) \<Rightarrow> string \<Rightarrow> 'v option \<Rightarrow> ('v, bool) state_op" where
  "try_add_state read k v m =
    (case dict_get (state_tracker m) k of
       Some md \<Rightarrow> if md_kind md = RemoveChange
         then (Inr True, track k (metadata v UpdateChange None) m) else (Inr False, m)
     | None \<Rightarrow> (case provider_contains read k of
         Inl e \<Rightarrow> (Inl e, m)
       | Inr True \<Rightarrow> (Inr False, m)
       | Inr False \<Rightarrow> (Inr True, track k (metadata v AddChange None) m)))"

definition add_state :: "(string \<Rightarrow> string res) \<Rightarrow> string \<Rightarrow> 'v option \<Rightarrow> ('v, unit) state_op" where
  "add_state read k v m = (case try_add_state read k v m of
     (Inl e, m') \<Rightarrow> (Inl e, m')
   | (Inr b, m') \<Rightarrow> (if b then Inr () else
       Inl (exc ValueError (''The actor state name '' @ k @ '' already exist.'')), m'))"

definition try_get_state ::
  "(string \<Rightarrow> 'v option res) \<Rightarrow> (string \<Rightarrow> string res) \<Rightarrow> string \<Rightarrow> ('v, bool \<times> 'v option) state_op" where
  "try_get_state deser read k m =
    (case dict_get (state_tracker m) k of
       Some md \<Rightarrow> (Inr (if md_kind md = RemoveChange then (False, None) else (True, md_value md)), m)
     | None \<Rightarrow> (case try_load_state deser read k of
         Inl e \<Rightarrow> (Inl e, m)
       | Inr (has, v) \<Rightarrow> (Inr (has, v), if has then track k (metadata v NoChange None) m else m)))"

definition get_state ::
  "(string \<Rightarrow> 'v option res) \<Rightarrow> (string \<Rightarrow> string res) \<Rightarrow> string \<Rightarrow> ('v, 'v option) state_op" where
  "get_state deser read k m = (case try_get_state deser read k m of
     (Inl e, m') \<Rightarrow> (Inl e, m')
   | (Inr (has, v), m') \<Rightarrow> (if has then Inr v else Inl (key_error k), m'))"

definition set_state_ttl ::
  "(string \<Rightarrow> string res) \<Rightarrow> string \<Rightarrow> 'v option \<Rightarrow> int option \<Rightarrow> ('v, unit) state_op" where
  "set_state_ttl read k v ttl m =
    (if (case ttl of Some n \<Rightarrow> n < 0 | None \<Rightarrow> False) then (Inr (), m)
     else case dict_get (state_tracker m) k of
       Some md \<Rightarrow> (Inr (), track k (metadata v
           (if md_kind md = NoChange \<or> md_kind md = RemoveChange then UpdateChange else md_kind md) ttl) m)
     | None \<Rightarrow> (case provider_contains read k of
         Inl e \<Rightarrow> (Inl e, m)
       | Inr existed \<Rightarrow> (Inr (), track k (metadata v (if existed then UpdateChange else AddChange) ttl) m)))"

definition set_state :: "(string \<Rightarrow> string res) \<Rightarrow> string \<Rightarrow> 'v option \<Rightarrow> ('v, unit) state_op" where
  "set_state read k v = set_state_ttl read k v None"

definition try_remove_state :: "(string \<Rightarrow> string res) \<Rightarrow> string \<Rightarrow> ('v, bool) state_op" where
  "try_remove_state read k m =
    (case dict_get (state_tracker m) k of
       Some md \<Rightarrow>
         (case md_kind md of
            RemoveChange \<Rightarrow> (Inr False, m)
          | AddChange \<Rightarrow> (Inr True, untrack k m)
          | _ \<Rightarrow> (Inr True, track k (md\<lparr>md_kind := RemoveChange\<rparr>) m))
     | None \<Rightarrow> (case provider_contains read k of
         Inl e \<Rightarrow> (Inl e, m)
       | Inr True \<Rightarrow> (Inr True, track k (metadata None RemoveChange None) m)
       | Inr False \<Rightarrow> (Inr False, m)))"

definition remove_state :: "(string \<Rightarrow> string res) \<Rightarrow> string \<Rightarrow> ('v, unit) state_op" where
  "remove_state read k m = (case try_remove_state read k m of
     (Inl e, m') \<Rightarrow> (Inl e, m')
   | (Inr b, m') \<Rightarrow> (if b then Inr () else Inl (key_error k), m'))"

definition contains_state :: "(string \<Rightarrow> string res) \<Rightarrow> string \<Rightarrow> ('v, bool) state_op" where
  "contains_state read k m =
    ((case dict_get (state_tracker m) k of
        Some md \<Rightarrow> Inr (md_kind md \<noteq> RemoveChange)
      | None \<Rightarrow> provider_contains read k), m)"

definition is_state_marked_for_remove :: "string \<Rightarrow> 'v state_manager \<Rightarrow> bool" where
  "is_state_marked_for_remove k m = (case dict_get (state_tracker m) k of
     Some md \<Rightarrow> md_kind md = RemoveChange | None \<Rightarrow> False)"

definition get_or_add_state ::
  "(string \<Rightarrow> 'v option res) \<Rightarrow> (string \<Rightarrow> string res) \<Rightarrow> string \<Rightarrow> 'v option \<Rightarrow> ('v, 'v option) state_op" where
  "get_or_add_state deser read k v m = (case try_get_state deser read k m of
     (Inl e, m') \<Rightarrow> (Inl e, m')
   | (Inr (True, w), m') \<Rightarrow> (Inr w, m')
   | (Inr (False, w), m') \<Rightarrow>
       (Inr v, track k (metadata v (if is_state_marked_for_remove k m' then UpdateChange else AddChange) None) m'))"

text \<open>\<open>factory\<close> is the application's function, \<open>None\<close> when the argument is not callable.\<close>

definition add_or_update_state ::
  "(string \<Rightarrow> 'v option res) \<Rightarrow> (string \<Rightarrow> string res) \<Rightarrow> string \<Rightarrow> 'v option
   \<Rightarrow> (string \<Rightarrow> 'v option \<Rightarrow> 'v option res) option \<Rightarrow> ('v, 'v option) state_op"
where
  "add_or_update_state deser read k v factory m = (case factory of
     None \<Rightarrow> (Inl (exc AttributeError ''update_value_factory is not callable''), m)
   | Some f \<Rightarrow>
      (case dict_get (state_tracker m) k of
         Some md \<Rightarrow>
           if md_kind md = RemoveChange then (Inr v, track k (metadata v UpdateChange None) m)
           else (case f k (md_value md) of
             Inl e \<Rightarrow> (Inl e, m)
           | Inr w \<Rightarrow> (Inr w, track k (md\<lparr>md_value := w,
               md_kind := (if md_kind md = NoChange then UpdateChange else md_kind md)\<rparr>) m))
       | None \<Rightarrow> (case try_load_state deser read k of
           Inl e \<Rightarrow> (Inl e, m)
         | Inr (True, old) \<Rightarrow> (case f k old of
             Inl e \<Rightarrow> (Inl e, m)
           | Inr w \<Rightarrow> (Inr w, track k (metadata w UpdateChange None) m))
         | Inr (False, old) \<Rightarrow> (Inr v, track k (metadata v AddChange None) m))))"

definition get_state_names :: "'v state_manager \<Rightarrow> string list" where
  "get_state_names m =
     map fst (filter (\<lambda>p. md_kind (snd p) = AddChange \<or> md_kind (snd p) = RemoveChange) (state_tracker m))"

definition clear_cache :: "'v state_manager \<Rightarrow> 'v state_manager" where
  "clear_cache m = set_tracker [] m"

text \<open>
  \<open>save_state\<close>: the changes are collected and their kinds reset before the provider is called with
  them; the removed entries are dropped after it returned. \<open>save\<close> is the outcome of the call.
\<close>

definition state_changes :: "'v tracker \<Rightarrow> 'v state_change list" where
  "state_changes t = map (\<lambda>(k, md). \<lparr>sc_name = k, sc_value = md_value md, sc_kind = md_kind md, sc_ttl = md_ttl md\<rparr>)
     (filter (\<lambda>p. md_kind (snd p) \<noteq> NoChange) t)"

definition states_to_remove :: "'v tracker \<Rightarrow> string list" where
  "states_to_remove t = map fst (filter (\<lambda>p. md_kind (snd p) = RemoveChange) t)"

definition mark_unmodified :: "'v tracker \<Rightarrow> 'v tracker" where
  "mark_unmodified t = map (\<lambda>(k, md). (k, md\<lparr>md_kind := NoChange\<rparr>)) t"

definition save_state :: "('v state_change list \<Rightarrow> unit res) \<Rightarrow> ('v, 'v state_change list) state_op" where
  "save_state save m =
    (let t = state_tracker m; cs = state_changes t; m1 = set_tracker (mark_unmodified t) m in
     if t = [] then (Inr [], m)
     else case (if cs = [] then Inr () else save cs) of
       Inl e \<Rightarrow> (Inl e, m1)
     | Inr _ \<Rightarrow> (Inr cs, set_tracker (fold dict_del (states_to_remove t) (mark_unmodified t)) m1))"

end
