(* ===== verification/ActorStateProps.thy ===== *)
theory ActorStateProps
  imports ActorState
begin

text \<open>
  The state manager implements a plain map: an abstraction function from tracker and store to a map, one
  simulation lemma for all operations, and what saving does to the store.
\<close>

section \<open>The abstract map\<close>

type_synonym 'v amap = "string \<Rightarrow> 'v option option"

text \<open>The store holds \<open>A\<close>: reading a key never raises and gives what \<open>A\<close> says.\<close>

definition stores :: "(string \<Rightarrow> 'v option res) \<Rightarrow> (string \<Rightarrow> string res) \<Rightarrow> 'v amap \<Rightarrow> bool" where
  "stores deser read A \<longleftrightarrow> (\<forall>k. try_load_state deser read k =
     Inr (case A k of None \<Rightarrow> (False, None) | Some v \<Rightarrow> (True, v)))"

definition view_of :: "'v amap \<Rightarrow> 'v tracker \<Rightarrow> 'v amap" where
  "view_of A t k = (case dict_get t k of
     None \<Rightarrow> A k | Some md \<Rightarrow> if md_kind md = RemoveChange then None else Some (md_value md))"

definition view :: "'v amap \<Rightarrow> 'v state_manager \<Rightarrow> 'v amap" where
  "view A m = view_of A (state_tracker m)"

definition entry_ok :: "'v option option \<Rightarrow> 'v state_metadata \<Rightarrow> bool" where
  "entry_ok a md = (case md_kind md of
     NoChange \<Rightarrow> a = Some (md_value md) | AddChange \<Rightarrow> a = None | _ \<Rightarrow> a \<noteq> None)"

definition tracker_ok :: "'v amap \<Rightarrow> 'v tracker \<Rightarrow> bool" where
  "tracker_ok A t \<longleftrightarrow> dict_wf t \<and> (\<forall>k md. dict_get t k = Some md \<longrightarrow> entry_ok (A k) md)"

datatype 'v state_call =
    AddState string "'v option" | TryAddState string "'v option"
  | GetState string | TryGetState string
  | SetState string "'v option" "int option"
  | RemoveState string | TryRemoveState string | ContainsState string
  | GetOrAddState string "'v option"
  | AddOrUpdateState string "'v option" "string \<Rightarrow> 'v option \<Rightarrow> 'v option"

datatype 'v state_answer = Done | Flag bool | Loaded bool "'v option" | Value "'v option"

definition answer :: "('a \<Rightarrow> 'v state_answer) \<Rightarrow> 'a res \<times> 'v state_manager \<Rightarrow> 'v state_answer res \<times> 'v state_manager" where
  "answer f r = (case r of (Inl e, m) \<Rightarrow> (Inl e, m) | (Inr x, m) \<Rightarrow> (Inr (f x), m))"

fun run_call ::
  "(string \<Rightarrow> 'v option res) \<Rightarrow> (string \<Rightarrow> string res) \<Rightarrow> 'v state_call \<Rightarrow> ('v, 'v state_answer) state_op" where
  "run_call deser read (AddState k v) m = answer (\<lambda>_. Done) (add_state read k v m)"
| "run_call deser read (TryAddState k v) m = answer Flag (try_add_state read k v m)"
| "run_call deser read (GetState k) m = answer Value (get_state deser read k m)"
| "run_call deser read (TryGetState k) m = answer (\<lambda>(h, v). Loaded h v) (try_get_state deser read k m)"
| "run_call deser read (SetState k v ttl) m = answer (\<lambda>_. Done) (set_state_ttl read k v ttl m)"
| "run_call deser read (RemoveState k) m = answer (\<lambda>_. Done) (remove_state read k m)"
| "run_call deser read (TryRemoveState k) m = answer Flag (try_remove_state read k m)"
| "run_call deser read (ContainsState k) m = answer Flag (contains_state read k m)"
| "run_call deser read (GetOrAddState k v) m = answer Value (get_or_add_state deser read k v m)"
| "run_call deser read (AddOrUpdateState k v f) m =
     answer Value (add_or_update_state deser read k v (Some (\<lambda>n w. Inr (f n w))) m)"

fun spec_call :: "'v state_call \<Rightarrow> 'v amap \<Rightarrow> 'v state_answer res \<times> 'v amap" where
  "spec_call (AddState k v) B = (if B k = None then (Inr Done, B(k \<mapsto> v))
     else (Inl (exc ValueError (''The actor state name '' @ k @ '' already exist.'')), B))"
| "spec_call (TryAddState k v) B = (if B k = None then (Inr (Flag True), B(k \<mapsto> v)) else (Inr (Flag False), B))"
| "spec_call (GetState k) B = (case B k of None \<Rightarrow> Inl (key_error k) | Some v \<Rightarrow> Inr (Value v), B)"
| "spec_call (TryGetState k) B = (case B k of None \<Rightarrow> Inr (Loaded False None) | Some v \<Rightarrow> Inr (Loaded True v), B)"
| "spec_call (SetState k v ttl) B =
     (Inr Done, if (case ttl of Some n \<Rightarrow> n < 0 | None \<Rightarrow> False) then B else B(k \<mapsto> v))"
| "spec_call (RemoveState k) B = (if B k = None then Inl (key_error k) else Inr Done, B(k := None))"
| "spec_call (TryRemoveState k) B = (Inr (Flag (B k \<noteq> None)), B(k := None))"
| "spec_call (ContainsState k) B = (Inr (Flag (B k \<noteq> None)), B)"
| "spec_call (GetOrAddState k v) B = (case B k of Some w \<Rightarrow> (Inr (Value w), B) | None \<Rightarrow> (Inr (Value v), B(k \<mapsto> v)))"
| "spec_call (AddOrUpdateState k v f) B =
     (case B k of Some w \<Rightarrow> (Inr (Value (f k w)), B(k \<mapsto> f k w)) | None \<Rightarrow> (Inr (Value v), B(k \<mapsto> v)))"

section \<open>Simulation\<close>

lemma state_tracker_set [simp]: "state_tracker (set_tracker t m) = t"
  by (auto simp: state_tracker_def set_tracker_def split: option.split)

lemma state_tracker_track [simp]: "state_tracker (track k md m) = dict_set k md (state_tracker m)"
  by (simp add: track_def)

lemma state_tracker_untrack [simp]: "state_tracker (untrack k m) = dict_del k (state_tracker m)"
  by (simp add: untrack_def)

lemma view_set: "view_of A (dict_set k md t) =
    (view_of A t)(k := if md_kind md = RemoveChange then None else Some (md_value md))"
  by (auto simp: view_of_def dict_get_set)

lemma view_del: "view_of A (dict_del k t) = (view_of A t)(k := A k)"
  by (auto simp: view_of_def dict_get_del)

lemma tracker_ok_set: "tracker_ok A t \<Longrightarrow> entry_ok (A k) md \<Longrightarrow> tracker_ok A (dict_set k md t)"
  by (auto simp: tracker_ok_def dict_get_set)

lemma tracker_ok_del: "tracker_ok A t \<Longrightarrow> tracker_ok A (dict_del k t)"
  by (auto simp: tracker_ok_def dict_get_del)

lemma tracker_okD: "tracker_ok A t \<Longrightarrow> dict_get t k = Some md \<Longrightarrow> entry_ok (A k) md"
  by (simp add: tracker_ok_def)

lemma metadata_simps [simp]:
  "md_value (metadata v k ttl) = v" "md_kind (metadata v k ttl) = k"
  by (simp_all add: metadata_def)

lemma stores_contains:
  assumes "stores deser read A"
  shows "provider_contains read k = Inr (A k \<noteq> None)"
proof -
  have "try_load_state deser read k = Inr (case A k of None \<Rightarrow> (False, None) | Some v \<Rightarrow> (True, v))"
    using assms by (simp add: stores_def)
  then show ?thesis
    by (auto simp: try_load_state_def provider_contains_def res_bind_def split: sum.splits if_splits option.splits)
qed

lemma stores_load:
  "stores deser read A \<Longrightarrow> try_load_state deser read k =
     Inr (case A k of None \<Rightarrow> (False, None) | Some v \<Rightarrow> (True, v))"
  by (simp add: stores_def)

lemma fun_upd_same: "f k = v \<Longrightarrow> f(k := v) = f"
  by auto

lemmas state_op_defs = add_state_def try_add_state_def get_state_def try_get_state_def set_state_ttl_def
  remove_state_def try_remove_state_def contains_state_def get_or_add_state_def add_or_update_state_def
  is_state_marked_for_remove_def answer_def

fun call_key :: "'v state_call \<Rightarrow> string" where
  "call_key (AddState k v) = k" | "call_key (TryAddState k v) = k" | "call_key (GetState k) = k"
| "call_key (TryGetState k) = k" | "call_key (SetState k v ttl) = k" | "call_key (RemoveState k) = k"
| "call_key (TryRemoveState k) = k" | "call_key (ContainsState k) = k" | "call_key (GetOrAddState k v) = k"
| "call_key (AddOrUpdateState k v f) = k"

lemma run_call_simulates:
  assumes st: "stores deser read A" and ok: "tracker_ok A (state_tracker m)"
  shows "spec_call c (view A m) = (fst (run_call deser read c m), view A (snd (run_call deser read c m))) \<and>
    tracker_ok A (state_tracker (snd (run_call deser read c m)))"
proof -
  let ?t = "state_tracker m"
  note facts = stores_contains [OF st] stores_load [OF st] view_def view_set view_del ok tracker_ok_set
    tracker_ok_del entry_ok_def dict_get_set
  show ?thesis
  proof (cases "dict_get ?t (call_key c)")
    case None
    then have "view_of A ?t (call_key c) = A (call_key c)" by (simp add: view_of_def)
    with None show ?thesis
      by (cases c; cases "A (call_key c)") (auto simp: state_op_defs facts fun_upd_idem)
  next
    case (Some md)
    from tracker_okD [OF ok Some] have e: "entry_ok (A (call_key c)) md" .
    from Some have "view_of A ?t (call_key c) = (if md_kind md = RemoveChange then None else Some (md_value md))"
      by (simp add: view_of_def)
    with Some e show ?thesis
      by (cases c; cases "md_kind md") (auto simp: state_op_defs facts fun_upd_idem)
  qed
qed

fun run_calls ::
  "(string \<Rightarrow> 'v option res) \<Rightarrow> (string \<Rightarrow> string res) \<Rightarrow> 'v state_call list \<Rightarrow> 'v state_manager
   \<Rightarrow> 'v state_answer res list \<times> 'v state_manager"
where
  "run_calls deser read [] m = ([], m)"
| "run_calls deser read (c # cs) m =
     (case run_call deser read c m of (r, m1) \<Rightarrow>
      case run_calls deser read cs m1 of (rs, m2) \<Rightarrow> (r # rs, m2))"

fun spec_calls :: "'v state_call list \<Rightarrow> 'v amap \<Rightarrow> 'v state_answer res list \<times> 'v amap" where
  "spec_calls [] B = ([], B)"
| "spec_calls (c # cs) B =
     (case spec_call c B of (r, B1) \<Rightarrow> case spec_calls cs B1 of (rs, B2) \<Rightarrow> (r # rs, B2))"

lemma run_calls_simulate:
  assumes "stores deser read A" and "tracker_ok A (state_tracker m)"
    and "run_calls deser read cs m = (rs, m')"
  shows "spec_calls cs (view A m) = (rs, view A m') \<and> tracker_ok A (state_tracker m')"
  using assms(2,3)
proof (induction cs arbitrary: m rs)
  case (Cons c cs)
  obtain r m1 where c: "run_call deser read c m = (r, m1)" by fastforce
  obtain rs1 where cs: "run_calls deser read cs m1 = (rs1, m')" "rs = r # rs1"
    using Cons.prems(2) c by (auto split: prod.splits)
  from run_call_simulates [OF assms(1) Cons.prems(1), of c] c
  have "spec_call c (view A m) = (r, view A m1)" "tracker_ok A (state_tracker m1)" by simp_all
  with Cons.IH [OF _ cs(1)] cs(2) show ?case by simp
qed simp

text \<open>
  C3. An actor sees a plain map: for every sequence of operations on the state manager, over a store that
  can be read, the answers, with the exceptions for missing and existing names, are those of a map
  that starts as the tracked view of the store and is updated in place, and the tracker stays well formed.
\<close>

theorem state_manager_refines_map:
  assumes "stores deser read A" and "tracker_ok A (state_tracker m)"
    and "run_calls deser read cs m = (rs, m')"
  shows "spec_calls cs (view A m) = (rs, view A m') \<and> tracker_ok A (state_tracker m')"
  using run_calls_simulate [OF assms] .

definition demo_read :: "string \<Rightarrow> string res" where
  "demo_read k = Inr (if k = ''a'' then ''1'' else [])"

definition demo_deser :: "string \<Rightarrow> string option res" where
  "demo_deser raw = Inr (Some raw)"

lemma demo_stores: "stores demo_deser demo_read [''a'' \<mapsto> Some ''1'']"
  by (simp add: stores_def demo_read_def demo_deser_def try_load_state_def)

lemma new_tracker_ok: "tracker_ok A (state_tracker new_state_manager)"
  by (simp add: tracker_ok_def new_state_manager_def state_tracker_def)

theorem state_manager_refines_map_witness:
  "spec_calls [RemoveState ''a'', AddState ''b'' (Some ''2''), TryGetState ''a'', GetState ''b'']
      (view [''a'' \<mapsto> Some ''1''] new_state_manager) =
    ([Inr Done, Inr Done, Inr (Loaded False None), Inr (Value (Some ''2''))],
     view [''a'' \<mapsto> Some ''1'']
       (snd (run_calls demo_deser demo_read
         [RemoveState ''a'', AddState ''b'' (Some ''2''), TryGetState ''a'', GetState ''b''] new_state_manager)))"
proof -
  let ?cs = "[RemoveState ''a'', AddState ''b'' (Some ''2''), TryGetState ''a'', GetState ''b'']"
  let ?r = "run_calls demo_deser demo_read ?cs new_state_manager"
  have "fst ?r = [Inr Done, Inr Done, Inr (Loaded False None), Inr (Value (Some ''2''))]"
    by (simp add: state_op_defs provider_contains_def try_load_state_def demo_read_def demo_deser_def
        new_state_manager_def state_tracker_def track_def set_tracker_def metadata_def dict_simps)
  with state_manager_refines_map [OF demo_stores new_tracker_ok, of ?cs "fst ?r" "snd ?r"] show ?thesis by simp
qed

section \<open>Saving\<close>

text \<open>What the sidecar's transaction makes of the store: each change in order.\<close>

definition commit_change :: "'v state_change \<Rightarrow> 'v amap \<Rightarrow> 'v amap" where
  "commit_change c B = B(sc_name c := (if sc_kind c = RemoveChange then None else Some (sc_value c)))"

definition commit :: "'v state_change list \<Rightarrow> 'v amap \<Rightarrow> 'v amap" where
  "commit cs A = fold commit_change cs A"

lemma state_changes_Cons:
  "state_changes ((k, md) # t) =
     (if md_kind md = NoChange then state_changes t
      else \<lparr>sc_name = k, sc_value = md_value md, sc_kind = md_kind md, sc_ttl = md_ttl md\<rparr> # state_changes t)"
  by (simp add: state_changes_def)

lemma commit_other: "j \<notin> set (map sc_name cs) \<Longrightarrow> commit cs A j = A j"
  by (induction cs arbitrary: A) (simp_all add: commit_def commit_change_def)

lemma names_of_changes: "set (map sc_name (state_changes t)) \<subseteq> set (dict_keys t)"
  by (force simp: state_changes_def)

lemma commit_state_changes:
  "dict_wf t \<Longrightarrow> (\<And>k md. dict_get t k = Some md \<Longrightarrow> md_kind md = NoChange \<Longrightarrow> A k = Some (md_value md)) \<Longrightarrow>
     commit (state_changes t) A = view_of A t"
proof (induction t arbitrary: A)
  case (Cons p t)
  obtain k md where p: "p = (k, md)" by (cases p)
  have wf: "dict_wf t" "k \<notin> set (dict_keys t)" using Cons.prems(1) p by (simp_all add: dict_simps)
  let ?A = "if md_kind md = NoChange then A else A(k := (if md_kind md = RemoveChange then None else Some (md_value md)))"
  have eq: "commit (state_changes (p # t)) A = commit (state_changes t) ?A"
    by (simp add: p state_changes_Cons commit_def commit_change_def)
  have none: "dict_get t k = None" using wf(2) by (simp add: dict_get_None_iff)
  have "commit (state_changes t) ?A = view_of ?A t"
  proof (rule Cons.IH [OF wf(1)])
    fix j md' assume j: "dict_get t j = Some md'" "md_kind md' = NoChange"
    with none have "j \<noteq> k" by auto
    with j Cons.prems(2) [of j md'] p show "?A j = Some (md_value md')" by (auto simp: dict_simps)
  qed
  also have "\<dots> = view_of A (p # t)"
    using none Cons.prems(2) [of k md] p by (auto simp: view_of_def dict_simps fun_eq_iff split: option.split)
  finally show ?case using eq by simp
qed (simp add: state_changes_def commit_def view_of_def fun_eq_iff)

lemma dict_get_mark: "dict_get (mark_unmodified t) k = map_option (\<lambda>md. md\<lparr>md_kind := NoChange\<rparr>) (dict_get t k)"
  by (induction t) (auto simp: mark_unmodified_def dict_simps)

lemma dict_wf_mark [simp]: "dict_wf (mark_unmodified t) = dict_wf t"
  by (simp add: dict_wf_def mark_unmodified_def comp_def case_prod_beta)

lemma fold_dict_del:
  "dict_wf t \<Longrightarrow> dict_wf (fold dict_del ks t)"
  "dict_get (fold dict_del ks t) k = (if k \<in> set ks then None else dict_get t k)"
  by (induction ks arbitrary: t) (auto simp: dict_get_del)

lemma removed_iff: "dict_wf t \<Longrightarrow> k \<in> set (states_to_remove t) \<longleftrightarrow> (\<exists>md. dict_get t k = Some md \<and> md_kind md = RemoveChange)"
  by (force simp: states_to_remove_def dest: dict_get_SomeD dict_get_in)

lemma state_changes_marked [simp]: "state_changes (mark_unmodified t) = []"
  by (simp add: state_changes_def mark_unmodified_def filter_map comp_def case_prod_beta)

lemma saved_tracker:
  assumes "save_state save m = (Inr cs, m')"
  shows "cs = state_changes (state_tracker m)"
    and "state_tracker m' = fold dict_del (states_to_remove (state_tracker m)) (mark_unmodified (state_tracker m))"
  using assms by (auto simp: save_state_def Let_def state_changes_def states_to_remove_def mark_unmodified_def
      split: if_splits sum.splits)

lemma saved_entries:
  assumes "dict_wf (state_tracker m)" and "save_state save m = (Inr cs, m')"
  shows "dict_get (state_tracker m') k = (case dict_get (state_tracker m) k of None \<Rightarrow> None
      | Some md \<Rightarrow> if md_kind md = RemoveChange then None else Some (md\<lparr>md_kind := NoChange\<rparr>))"
  unfolding saved_tracker(2) [OF assms(2)] fold_dict_del(2) dict_get_mark
  using removed_iff [OF assms(1), of k] by (auto split: option.split)

lemma save_commits:
  assumes ok: "tracker_ok A (state_tracker m)" and s: "save_state save m = (Inr cs, m')"
  shows "commit cs A = view A m" and "view (view A m) m' = view A m" and "tracker_ok (view A m) (state_tracker m')"
proof -
  have wf: "dict_wf (state_tracker m)" using ok by (simp add: tracker_ok_def)
  note get = saved_entries [OF wf s]
  show "commit cs A = view A m"
    unfolding saved_tracker(1) [OF s] view_def
    by (rule commit_state_changes [OF wf]) (use tracker_okD [OF ok] in \<open>fastforce simp: entry_ok_def\<close>)
  show "view (view A m) m' = view A m"
    by (rule ext) (auto simp: view_def view_of_def get split: option.split)
  have "dict_wf (state_tracker m')"
    unfolding saved_tracker(2) [OF s] by (rule fold_dict_del(1)) (simp add: wf)
  then show "tracker_ok (view A m) (state_tracker m')"
    by (auto simp: tracker_ok_def get entry_ok_def view_def view_of_def split: option.splits if_splits)
qed

lemma saved_unchanged:
  assumes "dict_wf (state_tracker m)" and "save_state save m = (Inr cs, m')"
  shows "state_changes (state_tracker m') = []"
proof -
  have wf: "dict_wf (state_tracker m')"
    unfolding saved_tracker(2) [OF assms(2)] by (rule fold_dict_del(1)) (simp add: assms(1))
  have "md_kind md = NoChange" if "(k, md) \<in> set (state_tracker m')" for k md
    using dict_get_in [OF wf that] saved_entries [OF assms, of k] by (auto split: option.splits if_splits)
  then show ?thesis by (force simp: state_changes_def filter_empty_conv)
qed

text \<open>
  C13. Saving persists exactly what the actor saw: the changes handed to the store are one per name, and
  applied to the store they make it the map that the actor saw. The actor sees the same map after the
  save, over the new store, and also after dropping its cache, and a second save has nothing to send.
\<close>

theorem save_persists:
  assumes "tracker_ok A (state_tracker m)" and "save_state save m = (Inr cs, m')"
  shows "distinct (map sc_name cs) \<and> commit cs A = view A m \<and>
    view (commit cs A) m' = view A m \<and> view (commit cs A) (clear_cache m') = view A m \<and>
    tracker_ok (commit cs A) (state_tracker m') \<and> fst (save_state save' m') = Inr []"
proof -
  have wf: "dict_wf (state_tracker m)" using assms(1) by (simp add: tracker_ok_def)
  have "distinct (map sc_name cs)"
    using wf by (simp add: saved_tracker(1) [OF assms(2)] state_changes_def comp_def case_prod_beta dict_wf_def
        distinct_map_filter)
  moreover have "view (view A m) (clear_cache m') = view A m"
    by (simp add: view_def clear_cache_def) (simp add: view_of_def fun_eq_iff)
  moreover have "fst (save_state save' m') = Inr []"
    using saved_unchanged [OF wf assms(2)] by (auto simp: save_state_def Let_def)
  ultimately show ?thesis using save_commits [OF assms] by simp
qed

definition demo_tracked :: "string state_manager" where
  "demo_tracked = snd (run_calls demo_deser demo_read
     [RemoveState ''a'', AddState ''b'' (Some ''2'')] new_state_manager)"

lemma demo_tracked_eval: "state_tracker demo_tracked =
    [(''a'', metadata None RemoveChange None), (''b'', metadata (Some ''2'') AddChange None)]"
  by (simp add: demo_tracked_def state_op_defs provider_contains_def try_load_state_def demo_read_def demo_deser_def
      new_state_manager_def state_tracker_def track_def set_tracker_def dict_simps)

lemma demo_tracked_ok: "tracker_ok [''a'' \<mapsto> Some ''1''] (state_tracker demo_tracked)"
  unfolding demo_tracked_eval by (auto simp: tracker_ok_def dict_simps entry_ok_def)

theorem save_persists_witness:
  "\<exists>cs m'. save_state (\<lambda>cs. Inr ()) demo_tracked = (Inr cs, m') \<and> map sc_name cs = [''a'', ''b''] \<and>
     commit cs [''a'' \<mapsto> Some ''1''] = view [''a'' \<mapsto> Some ''1''] demo_tracked \<and>
     fst (save_state (\<lambda>cs. Inl (exc RuntimeError [])) m') = Inr []"
proof -
  let ?r = "save_state (\<lambda>cs. Inr ()) demo_tracked"
  have r: "?r = (Inr (state_changes (state_tracker demo_tracked)), snd ?r)"
    by (simp add: save_state_def Let_def demo_tracked_eval state_changes_def)
  have "map sc_name (state_changes (state_tracker demo_tracked)) = [''a'', ''b'']"
    by (simp add: demo_tracked_eval state_changes_def)
  with r save_persists [OF demo_tracked_ok r] show ?thesis by metis
qed

text \<open>
  A failed save forgets the changes: when the store refuses the changes, the exception propagates, but
  every change is already marked as saved: the next save sends nothing, whatever the store would answer,
  and a removed name is found again, with the value it had when it was removed.
\<close>

lemma failed_save_forgets:
  assumes "save_state save m = (Inl e, m')"
  shows "fst (save_state save' m') = Inr [] \<and>
    (\<forall>k md. dict_get (state_tracker m) k = Some md \<longrightarrow>
       try_get_state deser read k m' = (Inr (True, md_value md), m'))"
proof -
  have t': "state_tracker m' = mark_unmodified (state_tracker m)"
    using assms by (auto simp: save_state_def Let_def split: if_splits sum.splits)
  have "fst (save_state save' m') = Inr []" by (auto simp: save_state_def Let_def t')
  moreover have "try_get_state deser read k m' = (Inr (True, md_value md), m')"
    if "dict_get (state_tracker m) k = Some md" for k md
    using that by (simp add: try_get_state_def t' dict_get_mark)
  ultimately show ?thesis by blast
qed

lemma failed_save_forgets_witness:
  "\<exists>m'. save_state (\<lambda>cs. Inl (exc RuntimeError [])) demo_tracked = (Inl (exc RuntimeError []), m') \<and>
     try_get_state demo_deser demo_read ''a'' m' = (Inr (True, None), m')"
proof -
  let ?s = "\<lambda>cs :: string state_change list. Inl (exc RuntimeError []) :: unit res"
  let ?m = "snd (save_state ?s demo_tracked)"
  have "save_state ?s demo_tracked = (Inl (exc RuntimeError []), ?m)"
    by (simp add: save_state_def Let_def demo_tracked_eval state_changes_def)
  moreover have "dict_get (state_tracker demo_tracked) ''a'' = Some (metadata None RemoveChange None)"
    by (simp add: demo_tracked_eval dict_simps)
  ultimately show ?thesis
    using failed_save_forgets [of ?s demo_tracked "exc RuntimeError []" ?m ?s demo_deser demo_read] by auto
qed

section \<open>The request body\<close>

text \<open>
  Names are written unescaped: there is one state name whose removal is sent with the very body
  that removes the two names \<open>a\<close> and \<open>b\<close>.
\<close>

lemma state_name_not_escaped:
  "\<exists>name. transaction_body ser ser_int [\<lparr>sc_name = name, sc_value = None, sc_kind = RemoveChange, sc_ttl = None\<rparr>] =
     transaction_body ser ser_int
       [\<lparr>sc_name = ''a'', sc_value = None, sc_kind = RemoveChange, sc_ttl = None\<rparr>,
        \<lparr>sc_name = ''b'', sc_value = None, sc_kind = RemoveChange, sc_ttl = None\<rparr>]"
proof -
  let ?name = "''a'' @ [dq] @ ''}},{'' @ quote_text ''operation'' @ '':'' @ quote_text ''delete'' @ '','' @
     quote_text ''request'' @ '':{'' @ quote_text ''key'' @ '':'' @ [dq] @ ''b''"
  show ?thesis
    by (rule exI [of _ ?name]) (simp add: transaction_body_def change_text_def operation_name_def quote_text_def)
qed

end
