(* ===== verification/ActorRuntime.thy ===== *)
theory ActorRuntime
  imports ActorStateProps Json Base64
begin

text \<open>
  Turns of an actor (\<open>actor/runtime/manager.py\<close>, \<open>actor.py\<close>, \<open>runtime.py\<close>, \<open>method_dispatcher.py\<close>):
  activation and deactivation, the dispatch of methods, timers and reminders, the saving of state after
  a turn and its reset after a failure.

  The application's methods are programs: trees over the operations of the state manager. The sidecar's
  reads and saves are parameters. The sidecar runs one turn of an actor at a time, so a turn is one step.
\<close>

section \<open>Programs\<close>

datatype 'v prog =
    Finish pyval
  | Throw exn
  | Access "'v state_call" "'v state_answer res \<Rightarrow> 'v prog"
  | Save "unit res \<Rightarrow> 'v prog"

text \<open>
  The environment: the deserializer, the reader over the store of an actor, and the outcome of a save.
  A successful save commits the changes.
\<close>

record 'v actor_env =
  env_deser :: "string \<Rightarrow> 'v option res"
  env_read :: "'v amap \<Rightarrow> string \<Rightarrow> string res"
  env_save :: "'v state_change list \<Rightarrow> unit res"

type_synonym 'v actor_state = "'v state_manager \<times> 'v amap"

definition do_save :: "'v actor_env \<Rightarrow> 'v actor_state \<Rightarrow> unit res \<times> 'v actor_state" where
  "do_save env s = (case save_state (env_save env) (fst s) of
     (Inl e, m) \<Rightarrow> (Inl e, m, snd s)
   | (Inr cs, m) \<Rightarrow> (Inr (), m, commit cs (snd s)))"

primrec run_prog :: "'v actor_env \<Rightarrow> 'v prog \<Rightarrow> 'v actor_state \<Rightarrow> pyval res \<times> 'v actor_state" where
  "run_prog env (Finish v) = (\<lambda>s. (Inr v, s))"
| "run_prog env (Throw e) = (\<lambda>s. (Inl e, s))"
| "run_prog env (Access c k) = (\<lambda>s. case run_call (env_deser env) (env_read env (snd s)) c (fst s) of
     (r, m) \<Rightarrow> run_prog env (k r) (m, snd s))"
| "run_prog env (Save k) = (\<lambda>s. case do_save env s of (r, s') \<Rightarrow> run_prog env (k r) s')"

section \<open>Actors\<close>

datatype call_type = ActorInterfaceMethod | TimerMethod | ReminderMethod

record method_context =
  mc_method_name :: string
  mc_call_type :: call_type

definition create_for_actor :: "string \<Rightarrow> method_context" where
  "create_for_actor n = \<lparr>mc_method_name = n, mc_call_type = ActorInterfaceMethod\<rparr>"

definition create_for_timer :: "string \<Rightarrow> method_context" where
  "create_for_timer n = \<lparr>mc_method_name = n, mc_call_type = TimerMethod\<rparr>"

definition create_for_reminder :: "string \<Rightarrow> method_context" where
  "create_for_reminder n = \<lparr>mc_method_name = n, mc_call_type = ReminderMethod\<rparr>"

record reminder_args =
  rm_name :: string
  rm_state :: string
  rm_due_time :: pyval
  rm_period :: pyval
  rm_ttl :: pyval

text \<open>
  An actor class: its hooks, its dispatchable methods, each with whether it takes an argument, its
  attributes that a timer can call, and \<open>receive_reminder\<close> if it is remindable.
\<close>

record 'v actor_class =
  cls_name :: string
  cls_on_activate :: "'v prog"
  cls_on_deactivate :: "'v prog"
  cls_on_pre :: "method_context \<Rightarrow> 'v prog"
  cls_on_post :: "method_context \<Rightarrow> 'v prog"
  cls_methods :: "(string, bool \<times> (pyval option \<Rightarrow> 'v prog)) dict"
  cls_callbacks :: "(string, pyval \<Rightarrow> 'v prog) dict"
  cls_receive_reminder :: "(reminder_args \<Rightarrow> 'v prog) option"

record 'v actor_manager =
  active_actors :: "(string, 'v state_manager) dict"
  stored :: "string \<Rightarrow> 'v amap"

definition then_do :: "'a res \<times> 's \<Rightarrow> ('a \<Rightarrow> 's \<Rightarrow> 'b res \<times> 's) \<Rightarrow> 'b res \<times> 's" where
  "then_do r f = (case r of (Inl e, s) \<Rightarrow> (Inl e, s) | (Inr x, s) \<Rightarrow> f x s)"

definition reset_state_internal :: "'v actor_state \<Rightarrow> 'v actor_state" where
  "reset_state_internal s = (clear_cache (fst s), snd s)"

definition on_activate_internal :: "'v actor_env \<Rightarrow> 'v actor_class \<Rightarrow> 'v actor_state \<Rightarrow> unit res \<times> 'v actor_state" where
  "on_activate_internal env cls s =
     then_do (run_prog env (cls_on_activate cls) (reset_state_internal s)) (\<lambda>_. do_save env)"

definition on_deactivate_internal :: "'v actor_env \<Rightarrow> 'v actor_class \<Rightarrow> 'v actor_state \<Rightarrow> pyval res \<times> 'v actor_state" where
  "on_deactivate_internal env cls s = run_prog env (cls_on_deactivate cls) (reset_state_internal s)"

definition on_post_actor_method_internal ::
  "'v actor_env \<Rightarrow> 'v actor_class \<Rightarrow> method_context \<Rightarrow> 'v actor_state \<Rightarrow> unit res \<times> 'v actor_state" where
  "on_post_actor_method_internal env cls mc s =
     then_do (run_prog env (cls_on_post cls mc) s) (\<lambda>_. do_save env)"

definition activate_actor ::
  "'v actor_env \<Rightarrow> 'v actor_class \<Rightarrow> string \<Rightarrow> 'v actor_manager \<Rightarrow> unit res \<times> 'v actor_manager" where
  "activate_actor env cls i w =
    (case on_activate_internal env cls (new_state_manager, stored w i) of
       (Inl e, m, st) \<Rightarrow> (Inl e, w\<lparr>stored := (stored w)(i := st)\<rparr>)
     | (Inr _, m, st) \<Rightarrow> (Inr (), w\<lparr>stored := (stored w)(i := st), active_actors := dict_set i m (active_actors w)\<rparr>))"

definition not_activated :: "string \<Rightarrow> exn" where
  "not_activated i = exc ValueError (i @ '' is not activated'')"

definition deactivate_actor ::
  "'v actor_env \<Rightarrow> 'v actor_class \<Rightarrow> string \<Rightarrow> 'v actor_manager \<Rightarrow> unit res \<times> 'v actor_manager" where
  "deactivate_actor env cls i w =
    (case dict_get (active_actors w) i of
       None \<Rightarrow> (Inl (not_activated i), w)
     | Some m \<Rightarrow>
        (case on_deactivate_internal env cls (m, stored w i) of (r, m', st) \<Rightarrow>
           (map_sum id (\<lambda>_. ()) r,
            w\<lparr>active_actors := dict_del i (active_actors w), stored := (stored w)(i := st)\<rparr>)))"

text \<open>
  \<open>_dispatch_internal\<close>. A reentrant turn works on a fresh tracker, which is dropped at its end. Only a
  \<open>DaprInternalError\<close> resets the tracker.
\<close>

definition enter_turn :: "bool \<Rightarrow> 'v state_manager \<Rightarrow> 'v state_manager" where
  "enter_turn reentrant m =
     (if reentrant then (set_state_context (Some ''id'') m)\<lparr>in_reentrancy := True\<rparr> else m\<lparr>in_reentrancy := False\<rparr>)"

definition leave_turn :: "'v state_manager \<Rightarrow> 'v state_manager" where
  "leave_turn m = set_state_context None m"

definition turn_actions ::
  "'v actor_env \<Rightarrow> 'v actor_class \<Rightarrow> method_context \<Rightarrow> 'v prog \<Rightarrow> 'v actor_state \<Rightarrow> pyval res \<times> 'v actor_state" where
  "turn_actions env cls mc action s =
     then_do (run_prog env (cls_on_pre cls mc) s) (\<lambda>_ s1.
     then_do (run_prog env action s1) (\<lambda>v s2.
     then_do (on_post_actor_method_internal env cls mc s2) (\<lambda>_ s3. (Inr v, s3))))"

definition run_turn ::
  "'v actor_env \<Rightarrow> 'v actor_class \<Rightarrow> bool \<Rightarrow> method_context \<Rightarrow> 'v prog \<Rightarrow> 'v actor_state \<Rightarrow> pyval res \<times> 'v actor_state" where
  "run_turn env cls reentrant mc action s =
    (case turn_actions env cls mc action (enter_turn reentrant (fst s), snd s) of (r, s1) \<Rightarrow>
      (let s2 = (case r of Inl e \<Rightarrow> if ex_kind e = DaprInternalError then reset_state_internal s1 else s1
                         | Inr _ \<Rightarrow> s1)
       in (r, leave_turn (fst s2), snd s2)))"

definition dispatch_internal ::
  "'v actor_env \<Rightarrow> 'v actor_class \<Rightarrow> bool \<Rightarrow> string \<Rightarrow> method_context \<Rightarrow> 'v prog \<Rightarrow> 'v actor_manager
   \<Rightarrow> pyval res \<times> 'v actor_manager"
where
  "dispatch_internal env cls reentrant i mc action w0 =
     then_do (if dict_has (active_actors w0) i then (Inr (), w0) else activate_actor env cls i w0) (\<lambda>_ w.
       (case dict_get (active_actors w) i of
          None \<Rightarrow> (Inl (not_activated i), w)
        | Some m \<Rightarrow>
           (case run_turn env cls reentrant mc action (m, stored w i) of (r, m', st) \<Rightarrow>
              (r, w\<lparr>active_actors := dict_set i m' (active_actors w), stored := (stored w)(i := st)\<rparr>))))"

section \<open>Methods, timers, reminders\<close>

text \<open>The message serializer and deserializer are parameters; \<open>ActorMethodDispatcher\<close> is the class's table.\<close>

definition no_method :: "string \<Rightarrow> exn" where
  "no_method name = exc ActorMethodNotFoundError (''type object ActorMethodDispatcher has no method '' @ name)"

definition dispatch_method ::
  "'v actor_env \<Rightarrow> (string \<Rightarrow> pyval res) \<Rightarrow> (pyval \<Rightarrow> string res) \<Rightarrow> 'v actor_class \<Rightarrow> bool \<Rightarrow> string \<Rightarrow> string \<Rightarrow> string
   \<Rightarrow> 'v actor_manager \<Rightarrow> string res \<times> 'v actor_manager"
where
  "dispatch_method env loads dumps cls reentrant i name body w =
    (case dict_get (cls_methods cls) name of
       None \<Rightarrow> (Inl (no_method name), w)
     | Some (takes_arg, f) \<Rightarrow>
         then_do (dispatch_internal env cls reentrant i (create_for_actor name)
             (if takes_arg then (case loads body of Inl e \<Rightarrow> Throw e | Inr v \<Rightarrow> f (Some v)) else f None) w)
           (\<lambda>v w'. (dumps v, w')))"

text \<open>Timers and reminders return None, whatever the callback returns.\<close>

definition without_value :: "pyval res \<times> 's \<Rightarrow> pyval res \<times> 's" where
  "without_value r = (map_sum id (\<lambda>_. PNone) (fst r), snd r)"

text \<open>\<open>timer['callback']\<close> and \<open>timer['data']\<close> are read when the turn runs.\<close>

definition dict_item :: "pyval \<Rightarrow> string \<Rightarrow> pyval res" where
  "dict_item v k = (case v of
     PDict d \<Rightarrow> (case dict_get d k of Some x \<Rightarrow> Inr x | None \<Rightarrow> Inl (exc KeyError (py_repr k)))
   | PList vs \<Rightarrow> Inl (exc TypeError ''list indices must be integers or slices, not str'')
   | PStr r \<Rightarrow> Inl (exc TypeError ''string indices must be integers, not str'')
   | _ \<Rightarrow> Inl (exc TypeError ''object is not subscriptable''))"

definition timer_action :: "'v actor_class \<Rightarrow> pyval \<Rightarrow> 'v prog" where
  "timer_action cls timer = (case dict_item timer ''callback'' of
     Inl e \<Rightarrow> Throw e
   | Inr cb \<Rightarrow> (case dict_item timer ''data'' of
       Inl e \<Rightarrow> Throw e
     | Inr d \<Rightarrow> (case cb of
         PStr n \<Rightarrow> (case dict_get (cls_callbacks cls) n of
             Some f \<Rightarrow> f d
           | None \<Rightarrow> Throw (exc AttributeError ([CHR 39] @ cls_name cls @ [CHR 39] @ '' object has no attribute '' @ py_repr n)))
       | _ \<Rightarrow> Throw (exc TypeError ''attribute name must be string''))))"

definition TIMER_METHOD_NAME :: string where "TIMER_METHOD_NAME = ''fire_timer''"
definition REMINDER_METHOD_NAME :: string where "REMINDER_METHOD_NAME = ''receive_reminder''"

definition fire_timer ::
  "'v actor_env \<Rightarrow> (string \<Rightarrow> pyval res) \<Rightarrow> 'v actor_class \<Rightarrow> bool \<Rightarrow> string \<Rightarrow> string
   \<Rightarrow> 'v actor_manager \<Rightarrow> pyval res \<times> 'v actor_manager"
where
  "fire_timer env loads cls reentrant i body w = (case loads body of
     Inl e \<Rightarrow> (Inl e, w)
   | Inr timer \<Rightarrow> without_value (dispatch_internal env cls reentrant i (create_for_timer TIMER_METHOD_NAME)
       (timer_action cls timer) w))"

text \<open>
  \<open>ActorReminderData.from_dict\<close>. The keys \<open>dueTime\<close> and \<open>period\<close> are required. A failure policy is not read, and
  the ttl is None if there is none.
\<close>

definition b64decode_value :: "pyval \<Rightarrow> string res" where
  "b64decode_value v = (case v of
     PStr s \<Rightarrow> b64decode False s
   | _ \<Rightarrow> Inl (exc TypeError ''argument should be a bytes-like object or ASCII string''))"

definition reminder_from_dict :: "string \<Rightarrow> (string, pyval) dict \<Rightarrow> reminder_args res" where
  "reminder_from_dict name d =
     res_bind (case dict_get d ''data'' of
         None \<Rightarrow> Inr []
       | Some v \<Rightarrow> (case v of
           PNone \<Rightarrow> Inr []
         | PStr s \<Rightarrow> if s = [] then Inr [] else b64decode_value v
         | PList xs \<Rightarrow> if xs = [] then Inr [] else b64decode_value v
         | PDict xs \<Rightarrow> if xs = [] then Inr [] else b64decode_value v
         | _ \<Rightarrow> Inl (exc TypeError ''object has no len()''))) (\<lambda>st.
     res_bind (dict_item (PDict d) ''dueTime'') (\<lambda>due.
     res_bind (dict_item (PDict d) ''period'') (\<lambda>per.
       Inr \<lparr>rm_name = name, rm_state = st, rm_due_time = due, rm_period = per,
         rm_ttl = (case dict_get d ''ttl'' of None \<Rightarrow> PNone | Some t \<Rightarrow> t)\<rparr>)))"

definition unbound_reminder :: exn where
  "unbound_reminder = exc NameError
     (''cannot access free variable '' @ [CHR 39] @ ''reminder_data'' @ [CHR 39] @
      '' where it is not associated with a value in enclosing scope'')"

definition fire_reminder ::
  "'v actor_env \<Rightarrow> (string \<Rightarrow> pyval res) \<Rightarrow> 'v actor_class \<Rightarrow> bool \<Rightarrow> string \<Rightarrow> string \<Rightarrow> string
   \<Rightarrow> 'v actor_manager \<Rightarrow> pyval res \<times> 'v actor_manager"
where
  "fire_reminder env loads cls reentrant i name body w =
    (case cls_receive_reminder cls of
       None \<Rightarrow> (Inl (exc ValueError (cls_name cls @ '' does not implment Remindable.'')), w)
     | Some f \<Rightarrow>
        (case loads body of
           Inl e \<Rightarrow> (Inl e, w)
         | Inr (PDict d) \<Rightarrow>
             (case reminder_from_dict name d of
                Inl e \<Rightarrow> (Inl e, w)
              | Inr args \<Rightarrow>
                  without_value (dispatch_internal env cls reentrant i (create_for_reminder REMINDER_METHOD_NAME) (f args) w))
         | Inr v \<Rightarrow>
             dispatch_internal env cls reentrant i (create_for_reminder REMINDER_METHOD_NAME)
               (Throw unbound_reminder) w))"

section \<open>The runtime\<close>

text \<open>\<open>ActorRuntime\<close>: the managers by type name; a call for another type raises.\<close>

record 'v actor_runtime =
  rt_managers :: "(string, 'v actor_class \<times> 'v actor_manager) dict"
  rt_entities :: "string set"

definition register_actor :: "'v actor_class \<Rightarrow> (string \<Rightarrow> 'v amap) \<Rightarrow> 'v actor_runtime \<Rightarrow> 'v actor_runtime" where
  "register_actor cls st rt =
    (let ms = dict_set (cls_name cls) (cls, \<lparr>active_actors = [], stored = st\<rparr>) (rt_managers rt)
     in rt\<lparr>rt_managers := ms, rt_entities := rt_entities rt \<union> set (dict_keys ms)\<rparr>)"

definition with_manager ::
  "string \<Rightarrow> ('v actor_class \<Rightarrow> 'v actor_manager \<Rightarrow> 'a res \<times> 'v actor_manager) \<Rightarrow> 'v actor_runtime
   \<Rightarrow> 'a res \<times> 'v actor_runtime" where
  "with_manager ty f rt = (case dict_get (rt_managers rt) ty of
     None \<Rightarrow> (Inl (exc ValueError (ty @ '' is not registered.'')), rt)
   | Some (cls, w) \<Rightarrow> (case f cls w of (r, w') \<Rightarrow>
       (r, rt\<lparr>rt_managers := dict_set ty (cls, w') (rt_managers rt)\<rparr>)))"

definition runtime_dispatch ::
  "'v actor_env \<Rightarrow> (string \<Rightarrow> pyval res) \<Rightarrow> (pyval \<Rightarrow> string res) \<Rightarrow> string \<Rightarrow> string \<Rightarrow> string \<Rightarrow> string \<Rightarrow> string option
   \<Rightarrow> 'v actor_runtime \<Rightarrow> string res \<times> 'v actor_runtime" where
  "runtime_dispatch env loads dumps ty i name body reentrancy_id =
     with_manager ty (\<lambda>cls. dispatch_method env loads dumps cls (reentrancy_id \<noteq> None) i name body)"

definition runtime_deactivate ::
  "'v actor_env \<Rightarrow> string \<Rightarrow> string \<Rightarrow> 'v actor_runtime \<Rightarrow> unit res \<times> 'v actor_runtime" where
  "runtime_deactivate env ty i = with_manager ty (\<lambda>cls. deactivate_actor env cls i)"

text \<open>Timers and reminders do not set the reentrancy id.\<close>

definition runtime_fire_timer ::
  "'v actor_env \<Rightarrow> (string \<Rightarrow> pyval res) \<Rightarrow> string \<Rightarrow> string \<Rightarrow> string \<Rightarrow> 'v actor_runtime
   \<Rightarrow> pyval res \<times> 'v actor_runtime" where
  "runtime_fire_timer env loads ty i body = with_manager ty (\<lambda>cls. fire_timer env loads cls False i body)"

definition runtime_fire_reminder ::
  "'v actor_env \<Rightarrow> (string \<Rightarrow> pyval res) \<Rightarrow> string \<Rightarrow> string \<Rightarrow> string \<Rightarrow> string \<Rightarrow> 'v actor_runtime
   \<Rightarrow> pyval res \<times> 'v actor_runtime" where
  "runtime_fire_reminder env loads ty i name body =
     with_manager ty (\<lambda>cls. fire_reminder env loads cls False i name body)"

end
