(* ===== verification/Durations.thy ===== *)
theory Durations
  imports Json WfRetry
begin

text \<open>
  Durations as the serializer writes and reads them (\<open>serializers/util.py\<close>): hours, minutes, seconds,
  milliseconds and microseconds, as in Go.

  A timedelta is its number of microseconds. The code computes in floats; over the durations of the main
  theorem, below \<open>2 ^ 33\<close> seconds, the floats are close enough for the roundings to be those of the
  exact numbers, which the model uses. Strings are in UTF-8, so the Greek letter mu is two characters, and
  digits are the ASCII ones.
\<close>

section \<open>Writing\<close>

abbreviation micro_unit :: string where
  "micro_unit \<equiv> [char_of (206 :: nat), char_of (188 :: nat), CHR ''s'']"

text \<open>\<open>divmod\<close> on the total seconds and on the microseconds; the format \<open>:.0f\<close> rounds half to even.\<close>

definition convert_to_dapr_duration :: "int \<Rightarrow> string" where
  "convert_to_dapr_duration td =
    (let total_minutes = td div 60000000; seconds = td mod 60000000;
         micros = td mod 1000000; milliseconds = micros div 1000; microseconds = micros mod 1000;
         hours = total_minutes div 60; mins = total_minutes mod 60
     in str_of_int hours @ ''h'' @ str_of_int mins @ ''m'' @ str_of_int (round_half_even (seconds_of seconds)) @ ''s'' @
        str_of_int milliseconds @ ''ms'' @ str_of_int microseconds @ micro_unit)"

section \<open>Reading\<close>

text \<open>
  The regular expression: each group is digits and one of its units, and may be left out. A group that can
  be taken is taken if the rest then matches. The expression ends at the end of the string, or before
  a final newline.
\<close>

definition DAPR_DURATION_PARSER :: "string list list" where
  "DAPR_DURATION_PARSER = [[''h''], [''m''], [''s''], [''ms''], [micro_unit, ''us'']]"

definition strip_unit :: "string \<Rightarrow> string \<Rightarrow> string option" where
  "strip_unit u s = (if take (length u) s = u then Some (drop (length u) s) else None)"

definition take_group :: "string \<Rightarrow> string \<Rightarrow> (nat \<times> string) option" where
  "take_group u s = (case s of
     c # _ \<Rightarrow> if digit_val c = None then None
             else (case scan_digits 0 s of (n, r) \<Rightarrow> map_option (Pair n) (strip_unit u r))
   | [] \<Rightarrow> None)"

function match_groups :: "string list list \<Rightarrow> string \<Rightarrow> nat option list option" where
  "match_groups [] s = (if s = [] \<or> s = [CHR 10] then Some [] else None)"
| "match_groups ([] # gs) s = map_option (Cons None) (match_groups gs s)"
| "match_groups ((u # us) # gs) s =
     (case take_group u s of
        None \<Rightarrow> match_groups (us # gs) s
      | Some (n, r) \<Rightarrow> (case match_groups gs r of
          Some ms \<Rightarrow> Some (Some n # ms)
        | None \<Rightarrow> match_groups (us # gs) s))"
  by pat_completeness auto

termination
  by (relation "measure (\<lambda>(gs, s). sum_list (map (Suc \<circ> length) gs))") simp_all

text \<open>The sum of the groups, in microseconds.\<close>

definition duration_of :: "nat option list \<Rightarrow> int" where
  "duration_of ms = sum_list (map2 (\<lambda>m f. int (case m of None \<Rightarrow> 0 | Some n \<Rightarrow> n) * f) ms
     [3600000000, 60000000, 1000000, 1000, 1])"

definition convert_from_dapr_duration :: "string \<Rightarrow> int res" where
  "convert_from_dapr_duration duration = (case match_groups DAPR_DURATION_PARSER duration of
     None \<Rightarrow> Inl (exc ValueError (''Invalid Dapr Duration format: '' @ [CHR 39] @ duration @ [CHR 39]))
   | Some ms \<Rightarrow> (let d = duration_of ms in
       if d \<le> td_max then Inr d else Inl (exc OverflowError ''days; must have magnitude <= 999999999'')))"

text \<open>The decoder takes a string for a duration if some group matched.\<close>

definition is_duration :: "string \<Rightarrow> bool" where
  "is_duration s = (case match_groups DAPR_DURATION_PARSER s of None \<Rightarrow> False | Some ms \<Rightarrow> list_ex (\<lambda>m. m \<noteq> None) ms)"

section \<open>Round trip\<close>

lemma unit_heads: "\<not> non_digit_start (str_of_nat n @ r)"
  using str_of_nat_head [of n] by (auto simp: non_digit_start_def)

lemma take_group_nat:
  "non_digit_start r \<Longrightarrow> take_group u (str_of_nat n @ r) = map_option (Pair n) (strip_unit u r)"
  using str_of_nat_head [of n] scan_digits_nat [of 0 n r]
  by (auto simp: take_group_def split: list.split)

lemma unit_start [simp]:
  "non_digit_start (CHR ''h'' # r)" "non_digit_start (CHR ''m'' # r)" "non_digit_start (CHR ''s'' # r)"
  "non_digit_start (char_of (206 :: nat) # r)"
  by (simp_all add: non_digit_start_def digit_val_def)

text \<open>Seconds are printed with digits only, whether rounded or not.\<close>

lemma match_written:
  "match_groups DAPR_DURATION_PARSER
     (str_of_nat h @ ''h'' @ str_of_nat m @ ''m'' @ str_of_nat s @ ''s'' @ str_of_nat ms @ ''ms'' @ str_of_nat us @ micro_unit) =
   Some [Some h, Some m, Some s, Some ms, Some us]"
  by (simp add: DAPR_DURATION_PARSER_def take_group_nat strip_unit_def)

definition rounds_up :: "int \<Rightarrow> bool" where
  "rounds_up td \<longleftrightarrow> td mod 1000000 > 500000 \<or> td mod 1000000 = 500000 \<and> odd (td mod 60000000 div 1000000)"

lemma round_seconds:
  "round_half_even (seconds_of (td mod 60000000)) = td mod 60000000 div 1000000 + (if rounds_up td then 1 else 0)"
proof -
  let ?s = "td mod 60000000" and ?m = "td mod 1000000"
  have m: "?s mod 1000000 = ?m" by (simp add: mod_mod_cancel)
  have f: "\<lfloor>of_int ?s / (1000000 :: rat)\<rfloor> = ?s div 1000000"
    using floor_divide_of_int_eq [of ?s 1000000, where 'a = rat] by simp
  have "?s = 1000000 * (?s div 1000000) + ?m" using mult_div_mod_eq [of 1000000 ?s] m by simp
  then have "of_int ?s = (1000000 * of_int (?s div 1000000) + of_int ?m :: rat)"
    by (metis of_int_add of_int_mult of_int_numeral)
  then have r: "of_int ?s / 1000000 - of_int (?s div 1000000) = (of_int ?m / 1000000 :: rat)" by (simp add: field_simps)
  have c: "(of_int ?m / 1000000 < (1 / 2 :: rat)) = (?m < 500000)" "(of_int ?m / 1000000 > (1 / 2 :: rat)) = (?m > 500000)"
    by (simp_all add: field_simps)
  show ?thesis
    unfolding round_half_even_def seconds_of_def Let_def f r c rounds_up_def by auto
qed

lemma written_duration_read:
  assumes "0 \<le> td" and "td < 2 ^ 33 * 1000000"
  shows "convert_from_dapr_duration (convert_to_dapr_duration td) = Inr (td + (if rounds_up td then 1000000 else 0))"
proof -
  let ?tm = "td div 60000000" and ?u = "td mod 1000000" and ?R = "round_half_even (seconds_of (td mod 60000000))"
  have pos: "0 \<le> ?tm" "0 \<le> ?u" "0 \<le> ?R" using assms(1) round_seconds [of td] by simp_all
  have w: "convert_to_dapr_duration td =
      str_of_nat (nat (?tm div 60)) @ ''h'' @ str_of_nat (nat (?tm mod 60)) @ ''m'' @ str_of_nat (nat ?R) @ ''s'' @
      str_of_nat (nat (?u div 1000)) @ ''ms'' @ str_of_nat (nat (?u mod 1000)) @ micro_unit"
    using pos by (simp add: convert_to_dapr_duration_def Let_def str_of_int_def not_less pos_imp_zdiv_nonneg_iff)
  have sum: "duration_of [Some (nat (?tm div 60)), Some (nat (?tm mod 60)), Some (nat ?R), Some (nat (?u div 1000)),
      Some (nat (?u mod 1000))] = 3600000000 * (?tm div 60) + 60000000 * (?tm mod 60) + 1000000 * ?R + ?u"
    using pos by (simp add: duration_of_def pos_imp_zdiv_nonneg_iff)
  have "3600000000 * (?tm div 60) + 60000000 * (?tm mod 60) = 60000000 * ?tm"
    using mult_div_mod_eq [of 60 ?tm] by linarith
  moreover have "1000000 * (td mod 60000000 div 1000000) + ?u = td mod 60000000"
    using mult_div_mod_eq [of 1000000 "td mod 60000000"] by (simp add: mod_mod_cancel)
  moreover have "60000000 * ?tm + td mod 60000000 = td" by simp
  ultimately have td: "3600000000 * (?tm div 60) + 60000000 * (?tm mod 60) + 1000000 * ?R + ?u =
      td + (if rounds_up td then 1000000 else 0)"
    unfolding round_seconds distrib_left by (cases "rounds_up td"; simp only: if_True if_False; linarith)
  moreover have "td + (if rounds_up td then 1000000 else 0) \<le> td_max" using assms(2) by (simp add: td_max_def)
  ultimately show ?thesis
    unfolding w convert_from_dapr_duration_def match_written by (simp add: sum Let_def)
qed

text \<open>
  Durations come back as they are, or a second late: reading what the serializer wrote for a
  nonnegative duration below \<open>2 ^ 33\<close> seconds gives the duration if its fraction of a second is below a half,
  or a half after an even second, and otherwise one second more, since the seconds are rounded and the
  fraction is written as well.
\<close>

lemma duration_roundtrip:
  assumes "0 \<le> td" and "td < 2 ^ 33 * 1000000"
  shows "convert_from_dapr_duration (convert_to_dapr_duration td) = Inr (td + (if rounds_up td then 1000000 else 0))"
  by (rule written_duration_read [OF assms])

text \<open>1.25 seconds survive, 1.6 seconds become 2.6.\<close>

lemma duration_roundtrip_witness:
  "convert_from_dapr_duration (convert_to_dapr_duration 1250000) = Inr 1250000 \<and>
   convert_from_dapr_duration (convert_to_dapr_duration 1600000) = Inr 2600000"
  using duration_roundtrip [of 1250000] duration_roundtrip [of 1600000] by (simp add: rounds_up_def)

end
