(* ===== verification/ActorData.thy ===== *)
theory ActorData
  imports ActorRuntime Durations
begin

text \<open>
  What an actor registers with the sidecar: reminders, timers and failure policies
  (\<open>actor/runtime/_reminder_data.py\<close>, \<open>_timer_data.py\<close>, \<open>failure_policy.py\<close>), and the requests that
  \<open>clients/grpc/dapr_actor_grpc_client.py\<close> makes of them.

  The message serializer is a parameter. A string is its UTF-8 bytes, of which the mu of a duration has two.
  The intervals are within the range of a protobuf duration.
\<close>

section \<open>Fields\<close>

text \<open>A timedelta stays an object in the dict that is serialized; \<open>DaprJSONEncoder.default\<close> writes it.\<close>

datatype field = FVal pyval | FDelta int | FDict "(string \<times> field) list" | FList "field list"

primrec encode_default :: "field \<Rightarrow> pyval" where
  "encode_default (FVal v) = v"
| "encode_default (FDelta td) = PStr (convert_to_dapr_duration td)"
| "encode_default (FDict d) = PDict (map (map_prod id encode_default) d)"
| "encode_default (FList fs) = PList (map encode_default fs)"

definition opt_delta :: "int option \<Rightarrow> field" where
  "opt_delta t = (case t of None \<Rightarrow> FVal PNone | Some td \<Rightarrow> FDelta td)"

section \<open>Failure policies\<close>

record failure_policy =
  fp_drop :: bool
  fp_interval :: "int option"
  fp_max_retries :: "int option"

definition new_failure_policy :: "bool \<Rightarrow> int option \<Rightarrow> int option \<Rightarrow> failure_policy res" where
  "new_failure_policy dropping interval max_retries =
    (if dropping \<and> (interval \<noteq> None \<or> max_retries \<noteq> None)
       then Inl (exc ValueError ''drop policy cannot be combined with interval or max_retries'')
     else if \<not> dropping \<and> interval = None \<and> max_retries = None
       then Inl (exc ValueError ''specify either drop=True or at least one of interval or max_retries'')
     else Inr \<lparr>fp_drop = dropping, fp_interval = interval, fp_max_retries = max_retries\<rparr>)"

definition drop_policy :: "failure_policy res" where
  "drop_policy = new_failure_policy True None None"

definition constant_policy :: "int option \<Rightarrow> int option \<Rightarrow> failure_policy res" where
  "constant_policy interval max_retries = new_failure_policy False interval max_retries"

definition opt_item :: "string \<Rightarrow> 'a option \<Rightarrow> ('a \<Rightarrow> field) \<Rightarrow> (string \<times> field) list" where
  "opt_item k x f = (case x of None \<Rightarrow> [] | Some v \<Rightarrow> [(k, f v)])"

definition failure_policy_as_dict :: "failure_policy \<Rightarrow> (string \<times> field) list" where
  "failure_policy_as_dict p =
    (if fp_drop p then [(''drop'', FDict [])]
     else [(''constant'', FDict
       (opt_item ''interval'' (fp_interval p) FDelta @ opt_item ''maxRetries'' (fp_max_retries p) (FVal \<circ> PInt)))])"

section \<open>Reminders and timers\<close>

record reminder_data =
  rd_name :: string
  rd_state :: string
  rd_due_time :: int
  rd_period :: "int option"
  rd_ttl :: "int option"
  rd_failure_policy :: "failure_policy option"

definition reminder_as_dict :: "reminder_data \<Rightarrow> (string \<times> field) list" where
  "reminder_as_dict r =
    [(''reminderName'', FVal (PStr (rd_name r))), (''dueTime'', FDelta (rd_due_time r)),
     (''period'', opt_delta (rd_period r)), (''data'', FVal (PStr (b64encode (rd_state r))))] @
    opt_item ''ttl'' (rd_ttl r) FDelta @
    opt_item ''failurePolicy'' (rd_failure_policy r) (FDict \<circ> failure_policy_as_dict)"

record timer_data =
  td_callback :: string
  td_state :: pyval
  td_due_time :: int
  td_period :: int
  td_ttl :: "int option"

text \<open>A ttl of zero is dropped here, and kept in a reminder.\<close>

definition timer_as_dict :: "timer_data \<Rightarrow> (string \<times> field) list" where
  "timer_as_dict t =
    [(''callback'', FVal (PStr (td_callback t))), (''data'', FVal (td_state t)),
     (''dueTime'', FDelta (td_due_time t)), (''period'', FDelta (td_period t))] @
    (case td_ttl t of None \<Rightarrow> [] | Some d \<Rightarrow> if d = 0 then [] else [(''ttl'', FDelta d)])"

section \<open>Requests over gRPC\<close>

datatype proto_policy = PolicyDrop | PolicyConstant "int option" "int option"

record reminder_registration =
  rr_name :: string
  rr_due_time :: string
  rr_period :: string
  rr_ttl :: string
  rr_data :: string
  rr_failure_policy :: "proto_policy option"

record timer_registration =
  tr_name :: string
  tr_due_time :: string
  tr_period :: string
  tr_ttl :: string
  tr_callback :: string
  tr_data :: string

text \<open>\<open>d.get(k)\<close>, and \<open>d.get(k) or ''\<close> as the value of a string field.\<close>

definition py_get :: "pyval \<Rightarrow> string \<Rightarrow> pyval res" where
  "py_get v k = (case v of
     PDict d \<Rightarrow> Inr (case dict_get d k of Some x \<Rightarrow> x | None \<Rightarrow> PNone)
   | _ \<Rightarrow> Inl (exc AttributeError (''object has no attribute '' @ py_repr ''get'')))"

definition pb_string :: "pyval \<Rightarrow> string res" where
  "pb_string v = (case v of PStr s \<Rightarrow> Inr s | _ \<Rightarrow> Inl (exc TypeError ''bad argument type for built-in operation''))"

definition get_or_empty :: "pyval \<Rightarrow> string \<Rightarrow> string res" where
  "get_or_empty v k = res_bind (py_get v k) (\<lambda>x. pb_string (if truthy x then x else PStr []))"

definition pb_uint32 :: "pyval \<Rightarrow> int res" where
  "pb_uint32 v = (case v of
     PInt i \<Rightarrow> if 0 \<le> i \<and> i < 2 ^ 32 then Inr i else Inl (exc ValueError ''Value out of range'')
   | PBool b \<Rightarrow> Inr (if b then 1 else 0)
   | _ \<Rightarrow> Inl (exc TypeError ''bad argument type for built-in operation''))"

definition decode_reminder_state :: "pyval \<Rightarrow> string res" where
  "decode_reminder_state encoded = (if truthy encoded then b64decode_value encoded else Inr [])"

definition opt_res :: "pyval \<Rightarrow> (pyval \<Rightarrow> 'a res) \<Rightarrow> 'a option res" where
  "opt_res v f = (if v = PNone then Inr None else map_sum id Some (f v))"

definition interval_of :: "pyval \<Rightarrow> int res" where
  "interval_of v = (case v of
     PStr s \<Rightarrow> convert_from_dapr_duration s
   | _ \<Rightarrow> Inl (exc TypeError ''expected string or bytes-like object''))"

text \<open>\<open>'drop' in policy\<close> of a dict.\<close>

definition to_failure_policy :: "(pyval \<Rightarrow> string) \<Rightarrow> pyval \<Rightarrow> proto_policy option res" where
  "to_failure_policy repr policy = (case policy of
     PNone \<Rightarrow> Inr None
   | PDict d \<Rightarrow>
       if dict_has d ''drop'' then Inr (Some PolicyDrop)
       else (case dict_get d ''constant'' of
           None \<Rightarrow> Inl (exc DaprInternalError (''unsupported reminder failure policy: '' @ repr policy))
         | Some PNone \<Rightarrow> Inl (exc DaprInternalError (''unsupported reminder failure policy: '' @ repr policy))
         | Some c \<Rightarrow>
             res_bind (py_get c ''interval'') (\<lambda>i.
             res_bind (opt_res i interval_of) (\<lambda>interval.
             res_bind (py_get c ''maxRetries'') (\<lambda>m.
             res_bind (opt_res m pb_uint32) (\<lambda>max_retries.
               Inr (Some (PolicyConstant interval max_retries)))))))
   | _ \<Rightarrow> Inl (exc TypeError ''not a dict''))"

definition grpc_register_reminder :: "(pyval \<Rightarrow> string) \<Rightarrow> string \<Rightarrow> string \<Rightarrow> reminder_registration res" where
  "grpc_register_reminder repr name body =
     res_bind (json_loads body) (\<lambda>reminder.
     res_bind (dict_item reminder ''dueTime'') (\<lambda>due.
     res_bind (pb_string due) (\<lambda>due_time.
     res_bind (get_or_empty reminder ''period'') (\<lambda>period.
     res_bind (get_or_empty reminder ''ttl'') (\<lambda>ttl.
     res_bind (res_bind (py_get reminder ''data'') decode_reminder_state) (\<lambda>data.
     res_bind (res_bind (py_get reminder ''failurePolicy'') (to_failure_policy repr)) (\<lambda>policy.
       Inr \<lparr>rr_name = name, rr_due_time = due_time, rr_period = period, rr_ttl = ttl, rr_data = data,
         rr_failure_policy = policy\<rparr>)))))))"

definition grpc_register_timer :: "(pyval \<Rightarrow> string res) \<Rightarrow> string \<Rightarrow> string \<Rightarrow> timer_registration res" where
  "grpc_register_timer dumps name body =
     res_bind (json_loads body) (\<lambda>timer.
     res_bind (py_get timer ''data'') (\<lambda>timer_state.
     res_bind (dict_item timer ''dueTime'') (\<lambda>due.
     res_bind (pb_string due) (\<lambda>due_time.
     res_bind (get_or_empty timer ''period'') (\<lambda>period.
     res_bind (get_or_empty timer ''ttl'') (\<lambda>ttl.
     res_bind (get_or_empty timer ''callback'') (\<lambda>callback.
     res_bind (dumps timer_state) (\<lambda>data.
       Inr \<lparr>tr_name = name, tr_due_time = due_time, tr_period = period, tr_ttl = ttl, tr_callback = callback,
         tr_data = data\<rparr>))))))))"

section \<open>What an actor's registration sends\<close>

text \<open>\<open>Actor.register_reminder\<close> and \<open>register_timer\<close>: the body is the serialized dict.\<close>

definition actor_register_reminder ::
  "(pyval \<Rightarrow> string res) \<Rightarrow> (pyval \<Rightarrow> string) \<Rightarrow> reminder_data \<Rightarrow> reminder_registration res" where
  "actor_register_reminder dumps repr r =
     res_bind (dumps (encode_default (FDict (reminder_as_dict r)))) (grpc_register_reminder repr (rd_name r))"

definition actor_register_timer ::
  "(pyval \<Rightarrow> string res) \<Rightarrow> string \<Rightarrow> timer_data \<Rightarrow> timer_registration res" where
  "actor_register_timer dumps name t =
     res_bind (dumps (encode_default (FDict (timer_as_dict t)))) (grpc_register_timer dumps name)"

end
