(* ===== verification/ActorCallbacks.thy ===== *)
theory ActorCallbacks
  imports ActorData "HOL-Library.List_Lexorder"
begin

text \<open>
  The payloads of the actor event stream (\<open>actor/runtime/_grpc_callbacks.py\<close>): the registration message made
  from the configuration (\<open>config.py\<close>), the callbacks of the sidecar, and the bodies, errors and status codes
  made for them. Bodies are ASCII texts.
\<close>

section \<open>Configuration\<close>

record reentrancy_config =
  rc_enabled :: bool
  rc_max_stack_depth :: int

record type_config =
  tc_actor_type :: string
  tc_actor_idle_timeout :: "int option"
  tc_actor_scan_interval :: "int option"
  tc_drain_ongoing_call_timeout :: "int option"
  tc_drain_rebalanced_actors :: "bool option"
  tc_reentrancy :: "reentrancy_config option"
  tc_reminders_storage_partitions :: "int option"

record runtime_config =
  cf_entities :: "string set"
  cf_actor_idle_timeout :: "int option"
  cf_actor_scan_interval :: "int option"
  cf_drain_ongoing_call_timeout :: "int option"
  cf_drain_rebalanced_actors :: "bool option"
  cf_reentrancy :: "reentrancy_config option"
  cf_reminders_storage_partitions :: "int option"
  cf_type_configs :: "type_config list"

definition update_entities :: "string list \<Rightarrow> runtime_config \<Rightarrow> runtime_config" where
  "update_entities es c = c\<lparr>cf_entities := cf_entities c \<union> set es\<rparr>"

definition reentrancy_as_dict :: "reentrancy_config \<Rightarrow> (string \<times> field) list" where
  "reentrancy_as_dict r =
    [(''enabled'', FVal (PBool (rc_enabled r))), (''maxStackDepth'', FVal (PInt (rc_max_stack_depth r)))]"

text \<open>A number of partitions of zero is left out, as no number.\<close>

definition partitions_item :: "int option \<Rightarrow> (string \<times> field) list" where
  "partitions_item n = (case n of
     None \<Rightarrow> [] | Some i \<Rightarrow> if i = 0 then [] else [(''remindersStoragePartitions'', FVal (PInt i))])"

definition type_config_as_dict :: "type_config \<Rightarrow> (string \<times> field) list" where
  "type_config_as_dict c =
    [(''entities'', FVal (PList [PStr (tc_actor_type c)]))] @
    opt_item ''actorIdleTimeout'' (tc_actor_idle_timeout c) FDelta @
    opt_item ''actorScanInterval'' (tc_actor_scan_interval c) FDelta @
    opt_item ''drainOngoingCallTimeout'' (tc_drain_ongoing_call_timeout c) FDelta @
    opt_item ''drainRebalancedActors'' (tc_drain_rebalanced_actors c) (FVal \<circ> PBool) @
    opt_item ''reentrancy'' (tc_reentrancy c) (FDict \<circ> reentrancy_as_dict) @
    partitions_item (tc_reminders_storage_partitions c)"

text \<open>
  \<open>ActorRuntimeConfig.as_dict\<close>, which also adds the types of the type configurations to the entities. The order
  in which a Python set is listed is a parameter.
\<close>

definition config_as_dict ::
  "(string set \<Rightarrow> string list) \<Rightarrow> runtime_config \<Rightarrow> (string \<times> field) list \<times> runtime_config" where
  "config_as_dict listed c =
    (let es = cf_entities c \<union> set (map tc_actor_type (cf_type_configs c)) in
     ([(''actorIdleTimeout'', opt_delta (cf_actor_idle_timeout c)),
       (''actorScanInterval'', opt_delta (cf_actor_scan_interval c)),
       (''drainRebalancedActors'', (case cf_drain_rebalanced_actors c of None \<Rightarrow> FVal PNone | Some b \<Rightarrow> FVal (PBool b)))] @
      opt_item ''drainOngoingCallTimeout'' (cf_drain_ongoing_call_timeout c) FDelta @
      opt_item ''reentrancy'' (cf_reentrancy c) (FDict \<circ> reentrancy_as_dict) @
      partitions_item (cf_reminders_storage_partitions c) @
      [(''entitiesConfig'', FList (map (FDict \<circ> type_config_as_dict) (cf_type_configs c))),
       (''entities'', FVal (PList (map PStr (listed es))))],
      c\<lparr>cf_entities := es\<rparr>))"

text \<open>The registration message: what is not set stays unset.\<close>

record entity_registration =
  er_entities :: "string list"
  er_actor_idle_timeout :: "int option"
  er_drain_ongoing_call_timeout :: "int option"
  er_drain_rebalanced_actors :: "bool option"
  er_reentrancy :: "reentrancy_config option"

record initial_request =
  ir_entities :: "string list"
  ir_actor_idle_timeout :: "int option"
  ir_drain_ongoing_call_timeout :: "int option"
  ir_drain_rebalanced_actors :: "bool option"
  ir_reentrancy :: "reentrancy_config option"
  ir_entities_config :: "entity_registration list"

definition entity_config_to_proto :: "type_config \<Rightarrow> entity_registration" where
  "entity_config_to_proto c = \<lparr>er_entities = [tc_actor_type c], er_actor_idle_timeout = tc_actor_idle_timeout c,
     er_drain_ongoing_call_timeout = tc_drain_ongoing_call_timeout c,
     er_drain_rebalanced_actors = tc_drain_rebalanced_actors c, er_reentrancy = tc_reentrancy c\<rparr>"

definition build_initial_request :: "runtime_config \<Rightarrow> initial_request" where
  "build_initial_request c =
     \<lparr>ir_entities = sorted_list_of_set (cf_entities c \<union> set (map tc_actor_type (cf_type_configs c))),
      ir_actor_idle_timeout = cf_actor_idle_timeout c,
      ir_drain_ongoing_call_timeout = cf_drain_ongoing_call_timeout c,
      ir_drain_rebalanced_actors = cf_drain_rebalanced_actors c, ir_reentrancy = cf_reentrancy c,
      ir_entities_config = map entity_config_to_proto (cf_type_configs c)\<rparr>"

section \<open>Callbacks\<close>

text \<open>The data of a reminder or a timer: a \<open>google.protobuf.Any\<close> with a \<open>BytesValue\<close>, or another one.\<close>

datatype any_payload = BytesValueAny string | OtherAny string

record invoke_request =
  iv_id :: string
  iv_actor_type :: string
  iv_actor_id :: string
  iv_method :: string
  iv_data :: string
  iv_metadata :: "(string \<times> string) list"

record reminder_request =
  rq_id :: string
  rq_actor_type :: string
  rq_actor_id :: string
  rq_name :: string
  rq_due_time :: string
  rq_period :: string
  rq_data :: "any_payload option"

record timer_request =
  tq_id :: string
  tq_actor_type :: string
  tq_actor_id :: string
  tq_name :: string
  tq_callback :: string
  tq_due_time :: string
  tq_period :: string
  tq_data :: "any_payload option"

record deactivate_request =
  dq_id :: string
  dq_actor_type :: string
  dq_actor_id :: string

definition DAPR_REENTRANCY_ID_HEADER :: string where
  "DAPR_REENTRANCY_ID_HEADER = ''Dapr-Reentrancy-Id''"

fun extract_reentrancy_id :: "(string \<times> string) list \<Rightarrow> string option" where
  "extract_reentrancy_id [] = None"
| "extract_reentrancy_id ((key, v) # m) =
    (if str_lower key = str_lower DAPR_REENTRANCY_ID_HEADER then Some v else extract_reentrancy_id m)"

definition any_to_json_value :: "any_payload option \<Rightarrow> string option" where
  "any_to_json_value data = (case data of
     None \<Rightarrow> None
   | Some (BytesValueAny b) \<Rightarrow> if b = [] then None else Some b
   | Some (OtherAny b) \<Rightarrow> if b = [] then None else Some b)"

definition parse_json_value :: "string \<Rightarrow> string \<Rightarrow> pyval res" where
  "parse_json_value v callback_kind = (case json_loads v of
     Inl e \<Rightarrow> Inl (exc ActorPayloadDecodeError (callback_kind @ '' data is not valid JSON: '' @ ex_msg e))
   | Inr x \<Rightarrow> Inr x)"

definition maybe_unwrap_grpc_registered_value :: "string \<Rightarrow> string" where
  "maybe_unwrap_grpc_registered_value v = (case json_loads v of
     Inr (PStr parsed) \<Rightarrow>
       (case b64decode True parsed of
          Inr decoded \<Rightarrow> (case json_loads decoded of Inr x \<Rightarrow> decoded | Inl e \<Rightarrow> v)
        | Inl e \<Rightarrow> v)
   | _ \<Rightarrow> v)"

definition build_reminder_fire_body :: "reminder_request \<Rightarrow> string res" where
  "build_reminder_fire_body r =
    (let body = [(''dueTime'', PStr (rq_due_time r)), (''period'', PStr (rq_period r))] in
     case any_to_json_value (rq_data r) of
       None \<Rightarrow> Inr (json_text (PDict body))
     | Some v \<Rightarrow> res_bind (parse_json_value v ''reminder'') (\<lambda>x. Inr (json_text (PDict (body @ [(''data'', x)])))))"

definition build_timer_fire_body :: "timer_request \<Rightarrow> string res" where
  "build_timer_fire_body r =
    (let body = (\<lambda>x. [(''callback'', PStr (tq_callback r)), (''dueTime'', PStr (tq_due_time r)),
                      (''period'', PStr (tq_period r)), (''data'', x)]) in
     case any_to_json_value (tq_data r) of
       None \<Rightarrow> Inr (json_text (PDict (body PNone)))
     | Some v \<Rightarrow>
         res_bind (parse_json_value (maybe_unwrap_grpc_registered_value v) ''timer'') (\<lambda>x.
           Inr (json_text (PDict (body x)))))"

section \<open>Errors\<close>

text \<open>What an exception prints as (\<open>repr\<close>) and the fields of a \<open>DaprInternalError\<close> are parameters.\<close>

record exn_texts =
  et_repr :: "exn \<Rightarrow> string"
  et_safe_dict :: "exn \<Rightarrow> (string \<times> pyval) list"

definition build_invoke_error_payload :: "exn_texts \<Rightarrow> exn \<Rightarrow> string" where
  "build_invoke_error_payload et e = json_text (PDict
     (if ex_kind e = DaprInternalError then et_safe_dict et e
      else [(''message'', PStr (et_repr et e)), (''errorCode'', PStr ''UNKNOWN'')]))"

text \<open>The subclasses of \<open>ActorNotFoundError\<close>, and the numbers of \<open>NOT_FOUND\<close>, \<open>INVALID_ARGUMENT\<close> and \<open>UNKNOWN\<close>.\<close>

definition status_code_for_exception :: "exn \<Rightarrow> nat" where
  "status_code_for_exception e =
    (if ex_kind e \<in> {ActorTypeNotFoundError, ActorMethodNotFoundError} then 5
     else if ex_kind e = ActorPayloadDecodeError then 3
     else 2)"

end
