(* ===== verification/ActorHost.thy ===== *)
theory ActorHost
  imports ActorCallbacks "HOL-Library.Multiset"
begin

text \<open>
  The host of actors over a gRPC stream (\<open>actor/runtime/grpc_host.py\<close>): the handlers of the callbacks, the
  sessions with their write lock, the loop that reconnects, and the life cycle of the host.

  A dispatch is a task of its own. The sidecar runs one turn of an actor at a time, so a handler is one step on
  the runtime; the tasks interleave between the arrival of a callback, its handling, and the writing of its
  reply. \<open>asyncio\<close> locks have one holder.
\<close>

section \<open>Handlers\<close>

datatype callback =
    InvokeCb invoke_request | ReminderCb reminder_request | TimerCb timer_request
  | DeactivateCb deactivate_request | InitialResponseCb | UnknownCb

datatype reply =
    InvokeResponse string string bool
  | ReminderResponse string | TimerResponse string | DeactivateResponse string
  | RequestFailed string nat string

text \<open>What the handlers use: the environment of the actors, the message serializer, the texts of exceptions.\<close>

record 'v host_env =
  he_actors :: "'v actor_env"
  he_loads :: "string \<Rightarrow> pyval res"
  he_dumps :: "pyval \<Rightarrow> string res"
  he_texts :: exn_texts

definition request_failed :: "string \<Rightarrow> exn \<Rightarrow> reply" where
  "request_failed i e = RequestFailed i (status_code_for_exception e) (ex_msg e)"

definition on_invoke :: "'v host_env \<Rightarrow> invoke_request \<Rightarrow> 'v actor_runtime \<Rightarrow> reply \<times> 'v actor_runtime" where
  "on_invoke he q rt =
    (case runtime_dispatch (he_actors he) (he_loads he) (he_dumps he) (iv_actor_type q) (iv_actor_id q) (iv_method q)
        (iv_data q) (extract_reentrancy_id (iv_metadata q)) rt of
       (Inr result, rt') \<Rightarrow> (InvokeResponse (iv_id q) result False, rt')
     | (Inl e, rt') \<Rightarrow>
         (if ex_kind e = ActorMethodNotFoundError then request_failed (iv_id q) e
          else InvokeResponse (iv_id q) (build_invoke_error_payload (he_texts he) e) True, rt'))"

definition on_reminder :: "'v host_env \<Rightarrow> reminder_request \<Rightarrow> 'v actor_runtime \<Rightarrow> reply \<times> 'v actor_runtime" where
  "on_reminder he q rt =
    (case build_reminder_fire_body q of
       Inl e \<Rightarrow> (request_failed (rq_id q) e, rt)
     | Inr body \<Rightarrow>
        (case runtime_fire_reminder (he_actors he) (he_loads he) (rq_actor_type q) (rq_actor_id q) (rq_name q) body rt of
           (Inl e, rt') \<Rightarrow> (request_failed (rq_id q) e, rt')
         | (Inr _, rt') \<Rightarrow> (ReminderResponse (rq_id q), rt')))"

definition on_timer :: "'v host_env \<Rightarrow> timer_request \<Rightarrow> 'v actor_runtime \<Rightarrow> reply \<times> 'v actor_runtime" where
  "on_timer he q rt =
    (case build_timer_fire_body q of
       Inl e \<Rightarrow> (request_failed (tq_id q) e, rt)
     | Inr body \<Rightarrow>
        (case runtime_fire_timer (he_actors he) (he_loads he) (tq_actor_type q) (tq_actor_id q) body rt of
           (Inl e, rt') \<Rightarrow> (request_failed (tq_id q) e, rt')
         | (Inr _, rt') \<Rightarrow> (TimerResponse (tq_id q), rt')))"

definition on_deactivate :: "'v host_env \<Rightarrow> deactivate_request \<Rightarrow> 'v actor_runtime \<Rightarrow> reply \<times> 'v actor_runtime" where
  "on_deactivate he q rt =
    (case runtime_deactivate (he_actors he) (dq_actor_type q) (dq_actor_id q) rt of
       (Inl e, rt') \<Rightarrow> (request_failed (dq_id q) e, rt')
     | (Inr _, rt') \<Rightarrow> (DeactivateResponse (dq_id q), rt'))"

definition get_registered_actor_types :: "'v actor_runtime \<Rightarrow> string list" where
  "get_registered_actor_types rt = dict_keys (rt_managers rt)"

definition guard_and_handle ::
  "string \<Rightarrow> string \<Rightarrow> ('v actor_runtime \<Rightarrow> reply \<times> 'v actor_runtime) \<Rightarrow> 'v actor_runtime \<Rightarrow> reply \<times> 'v actor_runtime" where
  "guard_and_handle i ty handler rt =
    (if ty \<notin> set (get_registered_actor_types rt)
       then (request_failed i (exc ActorTypeNotFoundError (ty @ '' is not registered.'')), rt)
     else handler rt)"

text \<open>\<open>_dispatch\<close>: no reply to a message that is not a callback.\<close>

definition host_dispatch :: "'v host_env \<Rightarrow> callback \<Rightarrow> 'v actor_runtime \<Rightarrow> (reply \<times> 'v actor_runtime) option" where
  "host_dispatch he m rt = (case m of
     InvokeCb q \<Rightarrow> Some (guard_and_handle (iv_id q) (iv_actor_type q) (on_invoke he q) rt)
   | ReminderCb q \<Rightarrow> Some (guard_and_handle (rq_id q) (rq_actor_type q) (on_reminder he q) rt)
   | TimerCb q \<Rightarrow> Some (guard_and_handle (tq_id q) (tq_actor_type q) (on_timer he q) rt)
   | DeactivateCb q \<Rightarrow> Some (guard_and_handle (dq_id q) (dq_actor_type q) (on_deactivate he q) rt)
   | _ \<Rightarrow> None)"

section \<open>Sessions\<close>

text \<open>
  A session: whether it is closed, what its lock's holder is writing, what was read from and written to its
  stream. The lists are a record for the theorems: a reply is kept with the callback it is for, and the
  replies that \<open>send\<close> dropped, or whose write failed or raised, are collected.
\<close>

type_synonym answer = "callback \<times> reply"

record session =
  ss_closed :: bool
  ss_writing :: "answer option"
  ss_received :: "callback list"
  ss_sent :: "answer list"
  ss_lost :: "answer list"
  ss_raised :: "answer list"

definition new_session :: session where
  "new_session = \<lparr>ss_closed = False, ss_writing = None, ss_received = [], ss_sent = [], ss_lost = [], ss_raised = []\<rparr>"

text \<open>A dispatch task: it handles a callback, or waits for the lock to send its reply.\<close>

datatype dispatch_task = Handling nat callback | Replying nat answer

record 'v host =
  h_runtime :: "'v actor_runtime"
  h_sessions :: "session list"
  h_current :: "nat option"
  h_tasks :: "dispatch_task multiset"

definition upd_session :: "nat \<Rightarrow> (session \<Rightarrow> session) \<Rightarrow> 'v host \<Rightarrow> 'v host" where
  "upd_session k f h = h\<lparr>h_sessions := (h_sessions h)[k := f (h_sessions h ! k)]\<rparr>"

definition open_session :: "'v host \<Rightarrow> 'v host" where
  "open_session h = h\<lparr>h_sessions := h_sessions h @ [new_session], h_current := Some (length (h_sessions h))\<rparr>"

definition receive :: "nat \<Rightarrow> callback \<Rightarrow> 'v host \<Rightarrow> 'v host" where
  "receive k m h = (upd_session k (\<lambda>s. s\<lparr>ss_received := ss_received s @ [m]\<rparr>) h)
     \<lparr>h_tasks := h_tasks h + {#Handling k m#}\<rparr>"

text \<open>The \<open>finally\<close> of \<open>_run_session\<close>, and \<open>session.close()\<close> in \<open>stop\<close>.\<close>

definition end_session :: "nat \<Rightarrow> 'v host \<Rightarrow> 'v host" where
  "end_session k h = (upd_session k (\<lambda>s. s\<lparr>ss_closed := True\<rparr>) h)\<lparr>h_current := None\<rparr>"

definition close_session :: "nat \<Rightarrow> 'v host \<Rightarrow> 'v host" where
  "close_session k = upd_session k (\<lambda>s. s\<lparr>ss_closed := True\<rparr>)"

definition without_task :: "dispatch_task \<Rightarrow> 'v host \<Rightarrow> 'v host" where
  "without_task t h = h\<lparr>h_tasks := h_tasks h - {#t#}\<rparr>"

definition with_task :: "dispatch_task \<Rightarrow> 'v host \<Rightarrow> 'v host" where
  "with_task t h = h\<lparr>h_tasks := h_tasks h + {#t#}\<rparr>"

text \<open>
  \<open>send\<close> in its parts: with the lock, the reply is dropped if the session is closed, otherwise written. A write
  succeeds, fails with \<open>AioRpcError\<close>, which closes the session, or raises something else, which ends the
  task. The cancelling of tasks that outlive the drain of \<open>stop\<close> is not modelled.
\<close>

inductive task_step :: "'v host_env \<Rightarrow> 'v host \<Rightarrow> 'v host \<Rightarrow> bool" for he where
  Handle: "Handling k m \<in># h_tasks h \<Longrightarrow> host_dispatch he m (h_runtime h) = Some (r, rt) \<Longrightarrow>
    task_step he h (with_task (Replying k (m, r)) (without_task (Handling k m) (h\<lparr>h_runtime := rt\<rparr>)))"
| Ignore: "Handling k m \<in># h_tasks h \<Longrightarrow> host_dispatch he m (h_runtime h) = None \<Longrightarrow>
    task_step he h (without_task (Handling k m) h)"
| Drop: "Replying k a \<in># h_tasks h \<Longrightarrow> ss_writing (h_sessions h ! k) = None \<Longrightarrow> ss_closed (h_sessions h ! k) \<Longrightarrow>
    task_step he h (upd_session k (\<lambda>s. s\<lparr>ss_lost := ss_lost s @ [a]\<rparr>) (without_task (Replying k a) h))"
| Write: "Replying k a \<in># h_tasks h \<Longrightarrow> ss_writing (h_sessions h ! k) = None \<Longrightarrow> \<not> ss_closed (h_sessions h ! k) \<Longrightarrow>
    task_step he h (upd_session k (\<lambda>s. s\<lparr>ss_writing := Some a\<rparr>) (without_task (Replying k a) h))"
| Written: "k < length (h_sessions h) \<Longrightarrow> ss_writing (h_sessions h ! k) = Some a \<Longrightarrow>
    task_step he h (upd_session k (\<lambda>s. s\<lparr>ss_writing := None, ss_sent := ss_sent s @ [a]\<rparr>) h)"
| WriteFails: "k < length (h_sessions h) \<Longrightarrow> ss_writing (h_sessions h ! k) = Some a \<Longrightarrow>
    task_step he h (upd_session k (\<lambda>s. s\<lparr>ss_writing := None, ss_closed := True, ss_lost := ss_lost s @ [a]\<rparr>) h)"
| WriteRaises: "k < length (h_sessions h) \<Longrightarrow> ss_writing (h_sessions h ! k) = Some a \<Longrightarrow>
    task_step he h (upd_session k (\<lambda>s. s\<lparr>ss_writing := None, ss_raised := ss_raised s @ [a]\<rparr>) h)"

inductive_cases task_stepE: "task_step he h h'"

text \<open>The reader of the current stream, and \<open>stop\<close>.\<close>

inductive host_step :: "'v host_env \<Rightarrow> 'v host \<Rightarrow> 'v host \<Rightarrow> bool" for he where
  Task: "task_step he h h' \<Longrightarrow> host_step he h h'"
| Open: "h_current h = None \<Longrightarrow> host_step he h (open_session h)"
| Receive: "h_current h = Some k \<Longrightarrow> host_step he h (receive k m h)"
| EndSession: "h_current h = Some k \<Longrightarrow> host_step he h (end_session k h)"
| CloseSession: "h_current h = Some k \<Longrightarrow> host_step he h (close_session k h)"

text \<open>A host that is about to start.\<close>

definition new_host :: "'v actor_runtime \<Rightarrow> 'v host" where
  "new_host rt = \<lparr>h_runtime = rt, h_sessions = [], h_current = None, h_tasks = {#}\<rparr>"

definition host_reach :: "'v host_env \<Rightarrow> 'v actor_runtime \<Rightarrow> 'v host \<Rightarrow> bool" where
  "host_reach he rt h \<longleftrightarrow> rtranclp (host_step he) (new_host rt) h"

end
