(* ===== verification/ActorRuntimeProps.thy ===== *)
theory ActorRuntimeProps
  imports ActorRuntime
begin

text \<open>
  What a turn of an actor does to its stored state: all or nothing on success and on internal failures,
  and what happens after an exception of the application and across reentrant and plain turns.
\<close>

section \<open>Programs over the abstract map\<close>

primrec spec_prog :: "'v prog \<Rightarrow> 'v amap \<Rightarrow> pyval res \<times> 'v amap" where
  "spec_prog (Finish v) = (\<lambda>B. (Inr v, B))"
| "spec_prog (Throw e) = (\<lambda>B. (Inl e, B))"
| "spec_prog (Access c k) = (\<lambda>B. case spec_call c B of (r, B') \<Rightarrow> spec_prog (k r) B')"
| "spec_prog (Save k) = spec_prog (k (Inr ()))"

primrec no_save :: "'v prog \<Rightarrow> bool" where
  "no_save (Finish v) = True"
| "no_save (Throw e) = True"
| "no_save (Access c k) = (\<forall>r. no_save (k r))"
| "no_save (Save k) = False"

definition good_env :: "'v actor_env \<Rightarrow> bool" where
  "good_env env \<longleftrightarrow> (\<forall>A. stores (env_deser env) (env_read env A) A)"

definition spec_turn :: "'v actor_class \<Rightarrow> method_context \<Rightarrow> 'v prog \<Rightarrow> 'v amap \<Rightarrow> pyval res \<times> 'v amap" where
  "spec_turn cls mc action B =
     then_do (spec_prog (cls_on_pre cls mc) B) (\<lambda>_ B1.
     then_do (spec_prog action B1) (\<lambda>v B2.
     then_do (spec_prog (cls_on_post cls mc) B2) (\<lambda>_ B3. (Inr v, B3))))"

lemma then_do_simps [simp]:
  "then_do (Inl e, s) f = (Inl e, s)" "then_do (Inr x, s) f = f x s"
  by (simp_all add: then_do_def)

lemma view_of_Nil [simp]: "view_of A [] = A"
  by (simp add: view_of_def fun_eq_iff)

lemma in_reentrancy_set [simp]:
  "in_reentrancy (set_tracker t m) = in_reentrancy m"
  by (simp add: set_tracker_def)

lemma in_reentrancy_run_call [simp]: "in_reentrancy (snd (run_call deser read c m)) = in_reentrancy m"
  by (cases c) (auto simp: state_op_defs track_def untrack_def split: option.splits sum.splits change_kind.splits prod.splits bool.splits)

text \<open>Outside of reentrancy a turn works on the default tracker.\<close>

definition plain :: "'v state_manager \<Rightarrow> bool" where
  "plain m \<longleftrightarrow> \<not> in_reentrancy m"

lemma plain_tracker: "plain m \<Longrightarrow> state_tracker m = default_tracker m"
  by (simp add: plain_def state_tracker_def split: option.split)

lemma run_prog_simulates:
  assumes "good_env env" and "no_save p" and "tracker_ok A (state_tracker m)"
  shows "\<exists>m'. run_prog env p (m, A) = (fst (spec_prog p (view A m)), m', A) \<and>
    view A m' = snd (spec_prog p (view A m)) \<and> tracker_ok A (state_tracker m') \<and> in_reentrancy m' = in_reentrancy m"
  using assms(2,3)
proof (induction p arbitrary: m)
  case (Access c k)
  have st: "stores (env_deser env) (env_read env A) A" using assms(1) by (simp add: good_env_def)
  obtain r m1 where c: "run_call (env_deser env) (env_read env A) c m = (r, m1)" by fastforce
  have s: "spec_call c (view A m) = (r, view A m1)" "tracker_ok A (state_tracker m1)" "in_reentrancy m1 = in_reentrancy m"
    using run_call_simulates [OF st Access.prems(2), of c] c
      in_reentrancy_run_call [of "env_deser env" "env_read env A" c m] by simp_all
  have "no_save (k r)" using Access.prems(1) by simp
  from Access.IH [OF rangeI this s(2)] s c show ?case by auto
qed auto

lemma save_state_frame:
  "in_reentrancy (snd (save_state save m)) = in_reentrancy m"
  "save_state save m = (Inl e, m') \<Longrightarrow> \<exists>cs. save cs = Inl e"
  by (auto simp: save_state_def Let_def split: sum.splits if_splits)

text \<open>The whole turn on the default tracker, before the failure handler.\<close>

lemma turn_actions_spec:
  assumes env: "good_env env" and ns: "no_save (cls_on_pre cls mc)" "no_save action" "no_save (cls_on_post cls mc)"
    and ok: "tracker_ok A (state_tracker m)"
    and sp: "spec_turn cls mc action (view A m) = (r0, B)"
  shows "\<exists>m'. in_reentrancy m' = in_reentrancy m \<and>
    (case r0 of
      Inl e \<Rightarrow> turn_actions env cls mc action (m, A) = (Inl e, m', A) \<and> view A m' = B \<and> tracker_ok A (state_tracker m')
    | Inr v \<Rightarrow>
        turn_actions env cls mc action (m, A) = (Inr v, m', B) \<and> view B m' = B \<and> tracker_ok B (state_tracker m') \<or>
        (\<exists>e cs. env_save env cs = Inl e \<and> turn_actions env cls mc action (m, A) = (Inl e, m', A)))"
proof -
  obtain m1 where p1: "run_prog env (cls_on_pre cls mc) (m, A) = (fst (spec_prog (cls_on_pre cls mc) (view A m)), m1, A)"
    "view A m1 = snd (spec_prog (cls_on_pre cls mc) (view A m))" "tracker_ok A (state_tracker m1)"
    "in_reentrancy m1 = in_reentrancy m"
    using run_prog_simulates [OF env ns(1) ok] by blast
  show ?thesis
  proof (cases "fst (spec_prog (cls_on_pre cls mc) (view A m))")
    case (Inl e)
    with sp p1 have "r0 = Inl e" "B = view A m1" by (auto simp: spec_turn_def then_do_def split: prod.splits)
    with Inl p1 show ?thesis by (auto simp: turn_actions_def intro!: exI [of _ m1])
  next
    case (Inr u)
    obtain m2 where p2: "run_prog env action (m1, A) = (fst (spec_prog action (view A m1)), m2, A)"
      "view A m2 = snd (spec_prog action (view A m1))" "tracker_ok A (state_tracker m2)"
      "in_reentrancy m2 = in_reentrancy m"
      using run_prog_simulates [OF env ns(2) p1(3)] p1(4) by auto
    have sp2: "then_do (spec_prog action (view A m1)) (\<lambda>v B2.
       then_do (spec_prog (cls_on_post cls mc) B2) (\<lambda>_ B3. (Inr v, B3))) = (r0, B)"
      using sp Inr p1(2) by (simp add: spec_turn_def then_do_def split: prod.splits)
    show ?thesis
    proof (cases "fst (spec_prog action (view A m1))")
      case e: (Inl e)
      with sp2 p2 have "r0 = Inl e" "B = view A m2" by (auto simp: then_do_def split: prod.splits)
      with e p1 p2 Inr show ?thesis by (auto simp: turn_actions_def intro!: exI [of _ m2])
    next
      case v: (Inr v)
      obtain m3 where p3: "run_prog env (cls_on_post cls mc) (m2, A) =
          (fst (spec_prog (cls_on_post cls mc) (view A m2)), m3, A)"
        "view A m3 = snd (spec_prog (cls_on_post cls mc) (view A m2))" "tracker_ok A (state_tracker m3)"
        "in_reentrancy m3 = in_reentrancy m"
        using run_prog_simulates [OF env ns(3) p2(3)] p2(4) by auto
      have sp3: "then_do (spec_prog (cls_on_post cls mc) (view A m2)) (\<lambda>_ B3. (Inr v, B3)) = (r0, B)"
        using sp2 v p2(2) by (simp add: then_do_def split: prod.splits)
      show ?thesis
      proof (cases "fst (spec_prog (cls_on_post cls mc) (view A m2))")
        case e: (Inl e)
        with sp3 p3 have "r0 = Inl e" "B = view A m3" by (auto simp: then_do_def split: prod.splits)
        with e v p1 p2 p3 Inr show ?thesis
          by (auto simp: turn_actions_def on_post_actor_method_internal_def intro!: exI [of _ m3])
      next
        case u3: (Inr u3)
        with sp3 p3 have r0: "r0 = Inr v" and B: "B = view A m3" by (auto simp: then_do_def split: prod.splits)
        have run: "turn_actions env cls mc action (m, A) = then_do (do_save env (m3, A)) (\<lambda>_ s3. (Inr v, s3))"
          using u3 v p1 p2 p3 Inr by (simp add: turn_actions_def on_post_actor_method_internal_def)
        obtain q m4 where q: "save_state (env_save env) m3 = (q, m4)" by fastforce
        have m4: "in_reentrancy m4 = in_reentrancy m" using save_state_frame(1) [of "env_save env" m3] q p3(4) by simp
        show ?thesis
        proof (cases q)
          case (Inl e)
          with q run r0 m4 save_state_frame(2) [of "env_save env" m3 e m4] show ?thesis
            by (auto simp: do_save_def intro!: exI [of _ m4])
        next
          case (Inr cs)
          with q have s: "save_state (env_save env) m3 = (Inr cs, m4)" by simp
          from save_commits [OF p3(3) s] B s run r0 m4 show ?thesis
            by (auto simp: do_save_def intro!: exI [of _ m4])
        qed
      qed
    qed
  qed
qed


section \<open>Turns\<close>

text \<open>A manager inside of a reentrant turn, over the default tracker \<open>D\<close>: nothing in the turn touches \<open>D\<close>.\<close>

definition inside :: "'v tracker \<Rightarrow> 'v state_manager \<Rightarrow> bool" where
  "inside D m \<longleftrightarrow> in_reentrancy m \<and> context_tracker m \<noteq> None \<and> default_tracker m = D"

lemma inside_set_tracker [simp]: "inside D m \<Longrightarrow> inside D (set_tracker t m)"
  by (auto simp: inside_def set_tracker_def)

lemma inside_run_call: "inside D m \<Longrightarrow> inside D (snd (run_call deser read c m))"
  by (cases c) (auto simp: state_op_defs track_def untrack_def split: option.splits sum.splits change_kind.splits prod.splits bool.splits)

lemma inside_save: "inside D m \<Longrightarrow> inside D (snd (save_state save m))"
  by (auto simp: save_state_def Let_def split: sum.splits)

lemma inside_do_save: "inside D (fst s) \<Longrightarrow> inside D (fst (snd (do_save env s)))"
  using inside_save [of D "fst s" "env_save env"] by (auto simp: do_save_def split: sum.splits prod.splits)

lemma inside_run_prog: "inside D (fst s) \<Longrightarrow> inside D (fst (snd (run_prog env p s)))"
proof (induction p arbitrary: s)
  case (Access c k)
  then show ?case using inside_run_call [of D "fst s" "env_deser env" "env_read env (snd s)" c]
    by (auto split: prod.splits)
next
  case (Save k)
  then show ?case using inside_do_save [of D s env] by (auto split: prod.splits)
qed auto

lemma then_do_inside:
  "inside D (fst (snd r)) \<Longrightarrow> (\<And>x s. inside D (fst s) \<Longrightarrow> inside D (fst (snd (f x s)))) \<Longrightarrow>
     inside D (fst (snd (then_do r f)))"
  by (auto simp: then_do_def split: prod.splits sum.splits)

lemma inside_turn_actions: "inside D (fst s) \<Longrightarrow> inside D (fst (snd (turn_actions env cls mc action s)))"
  unfolding turn_actions_def on_post_actor_method_internal_def
  by (auto intro!: then_do_inside inside_run_prog inside_do_save)

lemma enter_turn_simps [simp]:
  "state_tracker (enter_turn True m) = []" "inside (default_tracker m) (enter_turn True m)"
  "state_tracker (enter_turn False m) = default_tracker m" "\<not> in_reentrancy (enter_turn False m)"
  by (auto simp: enter_turn_def set_state_context_def state_tracker_def inside_def split: option.split)

lemma leave_turn_simps [simp]: "default_tracker (leave_turn m) = default_tracker m"
  by (simp add: leave_turn_def set_state_context_def)

lemma inside_leave: "inside D m \<Longrightarrow> default_tracker m = D" by (simp add: inside_def)

lemma outside_default: "\<not> in_reentrancy m \<Longrightarrow> default_tracker m = state_tracker m"
  by (simp add: state_tracker_def split: option.split)

lemma clear_cache_simps [simp]:
  "state_tracker (clear_cache m) = []" "in_reentrancy (clear_cache m) = in_reentrancy m"
  "inside D m \<Longrightarrow> inside D (clear_cache m)"
  by (simp_all add: clear_cache_def)

lemma reentrant_turn_keeps_default:
  assumes "run_turn env cls True mc action (m, A) = (r, m', A')"
  shows "default_tracker m' = default_tracker m"
proof -
  obtain r1 m1 A1 where t: "turn_actions env cls mc action (enter_turn True m, A) = (r1, m1, A1)" by (metis prod_cases3)
  with inside_turn_actions [of "default_tracker m" "(enter_turn True m, A)" env cls mc action]
  have "inside (default_tracker m) m1" by simp
  with assms t show ?thesis
    by (auto simp: run_turn_def reset_state_internal_def Let_def inside_def clear_cache_def set_tracker_def
        split: sum.splits if_splits)
qed

text \<open>What the turn starts from: the store for a reentrant turn, the actor's tracked view otherwise.\<close>

definition turn_view :: "bool \<Rightarrow> 'v amap \<Rightarrow> 'v state_manager \<Rightarrow> 'v amap" where
  "turn_view reentrant A m = (if reentrant then A else view_of A (default_tracker m))"

definition hooks_ok :: "'v actor_class \<Rightarrow> method_context \<Rightarrow> bool" where
  "hooks_ok cls mc \<longleftrightarrow> no_save (cls_on_pre cls mc) \<and> no_save (cls_on_post cls mc)"

lemma view_enter: "view A (enter_turn reentrant m) = turn_view reentrant A m"
  by (cases reentrant) (auto simp: view_def turn_view_def view_of_def fun_eq_iff)

lemma turn_start_ok:
  "reentrant \<or> tracker_ok A (default_tracker m) \<Longrightarrow> tracker_ok A (state_tracker (enter_turn reentrant m))"
  by (cases reentrant) (auto simp: tracker_ok_def)

text \<open>A failing turn is one whose program fails or whose save fails; the two are told apart by the specification.\<close>

lemma run_turn_spec:
  assumes env: "good_env env" and hooks: "hooks_ok cls mc" "no_save action"
    and ok: "reentrant \<or> tracker_ok A (default_tracker m)"
    and sp: "spec_turn cls mc action (turn_view reentrant A m) = (r0, B)"
    and run: "run_turn env cls reentrant mc action (m, A) = (r, m', A')"
  shows "case r0 of
      Inl e \<Rightarrow> r = Inl e \<and> A' = A \<and> (\<not> reentrant \<longrightarrow>
        (if ex_kind e = DaprInternalError then default_tracker m' = []
         else view_of A (default_tracker m') = B \<and> tracker_ok A (default_tracker m')))
    | Inr v \<Rightarrow>
        r = Inr v \<and> A' = B \<and> (\<not> reentrant \<longrightarrow> view_of B (default_tracker m') = B \<and> tracker_ok B (default_tracker m')) \<or>
        (\<exists>e cs. env_save env cs = Inl e \<and> r = Inl e \<and> A' = A \<and>
          (\<not> reentrant \<longrightarrow> ex_kind e = DaprInternalError \<longrightarrow> default_tracker m' = []))"
proof -
  let ?m = "enter_turn reentrant m"
  obtain m1 where m1: "in_reentrancy m1 = in_reentrancy ?m" and
    acts: "case r0 of
      Inl e \<Rightarrow> turn_actions env cls mc action (?m, A) = (Inl e, m1, A) \<and> view A m1 = B \<and> tracker_ok A (state_tracker m1)
    | Inr v \<Rightarrow>
        turn_actions env cls mc action (?m, A) = (Inr v, m1, B) \<and> view B m1 = B \<and> tracker_ok B (state_tracker m1) \<or>
        (\<exists>e cs. env_save env cs = Inl e \<and> turn_actions env cls mc action (?m, A) = (Inl e, m1, A))"
    using turn_actions_spec [OF env _ hooks(2) _ turn_start_ok [OF ok], of cls mc r0 B] hooks(1) sp
    by (auto simp: hooks_ok_def view_enter)
  have out: "default_tracker m1 = state_tracker m1"
      "default_tracker (clear_cache m1) = []" if "\<not> reentrant"
    using that m1 outside_default [of m1] outside_default [of "clear_cache m1"] by simp_all
  show ?thesis
  proof (cases r0)
    case (Inl e)
    with acts run out show ?thesis
      by (auto simp: run_turn_def reset_state_internal_def Let_def view_def)
  next
    case (Inr v)
    with acts consider (good) "turn_actions env cls mc action (?m, A) = (Inr v, m1, B)" "view B m1 = B"
        "tracker_ok B (state_tracker m1)"
      | (bad) e cs where "env_save env cs = Inl e" "turn_actions env cls mc action (?m, A) = (Inl e, m1, A)"
      by auto
    then show ?thesis
    proof cases
      case good
      with run out Inr show ?thesis by (auto simp: run_turn_def Let_def view_def)
    next
      case bad
      with run out Inr show ?thesis by (auto simp: run_turn_def reset_state_internal_def Let_def)
    qed
  qed
qed


text \<open>An environment whose store keeps strings, and an actor class without hooks.\<close>

definition demo_env :: "string actor_env" where
  "demo_env = \<lparr>env_deser = (\<lambda>raw. Inr (case raw of CHR ''s'' # v \<Rightarrow> Some v | _ \<Rightarrow> None)),
     env_read = (\<lambda>A k. Inr (case A k of None \<Rightarrow> [] | Some None \<Rightarrow> ''n'' | Some (Some v) \<Rightarrow> CHR ''s'' # v)),
     env_save = (\<lambda>cs. Inr ())\<rparr>"

lemma demo_env_good: "good_env demo_env"
  by (auto simp: good_env_def stores_def demo_env_def try_load_state_def split: option.split)

lemma demo_env_saves: "env_save demo_env cs = Inr ()"
  by (simp add: demo_env_def)

definition demo_class :: "string actor_class" where
  "demo_class = \<lparr>cls_name = ''Demo'', cls_on_activate = Finish PNone, cls_on_deactivate = Throw (exc ValueError []),
     cls_on_pre = (\<lambda>_. Finish PNone), cls_on_post = (\<lambda>_. Finish PNone), cls_methods = [], cls_callbacks = [],
     cls_receive_reminder = None\<rparr>"

lemma demo_hooks: "hooks_ok demo_class mc"
  by (simp add: hooks_ok_def demo_class_def)

definition put_then :: "string \<Rightarrow> string \<Rightarrow> string prog \<Rightarrow> string prog" where
  "put_then k v p = Access (SetState k (Some v) None) (\<lambda>_. p)"

lemma put_then_simps [simp]:
  "no_save (put_then k v p) = no_save p" "spec_prog (put_then k v p) B = spec_prog p (B(k \<mapsto> Some v))"
  by (simp_all add: put_then_def)

lemma demo_spec_turn: "spec_turn demo_class mc p B = (case spec_prog p B of (r, B') \<Rightarrow> (r, B'))"
  by (auto simp: spec_turn_def demo_class_def then_do_def split: prod.splits sum.splits)

abbreviation demo_mc :: method_context where "demo_mc \<equiv> create_for_actor ''M''"

lemma new_tracker_default: "tracker_ok A (default_tracker new_state_manager)"
  by (simp add: tracker_ok_def new_state_manager_def)


text \<open>
  The changes of a failed method are not dropped: after a plain turn whose method raised an exception
  of the application, the changes it made before raising stay tracked, and the next plain turn that succeeds,
  whatever it does, starts from them and writes them to the store.
\<close>

theorem dirty_state_leaks:
  assumes "good_env env" and "hooks_ok cls mc1" and "no_save failing" and "tracker_ok A (default_tracker m)"
    and "spec_turn cls mc1 failing (view_of A (default_tracker m)) = (Inl e, B)" and "ex_kind e \<noteq> DaprInternalError"
    and "run_turn env cls False mc1 failing (m, A) = (r1, m1, A1)"
    and "hooks_ok cls mc2" and "no_save action"
    and "run_turn env cls False mc2 action (m1, A1) = (Inr v, m2, A2)"
  shows "r1 = Inl e \<and> A1 = A \<and> spec_turn cls mc2 action B = (Inr v, A2)"
proof -
  have m1: "r1 = Inl e" "A1 = A" "view_of A (default_tracker m1) = B" "tracker_ok A (default_tracker m1)"
    using run_turn_spec [OF assms(1-3) disjI2 [OF assms(4)] _ assms(7), of "Inl e" B] assms(5,6)
    by (simp_all add: turn_view_def)
  obtain r0 C where sp: "spec_turn cls mc2 action (turn_view False A m1) = (r0, C)" by fastforce
  have "r0 = Inr v \<and> A2 = C"
    using run_turn_spec [OF assms(1,8,9) disjI2 [OF m1(4)] sp, of "Inr v" m2 A2] assms(10) m1(2)
    by (cases r0) auto
  with sp m1 show ?thesis by (simp add: turn_view_def)
qed

text \<open>A method sets \<open>a\<close> and raises ValueError; the next method does nothing, and the store changes.\<close>

theorem dirty_state_leaks_witness:
  "\<exists>m1 m2. run_turn demo_env demo_class False demo_mc (put_then ''a'' ''2'' (Throw (exc ValueError [])))
       (new_state_manager, [''a'' \<mapsto> Some ''1'']) = (Inl (exc ValueError []), m1, [''a'' \<mapsto> Some ''1'']) \<and>
     run_turn demo_env demo_class False demo_mc (Finish PNone) (m1, [''a'' \<mapsto> Some ''1'']) =
       (Inr PNone, m2, [''a'' \<mapsto> Some ''2''])"
proof -
  let ?p = "put_then ''a'' ''2'' (Throw (exc ValueError []))" and ?A = "[''a'' \<mapsto> Some ''1'']"
  obtain r1 m1 A1 where run1: "run_turn demo_env demo_class False demo_mc ?p (new_state_manager, ?A) = (r1, m1, A1)"
    by (metis prod_cases3)
  obtain r2 m2 A2 where run2: "run_turn demo_env demo_class False demo_mc (Finish PNone) (m1, A1) = (r2, m2, A2)"
    by (metis prod_cases3)
  have sp: "spec_turn demo_class demo_mc ?p (view_of ?A (default_tracker new_state_manager)) =
      (Inl (exc ValueError []), [''a'' \<mapsto> Some ''2''])"
    by (simp add: demo_spec_turn new_state_manager_def view_of_def)
  have k: "ex_kind (exc ValueError []) \<noteq> DaprInternalError" by simp
  have ns: "no_save ?p" "no_save (Finish PNone :: string prog)" by simp_all
  have "r1 = Inl (exc ValueError []) \<and> A1 = ?A \<and> tracker_ok A1 (default_tracker m1)"
    using run_turn_spec [OF demo_env_good demo_hooks ns(1) disjI2 [OF new_tracker_default] _ run1,
        of "Inl (exc ValueError [])" "[''a'' \<mapsto> Some ''2'']"] sp k by (simp add: turn_view_def)
  then have "r2 = Inr PNone"
    using run_turn_spec [OF demo_env_good demo_hooks ns(2) _ _ run2, of "Inr PNone"]
    by (fastforce simp: demo_spec_turn demo_env_saves)
  with run1 run2 dirty_state_leaks [OF demo_env_good demo_hooks ns(1) new_tracker_default sp k run1 demo_hooks ns(2),
      of demo_mc PNone m2 A2] show ?thesis by (auto simp: demo_spec_turn)
qed

text \<open>
  A plain turn does not see what a reentrant turn wrote: once a plain turn has read or saved a name, its
  value stays tracked, a reentrant turn leaves the tracked entries alone whatever it does, and a later plain
  turn gets the tracked value for the name, whatever the store then holds.
\<close>

theorem reentrant_writes_unseen:
  assumes "dict_get (default_tracker m) k = Some md" and "md_kind md \<noteq> RemoveChange"
    and "run_turn env cls True mc action (m, A) = (r, m', A')"
    and "cls_on_pre cls mc2 = Finish u"
  shows "run_prog env (cls_on_pre cls mc2) (enter_turn False m', A') = (Inr u, enter_turn False m', A') \<and>
    run_call (env_deser env) (env_read env A') (GetState k) (enter_turn False m') =
      (Inr (Value (md_value md)), enter_turn False m')"
proof -
  have "dict_get (state_tracker (enter_turn False m')) k = Some md"
    using assms(1) reentrant_turn_keeps_default [OF assms(3)] by simp
  with assms(2,4) show ?thesis by (simp add: get_state_def try_get_state_def answer_def)
qed

definition cached_demo :: "string state_manager" where
  "cached_demo = new_state_manager\<lparr>default_tracker := [(''a'', metadata (Some ''1'') NoChange None)]\<rparr>"

theorem reentrant_writes_unseen_witness:
  "\<exists>m'. run_turn demo_env demo_class True demo_mc (put_then ''a'' ''2'' (Finish PNone))
      (cached_demo, [''a'' \<mapsto> Some ''1'']) = (Inr PNone, m', [''a'' \<mapsto> Some ''2'']) \<and>
     run_call (env_deser demo_env) (env_read demo_env [''a'' \<mapsto> Some ''2'']) (GetState ''a'') (enter_turn False m') =
       (Inr (Value (Some ''1'')), enter_turn False m')"
proof -
  let ?p = "put_then ''a'' ''2'' (Finish PNone)" and ?A = "[''a'' \<mapsto> Some ''1'']"
  obtain r m' A' where run: "run_turn demo_env demo_class True demo_mc ?p (cached_demo, ?A) = (r, m', A')"
    by (metis prod_cases3)
  have sp: "spec_turn demo_class demo_mc ?p (turn_view True ?A cached_demo) = (Inr PNone, [''a'' \<mapsto> Some ''2''])"
    by (simp add: demo_spec_turn turn_view_def)
  have ns: "no_save ?p" by simp
  have r: "r = Inr PNone \<and> A' = [''a'' \<mapsto> Some ''2'']"
    using run_turn_spec [OF demo_env_good demo_hooks ns disjI1 [OF TrueI] sp run] by (auto simp: demo_env_saves)
  have get: "dict_get (default_tracker cached_demo) ''a'' = Some (metadata (Some ''1'') NoChange None)"
    by (simp add: cached_demo_def dict_simps)
  from reentrant_writes_unseen [OF get _ run, of demo_mc PNone] r run show ?thesis
    by (auto simp: demo_class_def)
qed

section \<open>The manager\<close>

text \<open>Every active actor's tracked entries agree with its stored state.\<close>

definition manager_ok :: "'v actor_manager \<Rightarrow> bool" where
  "manager_ok w \<longleftrightarrow> dict_wf (active_actors w) \<and>
     (\<forall>i m. dict_get (active_actors w) i = Some m \<longrightarrow> tracker_ok (stored w i) (default_tracker m))"

text \<open>A save that fails raises \<open>DaprInternalError\<close>, as the clients do for an error of the sidecar.\<close>

definition saves_or_internal :: "'v actor_env \<Rightarrow> bool" where
  "saves_or_internal env \<longleftrightarrow> (\<forall>cs e. env_save env cs = Inl e \<longrightarrow> ex_kind e = DaprInternalError)"

definition quiet_class :: "'v actor_class \<Rightarrow> bool" where
  "quiet_class cls \<longleftrightarrow> no_save (cls_on_activate cls) \<and> no_save (cls_on_deactivate cls) \<and> (\<forall>mc. hooks_ok cls mc)"

lemma tracker_ok_Nil [simp]: "tracker_ok A []"
  by (simp add: tracker_ok_def)

lemma plain_turn_keeps_ok:
  assumes "good_env env" and "saves_or_internal env" and "hooks_ok cls mc" and "no_save action"
    and "tracker_ok A (default_tracker m)" and "run_turn env cls False mc action (m, A) = (r, m', A')"
  shows "tracker_ok A' (default_tracker m')"
proof -
  obtain r0 B where sp: "spec_turn cls mc action (turn_view False A m) = (r0, B)" by fastforce
  from run_turn_spec [OF assms(1,3,4) disjI2 [OF assms(5)] sp assms(6)] assms(2) show ?thesis
    by (cases r0) (auto simp: saves_or_internal_def split: if_splits)
qed

lemma activation_ok:
  assumes "good_env env" and "no_save (cls_on_activate cls)"
    and "on_activate_internal env cls (new_state_manager, A) = (Inr u, m, A')"
  shows "tracker_ok A' (default_tracker m)"
proof -
  let ?m = "clear_cache new_state_manager :: 'a state_manager"
  have ok: "tracker_ok A (state_tracker ?m)" by simp
  have out: "\<not> in_reentrancy ?m" by (simp add: new_state_manager_def)
  obtain m1 where p: "run_prog env (cls_on_activate cls) (?m, A) = (fst (spec_prog (cls_on_activate cls) (view A ?m)), m1, A)"
      "tracker_ok A (state_tracker m1)" "\<not> in_reentrancy m1"
    using run_prog_simulates [OF assms(1,2) ok] out by blast
  obtain q m2 where q: "save_state (env_save env) m1 = (q, m2)" by fastforce
  with assms(3) p(1) obtain cs where cs: "q = Inr cs" "m = m2" "A' = commit cs A"
    by (cases "fst (spec_prog (cls_on_activate cls) (view A ?m))"; cases q)
      (auto simp: on_activate_internal_def reset_state_internal_def do_save_def)
  have "\<not> in_reentrancy m2"
    using save_state_frame(1) [of "env_save env" m1] q p(3) by simp
  with save_commits [OF p(2), of "env_save env" cs m2] q cs show ?thesis
    by (simp add: outside_default)
qed

lemma activate_keeps_ok:
  assumes "good_env env" and "quiet_class cls" and "manager_ok w" and "activate_actor env cls i w = (r, w')"
    and "dict_get (active_actors w) i = None"
  shows "manager_ok w' \<and> (\<forall>j. j \<noteq> i \<longrightarrow> stored w' j = stored w j \<and>
      dict_get (active_actors w') j = dict_get (active_actors w) j) \<and>
    dict_has (active_actors w') i = (r = Inr ())"
proof -
  have ns: "no_save (cls_on_activate cls)" using assms(2) by (simp add: quiet_class_def)
  obtain q m st where a: "on_activate_internal env cls (new_state_manager, stored w i) = (q, m, st)" by (metis prod_cases3)
  from activation_ok [OF assms(1) ns, of "stored w i" _ m st] a assms(3-5) show ?thesis
    by (cases q) (auto simp: activate_actor_def manager_ok_def dict_get_set dict_has_def split: if_splits)
qed


definition demo_manager :: "string actor_manager" where
  "demo_manager = \<lparr>active_actors = [], stored = (\<lambda>i. if i = ''x'' then [''a'' \<mapsto> Some ''1''] else Map.empty)\<rparr>"


text \<open>
  Deactivation is final: whatever the actor's hook does, raise an exception included, after
  \<open>deactivate_actor\<close> the actor is not active, deactivating it again raises ValueError and changes nothing,
  and the other actors are as before.
\<close>

lemma deactivation_final:
  "case deactivate_actor env cls i w of (r, w1) \<Rightarrow>
     \<not> dict_has (active_actors w1) i \<and> deactivate_actor env cls i w1 = (Inl (not_activated i), w1) \<and>
     (j = i \<or> dict_get (active_actors w1) j = dict_get (active_actors w) j \<and> stored w1 j = stored w j)"
  by (auto simp: deactivate_actor_def dict_has_def dict_get_del split: option.splits prod.splits)

end
