(* ===== verification/ActorHostProps.thy ===== *)
theory ActorHostProps
  imports ActorHost ActorRuntimeProps
begin

text \<open>
  What the actor host promises over all interleavings: every callback is answered at most once and on its own
  stream, a closed session stays silent, the tasks drain, and errors are reported as the protocol asks.
\<close>

section \<open>Replies and their callbacks\<close>

definition answerable :: "callback \<Rightarrow> bool" where
  "answerable m \<longleftrightarrow> m \<noteq> InitialResponseCb \<and> m \<noteq> UnknownCb"

fun callback_id :: "callback \<Rightarrow> string" where
  "callback_id (InvokeCb q) = iv_id q"
| "callback_id (ReminderCb q) = rq_id q"
| "callback_id (TimerCb q) = tq_id q"
| "callback_id (DeactivateCb q) = dq_id q"
| "callback_id _ = []"

text \<open>A reply of the kind of the callback, or a failure, with the callback's id.\<close>

fun answers :: "callback \<Rightarrow> reply \<Rightarrow> bool" where
  "answers m (RequestFailed i c t) = (i = callback_id m)"
| "answers (InvokeCb q) (InvokeResponse i d e) = (i = iv_id q)"
| "answers (ReminderCb q) (ReminderResponse i) = (i = rq_id q)"
| "answers (TimerCb q) (TimerResponse i) = (i = tq_id q)"
| "answers (DeactivateCb q) (DeactivateResponse i) = (i = dq_id q)"
| "answers m r = False"

lemma on_answers:
  "answers (InvokeCb q) (fst (on_invoke he q rt))"
  "answers (ReminderCb q') (fst (on_reminder he q' rt))"
  "answers (TimerCb q'') (fst (on_timer he q'' rt))"
  "answers (DeactivateCb q''') (fst (on_deactivate he q''' rt))"
  by (auto simp: on_invoke_def on_reminder_def on_timer_def on_deactivate_def request_failed_def
      split: prod.splits sum.splits)

lemma guard_answers:
  "guard_and_handle i ty handler rt = (r, rt') \<Longrightarrow> i = callback_id m \<Longrightarrow> answers m (fst (handler rt)) \<Longrightarrow> answers m r"
  by (auto simp: guard_and_handle_def request_failed_def split: if_splits)

lemma host_dispatch_answers: "host_dispatch he m rt = Some (r, rt') \<Longrightarrow> answers m r \<and> answerable m"
  by (cases m) (auto simp: host_dispatch_def answerable_def on_answers elim!: guard_answers)

lemma host_dispatch_None: "host_dispatch he m rt = None \<longleftrightarrow> \<not> answerable m"
  by (cases m) (simp_all add: host_dispatch_def answerable_def)

section \<open>Where a callback is\<close>

text \<open>What a task owes to a session, and all the tasks.\<close>

fun owed :: "nat \<Rightarrow> dispatch_task \<Rightarrow> callback multiset" where
  "owed k (Handling j m) = (if j = k \<and> answerable m then {#m#} else {#})"
| "owed k (Replying j a) = (if j = k then {#fst a#} else {#})"

definition pending :: "nat \<Rightarrow> 'v host \<Rightarrow> callback multiset" where
  "pending k h = sum_mset (image_mset (owed k) (h_tasks h))"

definition callbacks :: "answer list \<Rightarrow> callback multiset" where
  "callbacks as = mset (map fst as)"

definition writing_of :: "session \<Rightarrow> answer list" where
  "writing_of s = (case ss_writing s of None \<Rightarrow> [] | Some a \<Rightarrow> [a])"

definition session_answers :: "session \<Rightarrow> answer list" where
  "session_answers s = ss_sent s @ writing_of s @ ss_lost s @ ss_raised s"

definition task_ok :: "nat \<Rightarrow> dispatch_task \<Rightarrow> bool" where
  "task_ok n t = (case t of Handling k m \<Rightarrow> k < n | Replying k a \<Rightarrow> k < n \<and> answers (fst a) (snd a))"

text \<open>Every callback of a session is in one place, and replies fit their callbacks.\<close>

definition session_ok :: "callback multiset \<Rightarrow> session \<Rightarrow> bool" where
  "session_ok P s \<longleftrightarrow>
     callbacks (session_answers s) + P = mset (filter answerable (ss_received s)) \<and>
     (\<forall>a \<in> set (session_answers s). answers (fst a) (snd a)) \<and>
     (ss_closed s \<or> ss_lost s = [])"

definition host_inv :: "'v host \<Rightarrow> bool" where
  "host_inv h \<longleftrightarrow>
     (\<forall>k. h_current h = Some k \<longrightarrow> k < length (h_sessions h)) \<and>
     (\<forall>t \<in># h_tasks h. task_ok (length (h_sessions h)) t) \<and>
     (\<forall>k < length (h_sessions h). session_ok (pending k h) (h_sessions h ! k))"

lemma host_updates [simp]:
  "h_sessions (upd_session k f h) = (h_sessions h)[k := f (h_sessions h ! k)]"
  "h_tasks (upd_session k f h) = h_tasks h" "h_current (upd_session k f h) = h_current h"
  "h_sessions (with_task t h) = h_sessions h" "h_tasks (with_task t h) = h_tasks h + {#t#}"
  "h_current (with_task t h) = h_current h"
  "h_sessions (without_task t h) = h_sessions h" "h_tasks (without_task t h) = h_tasks h - {#t#}"
  "h_current (without_task t h) = h_current h"
  "h_sessions (h\<lparr>h_runtime := rt\<rparr>) = h_sessions h" "h_tasks (h\<lparr>h_runtime := rt\<rparr>) = h_tasks h"
  by (simp_all add: upd_session_def with_task_def without_task_def)

lemma pending_cong: "h_tasks h' = h_tasks h \<Longrightarrow> pending k h' = pending k h"
  by (simp add: pending_def)

lemma pending_with: "h_tasks h' = h_tasks h + {#t#} \<Longrightarrow> pending k h' = owed k t + pending k h"
  by (simp add: pending_def)

lemma pending_without:
  "t \<in># h_tasks h \<Longrightarrow> h_tasks h' = h_tasks h - {#t#} \<Longrightarrow> pending k h = owed k t + pending k h'"
  by (auto simp: pending_def dest!: multi_member_split)

text \<open>A task step changes at most one session and replaces at most one task.\<close>

lemma host_inv_change:
  assumes inv: "host_inv h" and t: "t \<in># h_tasks h" and j: "j < length (h_sessions h)"
    and h': "h_sessions h' = (h_sessions h)[j := s]" "h_current h' = h_current h" "h_tasks h' = h_tasks h - {#t#} + T"
    and T: "\<And>u. u \<in># T \<Longrightarrow> task_ok (length (h_sessions h)) u"
    and others: "\<And>k. k \<noteq> j \<Longrightarrow> owed k t = sum_mset (image_mset (owed k) T)"
    and here: "\<And>P. session_ok (owed j t + P) (h_sessions h ! j) \<Longrightarrow> session_ok (sum_mset (image_mset (owed j) T) + P) s"
  shows "host_inv h'"
proof -
  define P where "P k = sum_mset (image_mset (owed k) (h_tasks h - {#t#}))" for k
  have old: "pending k h = owed k t + P k" for k using t by (auto simp: pending_def P_def dest!: multi_member_split)
  have new: "pending k h' = sum_mset (image_mset (owed k) T) + P k" for k by (simp add: pending_def P_def h'(3))
  have "session_ok (pending k h') (h_sessions h' ! k)" if k: "k < length (h_sessions h)" for k
  proof (cases "k = j")
    case True
    have "session_ok (pending j h) (h_sessions h ! j)" using inv j by (simp add: host_inv_def)
    then have "session_ok (owed j t + P j) (h_sessions h ! j)" unfolding old .
    from here [OF this] True j show ?thesis by (simp add: h'(1) new)
  next
    case False
    have "session_ok (pending k h) (h_sessions h ! k)" using inv k by (simp add: host_inv_def)
    with False others [of k] show ?thesis unfolding old new by (simp add: h'(1))
  qed
  moreover have "\<forall>u \<in># h_tasks h'. task_ok (length (h_sessions h)) u"
    using inv T by (auto simp: host_inv_def h'(3) dest: in_diffD)
  ultimately show ?thesis using inv by (simp add: host_inv_def h'(1,2))
qed

lemma host_inv_session:
  assumes inv: "host_inv h" and j: "j < length (h_sessions h)"
    and h': "h_sessions h' = (h_sessions h)[j := s]" "h_tasks h' = h_tasks h"
      "h_current h' = None \<or> h_current h' = h_current h"
    and here: "\<And>P. session_ok P (h_sessions h ! j) \<Longrightarrow> session_ok P s"
  shows "host_inv h'"
proof -
  have "session_ok (pending k h') (h_sessions h' ! k)" if "k < length (h_sessions h)" for k
    using inv j here that by (cases "k = j") (simp_all add: host_inv_def h'(1) pending_cong [OF h'(2)])
  with inv h' show ?thesis by (auto simp: host_inv_def)
qed

lemmas session_simps = session_ok_def session_answers_def writing_of_def callbacks_def

lemma session_ok_receive:
  "session_ok P s \<Longrightarrow> session_ok (owed k (Handling k m) + P) (s\<lparr>ss_received := ss_received s @ [m]\<rparr>)"
  by (auto simp: session_simps)

lemma session_ok_steps:
  "session_ok ({#fst a#} + P) s \<Longrightarrow> answers (fst a) (snd a) \<Longrightarrow> ss_closed s \<Longrightarrow>
     session_ok P (s\<lparr>ss_lost := ss_lost s @ [a]\<rparr>)"
  "session_ok ({#fst a#} + P) s \<Longrightarrow> answers (fst a) (snd a) \<Longrightarrow> ss_writing s = None \<Longrightarrow>
     session_ok P (s\<lparr>ss_writing := Some a\<rparr>)"
  "session_ok P s \<Longrightarrow> ss_writing s = Some a \<Longrightarrow> session_ok P (s\<lparr>ss_writing := None, ss_sent := ss_sent s @ [a]\<rparr>)"
  "session_ok P s \<Longrightarrow> ss_writing s = Some a \<Longrightarrow>
     session_ok P (s\<lparr>ss_writing := None, ss_closed := True, ss_lost := ss_lost s @ [a]\<rparr>)"
  "session_ok P s \<Longrightarrow> ss_writing s = Some a \<Longrightarrow> session_ok P (s\<lparr>ss_writing := None, ss_raised := ss_raised s @ [a]\<rparr>)"
  "session_ok P s \<Longrightarrow> session_ok P (s\<lparr>ss_closed := True\<rparr>)"
  by (auto simp: session_simps)

lemma task_step_inv: "task_step he h h' \<Longrightarrow> host_inv h \<Longrightarrow> host_inv h'"
proof (induction rule: task_step.induct)
  case (Handle k m h r rt)
  then have k: "k < length (h_sessions h)" by (auto simp: host_inv_def task_ok_def)
  have a: "answers m r" "answerable m" using host_dispatch_answers [OF Handle(2)] by simp_all
  show ?case
  proof (rule host_inv_change [OF Handle(3,1) k, where s = "h_sessions h ! k" and T = "{#Replying k (m, r)#}"])
    show "task_ok (length (h_sessions h)) u" if "u \<in># {#Replying k (m, r)#}" for u
      using that k a(1) by (simp add: task_ok_def)
  qed (simp_all add: a(2))
next
  case (Ignore k m h)
  then have k: "k < length (h_sessions h)" and m: "\<not> answerable m"
    by (auto simp: host_inv_def task_ok_def host_dispatch_None)
  show ?case
    by (rule host_inv_change [OF Ignore(3,1) k, where s = "h_sessions h ! k" and T = "{#}"]) (simp_all add: m)
next
  case (Drop k a h)
  then have k: "k < length (h_sessions h)" and a: "answers (fst a) (snd a)" by (auto simp: host_inv_def task_ok_def)
  show ?case
    by (rule host_inv_change [OF Drop(4,1) k, where T = "{#}"])
      (use Drop(3) a session_ok_steps(1) in \<open>simp_all del: union_mset_add_mset_left\<close>)
next
  case (Write k a h)
  then have k: "k < length (h_sessions h)" and a: "answers (fst a) (snd a)" by (auto simp: host_inv_def task_ok_def)
  show ?case
    by (rule host_inv_change [OF Write(4,1) k, where T = "{#}"])
      (use Write(2) a session_ok_steps(2) in \<open>simp_all del: union_mset_add_mset_left\<close>)
next
  case (Written k h a)
  show ?case
    by (rule host_inv_session [OF Written(3,1) host_updates(1)]) (use Written(2) session_ok_steps(3) in simp_all)
next
  case (WriteFails k h a)
  show ?case
    by (rule host_inv_session [OF WriteFails(3,1) host_updates(1)]) (use WriteFails(2) session_ok_steps(4) in simp_all)
next
  case (WriteRaises k h a)
  show ?case
    by (rule host_inv_session [OF WriteRaises(3,1) host_updates(1)]) (use WriteRaises(2) session_ok_steps(5) in simp_all)
qed

lemma pending_beyond:
  assumes "host_inv h" and "length (h_sessions h) \<le> k"
  shows "pending k h = {#}"
proof -
  have "owed k t = {#}" if "t \<in># h_tasks h" for t
    using assms that by (cases t) (auto simp: host_inv_def task_ok_def)
  then show ?thesis by (auto simp: pending_def)
qed

lemma host_step_inv: "host_step he h h' \<Longrightarrow> host_inv h \<Longrightarrow> host_inv h'"
proof (induction rule: host_step.induct)
  case (Task h h')
  then show ?case by (rule task_step_inv)
next
  case (Open h)
  then show ?case
    using pending_beyond [OF Open(2) le_refl]
    by (auto simp: host_inv_def open_session_def nth_append less_Suc_eq task_ok_def pending_def new_session_def
        session_simps split: dispatch_task.splits)
next
  case (Receive h k m)
  then have k: "k < length (h_sessions h)" by (simp add: host_inv_def)
  have p: "pending j (receive k m h) = owed j (Handling k m) + pending j h" for j
    by (rule pending_with) (simp add: receive_def)
  have "session_ok (pending j (receive k m h)) (h_sessions (receive k m h) ! j)" if j: "j < length (h_sessions h)" for j
  proof (cases "j = k")
    case True
    with Receive(2) k have "session_ok (pending k h) (h_sessions h ! k)" by (simp add: host_inv_def)
    from session_ok_receive [OF this, of k m] True k show ?thesis
      by (cases "answerable m") (simp_all add: p, simp_all add: receive_def)
  next
    case False
    with Receive(2) j show ?thesis by (simp add: p) (simp add: receive_def host_inv_def)
  qed
  with Receive k show ?case by (auto simp: host_inv_def receive_def task_ok_def)
next
  case (EndSession h k)
  then have k: "k < length (h_sessions h)" by (simp add: host_inv_def)
  show ?case
    by (rule host_inv_session [OF EndSession(2) k, where s = "(h_sessions h ! k)\<lparr>ss_closed := True\<rparr>"]) (use session_ok_steps(6) in \<open>simp_all add: end_session_def\<close>)
next
  case (CloseSession h k)
  then have k: "k < length (h_sessions h)" by (simp add: host_inv_def)
  show ?case
    unfolding close_session_def
    by (rule host_inv_session [OF CloseSession(2) k host_updates(1)]) (use session_ok_steps(6) in simp_all)
qed

interpretation actor_host: step_invariant "new_host rt" "host_step he" host_inv
  by (unfold_locales, simp add: host_inv_def new_host_def, rule host_step_inv)

lemma host_reach_inv: "host_reach he rt h \<Longrightarrow> host_inv h"
  unfolding host_reach_def by (rule actor_host.reachable_inv)

section \<open>Closed sessions\<close>

definition silent :: "nat \<Rightarrow> answer list \<Rightarrow> 'v host \<Rightarrow> bool" where
  "silent k as h \<longleftrightarrow> k < length (h_sessions h) \<and> ss_closed (h_sessions h ! k) \<and> ss_writing (h_sessions h ! k) = None \<and>
     ss_sent (h_sessions h ! k) = as"

lemma nth_upd: "j < length xs \<Longrightarrow> xs[i := y] ! j = (if i = j then y else xs ! j)"
  by simp

lemma silent_task: "task_step he h h' \<Longrightarrow> silent k as h \<Longrightarrow> silent k as h'"
  by (induction rule: task_step.induct) (auto simp: silent_def nth_upd)

lemma silent_step: "host_step he h h' \<Longrightarrow> silent k as h \<Longrightarrow> silent k as h'"
  by (induction rule: host_step.induct)
    (auto simp: silent_task, auto simp: silent_def nth_upd nth_append open_session_def receive_def end_session_def
      close_session_def)

lemma closed_session_silent:
  assumes "rtranclp (host_step he) h h'" and "k < length (h_sessions h)"
    and "ss_closed (h_sessions h ! k)" and "ss_writing (h_sessions h ! k) = None"
  shows "ss_sent (h_sessions h' ! k) = ss_sent (h_sessions h ! k)"
proof -
  have "silent k (ss_sent (h_sessions h ! k)) h" using assms(2-4) by (simp add: silent_def)
  with assms(1) have "silent k (ss_sent (h_sessions h ! k)) h'"
    by (induction rule: rtranclp_induct) (auto intro: silent_step)
  then show ?thesis by (simp add: silent_def)
qed

section \<open>Properties\<close>

text \<open>
  C19. Every callback is answered at most once, on the stream it came from: in every reachable state the
  callbacks read from a stream are exactly those whose reply was written to it, is being written,
  was dropped or could not be written, and those still pending, each counted once. The replies written carry
  the id and the kind of their callbacks, or report a failure, and nothing is dropped on an open session. Once a
  session is closed and no write is under way, nothing is written to its stream any more, whatever the host
  does, reconnect included.
\<close>

theorem callbacks_answered_once:
  assumes "host_reach he rt h" and "k < length (h_sessions h)"
  shows "let s = h_sessions h ! k in
    callbacks (ss_sent s) + callbacks (writing_of s) + callbacks (ss_lost s) + callbacks (ss_raised s) + pending k h =
      mset (filter answerable (ss_received s)) \<and>
    (\<forall>a \<in> set (ss_sent s). answers (fst a) (snd a)) \<and> (ss_closed s \<or> ss_lost s = []) \<and>
    (ss_closed s \<and> ss_writing s = None \<longrightarrow>
      (\<forall>h'. rtranclp (host_step he) h h' \<longrightarrow> ss_sent (h_sessions h' ! k) = ss_sent s))"
proof -
  have "session_ok (pending k h) (h_sessions h ! k)"
    using host_reach_inv [OF assms(1)] assms(2) by (simp add: host_inv_def)
  moreover have "ss_sent (h_sessions h' ! k) = ss_sent (h_sessions h ! k)"
    if "ss_closed (h_sessions h ! k) \<and> ss_writing (h_sessions h ! k) = None" "rtranclp (host_step he) h h'" for h'
    using closed_session_silent [OF that(2) assms(2)] that(1) by simp
  ultimately show ?thesis
    unfolding session_ok_def session_answers_def callbacks_def Let_def map_append mset_append add.assoc set_append by blast
qed

section \<open>The tasks drain\<close>

fun task_weight :: "dispatch_task \<Rightarrow> nat" where
  "task_weight (Handling k m) = 3"
| "task_weight (Replying k a) = 2"

definition write_weight :: "session \<Rightarrow> nat" where
  "write_weight s = (if ss_writing s = None then 0 else 1)"

definition host_left :: "'v host \<Rightarrow> nat" where
  "host_left h = sum_mset (image_mset task_weight (h_tasks h)) +
     sum_list (map write_weight (h_sessions h))"

lemma sum_list_change:
  "k < length xs \<Longrightarrow> sum_list (map f (xs[k := y])) + f (xs ! k) = sum_list (map f xs) + (f y :: nat)"
  by (induction xs arbitrary: k) (auto split: nat.splits simp: nth_Cons')

lemma weight_without: "t \<in># T \<Longrightarrow> sum_mset (image_mset task_weight (T - {#t#})) + task_weight t = sum_mset (image_mset task_weight T)"
  by (auto dest!: multi_member_split)

lemma task_step_decreases: "task_step he h h' \<Longrightarrow> host_inv h \<Longrightarrow> host_left h' < host_left h"
proof (induction rule: task_step.induct)
  case (Handle k m h r rt)
  with weight_without [OF Handle(1)] show ?case by (simp add: host_left_def)
next
  case (Ignore k m h)
  with weight_without [OF Ignore(1)] show ?case by (simp add: host_left_def)
next
  case (Drop k a h)
  then have k: "k < length (h_sessions h)" by (auto simp: host_inv_def task_ok_def)
  show ?case
    using weight_without [OF Drop(1)] sum_list_change [OF k, of write_weight] Drop(2)
    by (simp add: host_left_def write_weight_def)
next
  case (Write k a h)
  then have k: "k < length (h_sessions h)" by (auto simp: host_inv_def task_ok_def)
  show ?case
    using weight_without [OF Write(1)] Write(2)
      sum_list_change [OF k, of write_weight "(h_sessions h ! k)\<lparr>ss_writing := Some a\<rparr>"]
    by (simp add: host_left_def write_weight_def)
next
  case (Written k h a)
  from Written(2) sum_list_change [OF Written(1), of write_weight
      "(h_sessions h ! k)\<lparr>ss_writing := None, ss_sent := ss_sent (h_sessions h ! k) @ [a]\<rparr>"]
  show ?case by (simp add: host_left_def write_weight_def)
next
  case (WriteFails k h a)
  from WriteFails(2) sum_list_change [OF WriteFails(1), of write_weight
      "(h_sessions h ! k)\<lparr>ss_writing := None, ss_closed := True, ss_lost := ss_lost (h_sessions h ! k) @ [a]\<rparr>"]
  show ?case by (simp add: host_left_def write_weight_def)
next
  case (WriteRaises k h a)
  from WriteRaises(2) sum_list_change [OF WriteRaises(1), of write_weight
      "(h_sessions h ! k)\<lparr>ss_writing := None, ss_raised := ss_raised (h_sessions h ! k) @ [a]\<rparr>"]
  show ?case by (simp add: host_left_def write_weight_def)
qed

lemma stuck_drained:
  assumes "host_inv h" and "\<And>h'. \<not> task_step he h h'"
  shows "h_tasks h = {#} \<and> (\<forall>k < length (h_sessions h). ss_writing (h_sessions h ! k) = None)"
proof -
  have w: "ss_writing (h_sessions h ! k) = None" if "k < length (h_sessions h)" for k
    using Written [OF that, of _ he] assms(2) by (cases "ss_writing (h_sessions h ! k)") blast+
  have "t \<notin># h_tasks h" for t
  proof
    assume t: "t \<in># h_tasks h"
    show False
    proof (cases t)
      case (Handling k m)
      show False
      proof (cases "host_dispatch he m (h_runtime h)")
        case None
        with Ignore [of k m h he] t Handling assms(2) show False by blast
      next
        case (Some p)
        then obtain r rt where "host_dispatch he m (h_runtime h) = Some (r, rt)" by (cases p) auto
        with Handle [of k m h he r rt] t Handling assms(2) show False by blast
      qed
    next
      case (Replying k a)
      with t assms(1) have "k < length (h_sessions h)" by (auto simp: host_inv_def task_ok_def)
      with w t Replying assms(2) Drop [of k a h he] Write [of k a h he] show False
        by (cases "ss_closed (h_sessions h ! k)") simp_all
    qed
  qed
  with w show ?thesis by (simp add: multiset_eq_iff not_in_iff)
qed

lemma task_chain:
  "host_inv (f 0) \<Longrightarrow> (\<And>i. i < n \<Longrightarrow> task_step he (f i) (f (Suc i))) \<Longrightarrow> host_inv (f n) \<and> host_left (f n) + n \<le> host_left (f 0)"
proof (induction n)
  case (Suc n)
  then have "host_inv (f n)" "host_left (f n) + n \<le> host_left (f 0)" "task_step he (f n) (f (Suc n))" by simp_all
  with task_step_inv task_step_decreases show ?case by fastforce
qed simp

text \<open>
  The replies drain: from every reachable state, the tasks can take only a bounded number of steps without
  a new callback, and where they cannot go on, no task and no write is left, and each callback that was
  read from a stream still open, and on which no write raised, has been answered exactly once, in full.
\<close>

theorem replies_drain:
  assumes "host_reach he rt h"
  shows "(\<forall>n f. f 0 = h \<and> (\<forall>i < n. task_step he (f i) (f (Suc i))) \<longrightarrow> n \<le> host_left h) \<and>
    ((\<forall>h'. \<not> task_step he h h') \<longrightarrow> h_tasks h = {#} \<and>
      (\<forall>k < length (h_sessions h). let s = h_sessions h ! k in
         \<not> ss_closed s \<and> ss_raised s = [] \<longrightarrow> callbacks (ss_sent s) = mset (filter answerable (ss_received s))))"
proof (intro conjI allI impI)
  fix n f assume "f 0 = h \<and> (\<forall>i < n. task_step he (f i) (f (Suc i)))"
  with task_chain [of f n he] host_reach_inv [OF assms] show "n \<le> host_left h" by simp
next
  assume stuck: "\<forall>h'. \<not> task_step he h h'"
  then have d: "h_tasks h = {#}" "\<forall>k < length (h_sessions h). ss_writing (h_sessions h ! k) = None"
    using stuck_drained [OF host_reach_inv [OF assms], of he] by blast+
  then show "h_tasks h = {#}" by simp
  fix k assume k: "k < length (h_sessions h)"
  with host_reach_inv [OF assms] have "session_ok (pending k h) (h_sessions h ! k)" by (simp add: host_inv_def)
  moreover have "pending k h = {#}" using d by (simp add: pending_def)
  ultimately show "let s = h_sessions h ! k in
      \<not> ss_closed s \<and> ss_raised s = [] \<longrightarrow> callbacks (ss_sent s) = mset (filter answerable (ss_received s))"
    using d k by (auto simp: session_simps Let_def)
qed

definition demo_host_env :: "string host_env" where
  "demo_host_env = \<lparr>he_actors = demo_env, he_loads = json_loads, he_dumps = to_json,
     he_texts = \<lparr>et_repr = ex_msg, et_safe_dict = (\<lambda>e. [])\<rparr>\<rparr>"

text \<open>A deactivation for a type that is not hosted, answered.\<close>

definition demo_runtime :: "string actor_runtime" where
  "demo_runtime = \<lparr>rt_managers = [], rt_entities = {}\<rparr>"

definition demo_callback :: callback where
  "demo_callback = DeactivateCb \<lparr>dq_id = ''7'', dq_actor_type = ''A'', dq_actor_id = ''x''\<rparr>"

definition demo_answer :: answer where
  "demo_answer = (demo_callback, RequestFailed ''7'' 5 ''A is not registered.'')"

definition demo_host :: "string host" where
  "demo_host = \<lparr>h_runtime = demo_runtime, h_sessions = [new_session\<lparr>ss_received := [demo_callback],
     ss_sent := [demo_answer]\<rparr>], h_current = Some 0, h_tasks = {#}\<rparr>"

lemma demo_dispatch: "host_dispatch demo_host_env demo_callback demo_runtime = Some (snd demo_answer, demo_runtime)"
  by (simp add: host_dispatch_def demo_callback_def guard_and_handle_def get_registered_actor_types_def demo_runtime_def
      request_failed_def status_code_for_exception_def demo_answer_def)

lemma demo_host_reach: "host_reach demo_host_env demo_runtime demo_host"
proof -
  let ?s = "\<lambda>ss t. \<lparr>h_runtime = demo_runtime, h_sessions = ss, h_current = Some 0, h_tasks = t\<rparr>"
  let ?r = "new_session\<lparr>ss_received := [demo_callback]\<rparr>"
  have 1: "host_step demo_host_env (new_host demo_runtime) (?s [new_session] {#})"
    using Open [of "new_host demo_runtime" demo_host_env] by (simp add: new_host_def open_session_def)
  have 2: "host_step demo_host_env (?s [new_session] {#}) (?s [?r] {#Handling 0 demo_callback#})"
    using Receive [of "?s [new_session] {#}" 0 demo_host_env demo_callback]
    by (simp add: receive_def upd_session_def) (simp add: new_session_def)
  have 3: "host_step demo_host_env (?s [?r] {#Handling 0 demo_callback#}) (?s [?r] {#Replying 0 demo_answer#})"
    using Handle [of 0 demo_callback "?s [?r] {#Handling 0 demo_callback#}" demo_host_env "snd demo_answer" demo_runtime]
      demo_dispatch
    by (auto intro!: Task simp: with_task_def without_task_def demo_answer_def)
  have 4: "host_step demo_host_env (?s [?r] {#Replying 0 demo_answer#}) (?s [?r\<lparr>ss_writing := Some demo_answer\<rparr>] {#})"
    using Write [of 0 demo_answer "?s [?r] {#Replying 0 demo_answer#}" demo_host_env]
    by (auto intro!: Task simp: upd_session_def without_task_def new_session_def)
  have 5: "host_step demo_host_env (?s [?r\<lparr>ss_writing := Some demo_answer\<rparr>] {#}) demo_host"
    using Written [of 0 "?s [?r\<lparr>ss_writing := Some demo_answer\<rparr>] {#}" demo_answer demo_host_env]
    by (auto intro!: Task simp: upd_session_def demo_host_def new_session_def)
  show ?thesis
    unfolding host_reach_def using 1 2 3 4 5 by (meson rtranclp.rtrancl_into_rtrancl rtranclp.rtrancl_refl)
qed

definition demo_closed :: "string host" where
  "demo_closed = end_session 0 demo_host"

lemma demo_closed_reach: "host_reach demo_host_env demo_runtime demo_closed"
  using demo_host_reach EndSession [of demo_host 0 demo_host_env]
  by (auto simp: host_reach_def demo_closed_def demo_host_def intro: rtranclp.rtrancl_into_rtrancl)

theorem callbacks_answered_once_witness:
  "callbacks (ss_sent (h_sessions demo_closed ! 0)) + pending 0 demo_closed = {#demo_callback#} \<and>
   ss_sent (h_sessions (open_session demo_closed) ! 0) = [demo_answer]"
proof -
  have "host_step demo_host_env demo_closed (open_session demo_closed)"
    by (rule host_step.Open) (simp add: demo_closed_def end_session_def)
  then have "rtranclp (host_step demo_host_env) demo_closed (open_session demo_closed)" by blast
  with callbacks_answered_once [OF demo_closed_reach, of 0] show ?thesis
    by (simp add: demo_closed_def end_session_def upd_session_def demo_host_def new_session_def writing_of_def callbacks_def
        answerable_def demo_callback_def Let_def)
qed

theorem replies_drain_witness:
  "(\<forall>h'. \<not> task_step demo_host_env demo_host h') \<and>
   callbacks (ss_sent (h_sessions demo_host ! 0)) = {#demo_callback#}"
proof -
  have stuck: "\<forall>h'. \<not> task_step demo_host_env demo_host h'"
    by (auto simp: demo_host_def new_session_def elim!: task_stepE)
  with replies_drain [OF demo_host_reach] have "\<forall>k < length (h_sessions demo_host). let s = h_sessions demo_host ! k in
      \<not> ss_closed s \<and> ss_raised s = [] \<longrightarrow> callbacks (ss_sent s) = mset (filter answerable (ss_received s))" by blast
  with stuck show ?thesis
    by (auto simp: demo_host_def new_session_def answerable_def demo_callback_def Let_def)
qed

section \<open>Errors\<close>

fun callback_type :: "callback \<Rightarrow> string" where
  "callback_type (InvokeCb q) = iv_actor_type q"
| "callback_type (ReminderCb q) = rq_actor_type q"
| "callback_type (TimerCb q) = tq_actor_type q"
| "callback_type (DeactivateCb q) = dq_actor_type q"
| "callback_type _ = []"

text \<open>The data of a reminder or a timer that is not JSON.\<close>

fun bad_payload :: "callback \<Rightarrow> string option" where
  "bad_payload (ReminderCb q) = (case any_to_json_value (rq_data q) of
     None \<Rightarrow> None
   | Some v \<Rightarrow> (case json_loads v of Inl e \<Rightarrow> Some (''reminder data is not valid JSON: '' @ ex_msg e) | Inr x \<Rightarrow> None))"
| "bad_payload (TimerCb q) = (case any_to_json_value (tq_data q) of
     None \<Rightarrow> None
   | Some v \<Rightarrow> (case json_loads v of Inl e \<Rightarrow> Some (''timer data is not valid JSON: '' @ ex_msg e) | Inr x \<Rightarrow> None))"
| "bad_payload _ = None"

lemma unwrap_bad: "json_loads v = Inl e \<Longrightarrow> maybe_unwrap_grpc_registered_value v = v"
  by (simp add: maybe_unwrap_grpc_registered_value_def)

lemma bad_payload_reply:
  assumes "callback_type m \<in> set (get_registered_actor_types rt)" and "bad_payload m = Some text"
  shows "host_dispatch he m rt = Some (RequestFailed (callback_id m) 3 text, rt)"
  using assms
  by (cases m)
    (auto simp: host_dispatch_def guard_and_handle_def on_reminder_def on_timer_def build_reminder_fire_body_def
      build_timer_fire_body_def parse_json_value_def unwrap_bad request_failed_def status_code_for_exception_def Let_def
      split: option.splits sum.splits)

lemma unknown_type_reply:
  "answerable m \<Longrightarrow> callback_type m \<notin> set (get_registered_actor_types rt) \<Longrightarrow>
   host_dispatch he m rt = Some (RequestFailed (callback_id m) 5 (callback_type m @ '' is not registered.''), rt)"
  by (cases m) (simp_all add: host_dispatch_def guard_and_handle_def request_failed_def status_code_for_exception_def
      answerable_def)

lemma registered_iff: "ty \<in> set (get_registered_actor_types rt) \<longleftrightarrow> dict_has (rt_managers rt) ty"
  by (simp add: get_registered_actor_types_def dict_has_iff)

lemma unknown_method_reply:
  assumes "dict_get (rt_managers rt) (iv_actor_type q) = Some (cls, w)" and "dict_get (cls_methods cls) (iv_method q) = None"
  shows "host_dispatch he (InvokeCb q) rt = Some (RequestFailed (iv_id q) 5 (ex_msg (no_method (iv_method q))),
    rt\<lparr>rt_managers := dict_set (iv_actor_type q) (cls, w) (rt_managers rt)\<rparr>)"
  using assms
  by (simp add: host_dispatch_def guard_and_handle_def registered_iff dict_has_def on_invoke_def runtime_dispatch_def
      with_manager_def dispatch_method_def no_method_def request_failed_def status_code_for_exception_def)

text \<open>
  Failures are told apart: a callback for a type that is not registered is answered with \<open>NOT_FOUND\<close> and
  changes nothing, and so is one for a method that the class does not have; a reminder or timer whose data is
  not JSON is answered with \<open>INVALID_ARGUMENT\<close> and changes nothing; any other exception of a method goes back to
  the caller as an error payload; and no callback ends without a reply.
\<close>

theorem callback_failures:
  "(answerable m \<and> callback_type m \<notin> set (get_registered_actor_types rt) \<longrightarrow>
      host_dispatch he m rt = Some (RequestFailed (callback_id m) 5 (callback_type m @ '' is not registered.''), rt)) \<and>
   (dict_get (rt_managers rt) (iv_actor_type q) = Some (cls, w) \<and> dict_get (cls_methods cls) (iv_method q) = None \<longrightarrow>
      (\<exists>rt' text. host_dispatch he (InvokeCb q) rt = Some (RequestFailed (iv_id q) 5 text, rt') \<and>
         (\<forall>ty. dict_get (rt_managers rt') ty = dict_get (rt_managers rt) ty))) \<and>
   (callback_type m \<in> set (get_registered_actor_types rt) \<and> bad_payload m = Some text \<longrightarrow>
      host_dispatch he m rt = Some (RequestFailed (callback_id m) 3 text, rt)) \<and>
   (iv_actor_type q \<in> set (get_registered_actor_types rt) \<and>
      runtime_dispatch (he_actors he) (he_loads he) (he_dumps he) (iv_actor_type q) (iv_actor_id q) (iv_method q) (iv_data q)
        (extract_reentrancy_id (iv_metadata q)) rt = (Inl e, rt1) \<and> ex_kind e \<noteq> ActorMethodNotFoundError \<longrightarrow>
      host_dispatch he (InvokeCb q) rt =
        Some (InvokeResponse (iv_id q) (build_invoke_error_payload (he_texts he) e) True, rt1)) \<and>
   (answerable m \<longrightarrow> host_dispatch he m rt \<noteq> None)"
proof (intro conjI impI)
  assume "dict_get (rt_managers rt) (iv_actor_type q) = Some (cls, w) \<and> dict_get (cls_methods cls) (iv_method q) = None"
  with unknown_method_reply [of rt q cls w he]
  show "\<exists>rt' text. host_dispatch he (InvokeCb q) rt = Some (RequestFailed (iv_id q) 5 text, rt') \<and>
      (\<forall>ty. dict_get (rt_managers rt') ty = dict_get (rt_managers rt) ty)"
    by (auto simp: dict_get_set)
qed (simp_all add: unknown_type_reply bad_payload_reply host_dispatch_None,
    simp add: host_dispatch_def guard_and_handle_def on_invoke_def)

definition demo_bad_timer :: callback where
  "demo_bad_timer = TimerCb \<lparr>tq_id = ''3'', tq_actor_type = ''A'', tq_actor_id = ''x'', tq_name = ''t'', tq_callback = ''f'',
     tq_due_time = [], tq_period = [], tq_data = Some (BytesValueAny ''{'')\<rparr>"

theorem callback_failures_witness:
  "host_dispatch demo_host_env demo_callback demo_runtime =
     Some (RequestFailed ''7'' 5 ''A is not registered.'', demo_runtime) \<and>
   (let rt = register_actor (demo_class\<lparr>cls_name := ''A''\<rparr>) (\<lambda>i. Map.empty) demo_runtime in
     host_dispatch demo_host_env demo_bad_timer rt =
       Some (RequestFailed ''3'' 3 ''timer data is not valid JSON: Expecting value'', rt))"
proof -
  let ?rt = "register_actor (demo_class\<lparr>cls_name := ''A''\<rparr>) (\<lambda>i. Map.empty) demo_runtime"
  have "answerable demo_callback" "callback_type demo_callback \<notin> set (get_registered_actor_types demo_runtime)"
    "callback_type demo_callback = ''A''" "callback_id demo_callback = ''7''"
    by (simp_all add: demo_callback_def answerable_def demo_runtime_def get_registered_actor_types_def)
  moreover have "callback_type demo_bad_timer \<in> set (get_registered_actor_types ?rt)"
    by (simp add: registered_iff register_actor_def demo_runtime_def demo_bad_timer_def Let_def dict_has_def dict_get_set)
  moreover have "json_loads ''{'' = Inl (exc JSONDecodeError ''Expecting value'')" by code_simp
  then have "bad_payload demo_bad_timer = Some ''timer data is not valid JSON: Expecting value''" "callback_id demo_bad_timer = ''3''"
    by (simp_all add: demo_bad_timer_def any_to_json_value_def)
  ultimately show ?thesis
    using callback_failures [of demo_callback demo_runtime demo_host_env] callback_failures [of demo_bad_timer ?rt demo_host_env]
    by (simp add: Let_def)
qed

end
