(* ===== verification/ActorDataProps.thy ===== *)
theory ActorDataProps
  imports ActorCallbacks
begin

text \<open>
  What an actor registers is what its callback gets: reminders and timers from their registration through the
  request to the sidecar, and from the callback of the sidecar to the call of the actor.
\<close>

section \<open>Serialized dicts\<close>

text \<open>The law of a message serializer: what it writes is JSON for the value.\<close>

definition json_serializer :: "(pyval \<Rightarrow> string res) \<Rightarrow> bool" where
  "json_serializer dumps \<longleftrightarrow> (\<forall>v. reads_back PDict v \<longrightarrow> (\<exists>t. dumps v = Inr t \<and> json_loads t = Inr v))"

lemma json_serializerD:
  assumes "json_serializer dumps" and "reads_back PDict v"
  obtains t where "dumps v = Inr t" and "json_loads t = Inr v"
  using assms by (auto simp: json_serializer_def)

lemma to_json_serializer: "json_serializer to_json"
  by (simp add: json_serializer_def to_json_def reads_back_serializable json_loads_dumps)

lemma json_loads_Nil: "json_loads [] = Inl (exc JSONDecodeError ''Expecting value'')"
  by (simp add: json_loads_def decode_json_def)

lemma duration_nonempty: "convert_to_dapr_duration td \<noteq> []"
  by (simp add: convert_to_dapr_duration_def Let_def)

definition duration_text :: "int option \<Rightarrow> string" where
  "duration_text t = (case t of None \<Rightarrow> [] | Some td \<Rightarrow> convert_to_dapr_duration td)"

text \<open>A policy that was accepted, with an interval that survives its text, and what the sidecar gets of it.\<close>

definition policy_in_range :: "failure_policy \<Rightarrow> bool" where
  "policy_in_range p \<longleftrightarrow>
     new_failure_policy (fp_drop p) (fp_interval p) (fp_max_retries p) = Inr p \<and>
     (\<forall>i. fp_interval p = Some i \<longrightarrow> 0 \<le> i \<and> i < 2 ^ 33 * 1000000) \<and>
     (\<forall>n. fp_max_retries p = Some n \<longrightarrow> 0 \<le> n \<and> n < 2 ^ 32)"

definition policy_sent :: "failure_policy \<Rightarrow> proto_policy" where
  "policy_sent p =
    (if fp_drop p then PolicyDrop
     else PolicyConstant (map_option (\<lambda>i. i + (if rounds_up i then 1000000 else 0)) (fp_interval p)) (fp_max_retries p))"

lemma policy_survives:
  assumes "policy_in_range p"
  shows "to_failure_policy repr (encode_default (FDict (failure_policy_as_dict p))) = Inr (Some (policy_sent p))"
proof (cases "fp_drop p")
  case True
  then show ?thesis by (simp add: failure_policy_as_dict_def to_failure_policy_def policy_sent_def dict_simps dict_has_def)
next
  case False
  have i: "convert_from_dapr_duration (convert_to_dapr_duration i) = Inr (i + (if rounds_up i then 1000000 else 0))"
    if "fp_interval p = Some i" for i
    using written_duration_read [of i] assms that by (simp add: policy_in_range_def)
  from False assms i show ?thesis
    by (cases "fp_interval p"; cases "fp_max_retries p")
      (auto simp: failure_policy_as_dict_def to_failure_policy_def policy_sent_def dict_simps dict_has_def opt_item_def
        py_get_def opt_res_def interval_of_def pb_uint32_def policy_in_range_def new_failure_policy_def)
qed

lemma policy_reads_back: "reads_back PDict (encode_default (FDict (failure_policy_as_dict p)))"
  by (auto simp: failure_policy_as_dict_def opt_item_def dict_wf_def split: option.splits)

lemma reminder_reads_back: "reads_back PDict (encode_default (FDict (reminder_as_dict r)))"
  using policy_reads_back
  by (auto simp: reminder_as_dict_def opt_item_def opt_delta_def dict_wf_def split: option.splits simp del: encode_default.simps(3))
    (auto simp: dict_wf_def)

section \<open>Reminders\<close>

lemma json_text_of_string: "json_loads (json_str s) = Inr (PStr s)"
  using json_loads_dumps [of "PStr s"] by simp

lemma parse_json_string: "parse_json_value (json_str s) kind = Inr (PStr s)"
  by (simp add: parse_json_value_def json_text_of_string)

lemma json_str_nonempty [simp]: "json_str s \<noteq> []"
  by (simp add: json_str_def)

lemma reminder_registered:
  assumes "json_serializer dumps" and "\<forall>p. rd_failure_policy r = Some p \<longrightarrow> policy_in_range p"
  shows "actor_register_reminder dumps repr r = Inr \<lparr>rr_name = rd_name r,
      rr_due_time = convert_to_dapr_duration (rd_due_time r), rr_period = duration_text (rd_period r),
      rr_ttl = duration_text (rd_ttl r), rr_data = rd_state r,
      rr_failure_policy = map_option policy_sent (rd_failure_policy r)\<rparr>"
proof -
  let ?v = "encode_default (FDict (reminder_as_dict r))"
  obtain t where t: "dumps ?v = Inr t" "json_loads t = Inr ?v"
    using json_serializerD [OF assms(1) reminder_reads_back] .
  have data: "decode_reminder_state (PStr (b64encode (rd_state r))) = Inr (rd_state r)"
    by (simp add: decode_reminder_state_def b64decode_value_def b64_roundtrip)
  have policy: "to_failure_policy repr (case rd_failure_policy r of None \<Rightarrow> PNone
      | Some p \<Rightarrow> encode_default (FDict (failure_policy_as_dict p))) = Inr (map_option policy_sent (rd_failure_policy r))"
    using assms(2) policy_survives by (cases "rd_failure_policy r") (simp_all add: to_failure_policy_def del: encode_default.simps)
  have get: "py_get ?v ''failurePolicy'' = Inr (case rd_failure_policy r of None \<Rightarrow> PNone
      | Some p \<Rightarrow> encode_default (FDict (failure_policy_as_dict p)))"
    "py_get ?v ''data'' = Inr (PStr (b64encode (rd_state r)))"
    "dict_item ?v ''dueTime'' = Inr (PStr (convert_to_dapr_duration (rd_due_time r)))"
    "get_or_empty ?v ''period'' = Inr (duration_text (rd_period r))"
    "get_or_empty ?v ''ttl'' = Inr (duration_text (rd_ttl r))"
    by (cases "rd_failure_policy r"; cases "rd_ttl r"; cases "rd_period r";
        simp add: reminder_as_dict_def py_get_def dict_item_def get_or_empty_def opt_item_def opt_delta_def dict_simps
          duration_text_def pb_string_def duration_nonempty)+
  show ?thesis
    unfolding actor_register_reminder_def t(1) grpc_register_reminder_def
    by (simp add: t(2) get data policy pb_string_def del: encode_default.simps)
qed

lemma reminder_fired:
  assumes "rq_data cb = Some (BytesValueAny (json_str (b64encode st)))"
  shows "\<exists>body d. build_reminder_fire_body cb = Inr body \<and> json_loads body = Inr (PDict d) \<and>
    reminder_from_dict (rq_name cb) d = Inr \<lparr>rm_name = rq_name cb, rm_state = st, rm_due_time = PStr (rq_due_time cb),
      rm_period = PStr (rq_period cb), rm_ttl = PNone\<rparr>"
proof -
  let ?d = "[(''dueTime'', PStr (rq_due_time cb)), (''period'', PStr (rq_period cb)), (''data'', PStr (b64encode st))]"
  have "json_loads (json_text (PDict ?d)) = Inr (PDict ?d)"
    by (rule json_loads_dumps) (simp add: dict_wf_def)
  moreover have "build_reminder_fire_body cb = Inr (json_text (PDict ?d))"
    by (simp add: build_reminder_fire_body_def any_to_json_value_def assms parse_json_string Let_def)
  moreover have "reminder_from_dict (rq_name cb) ?d = Inr \<lparr>rm_name = rq_name cb, rm_state = st,
      rm_due_time = PStr (rq_due_time cb), rm_period = PStr (rq_period cb), rm_ttl = PNone\<rparr>"
    by (simp add: reminder_from_dict_def dict_simps dict_item_def b64decode_value_def b64_roundtrip)
  ultimately show ?thesis by blast
qed

text \<open>
  Reminders come back: the registration of a reminder, serialized by the actor and parsed again by the gRPC
  client, asks the sidecar for the times, the bytes and the failure policy of the actor, intervals rounded as
  durations are; and when the sidecar delivers these bytes in base64, as it stores them, the callback's body
  decodes to the name and the bytes that were registered.
\<close>

theorem reminder_survives:
  assumes "json_serializer dumps" and "\<forall>p. rd_failure_policy r = Some p \<longrightarrow> policy_in_range p"
    and "rq_name cb = rd_name r"
  shows "\<exists>q. actor_register_reminder dumps repr r = Inr q \<and>
    rr_name q = rd_name r \<and> rr_due_time q = convert_to_dapr_duration (rd_due_time r) \<and>
    rr_period q = duration_text (rd_period r) \<and> rr_ttl q = duration_text (rd_ttl r) \<and> rr_data q = rd_state r \<and>
    rr_failure_policy q = map_option policy_sent (rd_failure_policy r) \<and>
    (rq_data cb = Some (BytesValueAny (json_str (b64encode (rr_data q)))) \<longrightarrow>
      (\<exists>body d args. build_reminder_fire_body cb = Inr body \<and> json_loads body = Inr (PDict d) \<and>
         reminder_from_dict (rd_name r) d = Inr args \<and> rm_name args = rd_name r \<and> rm_state args = rd_state r))"
  using reminder_registered [OF assms(1,2), of repr] reminder_fired [of cb "rd_state r"] assms(3) by fastforce

definition demo_reminder :: reminder_data where
  "demo_reminder = \<lparr>rd_name = ''wake'', rd_state = [CHR 0x00, CHR ''a''], rd_due_time = 1000000, rd_period = None, rd_ttl = None,
     rd_failure_policy = Some \<lparr>fp_drop = False, fp_interval = Some 2000000, fp_max_retries = None\<rparr>\<rparr>"

definition demo_reminder_callback :: reminder_request where
  "demo_reminder_callback = \<lparr>rq_id = ''1'', rq_actor_type = ''A'', rq_actor_id = ''x'', rq_name = ''wake'', rq_due_time = [],
     rq_period = [], rq_data = Some (BytesValueAny (json_str ''AGE=''))\<rparr>"

theorem reminder_survives_witness:
  "\<exists>q body d args. actor_register_reminder to_json json_text demo_reminder = Inr q \<and> rr_data q = [CHR 0x00, CHR ''a''] \<and>
     rr_failure_policy q = Some (PolicyConstant (Some 2000000) None) \<and>
     build_reminder_fire_body demo_reminder_callback = Inr body \<and> json_loads body = Inr (PDict d) \<and>
     reminder_from_dict ''wake'' d = Inr args \<and> rm_state args = [CHR 0x00, CHR ''a'']"
proof -
  have p: "\<forall>p. rd_failure_policy demo_reminder = Some p \<longrightarrow> policy_in_range p"
    by (simp add: demo_reminder_def policy_in_range_def new_failure_policy_def)
  have n: "rq_name demo_reminder_callback = rd_name demo_reminder"
    by (simp add: demo_reminder_def demo_reminder_callback_def)
  have "b64encode [CHR 0x00, CHR ''a''] = ''AGE=''" by code_simp
  then have d: "rq_data demo_reminder_callback = Some (BytesValueAny (json_str (b64encode (rd_state demo_reminder))))"
    by (simp add: demo_reminder_callback_def demo_reminder_def)
  have r: "rd_name demo_reminder = ''wake''" "rd_state demo_reminder = [CHR 0x00, CHR ''a'']"
    "map_option policy_sent (rd_failure_policy demo_reminder) = Some (PolicyConstant (Some 2000000) None)"
    by (simp_all add: demo_reminder_def policy_sent_def rounds_up_def)
  from reminder_survives [OF to_json_serializer p n, of json_text] d r show ?thesis by force
qed

section \<open>Timers\<close>

text \<open>
  The values whose JSON, registered over HTTP, looks like one that the sidecar has wrapped: strings that are the
  base64 of JSON.
\<close>

definition looks_wrapped :: "pyval \<Rightarrow> bool" where
  "looks_wrapped v = (case v of
     PStr s \<Rightarrow> (case b64decode True s of
         Inr d \<Rightarrow> (case json_loads d of Inr x \<Rightarrow> True | Inl e \<Rightarrow> False)
       | Inl e \<Rightarrow> False)
   | _ \<Rightarrow> False)"

lemma unwrap_plain:
  "json_loads t = Inr v \<Longrightarrow> \<not> looks_wrapped v \<Longrightarrow> maybe_unwrap_grpc_registered_value t = t"
  by (auto simp: maybe_unwrap_grpc_registered_value_def looks_wrapped_def split: pyval.splits sum.splits)

lemma unwrap_wrapped:
  "json_loads t = Inr v \<Longrightarrow> maybe_unwrap_grpc_registered_value (json_str (b64encode t)) = t"
  by (simp add: maybe_unwrap_grpc_registered_value_def json_text_of_string b64_roundtrip)

lemma timer_fired:
  assumes "any_to_json_value (tq_data cb) = Some t" and "json_loads (maybe_unwrap_grpc_registered_value t) = Inr v"
    and "reads_back PDict v"
  shows "\<exists>body d. build_timer_fire_body cb = Inr body \<and> json_loads body = Inr (PDict d) \<and>
    dict_get d ''data'' = Some v \<and> dict_get d ''callback'' = Some (PStr (tq_callback cb))"
proof -
  let ?d = "[(''callback'', PStr (tq_callback cb)), (''dueTime'', PStr (tq_due_time cb)),
    (''period'', PStr (tq_period cb)), (''data'', v)]"
  have "json_loads (json_text (PDict ?d)) = Inr (PDict ?d)"
    by (rule json_loads_dumps) (simp add: dict_wf_def assms(3))
  moreover have "build_timer_fire_body cb = Inr (json_text (PDict ?d))"
    using assms(1,2) by (simp add: build_timer_fire_body_def parse_json_value_def Let_def)
  ultimately show ?thesis by (auto simp: dict_simps)
qed

text \<open>
  Timers come back on both transports: a timer registered over gRPC sends the JSON text of its state; when the
  sidecar delivers that text as a base64 string, the callback's body has the state again; and so it has
  when the sidecar delivers the text itself, as it does for timers registered over HTTP, unless the state is a
  string that is the base64 of some JSON.
\<close>

theorem timer_survives:
  assumes "json_serializer dumps" and "reads_back PDict (td_state t)"
  shows "\<exists>q. actor_register_timer dumps name t = Inr q \<and> tr_callback q = td_callback t \<and> tr_name q = name \<and>
    (\<forall>cb. (tq_data cb = Some (BytesValueAny (json_str (b64encode (tr_data q)))) \<or>
           tq_data cb = Some (BytesValueAny (tr_data q)) \<and> \<not> looks_wrapped (td_state t)) \<longrightarrow>
      (\<exists>body d. build_timer_fire_body cb = Inr body \<and> json_loads body = Inr (PDict d) \<and>
         dict_get d ''data'' = Some (td_state t)))"
proof -
  let ?v = "encode_default (FDict (timer_as_dict t))"
  have "reads_back PDict ?v"
    using assms(2) by (auto simp: timer_as_dict_def dict_wf_def split: option.splits)
  then obtain b where b: "dumps ?v = Inr b" "json_loads b = Inr ?v" by (rule json_serializerD [OF assms(1)])
  obtain d where d: "dumps (td_state t) = Inr d" "json_loads d = Inr (td_state t)"
    by (rule json_serializerD [OF assms])
  have get: "py_get ?v ''data'' = Inr (td_state t)"
    "dict_item ?v ''dueTime'' = Inr (PStr (convert_to_dapr_duration (td_due_time t)))"
    "get_or_empty ?v ''period'' = Inr (convert_to_dapr_duration (td_period t))"
    "get_or_empty ?v ''ttl'' = Inr (case td_ttl t of None \<Rightarrow> [] | Some i \<Rightarrow> if i = 0 then [] else convert_to_dapr_duration i)"
    "get_or_empty ?v ''callback'' = Inr (td_callback t)"
    by (cases "td_ttl t"; simp add: timer_as_dict_def py_get_def dict_item_def get_or_empty_def dict_simps pb_string_def
        duration_nonempty)+
  have reg: "\<exists>q. actor_register_timer dumps name t = Inr q \<and> tr_callback q = td_callback t \<and> tr_name q = name \<and> tr_data q = d"
    unfolding actor_register_timer_def b(1) grpc_register_timer_def
    by (simp add: b(2) get d(1) pb_string_def del: encode_default.simps)
  have ne: "d \<noteq> []" using d(2) by (auto simp: json_loads_Nil)
  have fired: "\<exists>body e. build_timer_fire_body cb = Inr body \<and> json_loads body = Inr (PDict e) \<and>
      dict_get e ''data'' = Some (td_state t)"
    if "tq_data cb = Some (BytesValueAny (json_str (b64encode d))) \<or>
        tq_data cb = Some (BytesValueAny d) \<and> \<not> looks_wrapped (td_state t)" for cb
  proof -
    have "\<exists>x. any_to_json_value (tq_data cb) = Some x \<and> json_loads (maybe_unwrap_grpc_registered_value x) = Inr (td_state t)"
      using that ne d(2) unwrap_plain [OF d(2)] unwrap_wrapped [OF d(2)] by (auto simp: any_to_json_value_def)
    then obtain x where "any_to_json_value (tq_data cb) = Some x"
      "json_loads (maybe_unwrap_grpc_registered_value x) = Inr (td_state t)" by blast
    from timer_fired [OF this assms(2)] show ?thesis by blast
  qed
  with reg show ?thesis by blast
qed

definition demo_timer :: timer_data where
  "demo_timer = \<lparr>td_callback = ''tick'', td_state = PInt 12, td_due_time = 0, td_period = 0, td_ttl = None\<rparr>"

text \<open>The state \<open>12\<close> has the base64 \<open>MTI=\<close>; the string \<open>MTI=\<close> itself would be taken for it.\<close>

theorem timer_survives_witness:
  "\<exists>q. actor_register_timer to_json ''t'' demo_timer = Inr q \<and>
     (\<forall>cb. tq_data cb = Some (BytesValueAny (json_str (b64encode (tr_data q)))) \<longrightarrow>
       (\<exists>body d. build_timer_fire_body cb = Inr body \<and> json_loads body = Inr (PDict d) \<and>
         dict_get d ''data'' = Some (PInt 12)))"
proof -
  have "reads_back PDict (td_state demo_timer)" "td_state demo_timer = PInt 12" by (simp_all add: demo_timer_def)
  with timer_survives [OF to_json_serializer this(1), of "''t''"] show ?thesis by auto
qed

end
