(* ===== verification/HostLoop.thy ===== *)
theory HostLoop
  imports ActorHost
begin

text \<open>
  The life of the actor host (\<open>grpc_host.py\<close>): one session on a stream with its handshake, the loop that
  reconnects, and \<open>start\<close>, \<open>stop\<close>, \<open>close\<close> and \<open>run_forever\<close>. What streams, timers and the channel do is given
  by scripts. Handling the callbacks is the matter of \<open>ActorHost\<close>.
\<close>

section \<open>A session\<close>

text \<open>The write of the registration and the reads. A timeout is one of \<open>wait_for\<close>, in the handshake.\<close>

datatype write_outcome = WriteOk | WriteTimeout | WriteRpc grpc_code | WriteRaised exn

datatype stream_read = ReadMsg callback | ReadEof | ReadTimeout | ReadRpc grpc_code | ReadRaised exn

text \<open>How \<open>_run_session\<close> ends: it returns, or raises a timeout, an \<open>AioRpcError\<close>, or something else.\<close>

datatype session_end = SessionReturns | SessionTimeout | SessionRpc grpc_code | SessionRaises exn

fun serve :: "stream_read list \<Rightarrow> callback list \<times> session_end option" where
  "serve [] = ([], None)"
| "serve (ReadMsg m # rs) = (case serve rs of (ms, en) \<Rightarrow> (m # ms, en))"
| "serve (ReadEof # rs) = ([], Some SessionReturns)"
| "serve (ReadTimeout # rs) = ([], Some SessionTimeout)"
| "serve (ReadRpc c # rs) = ([], Some (SessionRpc c))"
| "serve (ReadRaised e # rs) = ([], Some (SessionRaises e))"

definition protocol_violation :: exn where
  "protocol_violation = exc RuntimeError ''Expected initial_response from daprd''"

text \<open>Whether the registration was acknowledged, the callbacks that get a task, and the end, if it ends.\<close>

definition run_actor_session :: "write_outcome \<Rightarrow> stream_read list \<Rightarrow> bool \<times> callback list \<times> session_end option" where
  "run_actor_session w rs =
    (case w of
       WriteTimeout \<Rightarrow> (False, [], Some SessionTimeout)
     | WriteRpc c \<Rightarrow> (False, [], Some (SessionRpc c))
     | WriteRaised e \<Rightarrow> (False, [], Some (SessionRaises e))
     | WriteOk \<Rightarrow>
        (case rs of
           [] \<Rightarrow> (False, [], None)
         | ReadMsg m # rs' \<Rightarrow>
             if m = InitialResponseCb then (True, serve rs')
             else (False, [], Some (SessionRaises protocol_violation))
         | ReadEof # rs' \<Rightarrow> (False, [], Some SessionReturns)
         | ReadTimeout # rs' \<Rightarrow> (False, [], Some SessionTimeout)
         | ReadRpc c # rs' \<Rightarrow> (False, [], Some (SessionRpc c))
         | ReadRaised e # rs' \<Rightarrow> (False, [], Some (SessionRaises e))))"

section \<open>The loop\<close>

definition TRANSIENT_STATUS_CODES :: "grpc_code list" where
  "TRANSIENT_STATUS_CODES = [UNAVAILABLE, UNKNOWN, INTERNAL]"

text \<open>
  A round of \<open>_run_loop\<close>: the flag \<open>_stopping\<close> before and after the session, the session, and whether the channel
  becomes ready in time. The loop returns, raises, or is in a session.
\<close>

datatype loop_end = LoopReturns | LoopRaises exn | LoopRaisesRpc grpc_code | LoopTimesOut | LoopServes

record host_round =
  rd_stopping_before :: bool
  rd_write :: write_outcome
  rd_reads :: "stream_read list"
  rd_stopping_after :: bool
  rd_channel_ready :: bool

definition round_session :: "host_round \<Rightarrow> bool \<times> callback list \<times> session_end option" where
  "round_session r = run_actor_session (rd_write r) (rd_reads r)"

text \<open>What the handlers of the loop make of the end: how the loop ends, or that it reconnects.\<close>

definition after_session :: "bool \<Rightarrow> session_end option \<Rightarrow> loop_end option" where
  "after_session stopping en = (case en of
     None \<Rightarrow> Some LoopServes
   | Some SessionReturns \<Rightarrow> if stopping then Some LoopReturns else None
   | Some SessionTimeout \<Rightarrow> if stopping then Some LoopReturns else None
   | Some (SessionRpc c) \<Rightarrow>
       if stopping \<or> c = CANCELLED then Some LoopReturns
       else if c \<notin> set TRANSIENT_STATUS_CODES then Some (LoopRaisesRpc c) else None
   | Some (SessionRaises e) \<Rightarrow> Some (LoopRaises e))"

text \<open>The sessions, each with whether it was registered and its callbacks, and the end.\<close>

fun run_loop :: "host_round list \<Rightarrow> (bool \<times> callback list) list \<times> loop_end" where
  "run_loop [] = ([], LoopServes)"
| "run_loop (r # rs) =
    (if rd_stopping_before r then ([], LoopReturns)
     else (case round_session r of (reg, ms, en) \<Rightarrow>
       (case after_session (rd_stopping_after r) en of
          Some l \<Rightarrow> ([(reg, ms)], l)
        | None \<Rightarrow>
           if \<not> rd_channel_ready r then ([(reg, ms)], LoopTimesOut)
           else (case run_loop rs of (ss, l) \<Rightarrow> ((reg, ms) # ss, l)))))"

section \<open>The life cycle\<close>

text \<open>The host's fields: the app port, the run task, the event \<open>_registered\<close>, the flag, the listener, the channel.\<close>

record life =
  lf_app_port :: "int option"
  lf_run_task :: bool
  lf_registered :: bool
  lf_stopping :: bool
  lf_app_server :: bool
  lf_channel :: bool

definition resolve_app_port :: "int option \<Rightarrow> int option \<Rightarrow> int option" where
  "resolve_app_port app_port env_port =
    (case (case app_port of None \<Rightarrow> env_port | Some p \<Rightarrow> Some p) of None \<Rightarrow> None | Some p \<Rightarrow> if p = 0 then None else Some p)"

definition new_life :: "int option \<Rightarrow> int option \<Rightarrow> life" where
  "new_life app_port env_port = \<lparr>lf_app_port = resolve_app_port app_port env_port, lf_run_task = False,
     lf_registered = False, lf_stopping = False, lf_app_server = False, lf_channel = False\<rparr>"

definition host_stop :: "life \<Rightarrow> life" where
  "host_stop l = l\<lparr>lf_stopping := True, lf_run_task := False, lf_registered := False\<rparr>"

definition host_close :: "life \<Rightarrow> life" where
  "host_close l = (host_stop l)\<lparr>lf_app_server := False, lf_channel := False\<rparr>"

text \<open>The listener: binding it or starting it may fail, and it is tracked before.\<close>

definition start_app_channel_listener :: "unit res \<Rightarrow> life \<Rightarrow> unit res \<times> life" where
  "start_app_channel_listener bound l =
    (if lf_app_port l = None \<or> lf_app_server l then (Inr (), l) else (bound, l\<lparr>lf_app_server := True\<rparr>))"

text \<open>What \<open>start\<close> waits for: the registration, or the end of the run task. The task opens a channel if there is none.\<close>

datatype first_event = Acknowledged | TaskReturned | TaskRaised exn

definition host_start :: "string list \<Rightarrow> unit res \<Rightarrow> first_event \<Rightarrow> life \<Rightarrow> unit res \<times> life" where
  "host_start types bound first l =
    (if lf_run_task l then (Inl (exc RuntimeError ''ActorGrpcHost is already started''), l)
     else if types = [] then (Inl (exc RuntimeError ''Register at least one actor type before calling start()''), l)
     else
       (case start_app_channel_listener bound (l\<lparr>lf_stopping := False, lf_registered := False\<rparr>) of
          (Inl e, l1) \<Rightarrow> (Inl e, host_close l1)
        | (Inr _, l1) \<Rightarrow>
            (let l2 = l1\<lparr>lf_run_task := True, lf_channel := True\<rparr> in
             case first of
               Acknowledged \<Rightarrow> (Inr (), l2\<lparr>lf_registered := True\<rparr>)
             | TaskReturned \<Rightarrow> (Inr (), l2)
             | TaskRaised e \<Rightarrow> (Inl e, host_close l2))))"

text \<open>The callback of the run task: \<open>None\<close> for a task that returned.\<close>

definition on_run_task_done :: "bool \<Rightarrow> exn option \<Rightarrow> life \<Rightarrow> life" where
  "on_run_task_done cancelled e l =
    (if cancelled \<or> lf_stopping l then l
     else case e of None \<Rightarrow> l | Some _ \<Rightarrow> l\<lparr>lf_run_task := False, lf_registered := False\<rparr>)"

text \<open>\<open>run_forever\<close>: whether the task died before it is awaited, and how it ends.\<close>

definition run_forever ::
  "string list \<Rightarrow> unit res \<Rightarrow> first_event \<Rightarrow> exn option \<Rightarrow> unit res \<Rightarrow> life \<Rightarrow> unit res \<times> life" where
  "run_forever types bound first died ended l =
    (case host_start types bound first l of
       (Inl e, l1) \<Rightarrow> (Inl e, l1)
     | (Inr _, l1) \<Rightarrow>
        (let l2 = (case died of None \<Rightarrow> l1 | Some e \<Rightarrow> on_run_task_done False (Some e) l1) in
         if \<not> lf_run_task l2
           then (Inl (exc RuntimeError ''Actor event stream task failed during startup, see logs''), host_close l2)
         else (ended, host_close l2)))"

section \<open>Properties\<close>

text \<open>A round that the host survives: nobody stops it, the stream ends in a passing way, the channel comes back.\<close>

definition passing_end :: "session_end option \<Rightarrow> bool" where
  "passing_end en \<longleftrightarrow> en \<in> {Some SessionReturns, Some SessionTimeout, Some (SessionRpc UNAVAILABLE),
     Some (SessionRpc UNKNOWN), Some (SessionRpc INTERNAL)}"

definition survived :: "host_round \<Rightarrow> bool" where
  "survived r \<longleftrightarrow> \<not> rd_stopping_before r \<and> \<not> rd_stopping_after r \<and> rd_channel_ready r \<and>
     passing_end (snd (snd (round_session r)))"

definition served :: "host_round \<Rightarrow> bool \<times> callback list" where
  "served r = (fst (round_session r), fst (snd (round_session r)))"

lemma after_passing: "after_session False en = None \<longleftrightarrow> passing_end en"
  by (cases en) (auto simp: after_session_def passing_end_def TRANSIENT_STATUS_CODES_def split: session_end.splits)

lemma run_loop_survived: "survived r \<Longrightarrow> run_loop (r # rs) = (served r # fst (run_loop rs), snd (run_loop rs))"
  by (auto simp: survived_def served_def after_passing [symmetric] split: prod.splits)

lemma run_loop_ends:
  assumes "\<not> survived r" and "run_loop (r # rs) = (ss, l)"
  shows "ss = (if rd_stopping_before r then [] else [served r]) \<and>
    (rd_stopping_before r \<longrightarrow> l = LoopReturns) \<and>
    (l = LoopServes \<longleftrightarrow> \<not> rd_stopping_before r \<and> snd (snd (round_session r)) = None)"
proof -
  obtain reg ms en where r: "round_session r = (reg, ms, en)" by (metis prod_cases3)
  show ?thesis
  proof (cases "rd_stopping_before r")
    case False
    show ?thesis
    proof (cases "after_session (rd_stopping_after r) en")
      case None
      then have "\<not> rd_channel_ready r"
        using assms(1) r False after_passing [of en]
        by (cases "rd_stopping_after r")
          (auto simp: survived_def after_session_def split: option.splits session_end.splits if_splits)
      moreover have "en \<noteq> None" using None by (cases en) (simp_all add: after_session_def)
      ultimately show ?thesis using None False r assms(2) by (auto simp: served_def)
    next
      case (Some x)
      with False r assms(2) show ?thesis
        by (auto simp: served_def after_session_def split: option.splits session_end.splits if_splits)
    qed
  qed (use assms(2) in auto)
qed

text \<open>The message that follows the acknowledgement on a stream, up to its end.\<close>

lemma serve_messages: "serve (map ReadMsg ms @ ReadEof # rs) = (ms, Some SessionReturns)"
  by (induction ms) simp_all

text \<open>
  The host reconnects: through any number of rounds whose streams end in a passing way, the loop opens one
  session after the other and hands out every callback that was read, in order; it ends in the first round
  that is not such, with no session after it, and it goes on serving exactly when that round's stream goes on.
\<close>

theorem host_reconnects:
  assumes "\<forall>r \<in> set rs. survived r" and "\<not> survived r"
  shows "fst (run_loop (rs @ r # later)) = map served rs @ (if rd_stopping_before r then [] else [served r]) \<and>
    (snd (run_loop (rs @ r # later)) = LoopServes \<longleftrightarrow> \<not> rd_stopping_before r \<and> snd (snd (round_session r)) = None)"
  using assms(1)
proof (induction rs)
  case Nil
  obtain ss l where "run_loop (r # later) = (ss, l)" by fastforce
  from run_loop_ends [OF assms(2) this] this show ?case by simp
next
  case (Cons q rs)
  then show ?case using run_loop_survived [of q "rs @ r # later"] by simp
qed

definition demo_round :: "stream_read list \<Rightarrow> host_round" where
  "demo_round rs = \<lparr>rd_stopping_before = False, rd_write = WriteOk, rd_reads = ReadMsg InitialResponseCb # rs,
     rd_stopping_after = False, rd_channel_ready = True\<rparr>"

theorem host_reconnects_witness:
  "run_loop [demo_round [ReadMsg UnknownCb, ReadRpc INTERNAL], demo_round [ReadEof], demo_round [ReadMsg UnknownCb]] =
     ([(True, [UnknownCb]), (True, []), (True, [UnknownCb])], LoopServes)"
proof -
  have s: "\<forall>r \<in> set [demo_round [ReadMsg UnknownCb, ReadRpc INTERNAL], demo_round [ReadEof]]. survived r"
    and n: "\<not> survived (demo_round [ReadMsg UnknownCb])"
    by (simp_all add: survived_def demo_round_def round_session_def run_actor_session_def passing_end_def)
  from host_reconnects [OF s n, of "[]"] show ?thesis
    by (simp add: prod_eq_iff served_def round_session_def demo_round_def run_actor_session_def)
qed

text \<open>
  \<open>start\<close> succeeds or leaves nothing behind: it refuses a host that is started and one without types without a
  change; when the listener or the first session fails, it raises that error with the task, the listener and the
  channel gone; otherwise the task runs. A stopped host keeps its channel and listener, and can be started again.
\<close>

lemma start_or_nothing:
  assumes "host_start types bound first l = (r, l')"
  shows "(case r of
      Inr _ \<Rightarrow> \<not> lf_run_task l \<and> types \<noteq> [] \<and> lf_run_task l' \<and> lf_channel l' \<and> \<not> lf_stopping l' \<and>
        (lf_registered l' = (first = Acknowledged)) \<and> (lf_app_port l \<noteq> None \<longrightarrow> lf_app_server l')
    | Inl e \<Rightarrow> l' = l \<and> (lf_run_task l \<or> types = []) \<or>
        \<not> lf_run_task l' \<and> \<not> lf_app_server l' \<and> \<not> lf_channel l' \<and> \<not> lf_registered l' \<and> (bound = Inl e \<or> first = TaskRaised e)) \<and>
    (types \<noteq> [] \<longrightarrow> fst (host_start types (Inr ()) Acknowledged (host_stop l')) = Inr () \<and>
       lf_channel (host_stop l') = lf_channel l' \<and> lf_app_server (host_stop l') = lf_app_server l')"
  using assms
  by (auto simp: host_start_def start_app_channel_listener_def host_close_def host_stop_def Let_def
      split: if_splits sum.splits first_event.splits prod.splits)

text \<open>
  A cancelled stream looks started: if the sidecar cancels the first stream before it acknowledges the
  registration, the loop returns as if the host were stopped, \<open>start\<close> returns without an error although nothing is
  registered and no task serves, the end of the task changes nothing, and a second \<open>start\<close> is refused.
\<close>

theorem cancelled_stream_looks_started:
  assumes "rd_write r = WriteOk" and "rd_reads r = ReadRpc CANCELLED # later" and "\<not> rd_stopping_before r"
    and "\<not> lf_run_task l" and "types \<noteq> []" and "lf_app_port l = None"
  shows "run_loop (r # rs) = ([(False, [])], LoopReturns) \<and>
    (\<exists>l'. host_start types bound TaskReturned l = (Inr (), l') \<and> \<not> lf_registered l' \<and>
      on_run_task_done False None l' = l' \<and>
      host_start types bound first l' = (Inl (exc RuntimeError ''ActorGrpcHost is already started''), l'))"
  using assms
  by (simp add: round_session_def run_actor_session_def after_session_def host_start_def start_app_channel_listener_def
      on_run_task_done_def Let_def)

theorem cancelled_stream_looks_started_witness:
  "\<exists>l'. host_start [''A''] (Inr ()) TaskReturned (new_life None None) = (Inr (), l') \<and> \<not> lf_registered l' \<and>
     host_start [''A''] (Inr ()) Acknowledged l' = (Inl (exc RuntimeError ''ActorGrpcHost is already started''), l')"
proof -
  let ?r = "\<lparr>rd_stopping_before = False, rd_write = WriteOk, rd_reads = [ReadRpc CANCELLED], rd_stopping_after = False,
     rd_channel_ready = True\<rparr>"
  have "\<not> lf_run_task (new_life None None)" "lf_app_port (new_life None None) = None"
    by (simp_all add: new_life_def resolve_app_port_def)
  with cancelled_stream_looks_started [of ?r "[]" "new_life None None" "[''A'']" "[]" "Inr ()" Acknowledged]
  show ?thesis by auto
qed

end
