(* ===== verification/CallbackServicerProps.thy ===== *)
theory CallbackServicerProps
  imports CallbackServicer "HOL-Library.Multiset"
begin

text \<open>
  What the callback server promises: the routes it advertises are served, a registered handler keeps its events, the
  rules of a topic are in the order of their priorities, and a bulk of events is answered entry by entry.
\<close>

section \<open>Registrations\<close>

datatype registration =
    RegisterTopic topic_registration | RegisterMethod string cb | RegisterBinding string cb | RegisterJob string cb

fun register :: "registration \<Rightarrow> servicer \<Rightarrow> unit res \<times> servicer" where
  "register (RegisterTopic q) s = register_topic q s"
| "register (RegisterMethod n f) s = register_method n f s"
| "register (RegisterBinding n f) s = register_binding n f s"
| "register (RegisterJob n f) s = register_job_event n f s"

definition registration_step :: "servicer \<Rightarrow> servicer \<Rightarrow> bool" where
  "registration_step s s' \<longleftrightarrow> (\<exists>a. s' = snd (register a s))"

text \<open>The part of the state that topics use.\<close>

definition topic_state :: "servicer \<Rightarrow>
    (string, cb) dict \<times> (string, nat) dict \<times> registered_subscription list \<times> (string \<times> string, cb) dict" where
  "topic_state s = (sv_topics s, sv_registered_map s, sv_registered s, sv_routes s)"

lemma register_topic_state:
  "\<nexists>q. a = RegisterTopic q \<Longrightarrow> topic_state (snd (register a s)) = topic_state s"
  by (cases a) (auto simp: topic_state_def register_method_def register_binding_def register_job_event_def)

text \<open>A subscription and what the servicer knows of it.\<close>

definition has_route :: "servicer \<Rightarrow> topic_subscription \<Rightarrow> string \<Rightarrow> bool" where
  "has_route s t path \<longleftrightarrow> dict_has (sv_topics s) (route_key (tp_pubsub t) (tp_topic t) path)"

definition subscription_ok :: "servicer \<Rightarrow> registered_subscription \<Rightarrow> bool" where
  "subscription_ok s g \<longleftrightarrow>
    (let t = rg_subscription g in
     tp_rules t = map snd (rg_rules g) \<and> sorted (map fst (rg_rules g)) \<and>
     (\<forall>r \<in> set (tp_rules t). has_route s t (ru_path r)) \<and>
     (tp_rules t = [] \<longrightarrow> has_route s t []) \<and>
     (tp_default t \<noteq> [] \<longrightarrow> tp_default t = tp_topic t \<and> dict_has (sv_routes s) (tp_pubsub t, tp_topic t)))"

definition servicer_ok :: "servicer \<Rightarrow> bool" where
  "servicer_ok s \<longleftrightarrow>
    (\<forall>g \<in> set (sv_registered s). subscription_ok s g) \<and>
    (\<forall>k i. dict_get (sv_registered_map s) k = Some i \<longleftrightarrow> i < length (sv_registered s) \<and>
       (let t = rg_subscription (sv_registered s ! i) in topic_key (tp_pubsub t) (tp_topic t) = k))"

lemma servicer_ok_topic_state: "topic_state s = topic_state s' \<Longrightarrow> servicer_ok s = servicer_ok s'"
  by (simp add: topic_state_def servicer_ok_def subscription_ok_def has_route_def)

lemma has_after_set: "dict_has (dict_set k v d) k' \<longleftrightarrow> k' = k \<or> dict_has d k'"
  by (auto simp: dict_has_def dict_get_set)

text \<open>Registering adds to the maps, and changes no entry of the map of topics.\<close>

lemma map_callback_fields:
  "sv_topics (map_callback q s) =
     dict_set (route_key (rt_pubsub q) (rt_topic q) (registration_path q)) (rt_cb q) (sv_topics s)"
  "sv_routes (map_callback q s) =
     dict_set (rt_pubsub q, if rt_rule q = None then rt_topic q else registration_path q) (rt_cb q) (sv_routes s)"
  "sv_registered (map_callback q s) = sv_registered s"
  "sv_registered_map (map_callback q s) = sv_registered_map s"
  by (simp_all add: map_callback_def Let_def)

lemma find_subscription_fields:
  assumes "find_subscription q s = (i, s')"
  shows "sv_topics s' = sv_topics s" "sv_routes s' = sv_routes s"
    and "sv_registered s' = (case dict_get (sv_registered_map s) (topic_key (rt_pubsub q) (rt_topic q)) of
       None \<Rightarrow> sv_registered s @ [new_subscription q] | Some i \<Rightarrow> sv_registered s)"
    and "sv_registered_map s' = (case dict_get (sv_registered_map s) (topic_key (rt_pubsub q) (rt_topic q)) of
       None \<Rightarrow> dict_set (topic_key (rt_pubsub q) (rt_topic q)) i (sv_registered_map s) | Some i \<Rightarrow> sv_registered_map s)"
    and "i = (case dict_get (sv_registered_map s) (topic_key (rt_pubsub q) (rt_topic q)) of
       None \<Rightarrow> length (sv_registered s) | Some i \<Rightarrow> i)"
  using assms by (auto simp: find_subscription_def Let_def split: option.splits)

definition subscription_pre :: "servicer \<Rightarrow> registered_subscription \<Rightarrow> bool" where
  "subscription_pre s g \<longleftrightarrow>
    (let t = rg_subscription g in
     tp_rules t = map snd (rg_rules g) \<and> (\<forall>r \<in> set (tp_rules t). has_route s t (ru_path r)) \<and>
     (tp_default t \<noteq> [] \<longrightarrow> tp_default t = tp_topic t \<and> dict_has (sv_routes s) (tp_pubsub t, tp_topic t)))"

lemma subscription_ok_pre: "subscription_ok s g \<Longrightarrow> subscription_pre s g"
  by (auto simp: subscription_ok_def subscription_pre_def Let_def)

definition extends :: "servicer \<Rightarrow> servicer \<Rightarrow> bool" where
  "extends s s' \<longleftrightarrow> (\<forall>k. dict_has (sv_topics s) k \<longrightarrow> dict_has (sv_topics s') k) \<and>
     (\<forall>k. dict_has (sv_routes s) k \<longrightarrow> dict_has (sv_routes s') k)"

lemma subscription_mono:
  "extends s s' \<Longrightarrow> subscription_ok s g \<Longrightarrow> subscription_ok s' g"
  "extends s s' \<Longrightarrow> subscription_pre s g \<Longrightarrow> subscription_pre s' g"
  by (auto simp: extends_def subscription_ok_def subscription_pre_def has_route_def Let_def)

lemma add_rule_fields [simp]:
  "tp_pubsub (rg_subscription (add_rule f r g)) = tp_pubsub (rg_subscription g)"
  "tp_topic (rg_subscription (add_rule f r g)) = tp_topic (rg_subscription g)"
  "tp_default (rg_subscription (add_rule f r g)) = tp_default (rg_subscription g)"
  "tp_rules (rg_subscription (add_rule f r g)) = map snd (rg_rules (add_rule f r g))"
  "rg_rules (add_rule f r g) = sort_key fst (rg_rules g @ [(rule_priority r, \<lparr>ru_match = rule_match r, ru_path = rule_path f r\<rparr>)])"
  by (simp_all add: add_rule_def Let_def)

lemma add_rule_ok:
  assumes "subscription_pre s g" and "has_route s (rg_subscription g) (rule_path f r)"
  shows "subscription_ok s (add_rule f r g)"
proof -
  let ?xs = "rg_rules g @ [(rule_priority r, \<lparr>ru_match = rule_match r, ru_path = rule_path f r\<rparr>)]"
  have "sort_key fst ?xs \<noteq> []" by (metis snoc_eq_iff_butlast sort_key_simps(1) length_0_conv length_sort)
  with assms show ?thesis
    by (auto simp: subscription_ok_def subscription_pre_def Let_def has_route_def)
qed

lemma new_subscription_pre:
  "dict_has (sv_routes s) (rt_pubsub q, rt_topic q) \<or> rt_rule q \<noteq> None \<Longrightarrow> subscription_pre s (new_subscription q)"
  by (auto simp: subscription_pre_def new_subscription_def Let_def)

lemma register_topic_ok:
  assumes "servicer_ok s" and "register_topic q s = (Inr (), s')"
  shows "servicer_ok s'"
proof -
  let ?k = "topic_key (rt_pubsub q) (rt_topic q)" and ?s0 = "map_callback q s"
  obtain i s1 where f: "find_subscription q ?s0 = (i, s1)" by fastforce
  note ff = find_subscription_fields [OF f] and mf = map_callback_fields
  have s': "s' = (case rt_rule q of None \<Rightarrow> s1
      | Some r \<Rightarrow> s1\<lparr>sv_registered := (sv_registered s1)[i := add_rule (rt_cb q) r (sv_registered s1 ! i)]\<rparr>)"
    using assms(2) f by (auto simp: register_topic_def split: if_splits)
  then have ext: "extends s s'"
    by (auto simp: extends_def ff mf has_after_set split: option.splits)
  have route: "dict_has (sv_topics s') (?k @ DELIMITER @ registration_path q)"
    "dict_has (sv_routes s') (rt_pubsub q, rt_topic q) \<or> rt_rule q \<noteq> None"
    using s' by (auto simp: ff mf has_after_set route_key_def split: option.splits)
  let ?key = "\<lambda>g. topic_key (tp_pubsub (rg_subscription g)) (tp_topic (rg_subscription g))"
  have map: "dict_get (sv_registered_map s) k = Some j \<longleftrightarrow> j < length (sv_registered s) \<and> ?key (sv_registered s ! j) = k" for k j
    using assms(1) by (simp add: servicer_ok_def Let_def)
  have none: "?key g \<noteq> ?k" if "dict_get (sv_registered_map s) ?k = None" "g \<in> set (sv_registered s)" for g
    using map that by (metis in_set_conv_nth option.distinct(1))
  have i: "i < length (sv_registered s1)" "?key (sv_registered s1 ! i) = ?k" "subscription_pre s' (sv_registered s1 ! i)"
  proof -
    show "i < length (sv_registered s1)" using map by (auto simp: ff mf split: option.splits)
    show "?key (sv_registered s1 ! i) = ?k"
      using map by (auto simp: ff mf new_subscription_def nth_append split: option.splits)
    show "subscription_pre s' (sv_registered s1 ! i)"
    proof (cases "dict_get (sv_registered_map s) ?k")
      case None
      with new_subscription_pre [OF route(2)] show ?thesis by (simp add: ff mf)
    next
      case (Some j)
      with map have "subscription_ok s (sv_registered s ! j)" using assms(1) by (simp add: servicer_ok_def)
      with Some subscription_mono(2) [OF ext subscription_ok_pre] show ?thesis by (simp add: ff mf)
    qed
  qed
  have others: "subscription_ok s' g" if "g \<in> set (sv_registered s)" for g
    using that assms(1) subscription_mono(1) [OF ext] by (auto simp: servicer_ok_def)
  have subs: "subscription_ok s' g" if "g \<in> set (sv_registered s')" for g
  proof (cases "rt_rule q")
    case None
    with s' that consider "g \<in> set (sv_registered s)" | "g = new_subscription q"
      by (auto simp: ff mf split: option.splits)
    then show ?thesis
    proof cases
      case 2
      with None new_subscription_pre [OF route(2)] route(1) show ?thesis
        by (auto simp: subscription_ok_def subscription_pre_def new_subscription_def Let_def has_route_def route_key_def
            registration_path_def)
    qed (rule others)
  next
    case (Some r)
    let ?g = "sv_registered s1 ! i"
    have "has_route s' (rg_subscription ?g) (rule_path (rt_cb q) r)"
      using route(1) i(2) Some by (simp add: has_route_def route_key_def registration_path_def)
    then have "subscription_ok s' (add_rule (rt_cb q) r ?g)" using i(3) by (rule add_rule_ok [rotated])
    moreover have "g = add_rule (rt_cb q) r ?g \<or> g \<in> set (sv_registered s)"
      using that s' Some set_update_subset_insert [of "sv_registered s" i "add_rule (rt_cb q) r ?g"]
      by (auto simp: ff mf list_update_append split: option.splits)
    ultimately show ?thesis using others by blast
  qed
  have keys: "map ?key (sv_registered s') = map ?key (sv_registered s1)"
    using s' i(1) by (auto simp: list_eq_iff_nth_eq nth_list_update split: option.splits)
  have "dict_get (sv_registered_map s1) k = Some j \<longleftrightarrow> j < length (sv_registered s1) \<and> ?key (sv_registered s1 ! j) = k" for k j
    using map none by (auto simp: ff mf dict_get_set nth_append new_subscription_def less_Suc_eq split: option.splits)
  moreover have "sv_registered_map s' = sv_registered_map s1" using s' by (auto split: option.splits)
  moreover have "length (sv_registered s') = length (sv_registered s1)" using keys by (metis length_map)
  moreover from this keys have "?key (sv_registered s' ! j) = ?key (sv_registered s1 ! j)" if "j < length (sv_registered s1)" for j
    using that by (metis (mono_tags, lifting) nth_map)
  ultimately have "dict_get (sv_registered_map s') k = Some j \<longleftrightarrow>
      j < length (sv_registered s') \<and> (let t = rg_subscription (sv_registered s' ! j) in topic_key (tp_pubsub t) (tp_topic t) = k)"
    for k j by (auto simp: Let_def)
  with subs show ?thesis by (auto simp: servicer_ok_def)
qed

section \<open>Reachable servicers\<close>

interpretation registering: step_invariant new_servicer registration_step servicer_ok
proof unfold_locales
  show "servicer_ok new_servicer" by (simp add: servicer_ok_def new_servicer_def)
next
  fix s s' assume "registration_step s s'" and ok: "servicer_ok s"
  then obtain a where s': "s' = snd (register a s)" by (auto simp: registration_step_def)
  show "servicer_ok s'"
  proof (cases a)
    case (RegisterTopic q)
    show ?thesis
    proof (cases "register_topic q s")
      case (Pair r s1)
      then show ?thesis
        using s' ok RegisterTopic register_topic_ok [OF ok, of q]
        by (cases r) (auto simp: register_topic_def split: if_splits prod.splits)
    qed
  next
    case (RegisterMethod n f)
    with s' ok show ?thesis using servicer_ok_topic_state register_topic_state [of a s] by blast
  next
    case (RegisterBinding n f)
    with s' ok show ?thesis using servicer_ok_topic_state register_topic_state [of a s] by blast
  next
    case (RegisterJob n f)
    with s' ok show ?thesis using servicer_ok_topic_state register_topic_state [of a s] by blast
  qed
qed

text \<open>The paths that the sidecar may put into the events of a subscription.\<close>

definition advertised_paths :: "topic_subscription \<Rightarrow> string set" where
  "advertised_paths t = (if tp_default t \<noteq> [] then {tp_default t} else {}) \<union> ru_path ` set (tp_rules t) \<union>
     (if tp_rules t = [] then {[]} else {})"

text \<open>
  C23. The server serves what it advertises: whatever was registered, in any order and with any failures, every path of
  every subscription it lists, its default route, its rules, or no path if it has no rules, leads to a handler, so
  such an event is never answered with UNIMPLEMENTED.
\<close>

theorem advertised_routes_served:
  assumes "rtranclp registration_step new_servicer s" and "t \<in> set (list_topic_subscriptions s)"
    and "te_pubsub q = tp_pubsub t" and "te_topic q = tp_topic t" and "te_path q \<in> advertised_paths t"
  shows "\<exists>f. get_topic_callback (te_pubsub q) (te_topic q) (te_path q) s = Some f \<and>
    on_topic_event run q md s = (None, map_sum id (\<lambda>a. case a of TopicAnswer st \<Rightarrow> Some st | OtherAnswer \<Rightarrow> None)
      (run f (build_topic_event (uses_legacy s f) q md)))"
proof -
  from assms(2) obtain g where g: "g \<in> set (sv_registered s)" "t = rg_subscription g"
    by (auto simp: list_topic_subscriptions_def)
  with registering.reachable_inv [OF assms(1)] have "subscription_ok s g" by (simp add: servicer_ok_def)
  then have "\<exists>f. get_topic_callback (tp_pubsub t) (tp_topic t) (te_path q) s = Some f"
    using assms(5) g(2)
    by (auto simp: advertised_paths_def subscription_ok_def Let_def has_route_def dict_has_def get_topic_callback_def
        split: if_splits option.splits)
  with assms(3,4) show ?thesis by (auto simp: on_topic_event_def)
qed

text \<open>A registered handler keeps its events.\<close>

lemma register_topic_topics:
  assumes "register_topic q s = (r, s')"
  shows "sv_topics s' = (if r = Inr ()
    then dict_set (route_key (rt_pubsub q) (rt_topic q) (registration_path q)) (rt_cb q) (sv_topics s) else sv_topics s)"
    and "r = Inr () \<longleftrightarrow> dict_get (sv_topics s) (route_key (rt_pubsub q) (rt_topic q) (registration_path q)) = None"
proof -
  obtain i s1 where f: "find_subscription q (map_callback q s) = (i, s1)" by fastforce
  then have "sv_topics s1 = dict_set (route_key (rt_pubsub q) (rt_topic q) (registration_path q)) (rt_cb q) (sv_topics s)"
    by (simp add: find_subscription_fields [OF f] map_callback_fields)
  with assms f show "sv_topics s' = (if r = Inr ()
      then dict_set (route_key (rt_pubsub q) (rt_topic q) (registration_path q)) (rt_cb q) (sv_topics s) else sv_topics s)"
    by (auto simp: register_topic_def split: if_splits option.splits)
  show "r = Inr () \<longleftrightarrow> dict_get (sv_topics s) (route_key (rt_pubsub q) (rt_topic q) (registration_path q)) = None"
    using assms f by (auto simp: register_topic_def dict_has_def split: if_splits)
qed

lemma topics_kept:
  "rtranclp registration_step s s' \<Longrightarrow> dict_get (sv_topics s) k = Some f \<Longrightarrow> dict_get (sv_topics s') k = Some f"
proof (induction rule: rtranclp_induct)
  case (step s1 s2)
  then obtain a where a: "s2 = snd (register a s1)" by (auto simp: registration_step_def)
  show ?case
  proof (cases "\<exists>q. a = RegisterTopic q")
    case False
    with a step show ?thesis using register_topic_state [of a s1] by (auto simp: topic_state_def)
  next
    case True
    then obtain q r where q: "a = RegisterTopic q" "register_topic q s1 = (r, s2)"
      using a by (metis prod.collapse register.simps(1))
    with register_topic_topics [OF q(2)] step.IH [OF step.prems] show ?thesis
      by (auto simp: dict_get_set split: if_splits)
  qed
qed

section \<open>Rules\<close>

text \<open>The rules of a topic, and those that a sequence of registrations adds to it, in their order.\<close>

definition rules_of :: "string \<Rightarrow> servicer \<Rightarrow> (int \<times> topic_rule) list" where
  "rules_of k s = (case dict_get (sv_registered_map s) k of None \<Rightarrow> [] | Some i \<Rightarrow> rg_rules (sv_registered s ! i))"

definition accepted_rule :: "string \<Rightarrow> registration \<Rightarrow> servicer \<Rightarrow> (int \<times> topic_rule) list" where
  "accepted_rule k a s = (case a of
     RegisterTopic q \<Rightarrow>
       (case rt_rule q of
          Some r \<Rightarrow> if fst (register_topic q s) = Inr () \<and> topic_key (rt_pubsub q) (rt_topic q) = k
            then [(rule_priority r, \<lparr>ru_match = rule_match r, ru_path = rule_path (rt_cb q) r\<rparr>)] else []
        | None \<Rightarrow> [])
   | _ \<Rightarrow> [])"

primrec accepted_rules :: "string \<Rightarrow> registration list \<Rightarrow> servicer \<Rightarrow> (int \<times> topic_rule) list" where
  "accepted_rules k [] s = []"
| "accepted_rules k (a # as) s = accepted_rule k a s @ accepted_rules k as (snd (register a s))"

definition register_all :: "registration list \<Rightarrow> servicer \<Rightarrow> servicer" where
  "register_all as s = fold (\<lambda>a s. snd (register a s)) as s"

lemma sort_key_append_sorted: "sort_key f (sort_key f xs @ ys) = sort_key f (xs @ ys)"
proof (rule properties_for_sort_key)
  fix k
  have "(\<lambda>x. f k = f x) = (\<lambda>x. f x = f k)" by auto
  then show "filter (\<lambda>x. f k = f x) (sort_key f (xs @ ys)) = filter (\<lambda>x. f k = f x) (sort_key f xs @ ys)"
    by (simp only: sort_key_stable filter_append)
qed simp_all

lemma rules_of_register:
  assumes "servicer_ok s"
  shows "rules_of k (snd (register a s)) =
    (case accepted_rule k a s of [] \<Rightarrow> rules_of k s | e # es \<Rightarrow> sort_key fst (rules_of k s @ [e]))"
proof (cases "\<exists>q. a = RegisterTopic q")
  case False
  then have "accepted_rule k a s = []" by (cases a) (auto simp: accepted_rule_def)
  with False register_topic_state [of a s] show ?thesis by (auto simp: topic_state_def rules_of_def split: option.splits)
next
  case True
  then obtain q where q: "a = RegisterTopic q" by blast
  let ?k = "topic_key (rt_pubsub q) (rt_topic q)"
  obtain i s1 where f: "find_subscription q (map_callback q s) = (i, s1)" by fastforce
  note ff = find_subscription_fields [OF f] and mf = map_callback_fields
  show ?thesis
  proof (cases "dict_has (sv_topics s) (route_key (rt_pubsub q) (rt_topic q) (registration_path q))")
    case True
    with q show ?thesis by (auto simp: register_topic_def accepted_rule_def split: option.splits)
  next
    case False
    have old': "j < length (sv_registered s) \<and> topic_key (tp_pubsub (rg_subscription (sv_registered s ! j)))
        (tp_topic (rg_subscription (sv_registered s ! j))) = k" if "dict_get (sv_registered_map s) k = Some j" for j k
      using assms that by (simp add: servicer_ok_def Let_def)
    then have old: "k = k'"
      if "dict_get (sv_registered_map s) k = Some j" "dict_get (sv_registered_map s) k' = Some j" for j k k'
      using that by metis
    have "dict_get (sv_registered_map s) k \<noteq> Some (length (sv_registered s))" using old' by blast
    with False q f show ?thesis
      using old old'
      by (auto simp: register_topic_def accepted_rule_def rules_of_def ff mf dict_get_set nth_append nth_list_update
          new_subscription_def split: option.splits)
  qed
qed

lemma rules_of_sorted: "servicer_ok s \<Longrightarrow> sorted (map fst (rules_of k s))"
  by (auto simp: servicer_ok_def rules_of_def subscription_ok_def Let_def split: option.splits)

lemma register_ok: "servicer_ok s \<Longrightarrow> servicer_ok (snd (register a s))"
  using registering.inv_step registration_step_def by blast

lemma rules_of_register_all:
  "servicer_ok s \<Longrightarrow> rules_of k (register_all as s) = sort_key fst (rules_of k s @ accepted_rules k as s)"
proof (induction as arbitrary: s)
  case Nil
  then show ?case using rules_of_sorted [of s k] by (simp add: register_all_def sort_key_id_if_sorted)
next
  case (Cons a as)
  have "register_all (a # as) s = register_all as (snd (register a s))" by (simp add: register_all_def)
  moreover have "accepted_rule k a s = [] \<or> (\<exists>e. accepted_rule k a s = [e])"
    by (auto simp: accepted_rule_def split: registration.splits option.splits)
  ultimately show ?case
    using Cons.IH [OF register_ok [OF Cons.prems], of a] rules_of_register [OF Cons.prems, of k a]
    by (auto simp: sort_key_append_sorted)
qed

lemma register_all_reach: "rtranclp registration_step s (register_all as s)"
proof (induction as arbitrary: s)
  case (Cons a as)
  have "registration_step s (snd (register a s))" by (auto simp: registration_step_def)
  with Cons [of "snd (register a s)"] show ?case by (simp add: register_all_def)
qed (simp add: register_all_def)


section \<open>Bulk events\<close>

text \<open>The event that an entry of a bulk stands for, sent on its own, and the status that its answer amounts to.\<close>

definition as_single :: "bool \<Rightarrow> bulk_request \<Rightarrow> bulk_entry \<Rightarrow> topic_event_request" where
  "as_single legacy q e = (let r = (entry_request e q)\<lparr>te_path := bk_path q\<rparr> in
     if legacy then r\<lparr>te_extensions := dict_update (dict_update [] (te_extensions r)) (map (\<lambda>p. (fst p, PStr (snd p))) (be_metadata e))\<rparr>
     else r)"

definition single_metadata :: "bool \<Rightarrow> (string, string) dict \<Rightarrow> bulk_entry \<Rightarrow> (string, string) dict" where
  "single_metadata legacy md e = (if legacy then md else dict_update md (be_metadata e))"

definition answered_status :: "topic_status option res \<Rightarrow> topic_status" where
  "answered_status r = (case r of Inl e \<Rightarrow> StatusRetry | Inr None \<Rightarrow> StatusSuccess | Inr (Some st) \<Rightarrow> st)"

text \<open>For a deprecated event: a cloud event with something in its extensions.\<close>

definition same_as_single :: "bool \<Rightarrow> (string, string) dict \<Rightarrow> bulk_entry \<Rightarrow> bool" where
  "same_as_single legacy md e \<longleftrightarrow> \<not> legacy \<or>
    (\<exists>ce. be_cloud_event e = Some ce \<and> (cp_extensions ce \<noteq> [] \<or> be_metadata e \<noteq> [] \<or> md \<noteq> []))"

lemma dict_update_snoc: "dict_update d (es @ [e]) = dict_set (fst e) (snd e) (dict_update d es)"
  by (simp add: dict_update_def)

lemma dict_update_wf: "dict_wf d \<Longrightarrow> dict_wf (dict_update d es)"
  by (induction es rule: rev_induct) (simp_all add: dict_update_snoc dict_update_def)

lemma dict_update_idem: "dict_wf (d :: (string, pyval) dict) \<Longrightarrow> dict_update [] d = d"
  using pairs_dict_wf [of d] by (simp add: dict_update_def pairs_dict_def)

lemma dict_update_Nil_iff: "dict_update d es = [] \<longleftrightarrow> d = [] \<and> es = []"
proof (induction es rule: rev_induct)
  case (snoc e es)
  have "dict_set k v d' \<noteq> []" for k v and d' :: "('a, 'b) dict" by (cases d') (auto simp: dict_simps split: if_splits)
  then show ?case by (simp add: dict_update_snoc)
qed (simp add: dict_update_def)

lemma bulk_event_as_single:
  assumes "same_as_single legacy md e"
  shows "(if legacy then LegacyEvent (bulk_entry_legacy_event e q md)
          else MessageEvent (bulk_entry_subscription_message e q md)) =
    build_topic_event legacy (as_single legacy q e) (single_metadata legacy md e)"
proof (cases legacy)
  case True
  with assms obtain ce where ce: "be_cloud_event e = Some ce" "cp_extensions ce \<noteq> [] \<or> be_metadata e \<noteq> [] \<or> md \<noteq> []"
    by (auto simp: same_as_single_def)
  have "dict_wf (dict_update (dict_update [] (cp_extensions ce)) (map (\<lambda>p. (fst p, PStr (snd p))) (be_metadata e)))"
    by (simp add: dict_update_wf)
  with ce True show ?thesis
    by (simp add: bulk_entry_legacy_event_def build_topic_event_def as_single_def single_metadata_def entry_request_def
        dict_update_idem dict_update_Nil_iff metadata_items_def)
next
  case False
  then show ?thesis
    by (simp add: bulk_entry_subscription_message_def build_topic_event_def as_single_def single_metadata_def
        new_subscription_message_def)
qed


section \<open>Witnesses\<close>

definition demo_registration :: "nat \<Rightarrow> string \<Rightarrow> int \<Rightarrow> topic_registration" where
  "demo_registration n name p = \<lparr>rt_pubsub = ''ps'', rt_topic = ''t'', rt_cb = Callback n (Some name),
     rt_metadata = None, rt_dead_letter = None, rt_rule = Some \<lparr>rule_match = ''m'', rule_priority = p\<rparr>,
     rt_disable_validation = False, rt_legacy = False\<rparr>"

definition demo_servicer :: servicer where
  "demo_servicer = register_all [RegisterTopic (demo_registration 1 ''f1'' 5), RegisterTopic (demo_registration 2 ''f2'' 3)] new_servicer"

lemmas register_eval = register_all_def register_topic_def find_subscription_def map_callback_def demo_registration_def
  new_servicer_def registration_path_def rule_path_def route_key_def topic_key_def DELIMITER_def new_subscription_def
  add_rule_def dict_has_def dict_simps Let_def

lemma demo_servicer_eval:
  "demo_servicer = \<lparr>sv_methods = [], sv_topics = [(''ps:t:f1'', Callback 1 (Some ''f1'')), (''ps:t:f2'', Callback 2 (Some ''f2''))],
     sv_legacy = [(Callback 1 (Some ''f1''), False), (Callback 2 (Some ''f2''), False)], sv_bindings = [], sv_jobs = [],
     sv_registered_map = [(''ps:t'', 0)],
     sv_registered = [\<lparr>rg_subscription = \<lparr>tp_pubsub = ''ps'', tp_topic = ''t'', tp_metadata = [], tp_dead_letter = [], tp_default = [],
        tp_rules = [\<lparr>ru_match = ''m'', ru_path = ''f2''\<rparr>, \<lparr>ru_match = ''m'', ru_path = ''f1''\<rparr>]\<rparr>,
        rg_rules = [(3, \<lparr>ru_match = ''m'', ru_path = ''f2''\<rparr>), (5, \<lparr>ru_match = ''m'', ru_path = ''f1''\<rparr>)]\<rparr>],
     sv_binding_names = [], sv_routes = [((''ps'', ''f1''), Callback 1 (Some ''f1'')), ((''ps'', ''f2''), Callback 2 (Some ''f2''))],
     sv_unvalidated = []\<rparr>"
  by (simp add: demo_servicer_def register_eval)

definition demo_event :: topic_event_request where
  "demo_event = \<lparr>te_id = ''1'', te_source = ''s'', te_type = ''y'', te_spec_version = ''1.0'', te_content_type = ''text/plain'',
     te_data = ''x'', te_topic = ''t'', te_pubsub = ''ps'', te_path = ''f2'', te_extensions = []\<rparr>"

definition demo_run :: topic_handlers where
  "demo_run f ev = (if cb_id f = 2 then Inr (TopicAnswer StatusDrop) else Inl (exc RuntimeError ''no''))"

theorem advertised_routes_served_witness: "on_topic_event demo_run demo_event [] demo_servicer = (None, Inr (Some StatusDrop))"
proof -
  have "rtranclp registration_step new_servicer demo_servicer"
    unfolding demo_servicer_def by (rule register_all_reach)
  then obtain f where f: "get_topic_callback ''ps'' ''t'' ''f2'' demo_servicer = Some f"
    "on_topic_event demo_run demo_event [] demo_servicer = (None, map_sum id (\<lambda>a. case a of TopicAnswer st \<Rightarrow> Some st | OtherAnswer \<Rightarrow> None)
      (demo_run f (build_topic_event (uses_legacy demo_servicer f) demo_event [])))"
    using advertised_routes_served [of demo_servicer "rg_subscription (hd (sv_registered demo_servicer))" demo_event demo_run "[]"]
    by (auto simp: list_topic_subscriptions_def demo_servicer_eval demo_event_def advertised_paths_def)
  then have "f = Callback 2 (Some ''f2'')"
    by (simp add: get_topic_callback_def demo_servicer_eval route_key_def topic_key_def DELIMITER_def dict_simps)
  with f(2) show ?thesis by (simp add: demo_run_def)
qed


definition demo_bulk :: bulk_request where
  "demo_bulk = \<lparr>bk_pubsub = ''ps'', bk_topic = ''t'', bk_path = ''f1'',
     bk_entries = [\<lparr>be_id = ''e'', be_cloud_event = None, be_bytes = None, be_content_type = [], be_metadata = []\<rparr>]\<rparr>"


text \<open>
  The default route is not kept like this: it is found in the map of routes, which a later registration overwrites when
  its handler has the name of the topic. The events of one topic then go to the handler of another.
\<close>

lemma default_route_taken_over:
  fixes q1 q2 :: topic_registration
  defines "q1 \<equiv> (demo_registration 1 ''f1'' 0)\<lparr>rt_rule := None, rt_disable_validation := True\<rparr>"
    and "q2 \<equiv> (demo_registration 2 ''f2'' 0)\<lparr>rt_topic := ''other'', rt_cb := Callback 2 (Some ''t'')\<rparr>"
  defines "s \<equiv> register_all [RegisterTopic q1, RegisterTopic q2] new_servicer"
  shows "map tp_default (list_topic_subscriptions s) = [''t'', []]" "cb_id (rt_cb q1) = 1"
    and "get_topic_callback ''ps'' ''t'' ''t'' s = Some (rt_cb q2)"
  by (simp_all add: q1_def q2_def s_def register_eval list_topic_subscriptions_def get_topic_callback_def)

end
