(* ===== verification/Subscription.thy ===== *)
theory Subscription
  imports CallbackServicer
begin

text \<open>
  The streaming subscription, \<open>clients/grpc/subscription.py\<close>: an application reads messages from a stream and answers
  them over a queue, which a generator empties into the stream. gRPC runs the generator in a thread of
  its own, for as long as the stream is not cancelled. A broken stream is replaced by a new one, with a new
  generator over the same queue. The steps of the application and of the generators interleave freely.
\<close>

section \<open>State\<close>

datatype outgoing = InitialRequest | EventProcessed string topic_status

text \<open>
  Where a generator is: not started, suspended at a \<open>yield\<close>, waiting in \<open>queue.get()\<close>, or at its end.
  \<open>sm_late\<close> collects, for the theorems, what a generator yields to a stream that is already cancelled.
\<close>

datatype writer = GenStart | GenYielded | GenWaiting | GenEnded

record stream_state =
  st_cancelled :: bool
  st_writer :: writer
  st_yielded :: "outgoing list"
  st_late :: "outgoing list"

record subscription =
  sb_active :: bool
  sb_opening :: bool
  sb_streams :: "stream_state list"
  sb_queue :: "outgoing list"
  sb_accepted :: "outgoing list"
  sb_log :: "(nat \<times> outgoing) list"

definition new_stream :: stream_state where
  "new_stream = \<lparr>st_cancelled = False, st_writer = GenStart, st_yielded = [], st_late = []\<rparr>"

definition new_stream_subscription :: subscription where
  "new_stream_subscription = \<lparr>sb_active = False, sb_opening = False, sb_streams = [], sb_queue = [], sb_accepted = [], sb_log = []\<rparr>"

definition upd_stream :: "nat \<Rightarrow> (stream_state \<Rightarrow> stream_state) \<Rightarrow> subscription \<Rightarrow> subscription" where
  "upd_stream k f s = s\<lparr>sb_streams := (sb_streams s)[k := f (sb_streams s ! k)]\<rparr>"

section \<open>The application\<close>

text \<open>\<open>start\<close> in two steps, since the generator may run between them; \<open>close\<close>; and \<open>respond\<close>.\<close>

definition open_stream :: "subscription \<Rightarrow> subscription" where
  "open_stream s = s\<lparr>sb_streams := sb_streams s @ [new_stream], sb_opening := True\<rparr>"

definition set_stream_active :: "subscription \<Rightarrow> subscription" where
  "set_stream_active s = s\<lparr>sb_active := True, sb_opening := False\<rparr>"

definition close_subscription :: "subscription \<Rightarrow> subscription" where
  "close_subscription s = (let s1 = s\<lparr>sb_active := False\<rparr> in
     if sb_streams s = [] then s1
     else upd_stream (length (sb_streams s) - 1) (\<lambda>x. x\<lparr>st_cancelled := True\<rparr>) s1)"

definition respond :: "string \<Rightarrow> topic_status \<Rightarrow> subscription \<Rightarrow> subscription" where
  "respond i st s = (if sb_active s
     then s\<lparr>sb_queue := sb_queue s @ [EventProcessed i st], sb_accepted := sb_accepted s @ [EventProcessed i st]\<rparr>
     else s)"

text \<open>
  \<open>next_message\<close>: what it gives for a reading of the stream, or that it reconnects and gives None. The second
  definition is its twin in \<open>aio/clients/grpc/subscription.py\<close>.
\<close>

datatype reading = ReadMessage topic_event_request | ReadFails grpc_code string | ReadBreaks exn | ReadEnds

datatype next_result = NextMessage subscription_message | NextNone | NextReconnects | NextRaises exn

definition next_message :: "bool \<Rightarrow> reading \<Rightarrow> next_result" where
  "next_message active r =
    (if \<not> active then NextRaises (exc (UserError ''StreamInactiveError'') ''Stream is not active'')
     else case r of
       ReadMessage m \<Rightarrow> NextMessage (new_subscription_message m [])
     | ReadFails c d \<Rightarrow>
         if c \<in> {UNAVAILABLE, UNKNOWN, INTERNAL} then NextReconnects
         else if c = CANCELLED then NextRaises (exc (UserError ''StreamCancelledError'') ''Stream has been cancelled'')
         else NextRaises (exc PyException (''gRPC error while reading from subscription stream: '' @ d))
     | ReadBreaks e \<Rightarrow> NextRaises (exc PyException (''Error while fetching message: '' @ ex_msg e))
     | ReadEnds \<Rightarrow> NextRaises (exc PyException ''Error while fetching message: ''))"

definition aio_next_message :: "bool \<Rightarrow> reading \<Rightarrow> next_result" where
  "aio_next_message active r =
    (if \<not> active then NextRaises (exc (UserError ''StreamInactiveError'') ''Stream is not active'')
     else case r of
       ReadMessage m \<Rightarrow> NextMessage (new_subscription_message m [])
     | ReadFails c d \<Rightarrow>
         if c = UNAVAILABLE \<or> c = UNKNOWN then NextReconnects
         else if c = CANCELLED then NextRaises (exc (UserError ''StreamCancelledError'') ''Stream has been cancelled'')
         else NextRaises (exc PyException (''gRPC error while reading from subscription stream: '' @ d))
     | ReadBreaks e \<Rightarrow> NextRaises (exc PyException (''Error while fetching message: '' @ ex_msg e))
     | ReadEnds \<Rightarrow> NextNone)"

section \<open>The generators\<close>

definition yield_to :: "nat \<Rightarrow> outgoing \<Rightarrow> subscription \<Rightarrow> subscription" where
  "yield_to k x = upd_stream k (\<lambda>t. t\<lparr>st_writer := GenYielded, st_yielded := st_yielded t @ [x],
     st_late := (if st_cancelled t then st_late t @ [x] else st_late t)\<rparr>)"

inductive subscription_step :: "subscription \<Rightarrow> subscription \<Rightarrow> bool" where
  Open: "\<not> sb_active s \<Longrightarrow> \<not> sb_opening s \<Longrightarrow> subscription_step s (open_stream s)"
| Activate: "sb_opening s \<Longrightarrow> subscription_step s (set_stream_active s)"
| Close: "\<not> sb_opening s \<Longrightarrow> subscription_step s (close_subscription s)"
| Respond: "subscription_step s (respond i st s)"
| First: "k < length (sb_streams s) \<Longrightarrow> st_writer (sb_streams s ! k) = GenStart \<Longrightarrow>
    \<not> st_cancelled (sb_streams s ! k) \<Longrightarrow> subscription_step s (yield_to k InitialRequest s)"
| Wait: "k < length (sb_streams s) \<Longrightarrow> st_writer (sb_streams s ! k) = GenYielded \<Longrightarrow>
    \<not> st_cancelled (sb_streams s ! k) \<Longrightarrow>
    subscription_step s (upd_stream k (\<lambda>t. t\<lparr>st_writer := (if sb_active s then GenWaiting else GenEnded)\<rparr>) s)"
| Get: "k < length (sb_streams s) \<Longrightarrow> st_writer (sb_streams s ! k) = GenWaiting \<Longrightarrow> sb_queue s = x # q \<Longrightarrow>
    subscription_step s (yield_to k x (s\<lparr>sb_queue := q, sb_log := sb_log s @ [(k, x)]\<rparr>))"

inductive_cases subscription_stepE: "subscription_step s s'"

definition subscription_reach :: "subscription \<Rightarrow> bool" where
  "subscription_reach s = rtranclp subscription_step new_stream_subscription s"

section \<open>Properties\<close>

definition cancelled_streams :: "subscription \<Rightarrow> nat" where
  "cancelled_streams s = length (filter st_cancelled (sb_streams s))"

definition lost_answers :: "subscription \<Rightarrow> outgoing list" where
  "lost_answers s = concat (map st_late (sb_streams s))"

text \<open>
  A stream that is cancelled has yielded late at most once, and then its generator is not asked again. What a stream has yielded is the
  initial request and then what the log says.
\<close>

definition stream_ok :: "subscription \<Rightarrow> nat \<Rightarrow> bool" where
  "stream_ok s k \<longleftrightarrow> (let t = sb_streams s ! k; mine = map snd (filter (\<lambda>p. fst p = k) (sb_log s)) in
     (st_late t = [] \<or> st_cancelled t \<and> length (st_late t) = 1 \<and> st_writer t \<noteq> GenWaiting) \<and>
     suffix (st_late t) mine \<and>
     (if st_writer t = GenStart then st_yielded t = [] \<and> mine = [] else st_yielded t = InitialRequest # mine) \<and>
     (\<not> st_cancelled t \<longrightarrow> Suc k = length (sb_streams s)))"

definition subscription_inv :: "subscription \<Rightarrow> bool" where
  "subscription_inv s \<longleftrightarrow> map snd (sb_log s) @ sb_queue s = sb_accepted s \<and>
     (\<forall>p \<in> set (sb_log s). fst p < length (sb_streams s)) \<and>
     (sb_opening s \<longrightarrow> \<not> sb_active s) \<and>
     (\<not> sb_active s \<and> \<not> sb_opening s \<longrightarrow> (\<forall>k < length (sb_streams s). st_cancelled (sb_streams s ! k))) \<and>
     (\<forall>k < length (sb_streams s). stream_ok s k)"

lemma upd_stream_fields [simp]:
  "sb_log (upd_stream k f s) = sb_log s" "sb_queue (upd_stream k f s) = sb_queue s"
  "sb_accepted (upd_stream k f s) = sb_accepted s" "sb_active (upd_stream k f s) = sb_active s"
  "sb_opening (upd_stream k f s) = sb_opening s" "length (sb_streams (upd_stream k f s)) = length (sb_streams s)"
  by (simp_all add: upd_stream_def)

lemma upd_stream_nth:
  "j < length (sb_streams s) \<Longrightarrow> sb_streams (upd_stream k f s) ! j = (if j = k then f (sb_streams s ! j) else sb_streams s ! j)"
  by (auto simp: upd_stream_def nth_list_update)

lemma filter_log_none: "\<forall>p \<in> set l. fst p < (n :: nat) \<Longrightarrow> filter (\<lambda>p. fst p = n) l = []"
  by (auto simp: filter_empty_conv)

interpretation streaming: step_invariant new_stream_subscription subscription_step subscription_inv
proof unfold_locales
  show "subscription_inv new_stream_subscription"
    by (simp add: subscription_inv_def new_stream_subscription_def)
next
  fix s s' assume "subscription_step s s'" and inv: "subscription_inv s"
  from this(1) show "subscription_inv s'"
  proof cases
    case Open
    with inv have "\<not> Suc k = length (sb_streams s) \<or> st_cancelled (sb_streams s ! k)" if "k < length (sb_streams s)" for k
      using that by (auto simp: subscription_inv_def)
    with inv Open show ?thesis
      by (auto simp: subscription_inv_def open_stream_def stream_ok_def new_stream_def nth_append less_Suc_eq Let_def
          filter_log_none)
  next
    case Activate
    with inv show ?thesis by (auto simp: subscription_inv_def set_stream_active_def stream_ok_def Let_def)
  next
    case Close
    then show ?thesis
    proof (cases "sb_streams s = []")
      case True
      with Close inv show ?thesis by (auto simp: subscription_inv_def close_subscription_def)
    next
      case False
      let ?s1 = "s\<lparr>sb_active := False\<rparr>" and ?n = "length (sb_streams s) - 1"
      have s': "s' = upd_stream ?n (\<lambda>x. x\<lparr>st_cancelled := True\<rparr>) ?s1"
        using Close False by (simp add: close_subscription_def Let_def)
      have "st_cancelled (sb_streams s' ! k)" if "k < length (sb_streams s)" for k
        using that inv False
        by (cases "k = ?n") (auto simp: s' upd_stream_nth subscription_inv_def stream_ok_def Let_def)
      with inv show ?thesis
        by (auto simp: s' subscription_inv_def stream_ok_def upd_stream_nth Let_def)
    qed
  next
    case (Respond i st)
    with inv show ?thesis by (auto simp: subscription_inv_def respond_def stream_ok_def Let_def)
  next
    case (First k)
    with inv show ?thesis
      by (auto simp: subscription_inv_def yield_to_def stream_ok_def upd_stream_nth Let_def)
  next
    case (Wait k)
    with inv show ?thesis
      by (auto simp: subscription_inv_def stream_ok_def upd_stream_nth Let_def)
  next
    case (Get k x q)
    with inv show ?thesis
      by (auto simp: subscription_inv_def yield_to_def stream_ok_def upd_stream_nth Let_def)
  qed
qed

lemma subscription_reach_inv: "subscription_reach s \<Longrightarrow> subscription_inv s"
  unfolding subscription_reach_def by (rule streaming.reachable_inv)

lemma reach_step: "subscription_reach s \<Longrightarrow> subscription_step s s' \<Longrightarrow> subscription_reach s'"
  unfolding subscription_reach_def by (rule rtranclp.rtrancl_into_rtrancl)

lemma length_lost:
  "(\<And>t. t \<in> set ts \<Longrightarrow> st_late t = [] \<or> st_cancelled t \<and> length (st_late t) = 1) \<Longrightarrow>
   length (concat (map st_late ts)) \<le> length (filter st_cancelled ts)"
proof (induction ts)
  case (Cons t ts)
  then have "st_late t = [] \<or> st_cancelled t \<and> length (st_late t) = 1"
    "length (concat (map st_late ts)) \<le> length (filter st_cancelled ts)" by auto
  then show ?case by auto
qed simp

text \<open>
  C26. Every answer of the application is accounted for, however the application, the generators and the reconnections
  interleave: the answers that were accepted are those that some generator took, in their order, followed by those
  still in the queue; each stream has carried the initial request first and then exactly the answers that its own
  generator took; and at most one answer per cancelled stream is lost, taken by a generator that was still waiting when
  its stream was cancelled.
\<close>

theorem answers_accounted:
  assumes "subscription_reach s"
  shows "map snd (sb_log s) @ sb_queue s = sb_accepted s \<and>
    (\<forall>k < length (sb_streams s). st_yielded (sb_streams s ! k) =
       (if st_writer (sb_streams s ! k) = GenStart then []
        else InitialRequest # map snd (filter (\<lambda>p. fst p = k) (sb_log s)))) \<and>
    length (lost_answers s) \<le> cancelled_streams s \<and> set (lost_answers s) \<subseteq> set (sb_accepted s)"
proof -
  note inv = subscription_reach_inv [OF assms]
  have ok: "stream_ok s k" if "k < length (sb_streams s)" for k
    using inv that by (simp add: subscription_inv_def)
  have "length (lost_answers s) \<le> cancelled_streams s"
    unfolding lost_answers_def cancelled_streams_def
    by (rule length_lost) (use ok in \<open>auto simp: stream_ok_def Let_def in_set_conv_nth\<close>)
  moreover have "x \<in> set (sb_accepted s)" if "x \<in> set (lost_answers s)" for x
  proof -
    from that obtain k where k: "k < length (sb_streams s)" "x \<in> set (st_late (sb_streams s ! k))"
      by (auto simp: lost_answers_def) (metis in_set_conv_nth)
    from ok [OF k(1)] have "suffix (st_late (sb_streams s ! k)) (map snd (filter (\<lambda>p. fst p = k) (sb_log s)))"
      by (simp add: stream_ok_def Let_def)
    with k(2) have "x \<in> set (map snd (filter (\<lambda>p. fst p = k) (sb_log s)))" using set_mono_suffix by fast
    then have "x \<in> snd ` set (sb_log s)" by auto
    moreover have "map snd (sb_log s) @ sb_queue s = sb_accepted s" using inv by (simp add: subscription_inv_def)
    ultimately show ?thesis by (metis UnCI image_set set_append)
  qed
  ultimately show ?thesis using inv ok by (auto simp: subscription_inv_def stream_ok_def Let_def)
qed

text \<open>
  An answer is lost: the first stream's generator waits when the stream breaks, and after the reconnection it takes the
  answer to a message of the second stream.
\<close>

definition demo_open :: subscription where
  "demo_open = upd_stream 0 (\<lambda>t. t\<lparr>st_writer := GenWaiting\<rparr>)
     (set_stream_active (yield_to 0 InitialRequest (open_stream new_stream_subscription)))"

definition demo_lost :: subscription where
  "demo_lost = (let s = respond ''1'' StatusSuccess (set_stream_active (open_stream (close_subscription demo_open)))
     in yield_to 0 (EventProcessed ''1'' StatusSuccess) (s\<lparr>sb_queue := [], sb_log := [(0, EventProcessed ''1'' StatusSuccess)]\<rparr>))"

lemmas subscription_eval = new_stream_subscription_def open_stream_def set_stream_active_def close_subscription_def respond_def
  yield_to_def upd_stream_def new_stream_def Let_def

lemma demo_open_reach: "subscription_reach demo_open"
proof -
  let ?s1 = "open_stream new_stream_subscription"
  have "subscription_step new_stream_subscription ?s1"
    by (rule subscription_step.Open) (simp_all add: new_stream_subscription_def)
  then have r1: "subscription_reach ?s1" by (simp add: subscription_reach_def)
  have r2: "subscription_reach (yield_to 0 InitialRequest ?s1)"
    by (rule reach_step [OF r1 subscription_step.First]) (simp_all add: subscription_eval)
  have r3: "subscription_reach (set_stream_active (yield_to 0 InitialRequest ?s1))"
    by (rule reach_step [OF r2 subscription_step.Activate]) (simp add: subscription_eval)
  show ?thesis
    using reach_step [OF r3 subscription_step.Wait, of 0] by (simp add: demo_open_def subscription_eval)
qed

lemma demo_lost_reach: "subscription_reach demo_lost"
proof -
  let ?s1 = "close_subscription demo_open"
  have r1: "subscription_reach ?s1"
    by (rule reach_step [OF demo_open_reach subscription_step.Close]) (simp add: demo_open_def subscription_eval)
  have r2: "subscription_reach (open_stream ?s1)"
    by (rule reach_step [OF r1 subscription_step.Open]) (simp_all add: demo_open_def subscription_eval)
  have r3: "subscription_reach (set_stream_active (open_stream ?s1))"
    by (rule reach_step [OF r2 subscription_step.Activate]) (simp add: demo_open_def subscription_eval)
  have r4: "subscription_reach (respond ''1'' StatusSuccess (set_stream_active (open_stream ?s1)))" (is "subscription_reach ?s")
    by (rule reach_step [OF r3 subscription_step.Respond])
  have "subscription_step ?s (yield_to 0 (EventProcessed ''1'' StatusSuccess)
      (?s\<lparr>sb_queue := [], sb_log := sb_log ?s @ [(0, EventProcessed ''1'' StatusSuccess)]\<rparr>))"
    by (rule subscription_step.Get) (simp_all add: demo_open_def subscription_eval)
  from reach_step [OF r4 this] show ?thesis by (simp add: demo_lost_def demo_open_def subscription_eval)
qed

theorem answers_accounted_witness:
  "map snd (sb_log demo_lost) @ sb_queue demo_lost = [EventProcessed ''1'' StatusSuccess] \<and>
   lost_answers demo_lost = [EventProcessed ''1'' StatusSuccess] \<and> cancelled_streams demo_lost = 1"
  using answers_accounted [OF demo_lost_reach]
  by (simp add: demo_lost_def demo_open_def subscription_eval lost_answers_def cancelled_streams_def)

text \<open>
  A generator that is asked twice before the flag is set ends, and then nothing is ever answered on its stream.
\<close>

lemma ended_writer_silent:
  assumes "rtranclp subscription_step s s'" and "k < length (sb_streams s)" and "st_writer (sb_streams s ! k) = GenEnded"
  shows "k < length (sb_streams s') \<and> st_writer (sb_streams s' ! k) = GenEnded \<and>
    st_yielded (sb_streams s' ! k) = st_yielded (sb_streams s ! k)"
  using assms
proof (induction rule: rtranclp_induct)
  case (step s1 s2)
  from step.hyps(2) step.IH [OF step.prems] show ?case
    by (cases rule: subscription_step.cases)
      (auto simp: open_stream_def set_stream_active_def close_subscription_def respond_def yield_to_def upd_stream_nth
        nth_append Let_def)
qed simp

lemma writer_may_end_early:
  "\<exists>s. subscription_reach s \<and> sb_active s \<and> length (sb_streams s) = 1 \<and> st_writer (sb_streams s ! 0) = GenEnded"
proof -
  let ?s1 = "yield_to 0 InitialRequest (open_stream new_stream_subscription)"
  let ?s2 = "upd_stream 0 (\<lambda>t. t\<lparr>st_writer := GenEnded\<rparr>) ?s1"
  have "subscription_step new_stream_subscription (open_stream new_stream_subscription)"
    by (rule subscription_step.Open) (simp_all add: new_stream_subscription_def)
  then have r0: "subscription_reach (open_stream new_stream_subscription)" by (simp add: subscription_reach_def)
  have r1: "subscription_reach ?s1"
    by (rule reach_step [OF r0 subscription_step.First]) (simp_all add: subscription_eval)
  have r2: "subscription_reach ?s2"
    using reach_step [OF r1 subscription_step.Wait, of 0] by (simp add: subscription_eval)
  have "subscription_reach (set_stream_active ?s2)"
    by (rule reach_step [OF r2 subscription_step.Activate]) (simp add: subscription_eval)
  then show ?thesis by (intro exI [of _ "set_stream_active ?s2"]) (simp add: subscription_eval)
qed

text \<open>The asynchronous subscription does not reconnect after an internal error, which the other one does.\<close>

lemma internal_error_differs:
  "next_message True (ReadFails INTERNAL d) = NextReconnects"
  "aio_next_message True (ReadFails INTERNAL d) \<noteq> NextReconnects"
  by (simp_all add: next_message_def aio_next_message_def)

end
