(* ===== verification/ToolCalls.thy ===== *)
theory ToolCalls
  imports ToolTypes
begin

text \<open>
  The calls of tools: \<open>bind_params_to_func\<close> of \<open>clients/grpc/_conversation_helpers.py\<close>, and the registry of tools and
  their execution in \<open>clients/grpc/conversation.py\<close>. A tool is its signature and what its function does with its
  arguments by name. No parameter is positional only. The binding of a signature is that of \<open>inspect\<close>.
\<close>

section \<open>Signatures\<close>

datatype param_kind = PosOrKeyword | KeywordOnly | VarPositional | VarKeyword

record param =
  pm_name :: string
  pm_kind :: param_kind
  pm_default :: "toolval option"
  pm_hint :: "pytype option"

type_synonym arguments = "(string \<times> toolval) list"

definition by_name :: "param \<Rightarrow> bool" where
  "by_name p \<longleftrightarrow> pm_kind p \<in> {PosOrKeyword, KeywordOnly}"

text \<open>\<open>sig.bind_partial(**params)\<close>, \<open>sig.bind(*params)\<close> and \<open>apply_defaults\<close>.\<close>

definition bind_partial :: "param list \<Rightarrow> arguments \<Rightarrow> arguments res" where
  "bind_partial sig kw =
    (let names = map pm_name (filter by_name sig);
         args = concat (map (\<lambda>n. case dict_get kw n of Some v \<Rightarrow> [(n, v)] | None \<Rightarrow> []) names);
         rest = filter (\<lambda>p. fst p \<notin> set names) kw
     in if rest = [] then Inr args
        else case find (\<lambda>p. pm_kind p = VarKeyword) sig of
          Some p \<Rightarrow> Inr (args @ [(pm_name p, VDict (map (\<lambda>q. (VStr (fst q), snd q)) rest))])
        | None \<Rightarrow> Inl (exc TypeError (''got an unexpected keyword argument '' @ py_repr (fst (hd rest)))))"

definition too_many :: exn where
  "too_many = exc TypeError ''too many positional arguments''"

fun bind_positional :: "param list \<Rightarrow> toolval list \<Rightarrow> arguments res" where
  "bind_positional [] [] = Inr []"
| "bind_positional [] (x # xs) = Inl too_many"
| "bind_positional (p # ps) [] =
    (if by_name p \<and> pm_default p = None
       then Inl (exc TypeError (''missing a required argument: '' @ py_repr (pm_name p)))
     else bind_positional ps [])"
| "bind_positional (p # ps) (x # xs) =
    (case pm_kind p of
       PosOrKeyword \<Rightarrow> map_sum id (Cons (pm_name p, x)) (bind_positional ps xs)
     | VarPositional \<Rightarrow> map_sum id (Cons (pm_name p, VTuple (x # xs))) (bind_positional ps [])
     | _ \<Rightarrow> Inl too_many)"

definition default_of :: "param \<Rightarrow> arguments" where
  "default_of p = (case pm_default p of
     Some v \<Rightarrow> [(pm_name p, v)]
   | None \<Rightarrow> (case pm_kind p of
       VarPositional \<Rightarrow> [(pm_name p, VTuple [])] | VarKeyword \<Rightarrow> [(pm_name p, VDict [])] | _ \<Rightarrow> []))"

definition apply_defaults :: "param list \<Rightarrow> arguments \<Rightarrow> arguments" where
  "apply_defaults sig args =
    concat (map (\<lambda>p. case dict_get args (pm_name p) of Some v \<Rightarrow> [(pm_name p, v)] | None \<Rightarrow> default_of p) sig)"

section \<open>Binding\<close>

datatype params = NoParams | ByName arguments | ByPosition "toolval list" | OtherParams

definition tool_argument_error :: "string \<Rightarrow> exn" where
  "tool_argument_error m = exc (UserError ''ToolArgumentError'') m"

definition missing_params :: "param list \<Rightarrow> arguments \<Rightarrow> string list" where
  "missing_params sig args =
    map pm_name (filter (\<lambda>p. pm_default p = None \<and> by_name p \<and> \<not> dict_has args (pm_name p)) sig)"

definition extra_params :: "param list \<Rightarrow> arguments \<Rightarrow> string list" where
  "extra_params sig kw =
    (if \<exists>p \<in> set sig. pm_kind p = VarKeyword then [] else filter (\<lambda>n. n \<notin> set (map pm_name sig)) (dict_keys kw))"

definition bind_keywords :: "param list \<Rightarrow> arguments \<Rightarrow> arguments res" where
  "bind_keywords sig kw = res_bind (bind_partial sig kw) (\<lambda>args.
     if missing_params sig args \<noteq> []
       then Inl (tool_argument_error (''Missing required parameter(s): '' @ join_str '', '' (missing_params sig args)))
     else if extra_params sig kw \<noteq> []
       then Inl (tool_argument_error (''Unexpected parameter(s): '' @ join_str '', '' (extra_params sig kw)))
     else Inr args)"

definition hint_of :: "param list \<Rightarrow> string \<Rightarrow> pytype option" where
  "hint_of sig n = (case find (\<lambda>p. pm_name p = n) sig of Some p \<Rightarrow> pm_hint p | None \<Rightarrow> None)"

fun coerce_arguments :: "tool_env \<Rightarrow> param list \<Rightarrow> arguments \<Rightarrow> arguments res" where
  "coerce_arguments te sig [] = Inr []"
| "coerce_arguments te sig ((n, v) # args) =
    (case hint_of sig n of
       None \<Rightarrow> map_sum id (Cons (n, v)) (coerce_arguments te sig args)
     | Some t \<Rightarrow>
        (case coerce_and_validate te v t of
           Inr w \<Rightarrow> map_sum id (Cons (n, w)) (coerce_arguments te sig args)
         | Inl e \<Rightarrow> Inl (tool_argument_error (''Invalid value for parameter '' @ py_repr n @ '', got '' @ tv_type_name v @
             '' ('' @ tv_repr te v @ ''). Details: '' @ ex_msg e))))"

definition bind_params_to_func :: "tool_env \<Rightarrow> param list \<Rightarrow> params \<Rightarrow> arguments res" where
  "bind_params_to_func te sig ps = (case ps of
     NoParams \<Rightarrow> map_sum id (apply_defaults sig) (bind_positional sig [])
   | ByName kw \<Rightarrow> res_bind (bind_keywords sig kw) (\<lambda>args. coerce_arguments te sig (apply_defaults sig args))
   | ByPosition xs \<Rightarrow> res_bind (bind_positional sig xs) (\<lambda>args. coerce_arguments te sig (apply_defaults sig args))
   | OtherParams \<Rightarrow> Inl (tool_argument_error ''params must be a mapping (kwargs), sequence (positional), or None''))"

section \<open>Tools\<close>

record tool =
  tl_params :: "param list"
  tl_async :: bool
  tl_run :: "arguments \<Rightarrow> toolval res"

definition tool_execution_error :: "string \<Rightarrow> exn" where
  "tool_execution_error m = exc (UserError ''ToolExecutionError'') m"

text \<open>\<open>FunctionBackend.invoke\<close>.\<close>

definition invoke_tool :: "tool_env \<Rightarrow> tool \<Rightarrow> params \<Rightarrow> toolval res" where
  "invoke_tool te tool ps = res_bind (bind_params_to_func te (tl_params tool) ps) (\<lambda>args.
     if tl_async tool then Inl (tool_execution_error (''This tool is async; use '' @ py_repr ''await tool.ainvoke(...)'' @ ''.''))
     else case tl_run tool args of
       Inr v \<Rightarrow> Inr v
     | Inl e \<Rightarrow> Inl (tool_execution_error (''Tool raised: '' @ ex_msg e)))"

type_synonym tool_registry = "(string, tool) dict"

definition register_tool :: "string \<Rightarrow> tool \<Rightarrow> tool_registry \<Rightarrow> unit res \<times> tool_registry" where
  "register_tool n tool reg =
    (if dict_has reg n then (Inl (exc ValueError (''Tool '' @ py_repr n @ '' already registered'')), reg)
     else (Inr (), dict_set n tool reg))"

definition unregister_tool :: "string \<Rightarrow> tool_registry \<Rightarrow> tool_registry" where
  "unregister_tool n reg = (if dict_has reg n then dict_del n reg else reg)"

definition get_registered_tools :: "tool_registry \<Rightarrow> tool list" where
  "get_registered_tools reg = map snd reg"

definition get_tool :: "string \<Rightarrow> tool_registry \<Rightarrow> tool res" where
  "get_tool n reg = (case dict_get reg n of
     Some tool \<Rightarrow> Inr tool
   | None \<Rightarrow> Inl (exc (UserError ''ToolNotFoundError'') (''Tool '' @ py_repr n @ '' is not registered'')))"

fun of_json :: "pyval \<Rightarrow> toolval" where
  "of_json PNone = VNone"
| "of_json (PBool b) = VBool b"
| "of_json (PInt i) = VInt i"
| "of_json (PStr s) = VStr s"
| "of_json (PList vs) = VList (map of_json vs)"
| "of_json (PDict d) = VDict (map (\<lambda>p. (VStr (fst p), of_json (snd p))) d)"
| "of_json (PNs d) = VDict (map (\<lambda>p. (VStr (fst p), of_json (snd p))) d)"
| "of_json (PTask t) = VNone"

text \<open>The arguments as a model sends them: JSON text, or objects. A text that decodes to a string is a sequence.\<close>

datatype raw_params = TextParams string | GivenParams params

definition params_of_json :: "pyval \<Rightarrow> params" where
  "params_of_json v = (case v of
     PNone \<Rightarrow> NoParams
   | PDict d \<Rightarrow> ByName (map (\<lambda>p. (fst p, of_json (snd p))) d)
   | PList vs \<Rightarrow> ByPosition (map of_json vs)
   | PStr s \<Rightarrow> ByPosition (map (\<lambda>c. VStr [c]) s)
   | _ \<Rightarrow> OtherParams)"

definition execute_registered_tool :: "tool_env \<Rightarrow> tool_registry \<Rightarrow> string \<Rightarrow> raw_params \<Rightarrow> toolval res" where
  "execute_registered_tool te reg n raw =
    res_bind (case raw of TextParams s \<Rightarrow> map_sum id params_of_json (json_loads s) | GivenParams ps \<Rightarrow> Inr ps) (\<lambda>ps.
      if ps = OtherParams then Inl (tool_argument_error ''params must be a mapping (kwargs), a sequence (args), or None'')
      else res_bind (get_tool n reg) (\<lambda>tool. invoke_tool te tool ps))"

end
