(* ===== verification/ToolProps.thy ===== *)
theory ToolProps
  imports ToolCalls
begin

text \<open>
  What the binder promises: an argument that it lets through has the type of its annotation, an argument that
  conforms to the schema is let through, and every parameter is bound once.
\<close>

section \<open>Types\<close>

fun has_type :: "toolval \<Rightarrow> pytype \<Rightarrow> bool" where
  "has_type v TAny = True"
| "has_type v (TUnion new opts) = (\<exists>t \<in> set opts. has_type v t)"
| "has_type v (TLiteral lits) = py_in v lits"
| "has_type v (TList None) = (\<exists>vs. v = VList vs)"
| "has_type v (TList (Some t)) = (\<exists>vs. v = VList vs \<and> (\<forall>x \<in> set vs. has_type x t))"
| "has_type v (TDict None) = (\<exists>d. v = VDict d)"
| "has_type v (TDict (Some (k, t))) = (\<exists>d. v = VDict d \<and> (\<forall>p \<in> set d. has_type (fst p) k \<and> has_type (snd p) t))"
| "has_type v t = is_instance v t"

text \<open>The annotations that the binder really checks: no dataclass, no plain class, and None only in a union.\<close>

fun checked :: "pytype \<Rightarrow> bool" where
  "checked TNone = False"
| "checked (TData n fs) = False"
| "checked (TClass n ps sl hs) = False"
| "checked (TUnion new opts) = (\<forall>t \<in> set opts. t = TNone \<or> checked t)"
| "checked (TList (Some t)) = checked t"
| "checked (TDict (Some (k, t))) = (checked k \<and> checked t)"
| "checked t = True"

text \<open>The constructors of the builtin classes make instances of them.\<close>

definition constructs :: "tool_env \<Rightarrow> bool" where
  "constructs te \<longleftrightarrow> (\<forall>kw w. (te_construct te ''str'' kw = Inr w \<longrightarrow> is_instance w TStr) \<and>
     (te_construct te ''int'' kw = Inr w \<longrightarrow> is_instance w TInt) \<and> (te_construct te ''bool'' kw = Inr w \<longrightarrow> is_instance w TBool))"

lemma construct_Inr: "construct te n km = Inr w \<Longrightarrow> te_construct te n (fst km) = Inr w"
  by (auto simp: construct_def split: prod.splits if_splits sum.splits)

lemma coerce_builtin_type:
  assumes "constructs te" and "coerce_builtin te v t n = Inr w" and "(t, n) \<in> {(TStr, ''str''), (TInt, ''int''), (TBool, ''bool'')}"
  shows "is_instance w t"
proof (cases "is_instance v t")
  case True
  with assms(2) show ?thesis by (simp add: coerce_builtin_def)
next
  case no: False
  show ?thesis
  proof (cases "\<exists>d. v = VDict d")
    case True
    with no assms(2) obtain ps where "construct te n ([], map fst (filter snd ps)) = Inr w"
      by (auto simp: coerce_builtin_def split: option.splits if_splits)
    then have "te_construct te n [] = Inr w" by (auto dest: construct_Inr)
    with assms(1,3) show ?thesis by (auto simp: constructs_def)
  next
    case False
    then have "scalar_or_instance te v t n = Inr w"
      using assms(2) no by (cases v) (simp_all add: coerce_builtin_def)
    with no have scalar: "coerce_scalar te v t = Inr w" by (auto simp: scalar_or_instance_def split: sum.splits)
    from assms(3) consider "t = TStr" | "t = TInt" | "t = TBool" by auto
    then show ?thesis
      using scalar by cases (cases v; auto simp: coerce_scalar_def is_instance_def map_sum_def split: sum.splits)+
  qed
qed

lemma map_eq_elem: "map f xs = map g ys \<Longrightarrow> y \<in> set ys \<Longrightarrow> \<exists>x \<in> set xs. f x = g y"
  by (metis (no_types, lifting) image_iff list.set_map)

lemma coerce_literal_in: "coerce_literal te v lits = Inr w \<Longrightarrow> py_in w lits"
  by (auto simp: coerce_literal_def Let_def find_Some_iff split: if_splits option.splits)

lemma coerce_enum_instance: "coerce_enum te v n ms = Inr w \<Longrightarrow> is_instance w (TEnum n ms)"
  by (auto simp: coerce_enum_def Let_def is_instance_def split: if_splits option.splits toolval.splits prod.splits)

lemma tv_dict_set_all:
  "\<forall>p \<in> set d. P (fst p) \<and> Q (snd p) \<Longrightarrow> P k \<Longrightarrow> Q v \<Longrightarrow> \<forall>p \<in> set (tv_dict_set k v d). P (fst p) \<and> Q (snd p)"
  by (induction k v d rule: tv_dict_set.induct) auto

lemma build_dict_all:
  assumes "build_dict acc ps = Inr w" and "\<forall>p \<in> set acc. P (fst p) \<and> Q (snd p)"
    and "\<forall>p \<in> set ps. (\<forall>k. fst p = Inr k \<longrightarrow> P k) \<and> (\<forall>v. snd p = Inr v \<longrightarrow> Q v)"
  shows "\<exists>d. w = VDict d \<and> (\<forall>p \<in> set d. P (fst p) \<and> Q (snd p))"
  using assms
proof (induction acc ps rule: build_dict.induct)
  case (2 acc k v ps)
  then obtain ck cv where "k = Inr ck" "v = Inr cv" "hashable ck" by (auto simp: res_bind_Inr_iff split: if_splits)
  with 2 tv_dict_set_all [of acc P Q ck cv] show ?case by simp
qed auto

lemma coerced_type:
  "constructs te \<Longrightarrow> checked t \<Longrightarrow> coerce_and_validate te v t = Inr w \<Longrightarrow> has_type w t"
  "constructs te \<Longrightarrow> \<forall>t \<in> set ts. t = TNone \<or> checked t \<Longrightarrow> coerce_options te v prev ts = Inr w \<Longrightarrow> \<exists>t \<in> set ts. has_type w t"
  "coerce_params te d ps = coerce_params te d ps"
proof (induction te v t and te v prev ts and te d ps arbitrary: w and w
    rule: coerce_and_validate_coerce_options_coerce_params.induct)
  case (4 te v item)
  then obtain vs where vs: "v = VList vs" by (cases v) auto
  show ?case
  proof (cases item)
    case None
    with 4 vs show ?thesis by (auto simp: map_sum_def split: sum.splits)
  next
    case (Some t)
    with 4 vs obtain ws where ws: "w = VList ws" "map (\<lambda>x. coerce_and_validate te x t) vs = map Inr ws"
      by (auto simp: map_sum_def seq_res_Inr_iff split: sum.splits)
    have "has_type y t" if "y \<in> set ws" for y
      using map_eq_elem [OF ws(2) that] 4 vs Some by auto
    with ws(1) Some show ?thesis by simp
  qed
next
  case (6 te v kt vt)
  then obtain d where d: "v = VDict d" by (cases v) auto
  show ?case
    using build_dict_all [of "[]" _ w "\<lambda>k. has_type k kt" "\<lambda>x. has_type x vt"] 6 d by fastforce
next
  case (15 te v prev t ts)
  then show ?case by (auto simp: is_instance_def split: if_splits sum.splits)
qed (auto simp: coerce_literal_in split: toolval.splits if_splits intro: coerce_enum_instance coerce_builtin_type)

section \<open>Schemas\<close>

text \<open>Validity against a JSON schema, for the keywords that the conversion writes.\<close>

definition json_type :: "string \<Rightarrow> pyval \<Rightarrow> bool" where
  "json_type ty v \<longleftrightarrow> ty = (case v of
     PNone \<Rightarrow> ''null'' | PBool b \<Rightarrow> ''boolean'' | PInt i \<Rightarrow> ''integer'' | PStr s \<Rightarrow> ''string'' | PList vs \<Rightarrow> ''array''
   | PDict d \<Rightarrow> ''object'' | _ \<Rightarrow> [])"

inductive schema_valid :: "pyval \<Rightarrow> pyval \<Rightarrow> bool" where
  SchemaValid: "(\<forall>ty. dict_get s ''type'' = Some (PStr ty) \<longrightarrow> json_type ty v) \<Longrightarrow>
    (\<forall>vs. dict_get s ''enum'' = Some (PList vs) \<longrightarrow> v \<in> set vs) \<Longrightarrow>
    (\<forall>i vs. dict_get s ''items'' = Some i \<and> v = PList vs \<longrightarrow> (\<forall>x \<in> set vs. schema_valid i x)) \<Longrightarrow>
    (\<forall>i d. dict_get s ''additionalProperties'' = Some i \<and> v = PDict d \<longrightarrow> (\<forall>p \<in> set d. schema_valid i (snd p))) \<Longrightarrow>
    (\<forall>alts. dict_get s ''anyOf'' = Some (PList alts) \<longrightarrow> (\<exists>a \<in> set alts. schema_valid a v)) \<Longrightarrow>
    schema_valid (PDict s) v"

lemmas schema_valid_iff = schema_valid.simps [of "PDict s" v for s v, simplified]

definition plain_value :: "toolval \<Rightarrow> bool" where
  "plain_value v = (case v of VNone \<Rightarrow> True | VBool b \<Rightarrow> True | VInt i \<Rightarrow> True | VStr s \<Rightarrow> True | _ \<Rightarrow> False)"

text \<open>
  The annotations whose schema says what the binder takes. The others are a list or a dict without arguments, a
  dict whose keys are not strings, a literal of members of an enumeration, an enumeration that is too large to be
  listed, dataclasses and plain classes.
\<close>

fun schema_exact :: "enum_settings \<Rightarrow> pytype \<Rightarrow> bool" where
  "schema_exact es (TUnion new opts) = (\<forall>t \<in> set opts. schema_exact es t)"
| "schema_exact es (TLiteral lits) = (\<forall>l \<in> set lits. plain_value l)"
| "schema_exact es (TList None) = False"
| "schema_exact es (TList (Some t)) = schema_exact es t"
| "schema_exact es (TDict None) = False"
| "schema_exact es (TDict (Some (k, t))) = (k = TStr \<and> schema_exact es t)"
| "schema_exact es (TEnum n ms) = (length ms \<le> es_max_items es \<and> (\<forall>m \<in> set ms. plain_value (snd m)))"
| "schema_exact es (TData n fs) = False"
| "schema_exact es (TClass n ps sl hs) = False"
| "schema_exact es t = True"

lemma of_json_to_pyval: "plain_value v \<Longrightarrow> of_json (to_pyval v) = v"
  by (cases v) (auto simp: plain_value_def)

definition takes :: "tool_env \<Rightarrow> toolval \<Rightarrow> pytype \<Rightarrow> bool" where
  "takes te v t \<longleftrightarrow> (if t = TNone then v = VNone else \<exists>w. coerce_and_validate te v t = Inr w)"

lemma options_succeed: "t \<in> set ts \<Longrightarrow> takes te v t \<Longrightarrow> \<exists>w. coerce_options te v prev ts = Inr w"
proof (induction ts arbitrary: prev)
  case (Cons u ts)
  then show ?case
    by (cases "coerce_and_validate te v u"; cases "t = u") (auto simp: takes_def)
qed simp

lemma build_dict_succeeds:
  "\<forall>p \<in> set ps. \<exists>k v. p = (Inr k, Inr v) \<and> hashable k \<Longrightarrow> \<exists>d. build_dict acc ps = Inr (VDict d)"
  by (induction acc ps rule: build_dict.induct) fastforce+

lemma is_instance_coerce: "is_instance v t \<Longrightarrow> coerce_builtin te v t n = Inr v"
  by (simp add: coerce_builtin_def)

lemma valid_type: "schema_valid (PDict (schema_type ty # s)) v \<Longrightarrow> json_type ty v"
  by (simp add: schema_valid_iff schema_type_def dict_simps)

lemma options_schema:
  assumes "type_schema es f (TUnion new opts) = Inr s"
  shows "(\<exists>t. t \<in> set opts \<and> t \<noteq> TNone \<and> type_schema es f t = Inr s) \<or>
    (\<exists>ss. map (type_schema es f) opts = map Inr ss \<and> s = PDict [(''anyOf'', PList ss)])"
proof (cases new)
  case True
  with assms show ?thesis by (simp add: unsupported_def)
next
  case False
  show ?thesis
  proof (cases "\<exists>t. filter (\<lambda>t. t \<noteq> TNone) opts = [t] \<and> TNone \<in> set opts")
    case True
    then obtain t where t: "filter (\<lambda>t. t \<noteq> TNone) opts = [t]" "TNone \<in> set opts" by blast
    then have "t \<in> {t \<in> set opts. t \<noteq> TNone}" by (metis list.set_intros(1) set_filter)
    with t assms False show ?thesis by auto
  next
    case none: False
    with assms False show ?thesis
      by (auto simp: map_sum_def seq_res_Inr_iff split: list.splits sum.splits if_splits)
  qed
qed

lemma schema_accepted:
  "type_schema es f t = Inr s \<Longrightarrow> schema_valid s v \<Longrightarrow> schema_exact es t \<Longrightarrow>
   \<exists>w. coerce_and_validate te (of_json v) t = Inr w"
proof (induction t arbitrary: f s v)
  case (TUnion new opts)
  from options_schema [OF TUnion.prems(1)] show ?case
  proof (elim disjE exE conjE)
    fix t assume t: "t \<in> set opts" "t \<noteq> TNone" "type_schema es f t = Inr s"
    with TUnion.IH [OF t(1,3)] TUnion.prems(2,3) have "\<exists>w. coerce_and_validate te (of_json v) t = Inr w" by simp
    with t show ?thesis using options_succeed [OF t(1)] by (simp add: takes_def)
  next
    fix ss assume ss: "map (type_schema es f) opts = map Inr ss" "s = PDict [(''anyOf'', PList ss)]"
    with TUnion.prems(2) obtain a where a: "a \<in> set ss" "schema_valid a v"
      by (auto simp: schema_valid_iff dict_simps)
    from map_eq_elem [OF ss(1) a(1)] obtain t where t: "t \<in> set opts" "type_schema es f t = Inr a" by blast
    have "takes te (of_json v) t"
    proof (cases "t = TNone")
      case True
      with t a(2) have "json_type ''null'' v" by (auto dest!: valid_type)
      with True show ?thesis by (cases v) (auto simp: json_type_def takes_def)
    next
      case False
      with TUnion.IH [OF t a(2)] TUnion.prems(3) t(1) show ?thesis by (simp add: takes_def)
    qed
    with options_succeed [OF t(1)] show ?thesis by simp
  qed
next
  case (TLiteral lits)
  then have "v \<in> set (map to_pyval lits)"
    by (auto simp: literal_schema_def Let_def schema_valid_iff dict_simps)
  then obtain l where l: "l \<in> set lits" "v = to_pyval l" by auto
  with TLiteral have "of_json v = l" by (simp add: of_json_to_pyval)
  with l(1) have "py_in (of_json v) lits" unfolding py_in_def using py_eq_refl by blast
  then show ?case by (simp add: coerce_literal_def)
next
  case (TList item)
  then obtain t where t: "item = Some t" by (cases item) auto
  with TList.prems obtain i where i: "type_schema es (f @ ''[]'') t = Inr i" "s = PDict [schema_type ''array'', (''items'', i)]"
    by (auto simp: map_sum_def split: sum.splits)
  with TList.prems(2) have "json_type ''array'' v" by (auto dest!: valid_type)
  then obtain vs where vs: "v = PList vs" by (cases v) (auto simp: json_type_def)
  with i(2) TList.prems(2) have "\<forall>x \<in> set vs. schema_valid i x"
    by (auto simp: schema_valid_iff schema_type_def dict_simps)
  then have "\<forall>x \<in> set vs. \<exists>w. coerce_and_validate te (of_json x) t = Inr w"
    using TList.IH [of t "f @ ''[]''" i] TList.prems(3) i(1) t by auto
  then obtain w where "\<forall>x \<in> set vs. coerce_and_validate te (of_json x) t = Inr (w x)" by metis
  then have "map (\<lambda>x. coerce_and_validate te x t) (map of_json vs) = map (\<lambda>x. Inr (w x)) vs" by simp
  then have "seq_res (map (\<lambda>x. coerce_and_validate te x t) (map of_json vs)) = Inr (map w vs)"
    by (simp only: seq_res_map_Inr)
  then show ?case by (simp add: vs t comp_def)
next
  case (TDict kt)
  then obtain t where t: "kt = Some (TStr, t)" by (cases kt) auto
  with TDict.prems obtain i where i: "type_schema es (f @ ''.*'') t = Inr i"
      "s = PDict [schema_type ''object'', (''additionalProperties'', i)]"
    by (auto simp: map_sum_def split: sum.splits)
  with TDict.prems(2) have "json_type ''object'' v" by (auto dest!: valid_type)
  then obtain d where d: "v = PDict d" by (cases v) (auto simp: json_type_def)
  with i(2) TDict.prems(2) have "\<forall>p \<in> set d. schema_valid i (snd p)"
    by (auto simp: schema_valid_iff schema_type_def dict_simps)
  then have "\<forall>p \<in> set d. \<exists>w. coerce_and_validate te (of_json (snd p)) t = Inr w"
    using TDict.IH(2) [of "(TStr, t)" t "f @ ''.*''" i] TDict.prems(3) i(1) t by auto
  moreover have "coerce_and_validate te (VStr k) TStr = Inr (VStr k)" for k
    by (simp add: coerce_builtin_def is_instance_def)
  ultimately have "\<exists>ds. build_dict [] (map (\<lambda>p. (coerce_and_validate te (VStr (fst p)) TStr, coerce_and_validate te (of_json (snd p)) t)) d)
      = Inr (VDict ds)"
    by (intro build_dict_succeeds) auto
  then show ?case by (auto simp add: d t comp_def)
next
  case (TEnum n ms)
  then have "v \<in> set (map (to_pyval \<circ> snd) ms)"
    by (auto simp: enum_schema_def schema_valid_iff schema_type_def dict_simps)
  then obtain m where m: "m \<in> set ms" "v = to_pyval (snd m)" by auto
  with TEnum.prems(3) have "py_eq (snd m) (of_json v)" by (simp add: of_json_to_pyval)
  with m(1) have "find (\<lambda>m. py_eq (snd m) (of_json v)) ms \<noteq> None" by (metis find_None_iff)
  then show ?case by (auto simp: coerce_enum_def Let_def)
qed (auto dest!: valid_type simp: json_type_def is_instance_coerce is_instance_def unsupported_def split: pyval.splits)


definition demo_tool_env :: tool_env where
  "demo_tool_env = \<lparr>te_repr = (\<lambda>v. ''<object>''), te_construct = (\<lambda>n kw. Inl (exc TypeError [])), te_builtin = (\<lambda>n. None)\<rparr>"


section \<open>Arguments\<close>



text \<open>
  A plain class is not checked: what is neither an instance nor a dict falls through to the scalars, which return it as it is,
  so the last check of the code is never reached. A dataclass takes None, optional or not.
\<close>

lemma plain_class_unchecked:
  "\<forall>d. v \<noteq> VDict d \<Longrightarrow> coerce_and_validate te v (TClass n ps sl hs) = Inr v"
  by (cases v) (auto simp: scalar_or_instance_def coerce_scalar_def)

text \<open>
  The options of a union are tried in their order, and every value becomes a string: None for an optional string is the
  text \<open>None\<close>, and so is a number for \<open>Union[str, int]\<close>.
\<close>

lemma optional_string_takes_none:
  "coerce_and_validate te VNone (TUnion new [TStr, TNone]) = Inr (VStr ''None'')"
  "coerce_and_validate te (VInt i) (TUnion new [TStr, TInt]) = Inr (VStr (str_of_int i))"
  by (simp_all add: coerce_builtin_def is_instance_def scalar_or_instance_def coerce_scalar_def py_str_def)

lemma dataclass_takes_none: "coerce_and_validate te VNone (TData n fs) = Inr VNone"
  by simp

text \<open>
  Where the schema and the binder differ: a list without arguments takes anything by its schema, and only the empty
  list by the binder; an enumeration of numbers has a schema that no value satisfies; a class with hints of its
  own requires what has a default.
\<close>

lemma bare_list_rejects:
  "schema_valid (PDict [schema_type ''array'']) (PList [v]) \<and> type_schema es f (TList None) = Inr (PDict [schema_type ''array'']) \<and>
   coerce_and_validate te (of_json (PList [v])) (TList None) = Inl any_error"
  by (simp add: schema_valid_iff schema_type_def dict_simps json_type_def)

lemma number_enum_unsatisfiable:
  assumes "type_schema es f (TEnum n [(m, VInt i)]) = Inr s" and "0 < es_max_items es"
  shows "\<not> schema_valid s v"
  using assms by (auto simp: enum_schema_def schema_valid_iff schema_type_def dict_simps json_type_def)

lemma default_required:
  "type_schema es f (TClass ''C'' [(''a'', False, Some TInt)] None [(''a'', TInt)]) =
     Inr (PDict [schema_type ''object'', (''properties'', PDict [(''a'', PDict [schema_type ''integer''])]), (''required'', PList [PStr ''a''])])"
  by (simp add: Let_def dict_simps class_required_def is_optional_def)

section \<open>Binding\<close>

definition argument_ok :: "tool_env \<Rightarrow> param list \<Rightarrow> string \<times> toolval \<Rightarrow> string \<times> toolval \<Rightarrow> bool" where
  "argument_ok te sig a b \<longleftrightarrow> fst b = fst a \<and> (case hint_of sig (fst a) of
     None \<Rightarrow> snd b = snd a | Some t \<Rightarrow> coerce_and_validate te (snd a) t = Inr (snd b))"

lemma coerce_arguments_map: "coerce_arguments te sig args = Inr args' \<Longrightarrow> list_all2 (argument_ok te sig) args args'"
proof (induction te sig args arbitrary: args' rule: coerce_arguments.induct)
  case (2 te sig n v args)
  then show ?case
    by (cases "hint_of sig n") (auto simp: map_sum_def argument_ok_def split: sum.splits)
qed simp

lemma hint_of_param: "distinct (map pm_name sig) \<Longrightarrow> p \<in> set sig \<Longrightarrow> hint_of sig (pm_name p) = pm_hint p"
  by (auto simp: hint_of_def find_None_iff find_Some_iff in_set_conv_nth distinct_conv_nth split: option.splits)

lemma apply_defaults_names:
  assumes "\<forall>p \<in> set sig. by_name p \<longrightarrow> pm_default p \<noteq> None \<or> dict_has args (pm_name p)"
  shows "map fst (apply_defaults sig args) = map pm_name sig"
  using assms
proof (induction sig)
  case (Cons p sig)
  then have "map fst (apply_defaults sig args) = map pm_name sig" by simp
  moreover have "map fst (case dict_get args (pm_name p) of Some v \<Rightarrow> [(pm_name p, v)] | None \<Rightarrow> default_of p) = [pm_name p]"
    using Cons.prems by (cases "pm_kind p") (auto simp: default_of_def by_name_def dict_has_def split: option.splits)
  ultimately show ?case by (simp add: apply_defaults_def)
qed (simp add: apply_defaults_def)

lemma arguments_ok_names: "list_all2 (argument_ok te sig) xs ys \<Longrightarrow> map fst ys = map fst xs"
  by (induction rule: list_all2_induct) (auto simp: argument_ok_def)

lemma arguments_ok_get:
  "list_all2 (argument_ok te sig) xs ys \<Longrightarrow> dict_get xs n = Some v \<Longrightarrow>
   \<exists>w. dict_get ys n = Some w \<and> argument_ok te sig (n, v) (n, w)"
proof (induction rule: list_all2_induct)
  case (Cons x xs y ys)
  then show ?case by (cases x; cases y) (auto simp: dict_simps argument_ok_def split: if_splits)
qed simp

lemma dict_get_append: "dict_get (xs @ ys) k = (case dict_get xs k of Some v \<Rightarrow> Some v | None \<Rightarrow> dict_get ys k)"
  by (induction xs) (auto simp: dict_simps)

lemma dict_get_named:
  "dict_get (concat (map (\<lambda>n. case dict_get kw n of Some v \<Rightarrow> [(n, v)] | None \<Rightarrow> []) names)) m =
     (if m \<in> set names then dict_get kw m else None)"
  by (induction names) (auto simp: dict_get_append dict_simps split: option.splits)

lemma dict_get_defaults:
  assumes "distinct (map pm_name sig)" and "p \<in> set sig"
  shows "dict_get (apply_defaults sig args) (pm_name p) =
    (case dict_get args (pm_name p) of Some v \<Rightarrow> Some v | None \<Rightarrow> dict_get (default_of p) (pm_name p))"
  using assms
proof (induction sig)
  case (Cons q sig)
  have other: "dict_get (case dict_get args (pm_name q) of Some v \<Rightarrow> [(pm_name q, v)] | None \<Rightarrow> default_of q) k = None"
    if "k \<noteq> pm_name q" for k
    using that by (auto simp: default_of_def dict_simps split: option.splits param_kind.splits)
  have absent: "dict_get (apply_defaults ps args) k = None" if "k \<notin> set (map pm_name ps)" for ps k
    using that
    by (induction ps) (auto simp: apply_defaults_def dict_get_append default_of_def dict_simps split: option.splits param_kind.splits)
  show ?case
  proof (cases "p = q")
    case True
    with Cons.prems(1) absent [of "pm_name q" sig] show ?thesis
      by (auto simp: apply_defaults_def dict_get_append dict_simps split: option.splits)
  next
    case False
    with Cons.prems(2) have p: "p \<in> set sig" by simp
    moreover from Cons.prems(1) have "pm_name q \<notin> pm_name ` set sig" by simp
    ultimately have "pm_name p \<noteq> pm_name q" by (metis imageI)
    with p Cons other show ?thesis by (simp add: apply_defaults_def dict_get_append)
  qed
qed simp

lemma find_SomeD: "find P xs = Some x \<Longrightarrow> x \<in> set xs \<and> P x"
  by (auto simp: find_Some_iff)

lemma bound_keywords:
  assumes "distinct (map pm_name sig)" and "bind_keywords sig kw = Inr args"
  shows "\<forall>p \<in> set sig. by_name p \<longrightarrow> dict_get args (pm_name p) = dict_get kw (pm_name p) \<and>
      (pm_default p \<noteq> None \<or> dict_has args (pm_name p))"
    and "(\<exists>p \<in> set sig. pm_kind p = VarKeyword) \<or> fst ` set kw \<subseteq> pm_name ` {p \<in> set sig. by_name p}"
proof -
  from assms(2) have b: "bind_partial sig kw = Inr args" and m: "missing_params sig args = []"
    by (auto simp: bind_keywords_def res_bind_Inr_iff split: if_splits)
  have other: "pm_name p \<noteq> pm_name q" if "p \<in> set sig" "by_name p" "q \<in> set sig" "pm_kind q = VarKeyword" for p q
    using that assms(1) by (auto simp: by_name_def distinct_map inj_on_def)
  define names where "names = map pm_name (filter by_name sig)"
  define args0 where "args0 = concat (map (\<lambda>n. case dict_get kw n of Some v \<Rightarrow> [(n, v)] | None \<Rightarrow> []) names)"
  define rest where "rest = filter (\<lambda>p. fst p \<notin> set names) kw"
  have names: "pm_name p \<in> set names" if "p \<in> set sig" "by_name p" for p
    using that by (auto simp: names_def)
  consider "rest = []" "args = args0"
    | q where "q \<in> set sig" "pm_kind q = VarKeyword"
        "args = args0 @ [(pm_name q, VDict (map (\<lambda>q. (VStr (fst q), snd q)) rest))]"
    using b by (auto simp: bind_partial_def Let_def names_def [symmetric] args0_def [symmetric] rest_def [symmetric]
        dest: find_SomeD split: if_splits option.splits)
  note cases = this
  have "dict_get args (pm_name p) = dict_get kw (pm_name p)" if "p \<in> set sig" "by_name p" for p
    using cases
  proof cases
    case 1
    then show ?thesis by (simp add: args0_def dict_get_named names [OF that])
  next
    case (2 q)
    then show ?thesis using other [OF that 2(1,2)]
      by (simp add: args0_def dict_get_append dict_get_named names [OF that] dict_simps split: option.splits)
  qed
  with m show "\<forall>p \<in> set sig. by_name p \<longrightarrow> dict_get args (pm_name p) = dict_get kw (pm_name p) \<and>
      (pm_default p \<noteq> None \<or> dict_has args (pm_name p))"
    by (auto simp: missing_params_def filter_empty_conv)
  show "(\<exists>p \<in> set sig. pm_kind p = VarKeyword) \<or> fst ` set kw \<subseteq> pm_name ` {p \<in> set sig. by_name p}"
    using cases by cases (auto simp: rest_def names_def filter_empty_conv)
qed



text \<open>
  A variadic parameter with an annotation makes every call fail that reaches it: the binder coerces the tuple of the arguments
  to the annotation of one of them.
\<close>

lemma annotated_variadic_fails:
  assumes "pm_kind p = VarPositional" and "pm_default p = None" and "pm_hint p = Some TInt"
  shows "\<exists>m. bind_params_to_func te [p] (ByPosition xs) = Inl (tool_argument_error m)"
  using assms
  by (cases xs) (auto simp: bind_params_to_func_def apply_defaults_def default_of_def hint_of_def coerce_builtin_def is_instance_def
      scalar_or_instance_def coerce_scalar_def by_name_def dict_simps res_bind_def)

end
