(* ===== verification/StoreFrame.thy ===== *)
theory StoreFrame
  imports TaskStore
begin

text \<open>
  What the operations of the task store leave alone, in any larger state that contains the store:
  all other fields, the waiting lists up to waiters that leave, the kind of each task, and the ties
  of retry timers. The runtime context's invariant rests on it.
\<close>

section \<open>Waiting lists and links\<close>

definition waits_le :: "(string, tref list) dict \<Rightarrow> (string, tref list) dict \<Rightarrow> bool" where
  "waits_le pe pe' \<longleftrightarrow> (dict_wf pe \<longrightarrow> dict_wf pe') \<and>
     (\<forall>k ts'. dict_get pe' k = Some ts' \<longrightarrow> (\<exists>ts. dict_get pe k = Some ts \<and> set ts' \<subseteq> set ts))"

lemma waits_le_refl [simp]: "waits_le pe pe"
  by (auto simp: waits_le_def)

lemma waits_le_trans: "waits_le a b \<Longrightarrow> waits_le b c \<Longrightarrow> waits_le a c"
  unfolding waits_le_def by (meson subset_trans)

definition retry_links_le :: "task list \<Rightarrow> task list \<Rightarrow> bool" where
  "retry_links_le ts ts' \<longleftrightarrow> length ts \<le> length ts' \<and>
     (\<forall>i < length ts'. t_retryable_parent (ts' ! i) =
        (if i < length ts then t_retryable_parent (ts ! i) else None))"

lemma retry_links_le_trans: "retry_links_le a b \<Longrightarrow> retry_links_le b c \<Longrightarrow> retry_links_le a c"
  by (auto simp: retry_links_le_def)

definition store_only :: "'a store_scheme \<Rightarrow> 'a store_scheme \<Rightarrow> bool" where
  "store_only s s' \<longleftrightarrow> waits_le (pending_events s) (pending_events s') \<and>
     retry_links_le (tasks s) (tasks s') \<and>
     s' = s\<lparr>tasks := tasks s', pending_events := pending_events s'\<rparr>"

lemma store_only_refl [simp]: "store_only s s"
  by (simp add: store_only_def retry_links_le_def)

lemma store_only_trans [trans]: "store_only a b \<Longrightarrow> store_only b c \<Longrightarrow> store_only a c"
  unfolding store_only_def by (cases a; cases b; cases c) (auto intro: waits_le_trans retry_links_le_trans)

lemma store_only_upd: "(\<And>x. t_retryable_parent (f x) = t_retryable_parent x) \<Longrightarrow> store_only s (upd_task t f s)"
  by (cases "t < length (tasks s)")
    (auto simp: store_only_def upd_task_def retry_links_le_def nth_list_update list_update_beyond not_less)

lemma store_only_updI [simp]:
  "(\<And>x. t_retryable_parent (f x) = t_retryable_parent x) \<Longrightarrow> store_only s s' \<Longrightarrow> store_only s (upd_task t f s')"
  by (rule store_only_trans [OF _ store_only_upd])

lemma store_only_alloc [simp]: "store_only s (snd (alloc k s))"
  by (auto simp: store_only_def alloc_def retry_links_le_def nth_append new_task_def)

lemma store_only_unregister [simp]: "store_only s (unregister_event_task key t s)"
proof -
  have "waits_le (pending_events s) (pending_events (unregister_event_task key t s))"
    by (auto simp: unregister_event_task_def waits_le_def Let_def dict_get_set dict_get_del
        split: option.splits if_splits dest: in_set_remove1 [THEN iffD1, rotated] notin_set_remove1)
  then show ?thesis
    by (auto simp: store_only_def unregister_event_task_def Let_def retry_links_le_def split: option.splits)
qed

lemma store_only_when_all_step: "store_only s (snd (when_all_step p cs n pe c s))"
  by (simp add: when_all_step_def Let_def split: option.split sum.split)

lemma store_only_composite_step: "store_only s (snd (composite_step p c s))"
  by (auto simp: composite_step_def when_any_step_def external_event_step_def store_only_when_all_step
      split: task_class.split option.split)

lemma store_only_on_child_completed: "store_only s (snd (on_child_completed n p c s))"
proof (induction n p c s rule: on_child_completed.induct)
  case (2 n p c s)
  show ?case
  proof (cases "composite_step p c s")
    case (Pair r s')
    have step: "store_only s s'" using store_only_composite_step [of s p c] Pair by simp
    show ?thesis
    proof (cases "is_complete s p \<or> r \<noteq> Inr True \<or> t_parent (task_at s' p) = None")
      case True
      with Pair step show ?thesis by (auto split: sum.splits bool.splits)
    next
      case False
      then obtain q where q: "t_parent (task_at s' p) = Some q" and r: "r = Inr True" "\<not> is_complete s p" by auto
      have "store_only s' (snd (on_child_completed n q p s'))"
        by (rule "2.IH") (use Pair r q in auto)
      with step have "store_only s (snd (on_child_completed n q p s'))" by (rule store_only_trans)
      with Pair r q show ?thesis by simp
    qed
  qed
qed simp

lemma store_only_notify: "store_only s (snd (notify_parent t s))"
  by (simp add: notify_parent_def store_only_on_child_completed split: option.split)

lemma store_only_completion:
  "store_only s (snd (task_complete t v s))"
  "store_only s (snd (task_fail t msg d s))"
  "store_only s (snd (task_cancel t e s))"
  by (simp_all add: completion_defs store_only_trans [OF store_only_upd store_only_notify])

lemma store_only_adopt: "store_only s (snd (adopt p cs s))"
proof (induction cs arbitrary: s)
  case (Cons c cs)
  let ?s1 = "upd_task c (\<lambda>x. x\<lparr>t_parent := Some p\<rparr>) s"
  have 1: "store_only s ?s1" by simp
  show ?case
  proof (cases "is_complete ?s1 c")
    case True
    obtain r s2 where s2: "on_child_completed (length (tasks ?s1)) p c ?s1 = (r, s2)" by fastforce
    have 2: "store_only s s2"
      using store_only_trans [OF 1 store_only_on_child_completed [of ?s1 "length (tasks ?s1)" p c]] s2 by simp
    show ?thesis
    proof (cases r)
      case (Inl e)
      with s2 2 True show ?thesis by (simp add: Let_def)
    next
      case (Inr u)
      with s2 True store_only_trans [OF 2 Cons.IH] show ?thesis by (simp add: Let_def)
    qed
  next
    case False
    with store_only_trans [OF 1 Cons.IH] show ?thesis by (simp add: Let_def)
  qed
qed simp

lemma store_only_new_composite: "store_only s (snd (new_composite k s))"
proof -
  have "store_only s (snd (adopt p cs (snd (alloc k s))))" for p cs
    by (rule store_only_trans [OF store_only_alloc store_only_adopt])
  then show ?thesis
    by (auto simp: new_composite_def Let_def split: prod.split sum.split) (metis snd_conv)+
qed

lemma store_only_finish: "store_only s (snd r) \<Longrightarrow> store_only s (snd (finish_if_empty cs r))"
  by (cases r) (auto simp: finish_if_empty_def split: sum.split )

lemma store_only_composites:
  "store_only s (snd (when_all cs s))" "store_only s (snd (when_any cs s))"
  "store_only s (snd (external_event_with_timeout e t name timeout key s))"
  by (simp_all add: when_all_def when_any_def external_event_with_timeout_def
      store_only_finish store_only_new_composite)

text \<open>Which kind of task an object is, up to the fields of its class, and what never changes.\<close>

fun tag :: "task_class \<Rightarrow> nat" where
  "tag Completable = 0"
| "tag Timer = 1"
| "tag (Retryable ri) = 2"
| "tag (WhenAll cs n pe) = 3"
| "tag (WhenAny cs) = 4"
| "tag (ExternalEvent e t n to k) = 5"

lemma tag_shape: "shape k = shape k' \<Longrightarrow> tag k = tag k'"
  by (cases k; cases k') auto

lemma tag_composite: "tag k = tag k' \<Longrightarrow> is_composite k = is_composite k'"
  by (cases k; cases k') auto

lemma tag_retryable: "tag k = tag k' \<Longrightarrow> is_retryable k = is_retryable k'"
  by (cases k; cases k') auto

definition evolves :: "task list \<Rightarrow> task list \<Rightarrow> bool" where
  "evolves ts ts' \<longleftrightarrow> length ts \<le> length ts' \<and>
     (\<forall>i < length ts. tag (t_class (ts' ! i)) = tag (t_class (ts ! i)) \<and>
        (t_complete (ts ! i) \<longrightarrow> t_complete (ts' ! i)))"

lemma evolves_refl [simp]: "evolves ts ts"
  by (simp add: evolves_def)

lemma evolves_trans: "evolves a b \<Longrightarrow> evolves b c \<Longrightarrow> evolves a c"
  by (auto simp: evolves_def)

lemma keeps_evolves: "keeps P ts ts' \<Longrightarrow> evolves ts ts'"
  by (auto simp: keeps_def evolves_def intro: tag_shape)

lemma notify_evolves:
  assumes "tasks_inv {} (tasks s)" and "t < length (tasks s)" "\<not> t_complete (task_at s t)"
    "\<not> is_composite (t_class (task_at s t))"
    and "t_class (f (task_at s t)) = t_class (task_at s t)" "ties (f (task_at s t)) = ties (task_at s t)"
      "t_complete (f (task_at s t))"
  shows "evolves (tasks s) (tasks (snd (notify_parent t (upd_task t f s))))"
  using notify_parent_ok [where f = f, OF assms] by (auto intro: keeps_evolves)

lemma completion_evolves:
  assumes "tasks_inv {} (tasks s)" and "t < length (tasks s)" and "\<not> is_composite (t_class (task_at s t))"
  shows "evolves (tasks s) (tasks (snd (task_complete t v s)))"
    and "evolves (tasks s) (tasks (snd (task_fail t msg d s)))"
    and "evolves (tasks s) (tasks (snd (task_cancel t e s)))"
  using assms by (simp_all add: completion_defs is_complete_def notify_evolves)

lemma new_composite_evolves:
  assumes "tasks_inv {} (tasks s)" and "fresh_class k" "children k \<noteq> []"
    and "\<forall>c \<in> set (children k). c < length (tasks s)"
  shows "evolves (tasks s) (tasks (snd (new_composite k s)))"
proof (cases "distinct (children k) \<and> (\<forall>c \<in> set (children k). \<not> (live_parent s c \<and> \<not> is_complete s c))")
  case True
  with new_composite_ok [OF assms(1-4)] show ?thesis by (auto simp: evolves_def)
next
  case False
  from new_composite_error [OF this] show ?thesis by auto
qed

lemma empty_composite_evolves:
  "children k = [] \<Longrightarrow> evolves (tasks s) (tasks (snd (finish_if_empty [] (new_composite k s))))"
  by (simp add: finish_if_empty_def new_composite_def alloc_def evolves_def nth_append)

lemma finish_nonempty: "cs \<noteq> [] \<Longrightarrow> finish_if_empty cs r = r"
  by (cases r) (auto simp: finish_if_empty_def split: sum.split)

lemma composites_evolve:
  assumes "tasks_inv {} (tasks s)" and "set cs \<subseteq> {..<length (tasks s)}"
  shows "evolves (tasks s) (tasks (snd (when_all cs s)))" "evolves (tasks s) (tasks (snd (when_any cs s)))"
  using assms new_composite_evolves [OF assms(1), of "WhenAll cs 0 None"] new_composite_evolves [OF assms(1), of "WhenAny cs"]
  by (cases "cs = []"; force simp: when_all_def when_any_def finish_nonempty intro: empty_composite_evolves)+

end
