(* ===== verification/ContextInv.thy ===== *)
theory ContextInv
  imports Context StoreFrame
begin

text \<open>
  The invariant of the runtime context and its preservation by every call an orchestrator can make:
  the task store is consistent, every pending action and task sits under its own number between 1
  and the last number handed out, and every task the context refers to exists and can be completed.
\<close>

section \<open>Shifting the numbers\<close>

lemma shift_key_get:
  assumes "dict_get d k = Some v"
  shows "dict_get (shift_key f k d) j =
    (if j = k - 1 then Some (f v (k - 1)) else if j = k then None else dict_get d j)"
  using assms by (auto simp: shift_key_def dict_get_set dict_get_del)

lemma dict_wf_shift_key [simp]: "dict_wf d \<Longrightarrow> dict_wf (shift_key f k d)"
  by (simp add: shift_key_def split: option.split)

lemma shift_fold_get:
  assumes "sorted ks" and "distinct ks" and "set ks = {k \<in> set (dict_keys d). k > m}"
    and "m \<notin> set (dict_keys d)"
  shows "dict_get (fold (shift_key f) ks d) j =
    (if j < m then dict_get d j else map_option (\<lambda>v. f v j) (dict_get d (j + 1)))"
  using assms
proof (induction ks arbitrary: m d)
  case Nil
  then have none: "dict_get d i = None" if "i \<ge> m" for i
    using that by (cases "i = m") (auto simp: dict_get_None_iff)
  then show ?case using none [of j] none [of "j + 1"] by auto
next
  case (Cons k ks)
  have k: "k \<in> set (dict_keys d)" "k > m" using Cons.prems(3) by auto
  then obtain v where v: "dict_get d k = Some v" using dict_get_None_iff by fastforce
  have free: "dict_get d i = None" if "m \<le> i" "i < k" for i
  proof (cases "i = m")
    case True
    with Cons.prems(4) show ?thesis by (simp add: dict_get_None_iff)
  next
    case False
    have "i \<notin> set (k # ks)" using that(2) Cons.prems(1) by auto
    with False that(1) Cons.prems(3) show ?thesis by (auto simp: dict_get_None_iff)
  qed
  let ?d = "shift_key f k d"
  have get: "dict_get ?d i = (if i = k - 1 then Some (f v (k - 1)) else if i = k then None else dict_get d i)" for i
    by (rule shift_key_get [OF v])
  have keys: "i \<in> set (dict_keys ?d) \<longleftrightarrow> i = k - 1 \<or> i \<noteq> k \<and> i \<in> set (dict_keys d)" for i
    using get [of i] dict_get_None_iff [of ?d i] dict_get_None_iff [of d i] by (auto split: if_splits)
  define K where "K = set (dict_keys d)"
  have K': "set (dict_keys ?d) = insert (k - 1) (K - {k})" unfolding K_def using keys by blast
  have set_ks: "insert k (set ks) = {i \<in> K. i > m}" "k \<in> K" "m < k"
    using Cons.prems(3) k unfolding K_def by simp_all
  have gt: "\<forall>i \<in> set ks. k < i" using Cons.prems(1,2) by (auto simp: order_less_le)
  have "set ks = {i \<in> insert (k - 1) (K - {k}). i > k}"
    using set_ks gt by (auto simp: set_eq_iff)
  then have "set ks = {i \<in> set (dict_keys ?d). i > k}" unfolding K' .
  then have "dict_get (fold (shift_key f) ks ?d) j =
      (if j < k then dict_get ?d j else map_option (\<lambda>v. f v j) (dict_get ?d (j + 1)))"
    by (intro Cons.IH) (use Cons.prems(1,2) keys in auto)
  also have "\<dots> = (if j < m then dict_get d j else map_option (\<lambda>v. f v j) (dict_get d (j + 1)))"
    using k(2) v free [of j] free [of "j + 1"] by (auto simp: get)
  finally show ?case by simp
qed

lemma shift_above_get:
  assumes "dict_wf d" and "i \<notin> set (dict_keys d)"
  shows "dict_get (shift_above f i d) j =
    (if j < i then dict_get d j else map_option (\<lambda>v. f v j) (dict_get d (j + 1)))"
  unfolding shift_above_def
  by (rule shift_fold_get) (use assms in \<open>auto simp: dict_wf_def\<close>)

lemma shift_above_wf: "dict_wf d \<Longrightarrow> dict_wf (shift_above f i d)"
proof -
  assume "dict_wf d"
  then have "dict_wf (fold (shift_key f) ks d)" for ks by (induction ks arbitrary: d) auto
  then show ?thesis by (simp add: shift_above_def)
qed

section \<open>The invariant of the context\<close>

definition plain :: "task list \<Rightarrow> tref \<Rightarrow> bool" where
  "plain ts t \<longleftrightarrow> t < length ts \<and> \<not> is_composite (t_class (ts ! t))"

definition retry_ok :: "task list \<Rightarrow> bool" where
  "retry_ok ts \<longleftrightarrow> (\<forall>i < length ts. \<forall>r. t_retryable_parent (ts ! i) = Some r \<longrightarrow>
     r < length ts \<and> is_retryable (t_class (ts ! r)))"

text \<open>Before the orchestration is complete no action completes it, afterwards at most one does.\<close>

definition ends_once :: "bool \<Rightarrow> (int, action) dict \<Rightarrow> bool" where
  "ends_once ended as \<longleftrightarrow>
     (\<forall>i a. dict_get as i = Some a \<and> is_complete_action a \<longrightarrow> ended \<and>
        (\<forall>j b. dict_get as j = Some b \<and> is_complete_action b \<longrightarrow> j = i))"

definition ids_ok :: "bool \<Rightarrow> int \<Rightarrow> (int, action) dict \<Rightarrow> (int, tref) dict \<Rightarrow> bool" where
  "ids_ok ended n as pt \<longleftrightarrow> 0 \<le> n \<and> dict_wf as \<and> dict_wf pt \<and> ends_once ended as \<and>
     (\<forall>i a. dict_get as i = Some a \<longrightarrow> act_id a = i \<and> 0 < i \<and> i \<le> n) \<and>
     (\<forall>i t. dict_get pt i = Some t \<longrightarrow> 0 < i \<and> i \<le> n)"

definition refs_ok :: "task list \<Rightarrow> (int, tref) dict \<Rightarrow> (string, tref list) dict \<Rightarrow> bool" where
  "refs_ok ts pt pe \<longleftrightarrow> dict_wf pe \<and> (\<forall>i t. dict_get pt i = Some t \<longrightarrow> plain ts t) \<and>
     (\<forall>k ws. dict_get pe k = Some ws \<longrightarrow> (\<forall>t \<in> set ws. plain ts t))"

definition ctx_inv :: "ctx \<Rightarrow> bool" where
  "ctx_inv s \<longleftrightarrow> tasks_inv {} (tasks s) \<and> retry_ok (tasks s) \<and>
     ids_ok (ctx_complete s) (sequence_number s) (pending_actions s) (pending_tasks s) \<and>
     refs_ok (tasks s) (pending_tasks s) (pending_events s) \<and> dict_wf (received_events s)"

lemma ctx_inv_irrelevant [simp]:
  "ctx_inv (s\<lparr>generator := g\<rparr>) = ctx_inv s" "ctx_inv (s\<lparr>previous_task := v\<rparr>) = ctx_inv s"
  "ctx_inv (s\<lparr>is_replaying := b\<rparr>) = ctx_inv s"
  "ctx_inv (s\<lparr>ctx_result := v\<rparr>) = ctx_inv s" "ctx_inv (s\<lparr>current_utc_datetime := i\<rparr>) = ctx_inv s"
  "ctx_inv (s\<lparr>ctx_app_id := a\<rparr>) = ctx_inv s" "ctx_inv (s\<lparr>completion_status := st\<rparr>) = ctx_inv s"
  "ctx_inv (s\<lparr>new_input := v\<rparr>) = ctx_inv s" "ctx_inv (s\<lparr>save_events := b\<rparr>) = ctx_inv s"
  "ctx_inv (s\<lparr>encoded_custom_status := c\<rparr>) = ctx_inv s"
  "ctx_inv (s\<lparr>orchestrator_version_name := c\<rparr>) = ctx_inv s" "ctx_inv (s\<lparr>version_name := c\<rparr>) = ctx_inv s"
  "ctx_inv (s\<lparr>history_patches := p\<rparr>) = ctx_inv s" "ctx_inv (s\<lparr>applied_patches := p\<rparr>) = ctx_inv s"
  "ctx_inv (s\<lparr>encountered_patches := ps\<rparr>) = ctx_inv s" "ctx_inv (s\<lparr>uuid_counter := n\<rparr>) = ctx_inv s"
  "ctx_inv (s\<lparr>timestamp_counter := n\<rparr>) = ctx_inv s"
  by (simp_all add: ctx_inv_def)

lemma ctx_inv_new [simp]: "ctx_inv (new_context inst)"
  by (simp add: ctx_inv_def new_context_def retry_ok_def ids_ok_def ends_once_def refs_ok_def)

lemma evolves_plain: "evolves ts ts' \<Longrightarrow> plain ts t \<Longrightarrow> plain ts' t"
  unfolding evolves_def plain_def by (metis order_less_le_trans tag_composite)

lemma refs_ok_evolves:
  assumes "refs_ok ts pt pe" and "evolves ts ts'" and "waits_le pe pe'"
  shows "refs_ok ts' pt pe'"
  using assms evolves_plain [OF assms(2)] unfolding refs_ok_def waits_le_def by (meson subset_iff)

lemma retry_ok_evolves:
  assumes "retry_ok ts" and "evolves ts ts'" and "retry_links_le ts ts'"
  shows "retry_ok ts'"
  unfolding retry_ok_def
proof (intro allI impI)
  fix i r assume i: "i < length ts'" "t_retryable_parent (ts' ! i) = Some r"
  with assms(3) have "i < length ts" "t_retryable_parent (ts ! i) = Some r"
    by (auto simp: retry_links_le_def split: if_splits)
  with assms(1) have "r < length ts" "is_retryable (t_class (ts ! r))" by (auto simp: retry_ok_def)
  with assms(2) show "r < length ts' \<and> is_retryable (t_class (ts' ! r))"
    unfolding evolves_def using tag_retryable by (metis order_less_le_trans)
qed

text \<open>An operation on the store, seen from the context.\<close>

lemma ctx_inv_store:
  assumes "ctx_inv s" and so: "store_only s s'" and "tasks_inv {} (tasks s')" and ev: "evolves (tasks s) (tasks s')"
  shows "ctx_inv s'"
proof -
  have eq: "s' = s\<lparr>tasks := tasks s', pending_events := pending_events s'\<rparr>"
    and w: "waits_le (pending_events s) (pending_events s')" and r: "retry_links_le (tasks s) (tasks s')"
    using so by (simp_all add: store_only_def)
  have fields: "sequence_number s' = sequence_number s" "pending_actions s' = pending_actions s"
    "pending_tasks s' = pending_tasks s" "received_events s' = received_events s"
    "ctx_complete s' = ctx_complete s"
    by (subst eq, simp)+
  show ?thesis
    using assms(1,3) refs_ok_evolves [OF _ ev w] retry_ok_evolves [OF _ ev r]
    by (simp add: ctx_inv_def fields)
qed

lemma ctx_inv_completion:
  assumes "ctx_inv s" and "plain (tasks s) t"
  shows "ctx_inv (snd (task_complete t v s))" "ctx_inv (snd (task_fail t msg d s))" "ctx_inv (snd (task_cancel t e s))"
proof -
  have t: "tasks_inv {} (tasks s)" "t < length (tasks s)" "\<not> is_composite (t_class (task_at s t))"
    using assms by (simp_all add: ctx_inv_def plain_def)
  show "ctx_inv (snd (task_complete t v s))" "ctx_inv (snd (task_fail t msg d s))" "ctx_inv (snd (task_cancel t e s))"
    by (rule ctx_inv_store [OF assms(1) store_only_completion(1) completion_inv(1) [OF t] completion_evolves(1) [OF t]],
        rule ctx_inv_store [OF assms(1) store_only_completion(2) completion_inv(2) [OF t] completion_evolves(2) [OF t]],
        rule ctx_inv_store [OF assms(1) store_only_completion(3) completion_inv(3) [OF t] completion_evolves(3) [OF t]])
qed

lemma ctx_inv_composites:
  assumes "ctx_inv s" and "set cs \<subseteq> {..<length (tasks s)}"
  shows "ctx_inv (snd (when_all cs s))" "ctx_inv (snd (when_any cs s))"
proof -
  have t: "tasks_inv {} (tasks s)" using assms by (simp add: ctx_inv_def)
  show "ctx_inv (snd (when_all cs s))" "ctx_inv (snd (when_any cs s))"
    by (rule ctx_inv_store [OF assms(1) store_only_composites(1) when_all_inv [OF t assms(2)] composites_evolve(1) [OF t assms(2)]],
        rule ctx_inv_store [OF assms(1) store_only_composites(2) when_any_inv [OF t assms(2)] composites_evolve(2) [OF t assms(2)]])
qed

lemma ctx_inv_event_timeout:
  assumes "ctx_inv s" and "e < length (tasks s)" "t < length (tasks s)"
  shows "ctx_inv (snd (external_event_with_timeout e t name timeout key s))"
proof (rule ctx_inv_store [OF assms(1) store_only_composites(3)])
  have t: "tasks_inv {} (tasks s)" using assms by (simp add: ctx_inv_def)
  then show "tasks_inv {} (tasks (snd (external_event_with_timeout e t name timeout key s)))"
    unfolding external_event_with_timeout_def by (rule new_composite_inv) (use assms in auto)
  show "evolves (tasks s) (tasks (snd (external_event_with_timeout e t name timeout key s)))"
    unfolding external_event_with_timeout_def by (rule new_composite_evolves [OF t]) (use assms in auto)
qed

lemma ctx_inv_alloc:
  assumes "ctx_inv s" and "\<not> is_composite k"
  shows "ctx_inv (snd (alloc k s))" and "plain (tasks (snd (alloc k s))) (fst (alloc k s))"
proof -
  have t: "tasks_inv {} (tasks s)" using assms by (simp add: ctx_inv_def)
  have ch: "children k = []" "fresh_class k" using assms(2) by (cases k; simp)+
  show "ctx_inv (snd (alloc k s))"
  proof (rule ctx_inv_store [OF assms(1) store_only_alloc])
    show "tasks_inv {} (tasks (snd (alloc k s)))" using alloc_ok [OF t, of k] ch assms(2) by simp
    show "evolves (tasks s) (tasks (snd (alloc k s)))" by (simp add: alloc_def evolves_def nth_append)
  qed
  show "plain (tasks (snd (alloc k s))) (fst (alloc k s))"
    using assms(2) by (simp add: alloc_def plain_def new_task_def)
qed

section \<open>Every operation keeps the invariant\<close>

lemma ctx_inv_next:
  "ctx_inv s \<Longrightarrow> ctx_inv (snd (next_sequence_number s))"
  "fst (next_sequence_number s) = sequence_number s + 1"
  "sequence_number (snd (next_sequence_number s)) = sequence_number s + 1"
  "pending_actions (snd (next_sequence_number s)) = pending_actions s"
  "tasks (snd (next_sequence_number s)) = tasks s"
  by (force simp: next_sequence_number_def Let_def ctx_inv_def ids_ok_def)+

lemma next_sequence_number_eq:
  "next_sequence_number s = (sequence_number s + 1, s\<lparr>sequence_number := sequence_number s + 1\<rparr>)"
  by (simp add: next_sequence_number_def Let_def)

lemma ctx_inv_add_action:
  "ctx_inv s \<Longrightarrow> 0 < act_id a \<Longrightarrow> act_id a \<le> sequence_number s \<Longrightarrow> \<not> is_complete_action a \<Longrightarrow>
     ctx_inv (add_action a s)"
  by (auto simp: add_action_def ctx_inv_def ids_ok_def ends_once_def dict_get_set)

lemma ctx_inv_add_task:
  "ctx_inv s \<Longrightarrow> 0 < i \<Longrightarrow> i \<le> sequence_number s \<Longrightarrow> plain (tasks s) t \<Longrightarrow> ctx_inv (add_task i t s)"
  by (auto simp: add_task_def ctx_inv_def ids_ok_def refs_ok_def dict_get_set)

lemma ctx_inv_clear [simp]:
  "ctx_inv s \<Longrightarrow> ctx_inv (s\<lparr>pending_actions := []\<rparr>)"
  "ctx_inv s \<Longrightarrow> ctx_inv (s\<lparr>ctx_complete := b, pending_actions := []\<rparr>)"
  by (auto simp: ctx_inv_def ids_ok_def ends_once_def)

lemma ctx_inv_seq: "ctx_inv s \<Longrightarrow> 0 \<le> sequence_number s"
  by (simp add: ctx_inv_def ids_ok_def)

text \<open>A new number with an action under it.\<close>

lemma ctx_inv_new_action:
  assumes "ctx_inv s" and "act_id a = sequence_number s + 1" and "\<not> is_complete_action a"
  shows "ctx_inv (add_action a (snd (next_sequence_number s)))"
  by (rule ctx_inv_add_action [OF ctx_inv_next(1)]) (use assms ctx_inv_seq in \<open>auto simp: ctx_inv_next\<close>)

text \<open>The completion action, alone under its number.\<close>

lemma ctx_inv_completion_action:
  assumes "ctx_inv s" and "act_id a = sequence_number s + 1"
  shows "ctx_inv (add_action a
    (snd (next_sequence_number (s\<lparr>ctx_complete := True, pending_actions := []\<rparr>))))"
proof -
  let ?s = "snd (next_sequence_number (s\<lparr>ctx_complete := True, pending_actions := []\<rparr>))"
  have "ctx_inv ?s" by (rule ctx_inv_next(1)) (simp add: assms)
  then show ?thesis
    using assms ctx_inv_seq [OF assms(1)]
    by (auto simp: add_action_def ctx_inv_def ids_ok_def ends_once_def next_sequence_number_def Let_def dict_get_set)
qed

lemma ctx_inv_set_complete: "ctx_inv s \<Longrightarrow> ctx_inv (snd (set_complete v st enc s))"
proof -
  assume inv: "ctx_inv s"
  let ?s = "s\<lparr>completion_status := Some st, ctx_result := v\<rparr>"
  have eq: "s\<lparr>ctx_complete := True, completion_status := Some st, pending_actions := [], ctx_result := v\<rparr> =
      ?s\<lparr>ctx_complete := True, pending_actions := []\<rparr>" by simp
  have inv': "ctx_inv ?s" using inv by simp
  show ?thesis
    unfolding set_complete_def Let_def eq case_prod_beta
    by (auto simp: inv inv' ctx_inv_next(2) split: sum.split intro!: ctx_inv_completion_action [OF inv'])
qed

lemma ctx_inv_set_failed: "ctx_inv s \<Longrightarrow> ctx_inv (set_failed e s)"
proof -
  assume inv: "ctx_inv s"
  let ?s = "s\<lparr>completion_status := Some FAILED\<rparr>"
  have eq: "s\<lparr>ctx_complete := True, pending_actions := [], completion_status := Some FAILED\<rparr> =
      ?s\<lparr>ctx_complete := True, pending_actions := []\<rparr>" by simp
  have inv': "ctx_inv ?s" using inv by simp
  show ?thesis
    unfolding set_failed_def Let_def eq case_prod_beta
    by (auto simp: inv ctx_inv_next(2) intro!: ctx_inv_completion_action [OF inv'])
qed

lemma ctx_inv_set_version_not_registered: "ctx_inv s \<Longrightarrow> ctx_inv (set_version_not_registered s)"
  by (auto simp: set_version_not_registered_def Let_def case_prod_beta ctx_inv_next(2) intro!: ctx_inv_new_action)

lemma ctx_inv_continue: "ctx_inv s \<Longrightarrow> ctx_inv (continue_as_new v save s)"
  by (auto simp: continue_as_new_def set_continued_as_new_def ctx_inv_def ids_ok_def ends_once_def)

lemma ctx_inv_drop:
  assumes inv: "ctx_inv s"
  shows "ctx_inv (snd (drop_optional_pending_at i s))"
proof (cases "dict_get (pending_actions s) i")
  case None
  with inv show ?thesis by (simp add: drop_optional_pending_at_def)
next
  case (Some a)
  let ?as = "dict_del i (pending_actions s)" and ?pt = "dict_del i (pending_tasks s)"
  have ids: "ids_ok (ctx_complete s) (sequence_number s) (pending_actions s) (pending_tasks s)"
    and refs: "refs_ok (tasks s) (pending_tasks s) (pending_events s)"
    using inv by (simp_all add: ctx_inv_def)
  have i: "0 < i" "i \<le> sequence_number s" using ids Some by (auto simp: ids_ok_def)
  have wf: "dict_wf ?as" "dict_wf ?pt" using ids by (simp_all add: ids_ok_def)
  have fresh: "i \<notin> set (dict_keys ?as)" "i \<notin> set (dict_keys ?pt)" unfolding dict_keys_del by simp_all
  note get = shift_above_get [OF wf(1) fresh(1)] shift_above_get [OF wf(2) fresh(2)]
  have "ids_ok (ctx_complete s) (sequence_number s - 1) (shift_above (\<lambda>a k. a\<lparr>act_id := k\<rparr>) i ?as) (shift_above (\<lambda>t k. t) i ?pt)"
    unfolding ids_ok_def get
  proof (intro conjI allI impI)
    show "0 \<le> sequence_number s - 1" using i by simp
    show "dict_wf (shift_above (\<lambda>a k. a\<lparr>act_id := k\<rparr>) i ?as)" "dict_wf (shift_above (\<lambda>t k. t) i ?pt)"
      by (simp_all add: shift_above_wf wf)
    have renum: "is_complete_action (b\<lparr>act_id := k\<rparr>) = is_complete_action b" for b k
      by (simp add: is_complete_action_def)
    have "ends_once (ctx_complete s) (pending_actions s)" using ids by (simp add: ids_ok_def)
    then show "ends_once (ctx_complete s) (shift_above (\<lambda>a k. a\<lparr>act_id := k\<rparr>) i ?as)"
      unfolding ends_once_def get
      by (fastforce simp: dict_get_del renum split: if_splits)
  qed (use ids i in \<open>fastforce simp: ids_ok_def dict_get_del split: if_splits\<close>)+
  moreover have "refs_ok (tasks s) (shift_above (\<lambda>t k. t) i ?pt) (pending_events s)"
    using refs unfolding refs_ok_def get by (fastforce simp: dict_get_del split: if_splits)
  ultimately show ?thesis
    using inv Some by (simp add: drop_optional_pending_at_def ctx_inv_def)
qed

lemma ctx_inv_del_action: "ctx_inv s \<Longrightarrow> ctx_inv (s\<lparr>pending_actions := dict_del i (pending_actions s)\<rparr>)"
  by (auto simp: ctx_inv_def ids_ok_def ends_once_def dict_get_del)

lemma ctx_inv_pop_task: "ctx_inv s \<Longrightarrow> ctx_inv (s\<lparr>pending_tasks := dict_del i (pending_tasks s)\<rparr>)"
  by (auto simp: ctx_inv_def ids_ok_def refs_ok_def dict_get_del)

lemma ctx_inv_retry_link:
  assumes "ctx_inv s" and "t < length (tasks s)" and "r < length (tasks s)" "is_retryable (t_class (task_at s r))"
  shows "ctx_inv (upd_task t (\<lambda>x. x\<lparr>t_retryable_parent := Some r\<rparr>) s)"
proof -
  let ?x = "(task_at s t)\<lparr>t_retryable_parent := Some r\<rparr>"
  have cl: "t_class ((tasks s)[t := ?x] ! i) = t_class (task_at s i)" for i
    using assms(2) by (cases "i = t") simp_all
  have "tasks_inv {} ((tasks s)[t := ?x])"
    by (rule plain_update_inv) (use assms in \<open>simp_all add: ctx_inv_def outlook_def\<close>)
  moreover have "retry_ok ((tasks s)[t := ?x])"
    using assms unfolding retry_ok_def cl
    by (auto simp: ctx_inv_def retry_ok_def nth_list_update split: if_splits)
  moreover have "refs_ok ((tasks s)[t := ?x]) (pending_tasks s) (pending_events s)"
    using assms(1) by (simp add: ctx_inv_def refs_ok_def plain_def cl)
  ultimately show ?thesis using assms(1) by (simp add: ctx_inv_def upd_task_def)
qed

lemma alloc_frame:
  "fst (alloc k s) = length (tasks s)" "length (tasks (snd (alloc k s))) = Suc (length (tasks s))"
  "sequence_number (snd (alloc k c)) = sequence_number c"
  "r < length (tasks s) \<Longrightarrow> task_at (snd (alloc k s)) r = task_at s r"
  by (simp_all add: alloc_def nth_append)

lemma ctx_inv_create_timer:
  assumes inv: "ctx_inv s"
    and r: "\<And>q. r = Some q \<Longrightarrow> q < length (tasks s) \<and> is_retryable (t_class (task_at s q))"
  shows "ctx_inv (snd (create_timer_internal f r og s))"
    and "fst (create_timer_internal f r og s) = Inr t \<Longrightarrow>
      t < length (tasks (snd (create_timer_internal f r og s)))"
proof -
  let ?i = "sequence_number s + 1" and ?s1 = "s\<lparr>sequence_number := sequence_number s + 1\<rparr>"
  note nx = next_sequence_number_eq [of s]
  have inv1: "ctx_inv ?s1" using ctx_inv_next(1) [OF inv] nx by simp
  have "ctx_inv (snd (create_timer_internal f r og s)) \<and>
    (fst (create_timer_internal f r og s) = Inr t \<longrightarrow> t < length (tasks (snd (create_timer_internal f r og s))))"
  proof (cases "fire_point_of (current_utc_datetime ?s1) f")
    case (Inl e)
    with inv1 nx show ?thesis by (simp add: create_timer_internal_def)
  next
    case (Inr fp)
    let ?s2 = "add_action (new_create_timer_action ?i fp og) ?s1"
    let ?t = "fst (alloc Timer ?s2)" and ?s3 = "snd (alloc Timer ?s2)"
    have ts: "tasks ?s2 = tasks s" by (simp add: add_action_def ctx_inv_next)
    have inv2: "ctx_inv ?s2" using ctx_inv_new_action [OF inv] nx by simp
    have inv3: "ctx_inv ?s3" and pl: "plain (tasks ?s3) ?t"
      using ctx_inv_alloc [OF inv2, of Timer] by simp_all
    have seq3: "sequence_number ?s3 = ?i" by (simp add: alloc_frame add_action_def ctx_inv_next)
    define s4 where "s4 = (case r of None \<Rightarrow> ?s3 | Some q \<Rightarrow> upd_task ?t (\<lambda>x. x\<lparr>t_retryable_parent := Some q\<rparr>) ?s3)"
    have inv4: "ctx_inv s4"
    proof (cases r)
      case None
      with inv3 show ?thesis by (simp add: s4_def)
    next
      case (Some q)
      have "ctx_inv (upd_task ?t (\<lambda>x. x\<lparr>t_retryable_parent := Some q\<rparr>) ?s3)"
        by (rule ctx_inv_retry_link [OF inv3]) (use r [OF Some] ts in \<open>simp_all add: alloc_frame\<close>)
      with Some show ?thesis by (simp add: s4_def)
    qed
    have pl4: "plain (tasks s4) ?t" and seq4: "sequence_number s4 = ?i"
      using pl seq3 by (auto simp: s4_def plain_def upd_task_def split: option.split)
    have "create_timer_internal f r og s = (Inr ?t, add_task ?i ?t s4)"
      using nx Inr by (simp add: create_timer_internal_def s4_def case_prod_beta)
    moreover have "ctx_inv (add_task ?i ?t s4)"
      by (rule ctx_inv_add_task [OF inv4 _ _ pl4]) (use seq4 ctx_inv_seq [OF inv] in simp_all)
    moreover have "?t < length (tasks (add_task ?i ?t s4))" using pl4 by (simp add: add_task_def plain_def)
    ultimately show ?thesis by auto
  qed
  then show "ctx_inv (snd (create_timer_internal f r og s))"
    and "fst (create_timer_internal f r og s) = Inr t \<Longrightarrow>
      t < length (tasks (snd (create_timer_internal f r og s)))" by simp_all
qed

lemma timer_grows: "length (tasks s) \<le> length (tasks (snd (create_timer_internal f r og s)))"
proof -
  have "length (tasks (upd_task t g c)) = length (tasks c)" for t g and c :: ctx by simp
  then show ?thesis
    by (auto simp: create_timer_internal_def next_sequence_number_eq alloc_def add_task_def add_action_def
        split: sum.split option.split)
qed

lemma call_action_id:
  "call_action i fn inp sub inst app x sc s = Inr (n, a) \<Longrightarrow> act_id a = i \<and> \<not> is_complete_action a"
  by (auto simp: call_action_def res_bind_def split: if_splits sum.splits fn_ref.splits)

definition spec_ok :: "task list \<Rightarrow> call_spec \<Rightarrow> bool" where
  "spec_ok ts spec = (case spec of NewCall v rp \<Rightarrow> True | RetryCall t enc \<Rightarrow> plain ts t)"

lemma ctx_inv_helper_at:
  assumes inv: "ctx_inv s" and i: "0 < i" "i \<le> sequence_number s" and spec: "spec_ok (tasks s) spec"
  shows "ctx_inv (snd (call_activity_function_helper (Some i) fn spec sub inst app x sc s))"
proof -
  define enc where "enc = (case spec of NewCall v rp \<Rightarrow> encode_result False v | RetryCall t e \<Rightarrow> Inr e)"
  show ?thesis
  proof (cases enc)
    case (Inl e)
    with inv show ?thesis by (simp add: call_activity_function_helper_def enc_def [symmetric])
  next
    case (Inr inp)
    show ?thesis
    proof (cases "call_action i fn inp sub inst app x sc s")
      case (Inl e)
      with inv \<open>enc = Inr inp\<close> show ?thesis
        by (simp add: call_activity_function_helper_def enc_def [symmetric])
    next
      case act: (Inr na)
      obtain n a where na: "na = (n, a)" by (cases na)
      have aid: "act_id a = i \<and> \<not> is_complete_action a" by (rule call_action_id) (use act na in simp)
      let ?s1 = "add_action a s"
      have inv1: "ctx_inv ?s1" by (rule ctx_inv_add_action [OF inv]) (use aid i in simp_all)
      have ts: "tasks ?s1 = tasks s" "sequence_number ?s1 = sequence_number s" by (simp_all add: add_action_def)
      have add: "ctx_inv (add_task i (fst (alloc k ?s1)) (snd (alloc k ?s1)))" if "\<not> is_composite k" for k
        by (rule ctx_inv_add_task [OF ctx_inv_alloc(1) [OF inv1 that] i(1) _ ctx_inv_alloc(2) [OF inv1 that]])
          (use i ts in \<open>simp add: alloc_frame\<close>)
      show ?thesis
      proof (cases spec)
        case (NewCall v rp)
        with \<open>enc = Inr inp\<close> act na add show ?thesis
          by (cases rp) (simp_all add: call_activity_function_helper_def enc_def case_prod_beta Let_def)
      next
        case (RetryCall t e)
        have "ctx_inv (add_task i t ?s1)"
          by (rule ctx_inv_add_task [OF inv1]) (use i ts spec RetryCall in \<open>simp_all add: spec_ok_def\<close>)
        with RetryCall \<open>enc = Inr inp\<close> act na show ?thesis
          by (simp add: call_activity_function_helper_def enc_def Let_def)
      qed
    qed
  qed
qed

lemma helper_None:
  "call_activity_function_helper None fn spec sub inst app x sc s =
     call_activity_function_helper (Some (sequence_number s + 1)) fn spec sub inst app x sc
       (s\<lparr>sequence_number := sequence_number s + 1\<rparr>)"
  by (simp add: call_activity_function_helper_def next_sequence_number_eq)

lemma ctx_inv_bump: "ctx_inv s \<Longrightarrow> ctx_inv (s\<lparr>sequence_number := sequence_number s + 1\<rparr>)"
  using ctx_inv_next(1) [of s] by (simp add: next_sequence_number_eq)

lemma ctx_inv_helper_new:
  assumes "ctx_inv s" and "spec_ok (tasks s) spec"
  shows "ctx_inv (snd (call_activity_function_helper None fn spec sub inst app x sc s))"
  unfolding helper_None
  by (rule ctx_inv_helper_at [OF ctx_inv_bump [OF assms(1)]])
    (use ctx_inv_seq [OF assms(1)] assms(2) in simp_all)

lemma ctx_inv_call_activity: "ctx_inv s \<Longrightarrow> ctx_inv (snd (call_activity u5 fn v rp app sc s))"
  unfolding call_activity_def next_sequence_number_eq uuid4_def
  using ctx_inv_seq [of s] by (auto intro!: ctx_inv_helper_at ctx_inv_bump simp: spec_ok_def)

lemma ctx_inv_call_sub: "ctx_inv s \<Longrightarrow> ctx_inv (snd (call_sub_orchestrator fn v inst rp app sc s))"
  unfolding call_sub_orchestrator_def next_sequence_number_eq
  using ctx_inv_seq [of s] by (auto intro!: ctx_inv_helper_at ctx_inv_bump simp: spec_ok_def split: sum.split)

lemma ctx_inv_received:
  "ctx_inv s \<Longrightarrow> ctx_inv (s\<lparr>received_events := dict_set k vs (received_events s)\<rparr>)"
  "ctx_inv s \<Longrightarrow> ctx_inv (s\<lparr>received_events := dict_del k (received_events s)\<rparr>)"
  by (simp_all add: ctx_inv_def)

lemma ctx_inv_waiters:
  "ctx_inv s \<Longrightarrow> \<forall>t \<in> set ws. plain (tasks s) t \<Longrightarrow>
     ctx_inv (s\<lparr>pending_events := dict_set k ws (pending_events s)\<rparr>)"
  "ctx_inv s \<Longrightarrow> ctx_inv (s\<lparr>pending_events := dict_del k (pending_events s)\<rparr>)"
  by (auto simp: ctx_inv_def refs_ok_def dict_get_set dict_get_del)

lemma ctx_inv_waiters_plain:
  "ctx_inv s \<Longrightarrow> dict_get (pending_events s) k = Some ws \<Longrightarrow> t \<in> set ws \<Longrightarrow> plain (tasks s) t"
  by (auto simp: ctx_inv_def refs_ok_def)

lemma ctx_inv_unregister: "ctx_inv s \<Longrightarrow> ctx_inv (unregister_event_task key t s)"
  by (rule ctx_inv_store [of s]) (simp_all add: ctx_inv_def)

lemma ctx_inv_take_or_wait:
  assumes "ctx_inv s" and "plain (tasks s) t"
  shows "ctx_inv (snd (take_or_wait key t s))"
    and "plain (tasks (snd (take_or_wait key t s))) t"
proof -
  have "ctx_inv (snd (take_or_wait key t s)) \<and> plain (tasks (snd (take_or_wait key t s))) t"
  proof (cases "take_buffered key s")
    case (Some vs)
    obtain v s1 where vs: "vs = (v, s1)" by (cases vs)
    have inv1: "ctx_inv s1" and pl1: "plain (tasks s1) t"
      using assms Some vs by (auto simp: take_buffered_def ctx_inv_received split: list.splits if_splits)
    have "take_or_wait key t s = task_complete t v s1" using Some vs by (simp add: take_or_wait_def)
    moreover have "plain (tasks (snd (task_complete t v s1))) t"
      by (rule evolves_plain [OF completion_evolves(1) pl1]) (use inv1 pl1 in \<open>simp_all add: ctx_inv_def plain_def\<close>)
    ultimately show ?thesis using ctx_inv_completion(1) [OF inv1 pl1] by simp
  next
    case None
    then have eq: "take_or_wait key t s = (Inr (), s\<lparr>pending_events :=
        dict_set key ((case dict_get (pending_events s) key of None \<Rightarrow> [] | Some ts \<Rightarrow> ts) @ [t]) (pending_events s)\<rparr>)"
      by (simp add: take_or_wait_def)
    have "ctx_inv (snd (take_or_wait key t s))"
      unfolding eq snd_conv
      by (rule ctx_inv_waiters(1) [OF assms(1)])
        (use assms ctx_inv_waiters_plain [OF assms(1), of key] in
          \<open>cases "dict_get (pending_events s) key"; auto\<close>)
    with assms show ?thesis by (simp add: eq)
  qed
  then show "ctx_inv (snd (take_or_wait key t s))" "plain (tasks (snd (take_or_wait key t s))) t" by simp_all
qed

lemma ctx_inv_wait: 
  assumes inv: "ctx_inv s"
  shows "ctx_inv (snd (wait_for_external_event name timeout s))"
proof -
  let ?key = "casefold name" and ?t = "fst (alloc Completable s)" and ?s1 = "snd (alloc Completable s)"
  have inv1: "ctx_inv ?s1" and pl1: "plain (tasks ?s1) ?t" using ctx_inv_alloc [OF inv, of Completable] by simp_all
  obtain r s2 where s2: "take_or_wait ?key ?t ?s1 = (r, s2)" by fastforce
  have inv2: "ctx_inv s2" and pl2: "plain (tasks s2) ?t" using ctx_inv_take_or_wait [OF inv1 pl1, of ?key] s2 by simp_all
  have eq: "wait_for_external_event name timeout s = op_then (r, s2) (\<lambda>_ s2.
       if is_complete s2 ?t then (Inr ?t, s2)
       else if timeout = Some (FireIn 0) then
         op_then (task_cancel ?t (zero_timeout_error name) (unregister_event_task ?key ?t s2))
           (\<lambda>_ s3. (Inr ?t, s3))
       else
         op_then (create_timer_internal
             (if is_indefinite timeout then FireTs OPTIONAL_TIMER_FIRE_AT else the timeout)
             None (Some (OriginExternalEvent name)) s2)
           (\<lambda>timer s3. external_event_with_timeout ?t timer name (repr_timeout timeout) ?key s3))"
    by (simp add: wait_for_external_event_def case_prod_beta Let_def s2)
  show ?thesis
  proof (cases r)
    case (Inl e)
    with inv2 show ?thesis by (simp add: eq)
  next
    case (Inr u)
    let ?f = "if is_indefinite timeout then FireTs OPTIONAL_TIMER_FIRE_AT else the timeout"
    consider "is_complete s2 ?t" | "\<not> is_complete s2 ?t" "timeout = Some (FireIn 0)"
      | "\<not> is_complete s2 ?t" "timeout \<noteq> Some (FireIn 0)" by blast
    then show ?thesis
    proof cases
      case 1
      with Inr inv2 show ?thesis by (simp add: eq)
    next
      case 2
      have "ctx_inv (snd (task_cancel ?t (zero_timeout_error name) (unregister_event_task ?key ?t s2)))"
        by (rule ctx_inv_completion(3) [OF ctx_inv_unregister [OF inv2]]) (use pl2 in simp)
      moreover have "snd (op_then x (\<lambda>_ s3. (Inr ?t, s3))) = snd x" for x :: "unit res \<times> ctx"
        by (cases x) (auto simp: op_then_def split: sum.split)
      ultimately show ?thesis using 2 Inr unfolding eq by simp
    next
      case 3
      obtain q s3 where s3: "create_timer_internal ?f None (Some (OriginExternalEvent name)) s2 = (q, s3)" by fastforce
      have inv3: "ctx_inv s3" and tm: "\<And>tm. q = Inr tm \<Longrightarrow> tm < length (tasks s3)"
        using ctx_inv_create_timer [OF inv2, of None ?f "Some (OriginExternalEvent name)"] s3 by simp_all
      have len: "?t < length (tasks s3)"
        using timer_grows [of s2 ?f None "Some (OriginExternalEvent name)"] pl2 s3 by (simp add: plain_def)
      have e3: "wait_for_external_event name timeout s = op_then (q, s3)
          (\<lambda>timer s3. external_event_with_timeout ?t timer name (repr_timeout timeout) ?key s3)"
        using 3 Inr s3 by (simp add: eq del: fst_conv)
      show ?thesis
      proof (cases q)
        case (Inl e)
        with inv3 show ?thesis by (simp add: e3)
      next
        case (Inr timer)
        with ctx_inv_event_timeout [OF inv3 len tm] show ?thesis by (simp add: e3)
      qed
    qed
  qed
qed

lemma ctx_inv_returning [simp]: "snd (returning f r) = snd r"
  by (cases r) (auto simp: returning_def split: sum.split)

lemma run_op_inv: "ctx_inv s \<Longrightarrow> ctx_inv (snd (run_op u5 opn s))"
proof (cases opn)
  case (OpWhenAll cs)
  assume "ctx_inv s"
  with OpWhenAll ctx_inv_composites(1) [of s cs] show ?thesis by (auto simp: on_tasks_def)
next
  case (OpWhenAny cs)
  assume "ctx_inv s"
  with OpWhenAny ctx_inv_composites(2) [of s cs] show ?thesis by (auto simp: on_tasks_def)
next
  case (OpSetCustomStatus v)
  assume "ctx_inv s"
  with OpSetCustomStatus show ?thesis by (auto simp: set_custom_status_def split: pyval.split sum.split)
next
  case (OpIsPatched p)
  assume "ctx_inv s"
  with OpIsPatched show ?thesis
    by (auto simp: is_patched_def is_patched_inner_def Let_def split: option.split prod.split)
qed (auto simp: create_timer_def on_tasks_def uuid4_def now_with_sequence_def
      intro: ctx_inv_create_timer(1) ctx_inv_call_activity ctx_inv_call_sub ctx_inv_wait ctx_inv_continue)

end
