(* ===== verification/ExecutorInv.thy ===== *)
theory ExecutorInv
  imports Executor ContextInv
begin

text \<open>
  The context's invariant through the generator protocol, the event handlers and the loops of
  \<open>execute\<close>. Two interfaces carry the induction: a predicate that every call keeps is kept by
  driving a generator, and a predicate that every event keeps is kept by the loops.
\<close>

section \<open>Driving a generator\<close>

text \<open>
  A predicate of the context that every call of an orchestrator keeps, and that the generator's own
  fields do not enter: it survives \<open>run\<close> and \<open>resume\<close>, whatever the orchestrator does.
\<close>

locale driven =
  fixes P :: "ctx \<Rightarrow> bool" and u5 :: "string \<Rightarrow> string"
  assumes op_keeps: "P s \<Longrightarrow> P (snd (run_op u5 opn s))"
    and generator_keeps: "P s \<Longrightarrow> P (s\<lparr>generator := g\<rparr>)"
    and previous_keeps: "P s \<Longrightarrow> P (s\<lparr>previous_task := v\<rparr>)"
begin

lemma drive_keeps': "drive u g s = Some y \<Longrightarrow> u = u5 \<Longrightarrow> P s \<Longrightarrow> P (snd y)"
proof (induct u g s y rule: drive.raw_induct [rotated, consumes 1])
  case (1 drive' u g s y)
  show ?case
  proof (cases g)
    case (GCall opn k)
    with 1(2) have "drive' u (k (fst (run_op u opn s))) (snd (run_op u opn s)) = Some y"
      by (simp add: case_prod_beta)
    then show ?thesis by (rule 1(1)) (use "1.prems" op_keeps in simp_all)
  qed (use 1(2) "1.prems" in auto)
qed

lemma drive_keeps: "drive u5 g s = Some (oc, s') \<Longrightarrow> P s \<Longrightarrow> P s'"
  using drive_keeps' by fastforce

lemma resume_with_keeps: "resume_with u5 r s = Some (oc, s') \<Longrightarrow> P s \<Longrightarrow> P s'"
  by (auto simp: resume_with_def split: gen_state.splits intro: drive_keeps)

lemma resume_loop_keeps': "resume_loop u s = Some y \<Longrightarrow> u = u5 \<Longrightarrow> P s \<Longrightarrow> P (snd y)"
proof (induct u s y rule: resume_loop.raw_induct [rotated, consumes 1])
  case (1 loop u s y)
  note eq = 1(2)
  have u: "u = u5" and s: "P s" using "1.prems" by simp_all
  show ?case
  proof (cases "previous_complete s = Inr True")
    case False
    with eq s show ?thesis by (auto split: sum.splits if_splits)
  next
    case pc: True
    with eq obtain oc s1 where r: "resume_with u (previous_outcome s) s = Some (oc, s1)"
      by (auto simp: bind_eq_Some_conv)
    have s1: "P s1" using resume_with_keeps r u s by blast
    show ?thesis
    proof (cases oc)
      case (Yielded v k)
      show ?thesis
      proof (cases "is_task s1 v")
        case True
        with eq r Yielded pc
        have "loop u (s1\<lparr>generator := SuspendedGen k, previous_task := v\<rparr>) = Some y" by simp
        then show ?thesis by (rule 1(1)) (use u s1 in \<open>simp_all add: generator_keeps previous_keeps\<close>)
      next
        case False
        with eq r Yielded pc s1 show ?thesis by (auto simp: generator_keeps)
      qed
    qed (use eq r pc s1 in \<open>auto simp: generator_keeps\<close>)
  qed
qed

lemma resume_loop_keeps: "resume_loop u5 s = Some (f, s') \<Longrightarrow> P s \<Longrightarrow> P s'"
  using resume_loop_keeps' by fastforce

lemma resume_keeps: "resume u5 s = Some (f, s') \<Longrightarrow> P s \<Longrightarrow> P s'"
  by (auto simp: resume_def split: gen_state.splits intro: resume_loop_keeps)

lemma run_keeps:
  assumes "run u5 g s = Some (f, s')" and "P s"
  shows "P s'"
proof -
  obtain oc s1 where d: "drive u5 g s = Some (oc, s1)"
    using assms(1) by (auto simp: run_def bind_eq_Some_conv)
  have s1: "P s1" by (rule drive_keeps [OF d assms(2)])
  show ?thesis
  proof (cases oc)
    case (Yielded v k)
    let ?s2 = "s1\<lparr>generator := SuspendedGen k, previous_task := v\<rparr>"
    have s2: "P ?s2" by (simp add: s1 generator_keeps previous_keeps)
    from assms(1) d Yielded have "(case previous_complete ?s2 of Inl e \<Rightarrow> Some (Raise e, ?s2)
        | Inr False \<Rightarrow> Some (Continue, ?s2) | Inr True \<Rightarrow> resume u5 ?s2) = Some (f, s')"
      by (simp add: run_def Let_def)
    with s2 show ?thesis by (auto split: sum.splits bool.splits intro: resume_keeps)
  qed (use assms(1) d s1 in \<open>auto simp: run_def generator_keeps\<close>)
qed

end

interpretation ctx_driven: driven ctx_inv u5 for u5
  by unfold_locales (simp_all add: run_op_inv)

section \<open>The handlers\<close>

lemma ctx_inv_take_action:
  assumes "ctx_inv s"
  shows "ctx_inv (snd (take_action i s))"
proof -
  have "ctx_inv (case dict_get (pending_actions s) i of
      Some a \<Rightarrow> if is_optional_timer_action a then snd (drop_optional_pending_at i s) else s
    | None \<Rightarrow> s)"
    using assms by (auto simp: ctx_inv_drop split: option.split)
  then show ?thesis by (simp add: take_action_def Let_def ctx_inv_del_action)
qed

lemma ctx_inv_done_with: "done_with r = Some (f, s') \<Longrightarrow> ctx_inv (snd r) \<Longrightarrow> ctx_inv s'"
  by (cases r) (auto simp: done_with_def split: sum.splits)

lemma ctx_inv_then_resume: "then_resume u5 r = Some (f, s') \<Longrightarrow> ctx_inv (snd r) \<Longrightarrow> ctx_inv s'"
  by (cases r) (auto simp: then_resume_def split: sum.splits intro: ctx_driven.resume_keeps)

lemma ctx_inv_popped:
  assumes "ctx_inv s" and "pop_task i s = (t, s1)"
  shows "ctx_inv s1" and "t = Some u \<Longrightarrow> plain (tasks s1) u"
  using assms by (auto simp: pop_task_def ctx_inv_pop_task) (auto simp: ctx_inv_def refs_ok_def)

lemma ctx_inv_timer_created:
  assumes "ctx_inv s" and "handle_timer_created ev s = Some (f, s')"
  shows "ctx_inv s'"
proof -
  define s1 where "s1 = (case dict_get (pending_actions s) (eventId ev) of
      Some a \<Rightarrow> if is_optional_timer_action a \<and> \<not> is_optional_timer_event ev
                then snd (drop_optional_pending_at (eventId ev) s) else s
    | None \<Rightarrow> s)"
  have "ctx_inv s1" using assms(1) by (auto simp: s1_def ctx_inv_drop split: option.split)
  with assms(2) show ?thesis
    unfolding handle_timer_created_def Let_def s1_def [symmetric]
    by (auto simp: ctx_inv_del_action split: option.splits if_splits action_body.splits)
qed

lemma ctx_inv_reschedule:
  assumes "ctx_inv s" and "plain (tasks s) r"
  shows "ctx_inv (snd (reschedule r s))"
  using assms by (auto simp: reschedule_def spec_ok_def split: task_class.split intro!: ctx_inv_helper_new)

lemma ctx_inv_timer_fired:
  assumes inv: "ctx_inv s" and h: "handle_timer_fired u5 i s = Some (f, s')"
  shows "ctx_inv s'"
proof -
  obtain ot s1 where p: "pop_task i s = (ot, s1)" by fastforce
  have inv1: "ctx_inv s1" by (rule ctx_inv_popped(1) [OF inv p])
  show ?thesis
  proof (cases ot)
    case None
    with h p inv1 show ?thesis by (simp add: handle_timer_fired_def)
  next
    case (Some t)
    have pl: "plain (tasks s1) t" by (rule ctx_inv_popped(2) [OF inv p Some])
    obtain r s2 where c: "task_complete t PNone s1 = (r, s2)" by fastforce
    have inv2: "ctx_inv s2" and ev: "evolves (tasks s1) (tasks s2)"
      using ctx_inv_completion(1) [OF inv1 pl, of PNone] completion_evolves(1) [of s1 t PNone] inv1 pl c
      by (simp_all add: ctx_inv_def plain_def)
    have pl2: "plain (tasks s2) t" by (rule evolves_plain [OF ev pl])
    show ?thesis
    proof (cases r)
      case (Inl e)
      with h p Some c inv2 show ?thesis by (simp add: handle_timer_fired_def)
    next
      case (Inr u)
      show ?thesis
      proof (cases "t_retryable_parent (task_at s2 t)")
        case None
        with h p Some c Inr inv2 show ?thesis
          by (auto simp: handle_timer_fired_def intro: ctx_driven.resume_keeps)
      next
        case rp: (Some q)
        have "q < length (tasks s2)" "is_retryable (t_class (task_at s2 q))"
          using inv2 pl2 rp by (auto simp: ctx_inv_def retry_ok_def plain_def)
        then have "plain (tasks s2) q" by (cases "t_class (task_at s2 q)") (simp_all add: plain_def)
        with h p Some c Inr inv2 rp show ?thesis
          by (auto simp: handle_timer_fired_def intro: ctx_inv_done_with ctx_inv_reschedule)
      qed
    qed
  qed
qed

lemma ctx_inv_attempt:
  assumes inv: "ctx_inv s" and t: "plain (tasks s) t" "t_class (task_at s t) = Retryable ri"
  shows "ctx_inv (snd (attempt_again t ri d og s))"
proof -
  let ?x = "(task_at s t)\<lparr>t_class := Retryable (ri\<lparr>ri_attempt_count := Suc (ri_attempt_count ri)\<rparr>)\<rparr>"
  let ?s = "upd_task t (\<lambda>x. x\<lparr>t_class := Retryable (ri\<lparr>ri_attempt_count := Suc (ri_attempt_count ri)\<rparr>)\<rparr>) s"
  have tl: "t < length (tasks s)" using t(1) by (simp add: plain_def)
  have "ctx_inv ?s"
  proof (rule ctx_inv_store [OF inv])
    show "tasks_inv {} (tasks ?s)"
      using plain_update_inv [of s t ?x] inv t tl by (simp add: ctx_inv_def outlook_def)
    show "evolves (tasks s) (tasks ?s)" using t tl by (auto simp: evolves_def nth_list_update)
  qed simp
  then show ?thesis
    unfolding attempt_again_def by (rule ctx_inv_create_timer(1)) (use tl in simp)
qed

lemma ctx_inv_failed:
  assumes inv: "ctx_inv s" and h: "handle_failed u5 msg og bad i d s = Some (f, s')"
  shows "ctx_inv s'"
proof -
  obtain ot s1 where p: "pop_task i s = (ot, s1)" by fastforce
  have inv1: "ctx_inv s1" by (rule ctx_inv_popped(1) [OF inv p])
  show ?thesis
  proof (cases ot)
    case None
    with h p inv1 show ?thesis by (simp add: handle_failed_def)
  next
    case (Some t)
    have pl: "plain (tasks s1) t" by (rule ctx_inv_popped(2) [OF inv p Some])
    have fl: "ctx_inv (snd (task_fail t msg d s1))" by (rule ctx_inv_completion(2) [OF inv1 pl])
    show ?thesis
    proof (cases "t_class (task_at s1 t)")
      case (Retryable ri)
      have at: "ctx_inv (snd (attempt_again t ri dl og s1))" for dl by (rule ctx_inv_attempt [OF inv1 pl Retryable])
      from h p Some Retryable inv1 fl at show ?thesis
        by (auto simp: handle_failed_def split: if_splits sum.splits option.splits
            intro: ctx_inv_then_resume ctx_inv_done_with)
    qed (use h p Some inv1 fl in \<open>auto simp: handle_failed_def intro: ctx_inv_then_resume\<close>)
  qed
qed

lemma ctx_inv_completed:
  assumes inv: "ctx_inv s" and h: "handle_completed u5 i r s = Some (f, s')"
  shows "ctx_inv s'"
proof -
  obtain ot s1 where p: "pop_task i s = (ot, s1)" by fastforce
  have inv1: "ctx_inv s1" by (rule ctx_inv_popped(1) [OF inv p])
  show ?thesis
  proof (cases ot)
    case None
    with h p inv1 show ?thesis by (simp add: handle_completed_def)
  next
    case (Some t)
    have pl: "plain (tasks s1) t" by (rule ctx_inv_popped(2) [OF inv p Some])
    from h p Some inv1 ctx_inv_completion(1) [OF inv1 pl] show ?thesis
      by (auto simp: handle_completed_def split: sum.splits intro: ctx_inv_then_resume)
  qed
qed

lemma ctx_inv_event_raised:
  assumes inv: "ctx_inv s" and h: "handle_event_raised u5 name inp s = Some (f, s')"
  shows "ctx_inv s'"
proof (cases "\<exists>t ts. dict_get (pending_events s) (casefold name) = Some (t # ts)")
  case True
  let ?key = "casefold name"
  from True obtain t ts where w: "dict_get (pending_events s) ?key = Some (t # ts)" by blast
  let ?s1 = "s\<lparr>pending_events := dict_set ?key ts (pending_events s)\<rparr>"
  have pl: "plain (tasks s) x" if "x \<in> set (t # ts)" for x
    by (rule ctx_inv_waiters_plain [OF inv w that])
  have inv1: "ctx_inv ?s1" by (rule ctx_inv_waiters(1) [OF inv]) (use pl in simp)
  have pl1: "plain (tasks ?s1) t" using pl by simp
  have c: "ctx_inv (snd (task_complete t v ?s1))" for v by (rule ctx_inv_completion(1) [OF inv1 pl1])
  show ?thesis
  proof (cases "decode_payload inp")
    case (Inl e)
    with h w inv1 show ?thesis by (simp add: handle_event_raised_def Let_def)
  next
    case (Inr v)
    obtain r s2 where s2: "task_complete t v ?s1 = (r, s2)" by fastforce
    have inv2: "ctx_inv s2" using c [of v] s2 by simp
    with h w Inr s2 show ?thesis
      by (auto simp: handle_event_raised_def Let_def ctx_inv_waiters(2) split: sum.splits if_splits
          intro: ctx_driven.resume_keeps)
  qed
next
  case False
  then have "handle_event_raised u5 name inp s =
     (let key = casefold name; s1 = s\<lparr>received_events := dict_set key (buffered key s) (received_events s)\<rparr>
      in case decode_payload inp of
           Inl e \<Rightarrow> Some (Raise e, s1)
         | Inr v \<Rightarrow> Some (Continue, buffer_value key v s1))"
    by (auto simp: handle_event_raised_def Let_def split: option.splits list.splits)
  with h inv show ?thesis by (auto simp: Let_def buffer_value_def ctx_inv_def split: sum.splits)
qed

lemma ctx_inv_start_orchestrator:
  assumes inv: "ctx_inv s" and h: "start_orchestrator u5 fn v s = Some (f, s')"
  shows "ctx_inv s'"
proof (cases fn)
  case (GenOrch g)
  with inv h show ?thesis by (auto simp: start_orchestrator_def intro: ctx_driven.run_keeps)
next
  case (PlainOrch g)
  with h obtain oc s1 where d: "drive u5 (g v) s = Some (oc, s1)"
    by (auto simp: start_orchestrator_def bind_eq_Some_conv)
  have inv1: "ctx_inv s1" by (rule ctx_driven.drive_keeps [OF d inv])
  show ?thesis
  proof (cases oc)
    case (Returned r)
    with h d PlainOrch have "done_with (set_complete r COMPLETED False s1) = Some (f, s')"
      by (simp add: start_orchestrator_def)
    then show ?thesis by (rule ctx_inv_done_with) (rule ctx_inv_set_complete [OF inv1])
  qed (use h d PlainOrch inv1 in \<open>auto simp: start_orchestrator_def\<close>)
qed

lemma ctx_inv_started:
  assumes inv: "ctx_inv s" and h: "handle_execution_started u5 reg rt name inp s = Some (f, s')"
  shows "ctx_inv s'"
  using h inv
  by (auto simp: handle_execution_started_def Let_def split: sum.splits option.splits prod.splits
      intro: ctx_inv_start_orchestrator [rotated])

lemma ctx_inv_handle_event:
  assumes "ctx_inv s" and "handle_event u5 reg ev s = Some (f, s')"
  shows "ctx_inv s'"
proof -
  have ta: "ctx_inv s1" if "take_action i s = (oa, s1)" for i oa s1
    using ctx_inv_take_action [OF assms(1), of i] that by simp
  show ?thesis
  proof (cases "ev_body ev")
    case (WorkflowStarted n ps)
    with assms show ?thesis by (auto simp: handle_event_def handle_workflow_started_def Let_def)
  next
    case (ExecutionStarted n inp inst)
    with assms show ?thesis by (auto simp: handle_event_def intro: ctx_inv_started)
  next
    case (TimerCreated ts og)
    with assms show ?thesis by (auto simp: handle_event_def intro: ctx_inv_timer_created)
  next
    case (TaskScheduled n inp)
    with assms ta show ?thesis
      by (auto simp: handle_event_def handle_task_scheduled_def split: prod.splits option.splits action_body.splits if_splits)
  next
    case (ChildWorkflowInstanceCreated n inp inst)
    with assms ta show ?thesis
      by (auto simp: handle_event_def handle_child_created_def split: prod.splits option.splits action_body.splits if_splits)
  next
    case (ExecutionTerminated out)
    with assms show ?thesis
      by (auto simp: handle_event_def handle_terminated_def intro: ctx_inv_done_with ctx_inv_set_complete)
  qed (use assms in \<open>auto simp: handle_event_def handle_task_failed_def handle_child_failed_def
        intro: ctx_inv_timer_fired ctx_inv_completed ctx_inv_failed ctx_inv_event_raised\<close>)
qed

section \<open>The event loop\<close>

text \<open>A predicate that every event keeps survives the whole loop, resumptions included.\<close>

locale evented =
  fixes P :: "ctx \<Rightarrow> bool" and u5 :: "string \<Rightarrow> string" and reg :: "(orchestrator, 'a) registry"
  assumes event_keeps: "P s \<Longrightarrow> handle_event u5 reg ev s = Some (f, s') \<Longrightarrow> P s'"
    and stop_keeps: "P s \<Longrightarrow> P (snd (set_complete v COMPLETED False s))"
begin

lemma catch_stop_keeps: "P s \<Longrightarrow> P (snd (catch_stop f s))"
  by (cases f) (simp_all add: catch_stop_def stop_keeps)

lemma process_keeps': "process h w sx = Some y \<Longrightarrow> h = handle_event u5 reg \<Longrightarrow> P (fst sx) \<Longrightarrow> P (fst (snd y))"
proof (induct h w sx y rule: process.raw_induct [rotated, consumes 1])
  case (1 proc h w sx y)
  obtain s x where sx: "sx = (s, x)" by (cases sx)
  have h: "h = handle_event u5 reg" and s: "P s" using "1.prems" sx by simp_all
  note IH = 1(1) and eq = 1(2) [unfolded sx fst_conv snd_conv]
  show ?case
  proof (cases w)
    case (Inl ev)
    consider "is_suspended x" "is_suspendable ev"
      | "is_suspended x" "\<not> is_suspendable ev" "ev_body ev = ExecutionResumed"
      | "\<not> (is_suspended x \<and> (is_suspendable ev \<or> ev_body ev = ExecutionResumed))" by blast
    then show ?thesis
    proof cases
      case 1
      with eq Inl s show ?thesis by auto
    next
      case 2
      with eq Inl have "proc h (Inr 0) (s, x\<lparr>is_suspended := False\<rparr>) = Some y" by simp
      then show ?thesis by (rule IH) (use h s in simp_all)
    next
      case 3
      with eq Inl obtain f s1 where k: "h ev s = Some (f, s1)" and y: "fst (snd y) = snd (catch_stop f s1)"
        by (auto simp: bind_eq_Some_conv)
      have "P s1" by (rule event_keeps [OF s]) (use k h in simp)
      then show ?thesis using y catch_stop_keeps by simp
    qed
  next
    case (Inr i)
    show ?thesis
    proof (cases "i < length (suspended_events x)")
      case False
      with eq Inr s show ?thesis by auto
    next
      case True
      with eq Inr obtain q sx1 where p1: "proc h (Inl (suspended_events x ! i)) (s, x) = Some (q, sx1)"
        by (auto simp: bind_eq_Some_conv)
      have s1: "P (fst sx1)" using IH [OF p1] h s by simp
      show ?thesis
      proof (cases q)
        case (Inl e)
        with eq Inr True p1 s1 show ?thesis by auto
      next
        case (Inr z)
        with eq \<open>w = Inr i\<close> True p1 have "proc h (Inr (Suc i)) sx1 = Some y" by simp
        then show ?thesis by (rule IH) (use h s1 in simp_all)
      qed
    qed
  qed
qed

lemma process_event_keeps: "process_event u5 reg ev s x = Some (r, s', x') \<Longrightarrow> P s \<Longrightarrow> P s'"
  unfolding process_event_def using process_keeps' [of "handle_event u5 reg" "Inl ev" "(s, x)" "(r, s', x')"] by simp

lemma process_events_keeps: "process_events u5 reg evs s x = Some (r, s', x') \<Longrightarrow> P s \<Longrightarrow> P s'"
proof (induction evs arbitrary: s x)
  case (Cons ev evs)
  from Cons.prems(1) obtain q s1 x1 where p: "process_event u5 reg ev s x = Some (q, s1, x1)"
    by (auto simp: bind_eq_Some_conv)
  have s1: "P s1" by (rule process_event_keeps [OF p Cons.prems(2)])
  show ?case
  proof (cases q)
    case (Inl e)
    with Cons.prems(1) p s1 show ?thesis by auto
  next
    case (Inr z)
    with Cons.prems(1) p have "process_events u5 reg evs s1 x1 = Some (r, s', x')" by simp
    then show ?thesis by (rule Cons.IH [OF _ s1])
  qed
qed simp

text \<open>From the fresh context to the end of \<open>execute\<close>'s two loops.\<close>

lemma replay_keeps:
  assumes "replay_and_run u5 reg inst old new = Some (r, s', x')" and "P ((new_context inst)\<lparr>is_replaying := True\<rparr>)"
    and "\<And>s. P s \<Longrightarrow> P (s\<lparr>is_replaying := False\<rparr>)"
  shows "P s'"
proof -
  from assms(1) obtain q s1 x1 where
    p: "process_events u5 reg old ((new_context inst)\<lparr>is_replaying := True\<rparr>) new_executor = Some (q, s1, x1)"
    by (auto simp: replay_and_run_def bind_eq_Some_conv)
  have s1: "P s1" by (rule process_events_keeps [OF p assms(2)])
  show ?thesis
  proof (cases q)
    case (Inl e)
    with assms(1) p s1 show ?thesis by (auto simp: replay_and_run_def)
  next
    case (Inr z)
    with assms(1) p have "process_events u5 reg new (s1\<lparr>is_replaying := False\<rparr>) x1 = Some (r, s', x')"
      by (simp add: replay_and_run_def)
    then show ?thesis by (rule process_events_keeps) (rule assms(3) [OF s1])
  qed
qed

end

interpretation ctx_evented: evented ctx_inv u5 reg for u5 reg
  by unfold_locales (auto intro: ctx_inv_handle_event ctx_inv_set_complete)

lemma replay_and_run_inv: "replay_and_run u5 reg inst old new = Some (r, s, x) \<Longrightarrow> ctx_inv s"
  by (rule ctx_evented.replay_keeps) simp_all

lemma ctx_inv_settle: "ctx_inv s \<Longrightarrow> ctx_inv (settle r s)"
  by (auto simp: settle_def ctx_inv_set_failed ctx_inv_set_version_not_registered split: sum.split)

text \<open>How \<open>execute\<close> decomposes: the loops, the exception handlers, the actions.\<close>

lemma execute_SomeE:
  assumes "execute u5 reg inst old new = Some (Inr res)"
  obtains r s x s1 where "replay_and_run u5 reg inst old new = Some (r, s, x)"
    and "get_actions (settle r s) = (Inr (er_actions res), s1)" and "new \<noteq> []"
    and "er_custom_status res = encoded_custom_status s1" "er_patches res = encountered_patches s1"
      "er_version_name res = version_name s1"
proof -
  have new: "new \<noteq> []" using assms by (auto simp: execute_def)
  with assms obtain r s x where rr: "replay_and_run u5 reg inst old new = Some (r, s, x)"
    by (auto simp: execute_def bind_eq_Some_conv)
  obtain q s1 where g: "get_actions (settle r s) = (q, s1)" by fastforce
  with assms new rr have "(case q of Inl e \<Rightarrow> Inl e | Inr as \<Rightarrow> Inr
      \<lparr>er_actions = as, er_custom_status = encoded_custom_status s1, er_version_name = version_name s1,
       er_patches = encountered_patches s1\<rparr>) = Inr res"
    by (cases q) (simp_all add: execute_def)
  then show ?thesis using that [OF rr _ new] g by (cases q) auto
qed

lemma get_actions_ids:
  assumes inv: "ctx_inv s" and "get_actions s = (Inr as, s1)"
  shows "distinct (map act_id as)" and "a \<in> set as \<Longrightarrow> 0 < act_id a"
proof -
  have "distinct (map act_id as) \<and> (\<forall>a \<in> set as. 0 < act_id a)"
  proof (cases "completion_status s = Some CONTINUED_AS_NEW")
    case True
    then obtain c j where "as = [new_complete_workflow_action (sequence_number s + 1) CONTINUED_AS_NEW j None c
        (completion_router (s\<lparr>sequence_number := sequence_number s + 1\<rparr>))]"
      using assms(2) by (auto simp: get_actions_def next_sequence_number_eq split: sum.splits)
    then show ?thesis using ctx_inv_seq [OF inv] by simp
  next
    case False
    then have as: "as = map snd (pending_actions s)" using assms(2) by (auto simp: get_actions_def)
    have ids: "dict_wf (pending_actions s)"
      "\<And>i a. dict_get (pending_actions s) i = Some a \<Longrightarrow> act_id a = i \<and> 0 < i"
      using inv by (auto simp: ctx_inv_def ids_ok_def)
    have mem: "act_id a = i \<and> 0 < i" if "(i, a) \<in> set (pending_actions s)" for i a
      using ids(2) dict_get_in [OF ids(1) that] by simp
    have eq: "map act_id as = dict_keys (pending_actions s)" unfolding as using mem by auto
    have "distinct (map act_id as)" unfolding eq using ids(1) by (simp add: dict_wf_def)
    moreover have "\<forall>a \<in> set as. 0 < act_id a" unfolding as using mem by auto
    ultimately show ?thesis by simp
  qed
  then show "distinct (map act_id as)" and "a \<in> set as \<Longrightarrow> 0 < act_id a" by simp_all
qed

end
