(* ===== verification/Memory.thy ===== *)
theory Memory
  imports ExecutorInv
begin

text \<open>
  What stays fixed along an execution, and the two determinism contracts that rest on it: the answer to
  a patch question, and identifiers that are never drawn twice.
\<close>

section \<open>What an execution remembers\<close>

text \<open>
  Along an execution the instance id is fixed, the identifier counter never falls, and the answer
  to a patch question, once given, stays.
\<close>

definition remembers :: "ctx \<Rightarrow> ctx \<Rightarrow> bool" where
  "remembers s s' \<longleftrightarrow> ctx_instance_id s' = ctx_instance_id s \<and> uuid_counter s \<le> uuid_counter s' \<and>
     (\<forall>p b. dict_get (applied_patches s) p = Some b \<longrightarrow> dict_get (applied_patches s') p = Some b)"

lemma remembers_refl [simp]: "remembers s s"
  by (simp add: remembers_def)

lemma remembers_trans: "remembers a b \<Longrightarrow> remembers b c \<Longrightarrow> remembers a c"
  by (auto simp: remembers_def)

lemma remembers_update [simp]:
  "remembers s (c\<lparr>generator := g\<rparr>) = remembers s c" "remembers s (c\<lparr>previous_task := v\<rparr>) = remembers s c"
  "remembers s (c\<lparr>is_replaying := b\<rparr>) = remembers s c" "remembers s (c\<lparr>ctx_complete := b\<rparr>) = remembers s c"
  "remembers s (c\<lparr>ctx_result := v\<rparr>) = remembers s c" "remembers s (c\<lparr>pending_actions := as\<rparr>) = remembers s c"
  "remembers s (c\<lparr>pending_tasks := pt\<rparr>) = remembers s c" "remembers s (c\<lparr>sequence_number := n\<rparr>) = remembers s c"
  "remembers s (c\<lparr>current_utc_datetime := i\<rparr>) = remembers s c" "remembers s (c\<lparr>ctx_app_id := a\<rparr>) = remembers s c"
  "remembers s (c\<lparr>completion_status := st\<rparr>) = remembers s c" "remembers s (c\<lparr>received_events := r\<rparr>) = remembers s c"
  "remembers s (c\<lparr>pending_events := pe\<rparr>) = remembers s c" "remembers s (c\<lparr>tasks := ts\<rparr>) = remembers s c"
  "remembers s (c\<lparr>new_input := v\<rparr>) = remembers s c" "remembers s (c\<lparr>save_events := b\<rparr>) = remembers s c"
  "remembers s (c\<lparr>encoded_custom_status := e\<rparr>) = remembers s c"
  "remembers s (c\<lparr>orchestrator_version_name := e\<rparr>) = remembers s c"
  "remembers s (c\<lparr>version_name := e\<rparr>) = remembers s c" "remembers s (c\<lparr>history_patches := h\<rparr>) = remembers s c"
  "remembers s (c\<lparr>encountered_patches := ps\<rparr>) = remembers s c"
  "remembers s (c\<lparr>timestamp_counter := k\<rparr>) = remembers s c"
  "remembers s (upd_task t f c) = remembers s c" "remembers s (add_action ac c) = remembers s c"
  "remembers s (add_task j t c) = remembers s c" "remembers s (unregister_event_task key t c) = remembers s c"
  by (simp_all add: remembers_def upd_task_def add_action_def add_task_def unregister_event_task_def Let_def
      split: option.split)

lemma remembers_store: "remembers s c \<Longrightarrow> store_only c c' \<Longrightarrow> remembers s c'"
proof -
  assume r: "remembers s c" and so: "store_only c c'"
  from so have eq: "c' = c\<lparr>tasks := tasks c', pending_events := pending_events c'\<rparr>" by (simp add: store_only_def)
  from r have "remembers s (c\<lparr>tasks := tasks c', pending_events := pending_events c'\<rparr>)" by simp
  then show ?thesis using eq by simp
qed

lemma remembers_completion [simp]:
  "remembers s c \<Longrightarrow> remembers s (snd (task_complete t v c))"
  "remembers s c \<Longrightarrow> remembers s (snd (task_fail t msg d c))"
  "remembers s c \<Longrightarrow> remembers s (snd (task_cancel t e c))"
  "remembers s c \<Longrightarrow> remembers s (snd (when_all cs c))"
  "remembers s c \<Longrightarrow> remembers s (snd (when_any cs c))"
  "remembers s c \<Longrightarrow> remembers s (snd (external_event_with_timeout ev t name timeout key c))"
  "remembers s c \<Longrightarrow> remembers s (snd (alloc k c))"
  by (blast intro: remembers_store store_only_completion store_only_composites store_only_alloc)+

lemma remembers_drop [simp]: "remembers s c \<Longrightarrow> remembers s (snd (drop_optional_pending_at i c))"
  by (auto simp: drop_optional_pending_at_def split: option.split)

lemma remembers_set_complete [simp]: "remembers s c \<Longrightarrow> remembers s (snd (set_complete v st b c))"
  by (auto simp: set_complete_def Let_def next_sequence_number_eq split: sum.split)

lemma remembers_create_timer [simp]: "remembers s c \<Longrightarrow> remembers s (snd (create_timer_internal f r og c))"
  by (auto simp: create_timer_internal_def next_sequence_number_eq alloc_def split: sum.split option.split)

lemma remembers_helper [simp]:
  "remembers s c \<Longrightarrow> remembers s (snd (call_activity_function_helper oi fn spec sub inst app x sc c))"
  by (auto simp: call_activity_function_helper_def next_sequence_number_eq alloc_def Let_def
      split: sum.split option.split call_spec.split prod.split)

lemma remembers_op_then:
  assumes "remembers s (snd r)" and "\<And>x c. r = (Inr x, c) \<Longrightarrow> remembers s c \<Longrightarrow> remembers s (snd (f x c))"
  shows "remembers s (snd (op_then r f))"
  using assms by (cases r) (auto simp: op_then_def split: sum.split)

lemma remembers_take_or_wait [simp]: "remembers s c \<Longrightarrow> remembers s (snd (take_or_wait key t c))"
  by (auto simp: take_or_wait_def take_buffered_def split: list.split option.split)

lemma remembers_wait [simp]: "remembers s c \<Longrightarrow> remembers s (snd (wait_for_external_event name timeout c))"
  unfolding wait_for_external_event_def alloc_def case_prod_conv Let_def
  by (intro remembers_op_then) (auto intro!: remembers_op_then)

lemma remembers_patched [simp]: "remembers s c \<Longrightarrow> remembers s (snd (is_patched p c))"
  by (auto simp: is_patched_def is_patched_inner_def remembers_def dict_get_set Let_def split: option.split prod.split)

lemma remembers_guid [simp]: "remembers s c \<Longrightarrow> remembers s (c\<lparr>uuid_counter := Suc (uuid_counter c)\<rparr>)"
  by (auto simp: remembers_def)

lemma remembers_op: "remembers s c \<Longrightarrow> remembers s (snd (run_op u5 opn c))"
proof (cases opn)
  case (OpIsPatched p)
  assume "remembers s c"
  then have "remembers s (snd (is_patched p c))" by simp
  with OpIsPatched show ?thesis by (cases "is_patched p c") simp
next
  case (OpSetCustomStatus v)
  assume "remembers s c"
  with OpSetCustomStatus show ?thesis by (auto simp: set_custom_status_def split: pyval.split sum.split)
next
  case (OpCallSubOrchestrator f v i r a sc)
  assume "remembers s c"
  with OpCallSubOrchestrator show ?thesis
    by (auto simp: call_sub_orchestrator_def next_sequence_number_eq split: sum.split)
next
  case (OpCallActivity f v r a sc)
  assume "remembers s c"
  then have "remembers s (c\<lparr>sequence_number := sequence_number c + 1, uuid_counter := uuid_counter c + 1\<rparr>)"
    by (auto simp: remembers_def)
  with OpCallActivity show ?thesis
    by (simp add: call_activity_def next_sequence_number_eq uuid4_def)
qed (auto simp: create_timer_def on_tasks_def uuid4_def now_with_sequence_def continue_as_new_def
      set_continued_as_new_def)

interpretation remembering: driven "remembers s" u5 for s u5
  by unfold_locales (simp_all add: remembers_op)

lemma remembers_done_with: "done_with r = Some (f, c') \<Longrightarrow> remembers s (snd r) \<Longrightarrow> remembers s c'"
  by (cases r) (auto simp: done_with_def split: sum.splits)

lemma remembers_then_resume: "then_resume u5 r = Some (f, c') \<Longrightarrow> remembers s (snd r) \<Longrightarrow> remembers s c'"
  by (cases r) (auto simp: then_resume_def split: sum.splits intro: remembering.resume_keeps)

lemma remembers_take_action [simp]: "remembers s c \<Longrightarrow> remembers s (snd (take_action i c))"
  by (auto simp: take_action_def Let_def split: option.split)

lemma remembers_completed_pair:
  "task_complete t v c = (r, c') \<Longrightarrow> remembers s c \<Longrightarrow> remembers s c'"
  using remembers_completion(1) [of s c t v] by simp

lemma remembers_timer_fired:
  "handle_timer_fired u5 i c = Some (f, c') \<Longrightarrow> remembers s c \<Longrightarrow> remembers s c'"
proof -
  assume h: "handle_timer_fired u5 i c = Some (f, c')" and r: "remembers s c"
  have res: "remembers s c1 \<Longrightarrow> remembers s (snd (reschedule t c1))" for t c1
    by (auto simp: reschedule_def split: task_class.split)
  show ?thesis
    using h r
    by (auto simp: handle_timer_fired_def pop_task_def split: option.splits prod.splits sum.splits
        dest!: remembers_completed_pair intro: remembers_done_with res remembering.resume_keeps)
qed

lemma remembers_failed:
  "handle_failed u5 msg og bad i d c = Some (f, c') \<Longrightarrow> remembers s c \<Longrightarrow> remembers s c'"
  by (auto simp: handle_failed_def pop_task_def attempt_again_def
      split: option.splits task_class.splits if_splits sum.splits
      intro: remembers_then_resume remembers_done_with)

lemma remembers_event:
  assumes "remembers s c" and "handle_event u5 reg ev c = Some (f, c')"
  shows "remembers s c'"
proof -
  have started: "remembers s c'" if "handle_execution_started u5 reg rt n inp c = Some (f, c')" for rt n inp
  proof -
    have "remembers s c2" if "start_orchestrator u5 fn v c1 = Some (f, c2)" "remembers s c1" for fn v c1 c2
    proof (cases fn)
      case (GenOrch g)
      with that show ?thesis by (auto simp: start_orchestrator_def intro: remembering.run_keeps)
    next
      case (PlainOrch g)
      with that obtain oc c3 where d: "drive u5 (g v) c1 = Some (oc, c3)"
        by (auto simp: start_orchestrator_def bind_eq_Some_conv)
      have "remembers s c3" by (rule remembering.drive_keeps [OF d that(2)])
      with that(1) PlainOrch d show ?thesis
        by (cases oc) (auto simp: start_orchestrator_def intro: remembers_done_with)
    qed
    with that assms(1) show ?thesis
      by (auto simp: handle_execution_started_def Let_def split: sum.splits option.splits prod.splits)
  qed
  have ta: "remembers s c1" if "take_action i c = (oa, c1)" for i oa c1
    using remembers_take_action [OF assms(1), of i] that by simp
  show ?thesis
  proof (cases "ev_body ev")
    case (WorkflowStarted n ps)
    with assms show ?thesis by (auto simp: handle_event_def handle_workflow_started_def Let_def)
  next
    case (ExecutionStarted n inp inst)
    with assms(2) started show ?thesis by (auto simp: handle_event_def)
  next
    case (TimerCreated ts og)
    with assms show ?thesis
      by (auto simp: handle_event_def handle_timer_created_def Let_def
          split: option.splits if_splits action_body.splits)
  next
    case (TaskScheduled n inp)
    with assms ta show ?thesis
      by (auto simp: handle_event_def handle_task_scheduled_def split: prod.splits option.splits action_body.splits if_splits)
  next
    case (ChildWorkflowInstanceCreated n inp inst)
    with assms ta show ?thesis
      by (auto simp: handle_event_def handle_child_created_def split: prod.splits option.splits action_body.splits if_splits)
  next
    case (ExecutionTerminated out)
    with assms show ?thesis by (auto simp: handle_event_def handle_terminated_def intro: remembers_done_with)
  next
    case (TaskCompleted i r)
    with assms show ?thesis
      by (auto simp: handle_event_def handle_completed_def pop_task_def split: option.splits sum.splits intro: remembers_then_resume)
  next
    case (ChildWorkflowInstanceCompleted i r)
    with assms show ?thesis
      by (auto simp: handle_event_def handle_completed_def pop_task_def split: option.splits sum.splits intro: remembers_then_resume)
  next
    case (EventRaised n inp)
    with assms show ?thesis
      by (auto simp: handle_event_def handle_event_raised_def buffer_value_def Let_def
          split: option.splits list.splits sum.splits prod.splits if_splits
          dest!: remembers_completed_pair intro: remembering.resume_keeps)
  qed (use assms in \<open>auto simp: handle_event_def handle_task_failed_def handle_child_failed_def
        intro: remembers_timer_fired remembers_failed\<close>)
qed

interpretation remembering_events: evented "remembers s" u5 reg for s u5 reg
  by unfold_locales (auto intro: remembers_event)

section \<open>Stable answers\<close>

text \<open>
  A patch question has one answer in an execution: whatever events are processed and whatever the
  orchestrators do in between, asking again for the same patch gives the answer given before.
\<close>

theorem patch_answer_stable:
  assumes "is_patched p s = (b, s1)" and "process_events u5 reg evs s1 x = Some (r, s2, x')"
  shows "fst (is_patched p s2) = b"
proof -
  have "dict_get (applied_patches s1) p = Some b"
    using assms(1) by (auto simp: is_patched_def is_patched_inner_def dict_get_set split: option.splits if_splits prod.splits)
  moreover have "remembers s1 s2" by (rule remembering_events.process_events_keeps [OF assms(2)]) simp
  ultimately have "dict_get (applied_patches s2) p = Some b" by (simp add: remembers_def)
  then show ?thesis by (simp add: is_patched_def is_patched_inner_def split: prod.split)
qed

lemma patch_demo:
  "is_patched ''p'' (new_context ''i'') = (False, (new_context ''i'')\<lparr>applied_patches := [(''p'', False)]\<rparr>)"
  by (simp add: is_patched_def is_patched_inner_def new_context_def dict_simps dict_has_def)

theorem patch_answer_stable_witness:
  "fst (is_patched ''p'' ((new_context ''i'')\<lparr>applied_patches := [(''p'', False)]\<rparr>)) = False"
  using patch_answer_stable [OF patch_demo, of id "empty_registry :: (orchestrator, unit) registry" "[]" undefined] by simp

text \<open>
  Identifiers are never repeated: if the hash behind \<open>uuid5\<close> does not collide, an identifier drawn
  later in an execution differs from one drawn before, whatever happens in between.
\<close>

lemma guids_distinct:
  assumes "inj u5" and "uuid4 u5 s = (g, s1)" and "process_events u5 reg evs s1 x = Some (r, s2, x')"
  shows "fst (uuid4 u5 s2) \<noteq> g"
proof
  assume eq: "fst (uuid4 u5 s2) = g"
  have r: "remembers s1 s2" by (rule remembering_events.process_events_keeps [OF assms(3)]) simp
  have s1: "ctx_instance_id s1 = ctx_instance_id s" "uuid_counter s1 = Suc (uuid_counter s)"
    and g: "g = u5 (guid_name (ctx_instance_id s) (current_utc_datetime s) (uuid_counter s))"
    using assms(2) by (auto simp: uuid4_def deterministic_uuid_v5_def)
  from eq g s1 r have "guid_name (ctx_instance_id s) (current_utc_datetime s2) (uuid_counter s2) =
      guid_name (ctx_instance_id s) (current_utc_datetime s) (uuid_counter s)"
    using injD [OF assms(1)] by (simp add: uuid4_def deterministic_uuid_v5_def remembers_def)
  then have "uuid_counter s2 = uuid_counter s" by (rule guid_name_inj)
  with r s1 show False by (simp add: remembers_def)
qed

lemma guid_demo: "uuid4 id (new_context ''i'') =
    (guid_name ''i'' initial_datetime 0, (new_context ''i'')\<lparr>uuid_counter := 1\<rparr>)"
  by (simp add: uuid4_def new_context_def deterministic_uuid_v5_def)

lemma guids_distinct_witness:
  "fst (uuid4 id ((new_context ''i'')\<lparr>uuid_counter := 1\<rparr>)) \<noteq> guid_name ''i'' initial_datetime 0"
  using guids_distinct [OF inj_on_id guid_demo, of "empty_registry :: (orchestrator, unit) registry" "[]" undefined] by simp

end
