(* ===== verification/ContextProps.thy ===== *)
theory ContextProps
  imports ExecutorInv
begin

text \<open>
  Contracts of the runtime context: what dropping an optional timer does to the numbering, that a wait
  with a zero timeout leaves nothing behind, and that events wait in order.
\<close>

section \<open>Dropping an optional timer\<close>

text \<open>
  Dropping an optional timer renumbers exactly the later entries: the action and the task of the
  dropped id disappear, every entry above it moves down by one and its action carries the new id,
  every entry below stays, and the counter moves back by one. An action of any other kind is left
  alone and nothing changes.
\<close>

theorem drop_optional_shifts:
  assumes "ctx_inv s"
  shows "case dict_get (pending_actions s) i of
     None \<Rightarrow> drop_optional_pending_at i s = (False, s)
   | Some a \<Rightarrow>
       if \<not> is_optional_timer_action a then drop_optional_pending_at i s = (False, s)
       else (\<exists>as pt. drop_optional_pending_at i s =
           (True, s\<lparr>pending_actions := as, pending_tasks := pt, sequence_number := sequence_number s - 1\<rparr>) \<and>
         (\<forall>j. dict_get as j = (if j < i then dict_get (pending_actions s) j
            else map_option (\<lambda>b. b\<lparr>act_id := j\<rparr>) (dict_get (pending_actions s) (j + 1)))) \<and>
         (\<forall>j. dict_get pt j = (if j < i then dict_get (pending_tasks s) j
            else dict_get (pending_tasks s) (j + 1))))"
proof -
  let ?as = "dict_del i (pending_actions s)" and ?pt = "dict_del i (pending_tasks s)"
  have wf: "dict_wf ?as" "dict_wf ?pt" using assms by (simp_all add: ctx_inv_def ids_ok_def)
  have fresh: "i \<notin> set (dict_keys ?as)" "i \<notin> set (dict_keys ?pt)" unfolding dict_keys_del by simp_all
  have opt: "map_option (\<lambda>t. t) m = m" for m :: "tref option" by (cases m) simp_all
  show ?thesis
  proof (cases "dict_get (pending_actions s) i")
    case None
    then show ?thesis by (simp add: drop_optional_pending_at_def)
  next
    case (Some a)
    let ?sa = "shift_above (\<lambda>a k. a\<lparr>act_id := k\<rparr>) i ?as" and ?st = "shift_above (\<lambda>t k. t) i ?pt"
    have sa: "\<forall>j. dict_get ?sa j = (if j < i then dict_get (pending_actions s) j
        else map_option (\<lambda>b. b\<lparr>act_id := j\<rparr>) (dict_get (pending_actions s) (j + 1)))"
      by (simp add: shift_above_get [OF wf(1) fresh(1)] dict_get_del)
    have st: "\<forall>j. dict_get ?st j = (if j < i then dict_get (pending_tasks s) j
        else dict_get (pending_tasks s) (j + 1))"
      by (simp add: shift_above_get [OF wf(2) fresh(2)] dict_get_del opt)
    show ?thesis
    proof (cases "is_optional_timer_action a")
      case True
      then have "drop_optional_pending_at i s =
          (True, s\<lparr>pending_actions := ?sa, pending_tasks := ?st, sequence_number := sequence_number s - 1\<rparr>)"
        using Some by (simp add: drop_optional_pending_at_def)
      with sa st have "\<exists>as pt. drop_optional_pending_at i s =
           (True, s\<lparr>pending_actions := as, pending_tasks := pt, sequence_number := sequence_number s - 1\<rparr>) \<and>
         (\<forall>j. dict_get as j = (if j < i then dict_get (pending_actions s) j
            else map_option (\<lambda>b. b\<lparr>act_id := j\<rparr>) (dict_get (pending_actions s) (j + 1)))) \<and>
         (\<forall>j. dict_get pt j = (if j < i then dict_get (pending_tasks s) j
            else dict_get (pending_tasks s) (j + 1)))" by blast
      then show ?thesis using Some True by simp
    next
      case False
      with Some show ?thesis by (simp add: drop_optional_pending_at_def)
    qed
  qed
qed

text \<open>A context with a user timer behind the optional timer of an indefinite wait.\<close>

definition demo_waiting :: ctx where
  "demo_waiting = snd (create_timer (FireIn 1000000) (snd (wait_for_external_event ''Ev'' None (new_context ''i''))))"

lemma demo_waiting_inv: "ctx_inv demo_waiting"
  unfolding demo_waiting_def create_timer_def by (intro ctx_inv_create_timer ctx_inv_wait) simp_all

lemma demo_waiting_eval:
  "map (\<lambda>(i, a). (i, is_optional_timer_action a)) (pending_actions demo_waiting) = [(1, True), (2, False)]"
  by code_simp

lemma demo_waiting_first: "\<exists>a. dict_get (pending_actions demo_waiting) 1 = Some a \<and> is_optional_timer_action a"
  using demo_waiting_eval by (cases "pending_actions demo_waiting") (auto simp: dict_simps)

theorem drop_optional_shifts_witness:
  "fst (drop_optional_pending_at 1 demo_waiting) = True"
proof -
  obtain a where "dict_get (pending_actions demo_waiting) 1 = Some a" "is_optional_timer_action a"
    using demo_waiting_first by blast
  with drop_optional_shifts [OF demo_waiting_inv, of 1] show ?thesis by auto
qed

section \<open>External events\<close>

lemma notify_no_parent: "t_parent (task_at s t) = None \<Longrightarrow> notify_parent t s = (Inr (), s)"
  by (simp add: notify_parent_def)

lemma alloc_fst_snd: "alloc k s = (length (tasks s), s\<lparr>tasks := tasks s @ [new_task k]\<rparr>)"
  by (simp add: alloc_def)

lemma remove1_last: "t \<notin> set ws \<Longrightarrow> remove1 t (ws @ [t]) = ws"
  by (induction ws) auto

text \<open>
  A wait with a zero timeout leaves nothing behind: without a buffered value the returned task has
  failed with the \<open>TimeoutError\<close> that names the event, no action, pending task or number is used, no
  buffered value is consumed, and every waiting list holds the waiters it held before.
\<close>

lemma zero_timeout_leaves_nothing:
  assumes inv: "ctx_inv s" and empty: "buffered (casefold name) s = []"
  shows "\<exists>t s'. wait_for_external_event name (Some (FireIn 0)) s = (Inr t, s') \<and>
    get_result s' t = Inl (zero_timeout_error name) \<and>
    pending_actions s' = pending_actions s \<and> pending_tasks s' = pending_tasks s \<and>
    sequence_number s' = sequence_number s \<and> received_events s' = received_events s \<and>
    take (length (tasks s)) (tasks s') = tasks s \<and>
    (\<forall>k. (case dict_get (pending_events s') k of None \<Rightarrow> [] | Some ws \<Rightarrow> ws) =
         (case dict_get (pending_events s) k of None \<Rightarrow> [] | Some ws \<Rightarrow> ws))"
proof -
  let ?key = "casefold name" and ?t = "length (tasks s)"
  define ws where "ws = (case dict_get (pending_events s) ?key of None \<Rightarrow> [] | Some ws \<Rightarrow> ws)"
  define s1 where "s1 = s\<lparr>tasks := tasks s @ [new_task Completable]\<rparr>"
  define s2 where "s2 = s1\<lparr>pending_events := dict_set ?key (ws @ [?t]) (pending_events s1)\<rparr>"
  have fresh: "?t \<notin> set ws"
    using ctx_inv_waiters_plain [OF inv, of ?key]
    by (cases "dict_get (pending_events s) ?key") (auto simp: ws_def plain_def)
  have tw: "take_or_wait ?key ?t s1 = (Inr (), s2)"
    using empty by (simp add: take_or_wait_def take_buffered_def buffered_def s1_def s2_def ws_def)
  have t2: "task_at s2 ?t = new_task Completable" by (simp add: s2_def s1_def)
  have nc: "\<not> is_complete s2 ?t" using t2 by (simp add: is_complete_def new_task_def)
  define s3 where "s3 = unregister_event_task ?key ?t s2"
  have s3: "s3 = s2\<lparr>pending_events := (if ws = [] then dict_del ?key (pending_events s2)
                                 else dict_set ?key ws (pending_events s2))\<rparr>"
    by (simp add: s3_def unregister_event_task_def s2_def dict_get_set remove1_last [OF fresh] Let_def)
  define s4 where "s4 = upd_task ?t (\<lambda>x. x\<lparr>t_exception := Some (zero_timeout_error name), t_complete := True\<rparr>) s3"
  have t3: "task_at s3 ?t = new_task Completable" by (simp add: s3 t2)
  have t4: "task_at s4 ?t = (new_task Completable)\<lparr>t_exception := Some (zero_timeout_error name), t_complete := True\<rparr>"
    using t3 by (simp add: s4_def s3 s2_def s1_def)
  have c: "task_cancel ?t (zero_timeout_error name) s3 = (Inr (), s4)"
    using t3 t4 by (simp add: task_cancel_def is_complete_def new_task_def s4_def [symmetric] notify_no_parent)
  have "wait_for_external_event name (Some (FireIn 0)) s = (Inr ?t, s4)"
    by (simp add: wait_for_external_event_def alloc_fst_snd Let_def s1_def [symmetric] tw nc
        s3_def [symmetric] c)
  moreover have "get_result s4 ?t = Inl (zero_timeout_error name)" by (simp add: get_result_def t4)
  moreover have "(case dict_get (pending_events s4) k of None \<Rightarrow> [] | Some ws \<Rightarrow> ws) =
         (case dict_get (pending_events s) k of None \<Rightarrow> [] | Some ws \<Rightarrow> ws)" for k
    by (auto simp: s4_def s3 s2_def s1_def ws_def dict_get_set dict_get_del split: option.splits)
  ultimately show ?thesis
    by (auto simp: s4_def s3 s2_def s1_def upd_task_def)
qed

text \<open>
  The buffer of one event name as a queue: the interface that senders and waiters share. What is
  taken after a number of puts are the values in the order of the puts.
\<close>

locale fifo =
  fixes view :: "'s \<Rightarrow> 'v list" and put :: "'v \<Rightarrow> 's \<Rightarrow> 's" and get :: "'s \<Rightarrow> ('v \<times> 's) option"
    and valid :: "'s \<Rightarrow> bool"
  assumes view_put: "valid s \<Longrightarrow> view (put v s) = view s @ [v]"
    and valid_put: "valid s \<Longrightarrow> valid (put v s)"
    and get_None: "get s = None \<longleftrightarrow> view s = []"
    and get_Some: "valid s \<Longrightarrow> get s = Some (v, s') \<Longrightarrow> view s = v # view s' \<and> valid s'"
begin

lemma view_puts: "valid s \<Longrightarrow> view (fold put vs s) = view s @ vs \<and> valid (fold put vs s)"
  by (induction vs arbitrary: s) (simp_all add: view_put valid_put)

lemma first_put_first: "valid s \<Longrightarrow> view s = [] \<Longrightarrow> vs \<noteq> [] \<Longrightarrow>
    \<exists>s'. get (fold put vs s) = Some (hd vs, s') \<and> view s' = tl vs"
proof -
  assume a: "valid s" "view s = []" "vs \<noteq> []"
  then have v: "view (fold put vs s) = vs" "valid (fold put vs s)" using view_puts [of s vs] by simp_all
  obtain v s' where "get (fold put vs s) = Some (v, s')"
    using a(3) v(1) get_None [of "fold put vs s"] by (cases "get (fold put vs s)") auto
  with get_Some [OF v(2) this] v(1) show ?thesis by auto
qed

end

interpretation event_buffer: fifo "buffered key" "buffer_value key" "take_buffered key" "\<lambda>s. dict_wf (received_events s)"
  for key
  by unfold_locales
    (auto simp: buffered_def buffer_value_def take_buffered_def dict_get_set dict_get_del split: list.splits option.splits if_splits)

text \<open>
  Early events wait in order: events raised while nobody waits for them, under any spelling of the
  name, are buffered, and later waits for that name, under any spelling and with any timeout, receive
  their values one after the other in the order in which they were raised.
\<close>

fun raise_all :: "(string \<Rightarrow> string) \<Rightarrow> (string \<times> string option) list \<Rightarrow> ctx \<Rightarrow> ctx option" where
  "raise_all u5 [] s = Some s"
| "raise_all u5 ((n, p) # es) s = (case handle_event_raised u5 n p s of
     Some (Continue, s') \<Rightarrow> raise_all u5 es s'
   | _ \<Rightarrow> None)"

fun wait_all :: "(string \<times> fire_arg option) list \<Rightarrow> ctx \<Rightarrow> pyval res list" where
  "wait_all [] s = []"
| "wait_all ((n, to) # ws) s = (case wait_for_external_event n to s of
     (Inr t, s') \<Rightarrow> get_result s' t # wait_all ws s'
   | (Inl e, s') \<Rightarrow> Inl e # wait_all ws s')"

lemma raise_buffers:
  assumes "dict_get (pending_events s) (casefold n) = None" and "decode_payload p = Inr v"
  shows "handle_event_raised u5 n p s = Some (Continue, buffer_value (casefold n) v s)"
  using assms by (simp add: handle_event_raised_def Let_def buffer_value_def buffered_def dict_get_set dict_set_set)

lemma raise_all_buffers:
  assumes "dict_get (pending_events s) key = None" and "\<forall>(n, p) \<in> set es. casefold n = key"
    and "map (\<lambda>e. decode_payload (snd e)) es = map Inr vs"
  shows "raise_all u5 es s = Some (fold (buffer_value key) vs s)"
  using assms
proof (induction es arbitrary: vs s)
  case (Cons e es)
  obtain n p where e: "e = (n, p)" by (cases e)
  from Cons.prems(3) e obtain v vs' where vs: "vs = v # vs'" "decode_payload p = Inr v"
    "map (\<lambda>e. decode_payload (snd e)) es = map Inr vs'" by (cases vs) auto
  have n: "casefold n = key" using Cons.prems(2) e by auto
  have "raise_all u5 es (buffer_value key v s) = Some (fold (buffer_value key) vs' (buffer_value key v s))"
    by (rule Cons.IH) (use Cons.prems(1,2) vs(3) in \<open>auto simp: buffer_value_def\<close>)
  with raise_buffers [of s n p v u5] Cons.prems(1) n vs(1,2) e show ?case by simp
qed simp

lemma wait_takes:
  assumes "take_buffered (casefold n) s = Some (v, s1)"
  shows "\<exists>x s'. wait_for_external_event n to s = (Inr x, s') \<and> get_result s' x = Inr v \<and>
    received_events s' = received_events s1"
proof -
  let ?t = "length (tasks s)" and ?k = "casefold n"
  define s0 where "s0 = s\<lparr>tasks := tasks s @ [new_task Completable]\<rparr>"
  have b: "take_buffered ?k s0 = Some (v, s1\<lparr>tasks := tasks s0\<rparr>)"
    using assms by (auto simp: take_buffered_def buffered_def s0_def split: list.splits)
  have s1: "tasks s1 = tasks s" using assms by (auto simp: take_buffered_def split: list.splits)
  let ?s1 = "s1\<lparr>tasks := tasks s0\<rparr>"
  have at: "task_at ?s1 ?t = new_task Completable" "?t < length (tasks ?s1)" by (simp_all add: s0_def)
  define s2 where "s2 = upd_task ?t (\<lambda>x. x\<lparr>t_result := v, t_complete := True\<rparr>) ?s1"
  have t2: "task_at s2 ?t = (new_task Completable)\<lparr>t_result := v, t_complete := True\<rparr>"
    using at by (simp add: s2_def)
  have "task_complete ?t v ?s1 = (Inr (), s2)"
    using at t2 by (simp add: task_complete_def is_complete_def new_task_def s2_def [symmetric] notify_no_parent)
  then have "take_or_wait ?k ?t s0 = (Inr (), s2)" by (simp add: take_or_wait_def b)
  then have "wait_for_external_event n to s = (Inr ?t, s2)"
    using t2 by (simp add: wait_for_external_event_def alloc_fst_snd Let_def s0_def [symmetric] is_complete_def)
  moreover have "get_result s2 ?t = Inr v" by (simp add: get_result_def t2 new_task_def)
  moreover have "received_events s2 = received_events s1" by (simp add: s2_def upd_task_def)
  ultimately show ?thesis by blast
qed

lemma wait_all_takes:
  assumes "buffered key s = vs @ us" and "dict_wf (received_events s)" and "\<forall>(n, to) \<in> set ws. casefold n = key"
    and "length ws = length vs"
  shows "wait_all ws s = map Inr vs"
  using assms
proof (induction ws arbitrary: vs s)
  case (Cons w ws)
  obtain n to where w: "w = (n, to)" by (cases w)
  from Cons.prems(4) obtain v vs' where vs: "vs = v # vs'" by (cases vs) auto
  from Cons.prems(3) w have n: "casefold n = key" by auto
  obtain u s1 where tb: "take_buffered key s = Some (u, s1)"
    using Cons.prems(1) vs by (simp add: take_buffered_def)
  from event_buffer.get_Some [OF Cons.prems(2) tb] Cons.prems(1) vs
  have u: "u = v" "buffered key s1 = vs' @ us" "dict_wf (received_events s1)" by auto
  from wait_takes [of n s u s1 to] tb n obtain x s' where
    x: "wait_for_external_event n to s = (Inr x, s')" "get_result s' x = Inr u" "received_events s' = received_events s1"
    by blast
  have "wait_all ws s' = map Inr vs'"
    by (rule Cons.IH) (use Cons.prems(3,4) vs u x in \<open>auto simp: buffered_def\<close>)
  with x u w vs show ?case by simp
qed simp

theorem events_first_in_first_out:
  assumes "ctx_inv s" and "buffered key s = []" and "dict_get (pending_events s) key = None"
    and "\<forall>(n, p) \<in> set es. casefold n = key" and "map (\<lambda>e. decode_payload (snd e)) es = map Inr vs"
    and "\<forall>(n, to) \<in> set ws. casefold n = key" and "length ws \<le> length es"
  shows "\<exists>s'. raise_all u5 es s = Some s' \<and> wait_all ws s' = map Inr (take (length ws) vs)"
proof -
  have len: "length vs = length es" using arg_cong [OF assms(5), of length] by simp
  have wf: "dict_wf (received_events s)" using assms(1) by (simp add: ctx_inv_def)
  let ?s = "fold (buffer_value key) vs s"
  have view: "buffered key ?s = vs" "dict_wf (received_events ?s)"
    using event_buffer.view_puts [where key = key and vs = vs, OF wf] assms(2) by simp_all
  have "wait_all ws ?s = map Inr (take (length ws) vs)"
    by (rule wait_all_takes [of key _ _ "drop (length ws) vs"]) (use view assms(6,7) len in simp_all)
  with raise_all_buffers [OF assms(3-5)] show ?thesis by blast
qed

theorem events_first_in_first_out_witness:
  "\<exists>s'. raise_all id [(''Go'', Some ''1''), (''GO'', None)] (new_context ''i'') = Some s' \<and>
     wait_all [(''go'', None), (''gO'', Some (FireIn 5))] s' = [Inr (PInt 1), Inr PNone]"
proof -
  have dec: "map (\<lambda>e. decode_payload (snd e)) [(''Go'', Some ''1''), (''GO'', None)] = map Inr [PInt 1, PNone]"
    by code_simp
  have fold: "\<forall>(n, p) \<in> set [(''Go'', Some ''1''), (''GO'', None)]. casefold n = ''go''"
    "\<forall>(n, to) \<in> set [(''go'', None), (''gO'', Some (FireIn 5))]. casefold n = ''go''"
    by code_simp+
  have e: "buffered ''go'' (new_context ''i'') = []" "dict_get (pending_events (new_context ''i'')) ''go'' = None"
    by (simp_all add: buffered_def new_context_def)
  from events_first_in_first_out [OF ctx_inv_new e fold(1) dec fold(2)] show ?thesis by simp
qed

end
