(* ===== verification/Suspension.thy ===== *)
theory Suspension
  imports ExecutorInv
begin

text \<open>
  Suspending and resuming an execution (\<open>process_event\<close> in worker.py): the events that arrive
  while suspended are buffered and replayed on resume, what that leaves visible, and the loop that a
  second suspension starts.
\<close>

section \<open>Suspension\<close>

lemma process_suspended [simp]:
  "is_suspended x \<Longrightarrow> is_suspendable ev \<Longrightarrow>
     process h (Inl ev) (s, x) = Some (Inr (), s, x\<lparr>suspended_events := suspended_events x @ [ev]\<rparr>)"
  by (simp add: process.simps)

lemma process_running:
  "\<not> is_suspended x \<Longrightarrow> process h (Inl ev) (s, x) =
     Option.bind (h ev s) (\<lambda>(f, s1). Some (fst (catch_stop f s1), snd (catch_stop f s1),
       if ev_body ev = ExecutionSuspended then x\<lparr>is_suspended := True\<rparr> else x))"
  by (subst process.simps) simp

lemma process_resumed:
  "is_suspended x \<Longrightarrow> ev_body ev = ExecutionResumed \<Longrightarrow>
     process h (Inl ev) (s, x) = process h (Inr 0) (s, x\<lparr>is_suspended := False\<rparr>)"
  by (subst process.simps) (simp add: is_suspendable_def)

lemma process_loop:
  "process h (Inr i) (s, x) = (if i < length (suspended_events x)
     then Option.bind (process h (Inl (suspended_events x ! i)) (s, x)) (\<lambda>(r, sx1). case r of
            Inl e \<Rightarrow> Some (Inl e, sx1) | Inr _ \<Rightarrow> process h (Inr (Suc i)) sx1)
     else Some (Inr (), s, x\<lparr>suspended_events := []\<rparr>))"
  by (subst process.simps) simp

text \<open>What an event loop leaves visible: its end and the context.\<close>

definition visible :: "loop_result \<Rightarrow> (unit res \<times> ctx) option" where
  "visible l = map_option (\<lambda>(r, s, x). (r, s)) l"

lemma visible_simps [simp]: "visible None = None" "visible (Some (r, s, x)) = Some (r, s)"
  by (simp_all add: visible_def)

text \<open>Reading the buffer after a resumption is processing its events one after the other.\<close>

lemma resume_loop_events:
  assumes "\<not> is_suspended x" and "\<forall>e \<in> set (suspended_events x). ev_body e \<noteq> ExecutionSuspended"
  shows "visible (process (handle_event u5 reg) (Inr i) (s, x)) =
     visible (process_events u5 reg (drop i (suspended_events x)) s x)"
proof (induction "length (suspended_events x) - i" arbitrary: i s)
  case 0
  then show ?case by (subst process_loop) simp
next
  case (Suc n)
  let ?h = "handle_event u5 reg" and ?ev = "suspended_events x ! i"
  have i: "i < length (suspended_events x)" using Suc.hyps(2) by simp
  then have d: "drop i (suspended_events x) = ?ev # drop (Suc i) (suspended_events x)"
    by (simp add: Cons_nth_drop_Suc)
  have ns: "ev_body ?ev \<noteq> ExecutionSuspended" using assms(2) i by simp
  show ?case
  proof (cases "?h ?ev s")
    case None
    then show ?thesis
      unfolding d by (subst process_loop) (simp add: i process_running [OF assms(1)] process_event_def)
  next
    case (Some fs)
    obtain f s1 where fs: "fs = (f, s1)" by (cases fs)
    obtain r s2 where c: "catch_stop f s1 = (r, s2)" by fastforce
    have p: "process ?h (Inl ?ev) (s, x) = Some (r, s2, x)"
      using Some fs c ns by (simp add: process_running [OF assms(1)])
    have IH: "visible (process ?h (Inr (Suc i)) (s2, x)) =
        visible (process_events u5 reg (drop (Suc i) (suspended_events x)) s2 x)"
      by (rule Suc.hyps(1)) (use Suc.hyps(2) in simp)
    show ?thesis
      unfolding d using IH by (subst process_loop) (simp add: i p process_event_def split: sum.split)
  qed
qed

lemma process_events_append:
  "process_events u5 reg (as @ bs) s x = Option.bind (process_events u5 reg as s x) (\<lambda>(r, s1, x1). case r of
     Inl e \<Rightarrow> Some (Inl e, s1, x1) | Inr _ \<Rightarrow> process_events u5 reg bs s1 x1)"
proof (induction as arbitrary: s x)
  case (Cons a as)
  show ?case
  proof (cases "process_event u5 reg a s x")
    case (Some y)
    obtain r s1 x1 where "y = (r, s1, x1)" by (cases y)
    with Some Cons.IH show ?thesis by (cases r) simp_all
  qed simp
qed simp

lemma process_events_buffer:
  assumes "is_suspended x" and "\<forall>e \<in> set evs. is_suspendable e"
  shows "process_events u5 reg evs s x = Some (Inr (), s, x\<lparr>suspended_events := suspended_events x @ evs\<rparr>)"
  using assms by (induction evs arbitrary: x) (simp_all add: process_event_def)

text \<open>The executor only matters where a suspension is involved.\<close>

lemma process_event_executor:
  assumes "\<not> is_suspended x" "\<not> is_suspended y" and "ev_body ev \<noteq> ExecutionSuspended"
  shows "\<exists>m. process_event u5 reg ev s x = map_option (\<lambda>(r, c). (r, c, x)) m \<and>
     process_event u5 reg ev s y = map_option (\<lambda>(r, c). (r, c, y)) m"
proof (cases "handle_event u5 reg ev s")
  case None
  then show ?thesis by (intro exI [of _ None]) (simp add: process_event_def process_running assms)
next
  case (Some fs)
  then show ?thesis
    by (intro exI [of _ "Some (catch_stop (fst fs) (snd fs))"])
      (simp add: process_event_def process_running assms case_prod_beta)
qed

lemma process_events_executor:
  assumes "\<not> is_suspended x" "\<not> is_suspended y" and "\<forall>e \<in> set evs. ev_body e \<noteq> ExecutionSuspended"
  shows "visible (process_events u5 reg evs s x) = visible (process_events u5 reg evs s y)"
  using assms(3)
proof (induction evs arbitrary: s)
  case (Cons ev evs)
  obtain m where m: "process_event u5 reg ev s x = map_option (\<lambda>(r, c). (r, c, x)) m"
    "process_event u5 reg ev s y = map_option (\<lambda>(r, c). (r, c, y)) m"
    using process_event_executor [OF assms(1,2), of ev u5 reg s] Cons.prems by auto
  with Cons show ?case by (cases m) (auto split: sum.split)
qed simp



text \<open>While suspended, the loop over the buffer only appends to it.\<close>

lemma suspended_loop_no_result:
  "process h w sx = Some y \<Longrightarrow> is_suspended (snd sx) \<Longrightarrow>
     (\<forall>ev. w = Inl ev \<and> is_suspendable ev \<longrightarrow>
        y = (Inr (), fst sx, (snd sx)\<lparr>suspended_events := suspended_events (snd sx) @ [ev]\<rparr>)) \<and>
     (\<forall>i. w = Inr i \<and> (\<forall>e \<in> set (suspended_events (snd sx)). is_suspendable e) \<longrightarrow>
        length (suspended_events (snd sx)) \<le> i)"
proof (induct h w sx y rule: process.raw_induct [rotated, consumes 1])
  case (1 proc h w sx y)
  note IH = 1(1) and eq = 1(2)
  have sus: "is_suspended (snd sx)" using "1.prems" by simp
  have "False" if i: "w = Inr i" "\<forall>e \<in> set (suspended_events (snd sx)). is_suspendable e"
    "i < length (suspended_events (snd sx))" for i
  proof -
    let ?ev = "suspended_events (snd sx) ! i"
    from eq i obtain r sx1 where p: "proc h (Inl ?ev) sx = Some (r, sx1)"
      by (auto simp: bind_eq_Some_conv)
    have ev: "is_suspendable ?ev" using i(2,3) by simp
    from IH [OF p] sus ev
    have y1: "r = Inr ()" "sx1 = (fst sx, (snd sx)\<lparr>suspended_events := suspended_events (snd sx) @ [?ev]\<rparr>)"
      by auto
    with eq i p have "proc h (Inr (Suc i)) sx1 = Some y" by simp
    from IH [OF this] sus y1(2) i ev have "Suc (length (suspended_events (snd sx))) \<le> Suc i" by auto
    with i(3) show False by simp
  qed
  then have "length (suspended_events (snd sx)) \<le> i"
    if "w = Inr i" "\<forall>e \<in> set (suspended_events (snd sx)). is_suspendable e" for i
    using that not_less by blast
  moreover have "y = (Inr (), fst sx, (snd sx)\<lparr>suspended_events := suspended_events (snd sx) @ [ev]\<rparr>)"
    if "w = Inl ev" "is_suspendable ev" for ev
    using eq sus that by simp
  ultimately show ?case by blast
qed

text \<open>
  Suspending twice hangs the worker: when the buffer of a suspended execution holds a second
  suspension with any event behind it, the resumption never returns. The loop suspends again, and from
  then on it appends each event it reads to the list that it reads from.
\<close>

theorem second_suspension_diverges:
  assumes "is_suspended x" and "suspended_events x = sev # ev # evs" and "ev_body sev = ExecutionSuspended"
    and "\<forall>e \<in> set (ev # evs). is_suspendable e" and "ev_body rev_ev = ExecutionResumed"
  shows "process_event u5 reg rev_ev s x = None"
proof -
  let ?h = "handle_event u5 reg" and ?x1 = "x\<lparr>is_suspended := False\<rparr>"
  have sev: "is_suspendable sev" using assms(3) by (simp add: is_suspendable_def)
  have "process ?h (Inl sev) (s, ?x1) = Some (Inr (), s, x\<lparr>is_suspended := True\<rparr>)"
    using assms(3) by (simp add: process_running handle_event_def catch_stop_def)
  moreover have xt: "x\<lparr>is_suspended := True\<rparr> = x" using assms(1) by simp
  ultimately have "process_event u5 reg rev_ev s x = process ?h (Inr 1) (s, x)"
    using assms(1,2,5) by (simp add: process_event_def process_resumed process_loop [of _ 0])
  moreover have "process ?h (Inr 1) (s, x) = None"
  proof (cases "process ?h (Inr 1) (s, x)")
    case (Some y)
    from suspended_loop_no_result [OF Some] assms(1,2,4) sev show ?thesis by auto
  qed
  ultimately show ?thesis by simp
qed

theorem second_suspension_diverges_witness:
  "process_event id (empty_registry :: (orchestrator, unit) registry) new_resume_event (new_context ''i'')
     \<lparr>is_suspended = True, suspended_events = [new_suspend_event, new_event_raised_event ''go'' None]\<rparr> = None"
  by (rule second_suspension_diverges [where sev = new_suspend_event and ev = "new_event_raised_event ''go'' None" and evs = "[]"])
    (simp_all add: new_suspend_event_def new_resume_event_def new_event_raised_event_def mk_event_def is_suspendable_def)

end
