(* ===== verification/ExecutorProps.thy ===== *)
theory ExecutorProps
  imports Suspension
begin

text \<open>
  What one execution promises: the numbering of the actions it returns, the single completion
  action, the check of replayed actions against the history, and the failure of the workflow on an
  exception that escapes the orchestrator. The locale interpretations of ExecutorInv carry the
  proofs.
\<close>

section \<open>A sample execution\<close>

text \<open>
  The programs of the witnesses: a workflow that calls one activity and returns its result, and one
  that waits for an event.
\<close>

definition await_value :: "pyval res \<Rightarrow> gen" where
  "await_value r = (case r of
     Inr t \<Rightarrow> GYield t (\<lambda>q. case q of Inr v \<Rightarrow> GReturn v | Inl e \<Rightarrow> GRaise e)
   | Inl e \<Rightarrow> GRaise e)"

definition one_activity :: "pyval \<Rightarrow> gen" where
  "one_activity v = GCall (OpCallActivity (FnName ''act'') v None None None) await_value"

definition demo_registry :: "(orchestrator, unit) registry" where
  "demo_registry = \<lparr>orchestrators = [(''wf'', GenOrch one_activity)], versioned_orchestrators = [],
     latest_version_name = [], activities = []\<rparr>"

definition demo_started :: "event list" where
  "demo_started = [new_workflow_started_event None, new_execution_started_event ''wf'' ''i1'' None]"

lemmas run_simps = process_event_def process.simps [of _ "Inl ev" for ev] handle_event_def
  is_suspendable_def new_executor_def catch_stop_def done_with_def then_resume_def

lemma drive_simps [simp]:
  "drive u5 (GReturn v) s = Some (Returned v, s)"
  "drive u5 (GRaise e) s = Some (Raised e, s)"
  "drive u5 (GYield v k) s = Some (Yielded v k, s)"
  "drive u5 (GCall opn k) s = drive u5 (k (fst (run_op u5 opn s))) (snd (run_op u5 opn s))"
  by (simp_all add: drive.simps case_prod_beta)

lemma demo_executes:
  "execute u5 demo_registry ''i1'' [] demo_started = Some (Inr
     \<lparr>er_actions = [new_schedule_task_action 1 ''act'' None no_router
        (u5 (guid_name ''i1'' (to_datetime zero_timestamp) 0)) None],
      er_custom_status = None, er_version_name = None, er_patches = []\<rparr>)"
  by (simp add: execute_def replay_and_run_def run_simps demo_started_def new_workflow_started_event_def
      new_execution_started_event_def mk_event_def handle_workflow_started_def handle_execution_started_def
      get_orchestrator_def demo_registry_def dict_simps dict_has_def sv_value_def start_orchestrator_def
      run_def one_activity_def new_context_def call_activity_def next_sequence_number_eq uuid4_def
      call_activity_function_helper_def encode_result_def call_action_def ref_name_def res_bind_def
      add_action_def add_task_def alloc_def returning_def await_value_def previous_complete_def
      is_complete_def new_task_def settle_def get_actions_def call_router_def no_router_def
      deterministic_uuid_v5_def)

text \<open>
  C8. The actions of an execution are numbered: whatever the orchestrators do and whatever history is
  replayed, the actions that \<open>execute\<close> returns have pairwise different ids, all at least 1.
\<close>

theorem execute_actions_numbered:
  assumes "execute u5 reg inst old new = Some (Inr res)"
  shows "distinct (map act_id (er_actions res)) \<and> (\<forall>a \<in> set (er_actions res). 1 \<le> act_id a)"
proof -
  obtain r s x s1 where "replay_and_run u5 reg inst old new = Some (r, s, x)"
    and g: "get_actions (settle r s) = (Inr (er_actions res), s1)"
    using execute_SomeE [OF assms] by metis
  then have "ctx_inv (settle r s)" by (intro ctx_inv_settle replay_and_run_inv)
  from get_actions_ids [OF this g] show ?thesis by fastforce
qed

theorem execute_actions_numbered_witness:
  "distinct (map act_id (er_actions \<lparr>er_actions = [new_schedule_task_action 1 ''act'' None no_router
        (id (guid_name ''i1'' (to_datetime zero_timestamp) 0)) None],
      er_custom_status = None, er_version_name = None, er_patches = []\<rparr>))"
  using execute_actions_numbered [OF demo_executes [of id]] by simp

lemma one_key:
  assumes "dict_wf d" and "\<And>i j v w. dict_get d i = Some v \<Longrightarrow> dict_get d j = Some w \<Longrightarrow> Q v \<Longrightarrow> Q w \<Longrightarrow> i = j"
  shows "length (filter Q (map snd d)) \<le> 1"
proof -
  let ?xs = "filter (\<lambda>p. Q (snd p)) d"
  have d: "distinct (dict_keys ?xs)" using assms(1) by (simp add: dict_wf_def distinct_map_filter)
  have same: "fst p = fst q" if "p \<in> set ?xs" "q \<in> set ?xs" for p q
    using assms(2) [of "fst p" "snd p" "fst q" "snd q"] that dict_get_in [OF assms(1)] by (auto simp: prod_eq_iff)
  have "length ?xs \<le> 1"
  proof (rule ccontr)
    assume "\<not> length ?xs \<le> 1"
    then obtain p q ps where xs: "?xs = p # q # ps" by (metis One_nat_def Suc_le_length_iff not_less_eq_eq)
    have "fst p = fst q" by (rule same) (simp_all only: xs list.set insert_iff simp_thms)
    moreover have "fst p \<noteq> fst q" using d unfolding xs by simp
    ultimately show False by simp
  qed
  then show ?thesis by (simp add: filter_map comp_def)
qed

text \<open>
  C7. An execution answers at most once: the actions that \<open>execute\<close> returns hold at most one completion
  of the workflow, even when a termination, a failure and the end of the orchestrator meet in one
  batch of events.
\<close>

theorem execute_completes_once:
  assumes "execute u5 reg inst old new = Some (Inr res)"
  shows "length (filter is_complete_action (er_actions res)) \<le> 1"
proof -
  obtain r s x s1 where "replay_and_run u5 reg inst old new = Some (r, s, x)"
    and g: "get_actions (settle r s) = (Inr (er_actions res), s1)"
    using execute_SomeE [OF assms] by metis
  then have inv: "ctx_inv (settle r s)" by (intro ctx_inv_settle replay_and_run_inv)
  show ?thesis
  proof (cases "completion_status (settle r s) = Some CONTINUED_AS_NEW")
    case True
    then have "length as \<le> 1" if "get_actions (settle r s) = (Inr as, s1)" for as
      using that by (auto simp: get_actions_def next_sequence_number_eq split: sum.splits)
    from this [OF g] show ?thesis by (metis length_filter_le order_trans)
  next
    case False
    with g have "er_actions res = map snd (pending_actions (settle r s))" by (auto simp: get_actions_def)
    then show ?thesis
      using inv one_key [of "pending_actions (settle r s)" is_complete_action]
      by (simp add: ctx_inv_def ids_ok_def ends_once_def)
  qed
qed

theorem execute_completes_once_witness:
  "length (filter is_complete_action [new_schedule_task_action 1 ''act'' None no_router
        (id (guid_name ''i1'' (to_datetime zero_timestamp) 0)) None]) \<le> 1"
  using execute_completes_once [OF demo_executes [of id]] by simp

text \<open>
  Replay checks what was scheduled: a \<open>taskScheduled\<close> event of the history is accepted exactly when
  the action at its id, after an optional timer in its way has been dropped, schedules an activity of
  the same name; then that action is settled. Everything else raises: a missing action or another name
  is a \<open>NonDeterminismError\<close>, and so is every other action except a completion, whose error message
  cannot be built (\<open>NotImplementedError\<close>).
\<close>

lemma task_scheduled_checked:
  "handle_task_scheduled i name s = (case take_action i s of (oa, s') \<Rightarrow>
     if (\<exists>a inp rt x sc. oa = Some a \<and> act_body a = ScheduleTask name inp rt x sc) then Some (Continue, s')
     else Some (Raise (if oa = None then get_non_determinism_error i ''call_activity''
       else case act_body (the oa) of
         ScheduleTask n inp rt x sc \<Rightarrow> get_wrong_action_name_error i ''call_activity'' name n
       | _ \<Rightarrow> get_wrong_action_type_error i ''call_activity'' (the oa)), s')) \<and>
   dict_get (pending_actions (snd (take_action i s))) i = None"
  by (auto simp: handle_task_scheduled_def take_action_def Let_def dict_get_del
      split: prod.split option.split action_body.split)

text \<open>
  A mismatch fails the workflow: when the last event processed raises, the actions of the
  execution are a single \<open>FAILED\<close> completion with the details of that exception, unless the
  orchestration was complete already or the version is not registered.
\<close>

theorem raised_fails_workflow:
  assumes "replay_and_run u5 reg inst old new = Some (Inl e, s, x)" and "new \<noteq> []"
    and "\<not> ctx_complete s" and "ex_kind e \<noteq> VersionNotRegisteredException"
  shows "execute u5 reg inst old new = Some (Inr
    \<lparr>er_actions = [new_complete_workflow_action (sequence_number s + 1) FAILED None
        (Some (new_failure_details e)) None (completion_router s)],
     er_custom_status = encoded_custom_status s, er_version_name = version_name s,
     er_patches = encountered_patches s\<rparr>)"
  using assms by (simp add: execute_def settle_def set_failed_def Let_def next_sequence_number_eq add_action_def
      dict_simps get_actions_def completion_router_def)

definition mismatched :: "event list" where
  "mismatched = demo_started @ [new_task_scheduled_event 1 ''other'' None]"

lemma mismatched_raises:
  "\<exists>s x. replay_and_run u5 demo_registry ''i1'' [] mismatched =
     Some (Inl (get_wrong_action_name_error 1 ''call_activity'' ''other'' ''act''), s, x) \<and> \<not> ctx_complete s"
  by (simp add: replay_and_run_def run_simps demo_started_def mismatched_def new_workflow_started_event_def
      new_execution_started_event_def new_task_scheduled_event_def mk_event_def handle_workflow_started_def
      handle_execution_started_def get_orchestrator_def demo_registry_def dict_simps dict_has_def sv_value_def
      start_orchestrator_def run_def one_activity_def new_context_def call_activity_def next_sequence_number_eq
      uuid4_def call_activity_function_helper_def encode_result_def call_action_def ref_name_def res_bind_def
      add_action_def add_task_def alloc_def returning_def await_value_def previous_complete_def
      is_complete_def new_task_def handle_task_scheduled_def take_action_def new_schedule_task_action_def
      is_optional_timer_action_def)

lemma mismatched_nonempty: "mismatched \<noteq> []"
  by (simp add: mismatched_def)

lemma mismatched_kind: "ex_kind (get_wrong_action_name_error i m n k) \<noteq> VersionNotRegisteredException"
  by (simp add: get_wrong_action_name_error_def)

theorem raised_fails_workflow_witness:
  "\<exists>res. execute id demo_registry ''i1'' [] mismatched = Some (Inr res) \<and>
     (\<exists>i rt. er_actions res = [new_complete_workflow_action i FAILED None
        (Some (new_failure_details (get_wrong_action_name_error 1 ''call_activity'' ''other'' ''act''))) None rt])"
proof -
  obtain s x where "replay_and_run id demo_registry ''i1'' [] mismatched =
      Some (Inl (get_wrong_action_name_error 1 ''call_activity'' ''other'' ''act''), s, x)" "\<not> ctx_complete s"
    using mismatched_raises by blast
  from raised_fails_workflow [OF this(1) mismatched_nonempty this(2) mismatched_kind] show ?thesis
    by (metis (no_types, lifting) execution_results.select_convs(1))
qed

section \<open>Results that cannot be encoded\<close>

text \<open>
  A result that has no JSON encoding leaves the workflow without an answer: the context is complete before
  the result is encoded, so the exception cannot fail it any more, and no action is left, neither the
  result nor a failure.
\<close>

theorem unencodable_result_stalls:
  assumes "\<not> ctx_complete s" and "encode_result False v = Inl e" and "ex_kind e \<noteq> VersionNotRegisteredException"
    and "catch_stop (Stop v) s = (r, s1)"
  shows "r = Inl e \<and> fst (get_actions (settle r s1)) = Inr []"
  using assms by (auto simp: catch_stop_def set_complete_def Let_def settle_def set_failed_def get_actions_def)

theorem unencodable_result_stalls_witness:
  "\<exists>e s1. catch_stop (Stop (PTask 0)) (new_context ''i'') = (Inl e, s1) \<and> fst (get_actions (settle (Inl e) s1)) = Inr []"
proof -
  obtain e where e: "encode_result False (PTask 0) = Inl e" "ex_kind e = TypeError"
    by (simp add: encode_result_def to_json_def res_bind_def)
  obtain r s1 where c: "catch_stop (Stop (PTask 0)) (new_context ''i'') = (r, s1)" by fastforce
  have k: "ex_kind e \<noteq> VersionNotRegisteredException" using e(2) by simp
  have n: "\<not> ctx_complete (new_context ''i'')" by (simp add: new_context_def)
  from unencodable_result_stalls [OF n e(1) k c] c show ?thesis by auto
qed

text \<open>An event carried over to the next generation loses its payload if the payload is falsy.\<close>

lemma carryover_loses_falsy:
  "\<not> truthy v \<Longrightarrow> carryover_event name v = carryover_event name PNone"
  by (simp add: carryover_event_def)

end
