(* ===== verification/Returns.thy ===== *)
theory Returns
  imports ExecutorProps
begin

text \<open>
  Executions return: with finite programs, and no suspension that arrives while suspended, every
  loop of the executor ends.
\<close>

section \<open>Programs that return\<close>

text \<open>
  A program is finite when it reaches a return or a raise whatever the context answers: it is a
  well-founded tree, though it may branch over infinitely many answers.
\<close>

inductive finite_gen :: "gen \<Rightarrow> bool" where
  finite_return: "finite_gen (GReturn v)"
| finite_raise: "finite_gen (GRaise e)"
| finite_yield: "(\<And>r. finite_gen (k r)) \<Longrightarrow> finite_gen (GYield v k)"
| finite_call: "(\<And>r. finite_gen (k r)) \<Longrightarrow> finite_gen (GCall opn k)"

inductive_simps finite_gen_simps [simp]:
  "finite_gen (GReturn v)" "finite_gen (GRaise e)" "finite_gen (GYield v k)" "finite_gen (GCall opn k)"

text \<open>A plain function has no yield.\<close>

inductive plain_gen :: "gen \<Rightarrow> bool" where
  plain_return: "plain_gen (GReturn v)"
| plain_raise: "plain_gen (GRaise e)"
| plain_call: "(\<And>r. plain_gen (k r)) \<Longrightarrow> plain_gen (GCall opn k)"

fun finite_orch :: "orchestrator \<Rightarrow> bool" where
  "finite_orch (GenOrch f) \<longleftrightarrow> (\<forall>v. finite_gen (f v))"
| "finite_orch (PlainOrch f) \<longleftrightarrow> (\<forall>v. plain_gen (f v))"

definition finite_registry :: "(orchestrator, 'a) registry \<Rightarrow> bool" where
  "finite_registry reg \<longleftrightarrow>
     (\<forall>n fn. dict_get (orchestrators reg) n = Some fn \<longrightarrow> finite_orch fn) \<and>
     (\<forall>n vs v fn. dict_get (versioned_orchestrators reg) n = Some vs \<and> dict_get vs v = Some fn \<longrightarrow> finite_orch fn)"

text \<open>The continuation of a suspended generator satisfies \<open>Q\<close>, whatever it is resumed with.\<close>

definition gen_state_ok :: "(gen \<Rightarrow> bool) \<Rightarrow> ctx \<Rightarrow> bool" where
  "gen_state_ok Q s \<longleftrightarrow> (\<forall>k r. generator s = SuspendedGen k \<longrightarrow> Q (k r))"

abbreviation finite_state :: "ctx \<Rightarrow> bool" where
  "finite_state \<equiv> gen_state_ok finite_gen"

text \<open>
  Driving a finite program reaches its next yield or its end, and if it was suspended at the
  yield, resuming it returns, by induction on the tree.
\<close>

definition resumable :: "(string \<Rightarrow> string) \<Rightarrow> (pyval res \<Rightarrow> gen) \<Rightarrow> bool" where
  "resumable u5 k \<longleftrightarrow> (\<forall>s. generator s = SuspendedGen k \<longrightarrow>
     (\<exists>f s'. resume_loop u5 s = Some (f, s') \<and> finite_state s'))"

lemma gen_state_simps [simp]:
  "gen_state_ok Q (s\<lparr>generator := FinishedGen\<rparr>)"
  "gen_state_ok Q (s\<lparr>generator := SuspendedGen k\<rparr>) \<longleftrightarrow> (\<forall>r. Q (k r))"
  by (auto simp: gen_state_ok_def)

lemma drive_finite:
  assumes "finite_gen g"
  shows "\<exists>oc s'. drive u5 g s = Some (oc, s') \<and>
    (\<forall>v k. oc = Yielded v k \<longrightarrow> (\<forall>r. finite_gen (k r)) \<and> resumable u5 k)"
  using assms
proof (induction arbitrary: s rule: finite_gen.induct)
  case (finite_yield k v)
  have "resumable u5 k"
    unfolding resumable_def
  proof (intro allI impI)
    fix s :: ctx assume g: "generator s = SuspendedGen k"
    have fin: "finite_state s" using g finite_yield.hyps by (simp add: gen_state_ok_def)
    show "\<exists>f s'. resume_loop u5 s = Some (f, s') \<and> finite_state s'"
    proof (cases "previous_complete s = Inr True")
      case False
      then show ?thesis using fin by (subst resume_loop.simps) (auto split: sum.splits)
    next
      case True
      obtain oc s1 where d: "drive u5 (k (previous_outcome s)) s = Some (oc, s1)"
        and y: "\<And>v k. oc = Yielded v k \<Longrightarrow> (\<forall>r. finite_gen (k r)) \<and> resumable u5 k"
        using finite_yield.IH [of "previous_outcome s" s] by blast
      have w: "resume_with u5 (previous_outcome s) s = Some (oc, s1)" using g d by (simp add: resume_with_def)
      show ?thesis
      proof (cases oc)
        case (Yielded v' k')
        let ?s2 = "s1\<lparr>generator := SuspendedGen k', previous_task := v'\<rparr>"
        have "\<exists>f s'. resume_loop u5 ?s2 = Some (f, s') \<and> finite_state s'"
          using y [OF Yielded] by (simp add: resumable_def)
        then show ?thesis using Yielded w True y [OF Yielded] by (subst resume_loop.simps) auto
      next
        case (Returned v')
        with w True show ?thesis by (subst resume_loop.simps) simp
      next
        case (Raised e')
        with w True show ?thesis by (subst resume_loop.simps) simp
      qed
    qed
  qed
  with finite_yield.hyps show ?case by simp
qed auto

lemma plain_finite:
  assumes "plain_gen g"
  shows "\<exists>oc s'. drive u5 g s = Some (oc, s') \<and> (\<forall>v k. oc \<noteq> Yielded v k)"
  using assms by (induction arbitrary: s rule: plain_gen.induct) auto

lemma resume_finite:
  assumes "finite_state s"
  shows "\<exists>f s'. resume u5 s = Some (f, s') \<and> finite_state s'"
proof (cases "generator s")
  case NoGen
  with assms show ?thesis by (simp add: resume_def)
next
  case (SuspendedGen k)
  have "\<forall>r. finite_gen (k r)" using assms SuspendedGen by (simp add: gen_state_ok_def)
  then have "finite_gen (GYield PNone k)" by simp
  from drive_finite [OF this, of u5 s] have "resumable u5 k" by auto
  with SuspendedGen show ?thesis by (simp add: resume_def resumable_def)
next
  case FinishedGen
  show ?thesis
  proof (cases "previous_complete s = Inr True")
    case True
    with FinishedGen show ?thesis
      by (cases "previous_outcome s") (simp_all add: resume_def resume_loop.simps resume_with_def)
  next
    case False
    with FinishedGen assms show ?thesis by (auto simp: resume_def resume_loop.simps split: sum.splits)
  qed
qed

lemma run_finite:
  assumes "finite_gen g" and "finite_state s"
  shows "\<exists>f s'. run u5 g s = Some (f, s') \<and> finite_state s'"
proof -
  obtain oc s1 where d: "drive u5 g s = Some (oc, s1)"
    and y: "\<And>v k. oc = Yielded v k \<Longrightarrow> (\<forall>r. finite_gen (k r)) \<and> resumable u5 k"
    using drive_finite [OF assms(1), of u5 s] by blast
  show ?thesis
  proof (cases oc)
    case (Yielded v k)
    let ?s2 = "s1\<lparr>generator := SuspendedGen k, previous_task := v\<rparr>"
    have fin: "finite_state ?s2" using y [OF Yielded] by (simp add: gen_state_ok_def)
    have "\<exists>f s'. (case previous_complete ?s2 of Inl e \<Rightarrow> Some (Raise e, ?s2)
        | Inr False \<Rightarrow> Some (Continue, ?s2) | Inr True \<Rightarrow> resume u5 ?s2) = Some (f, s') \<and> finite_state s'"
      using fin resume_finite [OF fin, of u5] by (auto split: sum.split bool.split)
    then show ?thesis using d Yielded by (simp add: run_def Let_def)
  qed (use d in \<open>simp_all add: run_def\<close>)
qed

lemma gen_state_update [simp]:
  "gen_state_ok Q (c\<lparr>previous_task := x0\<rparr>) = gen_state_ok Q c" "gen_state_ok Q (c\<lparr>is_replaying := x1\<rparr>) = gen_state_ok Q c"
  "gen_state_ok Q (c\<lparr>ctx_complete := x2\<rparr>) = gen_state_ok Q c" "gen_state_ok Q (c\<lparr>ctx_result := x3\<rparr>) = gen_state_ok Q c"
  "gen_state_ok Q (c\<lparr>pending_actions := x4\<rparr>) = gen_state_ok Q c" "gen_state_ok Q (c\<lparr>pending_tasks := x5\<rparr>) = gen_state_ok Q c"
  "gen_state_ok Q (c\<lparr>sequence_number := x6\<rparr>) = gen_state_ok Q c" "gen_state_ok Q (c\<lparr>current_utc_datetime := x7\<rparr>) = gen_state_ok Q c"
  "gen_state_ok Q (c\<lparr>ctx_app_id := x8\<rparr>) = gen_state_ok Q c" "gen_state_ok Q (c\<lparr>completion_status := x9\<rparr>) = gen_state_ok Q c"
  "gen_state_ok Q (c\<lparr>received_events := x10\<rparr>) = gen_state_ok Q c" "gen_state_ok Q (c\<lparr>pending_events := x11\<rparr>) = gen_state_ok Q c"
  "gen_state_ok Q (c\<lparr>tasks := x12\<rparr>) = gen_state_ok Q c" "gen_state_ok Q (c\<lparr>new_input := x13\<rparr>) = gen_state_ok Q c"
  "gen_state_ok Q (c\<lparr>save_events := x14\<rparr>) = gen_state_ok Q c" "gen_state_ok Q (c\<lparr>encoded_custom_status := x15\<rparr>) = gen_state_ok Q c"
  "gen_state_ok Q (c\<lparr>orchestrator_version_name := x16\<rparr>) = gen_state_ok Q c" "gen_state_ok Q (c\<lparr>version_name := x17\<rparr>) = gen_state_ok Q c"
  "gen_state_ok Q (c\<lparr>history_patches := x18\<rparr>) = gen_state_ok Q c" "gen_state_ok Q (c\<lparr>encountered_patches := x19\<rparr>) = gen_state_ok Q c"
  "gen_state_ok Q (c\<lparr>timestamp_counter := x20\<rparr>) = gen_state_ok Q c" "gen_state_ok Q (c\<lparr>uuid_counter := x21\<rparr>) = gen_state_ok Q c"
  "gen_state_ok Q (c\<lparr>applied_patches := x22\<rparr>) = gen_state_ok Q c" "gen_state_ok Q (upd_task t f c) = gen_state_ok Q c" "gen_state_ok Q (add_action ac c) = gen_state_ok Q c"
  "gen_state_ok Q (add_task j t c) = gen_state_ok Q c" "gen_state_ok Q (unregister_event_task key t c) = gen_state_ok Q c"
  by (simp_all add: gen_state_ok_def upd_task_def add_action_def add_task_def unregister_event_task_def Let_def
      split: option.split)

lemma gen_state_store: "store_only c c' \<Longrightarrow> gen_state_ok Q c' = gen_state_ok Q c"
proof -
  assume "store_only c c'"
  then have eq: "c' = c\<lparr>tasks := tasks c', pending_events := pending_events c'\<rparr>" by (simp add: store_only_def)
  have "gen_state_ok Q (c\<lparr>tasks := tasks c', pending_events := pending_events c'\<rparr>) = gen_state_ok Q c" by simp
  then show ?thesis using eq by simp
qed

lemma gen_state_ops [simp]:
  "gen_state_ok Q (snd (task_complete t v c)) = gen_state_ok Q c" "gen_state_ok Q (snd (task_fail t msg d c)) = gen_state_ok Q c"
  "gen_state_ok Q (snd (alloc k c)) = gen_state_ok Q c"
  by (intro gen_state_store store_only_completion store_only_alloc)+

lemma gen_state_drop [simp]: "gen_state_ok Q (snd (drop_optional_pending_at i c)) = gen_state_ok Q c"
  by (auto simp: drop_optional_pending_at_def split: option.split)

lemma gen_state_set_complete [simp]: "gen_state_ok Q (snd (set_complete v st b c)) = gen_state_ok Q c"
  by (auto simp: set_complete_def Let_def next_sequence_number_eq split: sum.split)

lemma gen_state_create_timer [simp]: "gen_state_ok Q (snd (create_timer_internal f r og c)) = gen_state_ok Q c"
  by (auto simp: create_timer_internal_def next_sequence_number_eq alloc_def split: sum.split option.split)

lemma gen_state_helper [simp]:
  "gen_state_ok Q (snd (call_activity_function_helper oi fn spec sub inst app x sc c)) = gen_state_ok Q c"
  by (auto simp: call_activity_function_helper_def next_sequence_number_eq alloc_def Let_def
      split: sum.split option.split call_spec.split prod.split)

lemma gen_state_op_then:
  assumes "gen_state_ok Q (snd r)" and "\<And>x c. r = (Inr x, c) \<Longrightarrow> gen_state_ok Q c \<Longrightarrow> gen_state_ok Q (snd (f x c))"
  shows "gen_state_ok Q (snd (op_then r f))"
  using assms by (cases r) (auto simp: op_then_def split: sum.split)

lemma gen_state_composites [simp]:
  "gen_state_ok Q (snd (task_cancel t e c)) = gen_state_ok Q c"
  "gen_state_ok Q (snd (when_all cs c)) = gen_state_ok Q c" "gen_state_ok Q (snd (when_any cs c)) = gen_state_ok Q c"
  "gen_state_ok Q (snd (external_event_with_timeout ev t name timeout key c)) = gen_state_ok Q c"
  by (intro gen_state_store store_only_completion store_only_composites)+

lemma gen_state_wait: "gen_state_ok Q c \<Longrightarrow> gen_state_ok Q (snd (wait_for_external_event name timeout c))"
  unfolding wait_for_external_event_def alloc_def case_prod_conv Let_def
  by (intro gen_state_op_then)
    (auto simp: take_or_wait_def take_buffered_def split: list.split option.split intro!: gen_state_op_then)

lemma gen_state_op: "gen_state_ok Q c \<Longrightarrow> gen_state_ok Q (snd (run_op u5 opn c))"
proof (cases opn)
  case (OpSetCustomStatus v)
  assume "gen_state_ok Q c"
  with OpSetCustomStatus show ?thesis by (auto simp: set_custom_status_def split: pyval.split sum.split)
next
  case (OpCallSubOrchestrator f v i r a sc)
  assume "gen_state_ok Q c"
  with OpCallSubOrchestrator show ?thesis
    by (auto simp: call_sub_orchestrator_def next_sequence_number_eq split: sum.split)
next
  case (OpIsPatched p)
  assume "gen_state_ok Q c"
  with OpIsPatched show ?thesis
    by (auto simp: is_patched_def is_patched_inner_def Let_def split: option.split prod.split)
qed (auto simp: create_timer_def on_tasks_def uuid4_def now_with_sequence_def continue_as_new_def
      set_continued_as_new_def call_activity_def next_sequence_number_eq gen_state_wait)

lemma done_with_finite: "finite_state (snd r) \<Longrightarrow> \<exists>f s'. done_with r = Some (f, s') \<and> finite_state s'"
  by (cases r) (auto simp: done_with_def split: sum.split)

lemma then_resume_finite: "finite_state (snd r) \<Longrightarrow> \<exists>f s'. then_resume u5 r = Some (f, s') \<and> finite_state s'"
  by (cases r) (auto simp: then_resume_def resume_finite split: sum.split)

lemma gen_state_take_action [simp]: "gen_state_ok Q (snd (take_action i c)) = gen_state_ok Q c"
  by (auto simp: take_action_def Let_def split: option.split)

lemma gen_state_pair:
  "task_complete t v c = (r, c') \<Longrightarrow> gen_state_ok Q c' = gen_state_ok Q c"
  "take_action i c = (oa, c') \<Longrightarrow> gen_state_ok Q c' = gen_state_ok Q c"
  using gen_state_ops(1) [of Q t v c] gen_state_take_action [of Q i c] by simp_all

lemma start_finite:
  assumes "finite_orch fn" and "finite_state s"
  shows "\<exists>f s'. start_orchestrator u5 fn v s = Some (f, s') \<and> finite_state s'"
proof (cases fn)
  case (GenOrch g)
  with assms run_finite [of "g v" s u5] show ?thesis by (simp add: start_orchestrator_def)
next
  case (PlainOrch g)
  with assms(1) have "plain_gen (g v)" by simp
  from plain_finite [OF this, of u5 s] obtain oc s1
    where d: "drive u5 (g v) s = Some (oc, s1)" and ny: "\<forall>v k. oc \<noteq> Yielded v k" by blast
  have s1: "finite_state s1" if "plain_gen g'" "drive u5 g' s0 = Some (oc, s1)" "finite_state s0" for g' s0
    using that
  proof (induction arbitrary: s0 rule: plain_gen.induct)
    case (plain_call k opn)
    have "finite_state (snd (run_op u5 opn s0))" using plain_call.prems(2) gen_state_op by blast
    with plain_call show ?case by auto
  qed auto
  then have "finite_state s1" using \<open>plain_gen (g v)\<close> d assms(2) by blast
  then show ?thesis
    using d ny PlainOrch done_with_finite [of "set_complete r COMPLETED False s1" for r]
    by (cases oc) (auto simp: start_orchestrator_def)
qed

lemma gen_state_complete_pair:
  "task_complete t v c = (r, c') \<Longrightarrow> gen_state_ok Q c' = gen_state_ok Q c"
  "task_fail t m d c = (r, c') \<Longrightarrow> gen_state_ok Q c' = gen_state_ok Q c"
  using gen_state_ops(1) [of Q t v c] gen_state_ops(2) [of Q t m d c] by simp_all

lemma timer_fired_finite:
  assumes "finite_state s"
  shows "\<exists>f s'. handle_timer_fired u5 i s = Some (f, s') \<and> finite_state s'"
proof (cases "dict_get (pending_tasks s) i")
  case None
  with assms show ?thesis by (simp add: handle_timer_fired_def pop_task_def)
next
  case (Some t)
  let ?s1 = "s\<lparr>pending_tasks := dict_del i (pending_tasks s)\<rparr>"
  obtain r s2 where c: "task_complete t PNone ?s1 = (r, s2)" by fastforce
  have s2: "finite_state s2" using gen_state_complete_pair(1) [OF c] assms by simp
  have res: "finite_state (snd (reschedule q s2))" for q
    using s2 by (auto simp: reschedule_def split: task_class.split)
  show ?thesis
    using Some c s2 resume_finite [OF s2, of u5] done_with_finite [OF res]
    by (cases r; cases "t_retryable_parent (task_at s2 t)") (simp_all add: handle_timer_fired_def pop_task_def)
qed

lemma completed_finite:
  assumes "finite_state s"
  shows "\<exists>f s'. handle_completed u5 i p s = Some (f, s') \<and> finite_state s'"
  using assms then_resume_finite [of "task_complete t v (s\<lparr>pending_tasks := dict_del i (pending_tasks s)\<rparr>)" u5 for t v]
  by (auto simp: handle_completed_def pop_task_def split: option.split sum.split)

lemma failed_finite:
  assumes "finite_state s"
  shows "\<exists>f s'. handle_failed u5 msg og bad i d s = Some (f, s') \<and> finite_state s'"
proof (cases "dict_get (pending_tasks s) i")
  case None
  with assms show ?thesis by (simp add: handle_failed_def pop_task_def)
next
  case (Some t)
  let ?s1 = "s\<lparr>pending_tasks := dict_del i (pending_tasks s)\<rparr>"
  have f: "\<exists>f s'. then_resume u5 (task_fail t msg d ?s1) = Some (f, s') \<and> finite_state s'"
    by (rule then_resume_finite) (simp add: assms)
  have at: "\<exists>f s'. done_with (attempt_again t ri dl og ?s1) = Some (f, s') \<and> finite_state s'" for ri dl
    by (rule done_with_finite) (simp add: attempt_again_def assms)
  show ?thesis
    using Some assms f at
    by (auto simp: handle_failed_def pop_task_def split: task_class.split sum.split option.split)
qed

lemma event_raised_finite:
  assumes "finite_state s"
  shows "\<exists>f s'. handle_event_raised u5 n p s = Some (f, s') \<and> finite_state s'"
proof (cases "\<exists>t ts. dict_get (pending_events s) (casefold n) = Some (t # ts)")
  case True
  then obtain t ts where w: "dict_get (pending_events s) (casefold n) = Some (t # ts)" by blast
  let ?s1 = "s\<lparr>pending_events := dict_set (casefold n) ts (pending_events s)\<rparr>"
  show ?thesis
  proof (cases "decode_payload p")
    case (Inl e)
    with w assms show ?thesis by (simp add: handle_event_raised_def Let_def)
  next
    case (Inr v)
    obtain r s2 where c: "task_complete t v ?s1 = (r, s2)" by fastforce
    have s2: "finite_state s2" using gen_state_complete_pair(1) [OF c] assms by simp
    show ?thesis
      using w Inr c s2 resume_finite [of s2 u5]
        resume_finite [of "s2\<lparr>pending_events := dict_del (casefold n) (pending_events s2)\<rparr>" u5]
      by (cases r) (simp_all add: handle_event_raised_def Let_def)
  qed
next
  case False
  then have "handle_event_raised u5 n p s =
     (let s1 = s\<lparr>received_events := dict_set (casefold n) (buffered (casefold n) s) (received_events s)\<rparr>
      in case decode_payload p of
           Inl e \<Rightarrow> Some (Raise e, s1)
         | Inr v \<Rightarrow> Some (Continue, buffer_value (casefold n) v s1))"
    by (auto simp: handle_event_raised_def Let_def split: option.splits list.splits)
  with assms show ?thesis by (simp add: buffer_value_def Let_def split: sum.split)
qed

lemma registry_finite:
  "finite_registry reg \<Longrightarrow> get_orchestrator reg n v = Inr (Some fn, u) \<Longrightarrow> finite_orch fn"
  by (auto simp: finite_registry_def get_orchestrator_def dict_has_def split: if_splits option.splits)

lemma execution_started_finite:
  assumes "finite_registry reg" and "finite_state s"
  shows "\<exists>f s'. handle_execution_started u5 reg rt n inp s = Some (f, s') \<and> finite_state s'"
proof -
  define s1 where "s1 = s\<lparr>ctx_app_id := Some (if targetAppID rt \<noteq> [] then targetAppID rt else sourceAppID rt)\<rparr>"
  define ver where "ver = (case orchestrator_version_name s1 of
      Some v \<Rightarrow> if v = [] then None else Some v | None \<Rightarrow> None)"
  define pay where "pay = (if sv_value inp \<noteq> [] then from_json (sv_value inp) else Inr PNone)"
  have s1: "finite_state s1" using assms(2) by (simp add: s1_def)
  note unf = handle_execution_started_def Let_def s1_def [symmetric] ver_def [symmetric] pay_def [symmetric]
  show ?thesis
  proof (cases "\<exists>fn u. get_orchestrator reg n ver = Inr (Some fn, u)")
    case True
    then obtain fn u where g: "get_orchestrator reg n ver = Inr (Some fn, u)" by blast
    define s2 where "s2 = (case u of None \<Rightarrow> s1 | Some w \<Rightarrow> s1\<lparr>version_name := Some w\<rparr>)"
    have s2: "finite_state s2" using s1 by (simp add: s2_def split: option.split)
    have eq: "handle_execution_started u5 reg rt n inp s =
        (case pay of Inl e \<Rightarrow> Some (Raise e, s2) | Inr w \<Rightarrow> start_orchestrator u5 fn w s2)"
      unfolding unf g by (cases pay) (simp_all add: s2_def)
    show ?thesis
      unfolding eq using start_finite [OF registry_finite [OF assms(1) g] s2, of u5] s2
      by (cases pay) simp_all
  next
    case False
    then show ?thesis
      unfolding unf using s1
      by (cases "get_orchestrator reg n ver") (auto split: prod.split option.split)
  qed
qed

lemma handle_event_finite:
  assumes "finite_registry reg" and "finite_state s"
  shows "\<exists>f s'. handle_event u5 reg ev s = Some (f, s') \<and> finite_state s'"
proof -
  have ta: "finite_state c" if "take_action i s = (oa, c)" for i oa c
    using gen_state_take_action [of finite_gen i s] that assms(2) by simp
  show ?thesis
  proof (cases "ev_body ev")
    case (TimerCreated ts og)
    then show ?thesis
      using assms(2)
      by (auto simp: handle_event_def handle_timer_created_def Let_def split: option.split action_body.split)
  next
    case (TaskScheduled n inp)
    obtain oa c where t: "take_action (eventId ev) s = (oa, c)" by fastforce
    from TaskScheduled t ta [OF t] show ?thesis
      by (auto simp: handle_event_def handle_task_scheduled_def split: option.split action_body.split)
  next
    case (ChildWorkflowInstanceCreated n inp inst)
    obtain oa c where t: "take_action (eventId ev) s = (oa, c)" by fastforce
    from ChildWorkflowInstanceCreated t ta [OF t] show ?thesis
      by (auto simp: handle_event_def handle_child_created_def split: option.split action_body.split)
  next
    case (ExecutionTerminated out)
    then show ?thesis
      using done_with_finite [of "set_complete PNone TERMINATED True s"]
        done_with_finite [of "set_complete (PStr (sv_value out)) TERMINATED True s"] assms(2)
      by (simp add: handle_event_def handle_terminated_def)
  next
    case (WorkflowStarted n ps)
    then show ?thesis using assms(2) by (simp add: handle_event_def handle_workflow_started_def Let_def)
  qed (use assms in \<open>simp_all add: handle_event_def handle_task_failed_def handle_child_failed_def
        timer_fired_finite completed_finite failed_finite event_raised_finite execution_started_finite\<close>)
qed

section \<open>The loops return\<close>

text \<open>No suspension arrives while the execution is suspended already.\<close>

fun never_twice :: "bool \<Rightarrow> event list \<Rightarrow> bool" where
  "never_twice sus [] = True"
| "never_twice sus (e # es) =
     (if ev_body e = ExecutionSuspended then \<not> sus \<and> never_twice True es
      else if ev_body e = ExecutionResumed then never_twice False es
      else never_twice sus es)"

definition buffer_ok :: "executor \<Rightarrow> bool" where
  "buffer_ok x \<longleftrightarrow> (\<forall>e \<in> set (suspended_events x). ev_body e \<noteq> ExecutionSuspended)"

lemma catch_stop_finite [simp]: "finite_state s \<Longrightarrow> finite_state (snd (catch_stop f s))"
  by (cases f) (simp_all add: catch_stop_def)

lemma running_returns:
  assumes "finite_registry reg" and "finite_state s" and "\<not> is_suspended x" and "ev_body ev \<noteq> ExecutionSuspended"
  shows "\<exists>r s'. process (handle_event u5 reg) (Inl ev) (s, x) = Some (r, s', x) \<and> finite_state s'"
proof -
  obtain f s1 where h: "handle_event u5 reg ev s = Some (f, s1)" "finite_state s1"
    using handle_event_finite [OF assms(1,2)] by blast
  then show ?thesis using assms(4) by (simp add: process_running [OF assms(3)])
qed

lemma resume_loop_returns:
  assumes "finite_registry reg" and "finite_state s" and "\<not> is_suspended x" and "buffer_ok x"
  shows "\<exists>r s' x'. process (handle_event u5 reg) (Inr i) (s, x) = Some (r, s', x') \<and> finite_state s' \<and>
     (r = Inr () \<longrightarrow> x' = x\<lparr>suspended_events := []\<rparr>)"
  using assms(2)
proof (induction "length (suspended_events x) - i" arbitrary: i s)
  case 0
  then show ?case by (subst process_loop) simp
next
  case (Suc n)
  let ?ev = "suspended_events x ! i"
  have i: "i < length (suspended_events x)" using Suc.hyps(2) by simp
  then have "ev_body ?ev \<noteq> ExecutionSuspended" using assms(4) by (simp add: buffer_ok_def)
  from running_returns [OF assms(1) Suc.prems assms(3) this] obtain r s1 where
    p: "process (handle_event u5 reg) (Inl ?ev) (s, x) = Some (r, s1, x)" and s1: "finite_state s1" by blast
  show ?case
  proof (cases r)
    case (Inl e)
    with p s1 i show ?thesis by (subst process_loop) simp
  next
    case (Inr z)
    have "\<exists>r s' x'. process (handle_event u5 reg) (Inr (Suc i)) (s1, x) = Some (r, s', x') \<and> finite_state s' \<and>
     (r = Inr () \<longrightarrow> x' = x\<lparr>suspended_events := []\<rparr>)"
      by (rule Suc.hyps(1)) (use Suc.hyps(2) s1 in simp_all)
    with p i Inr show ?thesis by (subst process_loop) simp
  qed
qed

lemma process_events_return:
  assumes "finite_registry reg" and "finite_state s" and "buffer_ok x" and "never_twice (is_suspended x) evs"
  shows "\<exists>r s' x'. process_events u5 reg evs s x = Some (r, s', x') \<and> finite_state s' \<and>
     (r = Inr () \<longrightarrow> buffer_ok x' \<and> (\<forall>fs. never_twice (is_suspended x) (evs @ fs) \<longrightarrow> never_twice (is_suspended x') fs))"
  using assms(2-4)
proof (induction evs arbitrary: s x)
  case (Cons ev evs)
  let ?sus = "if ev_body ev = ExecutionSuspended then True
    else if ev_body ev = ExecutionResumed then False else is_suspended x"
  have "\<exists>r s1 x1. process_event u5 reg ev s x = Some (r, s1, x1) \<and> finite_state s1 \<and>
      (r = Inr () \<longrightarrow> buffer_ok x1 \<and> is_suspended x1 = ?sus)"
  proof -
    consider "is_suspended x" "is_suspendable ev" | "is_suspended x" "ev_body ev = ExecutionResumed"
      | "is_suspended x" "\<not> is_suspendable ev" "ev_body ev \<noteq> ExecutionResumed"
      | "\<not> is_suspended x" "ev_body ev = ExecutionSuspended"
      | "\<not> is_suspended x" "ev_body ev \<noteq> ExecutionSuspended" by blast
    then show ?thesis
    proof cases
      case 1
      with Cons.prems show ?thesis
        by (auto simp: process_event_def buffer_ok_def is_suspendable_def split: if_splits)
    next
      case 2
      with resume_loop_returns [OF assms(1) Cons.prems(1), of "x\<lparr>is_suspended := False\<rparr>" u5 0] Cons.prems(2)
      obtain r s' x' where "process (handle_event u5 reg) (Inr 0) (s, x\<lparr>is_suspended := False\<rparr>) = Some (r, s', x')"
        "finite_state s'" "r = Inr () \<longrightarrow> x' = x\<lparr>is_suspended := False, suspended_events := []\<rparr>"
        by (auto simp: buffer_ok_def)
      with 2 show ?thesis by (auto simp: process_event_def process_resumed buffer_ok_def)
    next
      case 3
      obtain f s1 where h: "handle_event u5 reg ev s = Some (f, s1)" "finite_state s1"
        using handle_event_finite [OF assms(1) Cons.prems(1)] by blast
      have ns: "ev_body ev \<noteq> ExecutionSuspended" using 3 by (auto simp: is_suspendable_def)
      have "process_event u5 reg ev s x = Some (fst (catch_stop f s1), snd (catch_stop f s1), x)"
        using 3 h ns unfolding process_event_def by (subst process.simps) simp
      with h 3 ns Cons.prems show ?thesis by simp
    next
      case 4
      with Cons.prems show ?thesis
        by (auto simp: process_event_def process_running handle_event_def catch_stop_def buffer_ok_def)
    next
      case 5
      from running_returns [OF assms(1) Cons.prems(1) 5, of u5] Cons.prems(2) 5
      show ?thesis by (auto simp: process_event_def)
    qed
  qed
  then obtain r s1 x1 where p: "process_event u5 reg ev s x = Some (r, s1, x1)" "finite_state s1"
    "r = Inr () \<longrightarrow> buffer_ok x1 \<and> is_suspended x1 = ?sus" by blast
  show ?case
  proof (cases r)
    case (Inl e)
    with p show ?thesis by simp
  next
    case (Inr z)
    have nt: "never_twice (is_suspended x) (ev # es) \<Longrightarrow> never_twice (is_suspended x1) es" for es
      using p(3) Inr by (auto split: if_splits)
    have "\<exists>r s' x'. process_events u5 reg evs s1 x1 = Some (r, s', x') \<and> finite_state s' \<and>
     (r = Inr () \<longrightarrow> buffer_ok x' \<and> (\<forall>fs. never_twice (is_suspended x1) (evs @ fs) \<longrightarrow> never_twice (is_suspended x') fs))"
      by (rule Cons.IH) (use p Inr nt Cons.prems(3) in auto)
    then obtain r' s' x' where q: "process_events u5 reg evs s1 x1 = Some (r', s', x')" "finite_state s'"
      "r' = Inr () \<longrightarrow> buffer_ok x' \<and> (\<forall>fs. never_twice (is_suspended x1) (evs @ fs) \<longrightarrow> never_twice (is_suspended x') fs)"
      by blast
    have "process_events u5 reg (ev # evs) s x = Some (r', s', x')" using p(1) Inr q(1) by simp
    moreover have "never_twice (is_suspended x) ((ev # evs) @ fs) \<Longrightarrow> r' = Inr () \<Longrightarrow> never_twice (is_suspended x') fs" for fs
      using nt [of "evs @ fs"] q(3) by simp
    ultimately show ?thesis using q(2,3) by blast
  qed
qed simp

text \<open>
  C2. Executions return: if every registered orchestrator is a finite program, plain functions do not
  yield, and no suspension arrives while suspended, then \<open>execute\<close> returns, with results or with an
  exception, for every history and every batch of new events.
\<close>

theorem execute_returns:
  assumes "finite_registry reg" and "never_twice False (old @ new)"
  shows "execute u5 reg inst old new \<noteq> None"
proof -
  have nt: "never_twice sus (as @ bs) \<Longrightarrow> never_twice sus as" for sus as bs
    by (induction as arbitrary: sus) (auto split: if_splits)
  have "\<exists>r s x. process_events u5 reg old ((new_context inst)\<lparr>is_replaying := True\<rparr>) new_executor = Some (r, s, x) \<and>
      finite_state s \<and> (r = Inr () \<longrightarrow> buffer_ok x \<and>
        (\<forall>fs. never_twice (is_suspended new_executor) (old @ fs) \<longrightarrow> never_twice (is_suspended x) fs))"
    by (rule process_events_return [OF assms(1)])
      (use nt assms(2) in \<open>auto simp: new_executor_def buffer_ok_def new_context_def gen_state_ok_def\<close>)
  then obtain r s x where p: "process_events u5 reg old ((new_context inst)\<lparr>is_replaying := True\<rparr>) new_executor = Some (r, s, x)"
    "finite_state s" "r = Inr () \<longrightarrow> buffer_ok x \<and> never_twice (is_suspended x) new"
    using assms(2) by (auto simp: new_executor_def)
  have "replay_and_run u5 reg inst old new \<noteq> None"
  proof (cases r)
    case (Inl e)
    with p(1) show ?thesis by (simp add: replay_and_run_def)
  next
    case (Inr z)
    with process_events_return [OF assms(1), of "s\<lparr>is_replaying := False\<rparr>" x new u5] p
    show ?thesis by (auto simp: replay_and_run_def)
  qed
  then show ?thesis by (auto simp: execute_def)
qed

lemma demo_finite: "finite_registry demo_registry"
proof -
  have "finite_orch (GenOrch one_activity)"
    by (auto simp: one_activity_def await_value_def split: sum.split)
  then show ?thesis by (simp add: finite_registry_def demo_registry_def dict_simps)
qed

theorem execute_returns_witness:
  "never_twice False ([] @ demo_started) \<and> execute id demo_registry ''i1'' [] demo_started \<noteq> None"
proof -
  have nt: "never_twice False ([] @ demo_started)"
    by (simp add: demo_started_def new_workflow_started_event_def new_execution_started_event_def mk_event_def)
  with execute_returns [OF demo_finite nt, of id "''i1''"] show ?thesis by blast
qed

end
