(* ===== verification/Replay.thy ===== *)
theory Replay
  imports Returns
begin

text \<open>
  Replay is deterministic: an execution does not depend on which of its events are replayed and which are
  new, as long as the orchestrators do not ask. The only place where the context remembers the
  difference is \<open>is_replaying\<close>; every operation commutes with setting it.
\<close>

section \<open>Setting the flag\<close>

definition mark :: "bool \<Rightarrow> ctx \<Rightarrow> ctx" where
  "mark b s = s\<lparr>is_replaying := b\<rparr>"

abbreviation marked :: "bool \<Rightarrow> 'x \<times> ctx \<Rightarrow> 'x \<times> ctx" where
  "marked b \<equiv> apsnd (mark b)"

lemma mark_mark [simp]: "mark b (mark c s) = mark b s"
  by (simp add: mark_def)

lemma mark_sel [simp]:
  "tasks (mark b s) = tasks s" "pending_events (mark b s) = pending_events s" "generator (mark b s) = generator s"
  "previous_task (mark b s) = previous_task s" "ctx_complete (mark b s) = ctx_complete s"
  "ctx_result (mark b s) = ctx_result s" "pending_actions (mark b s) = pending_actions s"
  "pending_tasks (mark b s) = pending_tasks s" "sequence_number (mark b s) = sequence_number s"
  "current_utc_datetime (mark b s) = current_utc_datetime s" "ctx_instance_id (mark b s) = ctx_instance_id s"
  "ctx_app_id (mark b s) = ctx_app_id s" "completion_status (mark b s) = completion_status s"
  "received_events (mark b s) = received_events s" "new_input (mark b s) = new_input s"
  "save_events (mark b s) = save_events s" "encoded_custom_status (mark b s) = encoded_custom_status s"
  "orchestrator_version_name (mark b s) = orchestrator_version_name s" "version_name (mark b s) = version_name s"
  "history_patches (mark b s) = history_patches s" "encountered_patches (mark b s) = encountered_patches s"
  "uuid_counter (mark b s) = uuid_counter s" "timestamp_counter (mark b s) = timestamp_counter s"
  by (simp_all add: mark_def)

lemma mark_upd [simp]:
  "(mark b s)\<lparr>tasks := x1\<rparr> = mark b (s\<lparr>tasks := x1\<rparr>)"
  "(mark b s)\<lparr>pending_events := x2\<rparr> = mark b (s\<lparr>pending_events := x2\<rparr>)"
  "(mark b s)\<lparr>generator := x3\<rparr> = mark b (s\<lparr>generator := x3\<rparr>)"
  "(mark b s)\<lparr>previous_task := x4\<rparr> = mark b (s\<lparr>previous_task := x4\<rparr>)"
  "(mark b s)\<lparr>ctx_complete := x5\<rparr> = mark b (s\<lparr>ctx_complete := x5\<rparr>)"
  "(mark b s)\<lparr>ctx_result := x6\<rparr> = mark b (s\<lparr>ctx_result := x6\<rparr>)"
  "(mark b s)\<lparr>pending_actions := x7\<rparr> = mark b (s\<lparr>pending_actions := x7\<rparr>)"
  "(mark b s)\<lparr>pending_tasks := x8\<rparr> = mark b (s\<lparr>pending_tasks := x8\<rparr>)"
  "(mark b s)\<lparr>sequence_number := x9\<rparr> = mark b (s\<lparr>sequence_number := x9\<rparr>)"
  "(mark b s)\<lparr>current_utc_datetime := y1\<rparr> = mark b (s\<lparr>current_utc_datetime := y1\<rparr>)"
  "(mark b s)\<lparr>ctx_app_id := y2\<rparr> = mark b (s\<lparr>ctx_app_id := y2\<rparr>)"
  "(mark b s)\<lparr>completion_status := y3\<rparr> = mark b (s\<lparr>completion_status := y3\<rparr>)"
  "(mark b s)\<lparr>received_events := y4\<rparr> = mark b (s\<lparr>received_events := y4\<rparr>)"
  "(mark b s)\<lparr>new_input := y5\<rparr> = mark b (s\<lparr>new_input := y5\<rparr>)"
  "(mark b s)\<lparr>save_events := y6\<rparr> = mark b (s\<lparr>save_events := y6\<rparr>)"
  "(mark b s)\<lparr>encoded_custom_status := y7\<rparr> = mark b (s\<lparr>encoded_custom_status := y7\<rparr>)"
  "(mark b s)\<lparr>orchestrator_version_name := y8\<rparr> = mark b (s\<lparr>orchestrator_version_name := y8\<rparr>)"
  "(mark b s)\<lparr>version_name := y9\<rparr> = mark b (s\<lparr>version_name := y9\<rparr>)"
  "(mark b s)\<lparr>history_patches := z1\<rparr> = mark b (s\<lparr>history_patches := z1\<rparr>)"
  "(mark b s)\<lparr>uuid_counter := z2\<rparr> = mark b (s\<lparr>uuid_counter := z2\<rparr>)"
  "(mark b s)\<lparr>timestamp_counter := z3\<rparr> = mark b (s\<lparr>timestamp_counter := z3\<rparr>)"
  by (simp_all add: mark_def)

section \<open>Tasks\<close>

lemma mark_tasks [simp]:
  "upd_task t f (mark b s) = mark b (upd_task t f s)"
  "is_complete (mark b s) t = is_complete s t" "is_failed (mark b s) t = is_failed s t"
  "get_result (mark b s) = get_result s" "get_exception (mark b s) = get_exception s"
  "unregister_event_task key t (mark b s) = mark b (unregister_event_task key t s)"
  "alloc k (mark b s) = marked b (alloc k s)" "live_parent (mark b s) t = live_parent s t"
  by (auto simp: upd_task_def is_complete_def is_failed_def get_result_def get_exception_def alloc_def live_parent_def
      unregister_event_task_def Let_def fun_eq_iff split: option.split)

lemma mark_steps [simp]:
  "when_all_step p cs n pe c (mark b s) = marked b (when_all_step p cs n pe c s)"
  "when_any_step p c (mark b s) = mark b (when_any_step p c s)"
  "external_event_step p e t name timeout key c (mark b s) = marked b (external_event_step p e t name timeout key c s)"
  by (auto simp: when_all_step_def when_any_step_def external_event_step_def Let_def split: option.split sum.split)

lemma mark_composite [simp]: "composite_step p c (mark b s) = marked b (composite_step p c s)"
  by (auto simp: composite_step_def split: task_class.split prod.split)

lemma mark_on_child [simp]: "on_child_completed n p c (mark b s) = marked b (on_child_completed n p c s)"
  by (induction n arbitrary: p c s) (auto split: sum.split prod.split option.split bool.split)

lemma mark_completion [simp]:
  "notify_parent c (mark b s) = marked b (notify_parent c s)"
  "task_complete t v (mark b s) = marked b (task_complete t v s)"
  "task_fail t msg d (mark b s) = marked b (task_fail t msg d s)"
  "task_cancel t e (mark b s) = marked b (task_cancel t e s)"
  by (auto simp: notify_parent_def task_complete_def task_fail_def task_cancel_def split: option.split)

lemma mark_adopt [simp]: "adopt p cs (mark b s) = marked b (adopt p cs s)"
  by (induction cs arbitrary: s) (auto simp: Let_def split: sum.split prod.split)

lemma mark_new_composite [simp]: "new_composite k (mark b s) = marked b (new_composite k s)"
proof -
  obtain p s1 where a: "alloc k s = (p, s1)" by fastforce
  obtain r s2 where d: "adopt p (children k) s1 = (r, s2)" by fastforce
  have "(\<exists>c \<in> set (children k). live_parent (mark b s) c \<and> \<not> is_complete (mark b s) c) =
      (\<exists>c \<in> set (children k). live_parent s c \<and> \<not> is_complete s c)" by simp
  then show ?thesis
    unfolding new_composite_def Let_def using a d by (cases r) (auto simp del: mark_tasks(2,8) simp: if_distrib)
qed

lemma mark_finish_if_empty [simp]: "finish_if_empty cs (marked b r) = marked b (finish_if_empty cs r)"
  by (cases r) (simp add: finish_if_empty_def split: sum.split)

lemma mark_composites [simp]:
  "when_all cs (mark b s) = marked b (when_all cs s)" "when_any cs (mark b s) = marked b (when_any cs s)"
  "external_event_with_timeout e t name timeout key (mark b s) =
     marked b (external_event_with_timeout e t name timeout key s)"
  by (simp_all add: when_all_def when_any_def external_event_with_timeout_def)

section \<open>The context\<close>

lemma mark_bookkeeping [simp]:
  "next_sequence_number (mark b s) = marked b (next_sequence_number s)"
  "add_action a (mark b s) = mark b (add_action a s)" "add_task i t (mark b s) = mark b (add_task i t s)"
  "completion_router (mark b s) = completion_router s" "call_router (mark b s) app = call_router s app"
  "buffered key (mark b s) = buffered key s"
  by (simp_all add: next_sequence_number_def add_action_def add_task_def completion_router_def call_router_def
      buffered_def Let_def)

lemma mark_drop [simp]: "drop_optional_pending_at i (mark b s) = marked b (drop_optional_pending_at i s)"
  by (simp add: drop_optional_pending_at_def split: option.split)

lemma mark_call_action [simp]:
  "call_action i fn inp is_sub inst app x scope (mark b s) = call_action i fn inp is_sub inst app x scope s"
  by (cases fn) (simp_all add: call_action_def)

lemma mark_completions [simp]:
  "set_complete v st e (mark b s) = marked b (set_complete v st e s)"
  "set_failed ex (mark b s) = mark b (set_failed ex s)"
  "set_version_not_registered (mark b s) = mark b (set_version_not_registered s)"
  "continue_as_new v save (mark b s) = mark b (continue_as_new v save s)"
  "get_actions (mark b s) = marked b (get_actions s)"
  by (auto simp: set_complete_def set_failed_def set_version_not_registered_def continue_as_new_def
      set_continued_as_new_def get_actions_def Let_def split: sum.split prod.split)

lemma mark_calls [simp]:
  "set_custom_status v (mark b s) = marked b (set_custom_status v s)"
  "uuid4 u5 (mark b s) = marked b (uuid4 u5 s)" "now_with_sequence (mark b s) = marked b (now_with_sequence s)"
  by (simp_all add: set_custom_status_def uuid4_def now_with_sequence_def split: pyval.split sum.split)

lemma mark_create_timer [simp]: "create_timer_internal f r og (mark b s) = marked b (create_timer_internal f r og s)"
  by (cases r) (simp_all add: create_timer_internal_def case_prod_beta split: sum.split)

lemma mark_helper [simp]:
  "call_activity_function_helper oi fn spec is_sub inst app x scope (mark b s) =
     marked b (call_activity_function_helper oi fn spec is_sub inst app x scope s)"
proof -
  obtain i s1 where n: "(case oi of Some i \<Rightarrow> (i, s) | None \<Rightarrow> next_sequence_number s) = (i, s1)" by fastforce
  then have n': "(case oi of Some i \<Rightarrow> (i, mark b s) | None \<Rightarrow> next_sequence_number (mark b s)) = (i, mark b s1)"
    by (cases oi) auto
  show ?thesis
    unfolding call_activity_function_helper_def n n'
    by (cases spec) (auto simp: Let_def split: sum.split prod.split option.split)
qed

lemma op_then_mark: "(\<And>x s. f x (mark b s) = marked b (f x s)) \<Longrightarrow> op_then (marked b r) f = marked b (op_then r f)"
  by (cases r) (auto simp: op_then_def split: sum.split)

lemma mark_take_or_wait [simp]: "take_or_wait key t (mark b s) = marked b (take_or_wait key t s)"
  by (auto simp: take_or_wait_def take_buffered_def split: option.split list.split)

lemma mark_wait [simp]: "wait_for_external_event name timeout (mark b s) = marked b (wait_for_external_event name timeout s)"
  by (auto simp: wait_for_external_event_def Let_def split: prod.split intro!: op_then_mark)

lemma mark_returning [simp]: "returning f (marked b r) = marked b (returning f r)"
  by (cases r) (simp add: returning_def split: sum.split)

lemma mark_call_activity [simp]:
  "call_activity u5 fn v rp app scope (mark b s) = marked b (call_activity u5 fn v rp app scope s)"
  by (simp add: call_activity_def split: prod.split)

lemma mark_call_sub [simp]:
  "call_sub_orchestrator fn v inst rp app scope (mark b s) = marked b (call_sub_orchestrator fn v inst rp app scope s)"
  by (simp add: call_sub_orchestrator_def split: prod.split sum.split)

text \<open>A call whose answer depends on the flag.\<close>

fun asks :: "ctxop \<Rightarrow> bool" where
  "asks OpIsReplaying = True"
| "asks (OpIsPatched p) = True"
| "asks opn = False"

lemma mark_op: "\<not> asks opn \<Longrightarrow> run_op u5 opn (mark b s) = marked b (run_op u5 opn s)"
  by (cases opn) (simp_all add: create_timer_def on_tasks_def split: prod.split)

section \<open>Generators\<close>

coinductive blind :: "gen \<Rightarrow> bool" where
  blind_return: "blind (GReturn v)"
| blind_raise: "blind (GRaise e)"
| blind_yield: "(\<And>r. blind (k r)) \<Longrightarrow> blind (GYield v k)"
| blind_call: "\<not> asks opn \<Longrightarrow> (\<And>r. blind (k r)) \<Longrightarrow> blind (GCall opn k)"

inductive_simps blind_simps [simp]:
  "blind (GReturn v)" "blind (GRaise e)" "blind (GYield v k)" "blind (GCall opn k)"

abbreviation blind_state :: "ctx \<Rightarrow> bool" where
  "blind_state \<equiv> gen_state_ok blind"

lemma mark_state_ok [simp]: "gen_state_ok Q (mark b s) = gen_state_ok Q s"
  by (simp add: mark_def)

lemma mark_back [simp]: "mark (is_replaying s) s = s"
  by (simp add: mark_def)

lemma drive_mark':
  "drive u g s = Some y \<Longrightarrow> blind g \<Longrightarrow>
     drive u g (mark b s) = Some (marked b y) \<and> (\<forall>v k. fst y = Yielded v k \<longrightarrow> (\<forall>r. blind (k r))) \<and>
     (gen_state_ok Q s \<longrightarrow> gen_state_ok Q (snd y))"
proof (induct u g s y rule: drive.raw_induct [rotated, consumes 1])
  case (1 drive' u g s y)
  show ?case
  proof (cases g)
    case (GCall opn k)
    obtain r s1 where op: "run_op u opn s = (r, s1)" by fastforce
    have eq: "drive' u (k r) s1 = Some y" using 1(2) GCall op by simp
    have k: "\<not> asks opn" "blind (k r)" using "1.prems" GCall by simp_all
    have "gen_state_ok Q s \<longrightarrow> gen_state_ok Q s1" using gen_state_op [of Q s u opn] op by simp
    with 1(1) [OF eq k(2)] mark_op [OF k(1), of u b s] op GCall show ?thesis
      by (simp add: drive.simps [of u g])
  qed (use 1(2) "1.prems" in \<open>auto simp: drive.simps [of u g]\<close>)
qed

lemma mark_previous [simp]:
  "previous_complete (mark b s) = previous_complete s" "previous_outcome (mark b s) = previous_outcome s"
  "is_task (mark b s) v = is_task s v"
  by (auto simp: previous_complete_def previous_outcome_def is_task_def split: pyval.split)

lemma resume_with_mark:
  assumes "resume_with u r s = Some y" and "blind_state s"
  shows "resume_with u r (mark b s) = Some (marked b y) \<and> (\<forall>v k. fst y = Yielded v k \<longrightarrow> (\<forall>r. blind (k r))) \<and>
    blind_state (snd y)"
proof (cases "generator s")
  case (SuspendedGen k)
  with assms drive_mark' [of u "k r" s y b blind] show ?thesis by (simp add: resume_with_def gen_state_ok_def)
qed (use assms in \<open>auto simp: resume_with_def split: sum.split\<close>)

lemma resume_loop_mark:
  "resume_loop u s = Some y \<Longrightarrow> blind_state s \<Longrightarrow>
     resume_loop u (mark b s) = Some (marked b y) \<and> blind_state (snd y)"
proof (induct u s y rule: resume_loop.raw_induct [rotated, consumes 1])
  case (1 loop u s y)
  note eq = 1(2)
  show ?case
  proof (cases "previous_complete s = Inr True")
    case False
    with eq "1.prems" show ?thesis by (auto simp: resume_loop.simps [of u "mark b s"] split: sum.splits if_splits)
  next
    case pc: True
    with eq obtain oc s1 where r: "resume_with u (previous_outcome s) s = Some (oc, s1)"
      by (auto simp: bind_eq_Some_conv)
    note m = resume_with_mark [OF r "1.prems", of b]
    show ?thesis
    proof (cases oc)
      case (Yielded v k)
      let ?s2 = "s1\<lparr>generator := SuspendedGen k, previous_task := v\<rparr>"
      show ?thesis
      proof (cases "is_task s1 v")
        case True
        with eq r Yielded pc have l: "loop u ?s2 = Some y" by simp
        have "blind_state ?s2" using m Yielded by simp
        from 1(1) [OF l this] m True Yielded pc show ?thesis
          by (simp add: resume_loop.simps [of u "mark b s"])
      next
        case False
        with eq r Yielded pc m show ?thesis by (auto simp: resume_loop.simps [of u "mark b s"])
      qed
    qed (use eq r pc m in \<open>auto simp: resume_loop.simps [of u "mark b s"]\<close>)
  qed
qed

text \<open>From a good state, a step gives the same whatever the flag, and leaves a good state.\<close>

definition steady :: "(ctx \<Rightarrow> step_result) \<Rightarrow> ctx \<Rightarrow> bool" where
  "steady F s \<longleftrightarrow> (\<forall>b f s'. F s = Some (f, s') \<longrightarrow> F (mark b s) = Some (f, mark b s') \<and> blind_state s')"

lemma resume_steady: "blind_state s \<Longrightarrow> steady (resume u5) s"
  unfolding steady_def
proof (intro allI impI)
  fix b f s' assume s: "blind_state s" and r: "resume u5 s = Some (f, s')"
  then show "resume u5 (mark b s) = Some (f, mark b s') \<and> blind_state s'"
    using resume_loop_mark [of u5 s "(f, s')" b] by (cases "generator s") (auto simp: resume_def)
qed

lemma resumeD: "resume u5 s = Some (f, s') \<Longrightarrow> blind_state s \<Longrightarrow> resume u5 (mark b s) = Some (f, mark b s') \<and> blind_state s'"
  using resume_steady by (simp add: steady_def)

lemma run_steady:
  assumes "blind g" and "blind_state s"
  shows "steady (run u5 g) s"
  unfolding steady_def
proof (intro allI impI)
  fix b f s' assume r: "run u5 g s = Some (f, s')"
  then obtain oc s1 where d: "drive u5 g s = Some (oc, s1)" by (auto simp: run_def bind_eq_Some_conv)
  note m = drive_mark' [OF d assms(1), of b blind]
  show "run u5 g (mark b s) = Some (f, mark b s') \<and> blind_state s'"
  proof (cases oc)
    case (Yielded v k)
    let ?s2 = "s1\<lparr>generator := SuspendedGen k, previous_task := v\<rparr>"
    have "blind_state ?s2" using m Yielded by simp
    with r d m Yielded resumeD [of u5 ?s2 f s' b] show ?thesis
      by (auto simp: run_def Let_def split: sum.splits bool.splits)
  qed (use r d m in \<open>auto simp: run_def\<close>)
qed

section \<open>Events\<close>

fun blind_orch :: "orchestrator \<Rightarrow> bool" where
  "blind_orch (GenOrch f) \<longleftrightarrow> (\<forall>v. blind (f v))"
| "blind_orch (PlainOrch f) \<longleftrightarrow> (\<forall>v. blind (f v))"

definition blind_registry :: "(orchestrator, 'a) registry \<Rightarrow> bool" where
  "blind_registry reg \<longleftrightarrow>
     (\<forall>n fn. dict_get (orchestrators reg) n = Some fn \<longrightarrow> blind_orch fn) \<and>
     (\<forall>n vs v fn. dict_get (versioned_orchestrators reg) n = Some vs \<and> dict_get vs v = Some fn \<longrightarrow> blind_orch fn)"

lemma get_orchestrator_blind:
  "blind_registry reg \<Longrightarrow> get_orchestrator reg name v = Inr (Some fn, w) \<Longrightarrow> blind_orch fn"
  by (auto simp: blind_registry_def get_orchestrator_def dict_has_def split: if_splits option.splits)

lemma steadyI:
  "(\<And>b f s'. F s = Some (f, s') \<Longrightarrow> F (mark b s) = Some (f, mark b s') \<and> blind_state s') \<Longrightarrow> steady F s"
  by (simp add: steady_def)

lemma steadyD: "steady F s \<Longrightarrow> F s = Some (f, s') \<Longrightarrow> F (mark b s) = Some (f, mark b s') \<and> blind_state s'"
  by (simp add: steady_def)

lemma done_with_mark: "done_with (marked b r) = map_option (marked b) (done_with r)"
  by (cases r) (auto simp: done_with_def split: sum.split)

lemma done_with_state: "done_with r = Some (f, s') \<Longrightarrow> s' = snd r"
  by (cases r) (auto simp: done_with_def split: sum.splits)

lemma start_steady:
  assumes "blind_orch fn" and "blind_state s"
  shows "steady (start_orchestrator u5 fn v) s"
proof (cases fn)
  case (GenOrch g)
  with assms have "steady (run u5 (g v)) s" by (simp add: run_steady)
  with GenOrch show ?thesis by (simp add: start_orchestrator_def steady_def)
next
  case (PlainOrch g)
  show ?thesis
  proof (rule steadyI)
    fix b f s' assume r: "start_orchestrator u5 fn v s = Some (f, s')"
    then obtain oc s1 where d: "drive u5 (g v) s = Some (oc, s1)"
      using PlainOrch by (auto simp: start_orchestrator_def bind_eq_Some_conv)
    have "blind (g v)" using assms(1) PlainOrch by simp
    note m = drive_mark' [OF d this, of b blind]
    show "start_orchestrator u5 fn v (mark b s) = Some (f, mark b s') \<and> blind_state s'"
      using r d m PlainOrch assms(2)
      by (cases oc) (auto simp: start_orchestrator_def done_with_mark dest: done_with_state)
  qed
qed

text \<open>The state in which \<open>executionStarted\<close> starts the orchestrator, whose version \<open>w\<close> was looked up.\<close>

definition named :: "router \<Rightarrow> string option \<Rightarrow> ctx \<Rightarrow> ctx" where
  "named rt w s = (let s1 = s\<lparr>ctx_app_id := Some (if targetAppID rt \<noteq> [] then targetAppID rt else sourceAppID rt)\<rparr>
     in case w of None \<Rightarrow> s1 | Some u \<Rightarrow> s1\<lparr>version_name := Some u\<rparr>)"

lemma named_simps [simp]: "named rt w (mark b s) = mark b (named rt w s)" "blind_state (named rt w s) = blind_state s"
  by (simp_all add: named_def Let_def split: option.split)

lemma handle_execution_started_eq:
  "handle_execution_started u5 reg rt name inp s =
    (case get_orchestrator reg name (case orchestrator_version_name s of
         Some v \<Rightarrow> if v = [] then None else Some v | None \<Rightarrow> None) of
       Inl e \<Rightarrow> Some (Raise e, named rt None s)
     | Inr (None, v) \<Rightarrow> Some (Raise (exc OrchestratorNotRegisteredError
         (''A '' @ quoted name @ '' orchestrator was not registered.'')), named rt None s)
     | Inr (Some fn, w) \<Rightarrow> (case (if sv_value inp \<noteq> [] then from_json (sv_value inp) else Inr PNone) of
         Inl e \<Rightarrow> Some (Raise e, named rt w s)
       | Inr x \<Rightarrow> start_orchestrator u5 fn x (named rt w s)))"
  by (simp add: handle_execution_started_def named_def Let_def cong: option.case_cong sum.case_cong)

lemma execution_started_steady:
  assumes "blind_registry reg" and "blind_state s"
  shows "steady (handle_execution_started u5 reg rt name inp) s"
proof (rule steadyI)
  fix b f s' assume r: "handle_execution_started u5 reg rt name inp s = Some (f, s')"
  let ?v = "case orchestrator_version_name s of Some v \<Rightarrow> if v = [] then None else Some v | None \<Rightarrow> None"
  show "handle_execution_started u5 reg rt name inp (mark b s) = Some (f, mark b s') \<and> blind_state s'"
  proof (cases "\<exists>fn w. get_orchestrator reg name ?v = Inr (Some fn, w)")
    case False
    with r assms(2) show ?thesis unfolding handle_execution_started_eq
      by (auto split: sum.splits option.splits prod.splits)
  next
    case True
    then obtain fn w where g: "get_orchestrator reg name ?v = Inr (Some fn, w)" by blast
    have fn: "blind_orch fn" using get_orchestrator_blind [OF assms(1) g] .
    have s2: "blind_state (named rt w s)" using assms(2) by simp
    show ?thesis
    proof (cases "if sv_value inp \<noteq> [] then from_json (sv_value inp) else Inr PNone")
      case (Inl e)
      with r s2 g show ?thesis unfolding handle_execution_started_eq by auto
    next
      case (Inr x)
      with r g have "start_orchestrator u5 fn x (named rt w s) = Some (f, s')"
        unfolding handle_execution_started_eq by simp
      from steadyD [OF start_steady [OF fn s2] this, of b] Inr g show ?thesis
        unfolding handle_execution_started_eq by simp
    qed
  qed
qed

lemma then_resumeD:
  assumes "then_resume u5 r = Some (f, s')" and "blind_state (snd r)"
  shows "then_resume u5 (marked b r) = Some (f, mark b s') \<and> blind_state s'"
  using assms by (cases r) (auto simp: then_resume_def split: sum.splits dest: resumeD)

lemma done_withD:
  "done_with r = Some (f, s') \<Longrightarrow> blind_state (snd r) \<Longrightarrow>
     done_with (marked b r) = Some (f, mark b s') \<and> blind_state s'"
  by (cases r) (auto simp: done_with_def split: sum.splits)

lemma mark_take_action [simp]: "take_action i (mark b s) = marked b (take_action i s)"
  by (simp add: take_action_def Let_def split: option.split)

lemma mark_pop_task [simp]: "pop_task i (mark b s) = marked b (pop_task i s)"
  by (simp add: pop_task_def)

lemma gen_state_pop [simp]: "gen_state_ok Q (snd (pop_task i s)) = gen_state_ok Q s"
  by (simp add: pop_task_def)

lemma mark_reschedule [simp]: "reschedule r (mark b s) = marked b (reschedule r s)"
  by (simp add: reschedule_def split: task_class.split)

lemma gen_state_reschedule [simp]: "gen_state_ok Q (snd (reschedule r s)) = gen_state_ok Q s"
  by (simp add: reschedule_def split: task_class.split)

lemma mark_attempt_again [simp]: "attempt_again t ri d og (mark b s) = marked b (attempt_again t ri d og s)"
  by (simp add: attempt_again_def)

lemma gen_state_attempt [simp]: "gen_state_ok Q (snd (attempt_again t ri d og s)) = gen_state_ok Q s"
  by (simp add: attempt_again_def)

lemma timer_fired_steady:
  assumes "blind_state s"
  shows "steady (handle_timer_fired u5 i) s"
proof (rule steadyI)
  fix b f s' assume r: "handle_timer_fired u5 i s = Some (f, s')"
  obtain ot s1 where p: "pop_task i s = (ot, s1)" by fastforce
  have s1: "blind_state s1" using gen_state_pop [of blind i s] p assms by simp
  have p': "pop_task i (mark b s) = (ot, mark b s1)" using p by simp
  show "handle_timer_fired u5 i (mark b s) = Some (f, mark b s') \<and> blind_state s'"
  proof (cases ot)
    case None
    with r p p' s1 show ?thesis by (auto simp: handle_timer_fired_def)
  next
    case (Some t)
    obtain q s2 where c: "task_complete t PNone s1 = (q, s2)" by fastforce
    have s2: "blind_state s2" using gen_state_ops(1) [of blind t PNone s1] c s1 by simp
    have c': "task_complete t PNone (mark b s1) = (q, mark b s2)" using c by simp
    show ?thesis
      using r p p' c c' Some s2 done_withD [of "reschedule x s2" f s' b for x] resumeD [of u5 s2 f s' b]
      by (auto simp: handle_timer_fired_def split: sum.splits option.splits)
  qed
qed

lemma completed_steady:
  assumes "blind_state s"
  shows "steady (handle_completed u5 i p) s"
proof (rule steadyI)
  fix b f s' assume r: "handle_completed u5 i p s = Some (f, s')"
  obtain ot s1 where q: "pop_task i s = (ot, s1)" by fastforce
  have s1: "blind_state s1" using gen_state_pop [of blind i s] q assms by simp
  have q': "pop_task i (mark b s) = (ot, mark b s1)" using q by simp
  have c: "blind_state (snd (task_complete t v s1))" for t v using s1 by simp
  show "handle_completed u5 i p (mark b s) = Some (f, mark b s') \<and> blind_state s'"
    using r q q' s1 then_resumeD [OF _ c, where b = b and ?u5.0 = u5 and f = f and s' = s']
    by (auto simp: handle_completed_def split: option.splits sum.splits)
qed

lemma failed_steady:
  assumes "blind_state s"
  shows "steady (handle_failed u5 msg og bad i d) s"
proof (rule steadyI)
  fix b f s' assume r: "handle_failed u5 msg og bad i d s = Some (f, s')"
  obtain ot s1 where q: "pop_task i s = (ot, s1)" by fastforce
  have s1: "blind_state s1" using gen_state_pop [of blind i s] q assms by simp
  have q': "pop_task i (mark b s) = (ot, mark b s1)" using q by simp
  have c: "blind_state (snd (task_fail t msg d s1))" for t using s1 by simp
  have a: "blind_state (snd (attempt_again t ri dl og s1))" for t ri dl using s1 by simp
  show "handle_failed u5 msg og bad i d (mark b s) = Some (f, mark b s') \<and> blind_state s'"
    using r q q' s1 then_resumeD [OF _ c, where b = b and ?u5.0 = u5 and f = f and s' = s']
      done_withD [OF _ a, where b = b and f = f and s' = s']
    by (auto simp: handle_failed_def split: option.splits sum.splits task_class.splits if_splits)
qed

lemma event_raised_steady:
  assumes "blind_state s"
  shows "steady (handle_event_raised u5 n p) s"
proof (rule steadyI)
  fix b f s' assume r: "handle_event_raised u5 n p s = Some (f, s')"
  let ?key = "casefold n"
  show "handle_event_raised u5 n p (mark b s) = Some (f, mark b s') \<and> blind_state s'"
  proof (cases "\<exists>t ts. dict_get (pending_events s) ?key = Some (t # ts)")
    case False
    then have "handle_event_raised u5 n p c =
       (let s1 = c\<lparr>received_events := dict_set ?key (buffered ?key s) (received_events s)\<rparr> in case decode_payload p of
          Inl e \<Rightarrow> Some (Raise e, s1) | Inr v \<Rightarrow> Some (Continue, buffer_value ?key v s1))"
      if "c = s \<or> c = mark b s" for c
      using that by (auto simp: handle_event_raised_def Let_def split: option.splits list.splits sum.split)
    with r assms show ?thesis by (auto simp: Let_def buffer_value_def split: sum.splits)
  next
    case True
    then obtain t ts where w: "dict_get (pending_events s) ?key = Some (t # ts)" by blast
    let ?s1 = "s\<lparr>pending_events := dict_set ?key ts (pending_events s)\<rparr>"
    show ?thesis
    proof (cases "decode_payload p")
      case (Inl e)
      with r w assms show ?thesis by (auto simp: handle_event_raised_def Let_def)
    next
      case (Inr v)
      obtain q s2 where c: "task_complete t v ?s1 = (q, s2)" by fastforce
      have s2: "blind_state s2" using gen_state_ops(1) [of blind t v ?s1] c assms by simp
      let ?s3 = "if ts = [] then s2\<lparr>pending_events := dict_del ?key (pending_events s2)\<rparr> else s2"
      have s3: "blind_state ?s3" using s2 by simp
      show ?thesis
        using r w Inr c s2 resumeD [OF _ s3, of u5 f s' b]
        by (auto simp: handle_event_raised_def Let_def split: sum.splits if_splits)
    qed
  qed
qed

text \<open>A \<open>timerCreated\<close> event first drops an optional timer that is in its way.\<close>

definition cleared :: "event \<Rightarrow> ctx \<Rightarrow> ctx" where
  "cleared ev s = (case dict_get (pending_actions s) (eventId ev) of
     Some a \<Rightarrow> if is_optional_timer_action a \<and> \<not> is_optional_timer_event ev
               then snd (drop_optional_pending_at (eventId ev) s) else s
   | None \<Rightarrow> s)"

definition match_timer :: "event \<Rightarrow> ctx \<Rightarrow> step_result" where
  "match_timer ev s = (case dict_get (pending_actions s) (eventId ev) of
     None \<Rightarrow>
       if is_optional_timer_event ev then Some (Continue, s)
       else Some (Raise (get_non_determinism_error (eventId ev) ''create_timer''), s)
   | Some a \<Rightarrow>
       if is_optional_timer_event ev \<and> \<not> is_optional_timer_action a then Some (Continue, s)
       else
         (let s2 = s\<lparr>pending_actions := dict_del (eventId ev) (pending_actions s)\<rparr>
          in case act_body a of
               CreateTimer ts og \<Rightarrow> Some (Continue, s2)
             | _ \<Rightarrow> Some (Raise (get_wrong_action_type_error (eventId ev) ''create_timer'' a), s2)))"

lemma handle_timer_created_eq: "handle_timer_created ev s = match_timer ev (cleared ev s)"
  unfolding handle_timer_created_def match_timer_def cleared_def Let_def ..

lemma cleared_simps [simp]: "cleared ev (mark b s) = mark b (cleared ev s)" "gen_state_ok Q (cleared ev s) = gen_state_ok Q s"
  by (simp_all add: cleared_def split: option.split)

lemma timer_created_steady: "blind_state s \<Longrightarrow> steady (handle_timer_created ev) s"
  unfolding handle_timer_created_eq
  by (rule steadyI) (auto simp: match_timer_def Let_def split: option.splits if_splits action_body.splits)

lemma scheduled_steady:
  assumes "blind_state s"
  shows "steady (handle_task_scheduled i name) s" and "steady (handle_child_created i name) s"
proof -
  obtain oa s1 where p: "take_action i s = (oa, s1)" by fastforce
  have s1: "blind_state s1" using gen_state_take_action [of blind i s] p assms by simp
  have p': "take_action i (mark b s) = (oa, mark b s1)" for b using p by simp
  show "steady (handle_task_scheduled i name) s"
    by (rule steadyI) (use p p' s1 in \<open>auto simp: handle_task_scheduled_def split: option.splits action_body.splits if_splits\<close>)
  show "steady (handle_child_created i name) s"
    by (rule steadyI) (use p p' s1 in \<open>auto simp: handle_child_created_def split: option.splits action_body.splits if_splits\<close>)
qed

lemma terminated_steady: "blind_state s \<Longrightarrow> steady (handle_terminated out) s"
  unfolding handle_terminated_def
  by (rule steadyI) (simp add: done_withD)

lemma steady_eq: "steady F s \<Longrightarrow> (\<And>c. G c = F c) \<Longrightarrow> steady G s"
  by (simp add: steady_def)

lemma steady_pure: "blind_state s \<Longrightarrow> (\<And>b. g (mark b s) = mark b (g s)) \<Longrightarrow> blind_state (g s) \<Longrightarrow>
    steady (\<lambda>c. Some (f, g c)) s"
  by (simp add: steady_def)

lemma failures_steady:
  assumes "blind_state s"
  shows "steady (handle_task_failed u5 i d) s" and "steady (handle_child_failed u5 i d) s"
  by (rule steadyI, use failed_steady [OF assms] in \<open>simp add: handle_task_failed_def handle_child_failed_def steady_def\<close>)+

lemmas event_steady = timer_created_steady scheduled_steady terminated_steady timer_fired_steady completed_steady
  failures_steady event_raised_steady execution_started_steady

lemma handle_event_steady:
  assumes "blind_registry reg" and "blind_state s"
  shows "steady (handle_event u5 reg ev) s"
proof (cases "ev_body ev")
  case (WorkflowStarted name patches)
  have "steady (\<lambda>c. Some (Continue, handle_workflow_started (ev_timestamp ev) name patches c)) s"
    by (rule steady_pure) (use assms(2) in \<open>simp_all add: handle_workflow_started_def Let_def\<close>)
  then show ?thesis by (rule steady_eq) (simp add: handle_event_def WorkflowStarted)
qed (insert assms, unfold steady_def handle_event_def,
    simp_all only: event_body.case, ((rule event_steady [unfolded steady_def]; assumption) | (simp; fail))+)

section \<open>Histories\<close>

lemma mark_catch_stop: "catch_stop f (mark b s) = marked b (catch_stop f s)"
  by (cases f) (simp_all add: catch_stop_def)

lemma catch_stop_state: "blind_state s \<Longrightarrow> blind_state (snd (catch_stop f s))"
  by (cases f) (simp_all add: catch_stop_def)

abbreviation marked_loop :: "bool \<Rightarrow> unit res \<times> ctx \<times> executor \<Rightarrow> unit res \<times> ctx \<times> executor" where
  "marked_loop b \<equiv> apsnd (apfst (mark b))"

lemma process_mark':
  "process h w sx = Some y \<Longrightarrow> h = handle_event u5 reg \<Longrightarrow> blind_registry reg \<Longrightarrow> blind_state (fst sx) \<Longrightarrow>
     process h w (apfst (mark b) sx) = Some (marked_loop b y) \<and> blind_state (fst (snd y))"
proof (induct h w sx y rule: process.raw_induct [rotated, consumes 1])
  case (1 proc h w sx y)
  obtain s x where sx: "sx = (s, x)" by (cases sx)
  have h: "h = handle_event u5 reg" and reg: "blind_registry reg" and s: "blind_state s" using "1.prems" sx by simp_all
  note IH = 1(1) and eq = 1(2) [unfolded sx fst_conv snd_conv]
  show ?case
  proof (cases w)
    case (Inl ev)
    consider "is_suspended x" "is_suspendable ev"
      | "is_suspended x" "\<not> is_suspendable ev" "ev_body ev = ExecutionResumed"
      | "\<not> (is_suspended x \<and> (is_suspendable ev \<or> ev_body ev = ExecutionResumed))" by blast
    then show ?thesis
    proof cases
      case 1
      with eq Inl s sx show ?thesis by (auto simp: process.simps [of h])
    next
      case 2
      with eq Inl have p: "proc h (Inr 0) (s, x\<lparr>is_suspended := False\<rparr>) = Some y" by simp
      from IH [OF p h reg] s 2 Inl sx show ?thesis by (simp add: process.simps [of h "Inl ev"])
    next
      case 3
      with eq Inl obtain f s1 where k: "h ev s = Some (f, s1)"
        and y: "y = (fst (catch_stop f s1), snd (catch_stop f s1),
          if ev_body ev = ExecutionSuspended then x\<lparr>is_suspended := True\<rparr> else x)"
        by (auto simp: bind_eq_Some_conv)
      from steadyD [OF handle_event_steady [OF reg s] k [unfolded h], of b]
      have "h ev (mark b s) = Some (f, mark b s1)" "blind_state s1" by (simp_all add: h)
      with 3 Inl sx y show ?thesis
        by (auto simp: process.simps [of h "Inl ev"] mark_catch_stop catch_stop_state)
    qed
  next
    case (Inr i)
    show ?thesis
    proof (cases "i < length (suspended_events x)")
      case False
      with eq Inr s sx show ?thesis by (auto simp: process.simps [of h "Inr i"])
    next
      case True
      with eq Inr obtain q sx1 where p1: "proc h (Inl (suspended_events x ! i)) (s, x) = Some (q, sx1)"
        by (auto simp: bind_eq_Some_conv)
      obtain s1 x1 where sx1: "sx1 = (s1, x1)" by (cases sx1)
      have m1: "process h (Inl (suspended_events x ! i)) (mark b s, x) = Some (q, mark b s1, x1)" "blind_state s1"
        using IH [OF p1 h reg] s sx1 by simp_all
      show ?thesis
      proof (cases q)
        case (Inl e)
        with eq Inr True p1 m1 sx sx1 show ?thesis by (auto simp: process.simps [of h "Inr i"])
      next
        case (Inr z)
        with eq \<open>w = Inr i\<close> True p1 have p2: "proc h (Inr (Suc i)) sx1 = Some y" by simp
        from IH [OF p2 h reg] m1 sx1 True \<open>w = Inr i\<close> Inr sx show ?thesis
          by (simp add: process.simps [of h "Inr i"])
      qed
    qed
  qed
qed

lemma process_events_mark':
  assumes "blind_registry reg"
  shows "process_events u5 reg evs s x = Some y \<Longrightarrow> blind_state s \<Longrightarrow>
    process_events u5 reg evs (mark b s) x = Some (marked_loop b y) \<and> blind_state (fst (snd y))"
proof (induction evs arbitrary: s x)
  case (Cons ev evs)
  obtain r s1 x1 where p: "process_event u5 reg ev s x = Some (r, s1, x1)"
    using Cons.prems(1) by (auto simp: bind_eq_Some_conv)
  have m: "process_event u5 reg ev (mark b s) x = Some (r, mark b s1, x1)" "blind_state s1"
    using process_mark' [OF p [unfolded process_event_def] refl assms, of b] Cons.prems(2)
    by (simp_all add: process_event_def)
  show ?case
  proof (cases r)
    case (Inl e)
    with Cons.prems(1) p m show ?thesis by auto
  next
    case (Inr u)
    with Cons.prems(1) p have "process_events u5 reg evs s1 x1 = Some y" by simp
    from Cons.IH [OF this m(2)] m(1) Inr show ?thesis by simp
  qed
qed auto

lemma process_events_mark:
  assumes "blind_registry reg" and "blind_state s"
  shows "process_events u5 reg evs (mark b s) x = map_option (marked_loop b) (process_events u5 reg evs s x)"
proof (cases "process_events u5 reg evs s x")
  case (Some y)
  with process_events_mark' [OF assms(1) this assms(2)] show ?thesis by simp
next
  case None
  have "process_events u5 reg evs (mark b s) x = None"
  proof (rule ccontr)
    assume "process_events u5 reg evs (mark b s) x \<noteq> None"
    then obtain y where "process_events u5 reg evs (mark b s) x = Some y" by auto
    from process_events_mark' [OF assms(1) this, of "is_replaying s"] assms(2) None show False by simp
  qed
  with None show ?thesis by simp
qed

lemma mark_settle: "settle r (mark b s) = mark b (settle r s)"
  by (auto simp: settle_def split: sum.split)

text \<open>What \<open>execute\<close> makes of the end of its loops.\<close>

definition conclude :: "loop_result \<Rightarrow> execution_results res option" where
  "conclude l = Option.bind l (\<lambda>(r, s, x).
     Some (case get_actions (settle r s) of
       (Inl e, s1) \<Rightarrow> Inl e
     | (Inr actions, s1) \<Rightarrow> Inr
         \<lparr>er_actions = actions, er_custom_status = encoded_custom_status s1,
          er_version_name = version_name s1, er_patches = encountered_patches s1\<rparr>))"

lemma execute_eq: "new \<noteq> [] \<Longrightarrow> execute u5 reg inst old new = conclude (replay_and_run u5 reg inst old new)"
  by (simp add: execute_def conclude_def)

lemma conclude_mark: "conclude (map_option (marked_loop b) l) = conclude l"
  by (cases l) (auto simp: conclude_def mark_settle split: sum.split prod.split)

text \<open>A new event of a run can as well be replayed.\<close>

lemma replay_shift:
  assumes reg: "blind_registry reg"
  shows "conclude (replay_and_run u5 reg inst old (mid @ new)) = conclude (replay_and_run u5 reg inst (old @ mid) new)"
proof -
  let ?s0 = "(new_context inst)\<lparr>is_replaying := True\<rparr>"
  have s0: "blind_state ?s0" by (simp add: gen_state_ok_def new_context_def)
  have m: "s\<lparr>is_replaying := False\<rparr> = mark False s" for s by (simp add: mark_def)
  show ?thesis
  proof (cases "process_events u5 reg old ?s0 new_executor")
    case None
    then show ?thesis by (simp add: replay_and_run_def process_events_append)
  next
    case (Some y)
    obtain r s x where y: "y = (r, s, x)" by (cases y)
    have s: "blind_state s" using process_events_mark' [OF reg Some s0] y by simp
    show ?thesis
    proof (cases r)
      case (Inl e)
      with Some y show ?thesis by (simp add: replay_and_run_def process_events_append)
    next
      case r: (Inr u)
      show ?thesis
      proof (cases "process_events u5 reg mid s x")
        case None
        with Some y r process_events_mark [OF reg s, of u5 mid False x] show ?thesis
          by (simp add: replay_and_run_def process_events_append m)
      next
        case mid: (Some z)
        obtain q s1 x1 where z: "z = (q, s1, x1)" by (cases z)
        have "process_events u5 reg mid (mark False s) x = Some (q, mark False s1, x1)"
          using process_events_mark [OF reg s, of u5 mid False x] mid z by simp
        with Some y r mid z show ?thesis
          using conclude_mark [of False "Some (q, s1, x1)"]
          by (cases q) (simp_all add: replay_and_run_def process_events_append m)
      qed
    qed
  qed
qed

text \<open>
  C1. Replay is deterministic: for orchestrators that ask neither \<open>is_replaying\<close> nor \<open>is_patched\<close>, two
  executions over the same history give the same actions, status, version and patches, or both never
  return, however the history is split into committed and new events.
\<close>

theorem replay_deterministic:
  assumes "blind_registry reg" and "old @ new = old' @ new'" and "new \<noteq> []" and "new' \<noteq> []"
  shows "execute u5 reg inst old new = execute u5 reg inst old' new'"
proof -
  from assms(2) consider (later) mid where "old = old' @ mid" "new' = mid @ new"
    | (earlier) mid where "old' = old @ mid" "new = mid @ new'"
    by (auto simp: append_eq_append_conv2)
  then show ?thesis
    using replay_shift [OF assms(1), of u5 inst] assms(3,4) by cases (simp_all add: execute_eq)
qed

lemma demo_registry_blind: "blind_registry demo_registry"
  by (auto simp: blind_registry_def demo_registry_def dict_simps one_activity_def await_value_def split: if_splits sum.split)

text \<open>The first event replayed, the second new: the activity is scheduled all the same.\<close>

theorem replay_deterministic_witness:
  "execute id demo_registry ''i1'' [new_workflow_started_event None] [new_execution_started_event ''wf'' ''i1'' None] =
     Some (Inr \<lparr>er_actions = [new_schedule_task_action 1 ''act'' None no_router
        (guid_name ''i1'' (to_datetime zero_timestamp) 0) None],
      er_custom_status = None, er_version_name = None, er_patches = []\<rparr>)"
  using replay_deterministic [OF demo_registry_blind, of "[new_workflow_started_event None]"
      "[new_execution_started_event ''wf'' ''i1'' None]" "[]" demo_started id "''i1''"] demo_executes [of id]
  by (simp add: demo_started_def)

end
