(* ===== verification/HistoryCache.thy ===== *)
theory HistoryCache
  imports Complex_Main Prelude
begin

text \<open>
  The per-stream history cache of the worker (\<open>_WorkflowHistoryCache\<close> in
  \<open>_durabletask/worker.py\<close>): a dict from instance ids to committed histories, bounded by a number of
  instances and an optional number of bytes, with a sliding time to live.

  The events are a type variable, and \<open>event.ByteSize()\<close> is the parameter \<open>size_of\<close>. A reading of the
  monotonic clock is the argument \<open>now\<close>. The lock makes every method one step.
\<close>

section \<open>State and operations\<close>

record 'e cached_history =
  ch_events :: "'e list"
  last_access :: rat
  num_bytes :: nat

record 'e history_cache =
  ttl :: rat
  max_instances :: nat
  max_bytes :: nat
  entries :: "(string, 'e cached_history) dict"
  total_bytes :: int

definition new_history_cache :: "rat \<Rightarrow> int \<Rightarrow> int \<Rightarrow> 'e history_cache" where
  "new_history_cache time_to_live instances bytes =
     \<lparr>ttl = (if time_to_live > 0 then time_to_live else 3600),
      max_instances = (if instances > 0 then nat instances else 100000),
      max_bytes = (if bytes > 0 then nat bytes else 0), entries = [], total_bytes = 0\<rparr>"

definition cache_get :: "rat \<Rightarrow> string \<Rightarrow> 'e history_cache \<Rightarrow> 'e list option \<times> 'e history_cache" where
  "cache_get now i c = (case dict_get (entries c) i of
     None \<Rightarrow> (None, c)
   | Some e \<Rightarrow> (Some (ch_events e), c\<lparr>entries := dict_set i (e\<lparr>last_access := now\<rparr>) (entries c)\<rparr>))"

definition cache_remove :: "string \<Rightarrow> 'e history_cache \<Rightarrow> 'e history_cache" where
  "cache_remove i c = (case dict_get (entries c) i of
     None \<Rightarrow> c
   | Some e \<Rightarrow> c\<lparr>entries := dict_del i (entries c), total_bytes := total_bytes c - num_bytes e\<rparr>)"

definition older_entry ::
  "string \<Rightarrow> (string \<times> rat) option \<Rightarrow> string \<times> 'e cached_history \<Rightarrow> (string \<times> rat) option" where
  "older_entry keep oldest p =
    (if fst p = keep then oldest
     else case oldest of
       None \<Rightarrow> Some (fst p, last_access (snd p))
     | Some (j, a) \<Rightarrow> if last_access (snd p) < a then Some (fst p, last_access (snd p)) else oldest)"

definition lru_except :: "string \<Rightarrow> 'e history_cache \<Rightarrow> string option" where
  "lru_except keep c = map_option fst (foldl (older_entry keep) None (entries c))"

definition over_count :: "'e history_cache \<Rightarrow> bool" where
  "over_count c \<longleftrightarrow> length (entries c) > max_instances c"

definition over_bytes :: "'e history_cache \<Rightarrow> bool" where
  "over_bytes c \<longleftrightarrow> max_bytes c > 0 \<and> total_bytes c > int (max_bytes c)"

text \<open>The oldest entry is one of the others, and none of the others is older.\<close>

lemma foldl_older_entry:
  "foldl (older_entry keep) acc d = Some (j, a) \<Longrightarrow>
     (acc = Some (j, a) \<or> (\<exists>e. (j, e) \<in> set d \<and> j \<noteq> keep \<and> last_access e = a)) \<and>
     (\<forall>k b. acc = Some (k, b) \<longrightarrow> a \<le> b) \<and>
     (\<forall>(k, e) \<in> set d. k \<noteq> keep \<longrightarrow> a \<le> last_access e)"
proof (induction d arbitrary: acc)
  case (Cons p d)
  have "foldl (older_entry keep) (older_entry keep acc p) d = Some (j, a)" using Cons.prems by simp
  from Cons.IH [OF this] show ?case
    by (cases p; cases acc) (auto simp: older_entry_def split: if_splits)
qed simp

lemma foldl_older_entry_None:
  "foldl (older_entry keep) acc d = None \<longleftrightarrow> acc = None \<and> (\<forall>(k, e) \<in> set d. k = keep)"
  by (induction d arbitrary: acc) (auto simp: older_entry_def split: option.splits if_splits)

lemma lru_except_SomeD:
  assumes "lru_except keep c = Some v"
  shows "v \<noteq> keep" and "\<exists>e. (v, e) \<in> set (entries c) \<and>
    (\<forall>(k, f) \<in> set (entries c). k \<noteq> keep \<longrightarrow> last_access e \<le> last_access f)"
proof -
  obtain a where "foldl (older_entry keep) None (entries c) = Some (v, a)"
    using assms by (auto simp: lru_except_def)
  from foldl_older_entry [OF this] show "v \<noteq> keep" "\<exists>e. (v, e) \<in> set (entries c) \<and>
    (\<forall>(k, f) \<in> set (entries c). k \<noteq> keep \<longrightarrow> last_access e \<le> last_access f)" by auto
qed

lemma lru_except_None: "lru_except keep c = None \<longleftrightarrow> set (dict_keys (entries c)) \<subseteq> {keep}"
  by (auto simp: lru_except_def foldl_older_entry_None)

lemma cache_remove_shorter:
  assumes "lru_except keep c = Some v"
  shows "length (entries (cache_remove v c)) < length (entries c)"
proof -
  obtain e where e: "(v, e) \<in> set (entries c)" using lru_except_SomeD(2) [OF assms] by blast
  then have "v \<in> set (dict_keys (entries c))" by force
  then obtain f where "dict_get (entries c) v = Some f" using dict_get_None_iff by fastforce
  moreover have "length (filter (\<lambda>(k, u). v \<noteq> k) (entries c)) < length (entries c)"
    using e by (intro length_filter_less [of "(v, e)"]) auto
  ultimately show ?thesis by (simp add: cache_remove_def dict_del_def AList.delete_eq)
qed

function evict_to_fit :: "string \<Rightarrow> 'e history_cache \<Rightarrow> 'e history_cache" where
  "evict_to_fit keep c =
    (if length (entries c) > 1 \<and> (over_count c \<or> over_bytes c) then
       (case lru_except keep c of
          None \<Rightarrow> c
        | Some v \<Rightarrow> evict_to_fit keep (cache_remove v c))
     else c)"
  by auto
termination
  by (relation "measure (\<lambda>(k, c). length (entries c))") (simp_all add: cache_remove_shorter)

declare evict_to_fit.simps [simp del]

definition byte_size :: "('e \<Rightarrow> nat) \<Rightarrow> 'e list \<Rightarrow> nat" where
  "byte_size size_of evs = sum_list (map size_of evs)"

definition cache_put ::
  "('e \<Rightarrow> nat) \<Rightarrow> rat \<Rightarrow> string \<Rightarrow> 'e list \<Rightarrow> 'e history_cache \<Rightarrow> 'e history_cache" where
  "cache_put size_of now i evs c =
    (let n = byte_size size_of evs;
         t = (case dict_get (entries c) i of None \<Rightarrow> total_bytes c | Some e \<Rightarrow> total_bytes c - num_bytes e)
     in evict_to_fit i (c\<lparr>entries := dict_set i \<lparr>ch_events = evs, last_access = now, num_bytes = n\<rparr> (entries c),
                          total_bytes := t + n\<rparr>))"

definition cache_delete :: "string \<Rightarrow> 'e history_cache \<Rightarrow> 'e history_cache" where
  "cache_delete i c = cache_remove i c"

definition cache_reset :: "'e history_cache \<Rightarrow> 'e history_cache" where
  "cache_reset c = c\<lparr>entries := [], total_bytes := 0\<rparr>"

definition sweep_expired :: "rat \<Rightarrow> 'e history_cache \<Rightarrow> 'e history_cache" where
  "sweep_expired now c =
     fold cache_remove (map fst (filter (\<lambda>p. now - last_access (snd p) > ttl c) (entries c))) c"

section \<open>The invariant\<close>

definition bytes_of :: "(string, 'e cached_history) dict \<Rightarrow> int" where
  "bytes_of d = sum_list (map (\<lambda>p. int (num_bytes (snd p))) d)"

definition cache_inv :: "'e history_cache \<Rightarrow> bool" where
  "cache_inv c \<longleftrightarrow> dict_wf (entries c) \<and> total_bytes c = bytes_of (entries c)"

lemma bytes_of_set:
  "bytes_of (dict_set i e d) =
     bytes_of d - (case dict_get d i of None \<Rightarrow> 0 | Some f \<Rightarrow> int (num_bytes f)) + int (num_bytes e)"
  by (induction d) (auto simp: bytes_of_def dict_simps)

lemma bytes_of_del:
  "dict_wf d \<Longrightarrow> bytes_of (dict_del i d) =
     bytes_of d - (case dict_get d i of None \<Rightarrow> 0 | Some f \<Rightarrow> int (num_bytes f))"
proof (induction d)
  case (Cons p d)
  then show ?case
    by (cases p) (auto simp: bytes_of_def dict_simps dict_del_fresh)
qed (simp add: bytes_of_def dict_simps)

lemma cache_get_entry [simp]:
  "cache_inv c \<Longrightarrow> cache_inv (snd (cache_get now i c))"
  by (auto simp: cache_inv_def cache_get_def bytes_of_set split: option.split)

lemma cache_remove_inv [simp]: "cache_inv c \<Longrightarrow> cache_inv (cache_remove i c)"
  by (auto simp: cache_inv_def cache_remove_def bytes_of_del split: option.split)

lemma cache_remove_entry:
  "dict_get (entries (cache_remove i c)) j = (if j = i then None else dict_get (entries c) j)"
  by (auto simp: cache_remove_def dict_get_del split: option.split)

lemma cache_remove_bounds [simp]:
  "ttl (cache_remove i c) = ttl c" "max_instances (cache_remove i c) = max_instances c"
  "max_bytes (cache_remove i c) = max_bytes c"
  by (simp_all add: cache_remove_def split: option.split)

lemma fold_cache_remove:
  "cache_inv c \<Longrightarrow> cache_inv (fold cache_remove is c)"
  "dict_get (entries (fold cache_remove is c)) j = (if j \<in> set is then None else dict_get (entries c) j)"
  by (induction "is" arbitrary: c) (auto simp: cache_remove_entry)

text \<open>
  Eviction ends within the bounds, or alone with the kept entry. It leaves the survivors as they
  were, and whatever it evicted was no younger than any survivor but the kept one.
\<close>

definition evicted_from :: "string \<Rightarrow> 'e history_cache \<Rightarrow> 'e history_cache \<Rightarrow> bool" where
  "evicted_from keep c c' \<longleftrightarrow>
     (\<forall>j. dict_get (entries c') j = None \<or> dict_get (entries c') j = dict_get (entries c) j) \<and>
     (\<forall>j k e f. dict_get (entries c) j = Some e \<and> dict_get (entries c') j = None \<and>
        dict_get (entries c') k = Some f \<and> k \<noteq> keep \<longrightarrow> last_access e \<le> last_access f)"

lemma evicted_from_refl [simp]: "evicted_from keep c c"
  by (auto simp: evicted_from_def)

lemma evicted_from_remove:
  assumes inv: "cache_inv c" and v: "lru_except keep c = Some v" and rest: "evicted_from keep (cache_remove v c) c'"
  shows "evicted_from keep c c'"
proof -
  obtain e where e: "dict_get (entries c) v = Some e"
    and old: "\<And>k f. dict_get (entries c) k = Some f \<Longrightarrow> k \<noteq> keep \<Longrightarrow> last_access e \<le> last_access f"
  proof -
    obtain e where m: "(v, e) \<in> set (entries c)"
      and old: "\<forall>(k, f) \<in> set (entries c). k \<noteq> keep \<longrightarrow> last_access e \<le> last_access f"
      using lru_except_SomeD(2) [OF v] by blast
    have "dict_get (entries c) v = Some e" using m inv by (simp add: cache_inv_def dict_get_in)
    moreover have "last_access e \<le> last_access f" if "dict_get (entries c) k = Some f" "k \<noteq> keep" for k f
      using old dict_get_SomeD [OF that(1)] that(2) by auto
    ultimately show thesis by (rule that)
  qed
  have surv: "dict_get (entries c') k = Some f \<Longrightarrow> dict_get (entries c) k = Some f \<and> k \<noteq> v" for k f
  proof -
    assume k: "dict_get (entries c') k = Some f"
    with rest have "dict_get (entries (cache_remove v c)) k = Some f"
      unfolding evicted_from_def by (metis option.distinct(1))
    then show ?thesis by (simp add: cache_remove_entry split: if_splits)
  qed
  have "last_access g \<le> last_access f"
    if "dict_get (entries c) j = Some g" "dict_get (entries c') j = None"
      "dict_get (entries c') k = Some f" "k \<noteq> keep" for j k g f
  proof (cases "j = v")
    case True
    with e that(1) old [of k f] surv [OF that(3)] that(4) show ?thesis by simp
  next
    case False
    with that(1) have "dict_get (entries (cache_remove v c)) j = Some g" by (simp add: cache_remove_entry)
    with that rest show ?thesis unfolding evicted_from_def by blast
  qed
  moreover have "dict_get (entries c') j = None \<or> dict_get (entries c') j = dict_get (entries c) j" for j
    using surv [of j] by (cases "dict_get (entries c') j") auto
  ultimately show ?thesis by (auto simp: evicted_from_def)
qed

definition within_bounds :: "'e history_cache \<Rightarrow> bool" where
  "within_bounds c \<longleftrightarrow> \<not> over_count c \<and> \<not> over_bytes c"

lemma evict_to_fit_spec:
  assumes "cache_inv c"
  shows "cache_inv (evict_to_fit keep c) \<and> evicted_from keep c (evict_to_fit keep c) \<and>
    dict_get (entries (evict_to_fit keep c)) keep = dict_get (entries c) keep \<and>
    (length (entries (evict_to_fit keep c)) \<le> 1 \<or> within_bounds (evict_to_fit keep c))"
  using assms
proof (induction keep c rule: evict_to_fit.induct)
  case (1 keep c)
  show ?case
  proof (cases "length (entries c) > 1 \<and> (over_count c \<or> over_bytes c)")
    case False
    then have "evict_to_fit keep c = c" by (subst evict_to_fit.simps) (simp only: if_False)
    with False 1 show ?thesis by (auto simp: within_bounds_def)
  next
    case True
    show ?thesis
    proof (cases "lru_except keep c")
      case None
      then have "set (dict_keys (entries c)) \<subseteq> {keep}" by (simp only: lru_except_None)
      moreover have "card (set (dict_keys (entries c))) = length (entries c)"
        using 1 by (metis cache_inv_def dict_wf_def distinct_card length_map)
      ultimately have "length (entries c) \<le> card {keep}" by (metis card_mono finite.emptyI finite.insertI)
      with True show ?thesis by simp
    next
      case (Some v)
      then have step: "evict_to_fit keep c = evict_to_fit keep (cache_remove v c)"
        using True by (subst evict_to_fit.simps) simp
      from "1.IH" [OF True Some] "1.prems" show ?thesis
        unfolding step using evicted_from_remove [OF "1.prems" Some] lru_except_SomeD(1) [OF Some]
        by (simp add: cache_remove_entry)
    qed
  qed
qed

lemma cache_put_inv [simp]: "cache_inv c \<Longrightarrow> cache_inv (cache_put size_of now i evs c)"
  unfolding cache_put_def Let_def
  by (rule evict_to_fit_spec [THEN conjunct1])
    (auto simp: cache_inv_def bytes_of_set split: option.split)

lemma cache_ops_inv [simp]:
  "cache_inv c \<Longrightarrow> cache_inv (cache_delete i c)"
  "cache_inv (cache_reset c)"
  "cache_inv c \<Longrightarrow> cache_inv (sweep_expired now c)"
  "cache_inv (new_history_cache t n b)"
  by (simp_all add: cache_delete_def sweep_expired_def fold_cache_remove new_history_cache_def)
    (simp add: cache_inv_def cache_reset_def bytes_of_def)+

section \<open>What a client relies on\<close>

text \<open>
  A lossy store: what it answers was put there, and it may forget. This is all that the resolution
  of histories uses.
\<close>

locale lossy_store =
  fixes peek :: "'c \<Rightarrow> 'k \<Rightarrow> 'v option" and store :: "'k \<Rightarrow> 'v \<Rightarrow> 'c \<Rightarrow> 'c" and drop_key :: "'k \<Rightarrow> 'c \<Rightarrow> 'c"
    and touch :: "'k \<Rightarrow> 'c \<Rightarrow> 'c" and valid :: "'c \<Rightarrow> bool"
  assumes valid_ops: "valid c \<Longrightarrow> valid (store k v c)" "valid c \<Longrightarrow> valid (drop_key k c)" "valid c \<Longrightarrow> valid (touch k c)"
    and peek_store: "valid c \<Longrightarrow> peek (store k v c) k = Some v"
    and peek_other: "valid c \<Longrightarrow> j \<noteq> k \<Longrightarrow> peek (store k v c) j = None \<or> peek (store k v c) j = peek c j"
    and peek_drop: "valid c \<Longrightarrow> peek (drop_key k c) j = (if j = k then None else peek c j)"
    and peek_touch: "valid c \<Longrightarrow> peek (touch k c) j = peek c j"
begin

text \<open>Every answer satisfies what every stored value satisfied.\<close>

definition agrees :: "('k \<Rightarrow> 'v \<Rightarrow> bool) \<Rightarrow> 'c \<Rightarrow> bool" where
  "agrees P c \<longleftrightarrow> valid c \<and> (\<forall>k v. peek c k = Some v \<longrightarrow> P k v)"

lemma agrees_store: "agrees P c \<Longrightarrow> P k v \<Longrightarrow> agrees P (store k v c)"
  unfolding agrees_def by (metis valid_ops(1) peek_store peek_other option.inject option.distinct(1))

lemma agrees_drop: "agrees P c \<Longrightarrow> agrees P (drop_key k c)"
  by (auto simp: agrees_def valid_ops peek_drop split: if_splits)

lemma agrees_touch: "agrees P c \<Longrightarrow> agrees P (touch k c)"
  by (auto simp: agrees_def valid_ops peek_touch)

lemma agrees_mono: "agrees P c \<Longrightarrow> (\<And>k v. P k v \<Longrightarrow> Q k v) \<Longrightarrow> agrees Q c"
  by (auto simp: agrees_def)

end

definition cached :: "'e history_cache \<Rightarrow> string \<Rightarrow> 'e list option" where
  "cached c i = map_option ch_events (dict_get (entries c) i)"

lemma cached_get [simp]:
  "fst (cache_get now i c) = cached c i"
  "cached (snd (cache_get now i c)) j = cached c j"
  by (auto simp: cache_get_def cached_def dict_get_set split: option.split)

text \<open>What \<open>put\<close> does to the entries, on a cache whose counter is right.\<close>

lemma cached_put_entries:
  assumes "cache_inv c"
  shows "dict_get (entries (cache_put size_of now i evs c)) i =
      Some \<lparr>ch_events = evs, last_access = now, num_bytes = byte_size size_of evs\<rparr>"
    and "j \<noteq> i \<Longrightarrow> dict_get (entries (cache_put size_of now i evs c)) j = None \<or>
      dict_get (entries (cache_put size_of now i evs c)) j = dict_get (entries c) j"
    and "length (entries (cache_put size_of now i evs c)) \<le> 1 \<or> within_bounds (cache_put size_of now i evs c)"
    and "j \<noteq> i \<Longrightarrow> k \<noteq> i \<Longrightarrow> dict_get (entries c) j = Some e \<Longrightarrow>
      dict_get (entries (cache_put size_of now i evs c)) j = None \<Longrightarrow>
      dict_get (entries (cache_put size_of now i evs c)) k = Some f \<Longrightarrow> last_access e \<le> last_access f"
proof -
  define e1 where "e1 = \<lparr>ch_events = evs, last_access = now, num_bytes = byte_size size_of evs\<rparr>"
  define c1 where "c1 = c\<lparr>entries := dict_set i e1 (entries c), total_bytes :=
     (case dict_get (entries c) i of None \<Rightarrow> total_bytes c | Some e \<Rightarrow> total_bytes c - num_bytes e) + byte_size size_of evs\<rparr>"
  have put: "cache_put size_of now i evs c = evict_to_fit i c1"
    by (simp add: cache_put_def c1_def e1_def Let_def)
  have inv: "cache_inv c1"
    using assms by (auto simp: cache_inv_def c1_def e1_def bytes_of_set split: option.split)
  have ev: "evicted_from i c1 (evict_to_fit i c1)" using evict_to_fit_spec [OF inv, of i] by blast
  from evict_to_fit_spec [OF inv, of i]
  show "dict_get (entries (cache_put size_of now i evs c)) i = Some e1"
    unfolding put by (simp add: c1_def dict_get_set)
  from ev show "j \<noteq> i \<Longrightarrow> dict_get (entries (cache_put size_of now i evs c)) j = None \<or>
      dict_get (entries (cache_put size_of now i evs c)) j = dict_get (entries c) j"
    unfolding put evicted_from_def by (simp add: c1_def dict_get_set) metis
  from evict_to_fit_spec [OF inv, of i]
  show "length (entries (cache_put size_of now i evs c)) \<le> 1 \<or> within_bounds (cache_put size_of now i evs c)"
    unfolding put by blast
  assume jk: "j \<noteq> i" "k \<noteq> i" and j: "dict_get (entries c) j = Some e"
    "dict_get (entries (cache_put size_of now i evs c)) j = None"
    and k: "dict_get (entries (cache_put size_of now i evs c)) k = Some f"
  have "dict_get (entries c1) j = Some e" using jk j by (simp add: c1_def dict_get_set)
  with ev jk j k show "last_access e \<le> last_access f" unfolding put evicted_from_def by blast
qed

lemma cached_put:
  assumes "cache_inv c"
  shows "cached (cache_put size_of now i evs c) i = Some evs"
    and "j \<noteq> i \<Longrightarrow> cached (cache_put size_of now i evs c) j = None \<or>
      cached (cache_put size_of now i evs c) j = cached c j"
  using cached_put_entries [OF assms] by (simp_all add: cached_def) metis

lemma cached_delete [simp]: "cached (cache_delete i c) j = (if j = i then None else cached c j)"
  by (simp add: cached_def cache_delete_def cache_remove_entry)

interpretation history: lossy_store cached "cache_put size_of now" cache_delete "\<lambda>i c. snd (cache_get now i c)" cache_inv
  by unfold_locales (simp_all add: cached_put)

section \<open>Reachable caches\<close>

inductive cache_step :: "('e \<Rightarrow> nat) \<Rightarrow> 'e history_cache \<Rightarrow> 'e history_cache \<Rightarrow> bool" for size_of where
  step_get: "cache_step size_of c (snd (cache_get now i c))"
| step_put: "cache_step size_of c (cache_put size_of now i evs c)"
| step_delete: "cache_step size_of c (cache_delete i c)"
| step_reset: "cache_step size_of c (cache_reset c)"
| step_sweep: "cache_step size_of c (sweep_expired now c)"

text \<open>The recorded sizes are the sizes of the events.\<close>

definition sized :: "('e \<Rightarrow> nat) \<Rightarrow> 'e history_cache \<Rightarrow> bool" where
  "sized size_of c \<longleftrightarrow>
     (\<forall>i e. dict_get (entries c) i = Some e \<longrightarrow> num_bytes e = byte_size size_of (ch_events e))"

lemma sized_put: "cache_inv c \<Longrightarrow> sized size_of c \<Longrightarrow> sized size_of (cache_put size_of now i evs c)"
  unfolding sized_def
proof (intro allI impI)
  fix j e assume inv: "cache_inv c" and s: "\<forall>i e. dict_get (entries c) i = Some e \<longrightarrow> num_bytes e = byte_size size_of (ch_events e)"
    and e: "dict_get (entries (cache_put size_of now i evs c)) j = Some e"
  show "num_bytes e = byte_size size_of (ch_events e)"
  proof (cases "j = i")
    case True
    with e cached_put_entries(1) [OF inv, of size_of now i evs] show ?thesis by auto
  next
    case False
    with e cached_put_entries(2) [OF inv False, of size_of now evs] s show ?thesis by simp
  qed
qed

lemma sized_mono:
  "sized size_of c \<Longrightarrow> (\<And>i e. dict_get (entries c') i = Some e \<Longrightarrow> dict_get (entries c) i = Some e) \<Longrightarrow> sized size_of c'"
  unfolding sized_def by blast

lemma sized_get: "sized size_of c \<Longrightarrow> sized size_of (snd (cache_get now i c))"
  by (auto simp: sized_def cache_get_def dict_get_set split: option.split)

lemma cache_step_inv: "cache_step size_of c c' \<Longrightarrow> cache_inv c \<and> sized size_of c \<Longrightarrow> cache_inv c' \<and> sized size_of c'"
proof (induction rule: cache_step.induct)
  case (step_delete c i)
  moreover have "sized size_of (cache_delete i c)"
    by (rule sized_mono [of _ c]) (use step_delete in \<open>simp_all add: cache_delete_def cache_remove_entry split: if_splits\<close>)
  ultimately show ?case by simp
next
  case (step_sweep c now)
  moreover have "sized size_of (sweep_expired now c)"
    by (rule sized_mono [of _ c]) (use step_sweep in \<open>simp_all add: sweep_expired_def fold_cache_remove split: if_splits\<close>)
  ultimately show ?case by simp
next
  case (step_reset c)
  show ?case by (simp add: sized_def) (simp add: cache_reset_def)
qed (simp_all add: sized_put sized_get)

definition cache_reach :: "('e \<Rightarrow> nat) \<Rightarrow> 'e history_cache \<Rightarrow> bool" where
  "cache_reach size_of c \<longleftrightarrow> (\<exists>t n b. rtranclp (cache_step size_of) (new_history_cache t n b) c)"

interpretation cache_machine: step_invariant "new_history_cache t n b" "cache_step size_of" "\<lambda>c. cache_inv c \<and> sized size_of c"
proof unfold_locales
  show "cache_inv (new_history_cache t n b) \<and> sized size_of (new_history_cache t n b)"
    by simp (simp add: sized_def new_history_cache_def)
qed (rule cache_step_inv)

lemma cache_reach_inv: "cache_reach size_of c \<Longrightarrow> cache_inv c \<and> sized size_of c"
  unfolding cache_reach_def using cache_machine.reachable_inv by blast

lemma bytes_of_sized:
  "dict_wf (entries c) \<Longrightarrow> sized size_of c \<Longrightarrow>
     bytes_of (entries c) = sum_list (map (\<lambda>p. int (byte_size size_of (ch_events (snd p)))) (entries c))"
  unfolding bytes_of_def sized_def by (rule arg_cong [of _ _ sum_list]) (auto dest: dict_get_in)

text \<open>
  C17. The cache stays within its bounds: after \<open>put\<close> on a reachable cache, the history just put is cached, and
  the cache holds no other or no more instances and bytes than allowed, the byte counter being the total size
  of the cached events. Every other entry is as before or evicted, and an evicted one was used no later
  than any that is left.
\<close>

theorem cache_put_bounded:
  assumes "cache_reach size_of c" and "c' = cache_put size_of now i evs c"
  shows "cached c' i = Some evs \<and> (length (entries c') \<le> 1 \<or> within_bounds c') \<and>
    total_bytes c' = sum_list (map (\<lambda>p. int (byte_size size_of (ch_events (snd p)))) (entries c')) \<and>
    (\<forall>j. j \<noteq> i \<longrightarrow> dict_get (entries c') j \<in> {None, dict_get (entries c) j}) \<and>
    (\<forall>j k e f. j \<noteq> i \<and> k \<noteq> i \<and> dict_get (entries c) j = Some e \<and> dict_get (entries c') j = None \<and>
       dict_get (entries c') k = Some f \<longrightarrow> last_access e \<le> last_access f)"
proof -
  have inv: "cache_inv c" "sized size_of c" using cache_reach_inv [OF assms(1)] by simp_all
  have inv': "cache_inv c'" "sized size_of c'" using inv by (simp_all add: assms(2) sized_put)
  have "total_bytes c' = sum_list (map (\<lambda>p. int (byte_size size_of (ch_events (snd p)))) (entries c'))"
    using inv' bytes_of_sized [of c' size_of] by (simp add: cache_inv_def)
  with cached_put_entries [OF inv(1), where size_of = size_of and now = now and i = i and evs = evs] show ?thesis
    unfolding assms(2) by (simp add: cached_def) blast
qed

text \<open>A cache for one instance: the second put evicts the first.\<close>

theorem cache_put_bounded_witness:
  "let c = cache_put id 1 ''a'' [5] (new_history_cache 60 1 0); c' = cache_put id 2 ''b'' [7::nat] c
   in cached c' ''b'' = Some [7] \<and> total_bytes c' = 7 \<and> cached c' ''a'' = None"
proof -
  let ?n = "new_history_cache 60 1 0" and ?c = "cache_put id 1 ''a'' [5::nat] (new_history_cache 60 1 0)"
  let ?c' = "cache_put id 2 ''b'' [7] ?c"
  have c: "entries ?c = [(''a'', \<lparr>ch_events = [5], last_access = 1, num_bytes = 5\<rparr>)]" "max_instances ?c = 1"
      "max_bytes ?c = 0" "total_bytes ?c = 5"
    by (simp_all add: cache_put_def new_history_cache_def evict_to_fit.simps byte_size_def Let_def dict_simps over_count_def
        over_bytes_def)
  have c': "entries ?c' = [(''b'', \<lparr>ch_events = [7], last_access = 2, num_bytes = 7\<rparr>)]"
    using c by (simp add: cache_put_def [of _ 2] evict_to_fit.simps byte_size_def Let_def dict_simps over_count_def
        over_bytes_def lru_except_def older_entry_def cache_remove_def)
  have r: "cache_reach id ?c"
    unfolding cache_reach_def by (rule exI [of _ 60], rule exI [of _ 1], rule exI [of _ 0])
      (rule r_into_rtranclp, rule step_put)
  from cache_put_bounded [OF r refl, of 2 "''b''" "[7]"] c' show ?thesis
    by (simp add: Let_def byte_size_def cached_def dict_simps)
qed

end
