(* ===== verification/Propagation.thy ===== *)
theory Propagation
  imports Proto
begin

text \<open>
  History propagated from a parent workflow (\<open>propagation.py\<close>): the decoding of the wire form, chunk
  by chunk, and the queries over it. Decoding one raw event is protobuf's \<open>ParseFromString\<close>, the
  parameter \<open>parse\<close>, which may raise.
\<close>

section \<open>Data\<close>

datatype propagation_scope = ScopeNone | ScopeOwnHistory | ScopeLineage

definition scope_of_int :: "int \<Rightarrow> propagation_scope res" where
  "scope_of_int n =
    (if n = 0 then Inr ScopeNone else if n = 1 then Inr ScopeOwnHistory else if n = 2 then Inr ScopeLineage
     else Inl (exc ValueError (str_of_int n @ '' is not a valid PropagationScope'')))"

record activity_result =
  ar_name :: string
  ar_started :: bool
  ar_completed :: bool
  ar_failed :: bool
  ar_input :: "string option"
  ar_output :: "string option"
  ar_error :: "failure_details option"

record child_workflow_result =
  cr_name :: string
  cr_started :: bool
  cr_completed :: bool
  cr_failed :: bool
  cr_output :: "string option"
  cr_error :: "failure_details option"

record history_chunk =
  hk_app_id :: string
  hk_instance_id :: string
  hk_workflow_name :: string
  start_event_index :: nat
  event_count :: nat

record propagated_history =
  ph_events :: "event list"
  ph_scope :: propagation_scope
  ph_chunks :: "history_chunk list"

record workflow_result =
  wr_instance_id :: string
  wr_app_id :: string
  wr_name :: string
  wr_events :: "event list"

text \<open>The wire form: a chunk carries its events as undecoded bytes, of type \<open>'raw\<close>.\<close>

record 'raw wire_chunk =
  wc_app_id :: string
  wc_instance_id :: string
  wc_workflow_name :: string
  wc_raw_events :: "'raw list"

record 'raw wire_history =
  wh_scope :: int
  wh_chunks :: "'raw wire_chunk list"

section \<open>Decoding\<close>

definition decode_error :: "nat \<Rightarrow> string \<Rightarrow> nat \<Rightarrow> exn \<Rightarrow> exn" where
  "decode_error i app j e = exc ValueError
     (''propagated history: chunk '' @ str_of_nat i @ '' (app '' @ py_repr app @ ''): failed to decode rawEvent '' @
      str_of_nat j @ '': '' @ ex_msg e)"

definition empty_app_error :: "nat \<Rightarrow> exn" where
  "empty_app_error i = exc ValueError (''propagated history: chunk '' @ str_of_nat i @ '' has empty appId'')"

fun decode_events :: "('raw \<Rightarrow> event res) \<Rightarrow> nat \<Rightarrow> string \<Rightarrow> nat \<Rightarrow> 'raw list \<Rightarrow> event list \<Rightarrow> event list res" where
  "decode_events parse i app j [] acc = Inr acc"
| "decode_events parse i app j (raw # raws) acc = (case parse raw of
     Inl e \<Rightarrow> Inl (decode_error i app j e)
   | Inr ev \<Rightarrow> decode_events parse i app (Suc j) raws (acc @ [ev]))"

fun decode_chunks ::
  "('raw \<Rightarrow> event res) \<Rightarrow> nat \<Rightarrow> 'raw wire_chunk list \<Rightarrow> event list \<Rightarrow> history_chunk list
   \<Rightarrow> (event list \<times> history_chunk list) res" where
  "decode_chunks parse i [] evs chunks = Inr (evs, chunks)"
| "decode_chunks parse i (c # cs) evs chunks =
    (if wc_app_id c = [] then Inl (empty_app_error i)
     else res_bind (decode_events parse i (wc_app_id c) 0 (wc_raw_events c) evs) (\<lambda>evs'.
       decode_chunks parse (Suc i) cs evs' (chunks @
         [\<lparr>hk_app_id = wc_app_id c, hk_instance_id = wc_instance_id c, hk_workflow_name = wc_workflow_name c,
           start_event_index = length evs, event_count = length evs' - length evs\<rparr>])))"

definition from_proto :: "('raw \<Rightarrow> event res) \<Rightarrow> 'raw wire_history option \<Rightarrow> propagated_history option res" where
  "from_proto parse wire = (case wire of
     None \<Rightarrow> Inr None
   | Some w \<Rightarrow>
       res_bind (decode_chunks parse 0 (wh_chunks w) [] []) (\<lambda>(evs, chunks).
         res_bind (scope_of_int (wh_scope w)) (\<lambda>sc.
           Inr (Some \<lparr>ph_events = evs, ph_scope = sc, ph_chunks = chunks\<rparr>))))"

section \<open>Queries\<close>

definition string_value_or_none :: "string option \<Rightarrow> string option" where
  "string_value_or_none sv = (if is_empty sv then None else sv)"

definition activity_event :: "int \<Rightarrow> activity_result \<Rightarrow> event \<Rightarrow> activity_result" where
  "activity_event schedule_id r e = (case ev_body e of
     TaskCompleted i out \<Rightarrow> if i = schedule_id
        then r\<lparr>ar_completed := True, ar_output := string_value_or_none out\<rparr> else r
   | TaskFailed i d \<Rightarrow> if i = schedule_id then r\<lparr>ar_failed := True, ar_error := Some d\<rparr> else r
   | _ \<Rightarrow> r)"

definition resolve_activity :: "event list \<Rightarrow> int \<Rightarrow> string \<Rightarrow> string option \<Rightarrow> activity_result" where
  "resolve_activity evs schedule_id name inp =
     foldl (activity_event schedule_id)
       \<lparr>ar_name = name, ar_started = True, ar_completed = False, ar_failed = False,
        ar_input = string_value_or_none inp, ar_output = None, ar_error = None\<rparr> evs"

definition child_event :: "int \<Rightarrow> child_workflow_result \<Rightarrow> event \<Rightarrow> child_workflow_result" where
  "child_event creation_id r e = (case ev_body e of
     ChildWorkflowInstanceCompleted i out \<Rightarrow> if i = creation_id
        then r\<lparr>cr_completed := True, cr_output := string_value_or_none out\<rparr> else r
   | ChildWorkflowInstanceFailed i d \<Rightarrow> if i = creation_id
        then r\<lparr>cr_failed := True, cr_error := Some d\<rparr> else r
   | _ \<Rightarrow> r)"

definition resolve_child_workflow :: "event list \<Rightarrow> int \<Rightarrow> string \<Rightarrow> child_workflow_result" where
  "resolve_child_workflow evs creation_id name =
     foldl (child_event creation_id)
       \<lparr>cr_name = name, cr_started = True, cr_completed = False, cr_failed = False,
        cr_output = None, cr_error = None\<rparr> evs"

definition get_activities_by_name :: "workflow_result \<Rightarrow> string \<Rightarrow> activity_result list" where
  "get_activities_by_name w name = concat (map (\<lambda>e. case ev_body e of
     TaskScheduled n inp \<Rightarrow> if n = name then [resolve_activity (wr_events w) (eventId e) n inp] else []
   | _ \<Rightarrow> []) (wr_events w))"

definition last_or_not_found :: "string \<Rightarrow> 'a list \<Rightarrow> 'a res" where
  "last_or_not_found msg rs = (if rs = [] then Inl (exc PropagationNotFoundError msg) else Inr (last rs))"

definition get_last_activity_by_name :: "workflow_result \<Rightarrow> string \<Rightarrow> activity_result res" where
  "get_last_activity_by_name w name = last_or_not_found
     (''no activity named '' @ py_repr name @ '' in propagated history for workflow '' @ py_repr (wr_name w))
     (get_activities_by_name w name)"

definition get_child_workflows_by_name :: "workflow_result \<Rightarrow> string \<Rightarrow> child_workflow_result list" where
  "get_child_workflows_by_name w name = concat (map (\<lambda>e. case ev_body e of
     ChildWorkflowInstanceCreated n inp inst \<Rightarrow>
       if n = name then [resolve_child_workflow (wr_events w) (eventId e) name] else []
   | _ \<Rightarrow> []) (wr_events w))"

definition get_last_child_workflow_by_name :: "workflow_result \<Rightarrow> string \<Rightarrow> child_workflow_result res" where
  "get_last_child_workflow_by_name w name = last_or_not_found
     (''no child workflow named '' @ py_repr name @ '' in propagated history for workflow '' @ py_repr (wr_name w))
     (get_child_workflows_by_name w name)"

definition chunk_events :: "propagated_history \<Rightarrow> history_chunk \<Rightarrow> event list" where
  "chunk_events p c = take (event_count c) (drop (start_event_index c) (ph_events p))"

definition get_app_ids :: "propagated_history \<Rightarrow> string list" where
  "get_app_ids p = foldl (\<lambda>seen c. if hk_app_id c \<in> set seen then seen else seen @ [hk_app_id c]) [] (ph_chunks p)"

definition select_events :: "(history_chunk \<Rightarrow> bool) \<Rightarrow> propagated_history \<Rightarrow> event list" where
  "select_events P p = concat (map (chunk_events p) (filter P (ph_chunks p)))"

definition get_events_by_app_id :: "propagated_history \<Rightarrow> string \<Rightarrow> event list" where
  "get_events_by_app_id p a = select_events (\<lambda>c. hk_app_id c = a) p"

definition get_events_by_instance_id :: "propagated_history \<Rightarrow> string \<Rightarrow> event list" where
  "get_events_by_instance_id p i = select_events (\<lambda>c. hk_instance_id c = i) p"

definition get_events_by_workflow_name :: "propagated_history \<Rightarrow> string \<Rightarrow> event list" where
  "get_events_by_workflow_name p n = select_events (\<lambda>c. hk_workflow_name c = n) p"

definition make_workflow_result :: "propagated_history \<Rightarrow> history_chunk \<Rightarrow> workflow_result" where
  "make_workflow_result p c =
     \<lparr>wr_instance_id = hk_instance_id c, wr_app_id = hk_app_id c, wr_name = hk_workflow_name c,
      wr_events = chunk_events p c\<rparr>"

definition get_workflows :: "propagated_history \<Rightarrow> workflow_result list" where
  "get_workflows p = map (make_workflow_result p) (ph_chunks p)"

definition get_workflows_by_name :: "propagated_history \<Rightarrow> string \<Rightarrow> workflow_result list" where
  "get_workflows_by_name p n = map (make_workflow_result p) (filter (\<lambda>c. hk_workflow_name c = n) (ph_chunks p))"

definition get_last_workflow_by_name :: "propagated_history \<Rightarrow> string \<Rightarrow> workflow_result res" where
  "get_last_workflow_by_name p n = last_or_not_found
     (''no workflow named '' @ py_repr n @ '' in propagated history'') (get_workflows_by_name p n)"

section \<open>Properties\<close>

definition decoded :: "('raw \<Rightarrow> event res) \<Rightarrow> 'raw wire_chunk \<Rightarrow> event list \<Rightarrow> bool" where
  "decoded parse c evs \<longleftrightarrow> wc_app_id c \<noteq> [] \<and> map parse (wc_raw_events c) = map Inr evs"

lemma decode_events_spec:
  "decode_events parse i app j raws acc = Inr evs \<longleftrightarrow>
     (\<exists>es. evs = acc @ es \<and> map parse raws = map Inr es)"
proof (induction raws arbitrary: j acc)
  case (Cons raw raws)
  show ?case
  proof (cases "parse raw")
    case (Inr ev)
    then show ?thesis using Cons [of "Suc j" "acc @ [ev]"] by (auto simp: Cons_eq_map_conv)
  qed (auto simp: Cons_eq_map_conv)
qed auto

fun layout :: "nat \<Rightarrow> 'raw wire_chunk list \<Rightarrow> event list list \<Rightarrow> history_chunk list" where
  "layout n (c # cs) (es # ess) =
     \<lparr>hk_app_id = wc_app_id c, hk_instance_id = wc_instance_id c, hk_workflow_name = wc_workflow_name c,
      start_event_index = n, event_count = length es\<rparr> # layout (n + length es) cs ess"
| "layout n _ _ = []"

lemma ex_list_all2_Cons:
  "(\<exists>yss. list_all2 P (x # xs) yss \<and> Q yss) \<longleftrightarrow> (\<exists>y ys. P x y \<and> list_all2 P xs ys \<and> Q (y # ys))"
  by (auto simp: list_all2_Cons1)

lemma decode_chunks_spec:
  "decode_chunks parse i cs evs chunks = Inr (evs', chunks') \<longleftrightarrow>
     (\<exists>ess. list_all2 (decoded parse) cs ess \<and> evs' = evs @ concat ess \<and>
        chunks' = chunks @ layout (length evs) cs ess)"
proof (induction cs arbitrary: i evs chunks)
  case (Cons c cs)
  show ?case
  proof (cases "wc_app_id c = []")
    case True
    then show ?thesis by (simp add: list_all2_Cons1 decoded_def)
  next
    case False
    let ?k = "\<lambda>es. \<lparr>hk_app_id = wc_app_id c, hk_instance_id = wc_instance_id c,
      hk_workflow_name = wc_workflow_name c, start_event_index = length evs, event_count = length es\<rparr>"
    have "decode_chunks parse i (c # cs) evs chunks = Inr (evs', chunks') \<longleftrightarrow>
       (\<exists>es. map parse (wc_raw_events c) = map Inr es \<and>
          decode_chunks parse (Suc i) cs (evs @ es) (chunks @ [?k es]) = Inr (evs', chunks'))"
      using False by (auto simp: res_bind_Inr_iff decode_events_spec)
    also have "\<dots> \<longleftrightarrow> (\<exists>es ess. map parse (wc_raw_events c) = map Inr es \<and> list_all2 (decoded parse) cs ess \<and>
        evs' = evs @ es @ concat ess \<and> chunks' = chunks @ ?k es # layout (length evs + length es) cs ess)"
      by (simp add: Cons.IH)
    also have "\<dots> \<longleftrightarrow> (\<exists>ess'. list_all2 (decoded parse) (c # cs) ess' \<and> evs' = evs @ concat ess' \<and>
        chunks' = chunks @ layout (length evs) (c # cs) ess')"
      using False by (simp add: ex_list_all2_Cons decoded_def)
    finally show ?thesis .
  qed
qed auto

lemma layout_slices:
  "list_all2 (decoded parse) cs ess \<Longrightarrow> ph_events p = pre @ concat ess \<Longrightarrow> length pre = n \<Longrightarrow>
     map (chunk_events p) (layout n cs ess) = ess"
proof (induction ess arbitrary: cs pre n)
  case (Cons es ess)
  then obtain c cs' where cs: "cs = c # cs'" "list_all2 (decoded parse) cs' ess"
    by (auto simp: list_all2_Cons2)
  have "map (chunk_events p) (layout (n + length es) cs' ess) = ess"
    by (rule Cons.IH [OF cs(2), of "pre @ es"]) (use Cons.prems in simp_all)
  moreover have "chunk_events p (hd (layout n cs (es # ess))) = es"
    using cs(1) Cons.prems by (simp add: chunk_events_def)
  ultimately show ?case using cs(1) by simp
qed simp

lemma layout_names:
  "list_all2 (decoded parse) cs ess \<Longrightarrow>
     map (\<lambda>k. (hk_app_id k, hk_instance_id k, hk_workflow_name k)) (layout n cs ess) =
     map (\<lambda>c. (wc_app_id c, wc_instance_id c, wc_workflow_name c)) cs"
  by (induction cs ess arbitrary: n rule: list_all2_induct) auto

text \<open>
  Propagated history is partitioned by its chunks: when the wire form decodes, every chunk names an
  app, its events are exactly its decoded raw events in order, the chunks' events follow each other
  without gap or overlap, and the query by app id returns the concatenation of the chunks of that app.
\<close>

theorem from_proto_partition:
  assumes "from_proto parse (Some w) = Inr (Some p)"
  shows "list_all2 (decoded parse) (wh_chunks w) (map (chunk_events p) (ph_chunks p)) \<and>
    concat (map (chunk_events p) (ph_chunks p)) = ph_events p \<and>
    map hk_app_id (ph_chunks p) = map wc_app_id (wh_chunks w) \<and>
    get_events_by_app_id p a =
      concat (map snd (filter (\<lambda>ce. wc_app_id (fst ce) = a) (zip (wh_chunks w) (map (chunk_events p) (ph_chunks p)))))"
proof -
  obtain ess where ess: "list_all2 (decoded parse) (wh_chunks w) ess" "ph_events p = concat ess"
    "ph_chunks p = layout 0 (wh_chunks w) ess"
    using assms by (auto simp: from_proto_def res_bind_Inr_iff decode_chunks_spec)
  have slices: "map (chunk_events p) (ph_chunks p) = ess"
    using layout_slices [OF ess(1), of p "[]" 0] ess(2,3) by simp
  have apps: "map hk_app_id (ph_chunks p) = map wc_app_id (wh_chunks w)"
    using arg_cong [OF layout_names [OF ess(1), of 0], of "map fst"] ess(3) by (simp add: comp_def)
  have "map snd (filter (\<lambda>ce. wc_app_id (fst ce) = a) (zip cs (map f ks))) = map f (filter (\<lambda>k. hk_app_id k = a) ks)"
    if "map hk_app_id ks = map wc_app_id cs" for f :: "history_chunk \<Rightarrow> event list" and ks cs
    using that by (induction ks arbitrary: cs) (auto simp: Cons_eq_map_conv)
  from this [OF apps, of "chunk_events p"] show ?thesis
    using ess slices apps by (simp add: get_events_by_app_id_def select_events_def)
qed

theorem from_proto_partition_witness:
  "\<exists>p. from_proto (\<lambda>r. Inr (new_event_raised_event r None)) (Some
      \<lparr>wh_scope = 2, wh_chunks = [
         \<lparr>wc_app_id = ''a'', wc_instance_id = ''i'', wc_workflow_name = ''w'', wc_raw_events = [''e1'', ''e2'']\<rparr>,
         \<lparr>wc_app_id = ''b'', wc_instance_id = ''j'', wc_workflow_name = ''v'', wc_raw_events = [''e3'']\<rparr>]\<rparr>) = Inr (Some p) \<and>
     concat (map (chunk_events p) (ph_chunks p)) = ph_events p"
proof -
  let ?w = "\<lparr>wh_scope = 2, wh_chunks = [
         \<lparr>wc_app_id = ''a'', wc_instance_id = ''i'', wc_workflow_name = ''w'', wc_raw_events = [''e1'', ''e2'']\<rparr>,
         \<lparr>wc_app_id = ''b'', wc_instance_id = ''j'', wc_workflow_name = ''v'', wc_raw_events = [''e3'']\<rparr>]\<rparr>"
  obtain p where "from_proto (\<lambda>r. Inr (new_event_raised_event r None)) (Some ?w) = Inr (Some p)"
    by (simp add: from_proto_def scope_of_int_def)
  with from_proto_partition [OF this] show ?thesis by blast
qed

end
