(* ===== verification/WorkerDispatch.thy ===== *)
theory WorkerDispatch
  imports HistoryCache Propagation ExecutorProps
begin

text \<open>
  What the worker does with one work item (\<open>TaskHubGrpcWorker\<close> and \<open>_ActivityExecutor\<close> in
  \<open>_durabletask/worker.py\<close>): it resolves the committed history, executes, refreshes the history
  cache, and delivers the response, with its fallback for responses that are too large.

  The sidecar is code outside of the repository: \<open>fetch\<close> is its GetInstanceHistory call and \<open>send\<close> the
  outcome of the call that delivers a response. The delivery attempts of a work item are returned as
  a list. Logging and tracing spans are left out.
\<close>

section \<open>Requests and responses\<close>

record 'raw workflow_request =
  wq_instance_id :: string
  wq_past_events :: "event list"
  wq_new_events :: "event list"
  wq_cached_history :: "int option"
  wq_propagated :: "'raw wire_history option"

record workflow_version =
  wv_name :: string
  wv_patches :: "string list"

record workflow_response =
  ws_instance_id :: string
  ws_actions :: "action list"
  ws_custom_status :: "string option"
  ws_completion_token :: string
  ws_version :: "workflow_version option"

text \<open>A delivery succeeds, or raises an RPC error, a \<open>ValueError\<close> (closed channel) or anything else.\<close>

datatype send_outcome = Sent | SendRpcError grpc_code string | SendValueError | SendOther exn

definition is_message_too_large :: "grpc_code \<Rightarrow> bool" where
  "is_message_too_large c \<longleftrightarrow> c = RESOURCE_EXHAUSTED"

section \<open>Orchestrations\<close>

definition history_resolution_error :: "string \<Rightarrow> exn \<Rightarrow> exn" where
  "history_resolution_error i e = exc HistoryResolutionError
     (''Failed to fetch the committed history for '' @ [CHR 39] @ i @ [CHR 39] @ '': '' @ ex_msg e)"

definition resolve_history ::
  "(string \<Rightarrow> event list res) \<Rightarrow> rat \<Rightarrow> 'raw workflow_request \<Rightarrow> event history_cache
   \<Rightarrow> event list res \<times> event history_cache"
where
  "resolve_history fetch now req c =
    (case wq_cached_history req of
       None \<Rightarrow> (Inr (wq_past_events req), c)
     | Some n \<Rightarrow>
         (case cache_get now (wq_instance_id req) c of (cached_events, c1) \<Rightarrow>
            (case (case cached_events of
                     Some evs \<Rightarrow> if int (length evs) = n then Some (evs @ wq_past_events req) else None
                   | None \<Rightarrow> None) of
               Some evs \<Rightarrow> (Inr evs, c1)
             | None \<Rightarrow>
                 (case fetch (wq_instance_id req) of
                    Inl e \<Rightarrow> (Inl (history_resolution_error (wq_instance_id req) e), c1)
                  | Inr evs \<Rightarrow> (Inr evs, c1)))))"

definition update_history_cache ::
  "bool \<Rightarrow> (event \<Rightarrow> nat) \<Rightarrow> rat \<Rightarrow> string \<Rightarrow> event list \<Rightarrow> action list \<Rightarrow> event history_cache \<Rightarrow> event history_cache"
where
  "update_history_cache disabled size_of now i committed acts c =
    (if disabled then c
     else if list_ex is_complete_action acts then cache_delete i c
     else cache_put size_of now i committed c)"

definition response_version :: "execution_results \<Rightarrow> workflow_version option" where
  "response_version r =
    (let name = (case er_version_name r of None \<Rightarrow> [] | Some n \<Rightarrow> n) in
     if name = [] \<and> er_patches r = [] then None
     else Some \<lparr>wv_name = name, wv_patches = er_patches r\<rparr>)"

definition failure_response :: "string \<Rightarrow> string \<Rightarrow> exn \<Rightarrow> workflow_response" where
  "failure_response i token ex =
     \<lparr>ws_instance_id = i,
      ws_actions = [new_complete_workflow_action (-1) FAILED (Some []) (Some (new_failure_details ex)) None None],
      ws_custom_status = None, ws_completion_token = token, ws_version = None\<rparr>"

definition success_response :: "string \<Rightarrow> string \<Rightarrow> execution_results \<Rightarrow> workflow_response" where
  "success_response i token r =
     \<lparr>ws_instance_id = i, ws_actions = er_actions r, ws_custom_status = er_custom_status r,
      ws_completion_token = token, ws_version = response_version r\<rparr>"

text \<open>What a worker process is configured with: the hash, the protobuf parser, sizes and the registry.\<close>

record ('raw, 'a) worker_env =
  we_u5 :: "string \<Rightarrow> string"
  we_parse :: "'raw \<Rightarrow> event res"
  we_size :: "event \<Rightarrow> nat"
  we_registry :: "(orchestrator, 'a) registry"
  we_disable_stateful :: bool

text \<open>
  The first \<open>try\<close> of \<open>_execute_orchestrator\<close>. \<open>Inl ()\<close> is the handler that drops the stream;
  \<open>t1\<close> and \<open>t2\<close> are the clock readings of the cache lookup and of the cache update.
\<close>

definition work_response ::
  "('raw, 'a) worker_env \<Rightarrow> (string \<Rightarrow> event list res) \<Rightarrow> rat \<Rightarrow> rat \<Rightarrow> 'raw workflow_request \<Rightarrow> string
   \<Rightarrow> event history_cache \<Rightarrow> ((unit + workflow_response) \<times> event history_cache) option"
where
  "work_response env fetch t1 t2 req token c =
    (let i = wq_instance_id req; failed = (\<lambda>e. Inr (failure_response i token e)) in
     case from_proto (we_parse env) (wq_propagated req) of
       Inl e \<Rightarrow> Some (failed e, c)
     | Inr propagated \<Rightarrow>
        (case resolve_history fetch t1 req c of
           (Inl e, c1) \<Rightarrow> Some (Inl (), c1)
         | (Inr old, c1) \<Rightarrow>
             Option.bind (execute (we_u5 env) (we_registry env) i old (wq_new_events req)) (\<lambda>r.
               Some (case r of
                 Inl e \<Rightarrow> (failed e, c1)
               | Inr res \<Rightarrow> (Inr (success_response i token res),
                   update_history_cache (we_disable_stateful env) (we_size env) t2 i old (er_actions res) c1)))))"

text \<open>The second \<open>try\<close>: a response too large is replaced by a failure, once; every other error is logged.\<close>

definition too_large_error :: "string \<Rightarrow> string \<Rightarrow> exn" where
  "too_large_error what details = exc RuntimeError (what @ '' exceeds gRPC max message size: '' @ details)"

definition deliver_workflow :: "(workflow_response \<Rightarrow> send_outcome) \<Rightarrow> workflow_response \<Rightarrow> workflow_response list" where
  "deliver_workflow send res = (case send res of
     SendRpcError code details \<Rightarrow>
       if is_message_too_large code
       then [res, failure_response (ws_instance_id res) (ws_completion_token res)
                    (too_large_error ''Orchestrator response'' details)]
       else [res]
   | _ \<Rightarrow> [res])"

record turn =
  turn_attempts :: "workflow_response list"
  turn_torn_down :: bool

definition answer_turn :: "(workflow_response \<Rightarrow> send_outcome) \<Rightarrow> unit + workflow_response \<Rightarrow> turn" where
  "answer_turn send w = (case w of
     Inl _ \<Rightarrow> \<lparr>turn_attempts = [], turn_torn_down = True\<rparr>
   | Inr res \<Rightarrow> \<lparr>turn_attempts = deliver_workflow send res, turn_torn_down = False\<rparr>)"

definition execute_orchestrator ::
  "('raw, 'a) worker_env \<Rightarrow> (string \<Rightarrow> event list res) \<Rightarrow> (workflow_response \<Rightarrow> send_outcome) \<Rightarrow> rat \<Rightarrow> rat
   \<Rightarrow> 'raw workflow_request \<Rightarrow> string \<Rightarrow> event history_cache \<Rightarrow> (turn \<times> event history_cache) option"
where
  "execute_orchestrator env fetch send t1 t2 req token c =
     map_option (\<lambda>(w, c1). (answer_turn send w, c1)) (work_response env fetch t1 t2 req token c)"

section \<open>Activities\<close>

record activity_context =
  ac_orchestration_id :: string
  ac_task_id :: int
  ac_task_execution_id :: string
  ac_propagated_history :: "propagated_history option"

text \<open>
  Calling a registered activity returns a value, raises, or returns a coroutine; awaiting a coroutine
  ends with a value or an exception, or is cancelled (\<open>None\<close>).
\<close>

datatype call_outcome = CallReturns pyval | CallRaises exn | CallCoroutine "pyval res option"

record activity_fn =
  af_is_async :: bool
  af_call :: "activity_context \<Rightarrow> pyval \<Rightarrow> call_outcome"

record 'raw activity_request =
  aq_instance_id :: string
  aq_name :: string
  aq_task_id :: int
  aq_input :: string
  aq_task_execution_id :: string
  aq_propagated :: "'raw wire_history option"

record activity_response =
  as_instance_id :: string
  as_task_id :: int
  as_result :: "string option"
  as_failure :: "failure_details option"
  as_completion_token :: string

definition activity_not_registered :: "string \<Rightarrow> exn" where
  "activity_not_registered name = exc ActivityNotRegisteredError
     (''Activity function named '' @ [CHR 39] @ name @ [CHR 39] @ '' was not registered!'')"

definition resolve_activity_call ::
  "activity_fn option \<Rightarrow> string \<Rightarrow> string \<Rightarrow> int \<Rightarrow> string \<Rightarrow> string \<Rightarrow> propagated_history option
   \<Rightarrow> (activity_fn \<times> activity_context \<times> pyval) res"
where
  "resolve_activity_call fn inst name task_id enc exec_id propagated = (case fn of
     None \<Rightarrow> Inl (activity_not_registered name)
   | Some f \<Rightarrow>
       res_bind (if enc \<noteq> [] then from_json enc else Inr PNone) (\<lambda>v.
         Inr (f, \<lparr>ac_orchestration_id = inst, ac_task_id = task_id, ac_task_execution_id = exec_id,
                  ac_propagated_history = propagated\<rparr>, v)))"

definition coroutine_error :: "string \<Rightarrow> exn" where
  "coroutine_error name = exc RuntimeError
     (''Activity '' @ [CHR 39] @ name @ [CHR 39] @ '' returned a coroutine on the sync path. Declare it with ``async def``, '' @
      ''or if it already is, ensure any decorator wrapping it uses ``@functools.wraps(fn)`` so the runtime can detect '' @
      ''the underlying async function.'')"

definition activity_execute ::
  "activity_fn option \<Rightarrow> string \<Rightarrow> string \<Rightarrow> int \<Rightarrow> string \<Rightarrow> string \<Rightarrow> propagated_history option \<Rightarrow> string option res"
where
  "activity_execute fn inst name task_id enc exec_id propagated =
     res_bind (resolve_activity_call fn inst name task_id enc exec_id propagated) (\<lambda>(f, ac, v).
       case af_call f ac v of
         CallRaises e \<Rightarrow> Inl e
       | CallCoroutine r \<Rightarrow> Inl (coroutine_error name)
       | CallReturns out \<Rightarrow> encode_result False out)"

definition not_awaitable :: "pyval \<Rightarrow> exn" where
  "not_awaitable v = exc TypeError
     (''object '' @ type_name v @ '' can'' @ [CHR 39] @ ''t be used in '' @ [CHR 39] @ ''await'' @ [CHR 39] @ '' expression'')"

text \<open>The asynchronous path. \<open>None\<close> is a cancellation, which propagates.\<close>

definition activity_execute_async ::
  "activity_fn option \<Rightarrow> string \<Rightarrow> string \<Rightarrow> int \<Rightarrow> string \<Rightarrow> string \<Rightarrow> propagated_history option \<Rightarrow> string option res option"
where
  "activity_execute_async fn inst name task_id enc exec_id propagated =
    (case resolve_activity_call fn inst name task_id enc exec_id propagated of
       Inl e \<Rightarrow> Some (Inl e)
     | Inr (f, ac, v) \<Rightarrow>
        (case af_call f ac v of
           CallRaises e \<Rightarrow> Some (Inl e)
         | CallReturns out \<Rightarrow> Some (Inl (not_awaitable out))
         | CallCoroutine r \<Rightarrow> map_option (\<lambda>x. res_bind x (encode_result False)) r))"

definition activity_result_response :: "'raw activity_request \<Rightarrow> string option \<Rightarrow> string \<Rightarrow> activity_response" where
  "activity_result_response req result token =
     \<lparr>as_instance_id = aq_instance_id req, as_task_id = aq_task_id req, as_result = result,
      as_failure = None, as_completion_token = token\<rparr>"

definition activity_failure_response :: "'raw activity_request \<Rightarrow> exn \<Rightarrow> string \<Rightarrow> activity_response" where
  "activity_failure_response req ex token =
     \<lparr>as_instance_id = aq_instance_id req, as_task_id = aq_task_id req, as_result = None,
      as_failure = Some (new_failure_details ex), as_completion_token = token\<rparr>"

definition send_activity_response ::
  "(activity_response \<Rightarrow> send_outcome) \<Rightarrow> 'raw activity_request \<Rightarrow> activity_response \<Rightarrow> string \<Rightarrow> activity_response list"
where
  "send_activity_response send req res token = (case send res of
     SendRpcError code details \<Rightarrow>
       if is_message_too_large code
       then [res, activity_failure_response req (too_large_error ''Activity result'' details) token]
       else [res]
   | _ \<Rightarrow> [res])"

definition activity_response_of :: "'raw activity_request \<Rightarrow> string \<Rightarrow> string option res \<Rightarrow> activity_response" where
  "activity_response_of req token r = (case r of
     Inl e \<Rightarrow> activity_failure_response req e token
   | Inr out \<Rightarrow> activity_result_response req out token)"

definition execute_activity ::
  "('raw \<Rightarrow> event res) \<Rightarrow> (activity_response \<Rightarrow> send_outcome) \<Rightarrow> activity_fn option \<Rightarrow> 'raw activity_request
   \<Rightarrow> string \<Rightarrow> activity_response list"
where
  "execute_activity parse send fn req token =
     send_activity_response send req (activity_response_of req token
       (res_bind (from_proto parse (aq_propagated req)) (\<lambda>propagated.
          activity_execute fn (aq_instance_id req) (aq_name req) (aq_task_id req) (aq_input req)
            (aq_task_execution_id req) propagated))) token"

text \<open>On the event loop, the send runs on the thread pool, which may have been shut down.\<close>

definition execute_activity_async ::
  "('raw \<Rightarrow> event res) \<Rightarrow> (activity_response \<Rightarrow> send_outcome) \<Rightarrow> bool \<Rightarrow> activity_fn option \<Rightarrow> 'raw activity_request
   \<Rightarrow> string \<Rightarrow> activity_response list option"
where
  "execute_activity_async parse send pool_down fn req token =
     map_option (\<lambda>r. if pool_down then []
                     else send_activity_response send req (activity_response_of req token r) token)
       (case from_proto parse (aq_propagated req) of
          Inl e \<Rightarrow> Some (Inl e)
        | Inr propagated \<Rightarrow>
            activity_execute_async fn (aq_instance_id req) (aq_name req) (aq_task_id req) (aq_input req)
              (aq_task_execution_id req) propagated)"

section \<open>Work items\<close>

datatype 'raw work_item =
    WorkflowItem "'raw workflow_request" string
  | ActivityItem "'raw activity_request" string
  | HealthPing
  | OtherItem string

datatype 'raw job =
    OrchestrationJob "'raw workflow_request" string
  | SyncActivityJob "activity_fn option" "'raw activity_request" string
  | AsyncActivityJob "activity_fn" "'raw activity_request" string

definition dispatch :: "('o, activity_fn) registry \<Rightarrow> 'raw work_item \<Rightarrow> 'raw job option" where
  "dispatch reg item = (case item of
     WorkflowItem req token \<Rightarrow> Some (OrchestrationJob req token)
   | ActivityItem req token \<Rightarrow>
       (case get_activity reg (aq_name req) of
          None \<Rightarrow> Some (SyncActivityJob None req token)
        | Some f \<Rightarrow> Some (if af_is_async f then AsyncActivityJob f req token
                          else SyncActivityJob (Some f) req token))
   | HealthPing \<Rightarrow> None
   | OtherItem ty \<Rightarrow> None)"

end
