(* ===== verification/WorkerLoop.thy ===== *)
theory WorkerLoop
  imports WorkerDispatch
begin

text \<open>
  The listener of the worker (\<open>_async_run_loop\<close> in \<open>_durabletask/worker.py\<close>): connecting with a growing
  delay, reading the stream of work items in a thread, handing the items to the queues, and what
  each way of ending a stream does to the connection and to the history cache.

  A run is a list of sessions, one for each pass of the outer loop. What the code reads from elsewhere
  is part of the session: the outcomes of the attempts to connect with the random part of the delay, what
  the stream delivers, what the turns do to the cache meanwhile, and the flags as they are read: \<open>sd\<close> is
  \<open>self._shutdown\<close>, and \<open>down\<close> that the queues are shut down or the event loop is closed.
\<close>

section \<open>Connecting\<close>

record listener =
  l_connected :: bool
  l_retry_count :: nat
  l_cache :: "event history_cache"

definition conn_max_retry_delay :: rat where
  "conn_max_retry_delay = 15"

definition retry_delay :: "nat \<Rightarrow> rat \<Rightarrow> rat" where
  "retry_delay n jitter = min conn_max_retry_delay (2 ^ min n 6 + jitter)"

definition invalidate_connection :: "listener \<Rightarrow> listener" where
  "invalidate_connection l = l\<lparr>l_connected := False, l_cache := cache_reset (l_cache l)\<rparr>"

definition should_invalidate_connection :: "grpc_code \<Rightarrow> bool" where
  "should_invalidate_connection c \<longleftrightarrow>
     c \<in> {UNAVAILABLE, DEADLINE_EXCEEDED, CANCELLED, UNAUTHENTICATED, ABORTED, INTERNAL}"

text \<open>
  An attempt: whether the connection is created, the random part of the delay, and whether the worker is
  shut down while it waits. The result has the delays waited for and whether the worker is connected.
\<close>

record attempt =
  at_ok :: bool
  at_jitter :: rat
  at_shutdown :: bool

fun connect_loop :: "attempt list \<Rightarrow> listener \<Rightarrow> rat list \<times> listener" where
  "connect_loop [] l = ([], l)"
| "connect_loop (a # as) l =
     (if l_connected l then ([], l)
      else if at_ok a then ([], l\<lparr>l_connected := True, l_retry_count := 0\<rparr>)
      else
        let l1 = l\<lparr>l_retry_count := Suc (l_retry_count l)\<rparr>;
            d = retry_delay (l_retry_count l1) (at_jitter a)
        in if at_shutdown a then ([d], l1)
           else (case connect_loop as l1 of (ds, l2) \<Rightarrow> (d # ds, l2)))"

section \<open>Reading\<close>

datatype 'raw stream_event =
    StreamItem "'raw work_item" | StreamEnd | StreamRpc grpc_code | StreamFail exn

datatype 'raw queued = QueuedItem "'raw work_item" | QueuedFailure exn | Sentinel

text \<open>\<open>stream_reader\<close>: an event comes with the flag before and after the blocking read.\<close>

fun stream_reader :: "(bool \<times> 'raw stream_event \<times> bool) list \<Rightarrow> 'raw queued list" where
  "stream_reader [] = []"
| "stream_reader ((sd1, ev, sd2) # evs) =
     (if sd1 then [Sentinel]
      else case ev of
        StreamItem w \<Rightarrow> if sd2 then [Sentinel] else QueuedItem w # stream_reader evs
      | StreamEnd \<Rightarrow> [Sentinel]
      | StreamRpc c \<Rightarrow> [Sentinel]
      | StreamFail e \<Rightarrow> if sd2 then [Sentinel] else [QueuedFailure e, Sentinel])"

datatype session_end = EndStream | EndRaised exn

text \<open>The inner loop: each round reads \<open>sd\<close> and \<open>down\<close>. No end means that it waits for the queue.\<close>

fun consume ::
  "('o, activity_fn) registry \<Rightarrow> (bool \<times> bool) list \<Rightarrow> 'raw queued list \<Rightarrow> 'raw job list \<times> session_end option" where
  "consume reg ((sd, down) # fs) (q # qs) =
     (if sd then ([], Some EndStream)
      else case q of
        Sentinel \<Rightarrow> ([], Some EndStream)
      | QueuedFailure e \<Rightarrow> ([], Some (if down then EndStream else EndRaised e))
      | QueuedItem w \<Rightarrow>
          if down then ([], Some EndStream)
          else (case consume reg fs qs of (js, en) \<Rightarrow>
            ((case dispatch reg w of None \<Rightarrow> js | Some j \<Rightarrow> j # js), en)))"
| "consume reg fs qs = ([], None)"

section \<open>Ending\<close>

text \<open>
  The handlers of the outer loop: whether it goes on. An exception that was taken from the queue has
  invalidated the connection before.
\<close>

definition after_stream :: "bool \<Rightarrow> listener \<Rightarrow> bool \<times> listener" where
  "after_stream sd l = (if sd then (False, l) else (True, invalidate_connection l))"

definition after_rpc_error :: "bool \<Rightarrow> grpc_code \<Rightarrow> listener \<Rightarrow> bool \<times> listener" where
  "after_rpc_error sd c l =
    (if sd then (False, l)
     else let l1 = (if should_invalidate_connection c then invalidate_connection l else l)
          in (c \<noteq> CANCELLED, l1))"

text \<open>\<open>except RuntimeError\<close>, with its subclasses.\<close>

definition is_runtime_error :: "exn \<Rightarrow> bool" where
  "is_runtime_error e \<longleftrightarrow> ex_kind e \<in> {RuntimeError, RecursionError, NotImplementedError}"

definition after_error :: "bool \<Rightarrow> bool \<Rightarrow> exn \<Rightarrow> listener \<Rightarrow> bool \<times> listener" where
  "after_error sd down e l =
    (if is_runtime_error e then (False, l)
     else if sd \<or> down then (False, l)
     else (True, invalidate_connection l))"

text \<open>How \<open>GetWorkItems\<close> ends.\<close>

datatype open_outcome = Opened | OpenRpcError grpc_code | OpenFailed exn

record 'raw session =
  ss_attempts :: "attempt list"
  ss_open :: open_outcome
  ss_stream :: "(bool \<times> 'raw stream_event \<times> bool) list"
  ss_rounds :: "(bool \<times> bool) list"
  ss_turns :: "event history_cache \<Rightarrow> event history_cache"
  ss_shutdown :: bool
  ss_down :: bool

text \<open>One pass: the jobs handed over, the delays, whether the loop goes on, the new state.\<close>

definition run_session ::
  "('o, activity_fn) registry \<Rightarrow> 'raw session \<Rightarrow> listener \<Rightarrow> 'raw job list \<times> rat list \<times> bool \<times> listener" where
  "run_session reg ss l0 =
    (case connect_loop (ss_attempts ss) l0 of (ds, l) \<Rightarrow>
      (if \<not> l_connected l then ([], ds, False, l)
       else case ss_open ss of
         OpenRpcError c \<Rightarrow> ([], ds, after_rpc_error (ss_shutdown ss) c l)
       | OpenFailed e \<Rightarrow> ([], ds, after_error (ss_shutdown ss) (ss_down ss) e l)
       | Opened \<Rightarrow>
           (case consume reg (ss_rounds ss) (stream_reader (ss_stream ss)) of (js, en) \<Rightarrow>
             (let l1 = l\<lparr>l_cache := ss_turns ss (l_cache l)\<rparr> in
              (js, ds, (case en of
                 None \<Rightarrow> (False, l1)
               | Some EndStream \<Rightarrow> after_stream (ss_shutdown ss) l1
               | Some (EndRaised e) \<Rightarrow>
                   after_error (ss_shutdown ss) (ss_down ss) e (invalidate_connection l1)))))))"

text \<open>The loop, and the invalidation behind it.\<close>

fun async_run_loop ::
  "('o, activity_fn) registry \<Rightarrow> 'raw session list \<Rightarrow> listener \<Rightarrow> 'raw job list \<times> rat list \<times> bool \<times> listener" where
  "async_run_loop reg [] l = ([], [], True, l)"
| "async_run_loop reg (ss # rest) l =
     (case run_session reg ss l of (js, ds, on, l1) \<Rightarrow>
        if \<not> on then (js, ds, False, invalidate_connection l1)
        else (case async_run_loop reg rest l1 of (js', ds', on', l2) \<Rightarrow> (js @ js', ds @ ds', on', l2)))"

section \<open>Nothing read is lost\<close>

text \<open>
  An undisturbed session: some attempts fail, then one succeeds, the stream delivers the items \<open>ws\<close> and then
  ends in some way, and the worker is not shut down.
\<close>

definition stream_over :: "'raw stream_event \<Rightarrow> bool" where
  "stream_over ev = (case ev of StreamItem w \<Rightarrow> False | StreamFail e \<Rightarrow> \<not> is_runtime_error e | _ \<Rightarrow> True)"

definition attempts_ok :: "attempt list \<Rightarrow> bool" where
  "attempts_ok as \<longleftrightarrow> as \<noteq> [] \<and> at_ok (last as) \<and>
     (\<forall>a \<in> set (butlast as). \<not> at_ok a \<and> \<not> at_shutdown a \<and> 0 \<le> at_jitter a)"

definition calm_session :: "'raw session \<Rightarrow> 'raw work_item list \<Rightarrow> bool" where
  "calm_session ss ws \<longleftrightarrow> attempts_ok (ss_attempts ss) \<and> ss_open ss = Opened \<and> \<not> ss_shutdown ss \<and> \<not> ss_down ss \<and>
     (\<exists>t. stream_over t \<and> ss_stream ss = map (\<lambda>w. (False, StreamItem w, False)) ws @ [(False, t, False)]) \<and>
     (\<exists>n > length ws. ss_rounds ss = replicate n (False, False))"

text \<open>The delays before the attempts that follow failures.\<close>

definition backoff :: "nat \<Rightarrow> attempt list \<Rightarrow> rat list" where
  "backoff n as = map (\<lambda>(i, a). retry_delay (Suc i) (at_jitter a)) (enumerate n (butlast as))"

definition jobs_of :: "('o, activity_fn) registry \<Rightarrow> 'raw work_item list \<Rightarrow> 'raw job list" where
  "jobs_of reg ws = List.map_filter (dispatch reg) ws"

lemma connect_loop_ok:
  assumes "attempts_ok as" and "\<not> l_connected l"
  shows "connect_loop as l = (backoff (l_retry_count l) as, l\<lparr>l_connected := True, l_retry_count := 0\<rparr>)"
  using assms
proof (induction as arbitrary: l)
  case (Cons a as)
  show ?case
  proof (cases as)
    case Nil
    with Cons.prems show ?thesis by (simp add: attempts_ok_def backoff_def)
  next
    case (Cons a2 as2)
    then have "attempts_ok as" using Cons.prems(1) by (simp add: attempts_ok_def)
    moreover have "\<not> at_ok a" "\<not> at_shutdown a" using Cons.prems(1) Cons by (simp_all add: attempts_ok_def)
    ultimately show ?thesis
      using Cons.IH [of "l\<lparr>l_retry_count := Suc (l_retry_count l)\<rparr>"] Cons.prems(2) Cons
      by (simp add: backoff_def Let_def)
  qed
qed (simp add: attempts_ok_def)

lemma consume_calm:
  assumes "n > length ws" and "stream_over t"
  shows "consume reg (replicate n (False, False))
      (stream_reader (map (\<lambda>w. (False, StreamItem w, False)) ws @ [(False, t, False)])) =
    (jobs_of reg ws, Some (case t of StreamFail e \<Rightarrow> EndRaised e | _ \<Rightarrow> EndStream))"
  using assms(1)
proof (induction ws arbitrary: n)
  case Nil
  then obtain m where "n = Suc m" by (cases n) auto
  then show ?case using assms(2) by (cases t) (simp_all add: stream_over_def jobs_of_def map_filter_simps)
next
  case (Cons w ws)
  then obtain m where "n = Suc m" "m > length ws" by (cases n) auto
  with Cons.IH [of m] show ?case
    by (simp add: jobs_of_def map_filter_simps split: option.split)
qed

lemma retry_delay_bounds: "0 \<le> j \<Longrightarrow> 2 \<le> retry_delay (Suc n) j \<and> retry_delay (Suc n) j \<le> 15"
proof -
  assume j: "0 \<le> j"
  have "(1::rat) \<le> 2 ^ min n 5" by (rule one_le_power) simp
  with j have "2 \<le> 2 * 2 ^ min n 5 + j" by linarith
  then show ?thesis by (simp add: retry_delay_def conn_max_retry_delay_def)
qed

lemma backoff_bounds:
  assumes "\<forall>a \<in> set (butlast as). 0 \<le> at_jitter a"
  shows "\<forall>d \<in> set (backoff n as). 2 \<le> d \<and> d \<le> 15"
proof
  fix d assume "d \<in> set (backoff n as)"
  then obtain p where p: "p \<in> set (enumerate n (butlast as))" "d = retry_delay (Suc (fst p)) (at_jitter (snd p))"
    by (auto simp: backoff_def)
  then have "snd p \<in> set (butlast as)" by (metis in_set_enumerate_eq nth_mem add.commute less_diff_conv2)
  with assms p(2) show "2 \<le> d \<and> d \<le> 15" by (simp add: retry_delay_bounds)
qed

lemma run_session_calm:
  assumes "calm_session ss ws" and "\<not> l_connected l" and "l_retry_count l = 0"
  shows "\<exists>l'. run_session reg ss l = (jobs_of reg ws, backoff 0 (ss_attempts ss), True, l') \<and>
    \<not> l_connected l' \<and> l_retry_count l' = 0 \<and> entries (l_cache l') = []"
proof -
  obtain t n where t: "stream_over t" "ss_stream ss = map (\<lambda>w. (False, StreamItem w, False)) ws @ [(False, t, False)]"
    and n: "n > length ws" "ss_rounds ss = replicate n (False, False)"
    using assms(1) by (auto simp: calm_session_def)
  have c: "connect_loop (ss_attempts ss) l = (backoff 0 (ss_attempts ss), l\<lparr>l_connected := True, l_retry_count := 0\<rparr>)"
    using connect_loop_ok [of "ss_attempts ss" l] assms by (simp add: calm_session_def)
  from assms(1) t(1) show ?thesis
    unfolding run_session_def c t(2) n(2) consume_calm [OF n(1) t(1)]
    by (cases t) (simp_all add: calm_session_def stream_over_def after_stream_def after_error_def
        invalidate_connection_def cache_reset_def)
qed

text \<open>
  C18. The listener loses nothing and goes on: over undisturbed sessions, whatever ends each stream but a
  RuntimeError, every item read is handed to the queues, in order and once, as the dispatch says; the worker
  waits between 2 and 15 seconds after each failed attempt to connect, and it is ready to connect again,
  with an empty history cache.
\<close>

theorem listener_keeps_going:
  assumes "list_all2 calm_session sss wss" and "\<not> l_connected l" and "l_retry_count l = 0"
    and "entries (l_cache l) = []"
  shows "\<exists>ds l'. async_run_loop reg sss l = (concat (map (jobs_of reg) wss), ds, True, l') \<and>
    ds = concat (map (\<lambda>ss. backoff 0 (ss_attempts ss)) sss) \<and> (\<forall>d \<in> set ds. 2 \<le> d \<and> d \<le> 15) \<and>
    \<not> l_connected l' \<and> l_retry_count l' = 0 \<and> entries (l_cache l') = []"
  using assms
proof (induction sss wss arbitrary: l rule: list_all2_induct)
  case (Cons ss sss ws wss)
  obtain l1 where s: "run_session reg ss l = (jobs_of reg ws, backoff 0 (ss_attempts ss), True, l1)"
    and l1: "\<not> l_connected l1" "l_retry_count l1 = 0" "entries (l_cache l1) = []"
    using run_session_calm [OF Cons.hyps(1) Cons.prems(1,2)] by blast
  have "\<forall>d \<in> set (backoff 0 (ss_attempts ss)). 2 \<le> d \<and> d \<le> 15"
    by (rule backoff_bounds) (use Cons.hyps(1) in \<open>simp add: calm_session_def attempts_ok_def\<close>)
  with Cons.IH [OF l1] s show ?case by auto
qed simp

definition demo_session :: "unit session" where
  "demo_session = \<lparr>ss_attempts = [\<lparr>at_ok = False, at_jitter = 1/2, at_shutdown = False\<rparr>,
       \<lparr>at_ok = True, at_jitter = 0, at_shutdown = False\<rparr>],
     ss_open = Opened, ss_stream = [(False, StreamItem (ActivityItem
       \<lparr>aq_instance_id = ''i'', aq_name = ''act'', aq_task_id = 1, aq_input = [], aq_task_execution_id = [],
        aq_propagated = None\<rparr> ''tok''), False), (False, StreamEnd, False)],
     ss_rounds = [(False, False), (False, False)], ss_turns = id, ss_shutdown = False, ss_down = False\<rparr>"

definition demo_handlers :: "(unit, activity_fn) registry" where
  "demo_handlers = \<lparr>orchestrators = [], versioned_orchestrators = [], latest_version_name = [], activities = []\<rparr>"

lemma demo_session_calm: "\<exists>w. calm_session demo_session [w] \<and> length (jobs_of demo_handlers [w]) = 1"
  unfolding calm_session_def
  by (rule exI, intro conjI exI [of _ StreamEnd] exI [of _ 2])
    (auto simp: demo_session_def attempts_ok_def stream_over_def numeral_2_eq_2 jobs_of_def map_filter_simps
      dispatch_def get_activity_def demo_handlers_def dict_simps)

theorem listener_keeps_going_witness:
  "\<exists>js ds l'. async_run_loop demo_handlers [demo_session, demo_session]
      \<lparr>l_connected = False, l_retry_count = 0, l_cache = new_history_cache 0 0 0\<rparr> = (js, ds, True, l') \<and>
    length js = 2 \<and> ds = [5 / 2, 5 / 2] \<and> entries (l_cache l') = []"
proof -
  let ?l = "\<lparr>l_connected = False, l_retry_count = 0, l_cache = new_history_cache 0 0 0\<rparr> :: listener"
  obtain w where w: "calm_session demo_session [w]" "length (jobs_of demo_handlers [w]) = 1"
    using demo_session_calm by blast
  have c: "list_all2 calm_session [demo_session, demo_session] [[w], [w]]" using w by simp
  have b: "backoff 0 (ss_attempts demo_session) = [5 / 2]"
    by (simp add: backoff_def demo_session_def retry_delay_def conn_max_retry_delay_def)
  have l: "\<not> l_connected ?l" "l_retry_count ?l = 0" "entries (l_cache ?l) = []"
    by (simp_all add: new_history_cache_def)
  from listener_keeps_going [OF c l, of demo_handlers] w(2) b show ?thesis by auto
qed

end
