(* ===== verification/DispatchProps.thy ===== *)
theory DispatchProps
  imports WorkerDispatch
begin

text \<open>
  The promises of the dispatch: histories sent as a delta are resolved to the committed history, every
  work item is answered, and an activity's input and result survive the round trip through the
  sidecar. The first rests on the laws of the lossy store that the history cache provides.
\<close>

section \<open>Delta histories\<close>

text \<open>The cache holds, for each instance, a prefix of its committed history \<open>H\<close>.\<close>

definition cache_sound :: "(string \<Rightarrow> event list) \<Rightarrow> event history_cache \<Rightarrow> bool" where
  "cache_sound H c \<longleftrightarrow> cache_inv c \<and> (\<forall>i evs. cached c i = Some evs \<longrightarrow> prefix evs (H i))"

lemma cache_sound_agrees: "cache_sound H c \<longleftrightarrow> history.agrees (\<lambda>i evs. prefix evs (H i)) c"
  by (simp add: cache_sound_def history.agrees_def)

lemma cache_sound_ops:
  "cache_sound H c \<Longrightarrow> prefix evs (H i) \<Longrightarrow> cache_sound H (cache_put size_of now i evs c)"
  "cache_sound H c \<Longrightarrow> cache_sound H (cache_delete i c)"
  "cache_sound H c \<Longrightarrow> cache_sound H (snd (cache_get now i c))"
  unfolding cache_sound_agrees
  by (rule history.agrees_store history.agrees_drop history.agrees_touch, assumption+)+

text \<open>What the sidecar promises: a full send is the committed history, and a delta is what follows the prefix it names.\<close>

definition honest_request :: "(string \<Rightarrow> event list) \<Rightarrow> 'raw workflow_request \<Rightarrow> bool" where
  "honest_request H req \<longleftrightarrow> wq_past_events req = (case wq_cached_history req of
     None \<Rightarrow> H (wq_instance_id req) | Some n \<Rightarrow> drop (nat n) (H (wq_instance_id req)))"

definition honest_fetch :: "(string \<Rightarrow> event list) \<Rightarrow> (string \<Rightarrow> event list res) \<Rightarrow> bool" where
  "honest_fetch H fetch \<longleftrightarrow> (\<forall>i evs. fetch i = Inr evs \<longrightarrow> evs = H i)"

definition full_request :: "(string \<Rightarrow> event list) \<Rightarrow> 'raw workflow_request \<Rightarrow> 'raw workflow_request" where
  "full_request H req = req\<lparr>wq_cached_history := None, wq_past_events := H (wq_instance_id req)\<rparr>"

lemma prefix_drop: "prefix xs ys \<Longrightarrow> xs @ drop (length xs) ys = ys"
  by (auto elim: prefixE)

lemma resolve_history_cases:
  assumes "cache_sound H c" and "honest_request H req" and "honest_fetch H fetch"
    and "resolve_history fetch now req c = (r, c1)"
  shows "cache_sound H c1 \<and> (r = Inr (H (wq_instance_id req)) \<or>
    wq_cached_history req \<noteq> None \<and> (\<exists>e e'. fetch (wq_instance_id req) = Inl e \<and> r = Inl e'))"
proof (cases "wq_cached_history req")
  case None
  with assms show ?thesis by (auto simp: resolve_history_def honest_request_def)
next
  case (Some n)
  let ?i = "wq_instance_id req"
  obtain o1 c2 where g: "cache_get now ?i c = (o1, c2)" by fastforce
  have o1: "o1 = cached c ?i" using cached_get(1) [of now ?i c] g by simp
  have c2: "cache_sound H c2" using cache_sound_ops(3) [OF assms(1), of now ?i] g by simp
  have hit: "evs @ wq_past_events req = H ?i" if "o1 = Some evs" "int (length evs) = n" for evs
  proof -
    have "prefix evs (H ?i)" using assms(1) that(1) o1 by (auto simp: cache_sound_def)
    moreover have "wq_past_events req = drop (length evs) (H ?i)"
      using assms(2) Some that(2) by (auto simp: honest_request_def)
    ultimately show ?thesis by (simp add: prefix_drop)
  qed
  show ?thesis
  proof (cases "\<exists>evs. o1 = Some evs \<and> int (length evs) = n")
    case True
    then obtain evs where evs: "o1 = Some evs" "int (length evs) = n" by blast
    with assms(4) Some g have "r = Inr (evs @ wq_past_events req)" "c1 = c2"
      by (auto simp: resolve_history_def)
    with hit [OF evs] c2 show ?thesis by simp
  next
    case False
    then have miss: "(case o1 of Some evs \<Rightarrow> if int (length evs) = n then Some (evs @ wq_past_events req) else None
        | None \<Rightarrow> None) = None" by (auto split: option.split)
    show ?thesis
    proof (cases "fetch ?i")
      case (Inl e)
      with assms(4) Some g miss have "r = Inl (history_resolution_error ?i e)" "c1 = c2"
        by (simp_all add: resolve_history_def)
      with c2 Some Inl show ?thesis by blast
    next
      case (Inr evs)
      with assms(4) Some g miss have "r = Inr evs" "c1 = c2" by (simp_all add: resolve_history_def)
      with c2 Inr assms(3) show ?thesis by (simp add: honest_fetch_def)
    qed
  qed
qed

text \<open>
  C5. Delta histories are invisible: when every cached history is a prefix of the committed one, and
  the sidecar sends a full history, or what follows the prefix it names, and answers a fetch with
  the committed history, then a turn either drops the stream, because a fetch failed, without answering,
  or it ends exactly as it does for the full history. The cache holds prefixes again afterwards.
\<close>

theorem delta_equals_full:
  assumes "cache_sound H c" and "honest_request H req" and "honest_fetch H fetch"
    and "execute_orchestrator env fetch send t1 t2 req token c = Some (t, c')"
  shows "cache_sound H c' \<and>
    (t = \<lparr>turn_attempts = [], turn_torn_down = True\<rparr> \<and> (\<exists>e. fetch (wq_instance_id req) = Inl e) \<or>
     (\<exists>c''. execute_orchestrator env fetch send t1 t2 (full_request H req) token c = Some (t, c'')))"
proof -
  obtain w where w: "work_response env fetch t1 t2 req token c = Some (w, c')"
    and t: "t = answer_turn send w"
    using assms(4) by (auto simp: execute_orchestrator_def)
  have full: "execute_orchestrator env fetch send t1 t2 (full_request H req) token c = Some (t, c'')"
    if "work_response env fetch t1 t2 (full_request H req) token c = Some (w, c'')" for c''
    using that t by (simp add: execute_orchestrator_def)
  show ?thesis
  proof (cases "from_proto (we_parse env) (wq_propagated req)")
    case (Inl e)
    with w assms(1) full [of c] show ?thesis
      by (auto simp: Let_def work_response_def full_request_def)
  next
    case (Inr p)
    obtain r c1 where r: "resolve_history fetch t1 req c = (r, c1)" by fastforce
    note cs = resolve_history_cases [OF assms(1,2,3) r]
    show ?thesis
    proof (cases r)
      case (Inl e)
      with cs w t Inr r show ?thesis by (auto simp: Let_def work_response_def answer_turn_def)
    next
      case old: (Inr old)
      with cs have H: "old = H (wq_instance_id req)" and c1: "cache_sound H c1" by auto
      obtain x where x: "execute (we_u5 env) (we_registry env) (wq_instance_id req) old (wq_new_events req) = Some x"
        using w Inr r old by (auto simp: Let_def work_response_def bind_eq_Some_conv)
      have "cache_sound H c'"
        using w Inr r old x c1 H cache_sound_ops
        by (auto simp: Let_def work_response_def update_history_cache_def split: sum.splits)
      moreover have "\<exists>c''. work_response env fetch t1 t2 (full_request H req) token c = Some (w, c'')"
        using w Inr r old x H
        by (auto simp: Let_def work_response_def full_request_def resolve_history_def split: sum.splits)
      ultimately show ?thesis using full by blast
    qed
  qed
qed

definition demo_env :: "(event, unit) worker_env" where
  "demo_env = \<lparr>we_u5 = id, we_parse = Inr, we_size = (\<lambda>e. 1), we_registry = demo_registry, we_disable_stateful = False\<rparr>"

definition demo_request :: "event workflow_request" where
  "demo_request = \<lparr>wq_instance_id = ''i1'', wq_past_events = [], wq_new_events = demo_started,
     wq_cached_history = Some 0, wq_propagated = None\<rparr>"

definition demo_result :: execution_results where
  "demo_result = \<lparr>er_actions = [new_schedule_task_action 1 ''act'' None no_router
        (id (guid_name ''i1'' (to_datetime zero_timestamp) 0)) None],
      er_custom_status = None, er_version_name = None, er_patches = []\<rparr>"

lemma demo_turn:
  "execute_orchestrator demo_env (\<lambda>i. Inr []) (\<lambda>r. Sent) 1 2 demo_request ''tok'' (new_history_cache 0 0 0) =
     Some (\<lparr>turn_attempts = [success_response ''i1'' ''tok'' demo_result], turn_torn_down = False\<rparr>,
           cache_put (\<lambda>e. 1) 2 ''i1'' [] (new_history_cache 0 0 0))"
proof -
  have "execute id demo_registry ''i1'' [] demo_started = Some (Inr demo_result)"
    using demo_executes [of id] by (simp add: demo_result_def)
  moreover have "resolve_history (\<lambda>i. Inr []) 1 demo_request (new_history_cache 0 0 0) = (Inr [], new_history_cache 0 0 0)"
    by (simp add: resolve_history_def demo_request_def cache_get_def new_history_cache_def)
  ultimately show ?thesis
    by (simp add: execute_orchestrator_def work_response_def demo_env_def demo_request_def from_proto_def Let_def
        answer_turn_def deliver_workflow_def update_history_cache_def demo_result_def)
qed

theorem delta_equals_full_witness:
  "\<exists>t c' c''. execute_orchestrator demo_env (\<lambda>i. Inr []) (\<lambda>r. Sent) 1 2 demo_request ''tok''
       (new_history_cache 0 0 0) = Some (t, c') \<and> cache_sound (\<lambda>i. []) c' \<and>
     execute_orchestrator demo_env (\<lambda>i. Inr []) (\<lambda>r. Sent) 1 2 (full_request (\<lambda>i. []) demo_request) ''tok''
       (new_history_cache 0 0 0) = Some (t, c'')"
proof -
  have "cache_sound (\<lambda>i. []) (new_history_cache 0 0 0)"
    by (simp add: cache_sound_def) (simp add: cached_def new_history_cache_def)
  moreover have "honest_request (\<lambda>i. []) demo_request" by (simp add: honest_request_def demo_request_def)
  moreover have "honest_fetch (\<lambda>i. []) (\<lambda>i. Inr [])" by (simp add: honest_fetch_def)
  ultimately show ?thesis using delta_equals_full [OF _ _ _ demo_turn] demo_turn by fastforce
qed

section \<open>Every work item is answered\<close>

lemma response_fields:
  "ws_instance_id (failure_response i token e) = i" "ws_completion_token (failure_response i token e) = token"
  "ws_instance_id (success_response i token r) = i" "ws_completion_token (success_response i token r) = token"
  by (simp_all add: failure_response_def success_response_def)

text \<open>
  C9. Every turn is answered: a turn that ends drops the stream only when a needed fetch failed, and then
  attempts no delivery; otherwise it attempts one delivery, for its instance and with its completion
  token, and a second one exactly when the first was refused as too large, with a failure of the
  workflow that names the limit.
\<close>

theorem every_turn_answered:
  assumes "execute_orchestrator env fetch send t1 t2 req token c = Some (t, c')"
  shows "if turn_torn_down t
     then turn_attempts t = [] \<and> wq_cached_history req \<noteq> None \<and> (\<exists>e. fetch (wq_instance_id req) = Inl e)
     else (\<exists>res. turn_attempts t = (case send res of
             SendRpcError RESOURCE_EXHAUSTED d \<Rightarrow>
               [res, failure_response (wq_instance_id req) token (too_large_error ''Orchestrator response'' d)]
           | _ \<Rightarrow> [res]) \<and> ws_instance_id res = wq_instance_id req \<and> ws_completion_token res = token)"
proof -
  obtain w where w: "work_response env fetch t1 t2 req token c = Some (w, c')" and t: "t = answer_turn send w"
    using assms by (auto simp: execute_orchestrator_def)
  show ?thesis
  proof (cases w)
    case (Inl u)
    have "resolve_history fetch t1 req c = (Inl e, c1) \<Longrightarrow>
        wq_cached_history req \<noteq> None \<and> (\<exists>e. fetch (wq_instance_id req) = Inl e)" for e c1
      by (auto simp: resolve_history_def split: option.splits prod.splits sum.splits if_splits)
    with w Inl t show ?thesis
      by (auto simp: work_response_def answer_turn_def Let_def bind_eq_Some_conv split: sum.splits prod.splits)
        (metis sum.exhaust)+
  next
    case (Inr res)
    then have "ws_instance_id res = wq_instance_id req \<and> ws_completion_token res = token"
      using w by (auto simp: work_response_def Let_def bind_eq_Some_conv split: sum.splits prod.splits)
        (metis sum.exhaust response_fields)+
    with Inr t show ?thesis
      by (auto simp: answer_turn_def deliver_workflow_def is_message_too_large_def
          split: send_outcome.split grpc_code.split intro!: exI [of _ res])
  qed
qed

theorem every_turn_answered_witness:
  "\<exists>t c'. execute_orchestrator demo_env (\<lambda>i. Inr []) (\<lambda>r. Sent) 1 2 demo_request ''tok'' (new_history_cache 0 0 0)
      = Some (t, c') \<and> (\<exists>res. turn_attempts t = [res] \<and> ws_completion_token res = ''tok'')"
  using every_turn_answered [OF demo_turn] demo_turn by simp

section \<open>Activity round trip\<close>

text \<open>
  An activity call loses nothing: the action that \<open>call_activity\<close> schedules for an activity and an
  input \<open>v\<close> carries a payload from which the worker calls the activity on \<open>v\<close> itself, and if it
  returns \<open>out\<close> then the payload of the response decodes, on completion of the task, to \<open>out\<close>.
\<close>

theorem activity_call_roundtrip:
  assumes "json_rt v" and "json_rt out" and "ref_name fn = Inr name"
    and "\<And>ac. af_call f ac v = CallReturns out"
  shows "\<exists>t s' inp rt x r. call_activity u5 fn v rp app scope s = (Inr t, s') \<and>
     dict_get (pending_actions s') (sequence_number s + 1) =
       Some (new_schedule_task_action (sequence_number s + 1) name inp rt x scope) \<and>
     dict_get (pending_tasks s') (sequence_number s + 1) = Some t \<and>
     activity_execute (Some f) inst name task_id (sv_value inp) x propagated = Inr r \<and>
     decode_payload r = Inr out"
proof -
  have enc: "\<exists>inp. encode_result False w = Inr inp \<and> decode_payload inp = Inr w" if "json_rt w" for w
  proof (cases "w = PNone")
    case False
    have "json_text w \<noteq> []" by (rule json_text_nonempty) (rule json_rt_serializable [OF that])
    with False json_rt_wire [OF that] show ?thesis
      by (cases w) (simp_all add: encode_result_def decode_payload_def is_empty_def sv_value_def)
  qed (simp add: encode_result_def decode_payload_def is_empty_def)
  obtain inp where inp: "encode_result False v = Inr inp" "decode_payload inp = Inr v"
    using enc [OF assms(1)] by blast
  obtain r where r: "encode_result False out = Inr r" "decode_payload r = Inr out"
    using enc [OF assms(2)] by blast
  have "(if sv_value inp \<noteq> [] then from_json (sv_value inp) else Inr PNone) = Inr v"
    using inp(2) by (auto simp: decode_payload_def is_empty_def sv_value_def split: if_splits)
  then have "activity_execute (Some f) inst name task_id (sv_value inp) x propagated = Inr r" for x
    using r(1) assms(4) by (simp add: activity_execute_def resolve_activity_call_def)
  moreover have "\<exists>t s' rt x. call_activity u5 fn v rp app scope s = (Inr t, s') \<and>
     dict_get (pending_actions s') (sequence_number s + 1) =
       Some (new_schedule_task_action (sequence_number s + 1) name inp rt x scope) \<and>
     dict_get (pending_tasks s') (sequence_number s + 1) = Some t"
    using inp(1) assms(3)
    by (cases rp) (simp_all add: call_activity_def next_sequence_number_eq uuid4_def call_activity_function_helper_def
        call_action_def add_action_def add_task_def alloc_def Let_def dict_get_set new_schedule_task_action_def)
  ultimately show ?thesis using r(2) by blast
qed

theorem activity_call_roundtrip_witness:
  "\<exists>t s' inp rt x r. call_activity id (FnName ''double'') (PInt 21) None None None (new_context ''i'') = (Inr t, s') \<and>
     dict_get (pending_actions s') 1 = Some (new_schedule_task_action 1 ''double'' inp rt x None) \<and>
     activity_execute (Some \<lparr>af_is_async = False,
        af_call = (\<lambda>ac v. case v of PInt n \<Rightarrow> CallReturns (PInt (2 * n)) | _ \<Rightarrow> CallRaises (exc TypeError []))\<rparr>)
        ''i'' ''double'' 1 (sv_value inp) x None = Inr r \<and> decode_payload r = Inr (PInt 42)"
proof -
  let ?f = "\<lparr>af_is_async = False,
        af_call = (\<lambda>ac v. case v of PInt n \<Rightarrow> CallReturns (PInt (2 * n)) | _ \<Rightarrow> CallRaises (exc TypeError []))\<rparr>"
  have n: "sequence_number (new_context ''i'') + 1 = 1" by (simp add: new_context_def)
  have "json_rt (PInt 21)" "json_rt (PInt 42)" "ref_name (FnName ''double'') = Inr ''double''"
    "\<And>ac. af_call ?f ac (PInt 21) = CallReturns (PInt 42)" by (simp_all add: ref_name_def)
  from activity_call_roundtrip [OF this, where s = "new_context ''i''" and ?u5.0 = id and rp = None and app = None
      and scope = None and inst = "''i''" and task_id = 1 and propagated = None, unfolded n]
  show ?thesis by blast
qed

end
