(* ===== verification/WorkManager.thy ===== *)
theory WorkManager
  imports Prelude "HOL-Library.Multiset"
begin

text \<open>
  The worker's queues (\<open>_AsyncWorkerManager\<close> in \<open>_durabletask/worker.py\<close>): submissions, the binding of
  the queues to the running event loop, and the consumer of one queue with its semaphore as a step
  relation. A work item is of type \<open>'j\<close>, an event loop is a number.

  The two consumers are independent. What they rely on from asyncio: a queue is first in first out, a
  semaphore wakes its waiters in order, and \<open>wait_for(queue.get())\<close> times out only on an empty queue.
\<close>

section \<open>Submission\<close>

record concurrency_options =
  maximum_concurrent_activity_work_items :: int
  maximum_concurrent_orchestration_work_items :: int
  maximum_thread_pool_workers :: int

definition new_concurrency_options :: "nat \<Rightarrow> int option \<Rightarrow> int option \<Rightarrow> int option \<Rightarrow> concurrency_options" where
  "new_concurrency_options cpus act orch pool =
    (let n = (if cpus = 0 then 1 else int cpus) in
     \<lparr>maximum_concurrent_activity_work_items = (case act of Some k \<Rightarrow> k | None \<Rightarrow> 100 * n),
      maximum_concurrent_orchestration_work_items = (case orch of Some k \<Rightarrow> k | None \<Rightarrow> 100 * n),
      maximum_thread_pool_workers = (case pool of Some k \<Rightarrow> k | None \<Rightarrow> n + 4)\<rparr>)"

record 'j manager =
  activity_queue :: "'j list option"
  orchestration_queue :: "'j list option"
  queue_event_loop :: "nat option"
  pending_activity_work :: "'j list"
  pending_orchestration_work :: "'j list"
  mgr_shutdown :: bool
  thread_pool_shutdown :: bool

definition new_manager :: "'j manager" where
  "new_manager = \<lparr>activity_queue = None, orchestration_queue = None, queue_event_loop = None,
     pending_activity_work = [], pending_orchestration_work = [], mgr_shutdown = False,
     thread_pool_shutdown = False\<rparr>"

definition items :: "'j list option \<Rightarrow> 'j list" where
  "items q = (case q of None \<Rightarrow> [] | Some js \<Rightarrow> js)"

text \<open>\<open>current\<close> is the running loop, \<open>None\<close> without one (or when it is closed).\<close>

definition ensure_queues :: "nat option \<Rightarrow> 'j manager \<Rightarrow> 'j manager" where
  "ensure_queues current m = (case current of
     None \<Rightarrow> m
   | Some l \<Rightarrow>
       if queue_event_loop m = Some l \<and> activity_queue m \<noteq> None \<and> orchestration_queue m \<noteq> None then m
       else m\<lparr>activity_queue := Some (items (activity_queue m) @ pending_activity_work m),
              orchestration_queue := Some (items (orchestration_queue m) @ pending_orchestration_work m),
              queue_event_loop := Some l, pending_activity_work := [], pending_orchestration_work := []\<rparr>)"

definition submit_activity :: "nat option \<Rightarrow> 'j \<Rightarrow> 'j manager \<Rightarrow> 'j manager" where
  "submit_activity current j m =
    (let m1 = ensure_queues current m in
     case activity_queue m1 of
       Some js \<Rightarrow> m1\<lparr>activity_queue := Some (js @ [j])\<rparr>
     | None \<Rightarrow> m1\<lparr>pending_activity_work := pending_activity_work m1 @ [j]\<rparr>)"

definition submit_orchestration :: "nat option \<Rightarrow> 'j \<Rightarrow> 'j manager \<Rightarrow> 'j manager" where
  "submit_orchestration current j m =
    (let m1 = ensure_queues current m in
     case orchestration_queue m1 of
       Some js \<Rightarrow> m1\<lparr>orchestration_queue := Some (js @ [j])\<rparr>
     | None \<Rightarrow> m1\<lparr>pending_orchestration_work := pending_orchestration_work m1 @ [j]\<rparr>)"

definition manager_shutdown :: "'j manager \<Rightarrow> 'j manager" where
  "manager_shutdown m = m\<lparr>mgr_shutdown := True, thread_pool_shutdown := True\<rparr>"

definition reset_for_new_run :: "'j manager \<Rightarrow> 'j manager" where
  "reset_for_new_run m = m\<lparr>mgr_shutdown := False,
     activity_queue := map_option (\<lambda>js. []) (activity_queue m),
     orchestration_queue := map_option (\<lambda>js. []) (orchestration_queue m),
     pending_activity_work := [], pending_orchestration_work := []\<rparr>"

text \<open>
  What waits for the consumers, in order. Work is pending only while there is no queue, so binding the
  queues to a loop moves it over without reordering or loss.
\<close>

definition backlog :: "'j manager \<Rightarrow> 'j list \<times> 'j list" where
  "backlog m = (items (activity_queue m) @ pending_activity_work m,
                items (orchestration_queue m) @ pending_orchestration_work m)"

definition manager_inv :: "'j manager \<Rightarrow> bool" where
  "manager_inv m \<longleftrightarrow> (activity_queue m = None \<longleftrightarrow> orchestration_queue m = None) \<and>
     (activity_queue m \<noteq> None \<longrightarrow> pending_activity_work m = [] \<and> pending_orchestration_work m = [])"

inductive manager_step :: "'j manager \<Rightarrow> 'j manager \<Rightarrow> bool" where
  "manager_step m (ensure_queues current m)"
| "manager_step m (submit_activity current j m)"
| "manager_step m (submit_orchestration current j m)"
| "manager_step m (manager_shutdown m)"
| "manager_step m (reset_for_new_run m)"

lemma manager_inv_ensure: "manager_inv m \<Longrightarrow> manager_inv (ensure_queues current m)"
  by (auto simp: manager_inv_def ensure_queues_def split: option.split)

text \<open>Both submissions act on the state that \<open>ensure_queues\<close> leaves.\<close>

definition put_activity :: "'j \<Rightarrow> 'j manager \<Rightarrow> 'j manager" where
  "put_activity j m = (case activity_queue m of
     Some js \<Rightarrow> m\<lparr>activity_queue := Some (js @ [j])\<rparr>
   | None \<Rightarrow> m\<lparr>pending_activity_work := pending_activity_work m @ [j]\<rparr>)"

definition put_orchestration :: "'j \<Rightarrow> 'j manager \<Rightarrow> 'j manager" where
  "put_orchestration j m = (case orchestration_queue m of
     Some js \<Rightarrow> m\<lparr>orchestration_queue := Some (js @ [j])\<rparr>
   | None \<Rightarrow> m\<lparr>pending_orchestration_work := pending_orchestration_work m @ [j]\<rparr>)"

lemma submit_eq:
  "submit_activity current j m = put_activity j (ensure_queues current m)"
  "submit_orchestration current j m = put_orchestration j (ensure_queues current m)"
  by (simp_all add: submit_activity_def submit_orchestration_def put_activity_def put_orchestration_def Let_def)

lemma manager_inv_put:
  "manager_inv m \<Longrightarrow> manager_inv (put_activity j m)"
  "manager_inv m \<Longrightarrow> manager_inv (put_orchestration j m)"
  by (auto simp: manager_inv_def put_activity_def put_orchestration_def split: option.split)

lemma manager_step_inv: "manager_step m m' \<Longrightarrow> manager_inv m \<Longrightarrow> manager_inv m'"
  by (induction rule: manager_step.induct)
    (simp_all add: submit_eq manager_inv_put manager_inv_ensure,
     auto simp: manager_inv_def manager_shutdown_def reset_for_new_run_def)

interpretation manager: step_invariant new_manager manager_step manager_inv
  by (unfold_locales, simp add: manager_inv_def new_manager_def, rule manager_step_inv)

lemma items_simps [simp]: "items None = []" "items (Some js) = js"
  by (simp_all add: items_def)

lemma backlog_ensure [simp]: "backlog (ensure_queues current m) = backlog m"
  by (simp add: backlog_def ensure_queues_def split: option.split)

lemma backlog_submit:
  assumes "manager_inv m"
  shows "backlog (submit_activity current j m) = (fst (backlog m) @ [j], snd (backlog m))"
    and "backlog (submit_orchestration current j m) = (fst (backlog m), snd (backlog m) @ [j])"
proof -
  have "backlog (put_activity j k) = (fst (backlog k) @ [j], snd (backlog k))"
    "backlog (put_orchestration j k) = (fst (backlog k), snd (backlog k) @ [j])" if "manager_inv k" for k
    using that by (auto simp: put_activity_def put_orchestration_def backlog_def manager_inv_def split: option.split)
  from this [OF manager_inv_ensure [OF assms, of current]]
  show "backlog (submit_activity current j m) = (fst (backlog m) @ [j], snd (backlog m))"
    and "backlog (submit_orchestration current j m) = (fst (backlog m), snd (backlog m) @ [j])"
    by (simp_all add: submit_eq)
qed

section \<open>The consumer of a queue\<close>

text \<open>
  \<open>_consume_queue\<close> and \<open>_process_work_item\<close>: an item is queued, then a task that waits for the semaphore,
  then running, then finished. \<open>started\<close> and \<open>submitted\<close> record the orders. The consumer leaves its loop
  when it is shut down and idle, or shut down and timed out on the empty queue.
\<close>

record 'j lane =
  submitted :: "'j list"
  queued :: "'j list"
  waiting :: "'j list"
  running :: "'j list"
  started :: "'j list"
  finished :: "'j list"
  permits :: nat
  lane_shutdown :: bool
  exited :: bool

definition new_lane :: "nat \<Rightarrow> 'j lane" where
  "new_lane n = \<lparr>submitted = [], queued = [], waiting = [], running = [], started = [], finished = [],
     permits = n, lane_shutdown = False, exited = False\<rparr>"

definition put_work :: "'j \<Rightarrow> 'j lane \<Rightarrow> 'j lane" where
  "put_work j l = l\<lparr>submitted := submitted l @ [j], queued := queued l @ [j]\<rparr>"

definition take_work :: "'j lane \<Rightarrow> 'j lane option" where
  "take_work l = (case queued l of
     j # js \<Rightarrow> if exited l then None else Some (l\<lparr>queued := js, waiting := waiting l @ [j]\<rparr>)
   | [] \<Rightarrow> None)"

definition acquire :: "'j lane \<Rightarrow> 'j lane option" where
  "acquire l = (case waiting l of
     j # js \<Rightarrow> if permits l = 0 then None
               else Some (l\<lparr>waiting := js, running := running l @ [j], started := started l @ [j],
                           permits := permits l - 1\<rparr>)
   | [] \<Rightarrow> None)"

definition finish :: "'j \<Rightarrow> 'j lane \<Rightarrow> 'j lane option" where
  "finish j l = (if j \<in> set (running l)
     then Some (l\<lparr>running := remove1 j (running l), finished := finished l @ [j], permits := permits l + 1\<rparr>)
     else None)"

definition leave_loop :: "'j lane \<Rightarrow> 'j lane option" where
  "leave_loop l = (if lane_shutdown l \<and> queued l = [] \<and> \<not> exited l then Some (l\<lparr>exited := True\<rparr>) else None)"

inductive work_step :: "'j lane \<Rightarrow> 'j lane \<Rightarrow> bool" where
  step_take: "take_work l = Some l' \<Longrightarrow> work_step l l'"
| step_acquire: "acquire l = Some l' \<Longrightarrow> work_step l l'"
| step_finish: "finish j l = Some l' \<Longrightarrow> work_step l l'"

inductive lane_step :: "'j lane \<Rightarrow> 'j lane \<Rightarrow> bool" where
  lane_work: "work_step l l' \<Longrightarrow> lane_step l l'"
| lane_put: "lane_step l (put_work j l)"
| lane_stop: "lane_step l (l\<lparr>lane_shutdown := True\<rparr>)"
| lane_leave: "leave_loop l = Some l' \<Longrightarrow> lane_step l l'"

inductive_cases work_stepE: "work_step l l'"

definition lane_inv :: "nat \<Rightarrow> 'j lane \<Rightarrow> bool" where
  "lane_inv n l \<longleftrightarrow> length (running l) + permits l = n \<and>
     started l @ waiting l @ queued l = submitted l \<and>
     mset (started l) = mset (running l) + mset (finished l)"

lemma take_work_Some: "take_work l = Some l' \<longleftrightarrow> \<not> exited l \<and>
    (\<exists>j js. queued l = j # js \<and> l' = l\<lparr>queued := js, waiting := waiting l @ [j]\<rparr>)"
  by (auto simp: take_work_def split: list.split)

lemma acquire_Some: "acquire l = Some l' \<longleftrightarrow> permits l \<noteq> 0 \<and> (\<exists>j js. waiting l = j # js \<and>
    l' = l\<lparr>waiting := js, running := running l @ [j], started := started l @ [j], permits := permits l - 1\<rparr>)"
  by (auto simp: acquire_def split: list.split)

lemma finish_Some: "finish j l = Some l' \<longleftrightarrow> j \<in> set (running l) \<and>
    l' = l\<lparr>running := remove1 j (running l), finished := finished l @ [j], permits := permits l + 1\<rparr>"
  by (auto simp: finish_def)

lemma work_step_inv: "work_step l l' \<Longrightarrow> lane_inv n l \<Longrightarrow> lane_inv n l'"
proof (erule work_stepE)
  fix j assume f: "finish j l = Some l'" and inv: "lane_inv n l"
  then have j: "j \<in> set (running l)" by (simp add: finish_Some)
  then have "length (running l) > 0" by (cases "running l") auto
  moreover have "mset (running l) = add_mset j (mset (running l) - {#j#})" using j by simp
  ultimately show "lane_inv n l'"
    using f inv j by (auto simp: finish_Some lane_inv_def length_remove1)
qed (auto simp: take_work_Some acquire_Some lane_inv_def)

lemma lane_step_inv: "lane_step l l' \<Longrightarrow> lane_inv n l \<Longrightarrow> lane_inv n l'"
  by (induction rule: lane_step.induct)
    (auto simp: work_step_inv, auto simp: lane_inv_def put_work_def leave_loop_def split: if_splits)

interpretation lane: step_invariant "new_lane n" lane_step "lane_inv n"
  by (unfold_locales, simp add: lane_inv_def new_lane_def, rule lane_step_inv)

definition lane_reach :: "nat \<Rightarrow> 'j lane \<Rightarrow> bool" where
  "lane_reach n l \<longleftrightarrow> rtranclp lane_step (new_lane n) l"

lemma lane_reach_inv: "lane_reach n l \<Longrightarrow> lane_inv n l"
  unfolding lane_reach_def by (rule lane.reachable_inv)

text \<open>Each step of the work moves an item one stage on.\<close>

definition work_left :: "'j lane \<Rightarrow> nat" where
  "work_left l = 3 * length (queued l) + 2 * length (waiting l) + length (running l)"

lemma work_step_decreases: "work_step l l' \<Longrightarrow> work_left l' < work_left l"
proof (erule work_stepE)
  fix j assume f: "finish j l = Some l'"
  then have "0 < length (running l)" by (auto simp: finish_Some intro: length_pos_if_in_set)
  with f show "work_left l' < work_left l" by (auto simp: finish_Some work_left_def length_remove1)
qed (auto simp: take_work_Some acquire_Some work_left_def)

lemma work_chain: "(\<And>i. i < k \<Longrightarrow> work_step (f i) (f (Suc i))) \<Longrightarrow> work_left (f k) + k \<le> work_left (f 0)"
proof (induction k)
  case (Suc k)
  have "work_left (f (Suc k)) < work_left (f k)" by (rule work_step_decreases) (simp add: Suc.prems)
  with Suc show ?case by fastforce
qed simp

lemma work_stuck:
  assumes inv: "lane_inv n l" and n: "0 < n" and ex: "\<not> exited l" and stuck: "\<And>l'. \<not> work_step l l'"
  shows "queued l = [] \<and> waiting l = [] \<and> running l = []"
proof -
  have "take_work l = None" using stuck step_take [of l] by (cases "take_work l") auto
  then have q: "queued l = []" using ex by (auto simp: take_work_def split: list.splits)
  have "finish j l = None" for j using stuck step_finish [of j l] by (cases "finish j l") auto
  then have "j \<notin> set (running l)" for j by (metis finish_Some option.distinct(1))
  then have r: "running l = []" by (metis list.set_intros(1) neq_Nil_conv)
  have "acquire l = None" using stuck step_acquire [of l] by (cases "acquire l") auto
  moreover have "permits l \<noteq> 0" using inv n r by (auto simp: lane_inv_def)
  ultimately have "waiting l = []" by (auto simp: acquire_def split: list.splits)
  with q r show ?thesis by simp
qed

section \<open>Properties\<close>

text \<open>
  C11. The worker never runs more than its limit, and loses nothing: in every reachable state of a
  consumer at most \<open>n\<close> items run, the items started are exactly those running or finished, and the
  items start in the order of submission: those started, those waiting for the semaphore and those
  queued are, in this order, the submitted ones.
\<close>

theorem concurrency_limited:
  assumes "lane_reach n l"
  shows "length (running l) \<le> n \<and> started l @ waiting l @ queued l = submitted l \<and>
    mset (started l) = mset (running l) + mset (finished l)"
  using lane_reach_inv [OF assms] by (auto simp: lane_inv_def)

definition demo_lane :: "nat lane" where
  "demo_lane = (put_work 2 (put_work 1 (new_lane 1)))"

lemma demo_lane_reach: "lane_reach 1 demo_lane"
  unfolding lane_reach_def demo_lane_def
  by (blast intro: rtranclp.rtrancl_into_rtrancl rtranclp.rtrancl_refl lane_put)

theorem concurrency_limited_witness:
  "length (running demo_lane) \<le> 1 \<and> submitted demo_lane = [1, 2] \<and> queued demo_lane = [1, 2]"
  using concurrency_limited [OF demo_lane_reach] by (simp add: demo_lane_def put_work_def new_lane_def)

text \<open>
  C12. Submitted work is finished: with a positive limit, and while the consumer is in its loop, the
  consumer takes at most three steps per submitted item, and whenever it cannot step, every
  submitted item has finished.
\<close>

theorem work_is_finished:
  assumes "lane_reach n l" and "0 < n" and "\<not> exited l"
  shows "(\<forall>k f. f 0 = l \<and> (\<forall>i < k. work_step (f i) (f (Suc i))) \<longrightarrow> k \<le> 3 * length (submitted l)) \<and>
    ((\<forall>l'. \<not> work_step l l') \<longrightarrow> mset (finished l) = mset (submitted l))"
proof (intro conjI allI impI)
  fix k f assume f: "f 0 = l \<and> (\<forall>i < k. work_step (f i) (f (Suc i)))"
  then have "k \<le> work_left l" using work_chain [of k f] by simp
  moreover have "work_left l \<le> 3 * length (submitted l)"
  proof -
    have "length (submitted l) = length (started l) + length (waiting l) + length (queued l)"
      using lane_reach_inv [OF assms(1)] by (metis lane_inv_def length_append add.assoc)
    moreover have "length (running l) \<le> length (started l)"
      using lane_reach_inv [OF assms(1)] by (metis lane_inv_def size_mset size_union le_add1)
    ultimately show ?thesis by (simp add: work_left_def)
  qed
  ultimately show "k \<le> 3 * length (submitted l)" by simp
next
  assume "\<forall>l'. \<not> work_step l l'"
  with work_stuck [OF lane_reach_inv [OF assms(1)] assms(2,3)] lane_reach_inv [OF assms(1)]
  show "mset (finished l) = mset (submitted l)" by (auto simp: lane_inv_def)
qed

definition done_lane :: "nat lane" where
  "done_lane = \<lparr>submitted = [7], queued = [], waiting = [], running = [], started = [7], finished = [7],
     permits = 1, lane_shutdown = False, exited = False\<rparr>"

lemma done_lane_reach: "lane_reach 1 done_lane"
proof -
  let ?a = "put_work (7 :: nat) (new_lane 1)"
  let ?b = "?a\<lparr>queued := [], waiting := [7]\<rparr>"
  let ?c = "?b\<lparr>waiting := [], running := [7], started := [7], permits := 0\<rparr>"
  have s1: "lane_step (new_lane 1) ?a" by (rule lane_put)
  have s2: "lane_step ?a ?b" by (intro lane_work step_take) (simp add: take_work_Some put_work_def new_lane_def)
  have s3: "lane_step ?b ?c" by (intro lane_work step_acquire) (simp add: acquire_Some put_work_def new_lane_def)
  have s4: "lane_step ?c done_lane"
    by (intro lane_work step_finish [of 7]) (simp add: finish_Some put_work_def new_lane_def done_lane_def)
  have "lane_step\<^sup>*\<^sup>* (new_lane 1) ?a" using s1 by (rule r_into_rtranclp)
  then have "lane_step\<^sup>*\<^sup>* (new_lane 1) ?b" using s2 by (rule rtranclp.rtrancl_into_rtrancl)
  then have "lane_step\<^sup>*\<^sup>* (new_lane 1) ?c" using s3 by (rule rtranclp.rtrancl_into_rtrancl)
  then show ?thesis unfolding lane_reach_def using s4 by (rule rtranclp.rtrancl_into_rtrancl)
qed

theorem work_is_finished_witness:
  "(\<forall>l'. \<not> work_step done_lane l') \<and> mset (finished done_lane) = mset (submitted done_lane)"
proof -
  have "\<not> work_step done_lane l'" for l'
    by (auto elim!: work_stepE simp: take_work_Some acquire_Some finish_Some done_lane_def)
  moreover have "\<not> exited done_lane" by (simp add: done_lane_def)
  ultimately show ?thesis using work_is_finished [OF done_lane_reach] by simp
qed

end
