(* ===== verification/MockState.thy ===== *)
theory MockState
  imports ActorStateProps
begin

text \<open>
  The state manager for unit tests (\<open>actor/runtime/mock_state_manager.py\<close>): the same operations over a
  dict in place of the sidecar. It writes through to the dict on every change and saves nothing.
\<close>

record 'v mock =
  mock_tracker :: "'v tracker"
  mock_state :: "(string, 'v option) dict"

definition new_mock :: "(string, 'v option) dict option \<Rightarrow> 'v mock" where
  "new_mock initial = \<lparr>mock_tracker = [], mock_state = (case initial of None \<Rightarrow> [] | Some d \<Rightarrow> d)\<rparr>"

definition mock_track :: "string \<Rightarrow> 'v state_metadata \<Rightarrow> 'v mock \<Rightarrow> 'v mock" where
  "mock_track k md m = m\<lparr>mock_tracker := dict_set k md (mock_tracker m)\<rparr>"

definition mock_write :: "string \<Rightarrow> 'v option \<Rightarrow> 'v mock \<Rightarrow> 'v mock" where
  "mock_write k v m = m\<lparr>mock_state := dict_set k v (mock_state m)\<rparr>"

definition mock_drop :: "string \<Rightarrow> 'v mock \<Rightarrow> 'v mock" where
  "mock_drop k m = m\<lparr>mock_state := dict_del k (mock_state m)\<rparr>"

definition mock_try_add_state :: "string \<Rightarrow> 'v option \<Rightarrow> 'v mock \<Rightarrow> bool \<times> 'v mock" where
  "mock_try_add_state k v m =
    (case dict_get (mock_tracker m) k of
       Some md \<Rightarrow> if md_kind md = RemoveChange
         then (True, mock_track k (metadata v UpdateChange None) m) else (False, m)
     | None \<Rightarrow> if dict_has (mock_state m) k then (False, m)
         else (True, mock_write k v (mock_track k (metadata v AddChange None) m)))"

definition mock_add_state :: "string \<Rightarrow> 'v option \<Rightarrow> 'v mock \<Rightarrow> unit res \<times> 'v mock" where
  "mock_add_state k v m = (case mock_try_add_state k v m of (b, m') \<Rightarrow>
     (if b then Inr () else Inl (exc ValueError (''The actor state name '' @ k @ '' already exist.'')), m'))"

definition mock_try_get_state :: "string \<Rightarrow> 'v mock \<Rightarrow> (bool \<times> 'v option) \<times> 'v mock" where
  "mock_try_get_state k m =
    (case dict_get (mock_tracker m) k of
       Some md \<Rightarrow> (if md_kind md = RemoveChange then (False, None) else (True, md_value md), m)
     | None \<Rightarrow> (case dict_get (mock_state m) k of
         Some v \<Rightarrow> ((True, v), mock_track k (metadata v NoChange None) m)
       | None \<Rightarrow> ((False, None), m)))"

definition mock_get_state :: "string \<Rightarrow> 'v mock \<Rightarrow> 'v option res \<times> 'v mock" where
  "mock_get_state k m = (case mock_try_get_state k m of ((has, v), m') \<Rightarrow>
     (if has then Inr v else Inl (key_error k), m'))"

definition mock_set_state_ttl :: "string \<Rightarrow> 'v option \<Rightarrow> int option \<Rightarrow> 'v mock \<Rightarrow> 'v mock" where
  "mock_set_state_ttl k v ttl m =
    (if (case ttl of Some n \<Rightarrow> n < 0 | None \<Rightarrow> False) then m
     else mock_write k v (case dict_get (mock_tracker m) k of
       Some md \<Rightarrow> mock_track k (metadata v
           (if md_kind md = NoChange \<or> md_kind md = RemoveChange then UpdateChange else md_kind md) ttl) m
     | None \<Rightarrow> mock_track k (metadata v (if dict_has (mock_state m) k then UpdateChange else AddChange) ttl) m))"

definition mock_try_remove_state :: "string \<Rightarrow> 'v mock \<Rightarrow> bool \<times> 'v mock" where
  "mock_try_remove_state k m =
    (case dict_get (mock_tracker m) k of
       Some md \<Rightarrow>
         (case md_kind md of
            RemoveChange \<Rightarrow> (False, m)
          | AddChange \<Rightarrow> (True, mock_drop k (m\<lparr>mock_tracker := dict_del k (mock_tracker m)\<rparr>))
          | _ \<Rightarrow> (True, mock_track k (md\<lparr>md_kind := RemoveChange\<rparr>) (mock_drop k m)))
     | None \<Rightarrow> if dict_has (mock_state m) k
         then (True, mock_drop k (mock_track k (metadata None RemoveChange None) m)) else (False, m))"

definition mock_remove_state :: "string \<Rightarrow> 'v mock \<Rightarrow> unit res \<times> 'v mock" where
  "mock_remove_state k m = (case mock_try_remove_state k m of (b, m') \<Rightarrow>
     (if b then Inr () else Inl (key_error k), m'))"

definition mock_contains_state :: "string \<Rightarrow> 'v mock \<Rightarrow> bool" where
  "mock_contains_state k m = (case dict_get (mock_tracker m) k of
     Some md \<Rightarrow> md_kind md \<noteq> RemoveChange | None \<Rightarrow> dict_has (mock_state m) k)"

definition mock_is_marked_for_remove :: "string \<Rightarrow> 'v mock \<Rightarrow> bool" where
  "mock_is_marked_for_remove k m = (case dict_get (mock_tracker m) k of
     Some md \<Rightarrow> md_kind md = RemoveChange | None \<Rightarrow> False)"

definition mock_get_or_add_state :: "string \<Rightarrow> 'v option \<Rightarrow> 'v mock \<Rightarrow> 'v option \<times> 'v mock" where
  "mock_get_or_add_state k v m = (case mock_try_get_state k m of
     ((True, w), m') \<Rightarrow> (w, m')
   | ((False, w), m') \<Rightarrow>
       (v, mock_track k (metadata v (if mock_is_marked_for_remove k m' then UpdateChange else AddChange) None)
             (mock_write k v m')))"

definition mock_add_or_update_state ::
  "string \<Rightarrow> 'v option \<Rightarrow> (string \<Rightarrow> 'v option \<Rightarrow> 'v option res) option \<Rightarrow> 'v mock \<Rightarrow> 'v option res \<times> 'v mock"
where
  "mock_add_or_update_state k v factory m = (case factory of
     None \<Rightarrow> (Inl (exc AttributeError ''update_value_factory is not callable''), m)
   | Some f \<Rightarrow>
      (case dict_get (mock_tracker m) k of
         Some md \<Rightarrow>
           if md_kind md = RemoveChange
           then (Inr v, mock_write k v (mock_track k (metadata v UpdateChange None) m))
           else (case f k (md_value md) of
             Inl e \<Rightarrow> (Inl e, m)
           | Inr w \<Rightarrow> (Inr w, mock_write k w (mock_track k (md\<lparr>md_value := w,
               md_kind := (if md_kind md = NoChange then UpdateChange else md_kind md)\<rparr>) m)))
       | None \<Rightarrow>
          (case dict_get (mock_state m) k of
             Some old \<Rightarrow> (case f k old of
               Inl e \<Rightarrow> (Inl e, m)
             | Inr w \<Rightarrow> (Inr w, mock_write k w (mock_track k (metadata w UpdateChange None) m)))
           | None \<Rightarrow> (Inr v, mock_write k v (mock_track k (metadata v AddChange None) m)))))"

definition mock_get_state_names :: "'v mock \<Rightarrow> string list" where
  "mock_get_state_names m =
     map fst (filter (\<lambda>p. md_kind (snd p) = AddChange \<or> md_kind (snd p) = RemoveChange) (mock_tracker m))"

definition mock_clear_cache :: "'v mock \<Rightarrow> 'v mock" where
  "mock_clear_cache m = m\<lparr>mock_tracker := []\<rparr>"

definition mock_save_state :: "'v mock \<Rightarrow> 'v mock" where
  "mock_save_state m =
     m\<lparr>mock_tracker := fold dict_del (states_to_remove (mock_tracker m)) (mark_unmodified (mock_tracker m))\<rparr>"

section \<open>The mock behaves as a map\<close>

fun mock_call :: "'v state_call \<Rightarrow> 'v mock \<Rightarrow> 'v state_answer res \<times> 'v mock" where
  "mock_call (AddState k v) m = (case mock_add_state k v m of (r, m') \<Rightarrow> (map_sum id (\<lambda>_. Done) r, m'))"
| "mock_call (TryAddState k v) m = (case mock_try_add_state k v m of (b, m') \<Rightarrow> (Inr (Flag b), m'))"
| "mock_call (GetState k) m = (case mock_get_state k m of (r, m') \<Rightarrow> (map_sum id Value r, m'))"
| "mock_call (TryGetState k) m = (case mock_try_get_state k m of ((h, v), m') \<Rightarrow> (Inr (Loaded h v), m'))"
| "mock_call (SetState k v ttl) m = (Inr Done, mock_set_state_ttl k v ttl m)"
| "mock_call (RemoveState k) m = (case mock_remove_state k m of (r, m') \<Rightarrow> (map_sum id (\<lambda>_. Done) r, m'))"
| "mock_call (TryRemoveState k) m = (case mock_try_remove_state k m of (b, m') \<Rightarrow> (Inr (Flag b), m'))"
| "mock_call (ContainsState k) m = (Inr (Flag (mock_contains_state k m)), m)"
| "mock_call (GetOrAddState k v) m = (case mock_get_or_add_state k v m of (w, m') \<Rightarrow> (Inr (Value w), m'))"
| "mock_call (AddOrUpdateState k v f) m =
     (case mock_add_or_update_state k v (Some (\<lambda>n w. Inr (f n w))) m of (r, m') \<Rightarrow> (map_sum id Value r, m'))"

definition mock_view :: "'v mock \<Rightarrow> 'v amap" where
  "mock_view m = view_of (dict_get (mock_state m)) (mock_tracker m)"

lemmas mock_defs = mock_add_state_def mock_try_add_state_def mock_get_state_def mock_try_get_state_def
  mock_set_state_ttl_def mock_remove_state_def mock_try_remove_state_def mock_contains_state_def
  mock_get_or_add_state_def mock_add_or_update_state_def mock_is_marked_for_remove_def
  mock_track_def mock_write_def mock_drop_def

lemma mock_call_simulates:
  "spec_call c (mock_view m) = (fst (mock_call c m), mock_view (snd (mock_call c m)))"
proof (cases "dict_get (mock_tracker m) (call_key c)")
  case None
  then have "mock_view m (call_key c) = dict_get (mock_state m) (call_key c)"
    by (simp add: mock_view_def view_of_def)
  with None show ?thesis
    by (cases c; cases "dict_get (mock_state m) (call_key c)")
      (auto simp: mock_defs mock_view_def view_of_def dict_has_def dict_get_set dict_get_del fun_eq_iff split: option.split)
next
  case (Some md)
  then have "mock_view m (call_key c) = (if md_kind md = RemoveChange then None else Some (md_value md))"
    by (simp add: mock_view_def view_of_def)
  with Some show ?thesis
    by (cases c; cases "md_kind md")
      (auto simp: mock_defs mock_view_def view_of_def dict_has_def dict_get_set dict_get_del fun_eq_iff split: option.split)
qed

fun mock_calls :: "'v state_call list \<Rightarrow> 'v mock \<Rightarrow> 'v state_answer res list \<times> 'v mock" where
  "mock_calls [] m = ([], m)"
| "mock_calls (c # cs) m =
     (case mock_call c m of (r, m1) \<Rightarrow> case mock_calls cs m1 of (rs, m2) \<Rightarrow> (r # rs, m2))"

lemma mock_calls_simulate: "spec_calls cs (mock_view m) = (fst (mock_calls cs m), mock_view (snd (mock_calls cs m)))"
  by (induction cs arbitrary: m) (simp_all add: mock_call_simulates split: prod.split)

text \<open>
  The mock answers like the real manager: for every sequence of operations on a fresh actor, the mock
  started with a dict gives the answers that the state manager gives over a store that holds this dict.
\<close>

theorem mock_matches_real:
  assumes "stores deser read (dict_get d)"
  shows "fst (mock_calls cs (new_mock (Some d))) = fst (run_calls deser read cs new_state_manager)"
proof -
  have "mock_view (new_mock (Some d)) = view (dict_get d) new_state_manager"
    by (simp add: mock_view_def view_def new_mock_def new_state_manager_def state_tracker_def)
  with mock_calls_simulate [of cs "new_mock (Some d)"]
    run_calls_simulate [OF assms new_tracker_ok, of cs _ "snd (run_calls deser read cs new_state_manager)"]
  show ?thesis by (metis fst_conv prod.collapse)
qed

theorem mock_matches_real_witness:
  "fst (mock_calls [TryAddState ''a'' None, RemoveState ''a''] (new_mock (Some [(''a'', Some ''1'')]))) =
     fst (run_calls demo_deser demo_read [TryAddState ''a'' None, RemoveState ''a''] new_state_manager)"
proof -
  have "dict_get [(''a'', Some ''1'')] = [''a'' \<mapsto> Some ''1'']" by (simp add: dict_simps fun_eq_iff)
  then show ?thesis using mock_matches_real [of demo_deser demo_read "[(''a'', Some ''1'')]"] demo_stores by metis
qed

text \<open>
  The mock loses a re-added name: after removing a name and adding it again with \<open>try_add_state\<close>, and
  saving, the name is found as long as it is cached, but not after \<open>clear_cache\<close>; adding the name with
  \<open>set_state\<close> in its place keeps it.
\<close>

lemma mock_forgets_readded:
  assumes "dict_get d k = Some w"
  shows "fst (mock_try_get_state k (mock_clear_cache (mock_save_state
       (snd (mock_calls [RemoveState k, TryAddState k v] (new_mock (Some d))))))) = (False, None) \<and>
    fst (mock_try_get_state k (mock_clear_cache (mock_save_state
       (snd (mock_calls [RemoveState k, SetState k v None] (new_mock (Some d))))))) = (True, v)"
  using assms
  by (simp add: mock_defs new_mock_def dict_has_def dict_simps mock_clear_cache_def mock_save_state_def
      dict_get_set dict_get_del)

end
